(* ===== verification/Prelude.thy ===== *)
theory Prelude
  imports Complex_Main "HOL-Library.Char_ord" "HOL-Library.List_Lexorder"
begin

text \<open>
  Shared vocabulary of the development: Python floats, exceptions as values of a sum type,
  Python's rounding, the string operations the source uses, and the interfaces (locales)
  that several components share.

  A Python float is a finite number or one of the three non-finite values. The non-finite
  values and their comparisons follow IEEE 754, because the source's fail-closed tests
  (\<open>math.isfinite\<close>, \<open>not x > 0\<close>) are about exactly these. Finite arithmetic is exact: the
  last-bit rounding of binary64 is not modelled.
\<close>

named_theorems fp_simps \<open>evaluation of Python float operations on finite arguments\<close>

section \<open>Exceptions as values\<close>

text \<open>The program's own exceptions are the last but one; an \<open>EnvelopeError\<close> carries its reason code.\<close>

datatype exc = ValueError | TypeError | KeyError | IndexError | ZeroDivisionError | TimeoutError
  | AttributeError | OverflowError | ContractError | MandateError | EnvelopeError string | OtherError

type_synonym 'a res = "exc + 'a"

definition rbind :: "'e + 'a \<Rightarrow> ('a \<Rightarrow> 'e + 'b) \<Rightarrow> 'e + 'b" where
  "rbind r f = (case r of Inl e \<Rightarrow> Inl e | Inr x \<Rightarrow> f x)"

definition rmap :: "('a \<Rightarrow> 'b) \<Rightarrow> 'e + 'a \<Rightarrow> 'e + 'b" where
  "rmap f r = (case r of Inl e \<Rightarrow> Inl e | Inr x \<Rightarrow> Inr (f x))"

lemma rbind_simps [simp]: "rbind (Inl e) f = Inl e" "rbind (Inr x) f = f x"
  by (simp_all add: rbind_def)

lemma rmap_simps [simp]: "rmap f (Inl e) = Inl e" "rmap f (Inr x) = Inr (f x)"
  by (simp_all add: rmap_def)

lemma rbind_Inr_iff: "rbind r f = Inr y \<longleftrightarrow> (\<exists>x. r = Inr x \<and> f x = Inr y)"
  by (cases r) auto

lemma rmap_Inr_iff: "rmap f r = Inr y \<longleftrightarrow> (\<exists>x. r = Inr x \<and> y = f x)"
  by (cases r) auto

lemma find_filter: "List.find P xs = (case filter P xs of [] \<Rightarrow> None | x # _ \<Rightarrow> Some x)"
  by (induction xs) auto

section \<open>State with errors\<close>

definition sbind :: "'s \<times> 'a res \<Rightarrow> ('s \<Rightarrow> 'a \<Rightarrow> 's \<times> 'b res) \<Rightarrow> 's \<times> 'b res" where
  "sbind m f = (case m of (s, Inl e) \<Rightarrow> (s, Inl e) | (s, Inr x) \<Rightarrow> f s x)"

lemma sbind_simps [simp]: "sbind (s, Inl e) f = (s, Inl e)" "sbind (s, Inr x) f = f s x"
  by (simp_all add: sbind_def)

section \<open>Python floats\<close>

datatype pyfloat = Fin real | PInf | NInf | NaN

instantiation pyfloat :: "{zero, one, plus, uminus, minus, times, abs, ord}"
begin

definition zero_pyfloat :: pyfloat where
  "zero_pyfloat = Fin 0"

definition one_pyfloat :: pyfloat where
  "one_pyfloat = Fin 1"

fun plus_pyfloat :: "pyfloat \<Rightarrow> pyfloat \<Rightarrow> pyfloat" where
  "plus_pyfloat (Fin a) (Fin b) = Fin (a + b)"
| "plus_pyfloat NaN _ = NaN"
| "plus_pyfloat _ NaN = NaN"
| "plus_pyfloat PInf NInf = NaN"
| "plus_pyfloat NInf PInf = NaN"
| "plus_pyfloat PInf _ = PInf"
| "plus_pyfloat _ PInf = PInf"
| "plus_pyfloat NInf _ = NInf"
| "plus_pyfloat _ NInf = NInf"

fun uminus_pyfloat :: "pyfloat \<Rightarrow> pyfloat" where
  "uminus_pyfloat (Fin a) = Fin (- a)"
| "uminus_pyfloat PInf = NInf"
| "uminus_pyfloat NInf = PInf"
| "uminus_pyfloat NaN = NaN"

definition minus_pyfloat :: "pyfloat \<Rightarrow> pyfloat \<Rightarrow> pyfloat" where
  "minus_pyfloat x y = x + (- y)"

fun times_pyfloat :: "pyfloat \<Rightarrow> pyfloat \<Rightarrow> pyfloat" where
  "times_pyfloat (Fin a) (Fin b) = Fin (a * b)"
| "times_pyfloat NaN _ = NaN"
| "times_pyfloat _ NaN = NaN"
| "times_pyfloat (Fin a) PInf = (if a = 0 then NaN else if 0 < a then PInf else NInf)"
| "times_pyfloat (Fin a) NInf = (if a = 0 then NaN else if 0 < a then NInf else PInf)"
| "times_pyfloat PInf (Fin a) = (if a = 0 then NaN else if 0 < a then PInf else NInf)"
| "times_pyfloat NInf (Fin a) = (if a = 0 then NaN else if 0 < a then NInf else PInf)"
| "times_pyfloat PInf PInf = PInf"
| "times_pyfloat PInf NInf = NInf"
| "times_pyfloat NInf PInf = NInf"
| "times_pyfloat NInf NInf = PInf"

fun abs_pyfloat :: "pyfloat \<Rightarrow> pyfloat" where
  "abs_pyfloat (Fin a) = Fin \<bar>a\<bar>"
| "abs_pyfloat PInf = PInf"
| "abs_pyfloat NInf = PInf"
| "abs_pyfloat NaN = NaN"

fun less_pyfloat :: "pyfloat \<Rightarrow> pyfloat \<Rightarrow> bool" where
  "less_pyfloat (Fin a) (Fin b) = (a < b)"
| "less_pyfloat (Fin a) PInf = True"
| "less_pyfloat NInf (Fin b) = True"
| "less_pyfloat NInf PInf = True"
| "less_pyfloat _ _ = False"

fun less_eq_pyfloat :: "pyfloat \<Rightarrow> pyfloat \<Rightarrow> bool" where
  "less_eq_pyfloat NaN _ = False"
| "less_eq_pyfloat _ NaN = False"
| "less_eq_pyfloat (Fin a) (Fin b) = (a \<le> b)"
| "less_eq_pyfloat _ PInf = True"
| "less_eq_pyfloat NInf _ = True"
| "less_eq_pyfloat _ _ = False"

instance ..

end

definition feq :: "pyfloat \<Rightarrow> pyfloat \<Rightarrow> bool" where
  \<comment> \<open>Python's \<open>==\<close>: NaN equals nothing\<close>
  "feq x y \<longleftrightarrow> x \<noteq> NaN \<and> x = y"

fun isfinite :: "pyfloat \<Rightarrow> bool" where
  "isfinite (Fin _) = True"
| "isfinite _ = False"

fun fdiv :: "pyfloat \<Rightarrow> pyfloat \<Rightarrow> pyfloat" where
  \<comment> \<open>a zero divisor raises in Python; every use in the model stands behind the source's own
     test that excludes it, so the value there is never looked at\<close>
  "fdiv (Fin a) (Fin b) = (if b = 0 then NaN else Fin (a / b))"
| "fdiv NaN _ = NaN"
| "fdiv _ NaN = NaN"
| "fdiv (Fin a) PInf = Fin 0"
| "fdiv (Fin a) NInf = Fin 0"
| "fdiv PInf (Fin b) = (if 0 \<le> b then PInf else NInf)"
| "fdiv NInf (Fin b) = (if 0 \<le> b then NInf else PInf)"
| "fdiv _ _ = NaN"

definition pymax :: "pyfloat \<Rightarrow> pyfloat \<Rightarrow> pyfloat" where
  \<comment> \<open>\<open>max(x, y)\<close> keeps its first argument unless the second compares greater\<close>
  "pymax x y = (if x < y then y else x)"

definition pymin :: "pyfloat \<Rightarrow> pyfloat \<Rightarrow> pyfloat" where
  "pymin x y = (if y < x then y else x)"

definition fsum :: "pyfloat list \<Rightarrow> pyfloat" where
  \<comment> \<open>\<open>sum(xs)\<close>, from the left with start 0\<close>
  "fsum xs = foldl (+) 0 xs"

definition truthy :: "pyfloat \<Rightarrow> bool" where
  \<comment> \<open>the truth value of a float: every value but zero, NaN included\<close>
  "truthy x \<longleftrightarrow> x \<noteq> 0"

definition the_fin :: "pyfloat \<Rightarrow> real" where
  "the_fin x = (case x of Fin r \<Rightarrow> r | _ \<Rightarrow> 0)"

lemma Fin_zero [fp_simps]: "(0 :: pyfloat) = Fin 0"
  by (simp add: zero_pyfloat_def)

lemma Fin_one [fp_simps]: "(1 :: pyfloat) = Fin 1"
  by (simp add: one_pyfloat_def)

lemma Fin_arith [simp]:
  "Fin a - Fin b = Fin (a - b)" "Fin a < Fin b \<longleftrightarrow> a < b" "Fin a \<le> Fin b \<longleftrightarrow> a \<le> b"
  by (simp_all add: minus_pyfloat_def)

lemma Fin_zero_cmp [simp]:
  "Fin a \<le> 0 \<longleftrightarrow> a \<le> 0" "Fin a < 0 \<longleftrightarrow> a < 0" "0 \<le> Fin a \<longleftrightarrow> 0 \<le> a" "0 < Fin a \<longleftrightarrow> 0 < a"
  by (simp_all add: zero_pyfloat_def)

lemma zero_le_zero [simp]: "(0 :: pyfloat) \<le> 0" "\<not> (0 :: pyfloat) < 0"
  by (simp_all add: zero_pyfloat_def)

lemma Fin_zero_eq [simp]: "Fin a = 0 \<longleftrightarrow> a = 0" "0 = Fin a \<longleftrightarrow> a = 0"
  by (auto simp: zero_pyfloat_def)

lemma feq_Fin [simp]: "feq (Fin a) (Fin b) \<longleftrightarrow> a = b"
  by (auto simp: feq_def)

lemma fdiv_Fin: "b \<noteq> 0 \<Longrightarrow> fdiv (Fin a) (Fin b) = Fin (a / b)"
  by simp

lemma pymax_Fin [simp]: "pymax (Fin a) (Fin b) = Fin (max a b)"
  by (simp add: pymax_def max_def)

lemma pymin_Fin [simp]: "pymin (Fin a) (Fin b) = Fin (min a b)"
  by (auto simp: pymin_def min_def)

lemma isfinite_iff: "isfinite x \<longleftrightarrow> (\<exists>r. x = Fin r)"
  by (cases x) auto

lemma isfiniteE [elim!]: "isfinite x \<Longrightarrow> (\<And>r. x = Fin r \<Longrightarrow> P) \<Longrightarrow> P"
  by (cases x) auto

lemma foldl_plus_Fin:
  "foldl (+) (Fin a) (map (\<lambda>x. Fin (f x)) xs) = Fin (a + sum_list (map f xs))"
  by (induction xs arbitrary: a) (simp_all add: add.assoc)

lemma fsum_Fin: "fsum (map (\<lambda>x. Fin (f x)) xs) = Fin (sum_list (map f xs))"
  by (simp add: fsum_def zero_pyfloat_def foldl_plus_Fin)

lemma pyfloat_add_assoc: "(x + y) + z = x + (y + (z :: pyfloat))"
  by (cases x; cases y; cases z) simp_all

lemma pyfloat_add_commute: "x + y = y + (x :: pyfloat)"
  by (cases x; cases y) simp_all

lemma pyfloat_add_0 [simp]: "0 + x = x" "x + 0 = (x :: pyfloat)"
  by (cases x; simp add: zero_pyfloat_def)+

lemma abs_pyfloat_nonneg: "x \<noteq> NaN \<Longrightarrow> 0 \<le> \<bar>x :: pyfloat\<bar>"
  by (cases x) (simp_all add: zero_pyfloat_def)

lemma NaN_cmp [simp]: "\<not> NaN < x" "\<not> x < NaN" "\<not> NaN \<le> x" "\<not> x \<le> NaN"
  by (cases x; simp)+

lemma pos_cases: "0 < x \<Longrightarrow> (\<exists>r. x = Fin r \<and> 0 < r) \<or> x = PInf"
  by (cases x) (auto simp: zero_pyfloat_def)

section \<open>Rounding\<close>

definition round_half_even :: "real \<Rightarrow> int" where
  \<comment> \<open>Python's \<open>round(x)\<close>: to the nearest integer, ties to the even one\<close>
  "round_half_even x =
     (let f = \<lfloor>x\<rfloor>; d = x - of_int f in
      if d < 1 / 2 then f else if 1 / 2 < d then f + 1 else if even f then f else f + 1)"

definition round_digits :: "nat \<Rightarrow> real \<Rightarrow> real" where
  \<comment> \<open>Python's \<open>round(x, n)\<close>\<close>
  "round_digits n x = of_int (round_half_even (x * 10 ^ n)) / 10 ^ n"

definition round_to :: "nat \<Rightarrow> pyfloat \<Rightarrow> pyfloat" where
  \<comment> \<open>\<open>round(x, n)\<close> of a float: infinities and NaN round to themselves\<close>
  "round_to n x = (case x of Fin v \<Rightarrow> Fin (round_digits n v) | _ \<Rightarrow> x)"

lemma round_half_even_near: "\<bar>of_int (round_half_even x) - x\<bar> \<le> 1 / 2"
  unfolding round_half_even_def Let_def by (simp split: if_splits)

lemma round_half_even_int [simp]: "round_half_even (of_int k) = k"
  by (simp add: round_half_even_def)

lemma round_half_even_mono: "x \<le> y \<Longrightarrow> round_half_even x \<le> round_half_even y"
proof -
  assume le: "x \<le> y"
  then have fl: "\<lfloor>x\<rfloor> \<le> \<lfloor>y\<rfloor>" by (rule floor_mono)
  show ?thesis
  proof (cases "\<lfloor>x\<rfloor> = \<lfloor>y\<rfloor>")
    case True
    with le show ?thesis by (auto simp: round_half_even_def Let_def)
  next
    case False
    with fl have "\<lfloor>x\<rfloor> + 1 \<le> \<lfloor>y\<rfloor>" by simp
    then show ?thesis by (auto simp: round_half_even_def Let_def)
  qed
qed

lemma round_half_even_ge: "of_int k \<le> x \<Longrightarrow> k \<le> round_half_even x"
  using round_half_even_mono [of "of_int k" x] by simp

lemma round_half_even_le: "x \<le> of_int k \<Longrightarrow> round_half_even x \<le> k"
  using round_half_even_mono [of x "of_int k"] by simp

section \<open>Strings\<close>

definition is_space :: "char \<Rightarrow> bool" where
  \<comment> \<open>the white space of ASCII, as \<open>str.isspace\<close> has it\<close>
  "is_space c \<longleftrightarrow> c \<in> {CHR '' '', CHR 0x09, CHR 0x0A, CHR 0x0B, CHR 0x0C, CHR 0x0D, CHR 0x1C,
     CHR 0x1D, CHR 0x1E, CHR 0x1F}"

definition strip :: "string \<Rightarrow> string" where
  "strip s = rev (dropWhile is_space (rev (dropWhile is_space s)))"

definition char_upper :: "char \<Rightarrow> char" where
  "char_upper c = (if CHR ''a'' \<le> c \<and> c \<le> CHR ''z'' then char_of (of_char c - 32 :: nat) else c)"

definition char_lower :: "char \<Rightarrow> char" where
  "char_lower c = (if CHR ''A'' \<le> c \<and> c \<le> CHR ''Z'' then char_of (of_char c + 32 :: nat) else c)"

definition str_upper :: "string \<Rightarrow> string" where
  "str_upper = map char_upper"

definition str_lower :: "string \<Rightarrow> string" where
  "str_lower = map char_lower"

definition str_or :: "string option \<Rightarrow> string \<Rightarrow> string" where
  \<comment> \<open>\<open>x or d\<close> on an optional string: \<open>None\<close> and the empty string are both falsy\<close>
  "str_or x d = (case x of None \<Rightarrow> d | Some s \<Rightarrow> if s = [] then d else s)"

lemma length_str_case [simp]: "length (str_upper s) = length s" "length (str_lower s) = length s"
  by (simp_all add: str_upper_def str_lower_def)

lemma set_dropWhile_sub: "set (dropWhile P xs) \<subseteq> set xs"
  by (auto dest: set_dropWhileD)

end
