(* ===== verification/Interfaces.thy ===== *)
theory Interfaces
  imports Prelude
begin

text \<open>
  The interfaces between components, as locales. \<open>check_table\<close> is an ordered table of named
  checks and its report of failures (the pre-trade guard and the house gate both are one).
  \<open>invariant_machine\<close> and \<open>monotone_machine\<close> are state machines driven by a list of events.
  \<open>once_only\<close> is a table that remembers what a machine has accepted, so that it accepts it once.
  \<open>price_grid\<close> is the tick grid that the order policy and the stop planner place prices on.
\<close>

section \<open>Ordered tables of checks\<close>

locale check_table =
  fixes table :: "'n list"
    and check :: "'c \<Rightarrow> 'n \<Rightarrow> 'f option"
    and report :: "'c \<Rightarrow> ('n \<times> 'f) list"
  assumes report_eq:
    "report c = List.map_filter (\<lambda>n. map_option (Pair n) (check c n)) table"
begin

lemma report_set: "set (report c) = {(n, f). n \<in> set table \<and> check c n = Some f}"
  by (force simp: report_eq List.map_filter_def image_iff)

lemma report_names: "map fst (report c) = filter (\<lambda>n. check c n \<noteq> None) table"
  unfolding report_eq List.map_filter_def by (induction table) auto

lemma report_empty_iff: "report c = [] \<longleftrightarrow> (\<forall>n \<in> set table. check c n = None)"
  by (auto simp: report_eq List.map_filter_def filter_empty_conv)

lemma failure_reported: "n \<in> set table \<Longrightarrow> check c n = Some f \<Longrightarrow> (n, f) \<in> set (report c)"
  by (auto simp: report_set)

lemma report_hd:
  assumes "report c = (n, f) # rest"
  shows "check c n = Some f \<and>
    (\<exists>pre post. table = pre @ n # post \<and> (\<forall>m \<in> set pre. check c m = None))"
proof -
  have hd: "filter (\<lambda>n. check c n \<noteq> None) table = n # map fst rest"
    using report_names [of c] assms by simp
  then obtain pre post where "table = pre @ n # post" "\<forall>m \<in> set pre. check c m = None"
    by (auto simp: filter_eq_Cons_iff)
  moreover have "check c n = Some f"
    using report_set [of c] assms by auto
  ultimately show ?thesis by blast
qed

end

section \<open>State machines over a list of events\<close>

locale invariant_machine =
  fixes step :: "'s \<Rightarrow> 'e \<Rightarrow> 's"
    and inv :: "'s \<Rightarrow> bool"
  assumes step_inv: "inv s \<Longrightarrow> inv (step s e)"
begin

lemma run_inv: "inv s \<Longrightarrow> inv (foldl step s es)"
  by (induction es arbitrary: s) (auto intro: step_inv)

end

text \<open>
  A monotone machine also carries, for each key, a value that only moves up an order \<open>below\<close>
  from one step to the next.
\<close>

locale monotone_machine = invariant_machine +
  fixes below :: "'v \<Rightarrow> 'v \<Rightarrow> bool"
    and look :: "'s \<Rightarrow> 'k \<Rightarrow> 'v"
  assumes below_refl: "below v v"
    and below_trans: "below u v \<Longrightarrow> below v w \<Longrightarrow> below u w"
    and step_below: "inv s \<Longrightarrow> below (look s k) (look (step s e) k)"
begin

lemma run_below: "inv s \<Longrightarrow> below (look s k) (look (foldl step s es) k)"
proof (induction es arbitrary: s)
  case Nil
  show ?case by (simp add: below_refl)
next
  case (Cons e es)
  then have "below (look (step s e) k) (look (foldl step (step s e) es) k)"
    using step_inv by blast
  with Cons.prems show ?case
    using step_below below_trans by (metis foldl_Cons)
qed

lemma prefix_below:
  "inv s \<Longrightarrow> below (look (foldl step s es) k) (look (foldl step s (es @ fs)) k)"
  using run_below [OF run_inv] by simp

end

section \<open>The price grid\<close>

text \<open>
  What the order policy and the stop planner rely on when they place a price: rounding moves a
  price by at most half a tick, a rounded price is a fixed point, and the coarse tick bounds
  every tick.
\<close>

locale price_grid =
  fixes rnd :: "real \<Rightarrow> real"
    and tick :: "real \<Rightarrow> real"
    and coarse :: real
  assumes near: "\<bar>rnd x - x\<bar> \<le> tick x / 2"
    and idem: "rnd (rnd x) = rnd x"
    and tick_pos: "0 < tick x"
    and tick_le: "tick x \<le> coarse"
    and tick_rnd: "tick x \<le> tick (rnd x)"
    and rnd_mono: "x \<le> y \<Longrightarrow> rnd x \<le> rnd y"
    and up_tick: "rnd (rnd x + tick (rnd x)) = rnd x + tick (rnd x)"
    and down_tick: "rnd (rnd x - tick (rnd x)) = rnd x - tick (rnd x)"
begin

lemma near_tick: "\<bar>rnd x - x\<bar> \<le> tick (rnd x) / 2"
  using near [of x] tick_rnd [of x] by linarith

lemma near_coarse: "\<bar>rnd x - x\<bar> \<le> coarse / 2"
  using near [of x] tick_le [of x] by linarith

lemma rnd_shift_below: "rnd (x - coarse) < x"
  using near_coarse [of "x - coarse"] tick_pos [of x] tick_le [of x] by linarith

lemma rnd_shift_above: "x < rnd (x + coarse)"
  using near_coarse [of "x + coarse"] tick_pos [of x] tick_le [of x] by linarith

text \<open>
  The four placements: a crossing price is pushed over the touch by one tick only when rounding
  left it short, a resting price is pulled back by one tick only when rounding crossed.
\<close>

lemma cross_above:
  "p < raw \<Longrightarrow> p < (if rnd raw \<le> p then rnd (rnd raw + tick (rnd raw)) else rnd raw)"
  using near_tick [of raw] tick_pos [of "rnd raw"] up_tick [of raw] by (auto simp: abs_le_iff)

lemma cross_below:
  "raw < p \<Longrightarrow> (if p \<le> rnd raw then rnd (rnd raw - tick (rnd raw)) else rnd raw) < p"
  using near_tick [of raw] tick_pos [of "rnd raw"] down_tick [of raw] by (auto simp: abs_le_iff)

lemma rest_below:
  "(if p < rnd p then rnd (rnd p - tick (rnd p)) else rnd p) \<le> p"
  using near_tick [of p] tick_pos [of "rnd p"] down_tick [of p] by (auto simp: abs_le_iff)

lemma rest_above:
  "p \<le> (if rnd p < p then rnd (rnd p + tick (rnd p)) else rnd p)"
  using near_tick [of p] tick_pos [of "rnd p"] up_tick [of p] by (auto simp: abs_le_iff)

end

section \<open>Accepting once\<close>

fun accepted :: "('s \<Rightarrow> 'a \<Rightarrow> 's \<times> 'k option) \<Rightarrow> 's \<Rightarrow> 'a list \<Rightarrow> 'k list" where
  \<comment> \<open>the keys a machine accepts over a list of inputs\<close>
  "accepted step s [] = []"
| "accepted step s (a # as) =
     (let (s', k) = step s a in (case k of None \<Rightarrow> [] | Some x \<Rightarrow> [x]) @ accepted step s' as)"

definition only :: "('k \<Rightarrow> bool) \<Rightarrow> ('s \<Rightarrow> 'a \<Rightarrow> 's \<times> 'k option) \<Rightarrow> 's \<Rightarrow> 'a \<Rightarrow> 's \<times> 'k option" where
  \<comment> \<open>the same machine, seen to accept the keys of one kind\<close>
  "only P step s a = (let (s', k) = step s a in (s', case k of None \<Rightarrow> None | Some x \<Rightarrow> if P x then Some x else None))"

abbreviation run_of :: "('s \<Rightarrow> 'a \<Rightarrow> 's \<times> 'b) \<Rightarrow> 's \<Rightarrow> 'a list \<Rightarrow> 's" where
  "run_of step \<equiv> foldl (\<lambda>s a. fst (step s a))"

lemma accepted_only: "accepted (only P step) s as = filter P (accepted step s as)"
  by (induction as arbitrary: s) (auto simp: only_def split: prod.split option.split)

lemma run_only: "run_of (only P step) s as = run_of step s as"
  by (simp add: only_def Let_def split_beta)

locale once_only =
  fixes step :: "'s \<Rightarrow> 'a \<Rightarrow> 's \<times> 'k option"
    and known :: "'s \<Rightarrow> 'k \<Rightarrow> bool"
  assumes fresh: "step s a = (s', Some k) \<Longrightarrow> \<not> known s k"
    and remembered: "step s a = (s', Some k) \<Longrightarrow> known s' k"
    and kept: "step s a = (s', out) \<Longrightarrow> known s k \<Longrightarrow> known s' k"
begin

lemma never_known: "k \<in> set (accepted step s as) \<Longrightarrow> \<not> known s k"
proof (induction as arbitrary: s)
  case (Cons a as)
  obtain s' out where st: "step s a = (s', out)" by (cases "step s a")
  from Cons.prems st consider "out = Some k" | "k \<in> set (accepted step s' as)"
    by (auto split: option.splits)
  then show ?case
  proof cases
    case 1
    with st fresh show ?thesis by blast
  next
    case 2
    with Cons.IH kept [OF st] show ?thesis by blast
  qed
qed simp

lemma run_kept: "known s k \<Longrightarrow> known (run_of step s as) k"
  by (induction as arbitrary: s) (auto intro: kept [OF prod.collapse [symmetric]])

lemma accepted_known: "k \<in> set (accepted step s as) \<Longrightarrow> known (run_of step s as) k"
proof (induction as arbitrary: s)
  case (Cons a as)
  obtain s' out where st: "step s a = (s', out)" by (cases "step s a")
  with Cons remembered [of s a s'] run_kept show ?case by (auto split: option.splits)
qed simp

lemma accepted_distinct: "distinct (accepted step s as)"
proof (induction as arbitrary: s)
  case (Cons a as)
  obtain s' out where st: "step s a = (s', out)" by (cases "step s a")
  show ?case
  proof (cases out)
    case (Some k)
    with st remembered never_known [of k s' as] Cons.IH [of s'] show ?thesis by auto
  qed (use st Cons.IH in simp)
qed simp

end

end
