(* ===== verification/Prices.thy ===== *)
theory Prices
  imports Interfaces
begin

text \<open>
  \<open>signald/order/prices.py\<close>: the tick rule, rounding onto the grid and the validator. The real
  function \<open>grid_round\<close> is what \<open>round_price\<close> computes on a finite price with the default tick;
  it interprets the locale \<open>price_grid\<close>, on which the policy and the stops are proved.
\<close>

section \<open>Definitions\<close>

definition TICK_LARGE :: pyfloat where
  "TICK_LARGE = Fin (1 / 100)"

definition TICK_SMALL :: pyfloat where
  "TICK_SMALL = Fin (1 / 10000)"

definition LARGE_PRICE_THRESHOLD :: pyfloat where
  "LARGE_PRICE_THRESHOLD = Fin 1"

definition tick_for :: "pyfloat \<Rightarrow> pyfloat" where
  "tick_for price = (if LARGE_PRICE_THRESHOLD \<le> \<bar>price\<bar> then TICK_LARGE else TICK_SMALL)"

definition round_price :: "pyfloat \<Rightarrow> pyfloat option \<Rightarrow> pyfloat res" where
  "round_price price tick =
     (case price of
        Fin v \<Rightarrow>
          (let step = (case tick of None \<Rightarrow> tick_for price | Some t \<Rightarrow> t) in
           if step \<le> 0 then Inl ValueError
           else if feq step TICK_LARGE then Inr (Fin (round_digits 2 v))
           else if feq step TICK_SMALL then Inr (Fin (round_digits 4 v))
           else (case step of
                   Fin s \<Rightarrow> Inr (Fin (of_int (round_half_even (v / s)) * s))
                 | _ \<Rightarrow> Inl ValueError))
      | _ \<Rightarrow> Inl ValueError)"

definition price_is_on_grid :: "pyfloat \<Rightarrow> pyfloat option \<Rightarrow> bool" where
  "price_is_on_grid price tick =
     (let step = (case tick of None \<Rightarrow> tick_for price | Some t \<Rightarrow> t) in
      if step \<le> 0 then False
      else (case round_price price (Some step) of Inl _ \<Rightarrow> False | Inr r \<Rightarrow> feq r price))"

section \<open>The grid on finite prices\<close>

definition grid_tick :: "real \<Rightarrow> real" where
  "grid_tick x = (if 1 \<le> \<bar>x\<bar> then 1 / 100 else 1 / 10000)"

definition grid_round :: "real \<Rightarrow> real" where
  "grid_round x = (if 1 \<le> \<bar>x\<bar> then round_digits 2 x else round_digits 4 x)"

lemma tick_for_Fin [simp]: "tick_for (Fin x) = Fin (grid_tick x)"
  by (simp add: tick_for_def grid_tick_def LARGE_PRICE_THRESHOLD_def TICK_LARGE_def TICK_SMALL_def)

lemma round_price_Fin [simp]: "round_price (Fin x) None = Inr (Fin (grid_round x))"
  by (simp add: round_price_def grid_round_def grid_tick_def TICK_LARGE_def TICK_SMALL_def)

lemma round_price_InrD: "round_price p t = Inr q \<Longrightarrow> \<exists>x y. p = Fin x \<and> q = Fin y"
  by (auto simp: round_price_def Let_def split: pyfloat.splits if_splits)

lemma price_on_grid_Fin [simp]: "price_is_on_grid (Fin x) None \<longleftrightarrow> grid_round x = x"
  by (simp add: price_is_on_grid_def round_price_def grid_round_def grid_tick_def TICK_LARGE_def
      TICK_SMALL_def)

lemma round_digits_near: "\<bar>round_digits n x - x\<bar> \<le> 1 / (2 * 10 ^ n)"
proof -
  have "round_digits n x - x = (of_int (round_half_even (x * 10 ^ n)) - x * 10 ^ n) / 10 ^ n"
    by (simp add: round_digits_def field_simps)
  then have "\<bar>round_digits n x - x\<bar> = \<bar>of_int (round_half_even (x * 10 ^ n)) - x * 10 ^ n\<bar> / 10 ^ n"
    by simp
  also have "\<dots> \<le> (1 / 2) / 10 ^ n"
    using round_half_even_near by (intro divide_right_mono) auto
  finally show ?thesis by simp
qed

lemma round_digits_grid [simp]: "round_digits n (of_int k / 10 ^ n) = of_int k / 10 ^ n"
  by (simp add: round_digits_def)

lemma round_digits_idem [simp]: "round_digits n (round_digits n x) = round_digits n x"
  by (subst (2) round_digits_def) (subst (2) round_digits_def, simp)

lemma round_digits_mono: "x \<le> y \<Longrightarrow> round_digits n x \<le> round_digits n y"
  by (simp add: round_digits_def divide_right_mono round_half_even_mono)

lemma round_digits_bounds:
  "real_of_int k \<le> x \<Longrightarrow> of_int k \<le> round_digits n x"
  "x \<le> real_of_int k \<Longrightarrow> round_digits n x \<le> of_int k"
  using round_digits_mono [of "real_of_int k" x n] round_digits_mono [of x "real_of_int k" n]
    round_digits_grid [of n "k * 10 ^ n"] by auto

lemma round_digits_one:
  "1 \<le> x \<Longrightarrow> 1 \<le> round_digits n x" "x \<le> 1 \<Longrightarrow> round_digits n x \<le> 1"
  "-1 \<le> x \<Longrightarrow> -1 \<le> round_digits n x" "x \<le> -1 \<Longrightarrow> round_digits n x \<le> -1"
  using round_digits_bounds(1) [of 1 x n] round_digits_bounds(1) [of "-1" x n]
    round_digits_bounds(2) [of x 1 n] round_digits_bounds(2) [of x "-1" n] by simp_all

lemma round_digits_4_of_2: "round_digits 4 (round_digits 2 x) = round_digits 2 x"
proof -
  let ?k = "round_half_even (x * 10 ^ 2)"
  have "round_digits 2 x = of_int (?k * 100) / 10 ^ 4" by (simp add: round_digits_def)
  then show ?thesis by (metis round_digits_grid)
qed

lemma round_digits_2_unit: "\<bar>round_digits 4 x\<bar> = 1 \<Longrightarrow> round_digits 2 (round_digits 4 x) = round_digits 4 x"
  using round_digits_grid [of 2 100] round_digits_grid [of 2 "-100"]
  by (auto simp: abs_eq_iff' abs_if split: if_splits)

lemma abs_grid_round_ge: "1 \<le> \<bar>x\<bar> \<Longrightarrow> 1 \<le> \<bar>grid_round x\<bar>"
  using round_digits_one [of x 2] by (auto simp: grid_round_def abs_if split: if_splits)

lemma abs_grid_round_le: "\<bar>x\<bar> < 1 \<Longrightarrow> \<bar>grid_round x\<bar> \<le> 1"
  using round_digits_one [of x 4] by (auto simp: grid_round_def abs_if split: if_splits)

lemma grid_round_near: "\<bar>grid_round x - x\<bar> \<le> grid_tick x / 2"
  using round_digits_near [of 2 x] round_digits_near [of 4 x]
  by (simp add: grid_round_def grid_tick_def)

lemma grid_round_idem [simp]: "grid_round (grid_round x) = grid_round x"
proof (cases "1 \<le> \<bar>x\<bar>")
  case True
  then show ?thesis using abs_grid_round_ge [OF True] by (simp add: grid_round_def)
next
  case False
  then have "\<bar>round_digits 4 x\<bar> \<le> 1" using abs_grid_round_le [of x] by (simp add: grid_round_def)
  with False show ?thesis using round_digits_2_unit [of x] by (auto simp: grid_round_def)
qed

lemma round_price_gridD: "round_price p None = Inr q \<Longrightarrow> \<exists>v. q = Fin v \<and> grid_round v = v"
  by (cases p) (auto simp: round_price_def [of PInf] round_price_def [of NInf] round_price_def [of NaN])

lemma grid_tick_round: "grid_tick x \<le> grid_tick (grid_round x)"
  using abs_grid_round_ge [of x] by (simp add: grid_tick_def)

lemma grid_round_mono: "x \<le> y \<Longrightarrow> grid_round x \<le> grid_round y"
proof -
  assume le: "x \<le> y"
  consider "1 \<le> \<bar>x\<bar>" "1 \<le> \<bar>y\<bar>" | "\<bar>x\<bar> < 1" "\<bar>y\<bar> < 1" | "x \<le> -1" "\<bar>y\<bar> < 1" | "\<bar>x\<bar> < 1" "1 \<le> y"
    using le by linarith
  then show ?thesis
  proof cases
    case 3
    then show ?thesis
      using round_digits_one(4) [of x 2] round_digits_one(3) [of y 4]
      by (auto simp: grid_round_def abs_if split: if_splits)
  next
    case 4
    then show ?thesis
      using round_digits_one(1) [of y 2] round_digits_one(2) [of x 4]
      by (auto simp: grid_round_def abs_if split: if_splits)
  qed (use le in \<open>simp_all add: grid_round_def round_digits_mono\<close>)
qed

lemma grid_fixed_scaled:
  assumes "grid_round g = g"
  shows "\<exists>k. g = of_int k / 10 ^ 4" "1 \<le> \<bar>g\<bar> \<Longrightarrow> \<exists>k. g = of_int k / 10 ^ 2"
proof -
  show "1 \<le> \<bar>g\<bar> \<Longrightarrow> \<exists>k. g = of_int k / 10 ^ 2"
    using assms by (intro exI [of _ "round_half_even (g * 10 ^ 2)"])
      (simp add: grid_round_def round_digits_def)
  show "\<exists>k. g = of_int k / 10 ^ 4"
  proof (cases "1 \<le> \<bar>g\<bar>")
    case True
    then have "g = of_int (round_half_even (g * 10 ^ 2) * 100) / 10 ^ 4"
      using assms by (simp add: grid_round_def round_digits_def)
    then show ?thesis by blast
  next
    case False
    then have "g = of_int (round_half_even (g * 10 ^ 4)) / 10 ^ 4"
      using assms by (simp add: grid_round_def round_digits_def)
    then show ?thesis by blast
  qed
qed

lemma grid_round_fixed_2: "grid_round (of_int k / 10 ^ 2) = of_int k / 10 ^ 2"
proof -
  have "(of_int k / 10 ^ 2 :: real) = of_int (k * 100) / 10 ^ 4" by simp
  then show ?thesis unfolding grid_round_def by (metis round_digits_grid)
qed

lemma grid_round_fixed_4:
  assumes "\<bar>of_int k / 10 ^ 4 :: real\<bar> \<le> 1"
  shows "grid_round (of_int k / 10 ^ 4) = of_int k / 10 ^ 4"
proof -
  have r4: "round_digits 4 (of_int k / 10 ^ 4) = of_int k / 10 ^ 4"
    by (rule round_digits_grid)
  show ?thesis
    using assms round_digits_2_unit [of "of_int k / 10 ^ 4"] unfolding grid_round_def r4 by auto
qed

lemma grid_up_tick:
  "grid_round (grid_round x + grid_tick (grid_round x)) = grid_round x + grid_tick (grid_round x)"
proof -
  define g where "g = grid_round x"
  have fix_g: "grid_round g = g" by (simp add: g_def)
  have "grid_round (g + grid_tick g) = g + grid_tick g"
  proof (cases "1 \<le> \<bar>g\<bar>")
    case True
    then obtain k where k: "g = of_int k / 10 ^ 2" using grid_fixed_scaled(2) [OF fix_g] by blast
    from True have "g + grid_tick g = of_int (k + 1) / 10 ^ 2"
      by (simp add: grid_tick_def) (simp add: k field_simps)
    then show ?thesis by (simp only: grid_round_fixed_2)
  next
    case False
    then have t: "grid_tick g = 1 / 10000" by (simp add: grid_tick_def)
    obtain k where k: "g = of_int k / 10 ^ 4" using grid_fixed_scaled(1) [OF fix_g] by blast
    have "\<bar>real_of_int k\<bar> < 10000" using False k by (simp add: field_simps)
    then have "\<bar>k + 1\<bar> \<le> 10000" by linarith
    then have "\<bar>of_int (k + 1) / 10 ^ 4 :: real\<bar> \<le> 1" by simp
    moreover have "g + grid_tick g = of_int (k + 1) / 10 ^ 4"
      unfolding t by (simp add: k field_simps)
    ultimately show ?thesis by (simp only: grid_round_fixed_4)
  qed
  then show ?thesis by (simp add: g_def)
qed

lemma grid_round_minus: "grid_round (- x) = - grid_round x"
proof -
  have "round_half_even (- y) = - round_half_even y" for y :: real
  proof (cases "y = of_int \<lfloor>y\<rfloor>")
    case True
    then show ?thesis by (metis of_int_minus round_half_even_int)
  next
    case False
    then have "\<lfloor>- y\<rfloor> = - \<lfloor>y\<rfloor> - 1" by linarith
    then show ?thesis by (auto simp: round_half_even_def Let_def)
  qed
  then show ?thesis by (simp add: grid_round_def round_digits_def)
qed

lemma grid_down_tick:
  "grid_round (grid_round x - grid_tick (grid_round x)) = grid_round x - grid_tick (grid_round x)"
proof -
  have "grid_tick (- y) = grid_tick y" for y by (simp add: grid_tick_def)
  then have "grid_round (- (grid_round x - grid_tick (grid_round x)))
      = - (grid_round x - grid_tick (grid_round x))"
    using grid_up_tick [of "- x"] by (simp add: grid_round_minus algebra_simps)
  then show ?thesis by (simp only: grid_round_minus)
qed

interpretation pg: price_grid grid_round grid_tick "1 / 100"
proof
  show "grid_tick x \<le> 1 / 100" "0 < grid_tick x" for x by (simp_all add: grid_tick_def)
qed (rule grid_round_near grid_round_idem grid_tick_round grid_up_tick grid_down_tick |
     erule grid_round_mono)+

end
