(* ===== verification/RiskState.thy ===== *)
theory RiskState
  imports Prelude "HOL-Library.AList"
begin

text \<open>
  \<open>signald/risk/state.py\<close>: the position, the book, the market and the risk request. A Python
  dict built in a loop is an association list updated in place, so its insertion order is kept.
\<close>

definition SWING :: string where
  "SWING = ''swing''"

definition INTRADAY :: string where
  "INTRADAY = ''intraday''"

definition SLEEVES :: "string list" where
  "SLEEVES = [SWING, INTRADAY]"

section \<open>Positions\<close>

record Position =
  p_symbol :: string
  p_qty :: pyfloat
  p_avg_entry :: pyfloat
  p_sleeve :: string
  p_last :: "pyfloat option"
  p_stop :: "pyfloat option"
  p_setup :: "string option"
  p_sector :: "string option"
  p_cluster :: "string option"
  p_opened_at :: "string option"

definition p_notional :: "Position \<Rightarrow> pyfloat" where
  "p_notional p =
     \<bar>p_qty p\<bar> * (case p_last p of Some price \<Rightarrow> price | None \<Rightarrow> p_avg_entry p)"

definition is_long :: "Position \<Rightarrow> bool" where
  "is_long p \<longleftrightarrow> 0 < p_qty p"

definition open_risk_usd :: "Position \<Rightarrow> pyfloat" where
  "open_risk_usd p =
     (case (p_stop p, p_last p) of
        (Some stop, Some lst) \<Rightarrow> \<bar>lst - stop\<bar> * \<bar>p_qty p\<bar>
      | _ \<Rightarrow> 0)"

definition unrealized_pct :: "Position \<Rightarrow> pyfloat option" where
  "unrealized_pct p =
     (case p_last p of
        None \<Rightarrow> None
      | Some lst \<Rightarrow>
          if \<not> truthy (p_avg_entry p) then None
          else Some (fdiv (lst - p_avg_entry p) (p_avg_entry p)
                       * (if 0 < p_qty p then 1 else - 1)))"

section \<open>The book\<close>

record BookState =
  b_equity :: pyfloat
  b_cash :: pyfloat
  b_positions :: "Position list"
  b_heat_pct :: pyfloat
  b_es_pct :: pyfloat
  b_day_pnl_pct :: pyfloat
  b_five_day_pct :: pyfloat
  b_drawdown_pct :: pyfloat
  b_peak_equity :: "pyfloat option"
  b_net_beta :: "pyfloat option"
  b_trades_today :: "(string \<times> int) list"
  b_sleeve_trades_today :: "(string \<times> int) list"
  b_buying_power :: "pyfloat option"

definition dict_add :: "string \<Rightarrow> pyfloat \<Rightarrow> (string \<times> pyfloat) list \<Rightarrow> (string \<times> pyfloat) list" where
  \<comment> \<open>\<open>d[k] = d.get(k, 0.0) + v\<close>\<close>
  "dict_add k v d =
     AList.update k ((case map_of d k of None \<Rightarrow> 0 | Some x \<Rightarrow> x) + v) d"

definition by_symbol :: "BookState \<Rightarrow> (string \<times> pyfloat) list" where
  "by_symbol b = foldl (\<lambda>net p. dict_add (p_symbol p) (p_qty p) net) [] (b_positions b)"

definition sleeve_deployed :: "BookState \<Rightarrow> string \<Rightarrow> pyfloat" where
  "sleeve_deployed b sleeve =
     fsum (map p_notional (filter (\<lambda>p. p_sleeve p = sleeve) (b_positions b)))"

definition deployed_pct :: "BookState \<Rightarrow> string \<Rightarrow> pyfloat" where
  "deployed_pct b sleeve =
     (if 0 < b_equity b then fdiv (sleeve_deployed b sleeve) (b_equity b) else 0)"

definition b_notional :: "BookState \<Rightarrow> pyfloat" where
  "b_notional b = fsum (map p_notional (b_positions b))"

definition position_for :: "BookState \<Rightarrow> string \<Rightarrow> pyfloat" where
  "position_for b s = (case map_of (by_symbol b) s of None \<Rightarrow> 0 | Some q \<Rightarrow> q)"

definition cluster_key :: "string option \<Rightarrow> string option \<Rightarrow> string \<Rightarrow> string" where
  \<comment> \<open>\<open>cluster or sector or symbol\<close>\<close>
  "cluster_key cluster sector symbol = str_or cluster (str_or sector symbol)"

definition cluster_notional :: "BookState \<Rightarrow> (string \<times> pyfloat) list" where
  "cluster_notional b =
     foldl (\<lambda>out p. dict_add (cluster_key (p_cluster p) (p_sector p) (p_symbol p)) (p_notional p) out)
       [] (b_positions b)"

definition cluster_exposure_share :: "BookState \<Rightarrow> string option \<Rightarrow> pyfloat option" where
  "cluster_exposure_share b key =
     (if b_equity b \<le> 0 then None
      else (let notional = cluster_notional b in
        case key of
          Some k \<Rightarrow> (case map_of notional k of None \<Rightarrow> None | Some v \<Rightarrow> Some (fdiv v (b_equity b)))
        | None \<Rightarrow> (case map snd notional of
                     [] \<Rightarrow> None
                   | v # vs \<Rightarrow> Some (fdiv (foldl pymax v vs) (b_equity b)))))"

definition count_positions :: "BookState \<Rightarrow> string option \<Rightarrow> int" where
  "count_positions b sleeve =
     (case sleeve of
        None \<Rightarrow> int (length (b_positions b))
      | Some s \<Rightarrow> int (length (filter (\<lambda>p. p_sleeve p = s) (b_positions b))))"

definition trades_for :: "BookState \<Rightarrow> string \<Rightarrow> int" where
  "trades_for b s = (case map_of (b_trades_today b) s of None \<Rightarrow> 0 | Some n \<Rightarrow> n)"

section \<open>The market and the risk request\<close>

record MarketState =
  m_symbol :: string
  m_last :: "pyfloat option"
  m_spread_bps :: "pyfloat option"
  m_spread_median_bps :: "pyfloat option"
  m_quote_age_s :: "pyfloat option"
  m_bar_age_s :: "pyfloat option"
  m_session :: "string option"
  m_halted :: bool
  m_reopen_cooldown_s :: "pyfloat option"
  m_tradable :: bool
  m_shortable :: bool
  m_ssr :: bool
  m_adv_shares :: "pyfloat option"
  m_atr :: "pyfloat option"
  m_data_quality :: string
  m_price_caliber :: "string option"
  m_impulse_pct :: "pyfloat option"
  m_news_shock :: bool
  m_last_bar_high :: "pyfloat option"
  m_last_bar_low :: "pyfloat option"

definition spread_blown :: "MarketState \<Rightarrow> pyfloat \<Rightarrow> bool" where
  "spread_blown m multiple =
     (case (m_spread_bps m, m_spread_median_bps m) of
        (Some spread, Some median) \<Rightarrow> truthy median \<and> multiple * median < spread
      | _ \<Rightarrow> False)"

record RiskRequest =
  r_sleeve :: string
  r_symbol :: string
  r_setup :: string
  r_side :: string
  r_stop_distance :: pyfloat
  r_price :: pyfloat
  r_equity :: pyfloat
  r_requested_risk_pct :: pyfloat
  r_stop_price :: "pyfloat option"
  r_measured_move_bps :: "pyfloat option"
  r_round_trip_cost_bps :: "pyfloat option"
  r_trailing_volume :: "pyfloat option"
  r_intent_id :: "string option"
  r_cluster :: "string option"
  r_sector :: "string option"
  r_opens_short :: bool
  r_planned_notional_usd :: "pyfloat option"

definition notional_per_share :: "RiskRequest \<Rightarrow> pyfloat" where
  "notional_per_share r = \<bar>r_price r\<bar>"

definition implies_short :: "RiskRequest \<Rightarrow> bool" where
  "implies_short r = r_opens_short r"

section \<open>Netting and conservation\<close>

lemma map_of_dict_add:
  "map_of (dict_add k v d) k' =
     (if k' = k then Some ((case map_of d k of None \<Rightarrow> 0 | Some x \<Rightarrow> x) + v) else map_of d k')"
  by (simp add: dict_add_def update_conv')

lemma map_of_foldl_dict_add:
  "map_of (foldl (\<lambda>d x. dict_add (f x) (g x) d) d xs) k =
     (if \<exists>x \<in> set xs. f x = k
      then Some (foldl (+) (case map_of d k of None \<Rightarrow> 0 | Some v \<Rightarrow> v)
                   (map g (filter (\<lambda>x. f x = k) xs)))
      else map_of d k)"
  by (induction xs arbitrary: d) (auto simp: map_of_dict_add split: option.splits)

lemma position_for_fsum:
  "position_for b s = fsum (map p_qty (filter (\<lambda>p. p_symbol p = s) (b_positions b)))"
proof (cases "\<exists>p \<in> set (b_positions b). p_symbol p = s")
  case True
  then show ?thesis
    by (simp add: position_for_def by_symbol_def map_of_foldl_dict_add fsum_def)
next
  case False
  then have "filter (\<lambda>p. p_symbol p = s) (b_positions b) = []" by (simp add: filter_empty_conv)
  with False show ?thesis
    by (simp add: position_for_def by_symbol_def map_of_foldl_dict_add fsum_def)
qed

lemma fsum_Cons: "fsum (x # xs) = x + fsum xs"
proof -
  have "foldl (+) (y + z) xs = y + foldl (+) z xs" for y z :: pyfloat
    by (induction xs arbitrary: z) (simp_all add: pyfloat_add_assoc)
  from this [of x 0] show ?thesis by (simp add: fsum_def)
qed

lemma fsum_Nil [simp]: "fsum [] = 0"
  by (simp add: fsum_def)

lemma fsum_partition:
  assumes "\<forall>x \<in> set xs. P x \<noteq> Q x"
  shows "fsum (map f xs) = fsum (map f (filter P xs)) + fsum (map f (filter Q xs))"
  using assms
proof (induction xs)
  case Nil
  show ?case by simp
next
  case (Cons x xs)
  then have IH: "fsum (map f xs) = fsum (map f (filter P xs)) + fsum (map f (filter Q xs))" by simp
  show ?case
  proof (cases "P x")
    case True
    with Cons.prems IH show ?thesis by (auto simp: fsum_Cons pyfloat_add_assoc)
  next
    case False
    with Cons.prems have "Q x" by auto
    with False IH show ?thesis
      by (simp add: fsum_Cons) (metis pyfloat_add_assoc pyfloat_add_commute)
  qed
qed

lemma sleeves_partition_notional:
  assumes "\<forall>p \<in> set (b_positions b). p_sleeve p \<in> set SLEEVES"
  shows "b_notional b = sleeve_deployed b SWING + sleeve_deployed b INTRADAY"
  unfolding b_notional_def sleeve_deployed_def
  using assms by (intro fsum_partition) (auto simp: SLEEVES_def SWING_def INTRADAY_def)

lemma dict_add_total:
  assumes "distinct (map fst d)"
  shows "distinct (map fst (dict_add k v d)) \<and>
    fsum (map snd (dict_add k v d)) = fsum (map snd d) + v"
proof -
  have "fsum (map snd (dict_add k v d)) = fsum (map snd d) + v"
    using assms
  proof (induction d)
    case Nil
    show ?case by (simp add: dict_add_def fsum_Cons)
  next
    case (Cons kv d)
    show ?case
    proof (cases "fst kv = k")
      case True
      then show ?thesis
        by (cases kv) (simp add: dict_add_def fsum_Cons, metis pyfloat_add_assoc pyfloat_add_commute)
    next
      case False
      with Cons show ?thesis
        by (cases kv) (simp add: dict_add_def fsum_Cons pyfloat_add_assoc)
    qed
  qed
  with assms show ?thesis by (simp add: dict_add_def distinct_update)
qed

lemma cluster_notional_total: "fsum (map snd (cluster_notional b)) = b_notional b"
proof -
  have "distinct (map fst d) \<Longrightarrow>
      fsum (map snd (foldl (\<lambda>d x. dict_add (f x) (g x) d) d xs)) = fsum (map snd d) + fsum (map g xs)"
    for d and f :: "Position \<Rightarrow> string" and g xs
    by (induction xs arbitrary: d) (simp_all add: dict_add_total fsum_Cons pyfloat_add_assoc)
  from this [of "[]"] show ?thesis by (simp add: cluster_notional_def b_notional_def)
qed

end
