(* ===== verification/PyTime.thy ===== *)
theory PyTime
  imports Prelude
begin

text \<open>
  The part of Python's \<open>datetime\<close> the source uses: dates as proleptic Gregorian ordinals,
  times of day and datetimes in microseconds, awareness as an optional UTC offset, subtraction
  (which raises on a naive/aware mix), and \<open>fromisoformat\<close> with all the forms it reads.
\<close>

section \<open>Dates\<close>

type_synonym date = int \<comment> \<open>\<open>date.toordinal()\<close>: 1 January of year 1 is 1\<close>

definition is_leap :: "int \<Rightarrow> bool" where
  "is_leap y \<longleftrightarrow> y mod 4 = 0 \<and> (y mod 100 \<noteq> 0 \<or> y mod 400 = 0)"

definition days_in_month :: "int \<Rightarrow> int \<Rightarrow> int" where
  "days_in_month y m =
     (if m = 2 then (if is_leap y then 29 else 28) else if m \<in> {4, 6, 9, 11} then 30 else 31)"

definition days_before_year :: "int \<Rightarrow> int" where
  "days_before_year y =
     (let p = y - 1 in p * 365 + p div 4 - p div 100 + p div 400)"

definition days_before_month :: "int \<Rightarrow> int \<Rightarrow> int" where
  "days_before_month y m =
     [0, 31, 59, 90, 120, 151, 181, 212, 243, 273, 304, 334] ! nat (m - 1)
       + (if 2 < m \<and> is_leap y then 1 else 0)"

definition mk_date :: "int \<Rightarrow> int \<Rightarrow> int \<Rightarrow> date option" where
  "mk_date y m d =
     (if 1 \<le> y \<and> y \<le> 9999 \<and> 1 \<le> m \<and> m \<le> 12 \<and> 1 \<le> d \<and> d \<le> days_in_month y m
      then Some (days_before_year y + days_before_month y m + d) else None)"

definition weekday :: "date \<Rightarrow> int" where
  \<comment> \<open>Monday is 0\<close>
  "weekday d = (d + 6) mod 7"

section \<open>Datetimes\<close>

definition us_per_day :: int where
  "us_per_day = 86400000000"

record datetime =
  wall_us :: int \<comment> \<open>wall clock, microseconds since ordinal 0\<close>
  utc_off :: "int option" \<comment> \<open>offset of an aware datetime, \<open>None\<close> for a naive one\<close>

definition date_of :: "datetime \<Rightarrow> date" where
  "date_of t = wall_us t div us_per_day"

definition time_of :: "datetime \<Rightarrow> int" where
  \<comment> \<open>\<open>t.time()\<close> in microseconds after midnight\<close>
  "time_of t = wall_us t mod us_per_day"

definition mk_time :: "int \<Rightarrow> int \<Rightarrow> int res" where
  \<comment> \<open>\<open>time(hour, minute)\<close>\<close>
  "mk_time h m =
     (if 0 \<le> h \<and> h \<le> 23 \<and> 0 \<le> m \<and> m \<le> 59 then Inr ((h * 60 + m) * 60000000)
      else Inl ValueError)"

definition dt_diff_us :: "datetime \<Rightarrow> datetime \<Rightarrow> int res" where
  \<comment> \<open>\<open>(a - b)\<close> in microseconds; a naive and an aware operand raise \<open>TypeError\<close>. Python subtracts
     two operands that share one \<open>ZoneInfo\<close> on the wall clock: across a change of offset it then
     differs from this by the change\<close>
  "dt_diff_us a b =
     (case (utc_off a, utc_off b) of
        (None, None) \<Rightarrow> Inr (wall_us a - wall_us b)
      | (Some oa, Some ob) \<Rightarrow> Inr ((wall_us a - oa) - (wall_us b - ob))
      | _ \<Rightarrow> Inl TypeError)"

definition total_seconds :: "int \<Rightarrow> pyfloat" where
  "total_seconds us = Fin (of_int us / 1000000)"

section \<open>Decimal digits and \<open>fromisoformat\<close>\<close>

definition is_digit :: "char \<Rightarrow> bool" where
  "is_digit c \<longleftrightarrow> CHR ''0'' \<le> c \<and> c \<le> CHR ''9''"

definition digit_val :: "char \<Rightarrow> int" where
  "digit_val c = of_char c - 48"

definition digits_val :: "string \<Rightarrow> int option" where
  "digits_val s =
     (if s \<noteq> [] \<and> list_all is_digit s then Some (foldl (\<lambda>n c. 10 * n + digit_val c) 0 s)
      else None)"

definition int_of_text :: "string \<Rightarrow> int option" where
  \<comment> \<open>\<open>int(text)\<close>: optional sign, decimal digits, surrounding space\<close>
  "int_of_text t =
     (case strip t of
        [] \<Rightarrow> None
      | c # cs \<Rightarrow> if c = CHR ''-'' then map_option uminus (digits_val cs)
                 else if c = CHR ''+'' then digits_val cs else digits_val (c # cs))"

text \<open>
  \<open>fromisoformat\<close> as \<open>Lib/_pydatetime.py\<close> of Python 3.12 has it: calendar dates with or without dashes,
  ISO weeks, any one character between date and time, a time of two, four or six digits with or without
  colons, a fraction of any length after a point or a comma, and a zone that is \<open>Z\<close> or a signed time.
\<close>

definition num_at :: "nat \<Rightarrow> nat \<Rightarrow> string \<Rightarrow> int option" where
  \<comment> \<open>the number of \<open>k\<close> digits at \<open>i\<close>\<close>
  "num_at i k s = (if i + k \<le> length s then digits_val (take k (drop i s)) else None)"

definition isoweek_date :: "int \<Rightarrow> int \<Rightarrow> int \<Rightarrow> date option" where
  "isoweek_date y w d =
     (let first = days_before_year y + 1;
          monday = first - weekday first + (if 3 < weekday first then 7 else 0);
          long = (weekday first = 3 \<or> weekday first = 2 \<and> is_leap y);
          day = monday + (w - 1) * 7 + (d - 1)
      in if 1 \<le> y \<and> y \<le> 9999 \<and> 1 \<le> w \<and> (w \<le> 52 \<or> w = 53 \<and> long) \<and> 1 \<le> d \<and> d \<le> 7 \<and> day \<le> 3652059
         then Some day else None)"

definition parse_iso_date :: "string \<Rightarrow> date option" where
  \<comment> \<open>\<open>YYYY-MM-DD\<close>, \<open>YYYYMMDD\<close>, \<open>YYYY-Www\<close>, \<open>YYYYWww\<close>, \<open>YYYY-Www-D\<close>, \<open>YYYYWwwD\<close>\<close>
  "parse_iso_date s =
     (if length s \<notin> {7, 8, 10} then None
      else (let dash = (s ! 4 = CHR ''-''); gap = (if dash then 1 else 0); p = 4 + gap in
        case num_at 0 4 s of None \<Rightarrow> None
        | Some y \<Rightarrow>
            if s ! p = CHR ''W'' then
              (case num_at (p + 1) 2 s of None \<Rightarrow> None
               | Some w \<Rightarrow>
                   if length s \<le> p + 3 then isoweek_date y w 1
                   else if (s ! (p + 3) = CHR ''-'') \<noteq> dash then None
                   else (case num_at (p + 3 + gap) 1 s of None \<Rightarrow> None | Some d \<Rightarrow> isoweek_date y w d))
            else if length s \<noteq> p + 4 + gap \<or> (s ! (p + 2) = CHR ''-'') \<noteq> dash then None
            else (case (num_at p 2 s, num_at (p + 2 + gap) 2 s) of
                    (Some m, Some d) \<Rightarrow> mk_date y m d | _ \<Rightarrow> None)))"

definition iso_separator :: "string \<Rightarrow> nat option" where
  \<comment> \<open>where the date of a text of at least seven characters ends\<close>
  "iso_separator s =
     (if length s = 7 then Some 7
      else if s ! 4 = CHR ''-'' then
        (if s ! 5 = CHR ''W'' then
           (if 8 < length s \<and> s ! 8 = CHR ''-'' then
              (if length s = 9 then None else if 10 < length s \<and> is_digit (s ! 10) then Some 8 else Some 10)
            else Some 8)
         else Some 10)
      else if s ! 4 = CHR ''W'' then
        (let idx = 7 + length (takeWhile is_digit (drop 7 s)) in
         if idx < 9 then Some idx else if even idx then Some 7 else Some 8)
      else Some 8)"

definition parse_fraction :: "string \<Rightarrow> int option" where
  \<comment> \<open>the digits after the sixth are dropped\<close>
  "parse_fraction s =
     (case s of [] \<Rightarrow> Some 0
      | c # ds \<Rightarrow>
          if (c = CHR ''.'' \<or> c = CHR '','') \<and> list_all is_digit ds
          then map_option (\<lambda>n. n * 10 ^ (6 - length (take 6 ds))) (digits_val (take 6 ds)) else None)"

definition parse_hms :: "string \<Rightarrow> (int \<times> int \<times> int \<times> int) option" where
  \<comment> \<open>\<open>HH[:?MM[:?SS[{.,}f+]]]\<close>: hour, minute, second and microseconds, not yet checked\<close>
  "parse_hms s =
     (case num_at 0 2 s of None \<Rightarrow> None
      | Some h \<Rightarrow>
        (let r1 = drop 2 s; colon = (r1 \<noteq> [] \<and> hd r1 = CHR '':''); r2 = (if colon then tl r1 else r1) in
         if r1 = [] then Some (h, 0, 0, 0)
         else (case num_at 0 2 r2 of None \<Rightarrow> None
          | Some m \<Rightarrow>
            (let r3 = drop 2 r2; r4 = (if colon then tl r3 else r3) in
             if r3 = [] then Some (h, m, 0, 0)
             else if colon \<and> hd r3 \<noteq> CHR '':'' then None
             else (case (num_at 0 2 r4, parse_fraction (drop 2 r4)) of
                     (Some se, Some us) \<Rightarrow> Some (h, m, se, us) | _ \<Rightarrow> None)))))"

definition hms_us :: "int \<times> int \<times> int \<times> int \<Rightarrow> int" where
  "hms_us t = (case t of (h, m, se, us) \<Rightarrow> ((h * 60 + m) * 60 + se) * 1000000 + us)"

definition zone_mark :: "string \<Rightarrow> char" where
  "zone_mark s = (if CHR ''-'' \<in> set s then CHR ''-'' else if CHR ''+'' \<in> set s then CHR ''+'' else CHR ''Z'')"

definition parse_zone :: "string \<Rightarrow> int option option" where
  \<comment> \<open>the tail of a time from its zone mark on; an offset is under a day\<close>
  "parse_zone s =
     (case s of [] \<Rightarrow> Some None
      | c # z \<Rightarrow>
          if c = CHR ''Z'' then (if z = [] then Some (Some 0) else None)
          else if length z \<in> {0, 1, 3} then None
          else (case parse_hms z of None \<Rightarrow> None
            | Some t \<Rightarrow> if hms_us t < us_per_day then Some (Some ((if c = CHR ''-'' then - 1 else 1) * hms_us t))
                        else None))"

definition parse_iso_time :: "string \<Rightarrow> (int \<times> int option) option" where
  "parse_iso_time s =
     (let mark = zone_mark s in
      case (parse_hms (takeWhile (\<lambda>c. c \<noteq> mark) s), parse_zone (dropWhile (\<lambda>c. c \<noteq> mark) s)) of
        (Some (h, m, se, us), Some z) \<Rightarrow>
          if h \<le> 23 \<and> m \<le> 59 \<and> se \<le> 59 then Some (hms_us (h, m, se, us), z) else None
      | _ \<Rightarrow> None)"

definition fromisoformat :: "string \<Rightarrow> datetime option" where
  "fromisoformat s =
     (if length s < 7 then None
      else (case iso_separator s of None \<Rightarrow> None
        | Some k \<Rightarrow>
          (case parse_iso_date (take k s) of None \<Rightarrow> None
           | Some day \<Rightarrow>
             (let t = drop (k + 1) s in
              if t = [] then Some \<lparr>wall_us = day * us_per_day, utc_off = None\<rparr>
              else map_option (\<lambda>(us, z). \<lparr>wall_us = day * us_per_day + us, utc_off = z\<rparr>) (parse_iso_time t)))))"

definition parse_stamp :: "string \<Rightarrow> datetime option" where
  \<comment> \<open>the source's shared idiom: a trailing \<open>Z\<close> reads as \<open>+00:00\<close>, a bad stamp is \<open>None\<close>\<close>
  "parse_stamp text =
     (if text = [] then None
      else fromisoformat (if last text = CHR ''Z'' then butlast text @ ''+00:00'' else text))"

lemma date_of_bounds: "date_of t * us_per_day \<le> wall_us t \<and> wall_us t < (date_of t + 1) * us_per_day"
proof -
  have "wall_us t = date_of t * us_per_day + time_of t"
    by (simp add: date_of_def time_of_def)
  moreover have "0 \<le> time_of t \<and> time_of t < us_per_day"
    by (simp add: time_of_def us_per_day_def)
  ultimately show ?thesis by (simp add: algebra_simps)
qed

lemma time_of_bounds: "0 \<le> time_of t" "time_of t < us_per_day"
  by (simp_all add: time_of_def us_per_day_def)

section \<open>Writing a stamp\<close>

text \<open>
  The calendar the other way round (a Python \<open>date\<close> stores its year, month and day) and
  \<open>isoformat(timespec="seconds")\<close>, which the program writes every stamp with.
\<close>

definition year_of :: "date \<Rightarrow> int" where
  \<comment> \<open>the mean year is \<open>146097 / 400\<close> days; the estimate is off by at most one\<close>
  "year_of d =
     (let e = (d - 1) * 400 div 146097 + 1 in
      if d \<le> days_before_year e then e - 1
      else if days_before_year (e + 1) < d then e + 1 else e)"

fun month_down :: "int \<Rightarrow> int \<Rightarrow> nat \<Rightarrow> int" where
  "month_down y n 0 = 1"
| "month_down y n (Suc k) =
     (if days_before_month y (int k + 1) < n then int k + 1 else month_down y n k)"

definition month_of :: "int \<Rightarrow> int \<Rightarrow> int" where
  \<comment> \<open>the month of the \<open>n\<close>-th day of a year\<close>
  "month_of y n = month_down y n 12"

definition ymd_of :: "date \<Rightarrow> int \<times> int \<times> int" where
  "ymd_of d =
     (let y = year_of d; n = d - days_before_year y; m = month_of y n
      in (y, m, n - days_before_month y m))"

definition digit_char :: "int \<Rightarrow> char" where
  "digit_char n = char_of (48 + nat n)"

definition pad2 :: "int \<Rightarrow> string" where
  "pad2 n = [digit_char (n div 10), digit_char (n mod 10)]"

definition pad4 :: "int \<Rightarrow> string" where
  "pad4 n = pad2 (n div 100) @ pad2 (n mod 100)"

function nat_text :: "nat \<Rightarrow> string" where
  \<comment> \<open>\<open>str(n)\<close> of a non-negative number\<close>
  "nat_text n = (if n < 10 then [] else nat_text (n div 10)) @ [digit_char (int (n mod 10))]"
  by auto
termination by (relation "measure id") auto

declare nat_text.simps [simp del]

definition date_text :: "date \<Rightarrow> string" where
  "date_text d = (let (y, m, k) = ymd_of d in pad4 y @ ''-'' @ pad2 m @ ''-'' @ pad2 k)"

definition offset_text :: "int option \<Rightarrow> string" where
  \<comment> \<open>for offsets of whole minutes, as every time zone the program meets has\<close>
  "offset_text z =
     (case z of
        None \<Rightarrow> []
      | Some us \<Rightarrow>
          (let mins = \<bar>us\<bar> div 60000000 in
           (if us < 0 then ''-'' else ''+'') @ pad2 (mins div 60) @ '':'' @ pad2 (mins mod 60)))"

definition isoformat_seconds :: "datetime \<Rightarrow> string" where
  "isoformat_seconds t =
     (let s = time_of t div 1000000 in
      date_text (date_of t) @ ''T'' @ pad2 (s div 3600) @ '':'' @ pad2 (s div 60 mod 60) @ '':''
        @ pad2 (s mod 60) @ offset_text (utc_off t))"

definition isoformat :: "datetime \<Rightarrow> string" where
  \<comment> \<open>\<open>t.isoformat()\<close>: the microseconds are written unless they are zero\<close>
  "isoformat t =
     (let s = time_of t div 1000000; us = time_of t mod 1000000 in
      date_text (date_of t) @ ''T'' @ pad2 (s div 3600) @ '':'' @ pad2 (s div 60 mod 60) @ '':''
        @ pad2 (s mod 60)
        @ (if us = 0 then [] else ''.'' @ pad2 (us div 10000) @ pad4 (us mod 10000))
        @ offset_text (utc_off t))"

definition whole_seconds :: "datetime \<Rightarrow> datetime" where
  "whole_seconds t = t\<lparr>wall_us := wall_us t div 1000000 * 1000000\<rparr>"

definition stampable :: "datetime \<Rightarrow> bool" where
  \<comment> \<open>a year of four digits, an offset of whole minutes below a day\<close>
  "stampable t \<longleftrightarrow> 1 \<le> date_of t \<and> date_of t \<le> 3652059
     \<and> (case utc_off t of None \<Rightarrow> True
        | Some us \<Rightarrow> us mod 60000000 = 0 \<and> \<bar>us\<bar> < us_per_day)"

lemma year_of_correct:
  "days_before_year (year_of d) < d \<and> d \<le> days_before_year (year_of d + 1)"
proof -
  define e where "e = (d - 1) * 400 div 146097 + 1"
  have dby: "400 * (365 * p) + 97 * p - 400 * 2 < 400 * days_before_year (p + 1)
      \<and> 400 * days_before_year (p + 1) < 400 * (365 * p) + 97 * p + 400 * 1" for p :: int
  proof -
    have "p = 4 * (p div 4) + p mod 4" "p = 100 * (p div 100) + p mod 100" "p = 400 * (p div 400) + p mod 400"
      "0 \<le> p mod 4" "p mod 4 < 4" "0 \<le> p mod 100" "p mod 100 < 100" "0 \<le> p mod 400" "p mod 400 < 400"
      by simp_all
    then show ?thesis unfolding days_before_year_def Let_def by simp linarith
  qed
  have "(d - 1) * 400 = 146097 * ((d - 1) * 400 div 146097) + (d - 1) * 400 mod 146097"
    "0 \<le> (d - 1) * 400 mod 146097" "(d - 1) * 400 mod 146097 < 146097" by simp_all
  then have e: "146097 * (e - 1) \<le> (d - 1) * 400" "(d - 1) * 400 < 146097 * e"
    by (simp_all add: e_def)
  have up: "d \<le> days_before_year (e + 1 + 1)" and down: "days_before_year (e - 1) < d"
    using dby [of "e + 1"] dby [of "e - 2"] e by simp_all
  have "year_of d = (if d \<le> days_before_year e then e - 1
      else if days_before_year (e + 1) < d then e + 1 else e)"
    unfolding year_of_def Let_def e_def ..
  then show ?thesis using up down by auto
qed

lemma div_step:
  assumes "0 < (k :: int)"
  shows "y div k = (y - 1) div k + (if k dvd y then 1 else 0)"
proof (cases "k dvd y")
  case True
  then obtain q where "y = k * q" by (rule dvdE)
  moreover have "(k * q - 1) div k = q - 1"
    using assms by (intro int_div_pos_eq [where r = "k - 1"]) (auto simp: algebra_simps)
  ultimately show ?thesis using assms True by simp
next
  case False
  then have "y mod k \<noteq> 0" by (simp add: dvd_eq_mod_eq_0)
  then have "0 \<le> y mod k - 1" "y mod k - 1 < k"
    using assms pos_mod_sign [OF assms, of y] pos_mod_bound [OF assms, of y] by linarith+
  then have "(y - 1) div k = y div k"
    by (intro int_div_pos_eq [where r = "y mod k - 1"]) (auto simp: mult_div_mod_eq)
  with False show ?thesis by simp
qed

lemma days_in_year:
  "days_before_year (y + 1) = days_before_year y + (if is_leap y then 366 else 365)"
proof -
  have dvd: "(400 :: int) dvd y \<Longrightarrow> 100 dvd y" "(100 :: int) dvd y \<Longrightarrow> 4 dvd y"
    by (auto elim!: dvd_trans [rotated])
  have leap: "is_leap y \<longleftrightarrow> 4 dvd y \<and> (\<not> 100 dvd y \<or> 400 dvd y)"
    by (simp add: is_leap_def dvd_eq_mod_eq_0)
  have ends: "days_before_year (y + 1) = y * 365 + y div 4 - y div 100 + y div 400"
    "days_before_year y = (y - 1) * 365 + (y - 1) div 4 - (y - 1) div 100 + (y - 1) div 400"
    by (simp_all add: days_before_year_def Let_def)
  have steps: "y div 4 = (y - 1) div 4 + (if 4 dvd y then 1 else 0)"
    "y div 100 = (y - 1) div 100 + (if 100 dvd y then 1 else 0)"
    "y div 400 = (y - 1) div 400 + (if 400 dvd y then 1 else 0)"
    by (rule div_step, simp)+
  show ?thesis
    unfolding ends leap unfolding steps
    by (cases "4 dvd y"; cases "100 dvd y"; cases "400 dvd y") (use dvd in simp_all)
qed

lemma days_before_year_mono: "x \<le> y \<Longrightarrow> days_before_year x \<le> days_before_year y"
proof -
  have "days_before_year x \<le> days_before_year (x + int n)" for n
  proof (induction n)
    case (Suc n)
    have "days_before_year (x + int (Suc n)) = days_before_year ((x + int n) + 1)" by (simp add: ac_simps)
    with Suc show ?case unfolding days_in_year by (simp split: if_splits)
  qed simp
  from this [of "nat (y - x)"] show "x \<le> y \<Longrightarrow> days_before_year x \<le> days_before_year y" by simp
qed

lemma days_before_month_step:
  assumes "1 \<le> m" "m \<le> 11"
  shows "days_before_month y (m + 1) = days_before_month y m + days_in_month y m"
proof -
  have "m = 1 \<or> m = 2 \<or> m = 3 \<or> m = 4 \<or> m = 5 \<or> m = 6 \<or> m = 7 \<or> m = 8 \<or> m = 9 \<or> m = 10 \<or> m = 11"
    using assms by presburger
  then show ?thesis by (elim disjE) (simp_all add: days_before_month_def days_in_month_def)
qed

lemma month_down_correct:
  assumes "1 \<le> n" "1 \<le> k" "k \<le> 12" "k = 12 \<or> n \<le> days_before_month y (int k + 1)"
  shows "1 \<le> month_down y n k \<and> month_down y n k \<le> 12
    \<and> days_before_month y (month_down y n k) < n
    \<and> (month_down y n k = 12 \<or> n \<le> days_before_month y (month_down y n k + 1))"
  using assms(2-)
proof (induction k)
  case (Suc k)
  show ?case
  proof (cases "days_before_month y (int k + 1) < n")
    case True
    with Suc.prems show ?thesis by (auto simp: add.commute)
  next
    case False
    have "k \<noteq> 0"
    proof
      assume "k = 0"
      with False assms(1) show False by (simp add: days_before_month_def)
    qed
    with False Suc show ?thesis by (simp add: not_less)
  qed
qed simp

lemma month_of_correct:
  assumes "1 \<le> n" "n \<le> (if is_leap y then 366 else 365)"
  shows "1 \<le> month_of y n \<and> month_of y n \<le> 12 \<and> 1 \<le> n - days_before_month y (month_of y n)
    \<and> n - days_before_month y (month_of y n) \<le> days_in_month y (month_of y n)"
proof -
  note m = month_down_correct [of n 12 y, folded month_of_def]
  show ?thesis
  proof (cases "month_of y n = 12")
    case True
    with m assms show ?thesis by (simp add: days_before_month_def days_in_month_def split: if_splits)
  next
    case False
    with m assms(1) days_before_month_step [of "month_of y n" y] show ?thesis by auto
  qed
qed

lemma year_of_range: "1 \<le> d \<Longrightarrow> d \<le> 3652059 \<Longrightarrow> 1 \<le> year_of d \<and> year_of d \<le> 9999"
proof -
  assume d: "1 \<le> d" "d \<le> 3652059"
  have ends: "days_before_year 1 = 0" "days_before_year 10000 = 3652059"
    by (simp_all add: days_before_year_def)
  have "\<not> year_of d \<le> 0"
    using year_of_correct [of d] days_before_year_mono [of "year_of d + 1" 1] d ends by auto
  moreover have "\<not> 10000 \<le> year_of d"
    using year_of_correct [of d] days_before_year_mono [of 10000 "year_of d"] d ends by auto
  ultimately show ?thesis by linarith
qed

lemma mk_date_ymd_of:
  assumes "1 \<le> d" "d \<le> 3652059" "ymd_of d = (y, m, k)"
  shows "mk_date y m k = Some d" "1 \<le> y \<and> y \<le> 9999 \<and> 1 \<le> m \<and> m \<le> 12 \<and> 1 \<le> k \<and> k \<le> 31"
proof -
  define n where "n = d - days_before_year y"
  have y: "y = year_of d" and m: "m = month_of y n" and k: "k = n - days_before_month y m"
    using assms(3) by (auto simp: ymd_of_def Let_def n_def)
  have n: "1 \<le> n" "n \<le> (if is_leap y then 366 else 365)"
    using year_of_correct [of d] days_in_year [of y] by (auto simp: y n_def)
  have range: "1 \<le> y \<and> y \<le> 9999" "1 \<le> m \<and> m \<le> 12 \<and> 1 \<le> k \<and> k \<le> days_in_month y m"
    using year_of_range [OF assms(1,2)] month_of_correct [OF n] unfolding y m k by blast+
  have "days_before_year y + days_before_month y m + k = d" by (simp add: k n_def)
  with range show "mk_date y m k = Some d" by (simp add: mk_date_def)
  have "days_in_month y m \<le> 31" by (simp add: days_in_month_def)
  with range show "1 \<le> y \<and> y \<le> 9999 \<and> 1 \<le> m \<and> m \<le> 12 \<and> 1 \<le> k \<and> k \<le> 31" by linarith
qed

lemma digit_chars:
  "list_all (\<lambda>n. is_digit (digit_char n) \<and> digit_val (digit_char n) = n \<and> digit_char n \<noteq> CHR ''Z'')
     [0, 1, 2, 3, 4, 5, 6, 7, 8, 9]"
  by code_simp

lemma digit_char_correct:
  assumes "0 \<le> n" "n \<le> 9"
  shows "is_digit (digit_char n)" "digit_val (digit_char n) = n" "digit_char n \<noteq> CHR ''Z''"
proof -
  have "n = 0 \<or> n = 1 \<or> n = 2 \<or> n = 3 \<or> n = 4 \<or> n = 5 \<or> n = 6 \<or> n = 7 \<or> n = 8 \<or> n = 9"
    using assms by presburger
  then have "n \<in> set [0, 1, 2, 3, 4, 5, 6, 7, 8, 9]" by simp
  with digit_chars show "is_digit (digit_char n)" "digit_val (digit_char n) = n" "digit_char n \<noteq> CHR ''Z''"
    unfolding list_all_iff by blast+
qed

lemma digits_val_pad2: "0 \<le> n \<Longrightarrow> n \<le> 99 \<Longrightarrow> digits_val (pad2 n) = Some n"
  using digit_char_correct [of "n div 10"] digit_char_correct [of "n mod 10"]
  by (simp add: digits_val_def pad2_def)

lemma digits_val_pad4:
  assumes "0 \<le> n" "n \<le> 9999"
  shows "digits_val (pad4 n) = Some n"
proof -
  define a b where "a = n div 100" and "b = n mod 100"
  have n: "n = 100 * a + b" and ab: "0 \<le> a" "a \<le> 99" "0 \<le> b" "b \<le> 99" using assms by (auto simp: a_def b_def)
  have "10 * (10 * x + y) + z = 100 * x + (10 * y + z)" for x y z :: int by simp
  from this [of "10 * (a div 10) + a mod 10"]
  have "10 * (10 * (10 * (a div 10) + a mod 10) + b div 10) + b mod 10 = n"
    by (simp only: n mult_div_mod_eq)
  with ab show ?thesis
    using digit_char_correct [of "a div 10"] digit_char_correct [of "a mod 10"]
      digit_char_correct [of "b div 10"] digit_char_correct [of "b mod 10"]
    by (simp add: digits_val_def pad4_def pad2_def a_def [symmetric] b_def [symmetric])
qed

lemma num_at_pad2:
  assumes "0 \<le> n" "n \<le> 99" "length a = i"
  shows "num_at i 2 (a @ pad2 n @ b) = Some n"
proof -
  have "take 2 (drop i (a @ pad2 n @ b)) = pad2 n" using assms(3) by (simp add: pad2_def)
  moreover have "length (a @ pad2 n @ b) = i + 2 + length b" using assms(3) by (simp add: pad2_def)
  ultimately show ?thesis using digits_val_pad2 [OF assms(1,2)] by (simp add: num_at_def)
qed

lemma pad2_cases:
  assumes "0 \<le> n" "n \<le> 99"
  obtains a b where "pad2 n = [a, b]" "\<And>r. num_at 0 2 (a # b # r) = Some n"
  using num_at_pad2 [OF assms, of "[]"] that by (simp add: pad2_def)

lemma parse_hms_text:
  assumes "0 \<le> h" "h \<le> 99" "0 \<le> m" "m \<le> 99"
  shows "parse_hms (pad2 h @ '':'' @ pad2 m) = Some (h, m, 0, 0)"
    "0 \<le> se \<Longrightarrow> se \<le> 99 \<Longrightarrow> parse_fraction fr = Some us \<Longrightarrow>
       parse_hms (pad2 h @ '':'' @ pad2 m @ '':'' @ pad2 se @ fr) = Some (h, m, se, us)"
proof -
  obtain a b where h: "pad2 h = [a, b]" "\<And>r. num_at 0 2 (a # b # r) = Some h" using pad2_cases [OF assms(1,2)] by metis
  obtain c d where m: "pad2 m = [c, d]" "\<And>r. num_at 0 2 (c # d # r) = Some m" using pad2_cases [OF assms(3,4)] by metis
  show "parse_hms (pad2 h @ '':'' @ pad2 m) = Some (h, m, 0, 0)"
    by (simp add: parse_hms_def h m Let_def)
  assume se: "0 \<le> se" "se \<le> 99" and fr: "parse_fraction fr = Some us"
  obtain e f where se: "pad2 se = [e, f]" "\<And>r. num_at 0 2 (e # f # r) = Some se" using pad2_cases [OF se] by metis
  show "parse_hms (pad2 h @ '':'' @ pad2 m @ '':'' @ pad2 se @ fr) = Some (h, m, se, us)"
    by (simp add: parse_hms_def h m se fr Let_def)
qed

lemma parse_zone_text:
  assumes "case z of None \<Rightarrow> True | Some us \<Rightarrow> us mod 60000000 = 0 \<and> \<bar>us\<bar> < us_per_day"
  shows "parse_zone (offset_text z) = Some z"
proof (cases z)
  case None
  then show ?thesis by (simp add: offset_text_def parse_zone_def)
next
  case (Some us)
  define mins where "mins = \<bar>us\<bar> div 60000000"
  have us: "\<bar>us\<bar> = mins * 60000000" "0 \<le> mins" "mins < 1440"
  proof -
    have "60000000 dvd \<bar>us\<bar>" using assms by (simp add: Some dvd_eq_mod_eq_0 [symmetric])
    then show "\<bar>us\<bar> = mins * 60000000" by (simp add: mins_def)
    then show "0 \<le> mins" "mins < 1440" using assms by (simp_all add: Some us_per_day_def)
  qed
  have "parse_hms (pad2 (mins div 60) @ '':'' @ pad2 (mins mod 60)) = Some (mins div 60, mins mod 60, 0, 0)"
    using us(2,3) by (intro parse_hms_text) auto
  moreover have "hms_us (mins div 60, mins mod 60, 0, 0) = mins * 60000000"
  proof -
    define q r where "q = mins div 60" and "r = mins mod 60"
    then have "mins = q * 60 + r" by simp
    then show ?thesis unfolding hms_us_def q_def [symmetric] r_def [symmetric] by simp
  qed
  moreover have "length (pad2 (mins div 60) @ '':'' @ pad2 (mins mod 60)) = 5" by (simp add: pad2_def)
  ultimately have read: "parse_zone (sg # pad2 (mins div 60) @ '':'' @ pad2 (mins mod 60))
      = Some (Some ((if sg = CHR ''-'' then - 1 else 1) * (mins * 60000000)))"
    if "sg = CHR ''+'' \<or> sg = CHR ''-''" for sg
    using that us(3) by (auto simp: parse_zone_def us_per_day_def)
  have "offset_text z = (if us < 0 then CHR ''-'' else CHR ''+'') # pad2 (mins div 60) @ '':'' @ pad2 (mins mod 60)"
    by (simp add: Some offset_text_def mins_def [symmetric])
  with read [of "if us < 0 then CHR ''-'' else CHR ''+''"] us(1) show ?thesis
    by (simp add: Some abs_if split: if_splits)
qed

lemma last_offset_text: "offset_text z = [] \<or> last (offset_text z) \<noteq> CHR ''Z''"
  using digit_char_correct(3) by (auto simp: offset_text_def pad2_def Let_def split: option.split)

text \<open>A stamp that the program writes is read back as the same moment.\<close>

definition clock_chars :: "string \<Rightarrow> bool" where
  \<comment> \<open>no character of a time without a zone is a zone mark\<close>
  "clock_chars s \<longleftrightarrow> set s \<inter> {CHR ''-'', CHR ''+'', CHR ''Z''} = {}"

lemma digit_char_marks: "0 \<le> n \<Longrightarrow> n \<le> 9 \<Longrightarrow> digit_char n \<notin> {CHR ''-'', CHR ''+'', CHR ''Z'', CHR ''W''}"
  using digit_char_correct(1) [of n] by (auto simp: is_digit_def)

lemma clock_chars_simps [simp]:
  "clock_chars []" "clock_chars (a @ b) \<longleftrightarrow> clock_chars a \<and> clock_chars b"
  "clock_chars (CHR '':'' # a) = clock_chars a" "clock_chars (CHR ''.'' # a) = clock_chars a"
  by (auto simp: clock_chars_def)

lemma clock_chars_pad:
  "0 \<le> n \<Longrightarrow> n \<le> 99 \<Longrightarrow> clock_chars (pad2 n)" "0 \<le> n \<Longrightarrow> n \<le> 9999 \<Longrightarrow> clock_chars (pad4 n)"
proof -
  show two: "clock_chars (pad2 n)" if "0 \<le> n" "n \<le> 99" for n
    using that digit_char_marks [of "n div 10"] digit_char_marks [of "n mod 10"] by (simp add: clock_chars_def pad2_def)
  show "clock_chars (pad4 n)" if "0 \<le> n" "n \<le> 9999" using that two [of "n div 100"] two [of "n mod 100"] by (simp add: pad4_def)
qed

definition whole_minutes :: "int option \<Rightarrow> bool" where
  "whole_minutes z \<longleftrightarrow> (case z of None \<Rightarrow> True | Some us \<Rightarrow> us mod 60000000 = 0 \<and> \<bar>us\<bar> < us_per_day)"

lemma offset_text_mark:
  assumes "whole_minutes z"
  shows "offset_text z = [] \<or> (\<exists>v. offset_text z = zone_mark (offset_text z) # v)"
proof (cases z)
  case None
  then show ?thesis by (simp add: offset_text_def)
next
  case (Some us)
  define mins where "mins = \<bar>us\<bar> div 60000000"
  define w where "w = pad2 (mins div 60) @ '':'' @ pad2 (mins mod 60)"
  have "0 \<le> mins" "mins \<le> 1439" using assms Some by (auto simp: whole_minutes_def mins_def us_per_day_def)
  then have w: "clock_chars w" by (simp add: w_def clock_chars_pad)
  have mark: "zone_mark (sg # w) = sg" if "sg = CHR ''-'' \<or> sg = CHR ''+''" for sg
    using that w by (auto simp: zone_mark_def clock_chars_def)
  have "offset_text z = (if us < 0 then CHR ''-'' else CHR ''+'') # w"
    by (simp add: Some offset_text_def mins_def [symmetric] w_def)
  with mark show ?thesis by (cases "us < 0") simp_all
qed

lemma parse_iso_time_text:
  assumes a: "clock_chars a" "parse_hms a = Some (h, m, se, us)" and hms: "h \<le> 23" "m \<le> 59" "se \<le> 59"
    and z: "whole_minutes z"
  shows "parse_iso_time (a @ offset_text z) = Some (hms_us (h, m, se, us), z)"
proof -
  define w mk where "w = offset_text z" and "mk = zone_mark w"
  have "zone_mark (a @ w) = mk" and all: "\<forall>c \<in> set a. c \<noteq> mk"
    using a(1) by (auto simp: mk_def zone_mark_def clock_chars_def)
  moreover have w: "w = [] \<or> (\<exists>v. w = mk # v)" using offset_text_mark [OF z] by (simp add: w_def mk_def)
  then have "takeWhile (\<lambda>c. c \<noteq> mk) (a @ w) = a" "dropWhile (\<lambda>c. c \<noteq> mk) (a @ w) = w" using all by auto
  moreover have "parse_zone w = Some z" using z unfolding w_def whole_minutes_def by (rule parse_zone_text)
  ultimately show ?thesis by (simp add: parse_iso_time_def a(2) hms w_def [symmetric] del: takeWhile_append dropWhile_append)
qed

lemma parse_stamp_parts:
  assumes "stampable t" "s = time_of t div 1000000" "parse_fraction fr = Some us" "clock_chars fr"
    "fr = [] \<or> last fr \<noteq> CHR ''Z''"
  shows "fromisoformat (date_text (date_of t) @ ''T'' @ pad2 (s div 3600) @ '':'' @ pad2 (s div 60 mod 60)
      @ '':'' @ pad2 (s mod 60) @ fr @ offset_text (utc_off t))
    = Some (t\<lparr>wall_us := wall_us t div 1000000 * 1000000 + us\<rparr>)" (is "fromisoformat ?str = ?t")
    "parse_stamp (date_text (date_of t) @ ''T'' @ pad2 (s div 3600) @ '':'' @ pad2 (s div 60 mod 60)
      @ '':'' @ pad2 (s mod 60) @ fr @ offset_text (utc_off t))
    = Some (t\<lparr>wall_us := wall_us t div 1000000 * 1000000 + us\<rparr>)"
proof -
  obtain y m k where ymd: "ymd_of (date_of t) = (y, m, k)" by (cases "ymd_of (date_of t)")
  have d: "1 \<le> date_of t" "date_of t \<le> 3652059" using assms by (simp_all add: stampable_def)
  note cal = mk_date_ymd_of [OF d ymd]
  have s: "0 \<le> s" "s < 86400" using time_of_bounds [of t] by (auto simp: assms(2) us_per_day_def)
  have fields: "0 \<le> s div 3600" "s div 3600 \<le> 23" "0 \<le> s div 60 mod 60" "s div 60 mod 60 \<le> 59" "0 \<le> s mod 60" "s mod 60 \<le> 59"
    using s by auto
  have off: "whole_minutes (utc_off t)" using assms(1) by (simp add: stampable_def whole_minutes_def)
  have wall: "wall_us t div 1000000 * 1000000 = date_of t * us_per_day
      + ((s div 3600 * 60 + s div 60 mod 60) * 60 + s mod 60) * 1000000"
  proof -
    have "wall_us t = date_of t * us_per_day + time_of t" by (simp add: date_of_def time_of_def)
    then have "wall_us t div 1000000 = date_of t * 86400 + s"
      by (simp add: assms(2) us_per_day_def)
    moreover have "(s div 3600 * 60 + s div 60 mod 60) * 60 + s mod 60 = s"
    proof -
      have "s div 3600 = s div 60 div 60" using zdiv_zmult2_eq [of 60 s 60] by simp
      then show ?thesis by (simp only: div_mult_mod_eq)
    qed
    ultimately show ?thesis by (simp add: us_per_day_def)
  qed
  let ?clock = "pad2 (s div 3600) @ '':'' @ pad2 (s div 60 mod 60) @ '':'' @ pad2 (s mod 60) @ fr"
  let ?time = "?clock @ offset_text (utc_off t)"
  have clock: "parse_hms ?clock = Some (s div 3600, s div 60 mod 60, s mod 60, us)"
    using fields assms(3) by (intro parse_hms_text(2)) auto
  have chars: "clock_chars ?clock" using fields assms(4) by (simp add: clock_chars_pad)
  have time: "parse_iso_time ?time = Some (hms_us (s div 3600, s div 60 mod 60, s mod 60, us), utc_off t)"
    using parse_iso_time_text [OF chars clock fields(2,4,6) off] by (simp only: append_assoc append_Cons append_Nil)
  have dt: "date_text (date_of t) = pad4 y @ ''-'' @ pad2 m @ ''-'' @ pad2 k"
    by (simp add: date_text_def ymd)
  obtain c1 c2 c3 c4 where p4: "pad4 y = [c1, c2, c3, c4]" by (simp add: pad4_def pad2_def)
  have pads: "\<exists>a b. pad2 n = [a, b]" for n by (simp add: pad2_def)
  obtain m1 m2 k1 k2 where p2: "pad2 m = [m1, m2]" "pad2 k = [k1, k2]" using pads by meson
  have "0 \<le> m div 10" "m div 10 \<le> 9" using cal(2) by auto
  from digit_char_marks [OF this] p2(1) have m1: "m1 \<noteq> CHR ''W''" by (auto simp: pad2_def)
  have vals: "digits_val (pad4 y) = Some y" "digits_val (pad2 m) = Some m" "digits_val (pad2 k) = Some k"
    using cal(2) by (simp_all add: digits_val_pad2 digits_val_pad4)
  have date: "parse_iso_date (date_text (date_of t)) = Some (date_of t)"
    unfolding dt p4 p2 using vals [unfolded p4 p2] m1 by (simp add: parse_iso_date_def num_at_def cal(1))
  have len: "length (date_text (date_of t)) = 10" and sep: "iso_separator ?str = Some 10"
    using m1 unfolding dt p4 p2 by (simp_all add: iso_separator_def)
  have "fromisoformat (dt @ CHR ''T'' # tm) = Some \<lparr>wall_us = day * us_per_day + x, utc_off = z\<rparr>"
    if "length dt = 10" "iso_separator (dt @ CHR ''T'' # tm) = Some 10" "parse_iso_date dt = Some day"
      "parse_iso_time tm = Some (x, z)" "tm \<noteq> []" for dt tm day x z
    using that by (simp add: fromisoformat_def)
  from this [OF len _ date time] sep have "fromisoformat ?str = Some \<lparr>wall_us = date_of t * us_per_day
      + hms_us (s div 3600, s div 60 mod 60, s mod 60, us), utc_off = utc_off t\<rparr>"
    by (simp add: pad2_def)
  then show read: "fromisoformat ?str = ?t" by (simp add: wall hms_us_def)
  have "last ?str \<noteq> CHR ''Z''" "?str \<noteq> []"
    using assms(5) last_offset_text [of "utc_off t"] digit_char_correct(3) [of "s mod 60 mod 10"]
    by (auto simp: pad2_def last_append)
  with read show "parse_stamp ?str = ?t" by (simp add: parse_stamp_def)
qed

lemma parse_isoformat:
  assumes "stampable t"
  shows "parse_stamp (isoformat_seconds t) = Some (whole_seconds t)"
    "fromisoformat (isoformat_seconds t) = Some (whole_seconds t)"
  using parse_stamp_parts [OF assms refl, of "[]" 0]
  by (simp_all add: isoformat_seconds_def whole_seconds_def Let_def parse_fraction_def)

lemma digits_val_append:
  "digits_val a = Some m \<Longrightarrow> digits_val b = Some n \<Longrightarrow> digits_val (a @ b) = Some (m * 10 ^ length b + n)"
proof -
  have fold: "foldl (\<lambda>n c. 10 * n + digit_val c) m xs
      = m * 10 ^ length xs + foldl (\<lambda>n c. 10 * n + digit_val c) 0 xs" for m :: int and xs
  proof (induction xs arbitrary: m)
    case (Cons x xs)
    from Cons.IH [of "10 * m + digit_val x"] Cons.IH [of "digit_val x"] show ?case
      by (simp add: algebra_simps)
  qed simp
  assume "digits_val a = Some m" "digits_val b = Some n"
  then show ?thesis using fold [of m b] by (auto simp: digits_val_def split: if_splits)
qed

lemma parse_fraction_text:
  assumes "0 \<le> us" "us < 1000000"
  shows "parse_fraction (''.'' @ pad2 (us div 10000) @ pad4 (us mod 10000)) = Some us"
proof -
  have "digits_val (pad2 (us div 10000)) = Some (us div 10000)"
    "digits_val (pad4 (us mod 10000)) = Some (us mod 10000)"
    using assms by (auto intro!: digits_val_pad2 digits_val_pad4)
  from digits_val_append [OF this] have v: "digits_val (pad2 (us div 10000) @ pad4 (us mod 10000)) = Some us"
    by (simp add: pad4_def pad2_def)
  then have "list_all is_digit (pad2 (us div 10000) @ pad4 (us mod 10000))"
    by (simp add: digits_val_def split: if_splits)
  with v show ?thesis by (simp add: parse_fraction_def pad4_def pad2_def)
qed

lemma parse_isoformat_us:
  assumes "stampable t"
  shows "parse_stamp (isoformat t) = Some t" "fromisoformat (isoformat t) = Some t"
proof -
  define us where "us = time_of t mod 1000000"
  define fr where "fr = (if us = 0 then [] else ''.'' @ pad2 (us div 10000) @ pad4 (us mod 10000))"
  have us: "0 \<le> us" "us < 1000000" by (simp_all add: us_def)
  have "parse_fraction fr = Some us"
    using parse_fraction_text [OF us] by (simp add: fr_def parse_fraction_def)
  moreover have "clock_chars fr" using us by (simp add: fr_def clock_chars_pad)
  moreover have "fr = [] \<or> last fr \<noteq> CHR ''Z''"
    using digit_char_correct(3) [of "us mod 10000 mod 100 mod 10"] by (auto simp: fr_def pad4_def pad2_def)
  ultimately have "parse_stamp (isoformat t) = Some (t\<lparr>wall_us := wall_us t div 1000000 * 1000000 + us\<rparr>)"
    "fromisoformat (isoformat t) = Some (t\<lparr>wall_us := wall_us t div 1000000 * 1000000 + us\<rparr>)"
    using parse_stamp_parts [OF assms refl, of fr us]
    by (simp_all add: isoformat_def Let_def us_def [symmetric] fr_def)
  moreover have "wall_us t div 1000000 * 1000000 + us = wall_us t"
  proof -
    have "wall_us t = date_of t * us_per_day + time_of t" by (simp add: date_of_def time_of_def)
    moreover have "date_of t * us_per_day mod 1000000 = 0"
      by (intro dvd_imp_mod_0 dvd_mult) (simp add: us_per_day_def)
    ultimately have "wall_us t mod 1000000 = us" by (simp add: us_def mod_add_left_eq [symmetric])
    then show ?thesis using div_mult_mod_eq [of "wall_us t" 1000000] by simp
  qed
  ultimately show "parse_stamp (isoformat t) = Some t" "fromisoformat (isoformat t) = Some t" by simp_all
qed

definition utc_instant :: "datetime \<Rightarrow> int" where
  \<comment> \<open>the instant of a stamp in microseconds; a naive stamp is read as UTC\<close>
  "utc_instant t = wall_us t - (case utc_off t of None \<Rightarrow> 0 | Some off \<Rightarrow> off)"

lemma strip_solid:
  assumes "s \<noteq> []" "\<not> is_space (hd s)" "\<not> is_space (last s)"
  shows "strip s = s"
proof -
  have solid: "dropWhile is_space xs = xs" if "xs \<noteq> [] \<Longrightarrow> \<not> is_space (hd xs)" for xs :: string
    using that by (cases xs) auto
  show ?thesis using solid [of s] solid [of "rev s"] assms by (simp add: strip_def hd_rev)
qed

lemma digit_char_solid: "0 \<le> n \<Longrightarrow> n \<le> 9 \<Longrightarrow> \<not> is_space (digit_char n)"
  using digit_char_correct(1) [of n] by (auto simp: is_digit_def is_space_def)

lemma last_offset_solid: "z = Some us \<Longrightarrow> \<not> is_space (last (offset_text z))"
  using digit_char_solid by (auto simp: offset_text_def pad2_def Let_def)

lemma strip_isoformat:
  assumes "stampable t"
  shows "strip (isoformat_seconds t) = isoformat_seconds t" "strip (isoformat t) = isoformat t"
proof -
  obtain y m k where ymd: "ymd_of (date_of t) = (y, m, k)" by (cases "ymd_of (date_of t)")
  then have "0 \<le> y div 100 div 10 \<and> y div 100 div 10 \<le> 9"
    using mk_date_ymd_of(2) [of "date_of t" y m k] assms by (auto simp: stampable_def)
  with ymd digit_char_solid have hd: "\<not> is_space (hd (date_text (date_of t) @ x))" "date_text (date_of t) \<noteq> []" for x
    by (simp_all add: date_text_def pad4_def pad2_def)
  have solid: "\<not> is_space (last (pad2 n))" "pad2 n \<noteq> []" "\<not> is_space (last (pad4 n))" "pad4 n \<noteq> []" for n
    using digit_char_solid by (simp_all add: pad4_def pad2_def)
  have off: "offset_text (utc_off t) = [] \<or> \<not> is_space (last (offset_text (utc_off t)))"
    using last_offset_solid by (cases "utc_off t") (simp_all add: offset_text_def)
  show "strip (isoformat_seconds t) = isoformat_seconds t"
    using hd solid off by (intro strip_solid) (auto simp: isoformat_seconds_def Let_def last_append)
  show "strip (isoformat t) = isoformat t"
    using hd solid off by (intro strip_solid) (auto simp: isoformat_def Let_def last_append)
qed

lemma stamp_date: "date_of (whole_seconds t) = date_of t"
  by (simp add: date_of_def whole_seconds_def us_per_day_def zdiv_zmult2_eq [of 86400 _ 1000000, symmetric])

end
