(* ===== verification/Config.thy ===== *)
theory Config
  imports PyTime
begin

text \<open>
  \<open>signald/config.py\<close> (the typed settings every decision reads, their validation and the shipped
  defaults) and \<open>signald/mandate.py\<close> (the mandate record and its expiry). Paths, secrets and the
  test seams of the configuration carry no decision and are left out.
\<close>

definition VALID_MODES :: "string list" where
  "VALID_MODES = [''signal'', ''paper'', ''live'']"

record Config =
  cfg_mode :: string
  cfg_approval_threshold_factor :: pyfloat
  cfg_sleeve_swing_capital_pct :: pyfloat
  cfg_sleeve_intraday_capital_pct :: pyfloat
  cfg_sleeve_swing_vol_target :: pyfloat
  cfg_sleeve_intraday_vol_target :: pyfloat
  cfg_risk_per_trade_intraday_pct :: pyfloat
  cfg_risk_per_trade_swing_pct :: pyfloat
  cfg_max_heat_pct :: pyfloat
  cfg_max_positions_intraday :: int
  cfg_max_positions_swing :: int
  cfg_max_single_name_pct_swing :: pyfloat
  cfg_max_single_name_pct_intraday :: pyfloat
  cfg_max_adv_pct :: pyfloat
  cfg_cluster_cap_pct :: pyfloat
  cfg_es_budget_sleeve_pct :: pyfloat
  cfg_es_budget_house_pct :: pyfloat
  cfg_daily_loss_soft_pct :: pyfloat
  cfg_daily_loss_hard_pct :: pyfloat
  cfg_derisk_5d_pct :: pyfloat
  cfg_derisk_dd_pct :: pyfloat
  cfg_derisk_halt_dd_pct :: pyfloat
  cfg_leverage_cap :: pyfloat
  cfg_stress_correlation :: pyfloat
  cfg_intraday_enabled :: bool
  cfg_intraday_entry_after :: string
  cfg_intraday_entry_before :: string
  cfg_intraday_flat_by :: string
  cfg_intraday_max_trades_per_name :: int
  cfg_min_adv_shares :: int
  cfg_stop_atr_mult :: pyfloat
  cfg_stop_mae_pctl :: pyfloat
  cfg_cost_gate_multiple :: pyfloat
  cfg_cost_liquid_bps :: pyfloat
  cfg_cost_lowfloat_bps :: pyfloat
  cfg_max_quote_staleness_s :: pyfloat
  cfg_max_bar_staleness_s :: pyfloat
  cfg_vol_halflife_days :: pyfloat
  cfg_vol_warmup_days :: int
  cfg_vol_scale_cap :: pyfloat
  cfg_vol_rebalance_band :: pyfloat
  cfg_es_confidence :: pyfloat
  cfg_kelly_fraction :: pyfloat
  cfg_clock_max_offset_ms :: pyfloat
  cfg_watch_recursive :: bool
  cfg_latest_only :: bool
  cfg_scan_rth_only :: bool
  cfg_close_window_minutes :: int
  cfg_scan_confirm_broker_clock :: bool
  cfg_ingest_window_hours :: pyfloat
  cfg_cooldown_hours :: pyfloat
  cfg_ref_required :: bool
  cfg_dry_run :: bool

definition default_config :: Config where
  "default_config =
   \<lparr>cfg_mode = ''paper'',
    cfg_approval_threshold_factor = Fin 1,
    cfg_sleeve_swing_capital_pct = Fin (70 / 100),
    cfg_sleeve_intraday_capital_pct = Fin (30 / 100),
    cfg_sleeve_swing_vol_target = Fin (10 / 100),
    cfg_sleeve_intraday_vol_target = Fin (10 / 100),
    cfg_risk_per_trade_intraday_pct = Fin (25 / 10000),
    cfg_risk_per_trade_swing_pct = Fin (5 / 1000),
    cfg_max_heat_pct = Fin (3 / 100),
    cfg_max_positions_intraday = 5,
    cfg_max_positions_swing = 8,
    cfg_max_single_name_pct_swing = Fin (10 / 100),
    cfg_max_single_name_pct_intraday = Fin (5 / 100),
    cfg_max_adv_pct = Fin (25 / 100),
    cfg_cluster_cap_pct = Fin (25 / 100),
    cfg_es_budget_sleeve_pct = Fin (15 / 1000),
    cfg_es_budget_house_pct = Fin (10 / 1000),
    cfg_daily_loss_soft_pct = Fin (1 / 100),
    cfg_daily_loss_hard_pct = Fin (3 / 100),
    cfg_derisk_5d_pct = Fin (6 / 100),
    cfg_derisk_dd_pct = Fin (10 / 100),
    cfg_derisk_halt_dd_pct = Fin (15 / 100),
    cfg_leverage_cap = Fin (15 / 10),
    cfg_stress_correlation = Fin (85 / 100),
    cfg_intraday_enabled = True,
    cfg_intraday_entry_after = ''09:35'',
    cfg_intraday_entry_before = ''11:00'',
    cfg_intraday_flat_by = ''15:50'',
    cfg_intraday_max_trades_per_name = 1,
    cfg_min_adv_shares = 1000000,
    cfg_stop_atr_mult = Fin (175 / 100),
    cfg_stop_mae_pctl = Fin (80 / 100),
    cfg_cost_gate_multiple = Fin 3,
    cfg_cost_liquid_bps = Fin 12,
    cfg_cost_lowfloat_bps = Fin 30,
    cfg_max_quote_staleness_s = Fin 2,
    cfg_max_bar_staleness_s = Fin 60,
    cfg_vol_halflife_days = Fin 20,
    cfg_vol_warmup_days = 270,
    cfg_vol_scale_cap = Fin (15 / 10),
    cfg_vol_rebalance_band = Fin (12 / 100),
    cfg_es_confidence = Fin (975 / 1000),
    cfg_kelly_fraction = Fin (1 / 4),
    cfg_clock_max_offset_ms = Fin 50,
    cfg_watch_recursive = True,
    cfg_latest_only = True,
    cfg_scan_rth_only = True,
    cfg_close_window_minutes = 15,
    cfg_scan_confirm_broker_clock = True,
    cfg_ingest_window_hours = Fin 24,
    cfg_cooldown_hours = Fin 12,
    cfg_ref_required = True,
    cfg_dry_run = False\<rparr>"

definition partition_colon :: "string \<Rightarrow> string \<times> string" where
  \<comment> \<open>the first and last part of \<open>text.partition(":")\<close>\<close>
  "partition_colon s =
     (takeWhile (\<lambda>c. c \<noteq> CHR '':'') s, drop 1 (dropWhile (\<lambda>c. c \<noteq> CHR '':'') s))"

definition parse_hhmm :: "string \<Rightarrow> int res" where
  "parse_hhmm text =
     (let (hour, minute) = partition_colon (strip text) in
      case (int_of_text hour, int_of_text minute) of
        (Some h, Some m) \<Rightarrow> mk_time h m
      | _ \<Rightarrow> Inl ValueError)"

definition unit_fraction :: "pyfloat \<Rightarrow> bool" where
  "unit_fraction c \<longleftrightarrow> 0 \<le> c \<and> c \<le> 1"

definition validate_config :: "Config \<Rightarrow> unit res" where
  "validate_config c =
     (if cfg_mode c \<notin> set VALID_MODES then Inl ValueError
      else if \<not> unit_fraction (cfg_sleeve_swing_capital_pct c)
           \<or> \<not> unit_fraction (cfg_sleeve_intraday_capital_pct c)
           \<or> 1 < fsum [cfg_sleeve_swing_capital_pct c, cfg_sleeve_intraday_capital_pct c]
        then Inl ValueError
      else rbind (parse_hhmm (cfg_intraday_entry_after c)) (\<lambda>_.
           rbind (parse_hhmm (cfg_intraday_entry_before c)) (\<lambda>_.
           rbind (parse_hhmm (cfg_intraday_flat_by c)) (\<lambda>_.
             if \<not> (0 < cfg_stress_correlation c \<and> cfg_stress_correlation c < 1)
             then Inl ValueError else Inr ()))))"

definition order_path_enabled :: "Config \<Rightarrow> bool" where
  "order_path_enabled c \<longleftrightarrow> cfg_mode c \<in> {''paper'', ''live''}"

section \<open>The mandate\<close>

record Mandate =
  md_id :: string
  md_expires :: date
  md_allowed :: "string list"
  md_shorts :: bool
  md_max_notional_per_order_usd :: pyfloat
  md_max_total_exposure_usd :: pyfloat
  md_min_cash_reserve_usd :: pyfloat
  md_max_daily_trades :: int
  md_daily_loss_limit_usd :: pyfloat
  md_approval_mode :: string

definition is_expired :: "Mandate \<Rightarrow> datetime \<Rightarrow> bool" where
  "is_expired m now \<longleftrightarrow> md_expires m < date_of now"

section \<open>Facts\<close>

lemma default_config_valid: "validate_config default_config = Inr ()"
  by code_simp

lemma validate_ceilings:
  assumes "validate_config c = Inr ()"
  obtains s i where "cfg_sleeve_swing_capital_pct c = Fin s" "cfg_sleeve_intraday_capital_pct c = Fin i"
    "0 \<le> s" "0 \<le> i" "s + i \<le> 1"
proof -
  from assms have u: "unit_fraction (cfg_sleeve_swing_capital_pct c)"
      "unit_fraction (cfg_sleeve_intraday_capital_pct c)"
    and sum: "\<not> 1 < fsum [cfg_sleeve_swing_capital_pct c, cfg_sleeve_intraday_capital_pct c]"
    by (auto simp: validate_config_def split: if_splits)
  have fin: "\<exists>r. x = Fin r \<and> 0 \<le> r" if "unit_fraction x" for x
    using that by (cases x) (auto simp: unit_fraction_def one_pyfloat_def zero_pyfloat_def)
  from fin [OF u(1)] fin [OF u(2)] sum show thesis
    by (auto simp: fsum_def one_pyfloat_def intro: that)
qed

lemma validate_sessions:
  assumes "validate_config c = Inr ()"
  shows "\<exists>a. parse_hhmm (cfg_intraday_entry_after c) = Inr a"
    "\<exists>b. parse_hhmm (cfg_intraday_entry_before c) = Inr b"
    "\<exists>f. parse_hhmm (cfg_intraday_flat_by c) = Inr f"
  using assms by (auto simp: validate_config_def rbind_Inr_iff split: if_splits)

end
