(* ===== verification/Policy.thy ===== *)
theory Policy
  imports Prices RiskState Config
begin

text \<open>
  \<open>signald/order/policy.py\<close>: one sized intent becomes child orders. The style decides whether the
  limit crosses or rests, the slicing caps participation, and every failed precondition raises
  \<open>ValueError\<close>. The free-text \<open>rationale\<close> of a plan is not modelled.
\<close>

section \<open>Definitions\<close>

definition EXECUTION_STYLES :: "string list" where
  "EXECUTION_STYLES = [''marketable_limit'', ''resting_limit'']"

definition MIN_DEVIATION_BPS :: pyfloat where
  "MIN_DEVIATION_BPS = Fin 5"

definition PARTICIPATION_CAP :: real where
  "PARTICIPATION_CAP = 1 / 20"

definition MAX_CHILDREN :: int where
  "MAX_CHILDREN = 5"

definition RESTING_SETUPS :: "string list" where
  "RESTING_SETUPS = [''VWAP_REVERT'', ''GAP_FADE'']"

record ChildOrder =
  co_seq :: nat
  co_qty :: int
  co_order_type :: string
  co_limit_price :: pyfloat
  co_notional_usd :: pyfloat
  co_style :: string

record OrderPlan =
  op_orders :: "ChildOrder list"
  op_style :: string
  op_deviation_bps :: pyfloat

definition style_for :: "string \<Rightarrow> string" where
  "style_for setup =
     (if str_upper (strip setup) \<in> set RESTING_SETUPS then ''resting_limit''
      else ''marketable_limit'')"

definition deviation_bps :: "pyfloat option \<Rightarrow> Config \<Rightarrow> pyfloat" where
  "deviation_bps spread cfg =
     (let cap = pymax MIN_DEVIATION_BPS (fdiv (cfg_cost_liquid_bps cfg) (Fin 2)) in
      case spread of
        Some s \<Rightarrow> if isfinite s then pymax cap (Fin 2 * s) else cap
      | None \<Rightarrow> cap)"

definition slice_count :: "int \<Rightarrow> pyfloat option \<Rightarrow> int" where
  "slice_count qty adv =
     (case adv of
        Some (Fin a) \<Rightarrow>
          if a \<le> 0 then 1
          else (let per_child = PARTICIPATION_CAP * a;
                    count = \<lceil>of_int qty / per_child\<rceil>;
                    count = min MAX_CHILDREN (max 1 count)
                in min count qty)
      | _ \<Rightarrow> 1)"

definition child_sizes :: "int \<Rightarrow> int \<Rightarrow> int list" where
  "child_sizes qty count =
     replicate (nat (count - 1)) (qty div count) @ [qty div count + qty mod count]"

definition limit_price :: "pyfloat \<Rightarrow> string \<Rightarrow> pyfloat \<Rightarrow> string \<Rightarrow> pyfloat res" where
  "limit_price price side deviation style =
     (if style = ''marketable_limit'' then
        (let raw = (if side = ''buy'' then price * (1 + fdiv deviation (Fin 10000))
                    else price * (1 - fdiv deviation (Fin 10000))) in
         rbind (round_price raw None) (\<lambda>limit.
           if side = ''buy'' \<and> limit \<le> price then round_price (limit + tick_for limit) None
           else if side = ''sell'' \<and> price \<le> limit then round_price (limit - tick_for limit) None
           else Inr limit))
      else
        rbind (round_price price None) (\<lambda>limit.
          if side = ''buy'' \<and> price < limit then round_price (limit - tick_for limit) None
          else if side = ''sell'' \<and> limit < price then round_price (limit + tick_for limit) None
          else Inr limit))"

definition round_cents :: "pyfloat \<Rightarrow> pyfloat" where
  \<comment> \<open>\<open>round(x, 2)\<close>, the identity on non-finite values\<close>
  "round_cents x = (case x of Fin v \<Rightarrow> Fin (round_digits 2 v) | _ \<Rightarrow> x)"

definition make_child :: "string \<Rightarrow> pyfloat \<Rightarrow> string \<Rightarrow> nat \<times> int \<Rightarrow> ChildOrder" where
  "make_child order_type limit style isz =
     \<lparr>co_seq = fst isz, co_qty = snd isz, co_order_type = order_type, co_limit_price = limit,
      co_notional_usd = round_cents (Fin (of_int (snd isz)) * limit), co_style = style\<rparr>"

definition build_plan ::
  "RiskRequest \<Rightarrow> int \<Rightarrow> MarketState \<Rightarrow> Config \<Rightarrow> string \<Rightarrow> bool \<Rightarrow> OrderPlan res" where
  "build_plan request qty market cfg style urgent =
     (if qty < 1 then Inl ValueError
      else (case m_last market of
        None \<Rightarrow> Inl ValueError
      | Some price \<Rightarrow>
          if \<not> isfinite price \<or> price \<le> 0 then Inl ValueError
          else (let side = str_lower (strip (r_side request)) in
            if side \<noteq> ''buy'' \<and> side \<noteq> ''sell'' then Inl ValueError
            else if style \<notin> set EXECUTION_STYLES then Inl ValueError
            else (let base = deviation_bps (m_spread_bps market) cfg;
                      deviation = (if urgent then pymax base (cfg_cost_lowfloat_bps cfg) else base);
                      count = slice_count qty (m_adv_shares market);
                      sizes = child_sizes qty count;
                      order_type = (if style = ''resting_limit'' then ''limit'' else ''marketable_limit'')
                  in rmap (\<lambda>limit. \<lparr>op_orders = map (make_child order_type limit style)
                                                  (List.enumerate 0 sizes),
                                     op_style = style, op_deviation_bps = deviation\<rparr>)
                       (limit_price price side deviation style)))))"

definition plan_entry ::
  "RiskRequest \<Rightarrow> int \<Rightarrow> MarketState \<Rightarrow> Config \<Rightarrow> string option \<Rightarrow> OrderPlan res" where
  "plan_entry request qty market cfg style =
     build_plan request qty market cfg
       (case style of Some s \<Rightarrow> s | None \<Rightarrow> style_for (r_setup request)) False"

definition plan_exit ::
  "RiskRequest \<Rightarrow> int \<Rightarrow> MarketState \<Rightarrow> Config \<Rightarrow> bool \<Rightarrow> OrderPlan res" where
  "plan_exit request qty market cfg urgent =
     build_plan request qty market cfg ''marketable_limit'' urgent"

section \<open>Slicing\<close>

lemma slice_count_bounds: "1 \<le> qty \<Longrightarrow> 1 \<le> slice_count qty adv \<and> slice_count qty adv \<le> min 5 qty"
  by (auto simp: slice_count_def MAX_CHILDREN_def Let_def split: option.splits pyfloat.splits)

lemma length_child_sizes: "1 \<le> count \<Longrightarrow> length (child_sizes qty count) = nat count"
  by (simp add: child_sizes_def)

lemma sum_child_sizes: "1 \<le> count \<Longrightarrow> sum_list (child_sizes qty count) = qty"
proof -
  assume "1 \<le> count"
  then have "sum_list (child_sizes qty count) = (count - 1) * (qty div count) + (qty div count + qty mod count)"
    by (simp add: child_sizes_def sum_list_replicate)
  also have "\<dots> = count * (qty div count) + qty mod count" by (simp add: algebra_simps)
  finally show ?thesis by simp
qed

lemma child_sizes_pos:
  assumes "1 \<le> count" "count \<le> qty" "s \<in> set (child_sizes qty count)"
  shows "1 \<le> s"
proof -
  have "0 < qty div count" using assms pos_imp_zdiv_pos_iff [of count qty] by simp
  moreover have "0 \<le> qty mod count" using assms(1) by simp
  moreover have "s = qty div count \<or> s = qty div count + qty mod count"
    using assms(3) by (auto simp: child_sizes_def set_replicate_conv_if split: if_splits)
  ultimately show ?thesis by linarith
qed

lemma child_size_participation:
  assumes "0 < a" "of_int qty \<le> of_int MAX_CHILDREN * (PARTICIPATION_CAP * a)" "1 \<le> qty"
  shows "of_int (qty div slice_count qty (Some (Fin a))) \<le> max 1 (PARTICIPATION_CAP * a)"
proof -
  define pc where "pc = PARTICIPATION_CAP * a"
  have pc: "0 < pc" using assms(1) by (simp add: pc_def PARTICIPATION_CAP_def)
  define n where "n = slice_count qty (Some (Fin a))"
  have c5: "\<lceil>of_int qty / pc\<rceil> \<le> 5"
    using assms(2) pc by (simp add: pc_def [symmetric] MAX_CHILDREN_def ceiling_le_iff divide_le_eq)
  have c1: "1 \<le> \<lceil>of_int qty / pc\<rceil>" using assms(3) pc by (simp add: le_ceiling_iff)
  have n: "n = min \<lceil>of_int qty / pc\<rceil> qty"
    using c5 c1 assms(1) by (simp add: n_def slice_count_def pc_def MAX_CHILDREN_def)
  have npos: "1 \<le> n" using n c1 assms(3) by simp
  show ?thesis
  proof (cases "n = qty")
    case True
    then show ?thesis using assms(3) by (simp add: n_def [symmetric])
  next
    case False
    then have "of_int qty / pc \<le> of_int n" using n by (simp add: min_def split: if_splits)
    then have "of_int qty \<le> of_int n * pc" using pc by (simp add: divide_le_eq)
    moreover have "n * (qty div n) \<le> qty"
      using mult_div_mod_eq [of n qty] pos_mod_sign [of n qty] npos by linarith
    then have "of_int n * of_int (qty div n) \<le> (of_int qty :: real)"
      by (metis of_int_le_iff of_int_mult)
    ultimately have "of_int n * of_int (qty div n) \<le> of_int n * pc" by linarith
    then have "of_int (qty div n) \<le> pc" using npos by simp
    then show ?thesis by (simp add: n_def pc_def)
  qed
qed

section \<open>Where the limit lands\<close>

lemma deviation_bps_ge_5:
  assumes "cfg_cost_liquid_bps cfg \<noteq> NaN" "deviation_bps s cfg = Fin d"
  shows "5 \<le> d"
  using assms
  by (cases "cfg_cost_liquid_bps cfg")
    (auto simp: deviation_bps_def MIN_DEVIATION_BPS_def Let_def pymax_def
      split: option.splits if_splits)

lemma limit_price_marketable_buy:
  assumes "0 < p" "0 < d" "limit_price (Fin p) ''buy'' (Fin d) ''marketable_limit'' = Inr l"
  shows "\<exists>v. l = Fin v \<and> p < v \<and> grid_round v = v"
proof -
  define raw where "raw = p * (1 + d / 10000)"
  have "p < raw" using assms by (simp add: raw_def field_simps)
  from pg.cross_above [OF this] assms(3) show ?thesis
    by (auto simp: limit_price_def fp_simps raw_def [symmetric] split: if_splits)
qed

lemma limit_price_marketable_sell:
  assumes "0 < p" "0 < d" "limit_price (Fin p) ''sell'' (Fin d) ''marketable_limit'' = Inr l"
  shows "\<exists>v. l = Fin v \<and> v < p \<and> grid_round v = v"
proof -
  define raw where "raw = p * (1 - d / 10000)"
  have "raw < p" using assms by (simp add: raw_def field_simps)
  from pg.cross_below [OF this] assms(3) show ?thesis
    by (auto simp: limit_price_def fp_simps raw_def [symmetric] split: if_splits)
qed

lemma limit_price_resting_buy:
  assumes "limit_price (Fin p) ''buy'' d ''resting_limit'' = Inr l"
  shows "\<exists>v. l = Fin v \<and> v \<le> p \<and> grid_round v = v"
  using pg.rest_below [of p] assms by (auto simp: limit_price_def split: if_splits)

lemma limit_price_resting_sell:
  assumes "limit_price (Fin p) ''sell'' d ''resting_limit'' = Inr l"
  shows "\<exists>v. l = Fin v \<and> p \<le> v \<and> grid_round v = v"
  using pg.rest_above [of p] assms by (auto simp: limit_price_def split: if_splits)

lemma limit_price_total: "\<exists>l. limit_price (Fin p) side (Fin d) style = Inr l"
  by (auto simp: limit_price_def fp_simps Let_def)

section \<open>Plans\<close>

lemma build_plan_InrD:
  assumes "build_plan rq qty m cfg style urgent = Inr plan"
  obtains p dev limit where
    "1 \<le> qty" "m_last m = Some (Fin p)" "0 < p"
    "str_lower (strip (r_side rq)) \<in> {''buy'', ''sell''}"
    "style \<in> set EXECUTION_STYLES"
    "op_style plan = style" "op_deviation_bps plan = dev"
    "dev = (if urgent then pymax (deviation_bps (m_spread_bps m) cfg) (cfg_cost_lowfloat_bps cfg)
            else deviation_bps (m_spread_bps m) cfg)"
    "limit_price (Fin p) (str_lower (strip (r_side rq))) dev style = Inr limit"
    "op_orders plan = map (make_child (if style = ''resting_limit'' then ''limit'' else ''marketable_limit'')
        limit style) (List.enumerate 0 (child_sizes qty (slice_count qty (m_adv_shares m))))"
proof -
  from assms obtain price where l: "m_last m = Some price" "1 \<le> qty"
    and f: "isfinite price" "\<not> price \<le> 0"
    by (auto simp: build_plan_def split: option.splits if_splits)
  from f obtain p where p: "price = Fin p" "0 < p" by auto
  show thesis
    using assms l p
    by (auto simp: build_plan_def Let_def rmap_Inr_iff split: if_splits intro!: that)
qed

lemma build_plan_sizes:
  assumes "build_plan rq qty m cfg style urgent = Inr plan"
  shows "map co_qty (op_orders plan) = child_sizes qty (slice_count qty (m_adv_shares m))"
  using assms
  by (elim build_plan_InrD) (simp add: make_child_def comp_def)

lemma limit_price_gridD:
  "limit_price price side d style = Inr l \<Longrightarrow> \<exists>v. l = Fin v \<and> grid_round v = v"
  by (auto simp: limit_price_def rbind_Inr_iff Let_def dest: round_price_gridD split: if_splits)

lemma deviation_bps_fin:
  "cfg_cost_liquid_bps cfg = Fin c \<Longrightarrow> \<exists>d. deviation_bps s cfg = Fin d \<and> 5 \<le> d"
  by (auto simp: deviation_bps_def MIN_DEVIATION_BPS_def Let_def isfinite_iff split: option.splits)

definition plan_deviation :: "MarketState \<Rightarrow> Config \<Rightarrow> bool \<Rightarrow> pyfloat" where
  "plan_deviation m cfg urgent =
     (if urgent then pymax (deviation_bps (m_spread_bps m) cfg) (cfg_cost_lowfloat_bps cfg)
      else deviation_bps (m_spread_bps m) cfg)"

lemma plan_deviation_fin:
  assumes "cfg_cost_liquid_bps cfg = Fin c" "cfg_cost_lowfloat_bps cfg = Fin u"
  shows "\<exists>d. plan_deviation m cfg urgent = Fin d \<and> 5 \<le> d"
  using deviation_bps_fin [OF assms(1), of "m_spread_bps m"] assms(2)
  by (auto simp: plan_deviation_def)

lemma build_plan_total:
  assumes "1 \<le> qty" "m_last m = Some (Fin p)" "0 < p"
    "str_lower (strip (r_side rq)) \<in> {''buy'', ''sell''}" "style \<in> set EXECUTION_STYLES"
    "cfg_cost_liquid_bps cfg = Fin c" "cfg_cost_lowfloat_bps cfg = Fin u"
  obtains plan l d where
    "build_plan rq qty m cfg style urgent = Inr plan"
    "op_orders plan = map (make_child (if style = ''resting_limit'' then ''limit'' else ''marketable_limit'')
        (Fin l) style) (List.enumerate 0 (child_sizes qty (slice_count qty (m_adv_shares m))))"
    "plan_deviation m cfg urgent = Fin d" "5 \<le> d"
    "limit_price (Fin p) (str_lower (strip (r_side rq))) (Fin d) style = Inr (Fin l)"
    "op_style plan = style" "op_deviation_bps plan = Fin d"
proof -
  obtain d where d: "plan_deviation m cfg urgent = Fin d" "5 \<le> d"
    using plan_deviation_fin [OF assms(6,7)] by blast
  obtain lim where lim: "limit_price (Fin p) (str_lower (strip (r_side rq))) (Fin d) style = Inr lim"
    using limit_price_total by blast
  then obtain l where l: "lim = Fin l" using limit_price_gridD by blast
  from assms d lim l show thesis
    by (intro that) (auto simp: build_plan_def Let_def plan_deviation_def [symmetric])
qed

lemma child_orders:
  assumes "1 \<le> qty"
    "orders = map (make_child type limit style) (List.enumerate 0 (child_sizes qty (slice_count qty adv)))"
  shows "sum_list (map co_qty orders) = qty" "length orders \<le> 5"
    "map co_seq orders = [0..<length orders]"
    "co \<in> set orders \<Longrightarrow> 1 \<le> co_qty co \<and> co_order_type co = type \<and> co_limit_price co = limit"
proof -
  note n = slice_count_bounds [OF assms(1), of adv]
  have "map co_qty orders = child_sizes qty (slice_count qty adv)"
    by (simp add: assms(2) make_child_def comp_def)
  then show "sum_list (map co_qty orders) = qty" using n by (simp add: sum_child_sizes)
  show "length orders \<le> 5" using n by (auto simp: assms(2) length_child_sizes nat_le_iff)
  show "map co_seq orders = [0..<length orders]"
    by (simp add: assms(2) make_child_def comp_def)
  assume "co \<in> set orders"
  then obtain k s where "co = make_child type limit style (k, s)"
      "s \<in> set (child_sizes qty (slice_count qty adv))"
    by (auto simp: assms(2) in_set_enumerate_eq)
  then show "1 \<le> co_qty co \<and> co_order_type co = type \<and> co_limit_price co = limit"
    using n child_sizes_pos [of "slice_count qty adv" qty s] by (simp add: make_child_def)
qed

end
