(* ===== verification/Guard.thy ===== *)
theory Guard
  imports Policy
begin

text \<open>
  \<open>signald/order/guard.py\<close>: the pre-trade guard. Each check of the ordered table is one
  definition that returns the reason of its failure or \<open>None\<close>; \<open>guard\<close> runs the whole table,
  keeps every failure in table order and names the first one. A reason is a constructor with the
  values the message interpolates. The guard interprets the locale \<open>check_table\<close>.
\<close>

section \<open>Intents and client order ids\<close>

definition ALLOWED_ORDER_TYPES :: "string list" where
  "ALLOWED_ORDER_TYPES = [''limit'', ''marketable_limit'', ''stop'', ''stop_limit'']"

definition ALLOWED_TIFS :: "string list" where
  "ALLOWED_TIFS = [''day'', ''gtc'', ''cls'']"

definition EXTENDED_HOURS_ORDER_TYPES :: "string list" where
  "EXTENDED_HOURS_ORDER_TYPES = [''limit'', ''marketable_limit'']"

definition PERMITTING_VERDICTS :: "string list" where
  "PERMITTING_VERDICTS = [''ALLOW'', ''REDUCE'']"

definition PROTECTIVE_ORDER_TYPE :: string where
  "PROTECTIVE_ORDER_TYPE = ''stop_limit''"

definition ID_MAX :: nat where
  "ID_MAX = 48"

definition id_char :: "char \<Rightarrow> bool" where
  "id_char c \<longleftrightarrow> (CHR ''A'' \<le> c \<and> c \<le> CHR ''Z'') \<or> (CHR ''a'' \<le> c \<and> c \<le> CHR ''z'')
     \<or> (CHR ''0'' \<le> c \<and> c \<le> CHR ''9'') \<or> c = CHR ''-''"

definition client_order_id :: "string \<Rightarrow> string \<Rightarrow> string \<Rightarrow> string" where
  "client_order_id sleeve key leg =
     (let head = take 3 (filter id_char sleeve);
          body = take 32 (filter id_char key);
          tail = filter id_char leg
      in take ID_MAX (head @ ''-'' @ body @ ''-'' @ tail))"

record OrderIntent =
  oi_intent_id :: string
  oi_sleeve :: string
  oi_symbol :: string
  oi_side :: string
  oi_qty :: int
  oi_order_type :: string
  oi_limit_price :: "pyfloat option"
  oi_stop_price :: "pyfloat option"
  oi_tif :: string
  oi_client_order_id :: string
  oi_created_at :: string
  oi_extended_hours :: bool

definition oi_notional_usd :: "OrderIntent \<Rightarrow> pyfloat" where
  "oi_notional_usd i =
     (case (case oi_limit_price i of Some l \<Rightarrow> Some l | None \<Rightarrow> oi_stop_price i) of
        None \<Rightarrow> 0
      | Some price \<Rightarrow> \<bar>price\<bar> * \<bar>Fin (of_int (oi_qty i))\<bar>)"

section \<open>Checks\<close>

datatype guard_failure =
    CidEmpty | CidTooLong nat | CidIllegal string
  | QtyBelowOne int
  | OrderTypeNotAllowed string
  | OffGrid string pyfloat
  | NoMandate | BadSide string | NotInMandate string | BadCreatedAt string | MandateExpired
  | ShortForbidden string
  | NoGateVerdict | VerdictNotPermitting string
  | ApprovalMissing
  | ExceedsBuyingPower pyfloat pyfloat | ExceedsLeverage pyfloat pyfloat
  | TifNotAllowed string | ExtendedNotDay | ExtendedOrderType string
  | NoProtectiveStop
  | DuplicateOpen string
  | SelfCross string string
  | CheckError exc

record guard_context =
  g_book :: BookState
  g_market :: MarketState
  g_mandate :: "Mandate option"
  g_config :: Config
  g_gate_verdict :: "string option"
  g_approval_id :: "string option"
  g_requires_approval :: bool
  g_open_orders :: "string option list" \<comment> \<open>the \<open>client_order_id\<close> of each open order\<close>
  g_other_sleeve_side :: "string option"
  g_price_of :: "pyfloat option"

definition check_client_order_id :: "OrderIntent \<Rightarrow> guard_context \<Rightarrow> guard_failure option" where
  "check_client_order_id i c =
     (let cid = oi_client_order_id i in
      if cid = [] then Some CidEmpty
      else if ID_MAX < length cid then Some (CidTooLong (length cid))
      else if \<not> list_all id_char cid then Some (CidIllegal cid)
      else None)"

definition check_qty :: "OrderIntent \<Rightarrow> guard_context \<Rightarrow> guard_failure option" where
  "check_qty i c = (if oi_qty i < 1 then Some (QtyBelowOne (oi_qty i)) else None)"

definition check_order_type :: "OrderIntent \<Rightarrow> guard_context \<Rightarrow> guard_failure option" where
  "check_order_type i c =
     (if oi_order_type i \<notin> set ALLOWED_ORDER_TYPES
      then Some (OrderTypeNotAllowed (oi_order_type i)) else None)"

fun first_off_grid :: "(string \<times> pyfloat option) list \<Rightarrow> guard_failure option" where
  "first_off_grid [] = None"
| "first_off_grid ((label, None) # rest) = first_off_grid rest"
| "first_off_grid ((label, Some price) # rest) =
     (if \<not> price_is_on_grid price None then Some (OffGrid label price) else first_off_grid rest)"

definition check_precision :: "OrderIntent \<Rightarrow> guard_context \<Rightarrow> guard_failure option" where
  "check_precision i c =
     first_off_grid [(''limit_price'', oi_limit_price i), (''stop_price'', oi_stop_price i)]"

definition check_mandate :: "OrderIntent \<Rightarrow> guard_context \<Rightarrow> guard_failure option" where
  "check_mandate i c =
     (case g_mandate c of
        None \<Rightarrow> Some NoMandate
      | Some m \<Rightarrow>
          if oi_side i \<notin> {''buy'', ''sell''} then Some (BadSide (oi_side i))
          else if str_upper (oi_symbol i) \<notin> set (map str_upper (md_allowed m))
            then Some (NotInMandate (oi_symbol i))
          else (case parse_stamp (strip (oi_created_at i)) of
                  None \<Rightarrow> Some (BadCreatedAt (oi_created_at i))
                | Some created \<Rightarrow>
                    if is_expired m created then Some MandateExpired
                    else if oi_side i = ''sell'' \<and> position_for (g_book c) (oi_symbol i) \<le> 0
                            \<and> \<not> md_shorts m
                      then Some (ShortForbidden (oi_symbol i))
                    else None))"

definition check_gate_verdict :: "OrderIntent \<Rightarrow> guard_context \<Rightarrow> guard_failure option" where
  "check_gate_verdict i c =
     (case g_gate_verdict c of
        None \<Rightarrow> Some NoGateVerdict
      | Some v \<Rightarrow> if v \<notin> set PERMITTING_VERDICTS then Some (VerdictNotPermitting v) else None)"

definition check_approval :: "OrderIntent \<Rightarrow> guard_context \<Rightarrow> guard_failure option" where
  "check_approval i c =
     (if g_requires_approval c \<and> str_or (g_approval_id c) [] = [] then Some ApprovalMissing
      else None)"

definition effective_notional :: "OrderIntent \<Rightarrow> guard_context \<Rightarrow> pyfloat" where
  "effective_notional i c =
     (let notional = oi_notional_usd i in
      if 0 < notional then notional
      else (case (case g_price_of c of Some p \<Rightarrow> Some p | None \<Rightarrow> m_last (g_market c)) of
              None \<Rightarrow> 0
            | Some mark \<Rightarrow> \<bar>mark\<bar> * \<bar>Fin (of_int (oi_qty i))\<bar>))"

definition check_buying_power :: "OrderIntent \<Rightarrow> guard_context \<Rightarrow> guard_failure option" where
  "check_buying_power i c =
     (let notional = effective_notional i c;
          projected = b_notional (g_book c) + notional;
          cap = cfg_leverage_cap (g_config c) * b_equity (g_book c);
          leverage = (if oi_side i = ''buy'' \<and> cap < projected
                      then Some (ExceedsLeverage projected cap) else None)
      in case b_buying_power (g_book c) of
           Some bp \<Rightarrow> if bp < notional then Some (ExceedsBuyingPower notional bp) else leverage
         | None \<Rightarrow> leverage)"

definition check_bracket_legality :: "OrderIntent \<Rightarrow> guard_context \<Rightarrow> guard_failure option" where
  "check_bracket_legality i c =
     (if oi_tif i \<notin> set ALLOWED_TIFS then Some (TifNotAllowed (oi_tif i))
      else if oi_extended_hours i then
        (if oi_tif i \<noteq> ''day'' then Some ExtendedNotDay
         else if oi_order_type i \<notin> set EXTENDED_HOURS_ORDER_TYPES
           then Some (ExtendedOrderType (oi_order_type i))
         else None)
      else None)"

definition check_stop_present :: "OrderIntent \<Rightarrow> guard_context \<Rightarrow> guard_failure option" where
  "check_stop_present i c =
     (if oi_order_type i \<noteq> PROTECTIVE_ORDER_TYPE \<and> oi_stop_price i = None
      then Some NoProtectiveStop else None)"

definition check_duplicate :: "OrderIntent \<Rightarrow> guard_context \<Rightarrow> guard_failure option" where
  "check_duplicate i c =
     (if Some (oi_client_order_id i) \<in> set (g_open_orders c)
      then Some (DuplicateOpen (oi_client_order_id i)) else None)"

definition check_wash :: "OrderIntent \<Rightarrow> guard_context \<Rightarrow> guard_failure option" where
  "check_wash i c =
     (case g_other_sleeve_side c of
        None \<Rightarrow> None
      | Some other \<Rightarrow> if other \<noteq> oi_side i then Some (SelfCross other (oi_side i)) else None)"

section \<open>The table and the verdict\<close>

datatype guard_name =
    GClientOrderId | GQty | GOrderType | GPrecision | GMandate | GGateVerdict | GApproval
  | GBuyingPower | GBracketLegality | GStopPresent | GDuplicate | GWash

definition GUARD_CHECKS :: "guard_name list" where
  "GUARD_CHECKS =
     [GClientOrderId, GQty, GOrderType, GPrecision, GMandate, GGateVerdict, GApproval,
      GBuyingPower, GBracketLegality, GStopPresent, GDuplicate, GWash]"

fun guard_check :: "guard_name \<Rightarrow> OrderIntent \<Rightarrow> guard_context \<Rightarrow> guard_failure option" where
  "guard_check GClientOrderId i c = check_client_order_id i c"
| "guard_check GQty i c = check_qty i c"
| "guard_check GOrderType i c = check_order_type i c"
| "guard_check GPrecision i c = check_precision i c"
| "guard_check GMandate i c = check_mandate i c"
| "guard_check GGateVerdict i c = check_gate_verdict i c"
| "guard_check GApproval i c = check_approval i c"
| "guard_check GBuyingPower i c = check_buying_power i c"
| "guard_check GBracketLegality i c = check_bracket_legality i c"
| "guard_check GStopPresent i c = check_stop_present i c"
| "guard_check GDuplicate i c = check_duplicate i c"
| "guard_check GWash i c = check_wash i c"

record GuardResult =
  gr_ok :: bool
  gr_reasons :: "(guard_name \<times> guard_failure) list"
  gr_binding :: "guard_name option"

fun guard_loop ::
  "OrderIntent \<Rightarrow> guard_context \<Rightarrow> guard_name list
     \<Rightarrow> (guard_name \<times> guard_failure) list \<Rightarrow> guard_name option
     \<Rightarrow> (guard_name \<times> guard_failure) list \<times> guard_name option" where
  "guard_loop i c [] reasons binding = (reasons, binding)"
| "guard_loop i c (n # ns) reasons binding =
     (case guard_check n i c of
        None \<Rightarrow> guard_loop i c ns reasons binding
      | Some failure \<Rightarrow>
          guard_loop i c ns (reasons @ [(n, failure)])
            (case binding of None \<Rightarrow> Some n | Some b \<Rightarrow> Some b))"

definition guard :: "OrderIntent \<Rightarrow> guard_context \<Rightarrow> GuardResult" where
  "guard i c =
     (let (reasons, binding) = guard_loop i c GUARD_CHECKS [] None in
      \<lparr>gr_ok = (reasons = []), gr_reasons = reasons, gr_binding = binding\<rparr>)"

lemma guard_loop_eq:
  "guard_loop i c ns reasons binding =
     (let found = List.map_filter (\<lambda>n. map_option (Pair n) (guard_check n i c)) ns in
      (reasons @ found,
       case binding of Some b \<Rightarrow> Some b
       | None \<Rightarrow> (case found of [] \<Rightarrow> None | nf # _ \<Rightarrow> Some (fst nf))))"
  by (induction ns arbitrary: reasons binding)
    (auto simp: List.map_filter_simps Let_def split: option.splits list.splits)

interpretation gt: check_table GUARD_CHECKS "\<lambda>(i, c) n. guard_check n i c"
    "\<lambda>(i, c). gr_reasons (guard i c)"
  by unfold_locales (auto simp: guard_def guard_loop_eq Let_def)

lemma guard_binding_eq:
  "gr_binding (guard i c) = (case gr_reasons (guard i c) of [] \<Rightarrow> None | nf # _ \<Rightarrow> Some (fst nf))"
  by (simp add: guard_def guard_loop_eq Let_def split: list.splits)

lemma guard_ok_eq: "gr_ok (guard i c) \<longleftrightarrow> gr_reasons (guard i c) = []"
  by (simp add: guard_def guard_loop_eq Let_def)

lemma guard_name_in_table [simp]: "n \<in> set GUARD_CHECKS"
  by (cases n) (simp_all add: GUARD_CHECKS_def)

lemma guard_ok_iff: "gr_ok (guard i c) \<longleftrightarrow> (\<forall>n. guard_check n i c = None)"
  using gt.report_empty_iff [of "(i, c)"] by (simp add: guard_ok_eq Ball_def)

lemma guard_okD: "gr_ok (guard i c) \<Longrightarrow> guard_check n i c = None"
  by (simp add: guard_ok_iff)

section \<open>What each check lets through\<close>

lemma check_client_order_id_None:
  "check_client_order_id i c = None \<longleftrightarrow>
     oi_client_order_id i \<noteq> [] \<and> length (oi_client_order_id i) \<le> 48
       \<and> list_all id_char (oi_client_order_id i)"
  by (simp add: check_client_order_id_def ID_MAX_def Let_def not_less)

lemma first_off_grid_None:
  "first_off_grid xs = None \<longleftrightarrow> (\<forall>label price. (label, Some price) \<in> set xs \<longrightarrow> price_is_on_grid price None)"
  by (induction xs rule: first_off_grid.induct) auto

lemma check_precision_None:
  "check_precision i c = None \<longleftrightarrow>
     (\<forall>p. oi_limit_price i = Some p \<longrightarrow> price_is_on_grid p None)
       \<and> (\<forall>p. oi_stop_price i = Some p \<longrightarrow> price_is_on_grid p None)"
  by (auto simp: check_precision_def first_off_grid_None)

lemma check_mandate_None:
  "check_mandate i c = None \<longleftrightarrow>
     (\<exists>m t. g_mandate c = Some m \<and> oi_side i \<in> {''buy'', ''sell''}
        \<and> str_upper (oi_symbol i) \<in> set (map str_upper (md_allowed m))
        \<and> parse_stamp (strip (oi_created_at i)) = Some t \<and> \<not> is_expired m t
        \<and> (oi_side i = ''sell'' \<and> position_for (g_book c) (oi_symbol i) \<le> 0 \<longrightarrow> md_shorts m))"
  by (auto simp: check_mandate_def split: option.splits if_splits)

lemma check_buying_power_None:
  "check_buying_power i c = None \<longleftrightarrow>
     (\<forall>bp. b_buying_power (g_book c) = Some bp \<longrightarrow> \<not> bp < effective_notional i c)
       \<and> (oi_side i = ''buy'' \<longrightarrow>
            \<not> cfg_leverage_cap (g_config c) * b_equity (g_book c)
               < b_notional (g_book c) + effective_notional i c)"
  by (auto simp: check_buying_power_def Let_def split: option.splits)

lemma client_order_id_legal:
  "client_order_id s k l \<noteq> [] \<and> length (client_order_id s k l) \<le> 48
     \<and> list_all id_char (client_order_id s k l)"
proof -
  define w where "w = take 3 (filter id_char s) @ ''-'' @ take 32 (filter id_char k) @ ''-'' @ filter id_char l"
  have "id_char CHR ''-''" by (simp add: id_char_def)
  moreover have "list_all id_char (take n (filter id_char xs))" "list_all id_char (filter id_char xs)"
    for n xs by (auto simp: list_all_iff dest: in_set_takeD)
  ultimately have "list_all id_char w" by (simp add: w_def)
  then have "list_all id_char (take 48 w)" by (auto simp: list_all_iff dest: in_set_takeD)
  moreover have "w \<noteq> []" by (simp add: w_def)
  moreover have "client_order_id s k l = take 48 w"
    by (simp add: client_order_id_def ID_MAX_def w_def Let_def)
  ultimately show ?thesis by simp
qed

end
