(* ===== verification/Stops.thy ===== *)
theory Stops
  imports Guard
begin

text \<open>
  \<open>signald/order/stops.py\<close>: the stop distance, the cluster clearance, the stop-limit price and
  the protective legs. The market record carries no LULD band fields, so the band branch of
  \<open>_cluster_levels\<close> contributes no level (as the source says). The text of \<open>reason\<close> is left out.
\<close>

section \<open>Definitions\<close>

definition STOP_TICK :: real where
  "STOP_TICK = 1 / 100"

definition STOP_KIND :: string where
  "STOP_KIND = ''synthetic_stop_limit''"

definition ROUND_STEP :: real where
  "ROUND_STEP = 1 / 2"

definition int_trunc :: "pyfloat \<Rightarrow> int res" where
  \<comment> \<open>\<open>int(x)\<close>: truncation; NaN raises \<open>ValueError\<close>, an infinity \<open>OverflowError\<close>\<close>
  "int_trunc x =
     (case x of
        Fin v \<Rightarrow> Inr (if 0 \<le> v then \<lfloor>v\<rfloor> else \<lceil>v\<rceil>)
      | NaN \<Rightarrow> Inl ValueError
      | _ \<Rightarrow> Inl OtherError)"

definition stop_distance :: "pyfloat \<Rightarrow> pyfloat \<Rightarrow> Config \<Rightarrow> pyfloat res" where
  "stop_distance atr mae_pctl cfg =
     (if \<not> isfinite atr \<or> atr \<le> 0 then Inl ValueError
      else if \<not> isfinite mae_pctl \<or> mae_pctl < 0 then Inl ValueError
      else Inr (pymax (pymax (cfg_stop_atr_mult cfg * atr) mae_pctl) atr))"

definition near_level :: "real \<Rightarrow> pyfloat option \<Rightarrow> real list" where
  "near_level price prior =
     (case prior of
        Some (Fin v) \<Rightarrow> if \<bar>price - v\<bar> \<le> STOP_TICK then [v] else []
      | _ \<Rightarrow> [])"

definition cluster_levels :: "real \<Rightarrow> MarketState \<Rightarrow> real list" where
  "cluster_levels price market =
     (let nearest = of_int (round_half_even (price / ROUND_STEP)) * ROUND_STEP in
      (if \<bar>price - nearest\<bar> \<le> STOP_TICK then [nearest] else [])
        @ near_level price (m_last_bar_high market) @ near_level price (m_last_bar_low market))"

fun min_key :: "(real \<Rightarrow> real) \<Rightarrow> real \<Rightarrow> real list \<Rightarrow> real" where
  \<comment> \<open>\<open>min(xs, key=f)\<close>: the first element with the least key\<close>
  "min_key f best [] = best"
| "min_key f best (x # xs) = min_key f (if f x < f best then x else best) xs"

definition cluster_clearance :: "pyfloat \<Rightarrow> MarketState \<Rightarrow> pyfloat res" where
  "cluster_clearance price market =
     (case price of
        Fin p \<Rightarrow>
          if p \<le> 0 then Inl ValueError
          else (case cluster_levels p market of
                  [] \<Rightarrow> Inr price
                | l # ls \<Rightarrow>
                    (let nearest = min_key (\<lambda>lvl. \<bar>p - lvl\<bar>) l ls;
                         moved = (if p \<le> nearest then p - STOP_TICK else p + STOP_TICK)
                     in round_price (Fin moved) None))
      | _ \<Rightarrow> Inl ValueError)"

definition protective_limit :: "pyfloat \<Rightarrow> string \<Rightarrow> pyfloat \<Rightarrow> pyfloat \<Rightarrow> pyfloat res" where
  "protective_limit trigger side dev reference =
     (let side = str_lower (strip side) in
      if side \<noteq> ''buy'' \<and> side \<noteq> ''sell'' then Inl ValueError
      else if \<not> isfinite reference \<or> reference \<le> 0 then Inl ValueError
      else (let offset = fdiv (\<bar>reference\<bar> * \<bar>dev\<bar>) (Fin 10000) in
        rbind (round_price trigger None) (\<lambda>trig.
          if side = ''sell'' then
            rbind (round_price (trig - offset) None) (\<lambda>limit.
              if trig \<le> limit then round_price (trig - Fin STOP_TICK) None else Inr limit)
          else
            rbind (round_price (trig + offset) None) (\<lambda>limit.
              if limit \<le> trig then round_price (trig + Fin STOP_TICK) None else Inr limit))))"

record StopPlan =
  sp_trigger_price :: pyfloat
  sp_limit_price :: pyfloat
  sp_qty :: int
  sp_stop_kind :: string
  sp_adjusted_for_cluster :: bool

definition p_mark :: "Position \<Rightarrow> pyfloat" where
  \<comment> \<open>\<open>position.last if position.last is not None else position.avg_entry\<close>\<close>
  "p_mark p = (case p_last p of Some l \<Rightarrow> l | None \<Rightarrow> p_avg_entry p)"

definition plan_stop ::
  "Position \<Rightarrow> pyfloat \<Rightarrow> string \<Rightarrow> pyfloat \<Rightarrow> Config \<Rightarrow> MarketState \<Rightarrow> StopPlan res" where
  "plan_stop position atr side dev cfg market =
     (let side = str_lower (strip side); reference = p_mark position in
      if side \<noteq> ''long'' \<and> side \<noteq> ''short'' then Inl ValueError
      else if \<not> isfinite reference \<or> reference \<le> 0 then Inl ValueError
      else
        rbind (stop_distance atr (cfg_stop_mae_pctl cfg * atr) cfg) (\<lambda>distance.
        let raw = (if side = ''long'' then reference - distance else reference + distance) in
        rbind (cluster_clearance raw market) (\<lambda>cleared.
        rbind (round_price cleared None) (\<lambda>trigger.
        rbind (protective_limit trigger (if side = ''long'' then ''sell'' else ''buy'') dev reference)
          (\<lambda>limit.
        rmap (\<lambda>qty. \<lparr>sp_trigger_price = trigger, sp_limit_price = limit, sp_qty = qty,
                     sp_stop_kind = STOP_KIND, sp_adjusted_for_cluster = (cleared \<noteq> raw)\<rparr>)
          (int_trunc \<bar>p_qty position\<bar>))))))"

definition protective_leg :: "Position \<Rightarrow> pyfloat \<Rightarrow> string \<Rightarrow> OrderIntent option res" where
  \<comment> \<open>one iteration of the loop of \<open>protective_orders\<close>, for a symbol that is not covered\<close>
  "protective_leg p dev created_at =
     (if \<not> truthy (p_qty p) then Inr None
      else (case p_stop p of
        None \<Rightarrow> Inr None
      | Some level \<Rightarrow>
          if \<not> isfinite level \<or> level \<le> 0 then Inr None
          else (let side = (if 0 < p_qty p then ''sell'' else ''buy'');
                    mark = p_mark p;
                    reference = (if \<not> isfinite mark \<or> mark \<le> 0 then level else mark)
                in rbind (protective_limit level side dev reference) (\<lambda>limit.
                   rbind (int_trunc \<bar>p_qty p\<bar>) (\<lambda>qty.
                   rmap (\<lambda>stop.
                     (let cid = client_order_id (p_sleeve p) (p_symbol p) ''stop'' in
                      Some \<lparr>oi_intent_id = ''stop-'' @ cid, oi_sleeve = p_sleeve p,
                            oi_symbol = p_symbol p, oi_side = side, oi_qty = qty,
                            oi_order_type = ''stop_limit'', oi_limit_price = Some limit,
                            oi_stop_price = Some stop, oi_tif = ''day'', oi_client_order_id = cid,
                            oi_created_at = created_at, oi_extended_hours = False\<rparr>))
                     (round_price level None))))))"

fun protective_loop ::
  "string list \<Rightarrow> pyfloat \<Rightarrow> string \<Rightarrow> Position list \<Rightarrow> OrderIntent list res" where
  "protective_loop covered dev created_at [] = Inr []"
| "protective_loop covered dev created_at (p # ps) =
     (if truthy (p_qty p) \<and> p_symbol p \<in> set covered
      then protective_loop covered dev created_at ps
      else rbind (protective_leg p dev created_at) (\<lambda>leg.
             rmap (\<lambda>legs. (case leg of None \<Rightarrow> legs | Some i \<Rightarrow> i # legs))
               (protective_loop covered dev created_at ps)))"

definition protective_orders ::
  "Position list \<Rightarrow> string list \<Rightarrow> Config \<Rightarrow> string \<Rightarrow> OrderIntent list res" where
  \<comment> \<open>\<open>covered\<close> holds the keys of the source's \<open>stops\<close> mapping, \<open>created_at\<close> is
     \<open>config.now().isoformat()\<close>\<close>
  "protective_orders positions covered cfg created_at =
     protective_loop covered (deviation_bps None cfg) created_at (sort_key p_symbol positions)"

section \<open>The limit stays on the safe side of the trigger\<close>

lemma protective_limit_InrD:
  assumes "protective_limit trigger side dev reference = Inr l"
  obtains t v where "trigger = Fin t" "l = Fin v" "grid_round v = v"
    "str_lower (strip side) = ''sell'' \<and> v < grid_round t
      \<or> str_lower (strip side) = ''buy'' \<and> grid_round t < v"
proof -
  define off where "off = fdiv (\<bar>reference\<bar> * \<bar>dev\<bar>) (Fin 10000)"
  from assms obtain trg where trg: "round_price trigger None = Inr trg"
    by (auto simp: protective_limit_def Let_def rbind_Inr_iff split: if_splits)
  then obtain t where t: "trigger = Fin t" "trg = Fin (grid_round t)"
    using round_price_InrD by fastforce
  have off_fin: "\<exists>r. x = Fin r" if "round_price (Fin g - x) None = Inr y \<or> round_price (Fin g + x) None = Inr y"
    for g x y
    using that by (cases x) (auto simp: minus_pyfloat_def round_price_def)
  from assms t obtain w where o: "off = Fin w"
    using off_fin [of "grid_round t" off]
    by (auto simp: protective_limit_def Let_def rbind_Inr_iff off_def [symmetric] split: if_splits)
  have below: "grid_round (grid_round t - STOP_TICK) < grid_round t"
    using pg.rnd_shift_below [of "grid_round t"] by (simp add: STOP_TICK_def)
  have above: "grid_round t < grid_round (grid_round t + STOP_TICK)"
    using pg.rnd_shift_above [of "grid_round t"] by (simp add: STOP_TICK_def)
  show thesis
    using assms t o below above
    by (auto simp: protective_limit_def Let_def off_def [symmetric] rbind_Inr_iff
        split: if_splits intro!: that)
qed

lemma protective_limit_side:
  assumes "protective_limit (Fin t) side dev reference = Inr (Fin v)"
  shows "str_lower (strip side) = ''sell'' \<Longrightarrow> v < grid_round t"
    and "str_lower (strip side) = ''buy'' \<Longrightarrow> grid_round t < v"
  using assms by (auto elim!: protective_limit_InrD)

lemma side_literals [simp]:
  "str_lower (strip ''sell'') = ''sell''" "str_lower (strip ''buy'') = ''buy''"
  by code_simp+

lemma stop_distance_InrD:
  assumes "stop_distance atr mae cfg = Inr d"
  obtains a m where "atr = Fin a" "0 < a" "mae = Fin m" "0 \<le> m"
    "d = pymax (pymax (cfg_stop_atr_mult cfg * atr) mae) atr"
  using assms by (cases atr; cases mae) (auto simp: stop_distance_def split: if_splits)

lemma stop_distance_ge_atr:
  assumes "stop_distance (Fin a) mae cfg = Inr d" "cfg_stop_atr_mult cfg = Fin k"
  shows "\<exists>x. d = Fin x \<and> a \<le> x \<and> k * a \<le> x"
  using assms by (elim stop_distance_InrD) auto

lemma cluster_clearance_shift:
  assumes "cluster_clearance (Fin p) market = Inr (Fin c)"
  shows "\<bar>c - p\<bar> \<le> 3 / 200"
proof -
  have near: "\<bar>grid_round x - x\<bar> \<le> 1 / 200" for x using pg.near_coarse [of x] by simp
  have "c = p \<or> c = grid_round (p - 1 / 100) \<or> c = grid_round (p + 1 / 100)"
    using assms
    by (auto simp: cluster_clearance_def STOP_TICK_def Let_def split: if_splits list.splits)
  then show ?thesis using near [of "p - 1 / 100"] near [of "p + 1 / 100"] by linarith
qed

lemma cluster_clearance_grid:
  assumes "cluster_clearance (Fin p) market = Inr (Fin c)" "c \<noteq> p"
  shows "grid_round c = c"
  using assms by (auto simp: cluster_clearance_def Let_def split: if_splits list.splits)

lemma trigger_shift:
  assumes "cluster_clearance (Fin p) market = Inr (Fin c)"
  shows "\<bar>grid_round c - p\<bar> \<le> 3 / 200"
proof (cases "c = p")
  case True
  then show ?thesis using pg.near_coarse [of p] by simp
next
  case False
  then show ?thesis using assms cluster_clearance_shift cluster_clearance_grid by fastforce
qed

lemma cluster_clearance_Fin: "cluster_clearance x market = Inr y \<Longrightarrow> \<exists>p c. x = Fin p \<and> y = Fin c"
  by (auto simp: cluster_clearance_def Let_def split: pyfloat.splits if_splits list.splits
      dest: round_price_InrD)

lemma plan_stop_InrD:
  assumes "plan_stop position atr side dev cfg market = Inr sp"
  obtains ref dist raw c t v a where
    "str_lower (strip side) \<in> {''long'', ''short''}"
    "p_mark position = Fin ref" "0 < ref" "atr = Fin a"
    "stop_distance atr (cfg_stop_mae_pctl cfg * atr) cfg = Inr (Fin dist)"
    "raw = (if str_lower (strip side) = ''long'' then ref - dist else ref + dist)"
    "cluster_clearance (Fin raw) market = Inr (Fin c)"
    "t = grid_round c" "sp_trigger_price sp = Fin t" "sp_limit_price sp = Fin v"
    "if str_lower (strip side) = ''long'' then v < t else t < v"
    "sp_stop_kind sp = STOP_KIND" "int_trunc \<bar>p_qty position\<bar> = Inr (sp_qty sp)"
proof -
  let ?long = "str_lower (strip side) = ''long''"
  from assms obtain ref dist cleared trigger limit qty where
    s: "str_lower (strip side) \<in> {''long'', ''short''}" "p_mark position = Fin ref" "0 < ref"
    and d: "stop_distance atr (cfg_stop_mae_pctl cfg * atr) cfg = Inr dist"
    and c: "cluster_clearance (if ?long then Fin ref - dist else Fin ref + dist) market = Inr cleared"
    and t: "round_price cleared None = Inr trigger"
    and l: "protective_limit trigger (if ?long then ''sell'' else ''buy'') dev (Fin ref) = Inr limit"
    and q: "int_trunc \<bar>p_qty position\<bar> = Inr qty"
    and sp: "sp_trigger_price sp = trigger" "sp_limit_price sp = limit" "sp_qty sp = qty"
      "sp_stop_kind sp = STOP_KIND"
    by (auto simp: plan_stop_def Let_def rbind_Inr_iff rmap_Inr_iff split: if_splits)
  from c obtain raw cc where r: "(if ?long then Fin ref - dist else Fin ref + dist) = Fin raw"
      "cleared = Fin cc"
    using cluster_clearance_Fin by blast
  then obtain dd where dd: "dist = Fin dd"
    by (cases dist) (auto simp: minus_pyfloat_def split: if_splits)
  from d obtain a where "atr = Fin a" by (elim stop_distance_InrD)
  moreover from t r have trig: "trigger = Fin (grid_round cc)" by simp
  moreover from l obtain v where "limit = Fin v"
      "if ?long then v < grid_round cc else grid_round cc < v"
    unfolding trig by (elim protective_limit_InrD) (auto split: if_splits)
  ultimately show thesis
    using s d c q sp r dd by (intro that [of ref a dd raw cc "grid_round cc" v]) (auto split: if_splits)
qed

section \<open>Protective legs\<close>

lemma protective_leg_SomeD:
  assumes "protective_leg p dev created = Inr (Some i)"
  shows "oi_symbol i = p_symbol p \<and> oi_order_type i = ''stop_limit'' \<and> oi_tif i = ''day''
     \<and> oi_side i = (if 0 < p_qty p then ''sell'' else ''buy'')
     \<and> int_trunc \<bar>p_qty p\<bar> = Inr (oi_qty i)
     \<and> oi_client_order_id i = client_order_id (p_sleeve p) (p_symbol p) ''stop''
     \<and> \<not> oi_extended_hours i
     \<and> (\<exists>l s. oi_limit_price i = Some (Fin l) \<and> oi_stop_price i = Some (Fin s)
          \<and> grid_round l = l \<and> grid_round s = s \<and> (if 0 < p_qty p then l < s else s < l))"
proof -
  from assms obtain level limit qty stop where
    lv: "p_stop p = Some level"
    and lim: "protective_limit level (if 0 < p_qty p then ''sell'' else ''buy'') dev
        (if \<not> isfinite (p_mark p) \<or> p_mark p \<le> 0 then level else p_mark p) = Inr limit"
    and q: "int_trunc \<bar>p_qty p\<bar> = Inr qty" and st: "round_price level None = Inr stop"
    and i: "oi_symbol i = p_symbol p" "oi_order_type i = ''stop_limit''" "oi_tif i = ''day''"
      "oi_side i = (if 0 < p_qty p then ''sell'' else ''buy'')" "oi_qty i = qty"
      "oi_client_order_id i = client_order_id (p_sleeve p) (p_symbol p) ''stop''"
      "\<not> oi_extended_hours i" "oi_limit_price i = Some limit" "oi_stop_price i = Some stop"
    by (auto simp: protective_leg_def Let_def rbind_Inr_iff rmap_Inr_iff split: option.splits if_splits)
  from lim obtain t v where "level = Fin t" "limit = Fin v" "grid_round v = v"
      "if 0 < p_qty p then v < grid_round t else grid_round t < v"
    by (elim protective_limit_InrD) (auto split: if_splits)
  moreover from this st have "stop = Fin (grid_round t)" by simp
  ultimately show ?thesis using q i by simp
qed

definition needs_leg :: "string list \<Rightarrow> Position \<Rightarrow> bool" where
  \<comment> \<open>an open, uncovered position with a usable trigger level\<close>
  "needs_leg covered p \<longleftrightarrow> truthy (p_qty p) \<and> p_symbol p \<notin> set covered
     \<and> (\<exists>l. p_stop p = Some (Fin l) \<and> 0 < l)"

lemma protective_leg_None_iff:
  assumes "protective_leg p dev created = Inr leg"
  shows "leg = None \<longleftrightarrow> \<not> (truthy (p_qty p) \<and> (\<exists>l. p_stop p = Some (Fin l) \<and> 0 < l))"
  using assms
  by (cases "p_stop p") (auto simp: protective_leg_def Let_def rbind_Inr_iff rmap_Inr_iff isfinite_iff
      split: if_splits)

lemma protective_loop_symbols:
  assumes "protective_loop covered dev created ps = Inr legs"
  shows "map oi_symbol legs = map p_symbol (filter (needs_leg covered) ps)"
  using assms
proof (induction ps arbitrary: legs)
  case Nil
  then show ?case by simp
next
  case (Cons p ps)
  show ?case
  proof (cases "truthy (p_qty p) \<and> p_symbol p \<in> set covered")
    case True
    with Cons show ?thesis by (simp add: needs_leg_def)
  next
    case False
    with Cons.prems obtain leg rest where leg: "protective_leg p dev created = Inr leg"
      and rest: "protective_loop covered dev created ps = Inr rest"
      and legs: "legs = (case leg of None \<Rightarrow> rest | Some i \<Rightarrow> i # rest)"
      by (auto simp: rbind_Inr_iff rmap_Inr_iff)
    have "needs_leg covered p \<longleftrightarrow> leg \<noteq> None"
      using protective_leg_None_iff [OF leg] False by (auto simp: needs_leg_def)
    with Cons.IH [OF rest] legs leg show ?thesis
      by (cases leg) (auto dest: protective_leg_SomeD)
  qed
qed

lemma protective_loop_legs:
  assumes "protective_loop covered dev created ps = Inr legs" "i \<in> set legs"
  shows "\<exists>p \<in> set ps. protective_leg p dev created = Inr (Some i)"
  using assms
proof (induction ps arbitrary: legs)
  case Nil
  then show ?case by simp
next
  case (Cons p ps)
  then show ?case
    by (fastforce simp: rbind_Inr_iff rmap_Inr_iff split: if_splits option.splits)
qed

end
