(* ===== verification/Flatten.thy ===== *)
theory Flatten
  imports Stops
begin

text \<open>
  \<open>signald/order/flatten.py\<close>: the end-of-day flatten plan and the one function that may declare
  the book flat. The calendar's conversion to Eastern time is an argument (\<open>to_et\<close>), as the source
  injects it; \<open>verify_flat\<close> takes its broker reads as a function from the attempt to the answer.
\<close>

section \<open>Definitions\<close>

definition DUST_SHARES :: pyfloat where
  "DUST_SHARES = Fin 1"

definition NEEDS_MANUAL :: string where
  "NEEDS_MANUAL = ''needs_manual''"

record FlattenPlan =
  fp_orders :: "OrderIntent list"
  fp_use_closing_auction :: bool
  fp_manual :: "string list" \<comment> \<open>the symbols the reason names as \<open>needs_manual\<close>\<close>

definition seconds_to_flat :: "(datetime \<Rightarrow> datetime) \<Rightarrow> datetime \<Rightarrow> Config \<Rightarrow> pyfloat res" where
  "seconds_to_flat to_et now cfg =
     (let et = to_et now in
      rmap (\<lambda>flat_at. total_seconds (date_of et * us_per_day + flat_at - wall_us et))
        (parse_hhmm (cfg_intraday_flat_by cfg)))"

definition is_flat :: "Position list \<Rightarrow> bool \<times> string list" where
  "is_flat positions =
     (let residual = sort (remdups (map p_symbol
                       (filter (\<lambda>p. DUST_SHARES < \<bar>p_qty p\<bar>) positions)))
      in (residual = [], residual))"

definition flat_leg ::
  "Position \<Rightarrow> string \<Rightarrow> int \<Rightarrow> pyfloat option \<Rightarrow> string \<Rightarrow> string \<Rightarrow> OrderIntent" where
  "flat_leg p order_type qty limit tif created_at =
     (let cid = client_order_id (p_sleeve p) (p_symbol p) ''flat'' in
      \<lparr>oi_intent_id = ''flat-'' @ cid, oi_sleeve = p_sleeve p, oi_symbol = p_symbol p,
       oi_side = (if 0 < p_qty p then ''sell'' else ''buy''), oi_qty = qty,
       oi_order_type = order_type, oi_limit_price = limit, oi_stop_price = None, oi_tif = tif,
       oi_client_order_id = cid, oi_created_at = created_at, oi_extended_hours = False\<rparr>)"

definition usable_price :: "pyfloat option \<Rightarrow> bool" where
  "usable_price price = (case price of Some (Fin v) \<Rightarrow> 0 < v | _ \<Rightarrow> False)"

fun flatten_loop ::
  "pyfloat \<Rightarrow> string \<Rightarrow> string \<Rightarrow> Position list \<Rightarrow> (OrderIntent list \<times> string list) res" where
  "flatten_loop dev tif created_at [] = Inr ([], [])"
| "flatten_loop dev tif created_at (p # ps) =
     (if \<bar>p_qty p\<bar> \<le> DUST_SHARES then flatten_loop dev tif created_at ps
      else rbind (int_trunc \<bar>p_qty p\<bar>) (\<lambda>qty.
        if qty < 1 \<or> \<not> usable_price (p_last p) then
          rmap (\<lambda>(orders, manual).
                  (flat_leg p NEEDS_MANUAL (max qty 1) None tif created_at # orders,
                   p_symbol p # manual))
            (flatten_loop dev tif created_at ps)
        else
          (let price = (case p_last p of Some x \<Rightarrow> x | None \<Rightarrow> NaN) in
           rbind (protective_limit price (if 0 < p_qty p then ''sell'' else ''buy'') dev price)
             (\<lambda>limit. rmap (\<lambda>(orders, manual).
                (flat_leg p ''marketable_limit'' qty (Some limit) tif created_at # orders, manual))
              (flatten_loop dev tif created_at ps)))))"

definition flatten_plan ::
  "(datetime \<Rightarrow> datetime) \<Rightarrow> Position list \<Rightarrow> datetime \<Rightarrow> string \<Rightarrow> Config \<Rightarrow> bool \<Rightarrow> FlattenPlan res"
where
  "flatten_plan to_et positions now created_at cfg closing_auction_eligible =
     (if fst (is_flat positions)
      then Inr \<lparr>fp_orders = [], fp_use_closing_auction = False, fp_manual = []\<rparr>
      else
        rbind (if closing_auction_eligible
               then rmap (\<lambda>s. 0 < s) (seconds_to_flat to_et now cfg) else Inr False)
          (\<lambda>use_auction.
            rmap (\<lambda>(orders, manual). \<lparr>fp_orders = orders, fp_use_closing_auction = use_auction,
                                       fp_manual = sort manual\<rparr>)
              (flatten_loop (deviation_bps None cfg) (if use_auction then ''cls'' else ''day'')
                 created_at (sort_key p_symbol positions))))"

datatype flat_verdict = VFlat | VUnavailable | VResidual "string list"

fun verify_loop :: "(nat \<Rightarrow> Position list option) \<Rightarrow> nat \<Rightarrow> nat \<Rightarrow> flat_verdict \<Rightarrow> flat_verdict" where
  "verify_loop read k 0 detail = detail"
| "verify_loop read k (Suc n) detail =
     (case read k of
        None \<Rightarrow> VUnavailable
      | Some ps \<Rightarrow>
          (let (flat, residual) = is_flat ps in
           if flat then VFlat else verify_loop read (Suc k) n (VResidual residual)))"

definition verify_flat :: "(nat \<Rightarrow> Position list option) \<Rightarrow> int \<Rightarrow> flat_verdict res" where
  "verify_flat read attempts =
     (if attempts < 1 then Inl ValueError
      else Inr (verify_loop read 0 (nat attempts) (VResidual [])))"

section \<open>Facts\<close>

definition is_residual :: "Position \<Rightarrow> bool" where
  "is_residual p \<longleftrightarrow> DUST_SHARES < \<bar>p_qty p\<bar>"

lemma is_flat_iff: "fst (is_flat ps) \<longleftrightarrow> (\<forall>p \<in> set ps. \<not> is_residual p)"
proof -
  have "sort xs = [] \<longleftrightarrow> xs = []" for xs :: "string list"
    by (metis length_0_conv length_sort)
  then show ?thesis by (auto simp: is_flat_def Let_def is_residual_def filter_empty_conv)
qed

lemma is_flat_residual: "set (snd (is_flat ps)) = p_symbol ` {p \<in> set ps. is_residual p}"
  by (simp add: is_flat_def Let_def is_residual_def)

lemma not_NaN_residual: "p_qty p \<noteq> NaN \<Longrightarrow> \<bar>p_qty p\<bar> \<le> DUST_SHARES \<longleftrightarrow> \<not> is_residual p"
  by (cases "p_qty p") (auto simp: is_residual_def DUST_SHARES_def)

lemma int_trunc_residual:
  "int_trunc \<bar>p_qty p\<bar> = Inr q \<Longrightarrow> is_residual p \<Longrightarrow> 1 \<le> q"
  by (cases "p_qty p") (auto simp: int_trunc_def is_residual_def DUST_SHARES_def split: if_splits)

lemma int_trunc_not_NaN: "int_trunc \<bar>x\<bar> = Inr q \<Longrightarrow> \<exists>v. x = Fin v \<and> q = \<lfloor>\<bar>v\<bar>\<rfloor>"
  by (cases x) (auto simp: int_trunc_def)

lemma flatten_loop_legs:
  assumes "flatten_loop dev tif created ps = Inr (orders, manual)"
  shows "map oi_symbol orders = map p_symbol (filter is_residual ps)
    \<and> manual = map p_symbol (filter (\<lambda>p. is_residual p \<and> \<not> usable_price (p_last p)) ps)
    \<and> list_all2 (\<lambda>o' p. oi_side o' = (if 0 < p_qty p then ''sell'' else ''buy'')
          \<and> (\<exists>v. p_qty p = Fin v \<and> oi_qty o' = \<lfloor>\<bar>v\<bar>\<rfloor>) \<and> oi_tif o' = tif
          \<and> (if usable_price (p_last p)
             then oi_order_type o' = ''marketable_limit'' \<and> (\<exists>l. oi_limit_price o' = Some (Fin l))
             else oi_order_type o' = NEEDS_MANUAL \<and> oi_limit_price o' = None))
        orders (filter is_residual ps)"
  using assms
proof (induction ps arbitrary: orders manual)
  case Nil
  then show ?case by simp
next
  case (Cons p ps)
  show ?case
  proof (cases "\<bar>p_qty p\<bar> \<le> DUST_SHARES")
    case True
    then have "\<not> is_residual p" by (cases "p_qty p") (auto simp: is_residual_def DUST_SHARES_def)
    with True Cons show ?thesis by simp
  next
    case False
    with Cons.prems obtain qty where q: "int_trunc \<bar>p_qty p\<bar> = Inr qty"
      by (auto simp: rbind_Inr_iff)
    obtain v where v: "p_qty p = Fin v" "qty = \<lfloor>\<bar>v\<bar>\<rfloor>" using int_trunc_not_NaN [OF q] by blast
    have res: "is_residual p" using False v by (simp add: is_residual_def DUST_SHARES_def)
    have q1: "1 \<le> qty" by (rule int_trunc_residual [OF q res])
    obtain orders' manual' where rest: "flatten_loop dev tif created ps = Inr (orders', manual')"
      using Cons.prems False q q1
      by (auto simp: rbind_Inr_iff rmap_Inr_iff Let_def split: if_splits)
    show ?thesis
    proof (cases "usable_price (p_last p)")
      case True
      with Cons.prems False q q1 rest obtain limit where
        lim: "\<exists>x s. protective_limit x s dev x = Inr limit"
        and eq: "orders = flat_leg p ''marketable_limit'' qty (Some limit) tif created # orders'"
          "manual = manual'"
        by (auto simp: rbind_Inr_iff rmap_Inr_iff Let_def)
      from lim have "\<exists>l. limit = Fin l" by (auto elim: protective_limit_InrD)
      with eq Cons.IH [OF rest] res v True show ?thesis by (auto simp: flat_leg_def Let_def)
    next
      case unusable: False
      with Cons.prems False q q1 rest have
        "orders = flat_leg p NEEDS_MANUAL qty None tif created # orders'"
        "manual = p_symbol p # manual'"
        by (auto simp: rbind_Inr_iff rmap_Inr_iff max_def)
      with Cons.IH [OF rest] res v unusable show ?thesis by (auto simp: flat_leg_def Let_def)
    qed
  qed
qed

lemma verify_loop_VFlat:
  "verify_loop read k n d = VFlat \<Longrightarrow> d \<noteq> VFlat \<Longrightarrow>
     \<exists>j < n. (\<exists>ps. read (k + j) = Some ps \<and> fst (is_flat ps))
        \<and> (\<forall>i < j. \<exists>ps. read (k + i) = Some ps \<and> \<not> fst (is_flat ps))"
proof (induction n arbitrary: k d)
  case 0
  then show ?case by simp
next
  case (Suc n)
  from Suc.prems(1) obtain ps where ps: "read k = Some ps"
    by (auto split: option.splits)
  show ?case
  proof (cases "fst (is_flat ps)")
    case True
    with ps show ?thesis by (intro exI [of _ 0]) auto
  next
    case False
    with Suc.prems ps obtain r where "verify_loop read (Suc k) n (VResidual r) = VFlat"
      by (auto simp: Let_def split: prod.splits)
    from Suc.IH [OF this] obtain j where j: "j < n"
      "\<exists>ps. read (Suc k + j) = Some ps \<and> fst (is_flat ps)"
      "\<forall>i < j. \<exists>ps. read (Suc k + i) = Some ps \<and> \<not> fst (is_flat ps)" by blast
    have "\<forall>i < Suc j. \<exists>ps. read (k + i) = Some ps \<and> \<not> fst (is_flat ps)"
      using j(3) ps False by (auto simp: less_Suc_eq_0_disj)
    with j(1,2) show ?thesis by (intro exI [of _ "Suc j"]) auto
  qed
qed

lemma flatten_plan_InrD:
  assumes "flatten_plan to_et ps now created cfg elig = Inr plan"
  shows "map oi_symbol (fp_orders plan) = map p_symbol (filter is_residual (sort_key p_symbol ps))
    \<and> set (fp_manual plan) = p_symbol ` {p \<in> set ps. is_residual p \<and> \<not> usable_price (p_last p)}"
proof (cases "fst (is_flat ps)")
  case True
  with assms have "plan = \<lparr>fp_orders = [], fp_use_closing_auction = False, fp_manual = []\<rparr>"
    by (simp add: flatten_plan_def)
  moreover have "filter is_residual (sort_key p_symbol ps) = []"
    using True by (simp add: is_flat_iff filter_empty_conv)
  ultimately show ?thesis using True by (auto simp: is_flat_iff)
next
  case False
  with assms obtain use_auction orders manual where
    "flatten_loop (deviation_bps None cfg) (if use_auction then ''cls'' else ''day'') created
        (sort_key p_symbol ps) = Inr (orders, manual)"
    "fp_orders plan = orders" "fp_manual plan = sort manual"
    by (auto simp: flatten_plan_def rbind_Inr_iff rmap_Inr_iff)
  with flatten_loop_legs [OF this(1)] show ?thesis by auto
qed

lemma flatten_plan_legs:
  assumes "flatten_plan to_et ps now created cfg elig = Inr plan"
  shows "list_all2 (\<lambda>o' p. oi_side o' = (if 0 < p_qty p then ''sell'' else ''buy'')
      \<and> (\<exists>v. p_qty p = Fin v \<and> oi_qty o' = \<lfloor>\<bar>v\<bar>\<rfloor>)
      \<and> (if usable_price (p_last p)
         then oi_order_type o' = ''marketable_limit'' \<and> (\<exists>l. oi_limit_price o' = Some (Fin l))
         else oi_order_type o' = NEEDS_MANUAL \<and> oi_limit_price o' = None))
    (fp_orders plan) (filter is_residual (sort_key p_symbol ps))"
proof (cases "fst (is_flat ps)")
  case True
  then have "filter is_residual (sort_key p_symbol ps) = []"
    by (simp add: is_flat_iff filter_empty_conv)
  with True assms show ?thesis by (auto simp: flatten_plan_def)
next
  case False
  with assms obtain use_auction orders manual where
    "flatten_loop (deviation_bps None cfg) (if use_auction then ''cls'' else ''day'') created
        (sort_key p_symbol ps) = Inr (orders, manual)"
    "fp_orders plan = orders"
    by (auto simp: flatten_plan_def rbind_Inr_iff rmap_Inr_iff)
  with flatten_loop_legs [OF this(1)] show ?thesis by (auto elim: list_all2_mono)
qed

end
