(* ===== verification/Json.thy ===== *)
theory Json
  imports PyTime
begin

text \<open>
  Values as \<open>json.loads\<close> returns them (broker bodies, dropped artifacts) and Python's coercions of
  them: dictionary lookup, \<open>float(text)\<close>, \<open>int(text)\<close> (in \<open>PyTime\<close>) and \<open>str(value)\<close>. The text of
  a value that is not a string stays symbolic (\<open>Repr\<close>): the source never looks inside it.
\<close>

datatype json =
    JNull | JBool bool | JInt int | JFloat pyfloat | JStr string
  | JList "json list" | JObj "(string \<times> json) list"

datatype pytext = Txt string | Repr json

definition jget :: "(string \<times> json) list \<Rightarrow> string \<Rightarrow> json" where
  \<comment> \<open>\<open>d.get(key)\<close>: a missing key reads as \<open>None\<close>\<close>
  "jget d key = (case map_of d key of None \<Rightarrow> JNull | Some v \<Rightarrow> v)"

fun hashable :: "json \<Rightarrow> bool" where
  "hashable (JList _) = False"
| "hashable (JObj _) = False"
| "hashable _ = True"

fun json_truthy :: "json \<Rightarrow> bool" where
  "json_truthy JNull = False"
| "json_truthy (JBool b) = b"
| "json_truthy (JInt i) = (i \<noteq> 0)"
| "json_truthy (JFloat x) = truthy x"
| "json_truthy (JStr s) = (s \<noteq> [])"
| "json_truthy (JList xs) = (xs \<noteq> [])"
| "json_truthy (JObj kvs) = (kvs \<noteq> [])"

section \<open>Decimal text\<close>

definition frac_val :: "string \<Rightarrow> real option" where
  "frac_val ds =
     (if ds = [] then Some 0
      else map_option (\<lambda>n. of_int n / 10 ^ length ds) (digits_val ds))"

definition int_part_val :: "string \<Rightarrow> real option" where
  "int_part_val ds = (if ds = [] then Some 0 else map_option of_int (digits_val ds))"

definition mantissa_val :: "string \<Rightarrow> real option" where
  "mantissa_val t =
     (let ip = takeWhile (\<lambda>c. c \<noteq> CHR ''.'') t;
          fp = drop 1 (dropWhile (\<lambda>c. c \<noteq> CHR ''.'') t)
      in if ip = [] \<and> fp = [] then None
         else (case (int_part_val ip, frac_val fp) of
                 (Some a, Some b) \<Rightarrow> Some (a + b) | _ \<Rightarrow> None))"

definition unsigned_float :: "string \<Rightarrow> pyfloat option" where
  "unsigned_float t =
     (let m = takeWhile (\<lambda>c. c \<noteq> CHR ''e'') t; rest = dropWhile (\<lambda>c. c \<noteq> CHR ''e'') t in
      if t = ''inf'' \<or> t = ''infinity'' then Some PInf
      else if t = ''nan'' then Some NaN
      else (case (mantissa_val m, if rest = [] then Some 0 else int_of_text (drop 1 rest)) of
              (Some x, Some k) \<Rightarrow>
                Some (Fin (if 0 \<le> k then x * 10 ^ nat k else x / 10 ^ nat (- k)))
            | _ \<Rightarrow> None))"

definition float_of_text :: "string \<Rightarrow> pyfloat option" where
  "float_of_text text =
     (case str_lower (strip text) of
        [] \<Rightarrow> None
      | c # cs \<Rightarrow> if c = CHR ''-'' then map_option uminus (unsigned_float cs)
                 else if c = CHR ''+'' then unsigned_float cs else unsigned_float (c # cs))"

definition float_integer :: "pyfloat \<Rightarrow> int option" where
  \<comment> \<open>the value of a finite float that \<open>is_integer()\<close>\<close>
  "float_integer x =
     (case x of Fin v \<Rightarrow> if of_int \<lfloor>v\<rfloor> = v then Some \<lfloor>v\<rfloor> else None | _ \<Rightarrow> None)"

end
