(* ===== verification/OrderManager.thy ===== *)
theory OrderManager
  imports Json Guard "HOL-Library.AList" "HOL-Library.Product_Lexorder"
begin

text \<open>
  \<open>signald/order/manager.py\<close>: own-before-write and query-before-retry. The broker and the clock are
  the outside of this component: a \<open>seam\<close> is any function of an outside state, so a broker that
  answers from its history is covered. The world holds the pending file, the audit chain and the
  trace of the effects in the order they happen. A transport that raises is a reply of its own.
\<close>

section \<open>The seam and the world\<close>

datatype broker_method = MSubmit | MQuery | MCancel | MReplace

datatype reply =
    TransportTimeout \<comment> \<open>the transport raised \<open>TimeoutError\<close>\<close>
  | TransportRaise \<comment> \<open>the transport raised anything else\<close>
  | Body json \<comment> \<open>the transport returned; \<open>None\<close> is \<open>JNull\<close>\<close>

type_synonym payload = "(string \<times> json) list"

record 'b seam =
  transport :: "'b \<Rightarrow> broker_method \<Rightarrow> payload \<Rightarrow> 'b \<times> reply"
  clock :: "'b \<Rightarrow> 'b \<times> string" \<comment> \<open>\<open>now().isoformat(timespec="seconds")\<close>\<close>

datatype file_line = Row json | Undecodable \<comment> \<open>a blank line, or one \<open>json.loads\<close> refuses\<close>

datatype effect = Appended payload | Called broker_method payload reply

datatype detail = Lit string | Reason pytext | NonMapping json | BadStatus string "pytext option"

record mgr_event =
  me_kind :: string
  me_reason :: detail
  me_client_order_id :: string
  me_intent_id :: "string option"

record 'b World =
  w_out :: 'b
  w_file :: "file_line list"
  w_audit :: "mgr_event list option"
  w_trace :: "effect list"

record SubmitResult =
  sr_status :: string
  sr_client_order_id :: string
  sr_order :: "payload option"
  sr_detail :: detail
  sr_retried :: bool

section \<open>Reading a broker body\<close>

definition WORKING :: "string list" where
  "WORKING = [''accepted'', ''new'', ''pending_new'', ''submitted'', ''partially_filled'']"

definition REJECTED :: "string list" where
  "REJECTED = [''rejected'', ''canceled'', ''expired'', ''stopped'', ''suspended'']"

definition REPLACED :: "string list" where
  "REPLACED = WORKING @ [''replaced'', ''pending_replace'']"

fun py_text :: "json \<Rightarrow> pytext" where
  \<comment> \<open>\<open>str(v)\<close>\<close>
  "py_text (JStr s) = Txt s"
| "py_text v = Repr v"

definition broker_status :: "payload \<Rightarrow> pytext option" where
  \<comment> \<open>\<open>_broker_status\<close> of a mapping; the text of a value that is not a string is no status word\<close>
  "broker_status body =
     (case jget body ''status'' of
        JNull \<Rightarrow> None
      | JStr s \<Rightarrow> (let t = str_lower (strip s) in if t = [] then None else Some (Txt t))
      | v \<Rightarrow> Some (Repr v))"

definition status_in :: "payload \<Rightarrow> string list \<Rightarrow> bool" where
  "status_in body names \<longleftrightarrow>
     (case broker_status body of Some (Txt s) \<Rightarrow> s \<in> set names | _ \<Rightarrow> False)"

fun first_truthy :: "payload \<Rightarrow> string list \<Rightarrow> json option" where
  "first_truthy body [] = None"
| "first_truthy body (k # ks) =
     (if json_truthy (jget body k) then Some (jget body k) else first_truthy body ks)"

definition reason_of :: "payload \<Rightarrow> pytext" where
  "reason_of body =
     (case (case jget body ''error'' of
              JObj err \<Rightarrow> first_truthy err [''message''] | _ \<Rightarrow> None) of
        Some m \<Rightarrow> py_text m
      | None \<Rightarrow>
          (case first_truthy body [''reject_reason'', ''reason'', ''detail'', ''status''] of
             Some v \<Rightarrow> py_text v
           | None \<Rightarrow> Txt ''unknown''))"

fun prefix_of :: "string \<Rightarrow> string \<Rightarrow> bool" where
  "prefix_of [] _ = True"
| "prefix_of (c # cs) [] = False"
| "prefix_of (c # cs) (d # ds) = (c = d \<and> prefix_of cs ds)"

fun substring :: "string \<Rightarrow> string \<Rightarrow> bool" where
  \<comment> \<open>\<open>w in s\<close>\<close>
  "substring w [] = (w = [])"
| "substring w (c # cs) = (prefix_of w (c # cs) \<or> substring w cs)"

fun mentions :: "string \<Rightarrow> json \<Rightarrow> bool" where
  \<comment> \<open>\<open>w in str(v).lower()\<close> for a word of letters and underscores: the text of a container
     quotes the strings inside it\<close>
  "mentions w (JStr s) = substring w (str_lower s)"
| "mentions w (JList xs) = (\<exists>x \<in> set xs. mentions w x)"
| "mentions w (JObj kvs) =
     (\<exists>kv \<in> set kvs. substring w (str_lower (fst kv)) \<or> mentions w (snd kv))"
| "mentions w _ = False"

definition is_duplicate :: "payload \<Rightarrow> bool" where
  "is_duplicate body =
     (case jget body ''error'' of
        JObj err \<Rightarrow>
          (if jget err ''code'' = JInt 422 \<or> jget err ''code'' = JFloat (Fin 422) then True
           else mentions ''client_order_id'' (jget err ''message'')
                \<and> mentions ''unique'' (jget err ''message''))
      | _ \<Rightarrow> False)"

definition submit_payload :: "OrderIntent \<Rightarrow> payload" where
  "submit_payload i =
     [(''client_order_id'', JStr (oi_client_order_id i)), (''symbol'', JStr (oi_symbol i)),
      (''side'', JStr (oi_side i)), (''qty'', JInt (oi_qty i)),
      (''type'', JStr (if oi_order_type i = [] then ''limit'' else oi_order_type i)),
      (''time_in_force'', JStr (if oi_tif i = [] then ''day'' else oi_tif i))]
     @ (case oi_limit_price i of None \<Rightarrow> [] | Some l \<Rightarrow> [(''limit_price'', JFloat l)])
     @ (case oi_stop_price i of None \<Rightarrow> [] | Some s \<Rightarrow> [(''stop_price'', JFloat s)])"

section \<open>Effects\<close>

definition call_broker ::
  "'b seam \<Rightarrow> broker_method \<Rightarrow> payload \<Rightarrow> 'b World \<Rightarrow> 'b World \<times> (json \<times> string option)" where
  \<comment> \<open>\<open>_call\<close>: the body and the failure, if any\<close>
  "call_broker sm meth p w =
     (let (out, r) = transport sm (w_out w) meth p;
          w' = w\<lparr>w_out := out, w_trace := w_trace w @ [Called meth p r]\<rparr>
      in (w', (case r of
                 Body b \<Rightarrow> (b, None)
               | TransportTimeout \<Rightarrow> (JNull, Some ''timeout'')
               | TransportRaise \<Rightarrow> (JNull, Some ''unavailable''))))"

definition append_row :: "payload \<Rightarrow> 'b World \<Rightarrow> 'b World" where
  "append_row row w =
     w\<lparr>w_file := w_file w @ [Row (JObj row)], w_trace := w_trace w @ [Appended row]\<rparr>"

definition tick :: "'b seam \<Rightarrow> 'b World \<Rightarrow> 'b World \<times> string" where
  "tick sm w = (let (out, t) = clock sm (w_out w) in (w\<lparr>w_out := out\<rparr>, t))"

definition mgr_audit ::
  "string \<Rightarrow> detail \<Rightarrow> string \<Rightarrow> string option \<Rightarrow> 'b World \<Rightarrow> 'b World" where
  "mgr_audit kind reason cid iid w =
     w\<lparr>w_audit := (case w_audit w of None \<Rightarrow> None
        | Some rows \<Rightarrow> Some (rows @ [\<lparr>me_kind = kind, me_reason = reason,
                                       me_client_order_id = cid, me_intent_id = iid\<rparr>]))\<rparr>"

definition pending_row :: "OrderIntent \<Rightarrow> string \<Rightarrow> payload" where
  "pending_row i at_text =
     [(''at'', JStr at_text), (''client_order_id'', JStr (oi_client_order_id i)),
      (''intent_id'', JStr (oi_intent_id i)), (''qty'', JInt (oi_qty i)),
      (''side'', JStr (oi_side i)), (''status'', JStr ''pending''),
      (''symbol'', JStr (oi_symbol i))]"

definition append_pending :: "'b seam \<Rightarrow> OrderIntent \<Rightarrow> 'b World \<Rightarrow> 'b World" where
  "append_pending sm i w = (let (w1, t) = tick sm w in append_row (pending_row i t) w1)"

definition resolution_row :: "string \<Rightarrow> string \<Rightarrow> string \<Rightarrow> payload" where
  "resolution_row cid status at_text =
     [(''at'', JStr at_text), (''client_order_id'', JStr cid), (''status'', JStr status)]"

definition resolve :: "'b seam \<Rightarrow> string \<Rightarrow> string \<Rightarrow> 'b World \<Rightarrow> 'b World" where
  "resolve sm cid status w =
     (let (w1, t) = tick sm w in
      mgr_audit ''order_resolved'' (Lit (''resolved as '' @ status)) cid None
        (append_row (resolution_row cid status t) w1))"

definition result :: "string \<Rightarrow> string \<Rightarrow> payload option \<Rightarrow> detail \<Rightarrow> SubmitResult" where
  "result status cid order det =
     \<lparr>sr_status = status, sr_client_order_id = cid, sr_order = order, sr_detail = det,
      sr_retried = False\<rparr>"

definition unavailable ::
  "string \<Rightarrow> string \<Rightarrow> detail \<Rightarrow> string option \<Rightarrow> payload option \<Rightarrow> 'b World
     \<Rightarrow> 'b World \<times> SubmitResult" where
  "unavailable status cid det iid body w =
     (mgr_audit ''order_unavailable'' det cid iid w, result status cid body det)"

section \<open>Operations\<close>

definition classify_submit ::
  "'b seam \<Rightarrow> OrderIntent \<Rightarrow> 'b World \<Rightarrow> json \<Rightarrow> string option \<Rightarrow> 'b World \<times> SubmitResult" where
  \<comment> \<open>the part of \<open>submit\<close> that reads the broker's answer\<close>
  "classify_submit sm i w body failure =
     (let cid = oi_client_order_id i; iid = Some (oi_intent_id i) in
      case failure of
        Some f \<Rightarrow> unavailable f cid (Lit (''transport '' @ f @ '' on submit'')) iid None w
      | None \<Rightarrow>
      (case body of
        JNull \<Rightarrow> unavailable ''unavailable'' cid (Lit ''transport returned no body'') iid None w
      | JObj b \<Rightarrow>
          (if is_duplicate b then
             (mgr_audit ''order_duplicate'' (Lit ''client_order_id already exists at the broker'')
                cid iid w,
              result ''duplicate'' cid (Some b) (Reason (reason_of b)))
           else if status_in b [''not_found''] then
             unavailable ''not_found'' cid (Lit ''broker reported not_found on submit'') iid (Some b) w
           else if status_in b WORKING then
             (mgr_audit ''order_submitted'' (Lit ''accepted by the broker'') cid iid w,
              result ''submitted'' cid (Some b) (Lit ''accepted''))
           else if status_in b REJECTED then
             (mgr_audit ''order_rejected'' (Reason (reason_of b)) cid iid
                (resolve sm cid ''rejected'' w),
              result ''rejected'' cid (Some b) (Reason (reason_of b)))
           else unavailable ''unavailable'' cid (BadStatus ''broker'' (broker_status b)) iid (Some b) w)
      | v \<Rightarrow> unavailable ''unavailable'' cid (NonMapping v) iid None w))"

definition submit :: "'b seam \<Rightarrow> OrderIntent \<Rightarrow> 'b World \<Rightarrow> 'b World \<times> SubmitResult" where
  "submit sm i w =
     (let w1 = append_pending sm i w;
          (w2, body, failure) = call_broker sm MSubmit (submit_payload i) w1
      in classify_submit sm i w2 body failure)"

definition query :: "'b seam \<Rightarrow> string \<Rightarrow> 'b World \<Rightarrow> 'b World \<times> payload option" where
  "query sm cid w =
     (let (w1, body, failure) = call_broker sm MQuery [(''client_order_id'', JStr cid)] w
      in (w1, if failure \<noteq> None then None
              else (case body of JObj b \<Rightarrow> Some b | _ \<Rightarrow> None)))"

fun retry_loop ::
  "'b seam \<Rightarrow> OrderIntent \<Rightarrow> nat \<Rightarrow> 'b World \<Rightarrow> SubmitResult \<Rightarrow> bool \<Rightarrow> 'b World \<times> SubmitResult" where
  "retry_loop sm i 0 w r retried = (w, r\<lparr>sr_retried := True\<rparr>)"
| "retry_loop sm i (Suc n) w r retried =
     (if sr_status r \<notin> {''unavailable'', ''timeout''} then (w, r\<lparr>sr_retried := retried\<rparr>)
      else
        (let cid = sr_client_order_id r; iid = Some (oi_intent_id i); (w1, found) = query sm cid w in
         case found of
           None \<Rightarrow>
             (mgr_audit ''order_unavailable''
                (Lit (''query after '' @ sr_status r @ '' was unavailable; not resubmitting'')) cid iid w1,
              (result ''unavailable'' cid None
                 (Lit (''query after '' @ sr_status r @ '' was unavailable'')))\<lparr>sr_retried := True\<rparr>)
         | Some b \<Rightarrow>
             if status_in b [''not_found''] then
               (let (w2, r2) = submit sm i
                      (mgr_audit ''order_retried'' (Lit ''query reported not_found; resubmitting'')
                         cid iid w1)
                in retry_loop sm i n w2 r2 True)
             else
               (mgr_audit ''order_retried''
                  (Lit ''query found the order; recovered without resubmitting'') cid iid w1,
                (result ''submitted'' cid (Some b) (Lit ''recovered by client_order_id''))
                  \<lparr>sr_retried := True\<rparr>)))"

definition submit_with_retry ::
  "'b seam \<Rightarrow> OrderIntent \<Rightarrow> int \<Rightarrow> 'b World \<Rightarrow> ('b World \<times> SubmitResult) res" where
  "submit_with_retry sm i attempts w =
     (if attempts < 1 then Inl ValueError
      else Inr (let (w1, r) = submit sm i w in retry_loop sm i (nat (attempts - 1)) w1 r False))"

definition cancel :: "'b seam \<Rightarrow> string \<Rightarrow> 'b World \<Rightarrow> 'b World \<times> SubmitResult" where
  "cancel sm cid w =
     (let (w1, body, failure) = call_broker sm MCancel [(''client_order_id'', JStr cid)] w in
      case (failure, body) of
        (None, JObj b) \<Rightarrow>
          if status_in b [''not_found''] then
            (resolve sm cid ''not_found'' w1,
             result ''not_found'' cid (Some b) (Lit ''no such order to cancel''))
          else if status_in b [''canceled''] then
            (mgr_audit ''order_canceled'' (Lit ''canceled at the broker'') cid None
               (resolve sm cid ''canceled'' w1),
             result ''canceled'' cid (Some b) (Lit ''canceled''))
          else if status_in b REJECTED then
            (mgr_audit ''order_rejected'' (Reason (reason_of b)) cid None w1,
             result ''rejected'' cid (Some b) (Reason (reason_of b)))
          else unavailable ''unavailable'' cid (BadStatus ''cancel'' (broker_status b)) None (Some b) w1
      | _ \<Rightarrow> unavailable (str_or failure ''unavailable'') cid (Lit ''cancel transport unavailable'')
                None None w1)"

definition replace_payload :: "string \<Rightarrow> int option \<Rightarrow> pyfloat option \<Rightarrow> payload" where
  "replace_payload cid qty limit =
     [(''client_order_id'', JStr cid)]
     @ (case qty of None \<Rightarrow> [] | Some q \<Rightarrow> [(''qty'', JInt q)])
     @ (case limit of None \<Rightarrow> [] | Some l \<Rightarrow> [(''limit_price'', JFloat l)])"

definition replace_order ::
  "'b seam \<Rightarrow> string \<Rightarrow> int option \<Rightarrow> pyfloat option \<Rightarrow> 'b World \<Rightarrow> ('b World \<times> SubmitResult) res"
where
  "replace_order sm cid qty limit w =
     (if qty = None \<and> limit = None then Inl ValueError
      else Inr
        (let (w1, body, failure) = call_broker sm MReplace (replace_payload cid qty limit) w in
         case (failure, body) of
           (None, JObj b) \<Rightarrow>
             if status_in b [''not_found''] then
               (w1, result ''not_found'' cid (Some b) (Lit ''no such order to replace''))
             else if status_in b REJECTED then
               (mgr_audit ''order_rejected'' (Reason (reason_of b)) cid None w1,
                result ''rejected'' cid (Some b) (Reason (reason_of b)))
             else if status_in b REPLACED then
               (mgr_audit ''order_replaced'' (Lit ''replaced at the broker'') cid None w1,
                result ''replaced'' cid (Some b) (Lit ''replaced''))
             else unavailable ''unavailable'' cid (BadStatus ''replace'' (broker_status b)) None
                    (Some b) w1
         | _ \<Rightarrow> unavailable (str_or failure ''unavailable'') cid
                   (Lit ''replace transport unavailable'') None None w1))"

section \<open>The recovery sweep\<close>

definition row_key :: "payload \<Rightarrow> string option" where
  \<comment> \<open>the row's \<open>client_order_id\<close>, when it is a non-empty string (the only ids the store writes)\<close>
  "row_key row = (case jget row ''client_order_id'' of
                    JStr s \<Rightarrow> if s = [] then None else Some s | _ \<Rightarrow> None)"

definition is_pending_row :: "payload \<Rightarrow> bool" where
  "is_pending_row row \<longleftrightarrow>
     jget row ''status'' = JStr ''pending'' \<and> map_of row ''intent_id'' \<noteq> None"

definition sweep_row :: "(string \<times> payload) list \<Rightarrow> payload \<Rightarrow> (string \<times> payload) list" where
  "sweep_row live row =
     (case row_key row of
        None \<Rightarrow> live
      | Some key \<Rightarrow>
          if is_pending_row row then AList.update key row live else AList.delete key live)"

definition rows_of :: "file_line list \<Rightarrow> payload list" where
  "rows_of file = concat (map (\<lambda>l. case l of Row (JObj row) \<Rightarrow> [row] | _ \<Rightarrow> []) file)"

definition at_text :: "payload \<Rightarrow> string" where
  "at_text row = (case map_of row ''at'' of Some (JStr s) \<Rightarrow> s | _ \<Rightarrow> [])"

definition swept :: "'b World \<Rightarrow> payload list" where
  "swept w =
     map snd (sort_key (\<lambda>(k, row). (at_text row, k)) (foldl sweep_row [] (rows_of (w_file w))))"

definition mappings_only :: "file_line list \<Rightarrow> bool" where
  "mappings_only file \<longleftrightarrow> list_all (\<lambda>l. case l of Row (JObj _) \<Rightarrow> True | Row _ \<Rightarrow> False | Undecodable \<Rightarrow> True) file"

definition pending :: "'b World \<Rightarrow> payload list res" where
  \<comment> \<open>\<open>row.get\<close> of a line that is JSON and no mapping raises\<close>
  "pending w = (if mappings_only (w_file w) then Inr (swept w) else Inl AttributeError)"

section \<open>Monitors over the trace of effects\<close>

definition row_owns :: "effect option \<Rightarrow> effect \<Rightarrow> bool" where
  \<comment> \<open>a submission comes right after the pending row of its own \<open>client_order_id\<close>\<close>
  "row_owns prev e \<longleftrightarrow>
     (case e of
        Called MSubmit p _ \<Rightarrow>
          (case prev of
             Some (Appended row) \<Rightarrow>
               is_pending_row row \<and> jget row ''client_order_id'' = jget p ''client_order_id''
           | _ \<Rightarrow> False)
      | _ \<Rightarrow> True)"

fun owned :: "effect option \<Rightarrow> effect list \<Rightarrow> bool" where
  "owned prev [] = True"
| "owned prev (e # tr) = (row_owns prev e \<and> owned (Some e) tr)"

definition says_not_found :: "effect \<Rightarrow> bool" where
  "says_not_found e =
     (case e of Called MQuery _ (Body (JObj b)) \<Rightarrow> status_in b [''not_found''] | _ \<Rightarrow> False)"

definition is_submit :: "effect \<Rightarrow> bool" where
  "is_submit e = (case e of Called MSubmit _ _ \<Rightarrow> True | _ \<Rightarrow> False)"

fun resend_ok :: "bool \<Rightarrow> effect list \<Rightarrow> bool" where
  \<comment> \<open>a submission needs the permission that a query reporting \<open>not_found\<close> renews\<close>
  "resend_ok ok [] = True"
| "resend_ok ok (e # tr) =
     (if is_submit e then ok \<and> resend_ok False tr else resend_ok (ok \<or> says_not_found e) tr)"

lemma resend_okD:
  assumes "resend_ok ok (xs @ e # ys)" "is_submit e" "\<not> ok"
  shows "\<exists>q \<in> set xs. says_not_found q"
  using assms
proof (induction xs arbitrary: ok)
  case Nil
  then show ?case by simp
next
  case (Cons a xs)
  then have "resend_ok (says_not_found a) (xs @ e # ys)" by (simp split: if_splits)
  with Cons.IH Cons.prems(2) show ?case by (cases "says_not_found a") auto
qed

lemma resend_ok_suffix: "resend_ok ok (xs @ ys) \<Longrightarrow> \<exists>ok'. resend_ok ok' ys"
  by (induction xs arbitrary: ok) (auto split: if_splits)

lemma resend_between:
  assumes "resend_ok ok (xs @ s # ys @ s' # zs)" "is_submit s" "is_submit s'"
  shows "\<exists>q \<in> set ys. says_not_found q"
proof -
  from resend_ok_suffix [OF assms(1)] obtain ok' where "resend_ok ok' (s # ys @ s' # zs)" by blast
  with assms(2) have "resend_ok False (ys @ s' # zs)" by simp
  from resend_okD [OF this assms(3)] show ?thesis by simp
qed

lemma ownedD:
  assumes "owned prev (xs @ e # ys)"
  shows "row_owns (if xs = [] then prev else Some (last xs)) e"
  using assms by (induction xs arbitrary: prev) (auto split: if_splits)

lemma row_owns_submitD:
  assumes "row_owns prev (Called MSubmit p r)"
  shows "\<exists>row. prev = Some (Appended row) \<and> is_pending_row row
    \<and> jget row ''client_order_id'' = jget p ''client_order_id''"
  using assms by (auto simp: row_owns_def split: option.splits effect.splits)

section \<open>What each operation does to the world\<close>

text \<open>The file is the appended rows of the trace, whatever happens.\<close>

definition appended :: "effect list \<Rightarrow> payload list" where
  "appended tr = concat (map (\<lambda>e. case e of Appended row \<Rightarrow> [row] | _ \<Rightarrow> []) tr)"

lemma appended_simps [simp]:
  "appended [] = []" "appended (Appended row # tr) = row # appended tr"
  "appended (Called m p r # tr) = appended tr" "appended (xs @ ys) = appended xs @ appended ys"
  by (simp_all add: appended_def)

lemma rows_of_written [simp]:
  "rows_of (xs @ ys) = rows_of xs @ rows_of ys" "rows_of (map (\<lambda>row. Row (JObj row)) rows) = rows"
  by (induction rows) (simp_all add: rows_of_def)

lemma mappings_only_written [simp]:
  "mappings_only (file @ map (\<lambda>row. Row (JObj row)) rows) = mappings_only file"
  by (induction rows) (simp_all add: mappings_only_def)

definition extends :: "'b World \<Rightarrow> effect list \<Rightarrow> 'b World \<Rightarrow> bool" where
  "extends w new w' \<longleftrightarrow> w_trace w' = w_trace w @ new
     \<and> rows_of (w_file w') = rows_of (w_file w) @ appended new
     \<and> w_file w' = w_file w @ map (\<lambda>row. Row (JObj row)) (appended new)"

lemma extends_pending:
  assumes "extends w new w'" "mappings_only (w_file w)"
  shows "pending w' = Inr (swept w')"
  using assms by (simp add: extends_def pending_def)

lemma extends_refl: "extends w [] w"
  by (simp add: extends_def)

lemma extends_trans: "extends w a w1 \<Longrightarrow> extends w1 b w2 \<Longrightarrow> extends w (a @ b) w2"
  by (simp add: extends_def)

lemma extends_audit [simp]: "extends w new (mgr_audit k d c i w') \<longleftrightarrow> extends w new w'"
  by (simp add: extends_def mgr_audit_def)

lemma extends_call:
  assumes "call_broker sm m p w = (w', b, f)"
  shows "\<exists>r. extends w [Called m p r] w'
    \<and> (f = None \<and> r = Body b \<or> f = Some ''timeout'' \<and> r = TransportTimeout \<and> b = JNull
       \<or> f = Some ''unavailable'' \<and> r = TransportRaise \<and> b = JNull)
    \<and> r = snd (transport sm (w_out w) m p)"
  using assms by (auto simp: call_broker_def extends_def split: prod.splits reply.splits)

lemma extends_append_pending: "\<exists>t. extends w [Appended (pending_row i t)] (append_pending sm i w)"
  by (auto simp: append_pending_def tick_def append_row_def extends_def rows_of_def
      split: prod.splits)

lemma extends_resolve: "\<exists>t. extends w [Appended (resolution_row cid s t)] (resolve sm cid s w)"
  by (auto simp: resolve_def tick_def append_row_def extends_def rows_of_def mgr_audit_def
      split: prod.splits)

lemma extends_query:
  assumes "query sm cid w = (w', found)"
  shows "\<exists>r. extends w [Called MQuery [(''client_order_id'', JStr cid)] r] w'
    \<and> (\<forall>b. found = Some b \<longleftrightarrow> r = Body (JObj b))"
  using assms
  by (auto simp: query_def dest!: extends_call split: prod.splits if_splits json.splits)

lemma sr_result [simp]:
  "sr_status (result s c o' d) = s" "sr_client_order_id (result s c o' d) = c"
  "sr_order (result s c o' d) = o'"
  by (simp_all add: result_def)

lemma classify_shape:
  assumes "classify_submit sm i w body f = (w', r)" "f \<in> {None, Some ''timeout'', Some ''unavailable''}"
  shows "(\<exists>tail. extends w tail w'
      \<and> (if sr_status r = ''rejected''
         then \<exists>t. tail = [Appended (resolution_row (oi_client_order_id i) ''rejected'' t)]
         else tail = []))
    \<and> sr_client_order_id r = oi_client_order_id i
    \<and> (sr_status r = ''submitted'' \<longrightarrow> f = None \<and> (\<exists>b. body = JObj b \<and> status_in b WORKING))
    \<and> (f \<noteq> None \<longrightarrow> sr_status r = the f)"
proof (cases f)
  case (Some g)
  with assms show ?thesis
    by (auto simp: classify_submit_def Let_def unavailable_def intro!: exI [of _ "[]"] extends_refl)
next
  case None
  show ?thesis
  proof (cases "\<exists>b. body = JObj b \<and> \<not> is_duplicate b \<and> \<not> status_in b [''not_found'']
      \<and> \<not> status_in b WORKING \<and> status_in b REJECTED")
    case True
    then obtain b where "body = JObj b" "\<not> is_duplicate b" "\<not> status_in b [''not_found'']"
      "\<not> status_in b WORKING" "status_in b REJECTED" by blast
    with assms None have r: "w' = mgr_audit ''order_rejected'' (Reason (reason_of b))
          (oi_client_order_id i) (Some (oi_intent_id i)) (resolve sm (oi_client_order_id i) ''rejected'' w)"
        "r = result ''rejected'' (oi_client_order_id i) (Some b) (Reason (reason_of b))"
      by (simp_all add: classify_submit_def Let_def)
    with None extends_resolve [of w "oi_client_order_id i" "''rejected''" sm] show ?thesis by auto
  next
    case False
    with assms None have "extends w [] w' \<and> sr_status r \<noteq> ''rejected''
        \<and> sr_client_order_id r = oi_client_order_id i
        \<and> (sr_status r = ''submitted'' \<longrightarrow> (\<exists>b. body = JObj b \<and> status_in b WORKING))"
      by (cases body)
        (auto simp: classify_submit_def Let_def unavailable_def extends_refl split: if_splits)
    with None show ?thesis by auto
  qed
qed

lemma submit_shape:
  assumes "submit sm i w = (w', r)"
  shows "\<exists>t a tail. extends w ([Appended (pending_row i t), Called MSubmit (submit_payload i) a] @ tail) w'
    \<and> (if sr_status r = ''rejected''
       then \<exists>t'. tail = [Appended (resolution_row (oi_client_order_id i) ''rejected'' t')]
       else tail = [])
    \<and> sr_client_order_id r = oi_client_order_id i
    \<and> (sr_status r = ''submitted'' \<longrightarrow> (\<exists>b. a = Body (JObj b) \<and> status_in b WORKING))
    \<and> (a = TransportTimeout \<longrightarrow> sr_status r = ''timeout'')
    \<and> (a = TransportRaise \<longrightarrow> sr_status r = ''unavailable'')
    \<and> a = snd (transport sm (w_out (append_pending sm i w)) MSubmit (submit_payload i))"
proof -
  define w1 where "w1 = append_pending sm i w"
  obtain w2 body f where call: "call_broker sm MSubmit (submit_payload i) w1 = (w2, body, f)"
    by (cases "call_broker sm MSubmit (submit_payload i) w1") auto
  with assms have cl: "classify_submit sm i w2 body f = (w', r)" by (simp add: submit_def w1_def Let_def)
  obtain t where t: "extends w [Appended (pending_row i t)] w1"
    using extends_append_pending [of w i sm] by (auto simp: w1_def)
  obtain a where a: "extends w1 [Called MSubmit (submit_payload i) a] w2"
    and fa: "f = None \<and> a = Body body \<or> f = Some ''timeout'' \<and> a = TransportTimeout \<and> body = JNull
       \<or> f = Some ''unavailable'' \<and> a = TransportRaise \<and> body = JNull"
    and tr: "a = snd (transport sm (w_out w1) MSubmit (submit_payload i))"
    using extends_call [OF call] by blast
  from fa have "f \<in> {None, Some ''timeout'', Some ''unavailable''}" by auto
  from classify_shape [OF cl this] obtain tail where tail: "extends w2 tail w'"
    "if sr_status r = ''rejected''
     then \<exists>t. tail = [Appended (resolution_row (oi_client_order_id i) ''rejected'' t)] else tail = []"
    and rest: "sr_client_order_id r = oi_client_order_id i"
      "sr_status r = ''submitted'' \<longrightarrow> f = None \<and> (\<exists>b. body = JObj b \<and> status_in b WORKING)"
      "f \<noteq> None \<longrightarrow> sr_status r = the f" by blast
  from extends_trans [OF extends_trans [OF t a] tail(1)] tail(2) rest fa tr show ?thesis
    unfolding w1_def by (intro exI [of _ t] exI [of _ a] exI [of _ tail]) auto
qed

section \<open>The pending store\<close>

definition row_state :: "string \<Rightarrow> payload option \<Rightarrow> payload list \<Rightarrow> payload option" where
  \<comment> \<open>the live row of one id after a list of rows\<close>
  "row_state k acc rows =
     foldl (\<lambda>acc row. if row_key row = Some k then (if is_pending_row row then Some row else None)
                      else acc) acc rows"

lemma row_state_append [simp]: "row_state k acc (xs @ ys) = row_state k (row_state k acc xs) ys"
  by (simp add: row_state_def)

lemma row_state_simps [simp]:
  "row_state k acc [] = acc"
  "row_state k acc (row # rows) =
     row_state k (if row_key row = Some k then (if is_pending_row row then Some row else None)
                  else acc) rows"
  by (simp_all add: row_state_def)

lemma sweep_row_lookup:
  "map_of (sweep_row live row) k =
     (if row_key row = Some k then (if is_pending_row row then Some row else None)
      else map_of live k)"
  by (auto simp: sweep_row_def update_conv' delete_conv' split: option.splits)

lemma sweep_row_distinct:
  "distinct (map fst live) \<Longrightarrow> distinct (map fst (sweep_row live row))"
  by (auto simp: sweep_row_def distinct_update distinct_delete split: option.splits)

lemma sweep_lookup: "map_of (foldl sweep_row live rows) k = row_state k (map_of live k) rows"
  by (induction rows arbitrary: live) (simp_all add: sweep_row_lookup)

lemma sweep_distinct: "distinct (map fst live) \<Longrightarrow> distinct (map fst (foldl sweep_row live rows))"
  by (induction rows arbitrary: live) (simp_all add: sweep_row_distinct)

lemma pending_set:
  "set (swept w) = {row. \<exists>k. row_state k None (rows_of (w_file w)) = Some row}"
proof -
  define live where "live = foldl sweep_row [] (rows_of (w_file w))"
  have d: "distinct (map fst live)" unfolding live_def by (rule sweep_distinct) simp
  have look: "map_of live k = row_state k None (rows_of (w_file w))" for k
    unfolding live_def by (simp add: sweep_lookup)
  have "row \<in> set (swept w) \<longleftrightarrow> (\<exists>k. (k, row) \<in> set live)" for row
    by (force simp: swept_def live_def image_iff)
  moreover have "(k, row) \<in> set live \<longleftrightarrow> row_state k None (rows_of (w_file w)) = Some row" for k row
    unfolding look [symmetric] by (rule map_of_eq_Some_iff [OF d, symmetric])
  ultimately show ?thesis by blast
qed

lemma row_state_keyed:
  "row_state k acc rows = Some row \<Longrightarrow> acc = Some row \<or> row_key row = Some k \<and> is_pending_row row"
  by (induction rows arbitrary: acc) (auto split: if_splits)

lemma pending_id_iff:
  "cid \<noteq> [] \<Longrightarrow> (\<exists>row \<in> set (swept w). jget row ''client_order_id'' = JStr cid)
     \<longleftrightarrow> row_state cid None (rows_of (w_file w)) \<noteq> None"
proof -
  assume "cid \<noteq> []"
  then have key: "row_key row = Some k \<Longrightarrow> jget row ''client_order_id'' = JStr cid \<longleftrightarrow> k = cid" for row k
    by (auto simp: row_key_def split: json.splits if_splits)
  have found: "row_state k None rows = Some row \<Longrightarrow> jget row ''client_order_id'' = JStr cid \<longleftrightarrow> k = cid"
    for k rows row
    using row_state_keyed [of k None rows row] key by simp
  show ?thesis
  proof
    assume "\<exists>row \<in> set (swept w). jget row ''client_order_id'' = JStr cid"
    then obtain k row where "row_state k None (rows_of (w_file w)) = Some row"
        "jget row ''client_order_id'' = JStr cid" by (auto simp: pending_set)
    with found show "row_state cid None (rows_of (w_file w)) \<noteq> None" by fastforce
  next
    assume "row_state cid None (rows_of (w_file w)) \<noteq> None"
    then obtain row where "row_state cid None (rows_of (w_file w)) = Some row" by blast
    with found show "\<exists>row \<in> set (swept w). jget row ''client_order_id'' = JStr cid"
      by (auto simp: pending_set)
  qed
qed

lemma pending_row_facts [simp]:
  "is_pending_row (pending_row i t)"
  "jget (pending_row i t) ''client_order_id'' = JStr (oi_client_order_id i)"
  "jget (submit_payload i) ''client_order_id'' = JStr (oi_client_order_id i)"
  "\<not> is_pending_row (resolution_row c s t)"
  by (simp_all add: is_pending_row_def pending_row_def jget_def submit_payload_def resolution_row_def)

lemma pending_row_key [simp]:
  "c \<noteq> [] \<Longrightarrow> row_key (resolution_row c s t) = Some c"
  "oi_client_order_id i \<noteq> [] \<Longrightarrow> row_key (pending_row i t) = Some (oi_client_order_id i)"
  by (simp_all add: row_key_def resolution_row_def jget_def pending_row_def)

section \<open>Submission with recovery\<close>

definition accepts :: "effect \<Rightarrow> bool" where
  \<comment> \<open>a broker answer that shows the order at the broker\<close>
  "accepts e =
     (case e of
        Called MSubmit _ (Body (JObj b)) \<Rightarrow> status_in b WORKING
      | Called MQuery _ (Body (JObj b)) \<Rightarrow> \<not> status_in b [''not_found'']
      | _ \<Rightarrow> False)"

definition sound_run :: "OrderIntent \<Rightarrow> bool \<Rightarrow> effect list \<Rightarrow> bool \<Rightarrow> SubmitResult \<Rightarrow> bool" where
  \<comment> \<open>what a stretch of the trace satisfies that ends in the result \<open>r\<close>, where \<open>rejected\<close> says
     that the stretch before it ended in a rejection\<close>
  "sound_run i rejected new sub r \<longleftrightarrow>
     (\<forall>prev. owned prev new) \<and> resend_ok sub new
     \<and> sr_client_order_id r = oi_client_order_id i
     \<and> (oi_client_order_id i \<noteq> [] \<longrightarrow> (\<forall>acc. (acc = None \<longleftrightarrow> rejected) \<longrightarrow>
          (row_state (oi_client_order_id i) acc (appended new) = None \<longleftrightarrow> sr_status r = ''rejected'')))"

lemma submit_sound:
  assumes "submit sm i w = (w', r)"
  shows "\<exists>new. extends w new w' \<and> sound_run i b new True r \<and> length (filter is_submit new) = 1
    \<and> (sr_status r = ''submitted'' \<longrightarrow> (\<exists>e \<in> set new. accepts e))"
proof -
  from submit_shape [OF assms] obtain t a tail where
    ext: "extends w ([Appended (pending_row i t), Called MSubmit (submit_payload i) a] @ tail) w'"
    and tail: "if sr_status r = ''rejected''
       then \<exists>t'. tail = [Appended (resolution_row (oi_client_order_id i) ''rejected'' t')] else tail = []"
    and id: "sr_client_order_id r = oi_client_order_id i"
    and ok: "sr_status r = ''submitted'' \<longrightarrow> (\<exists>b. a = Body (JObj b) \<and> status_in b WORKING)"
    by blast
  have "sound_run i b ([Appended (pending_row i t), Called MSubmit (submit_payload i) a] @ tail) True r"
  proof (cases "sr_status r = ''rejected''")
    case True
    with tail obtain t' where
      "tail = [Appended (resolution_row (oi_client_order_id i) ''rejected'' t')]" by auto
    with True id show ?thesis
      by (simp add: sound_run_def row_owns_def is_submit_def says_not_found_def)
  next
    case False
    with tail id show ?thesis
      by (simp add: sound_run_def row_owns_def is_submit_def says_not_found_def)
  qed
  moreover have "length (filter is_submit
      ([Appended (pending_row i t), Called MSubmit (submit_payload i) a] @ tail)) = 1"
    using tail by (auto simp: is_submit_def split: if_splits)
  ultimately show ?thesis using ext ok by (intro exI conjI) (auto simp: accepts_def)
qed

lemma sound_run_append:
  assumes "sound_run i b mid True r1" "sound_run i (sr_status r1 = ''rejected'') new False r"
  shows "sound_run i b (mid @ new) True r"
proof -
  have own: "owned prev (xs @ ys) \<longleftrightarrow> owned prev xs \<and> owned (if xs = [] then prev else Some (last xs)) ys"
    for prev xs ys by (induction xs arbitrary: prev) auto
  have re: "resend_ok ok xs \<Longrightarrow> resend_ok False ys \<Longrightarrow> resend_ok ok (xs @ ys)" for ok xs ys
  proof (induction xs arbitrary: ok)
    case Nil
    have "resend_ok k ys \<Longrightarrow> resend_ok True ys" for k
      by (induction ys arbitrary: k) (auto split: if_splits)
    with Nil show ?case by (cases ok) auto
  qed (auto split: if_splits)
  show ?thesis
    using assms unfolding sound_run_def own appended_simps row_state_append
    by (intro conjI re) blast+
qed

lemma sound_run_query:
  assumes "sound_run i b new True r" "says_not_found (Called MQuery q a)"
  shows "sound_run i b (Called MQuery q a # new) False r"
  using assms by (simp add: sound_run_def row_owns_def is_submit_def)

lemma retry_sound:
  assumes "retry_loop sm i n w r b = (w', r')" "sr_client_order_id r = oi_client_order_id i"
  shows "\<exists>new. extends w new w' \<and> sound_run i (sr_status r = ''rejected'') new False r'
    \<and> length (filter is_submit new) \<le> n
    \<and> (sr_status r' = ''submitted'' \<longrightarrow> sr_status r = ''submitted'' \<or> (\<exists>e \<in> set new. accepts e))"
  using assms
proof (induction n arbitrary: w r b)
  case 0
  then show ?case by (intro exI [of _ "[]"]) (auto simp: extends_refl sound_run_def)
next
  case (Suc n)
  show ?case
  proof (cases "sr_status r \<in> {''unavailable'', ''timeout''}")
    case False
    with Suc.prems show ?thesis by (intro exI [of _ "[]"]) (auto simp: extends_refl sound_run_def)
  next
    case True
    obtain w1 found where q: "query sm (sr_client_order_id r) w = (w1, found)"
      by (cases "query sm (sr_client_order_id r) w")
    from extends_query [OF q] obtain a where
      ext: "extends w [Called MQuery [(''client_order_id'', JStr (sr_client_order_id r))] a] w1"
      and fa: "\<And>b. found = Some b \<longleftrightarrow> a = Body (JObj b)" by blast
    let ?q = "[(''client_order_id'', JStr (sr_client_order_id r))]"
    have alone: "sound_run i False [Called MQuery ?q a] False r''"
      if "sr_client_order_id r'' = oi_client_order_id i" "sr_status r'' \<noteq> ''rejected''" for r''
      using that by (simp add: sound_run_def row_owns_def is_submit_def)
    have notrej: "sr_status r \<noteq> ''rejected''" using True by auto
    have c: "(sr_status r \<notin> {''unavailable'', ''timeout''}) = False" using True by blast
    note run = Suc.prems(1) [unfolded retry_loop.simps c if_False Let_def q prod.case]
    show ?thesis
    proof (cases "\<exists>b. found = Some b \<and> status_in b [''not_found'']")
      case False
      have "extends w [Called MQuery ?q a] w' \<and> sr_client_order_id r' = oi_client_order_id i
        \<and> sr_status r' \<noteq> ''rejected''
        \<and> (sr_status r' = ''submitted'' \<longrightarrow> accepts (Called MQuery ?q a))"
      proof (cases found)
        case None
        with Suc.prems(2) run show ?thesis using ext by auto
      next
        case (Some bd)
        with fa have a: "a = Body (JObj bd)" by blast
        from False Some have nf: "\<not> status_in bd [''not_found'']" by blast
        with Suc.prems(2) run Some show ?thesis using ext by (auto simp: accepts_def a)
      qed
      with alone notrej show ?thesis
        by (intro exI [of _ "[Called MQuery ?q a]"]) (auto simp: is_submit_def)
    next
      case nf: True
      then obtain bd where bd: "found = Some bd" "status_in bd [''not_found'']" by blast
      define w2 where "w2 = mgr_audit ''order_retried'' (Lit ''query reported not_found; resubmitting'')
        (sr_client_order_id r) (Some (oi_intent_id i)) w1"
      obtain w3 r3 where s: "submit sm i w2 = (w3, r3)" by (cases "submit sm i w2")
      from run bd s have rl: "retry_loop sm i n w3 r3 True = (w', r')" by (simp add: w2_def)
      from submit_sound [OF s, of False] obtain mid where
        mid: "extends w2 mid w3" "sound_run i False mid True r3" "length (filter is_submit mid) = 1"
          "sr_status r3 = ''submitted'' \<longrightarrow> (\<exists>e \<in> set mid. accepts e)" by blast
      from mid(2) have id3: "sr_client_order_id r3 = oi_client_order_id i" by (simp add: sound_run_def)
      from Suc.IH [OF rl id3] obtain new where
        new: "extends w3 new w'" "sound_run i (sr_status r3 = ''rejected'') new False r'"
          "length (filter is_submit new) \<le> n"
          "sr_status r' = ''submitted'' \<longrightarrow> sr_status r3 = ''submitted'' \<or> (\<exists>e \<in> set new. accepts e)"
        by blast
      have "extends w [Called MQuery ?q a] w2" using ext by (simp add: w2_def)
      from extends_trans [OF extends_trans [OF this mid(1)] new(1)]
      have "extends w (Called MQuery ?q a # mid @ new) w'" by simp
      moreover from fa [of bd] bd(1) have "a = Body (JObj bd)" by blast
      with bd(2) have "says_not_found (Called MQuery ?q a)" by (simp add: says_not_found_def)
      note sound_run_query [OF sound_run_append [OF mid(2) new(2)] this]
      moreover have "length (filter is_submit (Called MQuery ?q a # mid @ new)) \<le> Suc n"
        using mid(3) new(3) by (simp add: is_submit_def)
      ultimately show ?thesis using mid(4) new(4) notrej
        by (intro exI [of _ "Called MQuery ?q a # mid @ new"]) auto
    qed
  qed
qed

lemma submit_with_retry_sound:
  assumes "submit_with_retry sm i attempts w = Inr (w', r)"
  shows "\<exists>new. extends w new w' \<and> sound_run i b new True r
    \<and> 1 \<le> length (filter is_submit new) \<and> int (length (filter is_submit new)) \<le> attempts
    \<and> (sr_status r = ''submitted'' \<longrightarrow> (\<exists>e \<in> set new. accepts e))"
proof -
  obtain w1 r1 where s: "submit sm i w = (w1, r1)" by (cases "submit sm i w")
  with assms have rl: "retry_loop sm i (nat (attempts - 1)) w1 r1 False = (w', r)" "1 \<le> attempts"
    by (auto simp: submit_with_retry_def split: if_splits)
  from submit_sound [OF s, of b] obtain mid where
    mid: "extends w mid w1" "sound_run i b mid True r1" "length (filter is_submit mid) = 1"
      "sr_status r1 = ''submitted'' \<longrightarrow> (\<exists>e \<in> set mid. accepts e)" by blast
  from mid(2) have "sr_client_order_id r1 = oi_client_order_id i" by (simp add: sound_run_def)
  from retry_sound [OF rl(1) this] obtain new where
    new: "extends w1 new w'" "sound_run i (sr_status r1 = ''rejected'') new False r"
      "length (filter is_submit new) \<le> nat (attempts - 1)"
      "sr_status r = ''submitted'' \<longrightarrow> sr_status r1 = ''submitted'' \<or> (\<exists>e \<in> set new. accepts e)"
    by blast
  have "sound_run i b (mid @ new) True r" using mid(2) new(2) by (rule sound_run_append)
  with extends_trans [OF mid(1) new(1)] mid(3,4) new(3,4) rl(2) show ?thesis
    by (intro exI [of _ "mid @ new"]) auto
qed

definition answers_nothing :: "'b seam \<Rightarrow> bool" where
  \<comment> \<open>the broker never returns a mapping\<close>
  "answers_nothing sm \<longleftrightarrow> (\<forall>out meth p b. snd (transport sm out meth p) \<noteq> Body (JObj b))"

lemma answers_nothing_query: "answers_nothing sm \<Longrightarrow> snd (query sm cid w) = None"
  by (auto simp: query_def call_broker_def answers_nothing_def split: prod.splits reply.splits json.splits)
    (metis snd_conv)+

lemma answers_nothing_submit:
  assumes "answers_nothing sm" "submit sm i w = (w', r)"
  shows "sr_status r \<in> {''unavailable'', ''timeout''}"
proof -
  obtain w2 body f where call: "call_broker sm MSubmit (submit_payload i) (append_pending sm i w) = (w2, body, f)"
    by (cases "call_broker sm MSubmit (submit_payload i) (append_pending sm i w)") auto
  with assms(2) have cl: "classify_submit sm i w2 body f = (w', r)" by (simp add: submit_def Let_def)
  from extends_call [OF call] assms(1) have
    "f = None \<and> (\<forall>b. body \<noteq> JObj b) \<or> f = Some ''timeout'' \<or> f = Some ''unavailable''"
    by (auto simp: answers_nothing_def)
  with cl show ?thesis
    by (cases body) (auto simp: classify_submit_def Let_def unavailable_def)
qed

lemma answers_nothing_retry:
  assumes "answers_nothing sm" "sr_status r \<in> {''unavailable'', ''timeout''}"
  shows "sr_status (snd (retry_loop sm i n w r b)) \<in> {''unavailable'', ''timeout''}
    \<and> (\<exists>tail. extends w tail (fst (retry_loop sm i n w r b)) \<and> filter is_submit tail = [])"
proof (cases n)
  case 0
  with assms(2) show ?thesis using extends_refl [of w] by (intro conjI exI [of _ "[]"]) auto
next
  case (Suc k)
  obtain w1 where q: "query sm (sr_client_order_id r) w = (w1, None)"
    using answers_nothing_query [OF assms(1), of "sr_client_order_id r" w]
    by (cases "query sm (sr_client_order_id r) w") auto
  have c: "(sr_status r \<notin> {''unavailable'', ''timeout''}) = False" using assms(2) by blast
  from extends_query [OF q] obtain a where
    "extends w [Called MQuery [(''client_order_id'', JStr (sr_client_order_id r))] a] w1" by blast
  then show ?thesis unfolding Suc retry_loop.simps c if_False Let_def q prod.case
    by (auto simp: is_submit_def intro!: exI)
qed

lemma submit_with_retry_pending:
  assumes "submit_with_retry sm i attempts w = Inr (w', r)" "oi_client_order_id i \<noteq> []"
  shows "(\<exists>row \<in> set (swept w'). jget row ''client_order_id'' = JStr (oi_client_order_id i))
     \<longleftrightarrow> sr_status r \<noteq> ''rejected''"
proof -
  let ?acc = "row_state (oi_client_order_id i) None (rows_of (w_file w))"
  from submit_with_retry_sound [OF assms(1), of "?acc = None"] obtain new where
    new: "extends w new w'" "sound_run i (?acc = None) new True r" by blast
  from new(1) have "row_state (oi_client_order_id i) None (rows_of (w_file w'))
      = row_state (oi_client_order_id i) ?acc (appended new)" by (simp add: extends_def)
  with new(2) assms(2) have "row_state (oi_client_order_id i) None (rows_of (w_file w')) = None
      \<longleftrightarrow> sr_status r = ''rejected''" by (simp add: sound_run_def)
  with pending_id_iff [OF assms(2), of w'] show ?thesis by simp
qed

lemma dead_broker_run:
  assumes "answers_nothing sm" "submit_with_retry sm i attempts w = Inr (w', r)"
  shows "sr_status r \<in> {''unavailable'', ''timeout''}
    \<and> length (filter is_submit (drop (length (w_trace w)) (w_trace w'))) = 1"
proof -
  obtain w1 r1 where s: "submit sm i w = (w1, r1)" by (cases "submit sm i w")
  with assms(2) have rl: "retry_loop sm i (nat (attempts - 1)) w1 r1 False = (w', r)"
    by (auto simp: submit_with_retry_def split: if_splits)
  note dead = answers_nothing_retry [OF assms(1) answers_nothing_submit [OF assms(1) s],
      of i "nat (attempts - 1)" w1 False]
  from submit_sound [OF s, of False] obtain new where
    "extends w new w1" "length (filter is_submit new) = 1" by blast
  moreover from dead rl obtain tail where "extends w1 tail w'" "filter is_submit tail = []" by auto
  ultimately have "length (filter is_submit (drop (length (w_trace w)) (w_trace w'))) = 1"
    by (simp add: extends_def)
  with dead rl show ?thesis by simp
qed

end
