(* ===== verification/Sizing.thy ===== *)
theory Sizing
  imports RiskState
begin

text \<open>
  \<open>signald/risk/sizing.py\<close>: the only producer of a quantity. Every cap may be any float; a value
  that is not finite reads as zero, which can only shrink the result.
\<close>

section \<open>Definitions\<close>

record SizingCaps =
  sc_sleeve_risk_remaining_pct :: pyfloat
  sc_house_heat_remaining_pct :: pyfloat
  sc_sleeve_notional_room_usd :: pyfloat
  sc_participation_cap_pct :: pyfloat
  sc_kelly_fraction :: pyfloat
  sc_validated_edge :: "pyfloat option"
  sc_kelly_win_loss_ratio :: "pyfloat option"
  sc_kelly_shrink :: pyfloat
  sc_max_leverage_pct :: "pyfloat option"

record RiskDecision =
  rd_ok :: bool
  rd_qty :: int
  rd_risk_pct :: pyfloat
  rd_binding :: "string option"
  rd_reason :: string
  rd_qty_risk :: pyfloat
  rd_qty_liquidity :: pyfloat
  rd_qty_notional :: pyfloat

definition positive :: "pyfloat \<Rightarrow> bool" where
  "positive v \<longleftrightarrow> isfinite v \<and> 0 < v"

definition finite_or_zero :: "pyfloat option \<Rightarrow> pyfloat" where
  "finite_or_zero v = (case v of Some x \<Rightarrow> if isfinite x then x else 0 | None \<Rightarrow> 0)"

definition reject ::
  "string \<Rightarrow> string option \<Rightarrow> pyfloat \<Rightarrow> pyfloat \<Rightarrow> pyfloat \<Rightarrow> RiskDecision" where
  "reject reason binding qty_risk qty_liquidity qty_notional =
     \<lparr>rd_ok = False, rd_qty = 0, rd_risk_pct = 0, rd_binding = binding, rd_reason = reason,
      rd_qty_risk = qty_risk, rd_qty_liquidity = qty_liquidity, rd_qty_notional = qty_notional\<rparr>"

definition kelly_cap :: "pyfloat \<Rightarrow> pyfloat \<Rightarrow> pyfloat option \<Rightarrow> pyfloat \<Rightarrow> pyfloat" where
  "kelly_cap edge fraction win_loss_ratio shrink =
     (if \<not> (isfinite edge \<and> isfinite fraction \<and> isfinite shrink) then 0
      else if fraction \<le> 0 \<or> shrink \<le> 0 then 0
      else (let ratio = (case win_loss_ratio of None \<Rightarrow> 1 | Some r \<Rightarrow> r) in
        if \<not> isfinite ratio \<or> ratio \<le> 0 then 0
        else (let win_prob = fdiv (1 + edge) (1 + ratio);
                  full_kelly = fdiv (ratio * win_prob - (1 - win_prob)) ratio
              in pymax 0 (fraction * full_kelly * shrink))))"

fun min_first :: "'a \<times> pyfloat \<Rightarrow> ('a \<times> pyfloat) list \<Rightarrow> 'a \<times> pyfloat" where
  \<comment> \<open>\<open>min(xs, key=value)\<close>: the first entry with the least value\<close>
  "min_first best [] = best"
| "min_first best (x # xs) = min_first (if snd x < snd best then x else best) xs"

definition risk_budget :: "RiskRequest \<Rightarrow> SizingCaps \<Rightarrow> string \<times> pyfloat" where
  \<comment> \<open>step 3: the tightest of the three risk budgets\<close>
  "risk_budget req caps =
     min_first (''risk'', finite_or_zero (Some (r_requested_risk_pct req)))
       [(''sleeve'', finite_or_zero (Some (sc_sleeve_risk_remaining_pct caps))),
        (''heat'', finite_or_zero (Some (sc_house_heat_remaining_pct caps)))]"

definition capped_risk ::
  "RiskRequest \<Rightarrow> SizingCaps \<Rightarrow> pyfloat \<Rightarrow> pyfloat \<Rightarrow> string \<times> pyfloat" where
  \<comment> \<open>steps 3 to 5: budget, volatility scalar, Kelly cap\<close>
  "capped_risk req caps edge vol_scalar =
     (let (binding, risk) = risk_budget req caps;
          risk = pymax 0 (risk * vol_scalar);
          binding = (if vol_scalar < 1 then ''vol'' else binding);
          kelly = kelly_cap edge (sc_kelly_fraction caps)
            (Some (case sc_kelly_win_loss_ratio caps of Some r \<Rightarrow> r | None \<Rightarrow> 1)) (sc_kelly_shrink caps)
      in if kelly < risk then (''kelly'', kelly) else (binding, risk))"

definition leverage_cap ::
  "RiskRequest \<Rightarrow> SizingCaps \<Rightarrow> pyfloat \<Rightarrow> string \<times> pyfloat \<Rightarrow> string \<times> pyfloat" where
  "leverage_cap req caps equity candidate =
     (case sc_max_leverage_pct caps of
        None \<Rightarrow> candidate
      | Some _ \<Rightarrow>
          (let leverage_qty = fdiv (equity * finite_or_zero (sc_max_leverage_pct caps))
                                (notional_per_share req)
           in if leverage_qty < snd candidate then (''leverage'', leverage_qty) else candidate))"

definition size_qty ::
  "RiskRequest \<Rightarrow> SizingCaps \<Rightarrow> string \<Rightarrow> pyfloat \<Rightarrow> RiskDecision" where
  \<comment> \<open>steps 6 to 10: the candidates and the floor\<close>
  "size_qty req caps binding risk =
     (let equity = finite_or_zero (Some (r_equity req));
          qty_risk = fdiv (equity * risk) (r_stop_distance req);
          qty_liquidity = finite_or_zero (Some (sc_participation_cap_pct caps))
                            * finite_or_zero (r_trailing_volume req)
      in if \<not> positive (r_price req) then reject ''no_price'' None qty_risk qty_liquidity 0
         else
           (let qty_notional = fdiv (finite_or_zero (Some (sc_sleeve_notional_room_usd caps)))
                                 (notional_per_share req);
                (binding, qty_raw) = leverage_cap req caps equity
                  (min_first (binding, qty_risk)
                     [(''liquidity'', qty_liquidity), (''notional'', qty_notional)])
            in case qty_raw of
                 Fin q \<Rightarrow>
                   if \<lfloor>q\<rfloor> < 1
                   then reject ''size_below_one_share'' (Some binding) qty_risk qty_liquidity qty_notional
                   else \<lparr>rd_ok = True, rd_qty = \<lfloor>q\<rfloor>, rd_risk_pct = risk, rd_binding = Some binding,
                         rd_reason = ''ok'', rd_qty_risk = qty_risk, rd_qty_liquidity = qty_liquidity,
                         rd_qty_notional = qty_notional\<rparr>
               | _ \<Rightarrow> reject ''size_below_one_share'' None 0 0 0))"

definition size_request :: "RiskRequest \<Rightarrow> SizingCaps \<Rightarrow> pyfloat \<Rightarrow> RiskDecision" where
  "size_request req caps vol_scalar =
     (if \<not> positive (r_stop_distance req) then reject ''no_stop_distance'' None 0 0 0
      else (case sc_validated_edge caps of
        None \<Rightarrow> reject ''unvalidated_setup'' None 0 0 0
      | Some edge \<Rightarrow>
          if \<not> positive vol_scalar then reject ''size_below_one_share'' None 0 0 0
          else (let (binding, risk) = capped_risk req caps edge vol_scalar
                in size_qty req caps binding risk)))"

section \<open>Bounds\<close>

lemma finite_or_zero_fin: "\<exists>r. finite_or_zero v = Fin r"
  by (auto simp: finite_or_zero_def zero_pyfloat_def isfinite_iff split: option.splits)

lemma kelly_cap_cases:
  obtains (NoBet) "kelly_cap e f w s = Fin 0"
  | (Bet) e' f' s' r where "e = Fin e'" "f = Fin f'" "s = Fin s'"
      "(case w of None \<Rightarrow> 1 | Some x \<Rightarrow> x) = Fin r" "0 < f'" "0 < s'" "0 < r"
      "kelly_cap e f w s = Fin (max 0 (f' * ((r * ((1 + e') / (1 + r)) - (1 - (1 + e') / (1 + r))) / r) * s'))"
proof (cases "isfinite e \<and> isfinite f \<and> isfinite s \<and> 0 < f \<and> 0 < s")
  case False
  then have "kelly_cap e f w s = Fin 0"
    by (cases f; cases s) (auto simp: kelly_cap_def fp_simps)
  then show thesis by (rule NoBet)
next
  case True
  then obtain e' f' s' where fin: "e = Fin e'" "f = Fin f'" "s = Fin s'" "0 < f'" "0 < s'" by auto
  define ratio where "ratio = (case w of None \<Rightarrow> 1 | Some x \<Rightarrow> x)"
  show thesis
  proof (cases "isfinite ratio \<and> 0 < ratio")
    case False
    then have "kelly_cap e f w s = Fin 0"
      by (cases ratio) (auto simp: kelly_cap_def fin ratio_def [symmetric] fp_simps)
    then show thesis by (rule NoBet)
  next
    case True
    then obtain r where r: "ratio = Fin r" "0 < r" by auto
    then have "kelly_cap e f w s
        = Fin (max 0 (f' * ((r * ((1 + e') / (1 + r)) - (1 - (1 + e') / (1 + r))) / r) * s'))"
      using fin by (simp add: kelly_cap_def ratio_def [symmetric] fp_simps)
    with fin r show thesis by (intro Bet) (auto simp: ratio_def)
  qed
qed

lemma kelly_cap_fin: "\<exists>k. kelly_cap e f w s = Fin k \<and> 0 \<le> k"
  by (cases rule: kelly_cap_cases [of e f w s]) auto

text \<open>Full Kelly in the edge per unit risked is \<open>edge / ratio\<close>, so no bet without an edge.\<close>

lemma kelly_closed_form:
  assumes "0 < f" "0 < s" "0 < r"
  shows "kelly_cap (Fin e) (Fin f) (Some (Fin r)) (Fin s) = Fin (max 0 (f * (e / r) * s))"
proof -
  define w where "w = (1 + e) / (1 + r)"
  have "w * (1 + r) = 1 + e" using assms(3) by (simp add: w_def)
  then have "r * w - (1 - w) = e" by (simp add: algebra_simps)
  moreover have "kelly_cap (Fin e) (Fin f) (Some (Fin r)) (Fin s)
      = Fin (max 0 (f * ((r * w - (1 - w)) / r) * s))"
    using assms by (simp add: kelly_cap_def fp_simps w_def)
  ultimately show ?thesis by simp
qed

lemma min_first_le:
  assumes "\<forall>x \<in> set (b # xs). \<exists>r. snd x = Fin r"
  shows "min_first b xs \<in> set (b # xs) \<and> (\<forall>x \<in> set (b # xs). snd (min_first b xs) \<le> snd x)"
  using assms
proof (induction xs arbitrary: b)
  case Nil
  then show ?case by auto
next
  case (Cons x xs)
  define c where "c = (if snd x < snd b then x else b)"
  from Cons.prems have "\<forall>y \<in> set (c # xs). \<exists>r. snd y = Fin r" by (auto simp: c_def)
  note IH = Cons.IH [OF this]
  obtain rb rx rc where r: "snd b = Fin rb" "snd x = Fin rx" using Cons.prems by auto
  obtain m where m: "snd (min_first c xs) = Fin m"
    using IH \<open>\<forall>y \<in> set (c # xs). \<exists>r. snd y = Fin r\<close> by blast
  have "min_first b (x # xs) = min_first c xs" by (simp add: c_def)
  moreover have "snd (min_first c xs) \<le> snd c" using IH by simp
  then have "snd (min_first c xs) \<le> snd b \<and> snd (min_first c xs) \<le> snd x"
    using r m by (auto simp: c_def split: if_splits)
  ultimately show ?case using IH by (auto simp: c_def split: if_splits)
qed

lemma risk_budget_le:
  obtains b where "snd (risk_budget req caps) = Fin b"
    "Fin b \<le> finite_or_zero (Some (r_requested_risk_pct req))"
    "Fin b \<le> finite_or_zero (Some (sc_sleeve_risk_remaining_pct caps))"
    "Fin b \<le> finite_or_zero (Some (sc_house_heat_remaining_pct caps))"
proof -
  let ?xs = "[(''sleeve'', finite_or_zero (Some (sc_sleeve_risk_remaining_pct caps))),
        (''heat'', finite_or_zero (Some (sc_house_heat_remaining_pct caps)))]"
  let ?x = "(''risk'', finite_or_zero (Some (r_requested_risk_pct req)))"
  have fin: "\<forall>y \<in> set (?x # ?xs). \<exists>r. snd y = Fin r" using finite_or_zero_fin by auto
  note le = min_first_le [OF fin]
  from le fin obtain b where "snd (min_first ?x ?xs) = Fin b" by blast
  with le show thesis by (intro that [of b]) (simp_all add: risk_budget_def)
qed

lemma capped_risk_le:
  assumes "vol_scalar = Fin v" "0 < v"
  obtains r b k where "snd (capped_risk req caps edge vol_scalar) = Fin r" "0 \<le> r"
    "snd (risk_budget req caps) = Fin b" "r \<le> max 0 (b * v)"
    "kelly_cap edge (sc_kelly_fraction caps)
       (Some (case sc_kelly_win_loss_ratio caps of Some r \<Rightarrow> r | None \<Rightarrow> 1)) (sc_kelly_shrink caps) = Fin k"
    "r \<le> k"
proof -
  obtain b where b: "snd (risk_budget req caps) = Fin b" using risk_budget_le by blast
  obtain k where k: "kelly_cap edge (sc_kelly_fraction caps)
       (Some (case sc_kelly_win_loss_ratio caps of Some r \<Rightarrow> r | None \<Rightarrow> 1)) (sc_kelly_shrink caps) = Fin k"
    "0 \<le> k" using kelly_cap_fin by blast
  have "snd (capped_risk req caps edge vol_scalar) = Fin (min k (max 0 (b * v)))"
    using b k assms by (auto simp: capped_risk_def Let_def fp_simps split: prod.splits)
  with b k show thesis by (intro that [of "min k (max 0 (b * v))" b k]) auto
qed

lemma size_qty_ok:
  assumes "rd_ok (size_qty req caps binding risk)" "risk = Fin r" "r_stop_distance req = Fin d" "0 < d"
  shows "let out = size_qty req caps binding risk; q = of_int (rd_qty out) in
    1 \<le> rd_qty out \<and> rd_risk_pct out = risk
    \<and> Fin q \<le> fdiv (finite_or_zero (Some (r_equity req)) * risk) (r_stop_distance req)
    \<and> Fin q \<le> finite_or_zero (Some (sc_participation_cap_pct caps)) * finite_or_zero (r_trailing_volume req)
    \<and> Fin q * notional_per_share req \<le> finite_or_zero (Some (sc_sleeve_notional_room_usd caps))
    \<and> (sc_max_leverage_pct caps \<noteq> None \<longrightarrow>
         Fin q * notional_per_share req
           \<le> finite_or_zero (Some (r_equity req)) * finite_or_zero (sc_max_leverage_pct caps))"
proof -
  obtain e pc tv room lev where fin: "finite_or_zero (Some (r_equity req)) = Fin e"
    "finite_or_zero (Some (sc_participation_cap_pct caps)) = Fin pc"
    "finite_or_zero (r_trailing_volume req) = Fin tv"
    "finite_or_zero (Some (sc_sleeve_notional_room_usd caps)) = Fin room"
    "finite_or_zero (sc_max_leverage_pct caps) = Fin lev"
    using finite_or_zero_fin by meson
  from assms(1) have pos: "positive (r_price req)"
    by (auto simp: size_qty_def Let_def reject_def split: if_splits)
  then obtain px where px: "r_price req = Fin px" "0 < px" by (auto simp: positive_def)
  then have nps: "notional_per_share req = Fin px" by (simp add: notional_per_share_def)
  define c0 where "c0 = min_first (binding, Fin (e * r / d)) [(''liquidity'', Fin (pc * tv)), (''notional'', Fin (room / px))]"
  have c0: "\<exists>m. snd c0 = Fin m \<and> m \<le> e * r / d \<and> m \<le> pc * tv \<and> m \<le> room / px"
    by (auto simp: c0_def)
  then obtain m where m: "snd c0 = Fin m" "m \<le> e * r / d" "m \<le> pc * tv" "m \<le> room / px" by blast
  define c1 where "c1 = leverage_cap req caps (Fin e) c0"
  have "\<exists>n. snd c1 = Fin n \<and> n \<le> m \<and> (sc_max_leverage_pct caps \<noteq> None \<longrightarrow> n \<le> e * lev / px)"
    using m(1) px fin(5) by (auto simp: c1_def leverage_cap_def nps Let_def split: option.splits)
  then obtain n where n: "snd c1 = Fin n" "n \<le> m"
      "sc_max_leverage_pct caps \<noteq> None \<longrightarrow> n \<le> e * lev / px" by blast
  have out: "size_qty req caps binding risk =
      (if \<lfloor>n\<rfloor> < 1
       then reject ''size_below_one_share'' (Some (fst c1)) (Fin (e * r / d)) (Fin (pc * tv)) (Fin (room / px))
       else \<lparr>rd_ok = True, rd_qty = \<lfloor>n\<rfloor>, rd_risk_pct = risk, rd_binding = Some (fst c1),
             rd_reason = ''ok'', rd_qty_risk = Fin (e * r / d), rd_qty_liquidity = Fin (pc * tv),
             rd_qty_notional = Fin (room / px)\<rparr>)"
    using pos px assms n(1) by (cases c1)
      (simp add: size_qty_def fin nps c0_def [symmetric] c1_def [symmetric] del: min_first.simps)
  with assms(1) have ge: "1 \<le> \<lfloor>n\<rfloor>" by (auto simp: reject_def split: if_splits)
  define q where "q = real_of_int \<lfloor>n\<rfloor>"
  have q: "q \<le> n" by (simp add: q_def)
  with n(2) m have "q \<le> e * r / d" "q \<le> pc * tv" "q \<le> room / px" by simp_all
  moreover from this(3) px have "q * px \<le> room" by (simp add: le_divide_eq)
  moreover from q n(3) have "sc_max_leverage_pct caps \<noteq> None \<longrightarrow> q \<le> e * lev / px" by auto
  then have "sc_max_leverage_pct caps \<noteq> None \<longrightarrow> q * px \<le> e * lev"
    using px by (simp add: le_divide_eq)
  moreover have "rd_qty (size_qty req caps binding risk) = \<lfloor>n\<rfloor>"
      "rd_risk_pct (size_qty req caps binding risk) = risk"
    using ge by (simp_all add: out)
  ultimately show ?thesis using ge assms(2-4)
    by (simp add: Let_def fin nps q_def)
qed

lemma rejected [simp]:
  "\<not> rd_ok (reject a b x y z)" "rd_qty (reject a b x y z) = 0" "rd_risk_pct (reject a b x y z) = 0"
  by (simp_all add: reject_def)

lemma size_qty_rejects:
  "rd_ok (size_qty req caps b r) \<or> rd_qty (size_qty req caps b r) = 0
     \<and> rd_risk_pct (size_qty req caps b r) = 0"
proof (cases "positive (r_price req)")
  case True
  show ?thesis
    by (simp add: size_qty_def True Let_def del: min_first.simps
        split: prod.split pyfloat.split)
qed (simp add: size_qty_def Let_def)

lemma size_request_rejects:
  "rd_ok (size_request req caps v) \<or> rd_qty (size_request req caps v) = 0
     \<and> rd_risk_pct (size_request req caps v) = 0"
  using size_qty_rejects by (simp add: size_request_def split: option.split prod.split)

lemma size_request_okD:
  assumes "rd_ok (size_request req caps v)"
  obtains edge d s b r where "r_stop_distance req = Fin d" "0 < d" "sc_validated_edge caps = Some edge"
    "v = Fin s" "0 < s" "capped_risk req caps edge v = (b, r)"
    "size_request req caps v = size_qty req caps b r"
proof -
  from assms have p: "positive (r_stop_distance req)" by (auto simp: size_request_def split: if_splits)
  with assms obtain edge where e: "sc_validated_edge caps = Some edge"
    by (cases "sc_validated_edge caps") (auto simp: size_request_def)
  with assms p have v: "positive v" by (auto simp: size_request_def split: if_splits)
  obtain b r where "capped_risk req caps edge v = (b, r)" by (cases "capped_risk req caps edge v")
  moreover obtain d s where "r_stop_distance req = Fin d" "0 < d" "v = Fin s" "0 < s"
    using p v by (auto simp: positive_def)
  ultimately show thesis using p e v by (intro that [of d edge s b r]) (simp_all add: size_request_def)
qed

section \<open>The whole request\<close>

definition risk_within :: "pyfloat \<Rightarrow> pyfloat \<Rightarrow> pyfloat \<Rightarrow> bool" where
  \<comment> \<open>a risk within a budget, once the budget is scaled by the volatility scalar\<close>
  "risk_within risk budget scalar \<longleftrightarrow> risk \<le> pymax 0 (finite_or_zero (Some budget) * scalar)"

lemma size_request_risk:
  assumes "rd_ok (size_request req caps v)"
  obtains edge d s b r where "r_stop_distance req = Fin d" "0 < d" "sc_validated_edge caps = Some edge"
    "v = Fin s" "0 < s" "size_request req caps v = size_qty req caps b (Fin r)" "0 \<le> r"
    "risk_within (Fin r) (r_requested_risk_pct req) v"
    "risk_within (Fin r) (sc_sleeve_risk_remaining_pct caps) v"
    "risk_within (Fin r) (sc_house_heat_remaining_pct caps) v"
    "Fin r \<le> kelly_cap edge (sc_kelly_fraction caps)
       (Some (case sc_kelly_win_loss_ratio caps of Some r \<Rightarrow> r | None \<Rightarrow> 1)) (sc_kelly_shrink caps)"
proof -
  obtain edge d s b r where o': "r_stop_distance req = Fin d" "0 < d" "sc_validated_edge caps = Some edge"
    "v = Fin s" "0 < s" "capped_risk req caps edge v = (b, r)"
    "size_request req caps v = size_qty req caps b r"
    by (rule size_request_okD [OF assms])
  obtain risk bud k where risk: "snd (capped_risk req caps edge v) = Fin risk" "0 \<le> risk"
    "snd (risk_budget req caps) = Fin bud" "risk \<le> max 0 (bud * s)"
    "kelly_cap edge (sc_kelly_fraction caps)
       (Some (case sc_kelly_win_loss_ratio caps of Some r \<Rightarrow> r | None \<Rightarrow> 1)) (sc_kelly_shrink caps) = Fin k"
    "risk \<le> k"
    by (rule capped_risk_le [OF o'(4,5), of req caps edge])
  have within: "risk_within (Fin risk) x v" if "Fin bud \<le> finite_or_zero (Some x)" for x
  proof -
    obtain y where y: "finite_or_zero (Some x) = Fin y" using finite_or_zero_fin by blast
    with that have "bud * s \<le> y * s" using o'(5) by (intro mult_right_mono) auto
    with risk(4) y o'(4) show ?thesis by (simp add: risk_within_def fp_simps)
  qed
  obtain b' where "snd (risk_budget req caps) = Fin b'"
    "Fin b' \<le> finite_or_zero (Some (r_requested_risk_pct req))"
    "Fin b' \<le> finite_or_zero (Some (sc_sleeve_risk_remaining_pct caps))"
    "Fin b' \<le> finite_or_zero (Some (sc_house_heat_remaining_pct caps))"
    by (rule risk_budget_le)
  with risk(3) have le: "Fin bud \<le> finite_or_zero (Some (r_requested_risk_pct req))"
    "Fin bud \<le> finite_or_zero (Some (sc_sleeve_risk_remaining_pct caps))"
    "Fin bud \<le> finite_or_zero (Some (sc_house_heat_remaining_pct caps))" by simp_all
  have r: "r = Fin risk" using o'(6) risk(1) by simp
  show thesis
    using that [OF o'(1-5) o'(7) [unfolded r] risk(2) within [OF le(1)] within [OF le(2)] within [OF le(3)]]
      risk(5,6) by simp
qed

lemma size_request_bounds:
  assumes "rd_ok out" "out = size_request req caps v"
  shows "1 \<le> rd_qty out" "0 \<le> rd_risk_pct out"
    "\<forall>b \<in> {r_requested_risk_pct req, sc_sleeve_risk_remaining_pct caps, sc_house_heat_remaining_pct caps}.
       risk_within (rd_risk_pct out) b v"
    "\<exists>edge. sc_validated_edge caps = Some edge
       \<and> rd_risk_pct out \<le> kelly_cap edge (sc_kelly_fraction caps)
           (Some (case sc_kelly_win_loss_ratio caps of Some r \<Rightarrow> r | None \<Rightarrow> 1)) (sc_kelly_shrink caps)"
    "Fin (of_int (rd_qty out)) * r_stop_distance req
       \<le> finite_or_zero (Some (r_equity req)) * rd_risk_pct out"
    "Fin (of_int (rd_qty out))
       \<le> finite_or_zero (Some (sc_participation_cap_pct caps)) * finite_or_zero (r_trailing_volume req)"
    "Fin (of_int (rd_qty out)) * notional_per_share req
       \<le> finite_or_zero (Some (sc_sleeve_notional_room_usd caps))"
    "sc_max_leverage_pct caps \<noteq> None \<Longrightarrow> Fin (of_int (rd_qty out)) * notional_per_share req
       \<le> finite_or_zero (Some (r_equity req)) * finite_or_zero (sc_max_leverage_pct caps)"
proof -
  from assms have "rd_ok (size_request req caps v)" by simp
  then obtain edge d s b r where
    o': "r_stop_distance req = Fin d" "0 < d" "sc_validated_edge caps = Some edge"
    "size_request req caps v = size_qty req caps b (Fin r)" "0 \<le> r"
    and within: "risk_within (Fin r) (r_requested_risk_pct req) v"
    "risk_within (Fin r) (sc_sleeve_risk_remaining_pct caps) v"
    "risk_within (Fin r) (sc_house_heat_remaining_pct caps) v"
    and kelly: "Fin r \<le> kelly_cap edge (sc_kelly_fraction caps)
       (Some (case sc_kelly_win_loss_ratio caps of Some r \<Rightarrow> r | None \<Rightarrow> 1)) (sc_kelly_shrink caps)"
    by (elim size_request_risk)
  note out = assms(2) [unfolded o'(4)]
  note q = size_qty_ok [OF assms(1) [unfolded out] refl o'(1,2), folded out, unfolded Let_def]
  then have rr: "rd_risk_pct out = Fin r" by (elim conjE)
  show "1 \<le> rd_qty out" using q by (elim conjE)
  show "0 \<le> rd_risk_pct out" using o'(5) by (simp add: rr)
  show "\<forall>b \<in> {r_requested_risk_pct req, sc_sleeve_risk_remaining_pct caps, sc_house_heat_remaining_pct caps}.
       risk_within (rd_risk_pct out) b v" using within by (simp add: rr)
  show "\<exists>edge. sc_validated_edge caps = Some edge
       \<and> rd_risk_pct out \<le> kelly_cap edge (sc_kelly_fraction caps)
           (Some (case sc_kelly_win_loss_ratio caps of Some r \<Rightarrow> r | None \<Rightarrow> 1)) (sc_kelly_shrink caps)"
    using o'(3) kelly by (auto simp: rr)
  obtain e where e: "finite_or_zero (Some (r_equity req)) = Fin e" using finite_or_zero_fin by blast
  have "Fin (of_int (rd_qty out)) \<le> fdiv (finite_or_zero (Some (r_equity req)) * Fin r) (r_stop_distance req)"
    using q by (elim conjE)
  with o'(1,2) show "Fin (of_int (rd_qty out)) * r_stop_distance req
       \<le> finite_or_zero (Some (r_equity req)) * rd_risk_pct out"
    by (simp add: e rr le_divide_eq)
  show "Fin (of_int (rd_qty out))
       \<le> finite_or_zero (Some (sc_participation_cap_pct caps)) * finite_or_zero (r_trailing_volume req)"
    "Fin (of_int (rd_qty out)) * notional_per_share req
       \<le> finite_or_zero (Some (sc_sleeve_notional_room_usd caps))"
    using q by simp_all
  show "sc_max_leverage_pct caps \<noteq> None \<Longrightarrow> Fin (of_int (rd_qty out)) * notional_per_share req
       \<le> finite_or_zero (Some (r_equity req)) * finite_or_zero (sc_max_leverage_pct caps)"
    using q by simp
qed

end
