(* ===== verification/Ladder.thy ===== *)
theory Ladder
  imports Prelude
begin

text \<open>
  \<open>signald/risk/ladder.py\<close>: the de-risking ladder, a function of the equity path. The text that
  \<open>describe\<close> joins with semicolons is the list of its parts.
\<close>

section \<open>Definitions\<close>

record LadderState =
  l_rung :: int
  l_size_multiplier :: pyfloat
  l_allow_new_intraday :: bool
  l_flatten_intraday :: bool
  l_freeze_allocation :: bool
  l_halt :: bool
  l_reason :: string

definition RUNG_STATES :: "(int \<times> LadderState) list" where
  "RUNG_STATES =
     [(0, \<lparr>l_rung = 0, l_size_multiplier = Fin 1, l_allow_new_intraday = True,
           l_flatten_intraday = False, l_freeze_allocation = False, l_halt = False,
           l_reason = ''none''\<rparr>),
      (1, \<lparr>l_rung = 1, l_size_multiplier = Fin 1, l_allow_new_intraday = False,
           l_flatten_intraday = False, l_freeze_allocation = False, l_halt = False,
           l_reason = ''rung1_soft_day''\<rparr>),
      (2, \<lparr>l_rung = 2, l_size_multiplier = Fin (1 / 2), l_allow_new_intraday = False,
           l_flatten_intraday = True, l_freeze_allocation = False, l_halt = False,
           l_reason = ''rung2_hard_day''\<rparr>),
      (3, \<lparr>l_rung = 3, l_size_multiplier = Fin (1 / 2), l_allow_new_intraday = False,
           l_flatten_intraday = False, l_freeze_allocation = True, l_halt = False,
           l_reason = ''rung3_derisk''\<rparr>),
      (4, \<lparr>l_rung = 4, l_size_multiplier = Fin 0, l_allow_new_intraday = False,
           l_flatten_intraday = True, l_freeze_allocation = True, l_halt = True,
           l_reason = ''rung4_halt''\<rparr>)]"

definition rung_state :: "int \<Rightarrow> LadderState res" where
  \<comment> \<open>\<open>_RUNG_STATES[k]\<close>\<close>
  "rung_state k = (case map_of RUNG_STATES k of Some s \<Rightarrow> Inr s | None \<Rightarrow> Inl KeyError)"

record ladder_path =
  day_pnl_pct :: pyfloat
  five_day_pct :: pyfloat
  drawdown_pct :: pyfloat

record ladder_thresholds =
  soft_pct :: pyfloat
  hard_pct :: pyfloat
  derisk_5d_pct :: pyfloat
  derisk_dd_pct :: pyfloat
  halt_dd_pct :: pyfloat

definition require_finite :: "pyfloat \<Rightarrow> unit res" where
  "require_finite v = (if \<not> isfinite v then Inl ValueError else Inr ())"

definition require_positive :: "pyfloat \<Rightarrow> unit res" where
  "require_positive v = (if \<not> (isfinite v \<and> 0 < v) then Inl ValueError else Inr ())"

fun require_all :: "unit res list \<Rightarrow> unit res" where
  "require_all [] = Inr ()"
| "require_all (r # rs) = rbind r (\<lambda>_. require_all rs)"

definition rung_for :: "ladder_path \<Rightarrow> ladder_thresholds \<Rightarrow> LadderState res" where
  "rung_for p t =
     rbind (require_all
       [require_finite (day_pnl_pct p), require_finite (five_day_pct p), require_finite (drawdown_pct p),
        require_positive (soft_pct t), require_positive (hard_pct t), require_positive (derisk_5d_pct t),
        require_positive (derisk_dd_pct t), require_positive (halt_dd_pct t)])
       (\<lambda>_. if drawdown_pct p \<le> - halt_dd_pct t then rung_state 4
            else if five_day_pct p \<le> - derisk_5d_pct t \<or> drawdown_pct p \<le> - derisk_dd_pct t
              then rung_state 3
            else if day_pnl_pct p \<le> - hard_pct t then rung_state 2
            else if day_pnl_pct p \<le> - soft_pct t then rung_state 1
            else rung_state 0)"

datatype ladder_part =
    RungPart int string | SizePart pyfloat | HaltPart | FlattenPart | NoIntradayPart | FrozenPart

definition describe :: "LadderState \<Rightarrow> ladder_part list" where
  "describe s =
     [RungPart (l_rung s) (l_reason s), SizePart (l_size_multiplier s)]
     @ (if l_halt s then [HaltPart] else [])
     @ (if l_flatten_intraday s then [FlattenPart] else [])
     @ (if \<not> l_allow_new_intraday s then [NoIntradayPart] else [])
     @ (if l_freeze_allocation s then [FrozenPart] else [])"

section \<open>The worst applicable rung\<close>

definition triggered :: "ladder_path \<Rightarrow> ladder_thresholds \<Rightarrow> int \<Rightarrow> bool" where
  \<comment> \<open>the table of the module text, one row per rung\<close>
  "triggered p t k =
     (if k = 4 then drawdown_pct p \<le> - halt_dd_pct t
      else if k = 3 then five_day_pct p \<le> - derisk_5d_pct t \<or> drawdown_pct p \<le> - derisk_dd_pct t
      else if k = 2 then day_pnl_pct p \<le> - hard_pct t
      else if k = 1 then day_pnl_pct p \<le> - soft_pct t
      else k = 0)"

lemma require_all_iff: "require_all rs = Inr u \<longleftrightarrow> (\<forall>r \<in> set rs. r = Inr ())"
  by (induction rs) (auto simp: rbind_Inr_iff)

definition path_ok :: "ladder_path \<Rightarrow> ladder_thresholds \<Rightarrow> bool" where
  "path_ok p t \<longleftrightarrow> isfinite (day_pnl_pct p) \<and> isfinite (five_day_pct p) \<and> isfinite (drawdown_pct p)
     \<and> (\<forall>x \<in> {soft_pct t, hard_pct t, derisk_5d_pct t, derisk_dd_pct t, halt_dd_pct t}.
          isfinite x \<and> 0 < x)"

lemma rung_for_eq:
  "rung_for p t =
     (if \<not> path_ok p t then Inl ValueError
      else rung_state (if triggered p t 4 then 4 else if triggered p t 3 then 3
                       else if triggered p t 2 then 2 else if triggered p t 1 then 1 else 0))"
  by (auto simp: rung_for_def path_ok_def require_finite_def require_positive_def triggered_def)

lemma rung_state_total: "k \<in> {0, 1, 2, 3, 4} \<Longrightarrow> \<exists>s. rung_state k = Inr s \<and> l_rung s = k"
  by (auto simp: rung_state_def RUNG_STATES_def)

lemma rung_state_InrD:
  assumes "rung_state k = Inr s"
  shows "l_rung s = k" "(l_halt s \<longleftrightarrow> k = 4) \<and> (l_allow_new_intraday s \<longleftrightarrow> k = 0)
    \<and> (l_size_multiplier s = Fin (if k < 2 then 1 else if k < 4 then 1 / 2 else 0))
    \<and> (l_freeze_allocation s \<longleftrightarrow> 3 \<le> k) \<and> (l_flatten_intraday s \<longleftrightarrow> k = 2 \<or> k = 4) \<and> 0 \<le> k \<and> k \<le> 4"
  using assms by (auto simp: rung_state_def RUNG_STATES_def split: if_splits)

lemma rung_for_worst:
  assumes "rung_for p t = Inr s"
  shows "triggered p t (l_rung s) \<and> (\<forall>k. triggered p t k \<longrightarrow> k \<le> l_rung s)
    \<and> rung_state (l_rung s) = Inr s"
proof -
  define k where "k = (if triggered p t 4 then 4 else if triggered p t 3 then 3
                       else if triggered p t 2 then 2 else if triggered p t 1 then 1 else (0 :: int))"
  from assms have s: "rung_state k = Inr s" by (simp add: rung_for_eq k_def split: if_splits)
  have range: "triggered p t j \<Longrightarrow> j \<in> {0, 1, 2, 3, 4}" for j
    by (auto simp: triggered_def split: if_splits)
  have "triggered p t k" by (auto simp: k_def triggered_def [of p t 0])
  moreover have "j \<le> k" if "triggered p t j" for j
    using range [OF that] that by (auto simp: k_def)
  ultimately show ?thesis using s rung_state_InrD(1) [OF s] by simp
qed

lemma neg_le_trans: "x \<le> y \<Longrightarrow> y \<le> - t \<Longrightarrow> x \<le> - (t :: pyfloat)"
  by (cases x; cases y; cases t) auto

lemma triggered_mono:
  assumes "day_pnl_pct q \<le> day_pnl_pct p" "five_day_pct q \<le> five_day_pct p"
    "drawdown_pct q \<le> drawdown_pct p" "triggered p t k"
  shows "triggered q t k"
  using assms by (auto simp: triggered_def split: if_splits intro: neg_le_trans)

lemma rung_for_mono:
  assumes "rung_for p t = Inr s" "rung_for q t = Inr s'"
    "day_pnl_pct q \<le> day_pnl_pct p" "five_day_pct q \<le> five_day_pct p"
    "drawdown_pct q \<le> drawdown_pct p"
  shows "l_rung s \<le> l_rung s'"
  using rung_for_worst [OF assms(1)] rung_for_worst [OF assms(2)] triggered_mono [OF assms(3-5)] by blast

section \<open>What the table loses\<close>

text \<open>
  The hard daily loss alone flattens the intraday sleeve; the same loss on top of a five percent
  week does not, because rung 3 wins and rung 3 does not flatten.
\<close>

lemma deeper_loss_stops_flattening:
  "(let t = \<lparr>soft_pct = Fin (1 / 100), hard_pct = Fin (3 / 100), derisk_5d_pct = Fin (6 / 100),
             derisk_dd_pct = Fin (10 / 100), halt_dd_pct = Fin (15 / 100)\<rparr>;
        shallow = \<lparr>day_pnl_pct = Fin (- 4 / 100), five_day_pct = Fin (- 4 / 100),
                   drawdown_pct = Fin (- 4 / 100)\<rparr>;
        deep = shallow\<lparr>five_day_pct := Fin (- 7 / 100)\<rparr>
    in map_option l_flatten_intraday (case rung_for shallow t of Inr s \<Rightarrow> Some s | _ \<Rightarrow> None) = Some True
     \<and> map_option l_flatten_intraday (case rung_for deep t of Inr s \<Rightarrow> Some s | _ \<Rightarrow> None) = Some False)"
  by code_simp

end
