(* ===== verification/VolTarget.thy ===== *)
theory VolTarget
  imports Prelude
begin

text \<open>
  \<open>signald/risk/voltarget.py\<close>: the EWMA volatility and the vol-target scalar. The square root and
  the logarithm are the real ones; a negative radicand raises \<open>ValueError\<close> as \<open>math.sqrt\<close> does.
\<close>

section \<open>Definitions\<close>

definition py_sqrt :: "pyfloat \<Rightarrow> pyfloat res" where
  "py_sqrt x =
     (case x of
        Fin v \<Rightarrow> if v < 0 then Inl ValueError else Inr (Fin (sqrt v))
      | PInf \<Rightarrow> Inr PInf | NInf \<Rightarrow> Inl ValueError | NaN \<Rightarrow> Inr NaN)"

fun ewma_loop :: "pyfloat \<Rightarrow> pyfloat \<Rightarrow> pyfloat \<Rightarrow> pyfloat list \<Rightarrow> pyfloat res" where
  "ewma_loop decay weight variance [] = Inr variance"
| "ewma_loop decay weight variance (r # rs) =
     (if \<not> isfinite r then Inl ValueError
      else ewma_loop decay (weight * decay) (variance + weight * r * r) rs)"

definition ewma_vol :: "pyfloat list \<Rightarrow> pyfloat \<Rightarrow> int \<Rightarrow> pyfloat res" where
  "ewma_vol returns halflife_days periods_per_year =
     (if \<not> 0 < halflife_days then Inl ValueError
      else if \<not> 0 < periods_per_year then Inl ValueError
      else if returns = [] then Inr 0
      else (let decay = fdiv (Fin (ln 2)) halflife_days in
        rbind (ewma_loop decay 1 0 returns) (\<lambda>variance.
          py_sqrt (variance * (1 - decay) * Fin (of_int periods_per_year)))))"

datatype vol_reason = VWarmup | VWithinBand | VApplied | VZeroVol

record VolScalar =
  vs_scalar :: pyfloat
  vs_target :: pyfloat
  vs_realized :: pyfloat
  vs_warmup_ok :: bool
  vs_applied :: bool
  vs_reason :: vol_reason

record vol_params =
  vp_target :: pyfloat
  vp_halflife_days :: pyfloat
  vp_warmup_days :: int
  vp_cap :: pyfloat
  vp_floor :: pyfloat
  vp_band :: pyfloat
  vp_current :: pyfloat

definition default_vol_params :: "pyfloat \<Rightarrow> vol_params" where
  "default_vol_params target =
     \<lparr>vp_target = target, vp_halflife_days = Fin 20, vp_warmup_days = 270, vp_cap = Fin (15 / 10),
      vp_floor = Fin (10 / 100), vp_band = Fin (12 / 100), vp_current = Fin 1\<rparr>"

definition vol_params_ok :: "vol_params \<Rightarrow> bool" where
  \<comment> \<open>none of the parameter tests raises\<close>
  "vol_params_ok p \<longleftrightarrow> 0 < vp_target p \<and> 0 < vp_cap p \<and> 0 < vp_floor p \<and> \<not> vp_cap p < vp_floor p
     \<and> 0 \<le> vp_band p \<and> 0 < vp_current p \<and> 0 \<le> vp_warmup_days p"

definition vol_scalar :: "pyfloat list \<Rightarrow> vol_params \<Rightarrow> VolScalar res" where
  "vol_scalar returns p =
     (if \<not> vol_params_ok p then Inl ValueError
      else rmap (\<lambda>realized.
        (let decide = (\<lambda>scalar warmup applied reason.
               \<lparr>vs_scalar = scalar, vs_target = vp_target p, vs_realized = realized,
                vs_warmup_ok = warmup, vs_applied = applied, vs_reason = reason\<rparr>)
         in if int (length returns) < vp_warmup_days p then decide 1 False False VWarmup
            else if feq realized 0 then decide (vp_cap p) True False VZeroVol
            else (let raw = pymin (vp_cap p) (pymax (vp_floor p) (fdiv (vp_target p) realized)) in
                  if vp_band p < fdiv \<bar>raw - vp_current p\<bar> (vp_current p)
                  then decide raw True True VApplied
                  else decide (vp_current p) True False VWithinBand)))
        (ewma_vol returns (vp_halflife_days p) 252))"

section \<open>The estimator in closed form\<close>

fun ewma_sum :: "real \<Rightarrow> real list \<Rightarrow> real" where
  \<comment> \<open>\<open>sum(lambda**i * r_i**2)\<close>, by Horner\<close>
  "ewma_sum l [] = 0"
| "ewma_sum l (r # rs) = r\<^sup>2 + l * ewma_sum l rs"

lemma ewma_sum_eq: "ewma_sum l rs = (\<Sum>i < length rs. l ^ i * (rs ! i)\<^sup>2)"
  by (induction rs) (simp_all add: sum.lessThan_Suc_shift sum_distrib_left algebra_simps del: sum.lessThan_Suc)

lemma ewma_loop_Fin:
  "ewma_loop (Fin l) (Fin w) (Fin v) (map Fin rs) = Inr (Fin (v + w * ewma_sum l rs))"
  by (induction rs arbitrary: w v) (simp_all add: algebra_simps power2_eq_square)

lemma ewma_sum_nonneg: "0 \<le> l \<Longrightarrow> 0 \<le> ewma_sum l rs"
  by (induction rs) simp_all

lemma ewma_sum_le:
  assumes "0 \<le> l" "\<forall>r \<in> set rs. \<bar>r\<bar> \<le> b"
  shows "(1 - l) * ewma_sum l rs \<le> (1 - l ^ length rs) * b\<^sup>2 \<or> 1 \<le> l"
  using assms(2)
proof (induction rs)
  case Nil
  show ?case by simp
next
  case (Cons r rs)
  show ?case
  proof (cases "1 \<le> l")
    case False
    then have IH: "(1 - l) * ewma_sum l rs \<le> (1 - l ^ length rs) * b\<^sup>2" using Cons by simp
    have "\<bar>r\<bar>\<^sup>2 \<le> b\<^sup>2" using Cons.prems by (intro power_mono) auto
    then have "r\<^sup>2 \<le> b\<^sup>2" by simp
    then have "(1 - l) * r\<^sup>2 \<le> (1 - l) * b\<^sup>2" using False by (intro mult_left_mono) auto
    moreover have "l * ((1 - l) * ewma_sum l rs) \<le> l * ((1 - l ^ length rs) * b\<^sup>2)"
      using IH assms(1) by (rule mult_left_mono)
    ultimately show ?thesis by (simp add: algebra_simps)
  qed simp
qed

lemma ln_2_bounds: "0 < ln (2 :: real)" "ln (2 :: real) < 1"
proof -
  show "0 < ln (2 :: real)" by simp
  have "ln (2 :: real) \<le> 2 - 1" by (rule ln_le_minus_one) simp
  moreover have "ln (2 :: real) \<noteq> 1"
    using ln_eq_minus_one [of "2 :: real"] by auto
  ultimately show "ln (2 :: real) < 1" by simp
qed

lemma ewma_vol_Fin:
  assumes "0 < h" "0 < n" "rs \<noteq> []"
  shows "ewma_vol (map Fin rs) (Fin h) n =
    py_sqrt (Fin ((1 - ln 2 / h) * ewma_sum (ln 2 / h) rs * of_int n))"
  using assms
  by (simp add: ewma_vol_def fp_simps ewma_loop_Fin [of _ 1 0, simplified] mult.commute mult.left_commute)

lemma ewma_vol_bounds:
  assumes "1 \<le> h" "0 < n" "rs \<noteq> []" "\<forall>r \<in> set rs. \<bar>r\<bar> \<le> b"
  shows "\<exists>v. ewma_vol (map Fin rs) (Fin h) n = Inr (Fin v) \<and> 0 \<le> v \<and> v \<le> b * sqrt (of_int n)"
proof -
  define l where "l = ln 2 / h"
  have l: "0 \<le> l" "l < 1" using assms(1) ln_2_bounds by (auto simp: l_def divide_less_eq)
  define x where "x = (1 - l) * ewma_sum l rs"
  have x0: "0 \<le> x" using l ewma_sum_nonneg [of l rs] by (simp add: x_def)
  obtain r where "r \<in> set rs" using assms(3) by (cases rs) auto
  then have b: "0 \<le> b" using assms(4) by fastforce
  have "x \<le> (1 - l ^ length rs) * b\<^sup>2" using ewma_sum_le [OF l(1) assms(4)] l by (simp add: x_def)
  also have "\<dots> \<le> 1 * b\<^sup>2" using l by (intro mult_right_mono) auto
  finally have "x * of_int n \<le> b\<^sup>2 * of_int n" using assms(2) by (intro mult_right_mono) auto
  then have "sqrt (x * of_int n) \<le> sqrt (b\<^sup>2 * of_int n)" by simp
  also have "\<dots> = b * sqrt (of_int n)" using b by (simp add: real_sqrt_mult)
  finally have "sqrt (x * of_int n) \<le> b * sqrt (of_int n)" .
  moreover have "ewma_vol (map Fin rs) (Fin h) n = Inr (Fin (sqrt (x * of_int n)))"
    using assms(1-3) x0 by (simp add: ewma_vol_Fin l_def [symmetric] x_def [symmetric] py_sqrt_def mult_less_0_iff)
  ultimately show ?thesis using x0 assms(2) by simp
qed

section \<open>The scalar\<close>

lemma vol_scalar_InrD:
  assumes "vol_scalar returns p = Inr s" "vp_cap p = Fin c" "vp_floor p = Fin f" "vp_current p = Fin k"
    "vp_target p = Fin t"
  shows "0 < f \<and> f \<le> c \<and> 0 < k
    \<and> (case vs_reason s of
         VWarmup \<Rightarrow> vs_scalar s = 1 \<and> \<not> vs_warmup_ok s \<and> int (length returns) < vp_warmup_days p
       | VZeroVol \<Rightarrow> vs_scalar s = Fin c \<and> vs_warmup_ok s
       | VApplied \<Rightarrow> vs_warmup_ok s \<and> (\<exists>x. vs_scalar s = Fin x \<and> f \<le> x \<and> x \<le> c
             \<and> vp_band p < Fin (\<bar>x - k\<bar> / k))
       | VWithinBand \<Rightarrow> vs_scalar s = Fin k \<and> vs_warmup_ok s)
    \<and> (vs_applied s \<longleftrightarrow> vs_reason s = VApplied)
    \<and> (vs_warmup_ok s \<longleftrightarrow> vp_warmup_days p \<le> int (length returns))"
proof -
  from assms(1) obtain realized where ok: "vol_params_ok p"
    and e: "ewma_vol returns (vp_halflife_days p) 252 = Inr realized"
    by (auto simp: vol_scalar_def rmap_Inr_iff split: if_splits)
  from ok assms(2-4) have pos: "0 < f" "f \<le> c" "0 < k" by (auto simp: vol_params_ok_def)
  have clamp: "\<exists>x. pymin (Fin c) (pymax (Fin f) y) = Fin x \<and> f \<le> x \<and> x \<le> c" for y
    using pos(2) by (cases y) (auto simp: pymin_def pymax_def)
  define raw where "raw = pymin (Fin c) (pymax (Fin f) (fdiv (Fin t) realized))"
  obtain x where x: "raw = Fin x" "f \<le> x" "x \<le> c" using clamp unfolding raw_def by blast
  from assms(1) show ?thesis
    using ok e pos x by (auto simp: vol_scalar_def assms(2-5) Let_def raw_def [symmetric] split: if_splits)
qed

section \<open>The half-life\<close>

text \<open>
  The decay is \<open>ln 2 / h\<close>, as the module says, and not the \<open>2 powr (- 1 / h)\<close> that halves a weight
  in \<open>h\<close> days: with the shipped \<open>h = 20\<close> yesterday's weight is already below a twentieth.
\<close>

lemma decay_is_no_half_life: "ln 2 / 20 < (1 / 20 :: real)" "(ln 2 / 20 :: real) ^ 20 < 1 / 2"
proof -
  show "ln 2 / 20 < (1 / 20 :: real)" using ln_2_bounds by simp
  have "(ln 2 / 20 :: real) ^ 20 \<le> (1 / 20) ^ 20"
    using ln_2_bounds by (intro power_mono) auto
  also have "(1 / 20 :: real) ^ 20 < 1 / 2" by (simp add: power_one_over)
  finally show "(ln 2 / 20 :: real) ^ 20 < 1 / 2" .
qed

end
