(* ===== verification/Tail.thy ===== *)
theory Tail
  imports VolTarget "HOL-Library.Multiset"
begin

text \<open>
  \<open>signald/risk/tail.py\<close>: expected shortfall by three estimators, the worst wins. The normal
  quantile (\<open>statistics.NormalDist().inv_cdf\<close>) is the argument \<open>z\<close>; what the theorems need of it is
  a hypothesis of theirs. A tail count is computed in exact arithmetic: where binary64 puts
  \<open>(1 - confidence) * n\<close> just above an integer the program averages one loss more.
\<close>

section \<open>Definitions\<close>

record StressGrid =
  sg_vol_mult :: pyfloat
  sg_gap_pct :: pyfloat
  sg_halt_pct :: pyfloat
  sg_horizon_days :: int

definition default_grid :: StressGrid where
  "default_grid = \<lparr>sg_vol_mult = Fin 2, sg_gap_pct = Fin (10 / 100), sg_halt_pct = Fin (20 / 100),
     sg_horizon_days = 1\<rparr>"

datatype es_estimator = EStress | EParametric | EHistorical | EUnavailable

record ESResult =
  es_value_pct :: pyfloat
  es_which :: es_estimator
  es_flagged :: bool
  es_window_days :: int
  es_historical_part :: pyfloat
  es_parametric_part :: pyfloat
  es_stress_part :: pyfloat

definition check_confidence :: "pyfloat \<Rightarrow> real res" where
  "check_confidence c =
     (case c of Fin v \<Rightarrow> if 0 < v \<and> v < 1 then Inr v else Inl ValueError | _ \<Rightarrow> Inl ValueError)"

definition check_sigma :: "pyfloat \<Rightarrow> pyfloat res" where
  "check_sigma s = (if \<not> isfinite s \<or> s < 0 then Inl ValueError else Inr s)"

definition clamp_unit :: "pyfloat \<Rightarrow> pyfloat" where
  "clamp_unit w = (if \<not> isfinite w then 1 else pymin 1 (pymax 0 w))"

definition z_score :: "(real \<Rightarrow> real) \<Rightarrow> pyfloat \<Rightarrow> real res" where
  "z_score z c = rmap z (check_confidence c)"

definition loss_ok :: "pyfloat \<Rightarrow> bool" where
  "loss_ok l \<longleftrightarrow> isfinite l \<and> \<not> l < 0"

definition tail_count :: "real \<Rightarrow> nat \<Rightarrow> nat" where
  \<comment> \<open>\<open>max(1, math.ceil((1.0 - confidence) * n))\<close>\<close>
  "tail_count c n = nat (max 1 \<lceil>(1 - c) * of_nat n\<rceil>)"

definition es_historical :: "pyfloat list \<Rightarrow> pyfloat \<Rightarrow> pyfloat res" where
  "es_historical losses confidence =
     rbind (check_confidence confidence) (\<lambda>c.
       if losses = [] then Inl ValueError
       else if \<not> list_all loss_ok losses then Inl ValueError
       else (let ordered = rev (sort (map the_fin losses));
                 worst = take (tail_count c (length ordered)) ordered
             in Inr (Fin (sum_list worst / of_nat (length worst)))))"

definition es_parametric :: "(real \<Rightarrow> real) \<Rightarrow> pyfloat \<Rightarrow> pyfloat \<Rightarrow> int \<Rightarrow> pyfloat res" where
  "es_parametric z sigma_daily confidence horizon =
     (if horizon < 1 then Inl ValueError
      else rbind (check_sigma sigma_daily) (\<lambda>sigma.
           rmap (\<lambda>q. Fin q * sigma * Fin (sqrt (of_int horizon))) (z_score z confidence)))"

definition es_stress ::
  "(real \<Rightarrow> real) \<Rightarrow> pyfloat \<Rightarrow> pyfloat \<Rightarrow> StressGrid \<Rightarrow> pyfloat \<Rightarrow> pyfloat res" where
  "es_stress z sigma_daily confidence grid weight =
     (let share = clamp_unit weight in
      rmap (\<lambda>vol_shock. pymax (pymax vol_shock (sg_gap_pct grid * share)) (sg_halt_pct grid * share))
        (es_parametric z (sigma_daily * sg_vol_mult grid) confidence (sg_horizon_days grid)))"

definition stdev :: "real list \<Rightarrow> real" where
  \<comment> \<open>\<open>statistics.stdev\<close>: the sample standard deviation\<close>
  "stdev xs =
     (let m = sum_list xs / of_nat (length xs) in
      sqrt (sum_list (map (\<lambda>x. (x - m)\<^sup>2) xs) / (of_nat (length xs) - 1)))"

definition effective_sigma :: "pyfloat list \<Rightarrow> pyfloat option \<Rightarrow> pyfloat res" where
  \<comment> \<open>a loss series that is not finite raises in \<open>statistics.stdev\<close> or in \<open>es_historical\<close>\<close>
  "effective_sigma losses sigma_daily =
     (case sigma_daily of
        Some s \<Rightarrow> check_sigma s
      | None \<Rightarrow> if 2 \<le> length losses
                then (if list_all isfinite losses then Inr (Fin (stdev (map the_fin losses)))
                      else Inl ValueError)
                else Inr (Fin 0))"

definition es_estimate ::
  "(real \<Rightarrow> real) \<Rightarrow> pyfloat list \<Rightarrow> pyfloat \<Rightarrow> pyfloat option \<Rightarrow> StressGrid \<Rightarrow> pyfloat \<Rightarrow> int
     \<Rightarrow> ESResult res" where
  "es_estimate z losses confidence sigma_daily grid weight min_observations =
     rbind (check_confidence confidence) (\<lambda>_.
     rbind (effective_sigma losses sigma_daily) (\<lambda>sigma.
     rbind (if losses = [] then Inr (Fin 0) else es_historical losses confidence) (\<lambda>historical.
     rbind (es_parametric z sigma confidence (sg_horizon_days grid)) (\<lambda>parametric.
     rmap (\<lambda>stress.
       (let value = pymax (pymax historical parametric) stress in
        \<lparr>es_value_pct = value,
         es_which = (if value \<le> stress then EStress else if value \<le> parametric then EParametric
                     else EHistorical),
         es_flagged = (int (length losses) < min_observations \<or> sigma \<le> 0),
         es_window_days = int (length losses), es_historical_part = historical,
         es_parametric_part = parametric, es_stress_part = stress\<rparr>))
       (es_stress z sigma confidence grid weight)))))"

lemma check_confidence_Inr: "check_confidence x = Inr c \<longleftrightarrow> x = Fin c \<and> 0 < c \<and> c < 1"
  by (cases x) (auto simp: check_confidence_def)

section \<open>The historical estimator\<close>

lemma last_least: "sorted_wrt (\<ge>) ys \<Longrightarrow> x \<in> set ys \<Longrightarrow> last ys \<le> (x :: real)"
  by (induction ys rule: rev_induct) (auto simp: sorted_wrt_append)

lemma sum_list_const_bounds:
  fixes ys :: "real list"
  shows "\<forall>y \<in> set ys. a \<le> y \<Longrightarrow> of_nat (length ys) * a \<le> sum_list ys"
    and "\<forall>y \<in> set ys. y \<le> a \<Longrightarrow> sum_list ys \<le> of_nat (length ys) * a"
  by (induction ys) (auto simp: algebra_simps)

lemma sum_take_rev_sorted:
  fixes xs :: "real list"
  assumes "sorted_wrt (\<ge>) xs" "0 < k" "k \<le> length xs"
  shows "sum_list xs / of_nat (length xs) \<le> sum_list (take k xs) / of_nat k"
proof -
  define d where "d = drop k xs"
  define a where "a = last (take k xs)"
  have ta: "take k xs \<noteq> []" using assms(2,3) by auto
  have split: "xs = take k xs @ d" by (simp add: d_def)
  have "sorted_wrt (\<ge>) (take k xs @ d)" using assms(1) by (simp add: d_def)
  then have "\<forall>x \<in> set (take k xs). \<forall>y \<in> set d. y \<le> x" by (simp add: sorted_wrt_append)
  then have low: "\<forall>y \<in> set d. y \<le> a" using ta by (simp add: a_def)
  have "sorted_wrt (\<ge>) (take k xs)" using assms(1) by (rule sorted_wrt_take)
  then have high: "\<forall>x \<in> set (take k xs). a \<le> x"
    unfolding a_def by (simp add: last_least)
  have "sum_list d \<le> of_nat (length d) * a"
    using low by (rule sum_list_const_bounds)
  moreover have "of_nat (length (take k xs)) * a \<le> sum_list (take k xs)"
    using high by (rule sum_list_const_bounds)
  ultimately have le: "of_nat k * sum_list d \<le> of_nat k * (of_nat (length d) * a)"
      "of_nat (length d) * (of_nat k * a) \<le> of_nat (length d) * sum_list (take k xs)"
    using assms(3) by (simp_all add: mult_left_mono)
  have "sum_list xs = sum_list (take k xs) + sum_list d" by (subst split) simp
  moreover have "length xs = k + length d" using assms(3) by (simp add: d_def)
  moreover have "of_nat k * sum_list d \<le> of_nat (length d) * sum_list (take k xs)"
    using le by (simp add: algebra_simps)
  ultimately show ?thesis using assms(2)
    by (simp add: divide_le_eq le_divide_eq) (simp add: field_simps)
qed

lemma sorted_rev_sort: "sorted_wrt (\<ge>) (rev (sort (xs :: real list)))"
  by (simp add: sorted_wrt_rev)

lemma tail_count_bounds:
  assumes "0 < c" "c < 1" "0 < n"
  shows "1 \<le> tail_count c n" "tail_count c n \<le> n"
proof -
  have "(1 - c) * of_nat n \<le> of_nat n" using assms by (simp add: mult_le_cancel_right1)
  then have "\<lceil>(1 - c) * of_nat n\<rceil> \<le> int n" by (simp add: ceiling_le_iff)
  then show "tail_count c n \<le> n" using assms(3) by (auto simp: tail_count_def)
qed (simp add: tail_count_def)

lemma sum_list_map_fin_nonneg: "list_all loss_ok losses \<Longrightarrow> \<forall>x \<in> set (map the_fin losses). 0 \<le> x"
  by (auto simp: list_all_iff loss_ok_def the_fin_def isfinite_iff)

lemma es_historical_InrD:
  assumes "es_historical losses (Fin c) = Inr h"
  obtains v where "h = Fin v" "0 < c" "c < 1" "losses \<noteq> []" "list_all loss_ok losses"
    "sum_list (map the_fin losses) / of_nat (length losses) \<le> v" "0 \<le> v"
proof -
  let ?xs = "rev (sort (map the_fin losses))"
  let ?k = "tail_count c (length losses)"
  from assms have c: "0 < c" "c < 1" "losses \<noteq> []" "list_all loss_ok losses"
    and h: "h = Fin (sum_list (take ?k ?xs) / of_nat (length (take ?k ?xs)))"
    by (auto simp: es_historical_def check_confidence_def Let_def rbind_Inr_iff split: if_splits)
  have k: "1 \<le> ?k" "?k \<le> length losses"
    using tail_count_bounds [of c "length losses"] c by auto
  have len: "length (take ?k ?xs) = ?k" using k by simp
  have "sum_list ?xs / of_nat (length ?xs) \<le> sum_list (take ?k ?xs) / of_nat ?k"
    using k by (intro sum_take_rev_sorted sorted_rev_sort) auto
  moreover have "sum_list ?xs = sum_list (map the_fin losses)"
    by (metis mset_rev mset_sort sum_mset_sum_list)
  moreover have "0 \<le> sum_list (take ?k ?xs)"
    using sum_list_map_fin_nonneg [OF c(4)] by (intro sum_list_nonneg) (fastforce dest: in_set_takeD)
  ultimately show thesis using c h len by (intro that [of "sum_list (take ?k ?xs) / of_nat ?k"]) auto
qed

section \<open>The worst of three\<close>

lemma pymax_ge_Fin: "pymax (pymax (Fin a) (Fin b)) (Fin c) = Fin (max (max a b) c)"
  by simp

lemma es_parametric_InrD:
  assumes "es_parametric z (Fin s) (Fin c) n = Inr p"
  shows "p = Fin (z c * s * sqrt (of_int n)) \<and> 0 \<le> s \<and> 1 \<le> n"
  using assms
  by (auto simp: es_parametric_def z_score_def check_sigma_def check_confidence_def rbind_Inr_iff
      rmap_Inr_iff split: if_splits)

lemma stdev_nonneg: "2 \<le> length xs \<Longrightarrow> 0 \<le> stdev xs"
  unfolding stdev_def Let_def
  by (intro real_sqrt_ge_zero divide_nonneg_nonneg sum_list_nonneg) auto

lemma effective_sigma_InrD:
  "effective_sigma losses sigma = Inr s \<Longrightarrow> \<exists>v. s = Fin v \<and> 0 \<le> v"
  using stdev_nonneg [of "map the_fin losses"]
  by (auto simp: effective_sigma_def check_sigma_def isfinite_iff split: option.splits if_splits)

lemma clamp_unit_Fin: "\<exists>w. clamp_unit x = Fin w \<and> 0 \<le> w \<and> w \<le> 1"
  by (cases x) (auto simp: clamp_unit_def fp_simps)

lemma es_estimate_InrD:
  assumes "es_estimate z losses (Fin c) sigma grid weight mn = Inr r"
    "sg_vol_mult grid = Fin m" "sg_gap_pct grid = Fin g" "sg_halt_pct grid = Fin hp"
  obtains s h p st w where
    "effective_sigma losses sigma = Inr (Fin s)" "0 \<le> s" "0 < c" "c < 1"
    "es_historical_part r = Fin h" "losses \<noteq> [] \<longrightarrow> es_historical losses (Fin c) = Inr (Fin h)"
    "losses = [] \<longrightarrow> h = 0"
    "es_parametric_part r = Fin p" "p = z c * s * sqrt (of_int (sg_horizon_days grid))"
    "es_stress_part r = Fin st" "clamp_unit weight = Fin w" "0 \<le> w" "w \<le> 1"
    "st = max (max (z c * (s * m) * sqrt (of_int (sg_horizon_days grid))) (g * w)) (hp * w)"
    "es_value_pct r = Fin (max (max h p) st)"
    "es_which r = (if max (max h p) st \<le> st then EStress
       else if max (max h p) st \<le> p then EParametric else EHistorical)"
    "es_flagged r \<longleftrightarrow> int (length losses) < mn \<or> s \<le> 0" "es_window_days r = int (length losses)"
proof -
  obtain w where w: "clamp_unit weight = Fin w" "0 \<le> w" "w \<le> 1" using clamp_unit_Fin by blast
  from assms(1) obtain sg hist par str where
    c: "0 < c" "c < 1"
    and sg: "effective_sigma losses sigma = Inr sg"
    and hist: "(if losses = [] then Inr (Fin 0) else es_historical losses (Fin c)) = Inr hist"
    and par: "es_parametric z sg (Fin c) (sg_horizon_days grid) = Inr par"
    and str: "es_stress z sg (Fin c) grid weight = Inr str"
    and r: "r = \<lparr>es_value_pct = pymax (pymax hist par) str,
         es_which = (if pymax (pymax hist par) str \<le> str then EStress
                     else if pymax (pymax hist par) str \<le> par then EParametric else EHistorical),
         es_flagged = (int (length losses) < mn \<or> sg \<le> 0),
         es_window_days = int (length losses), es_historical_part = hist,
         es_parametric_part = par, es_stress_part = str\<rparr>"
    by (auto simp: es_estimate_def rbind_Inr_iff rmap_Inr_iff check_confidence_Inr Let_def
        split del: if_split)
  obtain s where s: "sg = Fin s" "0 \<le> s" using effective_sigma_InrD [OF sg] by blast
  obtain h where h: "hist = Fin h" "losses \<noteq> [] \<longrightarrow> es_historical losses (Fin c) = Inr (Fin h)"
      "losses = [] \<longrightarrow> h = 0"
  proof (cases "losses = []")
    case True
    with hist that show thesis by simp
  next
    case False
    with hist have "es_historical losses (Fin c) = Inr hist" by simp
    from this es_historical_InrD [OF this] False that show thesis by metis
  qed
  from es_parametric_InrD [of z s c] par s have p: "par = Fin (z c * s * sqrt (of_int (sg_horizon_days grid)))"
    by simp
  from str obtain vs where "es_parametric z (Fin (s * m)) (Fin c) (sg_horizon_days grid) = Inr vs"
      "str = pymax (pymax vs (Fin g * Fin w)) (Fin hp * Fin w)"
    by (auto simp: es_stress_def Let_def rmap_Inr_iff s assms(2-4) w)
  with es_parametric_InrD [OF this(1)] have st:
    "str = Fin (max (max (z c * (s * m) * sqrt (of_int (sg_horizon_days grid))) (g * w)) (hp * w))"
    by simp
  have parts: "es_historical_part r = Fin h" "es_parametric_part r = par" "es_stress_part r = str"
      "es_flagged r \<longleftrightarrow> int (length losses) < mn \<or> s \<le> 0" "es_window_days r = int (length losses)"
    by (simp_all add: r h s)
  define p' where "p' = z c * s * sqrt (of_int (sg_horizon_days grid))"
  define st' where "st' = max (max (z c * (s * m) * sqrt (of_int (sg_horizon_days grid))) (g * w)) (hp * w)"
  note fin = p [folded p'_def] st [folded st'_def]
  have "es_value_pct r = Fin (max (max h p') st')"
      "es_which r = (if max (max h p') st' \<le> st' then EStress
         else if max (max h p') st' \<le> p' then EParametric else EHistorical)"
    unfolding r h(1) fin by (simp_all del: max.bounded_iff)
  from that [OF sg [unfolded s(1)] s(2) c parts(1) h(2,3) parts(2) [unfolded fin(1)] p'_def
      parts(3) [unfolded fin(2)] w st'_def this parts(4,5)] show thesis .
qed

end
