(* ===== verification/Halts.thy ===== *)
theory Halts
  imports PyTime Interfaces
begin

text \<open>
  \<open>signald/order/halts.py\<close>: the halt machine of one instrument. An update and a noted reopen are the
  events; the injected clock is the \<open>at\<close> argument of every event. A naive and an aware datetime
  cannot be subtracted, so an update may raise; it then leaves the machine as it was. The machine is
  an \<open>invariant_machine\<close>.
\<close>

section \<open>The machine\<close>

datatype phase = PNormal | PLimitState | PHalted | PReopening | PCooldown

datatype halt_reason =
    RNormal | RHalt | RNoReopen | RLimitState | RReopening | RCooldown

definition NO_REOPEN_MINUTES :: pyfloat where
  "NO_REOPEN_MINUTES = Fin 10"

definition REOPEN_COOLDOWN_S :: pyfloat where
  "REOPEN_COOLDOWN_S = Fin 300"

record HaltMachine =
  h_cooldown_s :: pyfloat
  h_phase :: phase
  h_reason :: halt_reason
  h_since :: "datetime option"
  h_reopen_at :: "datetime option"
  h_no_reopen :: bool

record HaltState =
  hs_phase :: phase
  hs_allow_entries :: bool
  hs_allow_exits :: bool
  hs_cooldown_s :: pyfloat
  hs_reason :: halt_reason
  hs_since :: "datetime option"

definition new_halt_machine :: "pyfloat \<Rightarrow> HaltMachine res" where
  "new_halt_machine cooldown =
     (if \<not> (isfinite cooldown \<and> 0 < cooldown) then Inl ValueError
      else Inr \<lparr>h_cooldown_s = cooldown, h_phase = PNormal, h_reason = RNormal, h_since = None,
                h_reopen_at = None, h_no_reopen = False\<rparr>)"

definition elapsed :: "HaltMachine \<Rightarrow> datetime \<Rightarrow> pyfloat res" where
  "elapsed m now =
     (case h_reopen_at m of
        None \<Rightarrow> Inr 0
      | Some r \<Rightarrow> rmap (\<lambda>us. pymax 0 (total_seconds us)) (dt_diff_us now r))"

definition snapshot :: "HaltMachine \<Rightarrow> datetime \<Rightarrow> HaltState res" where
  "snapshot m now =
     rmap (\<lambda>e. \<lparr>hs_phase = h_phase m, hs_allow_entries = (h_phase m = PNormal),
                hs_allow_exits = (h_phase m \<in> {PNormal, PCooldown}), hs_cooldown_s = e,
                hs_reason = h_reason m, hs_since = h_since m\<rparr>)
       (if h_phase m = PCooldown then elapsed m now else Inr 0)"

definition enter_phase :: "phase \<Rightarrow> datetime \<Rightarrow> HaltMachine \<Rightarrow> HaltMachine" where
  \<comment> \<open>\<open>if self._phase != p: self._phase, self._since = p, at\<close>\<close>
  "enter_phase p now m = (if h_phase m \<noteq> p then m\<lparr>h_phase := p, h_since := Some now\<rparr> else m)"

definition advance_halted :: "datetime \<Rightarrow> pyfloat option \<Rightarrow> HaltMachine \<Rightarrow> HaltMachine" where
  "advance_halted now minutes_to_close m =
     (let m1 = (enter_phase PHalted now m)\<lparr>h_reopen_at := None, h_reason := RHalt\<rparr> in
      case minutes_to_close of
        Some mins \<Rightarrow>
          if mins \<le> NO_REOPEN_MINUTES then m1\<lparr>h_no_reopen := True, h_reason := RNoReopen\<rparr> else m1
      | None \<Rightarrow> m1)"

definition advance_clear :: "datetime \<Rightarrow> HaltMachine \<Rightarrow> HaltMachine res" where
  \<comment> \<open>the part of \<open>update\<close> for a venue that reports neither a halt nor a limit state\<close>
  "advance_clear now m =
     (let m1 = (if h_phase m \<in> {PHalted, PLimitState}
                then m\<lparr>h_phase := PReopening, h_since := Some now, h_reason := RReopening,
                       h_reopen_at := None\<rparr> else m)
      in if h_phase m1 = PCooldown then
           rmap (\<lambda>e. if h_cooldown_s m1 \<le> e
                     then m1\<lparr>h_phase := PNormal, h_since := Some now, h_reason := RNormal,
                             h_reopen_at := None\<rparr> else m1) (elapsed m1 now)
         else if h_phase m1 = PNormal then
           Inr (m1\<lparr>h_reason := RNormal,
                   h_since := (case h_since m1 of None \<Rightarrow> Some now | Some s \<Rightarrow> Some s)\<rparr>)
         else Inr m1)"

definition advance_machine ::
  "bool \<Rightarrow> bool \<Rightarrow> datetime \<Rightarrow> pyfloat option \<Rightarrow> HaltMachine \<Rightarrow> HaltMachine res" where
  "advance_machine halted limit_state now minutes_to_close m =
     (if halted then Inr (advance_halted now minutes_to_close m)
      else if h_no_reopen m then
        Inr ((enter_phase PHalted now m)\<lparr>h_reopen_at := None, h_reason := RNoReopen\<rparr>)
      else if limit_state then
        Inr ((enter_phase PLimitState now m)\<lparr>h_reopen_at := None, h_reason := RLimitState\<rparr>)
      else advance_clear now m)"

definition update ::
  "bool \<Rightarrow> bool \<Rightarrow> datetime \<Rightarrow> pyfloat option \<Rightarrow> HaltMachine \<Rightarrow> (HaltMachine \<times> HaltState) res" where
  "update halted limit_state now minutes_to_close m =
     rbind (advance_machine halted limit_state now minutes_to_close m)
       (\<lambda>m1. rmap (Pair m1) (snapshot m1 now))"

definition note_reopen :: "datetime \<Rightarrow> HaltMachine \<Rightarrow> HaltMachine" where
  "note_reopen now m =
     (if h_no_reopen m \<or> h_phase m \<noteq> PReopening then m
      else m\<lparr>h_phase := PCooldown, h_since := Some now, h_reopen_at := Some now,
             h_reason := RCooldown\<rparr>)"

section \<open>Runs\<close>

datatype halt_event = Update bool bool datetime "pyfloat option" | NoteReopen datetime

fun halt_step :: "HaltMachine \<Rightarrow> halt_event \<Rightarrow> HaltMachine" where
  "halt_step m (Update halted limit_state now mins) =
     (case update halted limit_state now mins m of Inl _ \<Rightarrow> m | Inr (m', _) \<Rightarrow> m')"
| "halt_step m (NoteReopen now) = note_reopen now m"

definition halt_inv :: "HaltMachine \<Rightarrow> bool" where
  "halt_inv m \<longleftrightarrow> (h_phase m = PCooldown \<longleftrightarrow> h_reopen_at m \<noteq> None)
     \<and> (h_no_reopen m \<longrightarrow> h_phase m = PHalted) \<and> isfinite (h_cooldown_s m) \<and> 0 < h_cooldown_s m"

lemma new_halt_machine_inv: "new_halt_machine c = Inr m \<Longrightarrow> halt_inv m"
  by (auto simp: new_halt_machine_def halt_inv_def split: if_splits)

lemma elapsed_fields:
  "h_reopen_at m' = h_reopen_at m \<Longrightarrow> elapsed m' now = elapsed m now"
  by (simp add: elapsed_def)

lemma advance_halted_facts:
  "h_phase (advance_halted now mins m) = PHalted" "h_reopen_at (advance_halted now mins m) = None"
  "h_cooldown_s (advance_halted now mins m) = h_cooldown_s m"
  "h_no_reopen (advance_halted now mins m) \<longleftrightarrow>
     h_no_reopen m \<or> (\<exists>x. mins = Some x \<and> x \<le> NO_REOPEN_MINUTES)"
  by (auto simp: advance_halted_def enter_phase_def Let_def split: option.splits)

lemma advance_clear_cases:
  assumes "advance_clear now m = Inr m'"
  shows "h_cooldown_s m' = h_cooldown_s m \<and> h_no_reopen m' = h_no_reopen m
    \<and> (case h_phase m of
         PHalted \<Rightarrow> h_phase m' = PReopening \<and> h_reopen_at m' = None
       | PLimitState \<Rightarrow> h_phase m' = PReopening \<and> h_reopen_at m' = None
       | PReopening \<Rightarrow> h_phase m' = PReopening \<and> h_reopen_at m' = h_reopen_at m
       | PNormal \<Rightarrow> h_phase m' = PNormal \<and> h_reopen_at m' = h_reopen_at m
       | PCooldown \<Rightarrow> h_phase m' = PCooldown \<and> h_reopen_at m' = h_reopen_at m
           \<or> h_phase m' = PNormal \<and> h_reopen_at m' = None
               \<and> (\<exists>e. elapsed m now = Inr e \<and> h_cooldown_s m \<le> e))"
  using assms
  by (auto simp: advance_clear_def Let_def rmap_Inr_iff split: if_splits phase.splits)

lemma snapshot_after_advance:
  assumes "advance_machine h l now mins m = Inr m'"
  shows "\<exists>s. snapshot m' now = Inr s"
proof (cases "h_phase m' = PCooldown")
  case True
  with assms have "advance_clear now m = Inr m'"
    by (auto simp: advance_machine_def advance_halted_facts enter_phase_def split: if_splits)
  with True obtain e where "elapsed m now = Inr e" "h_reopen_at m' = h_reopen_at m"
    by (auto simp: advance_clear_def Let_def rmap_Inr_iff split: if_splits)
  then show ?thesis using elapsed_fields [of m' m now] by (simp add: snapshot_def)
qed (simp add: snapshot_def)

lemma halt_step_Update:
  "halt_step m (Update h l now mins) =
     (case advance_machine h l now mins m of Inl _ \<Rightarrow> m | Inr m' \<Rightarrow> m')"
  using snapshot_after_advance [of h l now mins m]
  by (fastforce simp: update_def split: sum.splits)

declare halt_step.simps(1) [simp del]

lemma advance_clear_step:
  "halt_inv m \<Longrightarrow> h_no_reopen m = False \<Longrightarrow>
     (let m' = (case advance_clear now m of Inl _ \<Rightarrow> m | Inr m' \<Rightarrow> m') in
      h_cooldown_s m' = h_cooldown_s m \<and> \<not> h_no_reopen m'
      \<and> (h_phase m' = h_phase m \<and> h_phase m \<in> {PNormal, PReopening, PCooldown}
             \<and> h_reopen_at m' = h_reopen_at m
         \<or> h_phase m \<in> {PHalted, PLimitState} \<and> h_phase m' = PReopening \<and> h_reopen_at m' = None
         \<or> h_phase m = PCooldown \<and> h_phase m' = PNormal \<and> h_reopen_at m' = None
             \<and> (\<exists>e. elapsed m now = Inr e \<and> h_cooldown_s m \<le> e)))"
  by (cases "h_phase m"; cases "elapsed m now") (auto simp: advance_clear_def Let_def)

lemma halt_step_Update_cases:
  assumes "halt_inv m" "m' = halt_step m (Update h l now mins)"
  obtains (Blocked) "h \<or> l \<or> h_no_reopen m" "h_phase m' \<in> {PHalted, PLimitState}"
      "h_reopen_at m' = None" "h_cooldown_s m' = h_cooldown_s m"
      "h_no_reopen m' \<longrightarrow> h_phase m' = PHalted" "h_no_reopen m \<longrightarrow> h_no_reopen m'"
  | (Stay) "\<not> h" "\<not> l" "\<not> h_no_reopen m" "h_phase m' = h_phase m" "h_reopen_at m' = h_reopen_at m"
      "h_cooldown_s m' = h_cooldown_s m" "\<not> h_no_reopen m'"
  | (Clears) "\<not> h" "\<not> l" "\<not> h_no_reopen m" "h_phase m' = PReopening" "h_reopen_at m' = None"
      "h_cooldown_s m' = h_cooldown_s m" "\<not> h_no_reopen m'"
  | (Reopens) e where "\<not> h" "\<not> l" "\<not> h_no_reopen m" "h_phase m = PCooldown" "h_phase m' = PNormal"
      "h_reopen_at m' = None" "h_cooldown_s m' = h_cooldown_s m" "\<not> h_no_reopen m'"
      "elapsed m now = Inr e" "h_cooldown_s m \<le> e"
proof (cases "h \<or> h_no_reopen m \<or> l")
  case True
  then show thesis using assms Blocked
    by (auto simp: halt_step_Update advance_machine_def advance_halted_facts enter_phase_def
        halt_inv_def split: if_splits)
next
  case False
  then have "m' = (case advance_clear now m of Inl _ \<Rightarrow> m | Inr m' \<Rightarrow> m')"
    using assms(2) by (simp add: halt_step_Update advance_machine_def)
  with advance_clear_step [OF assms(1), of now] False Stay Clears Reopens show thesis
    by (auto simp: Let_def)
qed

lemma halt_step_inv: "halt_inv m \<Longrightarrow> halt_inv (halt_step m e)"
proof (cases e)
  case (Update h l now mins)
  assume "halt_inv m"
  then show ?thesis unfolding Update
    by (cases rule: halt_step_Update_cases [OF _ refl, of m h l now mins]) (auto simp: halt_inv_def)
qed (auto simp: note_reopen_def halt_inv_def)

interpretation hm: invariant_machine halt_step halt_inv
  by unfold_locales (rule halt_step_inv)

lemma halt_step_no_reopen: "halt_inv m \<Longrightarrow> h_no_reopen m \<Longrightarrow> h_no_reopen (halt_step m e)"
proof (cases e)
  case (Update h l now mins)
  assume "halt_inv m" "h_no_reopen m"
  then show ?thesis unfolding Update
    by (cases rule: halt_step_Update_cases [OF _ refl, of m h l now mins]) auto
qed (auto simp: note_reopen_def)

lemma run_no_reopen:
  "halt_inv m \<Longrightarrow> h_no_reopen m \<Longrightarrow> h_no_reopen (foldl halt_step m es)"
  by (induction es arbitrary: m) (auto intro: halt_step_no_reopen halt_step_inv)

lemma halt_step_cooldown_s: "halt_inv m \<Longrightarrow> h_cooldown_s (halt_step m e) = h_cooldown_s m"
proof (cases e)
  case (Update h l now mins)
  assume "halt_inv m"
  then show ?thesis unfolding Update
    by (cases rule: halt_step_Update_cases [OF _ refl, of m h l now mins]) auto
qed (auto simp: note_reopen_def)

lemma run_cooldown_s: "halt_inv m \<Longrightarrow> h_cooldown_s (foldl halt_step m es) = h_cooldown_s m"
  by (induction es arbitrary: m) (auto simp: halt_step_cooldown_s halt_step_inv)

section \<open>How entries come back\<close>

definition quiet :: "halt_event \<Rightarrow> bool" where
  \<comment> \<open>an event that reports neither a halt nor a limit state\<close>
  "quiet e = (case e of Update h l _ _ \<Rightarrow> \<not> h \<and> \<not> l | NoteReopen _ \<Rightarrow> True)"

lemma halt_step_to_cooldown:
  assumes "halt_inv m" "h_phase (halt_step m e) = PCooldown"
  shows "(\<exists>r. e = NoteReopen r \<and> h_reopen_at (halt_step m e) = Some r)
    \<or> quiet e \<and> h_phase m = PCooldown \<and> h_reopen_at (halt_step m e) = h_reopen_at m"
proof (cases e)
  case (Update h l now mins)
  show ?thesis using assms(2) unfolding Update
    by (cases rule: halt_step_Update_cases [OF assms(1) refl, of h l now mins]) (auto simp: quiet_def)
qed (use assms in \<open>auto simp: note_reopen_def quiet_def split: if_splits\<close>)

lemma halt_step_to_normal:
  assumes "halt_inv m" "h_phase (halt_step m e) = PNormal"
  shows "h_phase m = PNormal \<and> quiet e
    \<or> (\<exists>now mins x. e = Update False False now mins \<and> h_phase m = PCooldown
         \<and> elapsed m now = Inr x \<and> h_cooldown_s m \<le> x)"
proof (cases e)
  case (Update h l now mins)
  show ?thesis using assms(2) unfolding Update
    by (cases rule: halt_step_Update_cases [OF assms(1) refl, of h l now mins]) (auto simp: quiet_def)
qed (use assms in \<open>auto simp: note_reopen_def quiet_def split: if_splits\<close>)

lemma run_to_cooldown:
  assumes "halt_inv m" "h_phase m \<noteq> PCooldown" "h_phase (foldl halt_step m es) = PCooldown"
  shows "\<exists>xs r ys. es = xs @ NoteReopen r # ys \<and> list_all quiet ys
    \<and> h_reopen_at (foldl halt_step m es) = Some r"
  using assms(3)
proof (induction es rule: rev_induct)
  case Nil
  with assms(2) show ?case by simp
next
  case (snoc e es)
  let ?m = "foldl halt_step m es"
  have "h_phase (halt_step ?m e) = PCooldown" using snoc.prems by simp
  from halt_step_to_cooldown [OF hm.run_inv [OF assms(1)] this] show ?case
  proof
    assume "\<exists>r. e = NoteReopen r \<and> h_reopen_at (halt_step ?m e) = Some r"
    then obtain r where "es @ [e] = es @ NoteReopen r # []"
        "h_reopen_at (foldl halt_step m (es @ [e])) = Some r" by auto
    then show ?thesis by (metis list.pred_inject(1))
  next
    assume old: "quiet e \<and> h_phase ?m = PCooldown \<and> h_reopen_at (halt_step ?m e) = h_reopen_at ?m"
    with snoc.IH obtain xs r ys where "es = xs @ NoteReopen r # ys" "list_all quiet ys"
        "h_reopen_at ?m = Some r" by blast
    with old show ?thesis
      by (intro exI [of _ xs] exI [of _ r] exI [of _ "ys @ [e]"]) simp
  qed
qed

definition reopened :: "pyfloat \<Rightarrow> halt_event list \<Rightarrow> bool" where
  \<comment> \<open>the events end with a noted reopen, an update a cooldown or more later, and nothing but
     quiet events after the reopen\<close>
  "reopened cooldown es \<longleftrightarrow>
     (\<exists>xs r ys now mins zs us. es = xs @ NoteReopen r # ys @ Update False False now mins # zs
        \<and> list_all quiet ys \<and> list_all quiet zs
        \<and> dt_diff_us now r = Inr us \<and> cooldown \<le> total_seconds us)"

lemma run_to_normal:
  assumes "halt_inv m" "h_phase m \<notin> {PNormal, PCooldown}"
    "h_phase (foldl halt_step m es) = PNormal"
  shows "reopened (h_cooldown_s m) es"
  using assms(3)
proof (induction es rule: rev_induct)
  case Nil
  with assms(2) show ?case by simp
next
  case (snoc e es)
  let ?m = "foldl halt_step m es"
  have inv: "halt_inv ?m" by (rule hm.run_inv [OF assms(1)])
  have "h_phase (halt_step ?m e) = PNormal" using snoc.prems by simp
  from halt_step_to_normal [OF inv this] show ?case
  proof
    assume "h_phase ?m = PNormal \<and> quiet e"
    with snoc.IH have "reopened (h_cooldown_s m) es" "quiet e" by auto
    then obtain xs r ys now mins zs us where
      "es @ [e] = xs @ NoteReopen r # ys @ Update False False now mins # (zs @ [e])"
      "list_all quiet ys" "list_all quiet (zs @ [e])"
      "dt_diff_us now r = Inr us" "h_cooldown_s m \<le> total_seconds us"
      by (auto simp: reopened_def)
    then show ?thesis unfolding reopened_def by blast
  next
    assume "\<exists>now mins x. e = Update False False now mins \<and> h_phase ?m = PCooldown
         \<and> elapsed ?m now = Inr x \<and> h_cooldown_s ?m \<le> x"
    then obtain now mins x where e: "e = Update False False now mins" "h_phase ?m = PCooldown"
        "elapsed ?m now = Inr x" "h_cooldown_s ?m \<le> x" by blast
    from run_to_cooldown [OF assms(1) _ e(2)] assms(2) obtain xs r ys where
      r: "es = xs @ NoteReopen r # ys" "list_all quiet ys" "h_reopen_at ?m = Some r" by auto
    from e(3) r(3) obtain us where us: "dt_diff_us now r = Inr us" "x = pymax 0 (total_seconds us)"
      by (auto simp: elapsed_def rmap_Inr_iff)
    obtain c where "h_cooldown_s m = Fin c" "0 < c" using assms(1) by (auto simp: halt_inv_def)
    with e(4) us(2) have "h_cooldown_s m \<le> total_seconds us"
      by (auto simp: run_cooldown_s [OF assms(1)] pymax_def total_seconds_def split: if_splits)
    with us(1) r e(1) show ?thesis unfolding reopened_def by (metis append_Cons append_assoc list.pred_inject(1) append_Nil)
  qed
qed

section \<open>Idempotence\<close>

lemma advance_machine_idem:
  assumes "advance_machine h l now mins m = Inr m'"
  shows "advance_machine h l now mins m' = Inr m'"
proof (cases "h \<or> h_no_reopen m \<or> l")
  case True
  with assms show ?thesis
    by (auto simp: advance_machine_def advance_halted_def enter_phase_def Let_def
        split: if_splits option.splits)
next
  case False
  with assms have c: "advance_clear now m = Inr m'" by (simp add: advance_machine_def)
  then have "h_no_reopen m' = h_no_reopen m"
    by (auto simp: advance_clear_def Let_def rmap_Inr_iff split: if_splits)
  moreover from c have "advance_clear now m' = Inr m'"
    using elapsed_fields [of m' m now]
    by (cases "h_phase m") (auto simp: advance_clear_def Let_def rmap_Inr_iff split: if_splits option.splits)
  ultimately show ?thesis using False by (simp add: advance_machine_def)
qed

lemma update_idem: "update h l now mins m = Inr (m', s) \<Longrightarrow> update h l now mins m' = Inr (m', s)"
  by (auto simp: update_def rbind_Inr_iff rmap_Inr_iff dest: advance_machine_idem)

lemma update_snapshot:
  assumes "update h l now mins m = Inr (m', s)"
  shows "m' = halt_step m (Update h l now mins) \<and> hs_phase s = h_phase m'
    \<and> (hs_allow_entries s \<longleftrightarrow> h_phase m' = PNormal)
    \<and> (hs_allow_exits s \<longleftrightarrow> h_phase m' \<in> {PNormal, PCooldown})"
  using assms
  by (auto simp: halt_step.simps(1) update_def rbind_Inr_iff rmap_Inr_iff snapshot_def)

section \<open>What the source says and does\<close>

text \<open>
  The module text says a halt that \<open>begins\<close> in the last ten minutes never reopens. The code flags
  any halted update in that window, also one of a halt that began an hour before the close.
\<close>

lemma early_halt_flagged:
  "(let t = (\<lambda>k. \<lparr>wall_us = k * 60000000, utc_off = None\<rparr>);
        m = \<lparr>h_cooldown_s = Fin 300, h_phase = PNormal, h_reason = RNormal, h_since = None,
             h_reopen_at = None, h_no_reopen = False\<rparr>;
        m' = foldl halt_step m [Update True False (t 0) (Some (Fin 60)),
                                Update True False (t 51) (Some (Fin 9))]
    in h_no_reopen m' \<and> h_since m' = Some (t 0))"
  by code_simp

end
