(* ===== verification/Gate.thy ===== *)
theory Gate
  imports Policy Json Ladder Tail Halts
begin

text \<open>
  \<open>signald/risk/gate.py\<close>: the house gate, sixteen named checks and one verdict. A check returns a
  failure, nothing, or raises; a check that raises counts as a block under its own name. The
  free text of a reason is left out, its stable \<open>reason_code\<close> is kept. The gate interprets the
  locale \<open>check_table\<close>.
\<close>

section \<open>Context and failures\<close>

datatype gate_name =
    NMandate | NSleeveCapital | NHouseDrawdown | NHouseCvar | NCorrelationStress | NVolRegime
  | NMarketRegime | NKnifeGuard | NConcentration | NLiquidity | NCost | NWash | NShortability
  | NData | NTime | NHalt | NApproval

definition GATE_PRECEDENCE :: "gate_name list" where
  "GATE_PRECEDENCE =
     [NMandate, NSleeveCapital, NHouseDrawdown, NHouseCvar, NCorrelationStress, NVolRegime,
      NMarketRegime, NKnifeGuard, NConcentration, NLiquidity, NCost, NWash, NShortability, NData,
      NTime, NHalt, NApproval]"

definition REVERSION_SETUPS :: "string list" where
  "REVERSION_SETUPS = [''VWAP_PULLBACK'', ''VWAP_REVERT'', ''GAP_FADE'']"

definition TREND_SETUPS :: "string list" where
  "TREND_SETUPS = [''ORB_RVOL'', ''GAP_GO'', ''VWAP_PULLBACK'']"

record GateContext =
  gc_request :: RiskRequest
  gc_book :: BookState
  gc_market :: MarketState
  gc_mandate :: Mandate
  gc_config :: Config
  gc_now :: datetime
  gc_ladder :: LadderState
  gc_vol :: VolScalar
  gc_es :: ESResult
  gc_sleeve_ceiling_pct :: pyfloat
  gc_sleeve_deployed_pct :: pyfloat
  gc_day_type :: "string option"
  gc_time_gate_ok :: "bool option"
  gc_other_sleeve_side :: "string option"
  gc_wash_nets :: bool
  gc_stage :: string
  gc_reference_complete :: bool
  gc_reference_stale :: bool
  gc_positions_value_usd :: "pyfloat option"
  gc_decision_age_days :: "int option"
  gc_ingest_window_days :: pyfloat
  gc_live_invalidations :: "string list"
  gc_last_signal :: "(string \<times> json) list option"
  gc_cooldown_hours :: pyfloat
  gc_action :: "string option"
  gc_held_symbols :: "string list option"

datatype kind = Block | Reduce

record Failure =
  f_check :: gate_name
  f_kind :: kind
  f_reason_code :: string
  f_adjusted :: "pyfloat option"

definition block :: "gate_name \<Rightarrow> string \<Rightarrow> Failure option" where
  "block n code = Some \<lparr>f_check = n, f_kind = Block, f_reason_code = code, f_adjusted = None\<rparr>"

definition reduce :: "gate_name \<Rightarrow> string \<Rightarrow> pyfloat \<Rightarrow> Failure option" where
  "reduce n code adjusted =
     Some \<lparr>f_check = n, f_kind = Reduce, f_reason_code = code, f_adjusted = Some adjusted\<rparr>"

definition soft :: "GateContext \<Rightarrow> gate_name \<Rightarrow> string \<Rightarrow> pyfloat \<Rightarrow> Failure option" where
  \<comment> \<open>a failure of kind \<open>_stage_kind(ctx)\<close> that carries an adjusted risk in both stages\<close>
  "soft c n code adjusted =
     Some \<lparr>f_check = n, f_kind = (if gc_stage c = ''signal'' then Reduce else Block),
           f_reason_code = code, f_adjusted = Some adjusted\<rparr>"

section \<open>Projections\<close>

definition projected_notional :: "RiskRequest \<Rightarrow> pyfloat" where
  "projected_notional r =
     (case r_planned_notional_usd r of
        Some p \<Rightarrow> pymax 0 p
      | None \<Rightarrow>
          if r_stop_distance r \<le> 0 \<or> notional_per_share r \<le> 0 then 0
          else fdiv (r_equity r * r_requested_risk_pct r * notional_per_share r) (r_stop_distance r))"

definition projected_notional_per_risk :: "RiskRequest \<Rightarrow> pyfloat" where
  "projected_notional_per_risk r =
     (if r_stop_distance r \<le> 0 \<or> notional_per_share r \<le> 0 then 0
      else fdiv (r_equity r * notional_per_share r) (r_stop_distance r))"

definition risk_to_fit :: "GateContext \<Rightarrow> pyfloat \<Rightarrow> pyfloat" where
  "risk_to_fit c room_usd =
     (if room_usd \<le> 0 then 0
      else (let slope = projected_notional_per_risk (gc_request c) in
            if slope \<le> 0 then 0
            else pymax 0 (pymin (r_requested_risk_pct (gc_request c)) (fdiv room_usd slope))))"

definition atr_pct :: "MarketState \<Rightarrow> pyfloat option" where
  "atr_pct m =
     (case (m_atr m, m_last m) of
        (Some a, Some l) \<Rightarrow> if l \<le> 0 then None else Some (fdiv a l)
      | _ \<Rightarrow> None)"

definition round_trip_cost_bps :: "GateContext \<Rightarrow> pyfloat" where
  "round_trip_cost_bps c =
     (case m_adv_shares (gc_market c) of
        Some adv \<Rightarrow> if adv < Fin (of_int (cfg_min_adv_shares (gc_config c)))
                     then cfg_cost_lowfloat_bps (gc_config c) else cfg_cost_liquid_bps (gc_config c)
      | None \<Rightarrow> cfg_cost_liquid_bps (gc_config c))"

section \<open>Checks\<close>

definition reduces_a_held_name :: "GateContext \<Rightarrow> bool" where
  "reduces_a_held_name c =
     (let r = gc_request c in
      if r_side r \<noteq> ''sell'' \<or> implies_short r then False
      else (let symbol = str_upper (r_symbol r) in
            case gc_held_symbols c of
              Some held \<Rightarrow> symbol \<in> set held
            | None \<Rightarrow> 0 < position_for (gc_book c) symbol))"

definition action_of :: "GateContext \<Rightarrow> string option" where
  "action_of c =
     (let a = str_upper (strip (str_or (gc_action c) [])) in if a = [] then None else Some a)"

definition cooldown_failure ::
  "GateContext \<Rightarrow> (string \<times> json) list \<Rightarrow> Failure option res" where
  \<comment> \<open>the signal log writes \<open>emitted_at\<close> as a string; another value reads as no stamp\<close>
  "cooldown_failure c recent =
     (if jget recent ''ticker'' \<noteq> JStr (r_symbol (gc_request c)) then Inr None
      else (case action_of c of
        None \<Rightarrow> Inr None
      | Some action \<Rightarrow>
          if jget recent ''action'' \<noteq> JStr action then Inr None
          else (case (case jget recent ''emitted_at'' of JStr s \<Rightarrow> parse_stamp s | _ \<Rightarrow> None) of
            None \<Rightarrow> Inr None
          | Some stamp \<Rightarrow>
              rmap (\<lambda>us.
                let gap_h = pymax 0 (fdiv (total_seconds us) (Fin 3600)) in
                if gc_cooldown_hours c \<le> gap_h then None
                else reduce NMandate ''cooldown'' (r_requested_risk_pct (gc_request c)))
              (dt_diff_us (gc_now c) stamp))))"

definition sleeve_trades :: "GateContext \<Rightarrow> int" where
  "sleeve_trades c =
     (case map_of (b_sleeve_trades_today (gc_book c)) (r_sleeve (gc_request c)) of None \<Rightarrow> 0 | Some n \<Rightarrow> n)"

definition held_notional :: "GateContext \<Rightarrow> pyfloat" where
  "held_notional c = (case gc_positions_value_usd c of Some v \<Rightarrow> v | None \<Rightarrow> b_notional (gc_book c))"

definition mandate_caps :: "GateContext \<Rightarrow> Failure option res" where
  \<comment> \<open>the exposure, order and leverage caps and the cooldown of \<open>_mandate\<close>\<close>
  "mandate_caps c =
     (let req = gc_request c; md = gc_mandate c;
          held = held_notional c; projected = held + projected_notional req in
      if md_max_total_exposure_usd md < projected then
        (let adjusted = risk_to_fit c (md_max_total_exposure_usd md - held) in
         Inr (if adjusted \<le> 0 then block NMandate ''exposure_cap''
              else reduce NMandate ''exposure_cap'' adjusted))
      else if (case r_planned_notional_usd req of
                 Some planned \<Rightarrow> md_max_notional_per_order_usd md < planned | None \<Rightarrow> False) then
        (let adjusted = risk_to_fit c (md_max_notional_per_order_usd md) in
         Inr (if adjusted \<le> 0 then block NMandate ''order_cap''
              else reduce NMandate ''order_cap'' adjusted))
      else if cfg_leverage_cap (gc_config c) * b_equity (gc_book c) < projected
        then Inr (block NMandate ''leverage_cap'')
      else (case gc_last_signal c of
              Some recent \<Rightarrow> if gc_stage c = ''signal'' \<and> recent \<noteq> [] then cooldown_failure c recent
                           else Inr None
            | None \<Rightarrow> Inr None))"

definition gate_mandate :: "GateContext \<Rightarrow> Failure option res" where
  "gate_mandate c =
     (let req = gc_request c; md = gc_mandate c; book = gc_book c in
      if r_symbol req \<notin> set (md_allowed md) \<and> \<not> reduces_a_held_name c
        then Inr (block NMandate ''symbol'')
      else if is_expired md (gc_now c) then Inr (block NMandate ''expired'')
      else if implies_short req \<and> \<not> md_shorts md then Inr (block NMandate ''shorts'')
      else if 0 < md_max_daily_trades md \<and> md_max_daily_trades md \<le> sleeve_trades c
        then Inr (block NMandate ''daily_cap'')
      else if b_cash book < md_min_cash_reserve_usd md then Inr (block NMandate ''cash_reserve'')
      else if \<not> m_tradable (gc_market c) then Inr (block NMandate ''not_tradable'')
      else mandate_caps c)"

definition gate_sleeve_capital :: "GateContext \<Rightarrow> Failure option res" where
  "gate_sleeve_capital c =
     (let room = gc_sleeve_ceiling_pct c * b_equity (gc_book c)
                   - gc_sleeve_deployed_pct c * b_equity (gc_book c) in
      Inr (if room \<le> 0 then block NSleeveCapital ''sleeve_ceiling''
           else if room < projected_notional (gc_request c) then
             (let adjusted = risk_to_fit c room in
              if adjusted \<le> 0 then block NSleeveCapital ''no_room''
              else reduce NSleeveCapital ''sleeve_ceiling'' adjusted)
           else None))"

definition gate_house_drawdown :: "GateContext \<Rightarrow> Failure option res" where
  "gate_house_drawdown c =
     (let ladder = gc_ladder c in
      Inr (if l_halt ladder then block NHouseDrawdown ''halt''
           else if r_sleeve (gc_request c) = INTRADAY \<and> \<not> l_allow_new_intraday ladder
             then block NHouseDrawdown ''no_new_intraday''
           else if l_size_multiplier ladder < Fin 1
             then reduce NHouseDrawdown (l_reason ladder)
                    (r_requested_risk_pct (gc_request c) * l_size_multiplier ladder)
           else None))"

definition gate_house_cvar :: "GateContext \<Rightarrow> Failure option res" where
  "gate_house_cvar c =
     (if gc_stage c \<noteq> ''order'' then Inr None
      else if es_which (gc_es c) = EUnavailable \<or> es_window_days (gc_es c) \<le> 0
        then Inr (block NHouseCvar ''es_unavailable'')
      else (let budget = pymin (cfg_es_budget_house_pct (gc_config c)) (cfg_es_budget_sleeve_pct (gc_config c)) in
        Inr (if es_value_pct (gc_es c) + r_requested_risk_pct (gc_request c) \<le> budget then None
             else (let adjusted = pymax 0 (budget - es_value_pct (gc_es c)) in
                   if adjusted \<le> 0 then block NHouseCvar ''es_budget''
                   else reduce NHouseCvar ''es_budget'' adjusted))))"

definition gate_correlation_stress :: "GateContext \<Rightarrow> Failure option res" where
  "gate_correlation_stress c =
     (if gc_stage c \<noteq> ''order'' then Inr None
      else (let req = gc_request c;
                key = cluster_key (r_cluster req) (r_sector req) (r_symbol req);
                held = (case map_of (cluster_notional (gc_book c)) key of Some v \<Rightarrow> v | None \<Rightarrow> 0);
                cap = cfg_cluster_cap_pct (gc_config c) * gc_sleeve_ceiling_pct c * b_equity (gc_book c)
            in Inr (if cap < held + projected_notional req then block NCorrelationStress ''cluster_cap''
                    else None)))"

definition gate_vol_regime :: "GateContext \<Rightarrow> Failure option res" where
  "gate_vol_regime c =
     (let scalar = vs_scalar (gc_vol c) in
      Inr (if Fin 1 \<le> scalar \<or> \<not> vs_warmup_ok (gc_vol c) then None
           else (let adjusted = r_requested_risk_pct (gc_request c) * pymax 0 scalar in
                 if adjusted \<le> 0 then block NVolRegime ''vol_scalar_zero''
                 else reduce NVolRegime ''vol_above_target'' adjusted)))"

definition gate_market_regime :: "GateContext \<Rightarrow> Failure option res" where
  "gate_market_regime c =
     (let setup = str_upper (r_setup (gc_request c)); day_type = str_lower (str_or (gc_day_type c) []) in
      Inr (if setup \<notin> set TREND_SETUPS \<and> setup \<notin> set REVERSION_SETUPS then None
           else if day_type \<notin> {''trend'', ''range''} then block NMarketRegime ''day_type_unknown''
           else if setup \<in> set TREND_SETUPS \<and> day_type \<noteq> ''trend''
             then block NMarketRegime ''setup_regime''
           else if setup \<in> set REVERSION_SETUPS \<and> day_type \<noteq> ''range''
             then block NMarketRegime ''setup_regime''
           else None))"

definition gate_knife_guard :: "GateContext \<Rightarrow> Failure option res" where
  "gate_knife_guard c =
     (let setup = str_upper (r_setup (gc_request c)); m = gc_market c in
      Inr (if setup \<notin> set REVERSION_SETUPS then None
           else if m_news_shock m then block NKnifeGuard ''news_shock''
           else if (case m_reopen_cooldown_s m of Some s \<Rightarrow> s < REOPEN_COOLDOWN_S | None \<Rightarrow> False)
             then block NKnifeGuard ''reopen_cooldown''
           else if (case (m_impulse_pct m, atr_pct m) of
                      (Some impulse, Some a) \<Rightarrow> impulse \<le> Fin (- 2) * a | _ \<Rightarrow> False)
             then block NKnifeGuard ''adverse_impulse''
           else None))"

definition single_name_cap_pct :: "GateContext \<Rightarrow> pyfloat" where
  "single_name_cap_pct c =
     (if r_sleeve (gc_request c) = INTRADAY then cfg_max_single_name_pct_intraday (gc_config c)
      else cfg_max_single_name_pct_swing (gc_config c))"

definition name_exposure :: "GateContext \<Rightarrow> pyfloat" where
  \<comment> \<open>what the book already holds of the requested name\<close>
  "name_exposure c =
     \<bar>position_for (gc_book c) (r_symbol (gc_request c))\<bar> * notional_per_share (gc_request c)"

definition gate_concentration :: "GateContext \<Rightarrow> Failure option res" where
  "gate_concentration c =
     (if gc_stage c \<noteq> ''order'' then Inr None
      else (let req = gc_request c; cfg = gc_config c; book = gc_book c;
                existing = name_exposure c;
                cap = single_name_cap_pct c * b_equity book;
                max_positions = (if r_sleeve req = INTRADAY then cfg_max_positions_intraday cfg
                                 else cfg_max_positions_swing cfg)
            in Inr (
              if cap < existing + projected_notional req then
                (let adjusted = risk_to_fit c (cap - existing) in
                 if adjusted \<le> 0 then block NConcentration ''single_name_cap''
                 else reduce NConcentration ''single_name_cap'' adjusted)
              else if max_positions \<le> count_positions book (Some (r_sleeve req))
                      \<and> feq (position_for book (r_symbol req)) 0
                then block NConcentration ''max_positions''
              else if cfg_max_positions_swing cfg + cfg_max_positions_intraday cfg
                        \<le> count_positions book None
                then block NConcentration ''max_positions''
              else if r_sleeve req = INTRADAY \<and> 0 < cfg_intraday_max_trades_per_name cfg
                      \<and> cfg_intraday_max_trades_per_name cfg \<le> trades_for book (r_symbol req)
                then block NConcentration ''max_trades_per_name''
              else None)))"

definition SPREAD_MULTIPLE :: pyfloat where
  "SPREAD_MULTIPLE = Fin 3"

definition gate_liquidity :: "GateContext \<Rightarrow> Failure option res" where
  "gate_liquidity c =
     (let req = gc_request c; m = gc_market c;
          spread = (if spread_blown m SPREAD_MULTIPLE then block NLiquidity ''spread_blowout'' else None)
      in if gc_stage c \<noteq> ''order'' then Inr spread
         else if notional_per_share req \<le> 0 \<or> m_last m = None then Inr (block NLiquidity ''no_price'')
         else (case m_adv_shares m of
           None \<Rightarrow> Inr (block NLiquidity ''no_adv'')
         | Some adv \<Rightarrow>
             if adv \<le> 0 then Inr (block NLiquidity ''no_adv'')
             else (let shares = fdiv (projected_notional req) (notional_per_share req);
                       cap_shares = cfg_max_adv_pct (gc_config c) * adv
                   in if cap_shares < shares then
                        (let adjusted = risk_to_fit c (cap_shares * notional_per_share req) in
                         Inr (if adjusted \<le> 0 then block NLiquidity ''participation''
                              else reduce NLiquidity ''participation'' adjusted))
                      else Inr spread)))"

definition gate_cost :: "GateContext \<Rightarrow> Failure option res" where
  "gate_cost c =
     (if gc_stage c \<noteq> ''order'' then Inr None
      else (case r_measured_move_bps (gc_request c) of
        None \<Rightarrow> Inr (block NCost ''no_move'')
      | Some move \<Rightarrow>
          (let cost = (case r_round_trip_cost_bps (gc_request c) of
                         Some x \<Rightarrow> if truthy x then x else round_trip_cost_bps c
                       | None \<Rightarrow> round_trip_cost_bps c)
           in Inr (if cost \<le> 0 then block NCost ''no_cost''
                   else if move \<le> cfg_cost_gate_multiple (gc_config c) * cost
                     then block NCost ''cost_gate''
                   else None))))"

definition gate_wash :: "GateContext \<Rightarrow> Failure option res" where
  "gate_wash c =
     Inr (case gc_other_sleeve_side c of
            None \<Rightarrow> None
          | Some other \<Rightarrow>
              if other = r_side (gc_request c) \<or> gc_wash_nets c then None
              else block NWash ''self_cross'')"

definition gate_shortability :: "GateContext \<Rightarrow> Failure option res" where
  "gate_shortability c =
     Inr (if \<not> implies_short (gc_request c) then None
          else if \<not> md_shorts (gc_mandate c) then block NShortability ''shorts_off''
          else if \<not> m_shortable (gc_market c) then block NShortability ''not_etb''
          else if m_ssr (gc_market c) then block NShortability ''ssr''
          else None)"

subsection \<open>Producer invalidations\<close>

fun match_word :: "string \<Rightarrow> string \<Rightarrow> string option" where
  \<comment> \<open>a word at the head of the text, ignoring case; the rest of the text\<close>
  "match_word [] s = Some s"
| "match_word (w # ws) [] = None"
| "match_word (w # ws) (c # cs) = (if char_lower c = w then match_word ws cs else None)"

definition skip_space :: "string \<Rightarrow> string" where
  "skip_space = dropWhile is_space"

definition match_decimal :: "string \<Rightarrow> string option" where
  \<comment> \<open>\<open>[0-9]+(?:\.[0-9]+)?\<close> at the head of the text\<close>
  "match_decimal s =
     (let ds = takeWhile is_digit s; rest = dropWhile is_digit s in
      if ds = [] then None
      else (case rest of
              c # cs \<Rightarrow>
                (let fs = takeWhile is_digit cs in
                 if c = CHR ''.'' \<and> fs \<noteq> [] then Some (ds @ ''.'' @ fs) else Some ds)
            | [] \<Rightarrow> Some ds))"

definition match_breach :: "string \<Rightarrow> string option" where
  \<comment> \<open>\<open>_STOP_BREACH_RE\<close> at the head of the text\<close>
  "match_breach s =
     (case match_word ''price_stop_loss:'' s of
        None \<Rightarrow> None
      | Some s1 \<Rightarrow>
          (case match_word ''breach'' (skip_space s1) of
             None \<Rightarrow> None
           | Some s2 \<Rightarrow>
               (let s3 = skip_space s2;
                    s4 = (case match_word ''below'' s3 of
                            Some r \<Rightarrow> r
                          | None \<Rightarrow> (case match_word ''above'' s3 of Some r \<Rightarrow> r | None \<Rightarrow> s3))
                in match_decimal (skip_space s4))))"

fun search_breach :: "string \<Rightarrow> string option" where
  \<comment> \<open>\<open>_STOP_BREACH_RE.search\<close>: the captured level of the first match\<close>
  "search_breach [] = None"
| "search_breach (c # cs) =
     (case match_breach (c # cs) of Some level \<Rightarrow> Some level | None \<Rightarrow> search_breach cs)"

definition float_or_inf :: "string \<Rightarrow> pyfloat" where
  "float_or_inf text = (case float_of_text text of Some x \<Rightarrow> x | None \<Rightarrow> PInf)"

fun invalidation_failure :: "GateContext \<Rightarrow> string list \<Rightarrow> Failure option" where
  "invalidation_failure c [] = None"
| "invalidation_failure c (entry # rest) =
     (case (search_breach entry, m_last (gc_market c)) of
        (Some level, Some price) \<Rightarrow>
          if price \<le> float_or_inf level then block NData ''invalidation''
          else invalidation_failure c rest
      | _ \<Rightarrow>
          if gc_stage c = ''signal''
          then reduce NData ''invalidation_advisory'' (r_requested_risk_pct (gc_request c))
          else invalidation_failure c rest)"

definition UNUSABLE_CALIBERS :: "string list" where
  "UNUSABLE_CALIBERS = [[], ''unknown'', ''mixed'', ''unresolved'', ''n/a'', ''none'']"

definition stale :: "pyfloat option \<Rightarrow> pyfloat \<Rightarrow> bool" where
  "stale age limit = (case age of Some a \<Rightarrow> limit < a | None \<Rightarrow> False)"

definition data_tail :: "GateContext \<Rightarrow> Failure option" where
  \<comment> \<open>\<open>_data\<close> from the caliber on\<close>
  "data_tail c =
     (let risk = r_requested_risk_pct (gc_request c) in
      if str_lower (strip (str_or (m_price_caliber (gc_market c)) [])) \<in> set UNUSABLE_CALIBERS
        then soft c NData ''price_caliber'' risk
      else if (case gc_decision_age_days c of
                 Some d \<Rightarrow> gc_ingest_window_days c < Fin (of_int d) | None \<Rightarrow> False)
        then block NData ''ingest_window''
      else (case invalidation_failure c (gc_live_invalidations c) of
              Some f \<Rightarrow> Some f
            | None \<Rightarrow> if r_stop_price (gc_request c) = None then soft c NData ''no_stop'' risk else None))"

definition gate_data :: "GateContext \<Rightarrow> Failure option res" where
  "gate_data c =
     (let m = gc_market c; cfg = gc_config c; risk = r_requested_risk_pct (gc_request c);
          quality = str_lower (if m_data_quality m = [] then ''unknown'' else m_data_quality m)
      in Inr (if \<not> gc_reference_complete c then block NData ''reference_incomplete''
              else if quality = ''partial'' then soft c NData ''data_quality_partial'' risk
              else if quality \<noteq> ''fresh'' then block NData ''data_quality''
              else if gc_reference_stale c then soft c NData ''reference_stale'' risk
              else if stale (m_quote_age_s m) (cfg_max_quote_staleness_s cfg)
                then block NData ''stale_quote''
              else if stale (m_bar_age_s m) (cfg_max_bar_staleness_s cfg)
                then block NData ''stale_bar''
              else data_tail c))"

definition gate_time :: "GateContext \<Rightarrow> Failure option res" where
  "gate_time c =
     (let m = gc_market c; cfg = gc_config c; req = gc_request c in
      if m_halted m then Inr (block NHalt ''halted'')
      else if m_session m \<in> {None, Some ''closed''} then
        (if gc_stage c = ''signal''
         then Inr (reduce NTime ''market_closed'' (r_requested_risk_pct req))
         else Inr (block NTime ''session''))
      else if r_sleeve req \<noteq> INTRADAY then Inr None
      else rbind (parse_hhmm (cfg_intraday_entry_after cfg)) (\<lambda>after.
           rbind (parse_hhmm (cfg_intraday_entry_before cfg)) (\<lambda>until.
           rmap (\<lambda>flat_by.
             let at_time = time_of (gc_now c) in
             if at_time < after then block NTime ''too_early''
             else if until < at_time then
               (if flat_by < at_time then block NTime ''after_flat_by'' else block NTime ''too_late'')
             else if gc_time_gate_ok c = Some False then block NTime ''time_gate''
             else None)
             (parse_hhmm (cfg_intraday_flat_by cfg)))))"

definition gate_approval :: "GateContext \<Rightarrow> Failure option res" where
  "gate_approval c =
     (let notional = projected_notional (gc_request c);
          mode = str_lower (if md_approval_mode (gc_mandate c) = [] then ''manual''
                            else md_approval_mode (gc_mandate c));
          threshold = md_max_notional_per_order_usd (gc_mandate c)
                        * cfg_approval_threshold_factor (gc_config c)
      in Inr (if mode \<in> {''manual-high-order'', ''approval''} \<and> threshold \<le> notional
              then reduce NApproval ''approval_required'' (r_requested_risk_pct (gc_request c))
              else None))"

section \<open>The verdict\<close>

fun CHECKS :: "gate_name \<Rightarrow> (GateContext \<Rightarrow> Failure option res) option" where
  "CHECKS NMandate = Some gate_mandate"
| "CHECKS NSleeveCapital = Some gate_sleeve_capital"
| "CHECKS NHouseDrawdown = Some gate_house_drawdown"
| "CHECKS NHouseCvar = Some gate_house_cvar"
| "CHECKS NCorrelationStress = Some gate_correlation_stress"
| "CHECKS NVolRegime = Some gate_vol_regime"
| "CHECKS NMarketRegime = Some gate_market_regime"
| "CHECKS NKnifeGuard = Some gate_knife_guard"
| "CHECKS NConcentration = Some gate_concentration"
| "CHECKS NLiquidity = Some gate_liquidity"
| "CHECKS NCost = Some gate_cost"
| "CHECKS NWash = Some gate_wash"
| "CHECKS NShortability = Some gate_shortability"
| "CHECKS NData = Some gate_data"
| "CHECKS NTime = Some gate_time"
| "CHECKS NHalt = None"
| "CHECKS NApproval = Some gate_approval"

definition gate_check :: "GateContext \<Rightarrow> gate_name \<Rightarrow> Failure option" where
  \<comment> \<open>one iteration of the loop of \<open>evaluate\<close>: a check that raises is a block\<close>
  "gate_check c n =
     (case CHECKS n of
        None \<Rightarrow> None
      | Some check \<Rightarrow> (case check c of Inl _ \<Rightarrow> block n ''check_error'' | Inr f \<Rightarrow> f))"

fun gate_loop ::
  "GateContext \<Rightarrow> gate_name list \<Rightarrow> (gate_name \<times> Failure) list \<Rightarrow> (gate_name \<times> Failure) list" where
  "gate_loop c [] failures = failures"
| "gate_loop c (n # ns) failures =
     (case gate_check c n of
        None \<Rightarrow> gate_loop c ns failures
      | Some f \<Rightarrow> gate_loop c ns (AList.update n f failures))"

definition ordered_failures :: "GateContext \<Rightarrow> (gate_name \<times> Failure) list" where
  "ordered_failures c =
     (let failures = gate_loop c GATE_PRECEDENCE [] in
      List.map_filter (\<lambda>n. map_option (Pair n) (map_of failures n)) GATE_PRECEDENCE)"

datatype verdict = ALLOW | REDUCE | BLOCK

record GateSnapshot =
  gs_equity :: pyfloat
  gs_cash :: pyfloat
  gs_heat_pct :: pyfloat
  gs_es_975_1d_pct :: pyfloat
  gs_es_estimator :: es_estimator
  gs_es_flagged :: bool
  gs_drawdown_pct :: pyfloat
  gs_day_pnl_pct :: pyfloat
  gs_ladder_rung :: int
  gs_vol_scalar :: pyfloat
  gs_vol_applied :: bool
  gs_sleeve :: string
  gs_sleeve_deployed_pct :: pyfloat
  gs_sleeve_ceiling_pct :: pyfloat
  gs_projected_notional_usd :: pyfloat

definition gate_snapshot :: "GateContext \<Rightarrow> GateSnapshot" where
  "gate_snapshot c =
     \<lparr>gs_equity = round_to 2 (b_equity (gc_book c)), gs_cash = round_to 2 (b_cash (gc_book c)),
      gs_heat_pct = round_to 6 (b_heat_pct (gc_book c)),
      gs_es_975_1d_pct = round_to 6 (es_value_pct (gc_es c)),
      gs_es_estimator = es_which (gc_es c), gs_es_flagged = es_flagged (gc_es c),
      gs_drawdown_pct = round_to 6 (b_drawdown_pct (gc_book c)),
      gs_day_pnl_pct = round_to 6 (b_day_pnl_pct (gc_book c)),
      gs_ladder_rung = l_rung (gc_ladder c), gs_vol_scalar = round_to 4 (vs_scalar (gc_vol c)),
      gs_vol_applied = vs_applied (gc_vol c), gs_sleeve = r_sleeve (gc_request c),
      gs_sleeve_deployed_pct = round_to 6 (gc_sleeve_deployed_pct c),
      gs_sleeve_ceiling_pct = round_to 6 (gc_sleeve_ceiling_pct c),
      gs_projected_notional_usd = round_to 2 (projected_notional (gc_request c))\<rparr>"

record GateDecision =
  gd_verdict :: verdict
  gd_binding_gate :: "gate_name option"
  gd_state_snapshot :: GateSnapshot
  gd_decided_at :: datetime
  gd_adjusted_risk_pct :: "pyfloat option"
  gd_approval_required :: bool
  gd_permission_reason_code :: string
  gd_failures :: "Failure list"

definition py_min :: "pyfloat list \<Rightarrow> pyfloat res" where
  \<comment> \<open>\<open>min(xs)\<close>: an empty argument raises\<close>
  "py_min xs = (case xs of [] \<Rightarrow> Inl ValueError | x # rest \<Rightarrow> Inr (foldl pymin x rest))"

definition evaluate :: "GateContext \<Rightarrow> GateDecision res" where
  "evaluate c =
     (let ordered = map snd (ordered_failures c);
          blocks = filter (\<lambda>f. f_kind f = Block) ordered;
          reduces = filter (\<lambda>f. f_kind f = Reduce) ordered;
          (verdict, binding) =
            (case blocks of
               f # _ \<Rightarrow> (BLOCK, Some f)
             | [] \<Rightarrow> (case reduces of f # _ \<Rightarrow> (REDUCE, Some f) | [] \<Rightarrow> (ALLOW, None)))
      in rmap (\<lambda>adjusted.
           \<lparr>gd_verdict = verdict, gd_binding_gate = map_option f_check binding,
            gd_state_snapshot = gate_snapshot c, gd_decided_at = gc_now c,
            gd_adjusted_risk_pct = adjusted,
            gd_approval_required = list_ex (\<lambda>f. f_check f = NApproval) ordered,
            gd_permission_reason_code = (case binding of Some f \<Rightarrow> f_reason_code f | None \<Rightarrow> ''ok''),
            gd_failures = ordered\<rparr>)
         (if verdict = REDUCE
          then rmap Some (py_min (List.map_filter f_adjusted reduces)) else Inr None))"

definition allowed :: "GateDecision \<Rightarrow> bool" where
  "allowed d \<longleftrightarrow> gd_verdict d \<in> {ALLOW, REDUCE}"

section \<open>The loop is the table\<close>

lemma gate_loop_lookup:
  "map_of (gate_loop c ns failures) n =
     (if n \<in> set ns \<and> gate_check c n \<noteq> None then gate_check c n else map_of failures n)"
  by (induction ns arbitrary: failures) (auto simp: update_conv' split: option.splits)

lemma ordered_failures_eq:
  "ordered_failures c = List.map_filter (\<lambda>n. map_option (Pair n) (gate_check c n)) GATE_PRECEDENCE"
  by (auto simp: ordered_failures_def Let_def gate_loop_lookup List.map_filter_def
      intro!: map_cong filter_cong)

interpretation gate: check_table GATE_PRECEDENCE gate_check ordered_failures
  by unfold_locales (rule ordered_failures_eq)

lemma gate_name_listed [simp]: "n \<in> set GATE_PRECEDENCE"
  by (cases n) (simp_all add: GATE_PRECEDENCE_def)

lemma gate_failure_set: "set (ordered_failures c) = {(n, f). gate_check c n = Some f}"
  by (simp add: gate.report_set)

lemma failure_list_set: "f \<in> set (map snd (ordered_failures c)) \<longleftrightarrow> (\<exists>n. gate_check c n = Some f)"
  using gate_failure_set [of c] by force

section \<open>Well-formed failures\<close>

definition ladder_positive :: "GateContext \<Rightarrow> bool" where
  "ladder_positive c \<longleftrightarrow> l_halt (gc_ladder c) \<or> 0 < l_size_multiplier (gc_ladder c)"

definition risk_ok :: "GateContext \<Rightarrow> pyfloat \<Rightarrow> bool" where
  \<comment> \<open>a risk that is positive and not above a positive requested risk\<close>
  "risk_ok c a \<longleftrightarrow>
     (\<forall>r. r_requested_risk_pct (gc_request c) = Fin r \<and> 0 < r \<and> ladder_positive c \<longrightarrow> 0 < a \<and> a \<le> Fin r)"

definition sound_failure :: "GateContext \<Rightarrow> Failure option \<Rightarrow> bool" where
  \<comment> \<open>a reduction carries a risk\<close>
  "sound_failure c fo \<longleftrightarrow>
     (\<forall>f. fo = Some f \<and> f_kind f = Reduce \<longrightarrow> (\<exists>a. f_adjusted f = Some a \<and> risk_ok c a))"

lemma sound_failure_simps [simp]:
  "sound_failure c None" "sound_failure c (block n code)"
  "sound_failure c (soft c n code (r_requested_risk_pct (gc_request c)))"
  "sound_failure c (reduce n code (r_requested_risk_pct (gc_request c)))"
  by (auto simp: sound_failure_def block_def soft_def reduce_def risk_ok_def)

lemma sound_reduce: "risk_ok c a \<Longrightarrow> sound_failure c (reduce n code a)"
  by (auto simp: sound_failure_def reduce_def)

lemma risk_to_fit_le:
  assumes "r_requested_risk_pct (gc_request c) = Fin r" "0 < r"
  shows "risk_to_fit c room \<le> Fin r" "\<exists>x. risk_to_fit c room = Fin x"
proof -
  have "pymax 0 (pymin (Fin r) x) \<le> Fin r" "\<exists>y. pymax 0 (pymin (Fin r) x) = Fin y" for x
    using assms(2) by (cases x; auto simp: pymin_def pymax_def fp_simps)+
  with assms show "risk_to_fit c room \<le> Fin r" "\<exists>x. risk_to_fit c room = Fin x"
    by (simp_all add: risk_to_fit_def Let_def fp_simps(1))
qed

lemma sound_risk_to_fit [simp]:
  "\<not> risk_to_fit c room \<le> 0 \<Longrightarrow> sound_failure c (reduce n code (risk_to_fit c room))"
  using risk_to_fit_le [of c _ room] by (intro sound_reduce) (fastforce simp: risk_ok_def)

lemma sound_if: "(P \<Longrightarrow> sound_failure c a) \<Longrightarrow> (\<not> P \<Longrightarrow> sound_failure c b) \<Longrightarrow> sound_failure c (if P then a else b)"
  by simp

definition sound_check :: "GateContext \<Rightarrow> Failure option res \<Rightarrow> bool" where
  "sound_check c r \<longleftrightarrow> (\<forall>fo. r = Inr fo \<longrightarrow> sound_failure c fo)"

lemma sound_check_simps [simp]:
  "sound_check c (Inl e)" "sound_check c (Inr fo) \<longleftrightarrow> sound_failure c fo"
  by (simp_all add: sound_check_def)

lemma sound_check_rbind: "(\<And>x. sound_check c (f x)) \<Longrightarrow> sound_check c (rbind r f)"
  by (cases r) simp_all

lemma sound_check_rmap: "(\<And>x. sound_failure c (f x)) \<Longrightarrow> sound_check c (rmap f r)"
  by (cases r) simp_all

lemma sound_cooldown: "sound_check c (cooldown_failure c recent)"
  unfolding cooldown_failure_def
  by (auto simp: Let_def split: option.split intro!: sound_check_rmap)

lemma sound_mandate: "sound_check c (gate_mandate c)"
  unfolding gate_mandate_def mandate_caps_def Let_def
  by (simp add: sound_cooldown split: option.split)

lemma sound_sleeve_capital: "sound_check c (gate_sleeve_capital c)"
  by (simp add: gate_sleeve_capital_def Let_def)

lemma sound_house_drawdown: "sound_check c (gate_house_drawdown c)"
proof -
  have "0 < Fin r * m \<and> Fin r * m \<le> Fin r" if "m < Fin 1" "0 < r" "0 < m" for r m
    using that by (cases m) (auto simp: mult_less_cancel_left1 fp_simps)
  then show ?thesis
    by (auto simp: gate_house_drawdown_def Let_def risk_ok_def ladder_positive_def intro!: sound_reduce)
qed

lemma sound_house_cvar: "sound_check c (gate_house_cvar c)"
proof -
  have "0 < pymax 0 (b - es) \<and> pymax 0 (b - es) \<le> Fin r"
    if "\<not> es + Fin r \<le> b" "0 < r" "\<not> pymax 0 (b - es) \<le> 0" for b es r
    using that by (cases b; cases es) (auto simp: pymax_def fp_simps minus_pyfloat_def split: if_splits)
  then show ?thesis
    by (auto simp: gate_house_cvar_def Let_def risk_ok_def intro!: sound_reduce)
qed

lemma sound_vol_regime: "sound_check c (gate_vol_regime c)"
proof -
  have "0 < Fin r * pymax 0 s \<and> Fin r * pymax 0 s \<le> Fin r"
    if "\<not> Fin 1 \<le> s" "0 < r" "\<not> Fin r * pymax 0 s \<le> 0" for r s
    using that by (cases s) (auto simp: pymax_def fp_simps mult_le_cancel_left1 split: if_splits)
  then show ?thesis
    by (auto simp: gate_vol_regime_def Let_def risk_ok_def intro!: sound_reduce)
qed

lemma sound_concentration: "sound_check c (gate_concentration c)"
  by (simp add: gate_concentration_def Let_def)

lemma sound_liquidity: "sound_check c (gate_liquidity c)"
  by (simp add: gate_liquidity_def Let_def split: option.split)

lemma sound_invalidation: "sound_failure c (invalidation_failure c xs)"
  by (induction xs) (auto split: option.split)

lemma sound_data: "sound_check c (gate_data c)"
  using sound_invalidation [of c "gc_live_invalidations c"]
  by (auto simp: gate_data_def data_tail_def Let_def split: option.split)

lemma sound_time: "sound_check c (gate_time c)"
  unfolding gate_time_def Let_def
  by (auto intro!: sound_check_rbind sound_check_rmap)

lemma sound_rest:
  "sound_check c (gate_correlation_stress c)" "sound_check c (gate_market_regime c)"
  "sound_check c (gate_knife_guard c)" "sound_check c (gate_cost c)" "sound_check c (gate_wash c)"
  "sound_check c (gate_shortability c)" "sound_check c (gate_approval c)"
  by (simp_all add: gate_correlation_stress_def gate_market_regime_def gate_knife_guard_def
      gate_cost_def gate_wash_def gate_shortability_def gate_approval_def Let_def split: option.split)

lemmas sound_checks = sound_mandate sound_sleeve_capital sound_house_drawdown sound_house_cvar
  sound_vol_regime sound_concentration sound_liquidity sound_data sound_time sound_rest

lemma gate_check_sound: "sound_failure c (gate_check c n)"
proof -
  have "CHECKS n = Some check \<Longrightarrow> sound_check c (check c)" for check
    by (cases n) (auto simp: sound_checks)
  then show ?thesis by (auto simp: gate_check_def sound_check_def split: option.splits sum.splits)
qed

section \<open>The decision\<close>

definition blocked_by :: "GateContext \<Rightarrow> gate_name \<Rightarrow> bool" where
  "blocked_by c n \<longleftrightarrow> (\<exists>f. gate_check c n = Some f \<and> f_kind f = Block)"

definition reduced_by :: "GateContext \<Rightarrow> gate_name \<Rightarrow> pyfloat \<Rightarrow> bool" where
  "reduced_by c n a \<longleftrightarrow> (\<exists>f. gate_check c n = Some f \<and> f_kind f = Reduce \<and> f_adjusted f = Some a)"

lemma gate_check_cases: "gate_check c n = None \<or> blocked_by c n \<or> (\<exists>a. reduced_by c n a)"
proof (cases "gate_check c n")
  case (Some f)
  then show ?thesis using gate_check_sound [of c n]
    by (cases "f_kind f") (auto simp: blocked_by_def reduced_by_def sound_failure_def)
qed simp

lemma reduced_by_le:
  "reduced_by c n a \<Longrightarrow> r_requested_risk_pct (gc_request c) = Fin r \<Longrightarrow> 0 < r
     \<Longrightarrow> ladder_positive c \<Longrightarrow> 0 < a \<and> a \<le> Fin r"
  using gate_check_sound [of c n] by (auto simp: reduced_by_def sound_failure_def risk_ok_def)

lemma foldl_pymin_le:
  assumes "\<forall>y \<in> set (x # xs). y \<le> Fin r"
  shows "foldl pymin x xs \<in> set (x # xs) \<and> (\<forall>y \<in> set (x # xs). foldl pymin x xs \<le> y)"
  using assms
proof (induction xs arbitrary: x)
  case Nil
  then show ?case by (cases x) auto
next
  case (Cons y xs)
  have "\<forall>z \<in> set (pymin x y # xs). z \<le> Fin r" using Cons.prems by (auto simp: pymin_def)
  note IH = Cons.IH [OF this]
  have "pymin x y \<le> x \<and> pymin x y \<le> y" using Cons.prems by (cases x; cases y) (auto simp: pymin_def)
  moreover have trans: "a \<le> b \<Longrightarrow> b \<le> d \<Longrightarrow> a \<le> d" for a b d :: pyfloat
    by (cases a; cases b; cases d) auto
  ultimately show ?case using IH by (auto simp: pymin_def split: if_splits)
qed

lemma adjusted_list:
  "set (List.map_filter f_adjusted (filter (\<lambda>f. f_kind f = Reduce) (map snd (ordered_failures c))))
     = {a. \<exists>n. reduced_by c n a}"
  using failure_list_set [of _ c]
  by (fastforce simp: reduced_by_def List.map_filter_def image_iff)

lemma evaluate_cases:
  obtains (Blocked) d n where "evaluate c = Inr d" "gd_verdict d = BLOCK" "blocked_by c n"
      "gd_adjusted_risk_pct d = None"
  | (Reduced) d xs a where "evaluate c = Inr d" "gd_verdict d = REDUCE" "\<forall>n. \<not> blocked_by c n"
      "set (a # xs) = {a. \<exists>n. reduced_by c n a}" "gd_adjusted_risk_pct d = Some (foldl pymin a xs)"
  | (Allowed) d where "evaluate c = Inr d" "gd_verdict d = ALLOW" "\<forall>n. gate_check c n = None"
      "gd_adjusted_risk_pct d = None"
proof -
  define ordered where "ordered = map snd (ordered_failures c)"
  define blocks where "blocks = filter (\<lambda>f. f_kind f = Block) ordered"
  define reduces where "reduces = filter (\<lambda>f. f_kind f = Reduce) ordered"
  note ev = evaluate_def [of c, unfolded Let_def, folded ordered_def, folded blocks_def reduces_def]
  have os: "f \<in> set ordered \<longleftrightarrow> (\<exists>n. gate_check c n = Some f)" for f
    unfolding ordered_def by (rule failure_list_set)
  have "blocks = [] \<longleftrightarrow> (\<forall>f. f \<in> set ordered \<longrightarrow> f_kind f \<noteq> Block)"
    by (auto simp: blocks_def filter_empty_conv)
  then have bl: "blocks = [] \<longleftrightarrow> (\<forall>n. \<not> blocked_by c n)"
    unfolding os blocked_by_def by blast
  have adj: "set (List.map_filter f_adjusted reduces) = {a. \<exists>n. reduced_by c n a}"
    using adjusted_list by (simp add: reduces_def ordered_def)
  show thesis
  proof (cases blocks)
    case (Cons f fs)
    with bl obtain n where "blocked_by c n" by auto
    with Cons show thesis by (intro Blocked [of _ n], simp add: ev) simp_all
  next
    case Nil
    then have nb: "\<forall>n. \<not> blocked_by c n" using bl by simp
    show thesis
    proof (cases reduces)
      case rd: Nil
      have "gate_check c n = None" for n
        using gate_check_cases [of c n] nb adj rd by (auto simp: List.map_filter_def)
      with Nil rd show thesis by (intro Allowed, simp add: ev) simp_all
    next
      case rd: (Cons f fs)
      then have "f \<in> set ordered" "f_kind f = Reduce" by (auto simp: reduces_def filter_eq_Cons_iff)
      then obtain n where "gate_check c n = Some f" using failure_list_set by (auto simp: ordered_def)
      with \<open>f_kind f = Reduce\<close> gate_check_sound [of c n] obtain a0 where "f_adjusted f = Some a0"
        by (auto simp: sound_failure_def)
      with rd obtain a xs where ax: "List.map_filter f_adjusted reduces = a # xs"
        by (simp add: List.map_filter_simps)
      with adj have "set (a # xs) = {a. \<exists>n. reduced_by c n a}" by simp
      with Nil rd ax nb show thesis by (intro Reduced, simp add: ev py_min_def) simp_all
    qed
  qed
qed

lemma first_failure:
  "(case filter (\<lambda>f. P (f_kind f)) (map snd (ordered_failures c)) of [] \<Rightarrow> None | f # _ \<Rightarrow> Some f)
     = (case List.find (\<lambda>n. \<exists>f. gate_check c n = Some f \<and> P (f_kind f)) GATE_PRECEDENCE of
          None \<Rightarrow> None | Some n \<Rightarrow> gate_check c n)"
proof -
  have "(case filter (\<lambda>f. P (f_kind f)) (map snd (List.map_filter (\<lambda>n. map_option (Pair n) (gate_check c n)) ns)) of
           [] \<Rightarrow> None | f # _ \<Rightarrow> Some f)
     = (case List.find (\<lambda>n. \<exists>f. gate_check c n = Some f \<and> P (f_kind f)) ns of
          None \<Rightarrow> None | Some n \<Rightarrow> gate_check c n)" for ns
    by (induction ns) (auto simp: List.map_filter_simps split: option.splits)
  then show ?thesis unfolding ordered_failures_eq .
qed

lemma evaluate_binding:
  assumes "evaluate c = Inr d"
  shows "gd_failures d = map snd (ordered_failures c)
    \<and> gd_binding_gate d =
      (case (if gd_verdict d = BLOCK then List.find (blocked_by c) GATE_PRECEDENCE
             else List.find (\<lambda>n. gate_check c n \<noteq> None) GATE_PRECEDENCE) of
         None \<Rightarrow> None | Some n \<Rightarrow> map_option f_check (gate_check c n))
    \<and> (gd_approval_required d \<longleftrightarrow> (\<exists>n f. gate_check c n = Some f \<and> f_check f = NApproval))"
proof -
  define ordered where "ordered = map snd (ordered_failures c)"
  define blocks where "blocks = filter (\<lambda>f. f_kind f = Block) ordered"
  define reduces where "reduces = filter (\<lambda>f. f_kind f = Reduce) ordered"
  note ev = evaluate_def [of c, unfolded Let_def, folded ordered_def, folded blocks_def reduces_def]
  have b: "(case blocks of [] \<Rightarrow> None | f # _ \<Rightarrow> Some f)
      = (case List.find (blocked_by c) GATE_PRECEDENCE of None \<Rightarrow> None | Some n \<Rightarrow> gate_check c n)"
    using first_failure [of "\<lambda>k. k = Block" c] by (simp add: blocks_def ordered_def blocked_by_def [abs_def])
  have r: "(case ordered of [] \<Rightarrow> None | f # _ \<Rightarrow> Some f)
      = (case List.find (\<lambda>n. gate_check c n \<noteq> None) GATE_PRECEDENCE of None \<Rightarrow> None | Some n \<Rightarrow> gate_check c n)"
    using first_failure [of "\<lambda>k. True" c] by (simp add: ordered_def)
  have all: "blocks = [] \<Longrightarrow> reduces = ordered"
    by (auto simp: blocks_def reduces_def filter_empty_conv filter_id_conv) (metis kind.exhaust)
  have head: "gd_binding_gate d = map_option f_check (case blocks of f # _ \<Rightarrow> Some f
      | [] \<Rightarrow> (case reduces of f # _ \<Rightarrow> Some f | [] \<Rightarrow> None))"
    "gd_verdict d = BLOCK \<longleftrightarrow> blocks \<noteq> []" "gd_failures d = ordered"
    "gd_approval_required d = list_ex (\<lambda>f. f_check f = NApproval) ordered"
    using assms by (auto simp: ev rmap_Inr_iff split: list.splits prod.splits)
  have flat: "(case (case x of None \<Rightarrow> None | Some n \<Rightarrow> gate_check c n) of None \<Rightarrow> None | Some f \<Rightarrow> Some (f_check f))
      = (case x of None \<Rightarrow> None | Some n \<Rightarrow> map_option f_check (gate_check c n))" for x
    by (simp add: map_option_case split: option.split)
  have "gd_binding_gate d =
      (case (if gd_verdict d = BLOCK then List.find (blocked_by c) GATE_PRECEDENCE
             else List.find (\<lambda>n. gate_check c n \<noteq> None) GATE_PRECEDENCE) of
         None \<Rightarrow> None | Some n \<Rightarrow> map_option f_check (gate_check c n))"
  proof (cases blocks)
    case Nil
    then show ?thesis using r head(1,2) all by (auto simp: flat [symmetric] split: list.splits option.splits)
  next
    case (Cons f fs)
    then show ?thesis using b head(1,2) by (auto simp: flat [symmetric] split: option.splits)
  qed
  moreover have "gd_approval_required d \<longleftrightarrow> (\<exists>n f. gate_check c n = Some f \<and> f_check f = NApproval)"
    unfolding head(4) list_ex_iff ordered_def using failure_list_set [of _ c] by blast
  ultimately show ?thesis using head(3) by (simp add: ordered_def)
qed

text \<open>The order a gate decision permits: the adjusted risk where there is one.\<close>

definition permitted_risk :: "GateContext \<Rightarrow> GateDecision \<Rightarrow> pyfloat" where
  "permitted_risk c d =
     (case gd_adjusted_risk_pct d of Some a \<Rightarrow> a | None \<Rightarrow> r_requested_risk_pct (gc_request c))"

lemma evaluate_permits:
  assumes "evaluate c = Inr d" "allowed d" "r_requested_risk_pct (gc_request c) = Fin r" "0 < r"
    "ladder_positive c"
  shows "\<not> blocked_by c n \<and> 0 < permitted_risk c d \<and> permitted_risk c d \<le> Fin r
    \<and> (\<forall>a. reduced_by c n a \<longrightarrow> permitted_risk c d \<le> a)
    \<and> (gd_verdict d = REDUCE \<longrightarrow> (\<exists>m. reduced_by c m (permitted_risk c d)))
    \<and> (gd_verdict d = ALLOW \<longrightarrow> gate_check c n = None)"
proof (cases rule: evaluate_cases [of c])
  case (Blocked d' n)
  with assms show ?thesis by (simp add: allowed_def)
next
  case (Reduced d' xs a)
  have "\<forall>y \<in> set (a # xs). y \<le> Fin r" using Reduced(4) reduced_by_le [OF _ assms(3-5)] by auto
  note m = foldl_pymin_le [OF this]
  have "permitted_risk c d = foldl pymin a xs" using Reduced assms(1) by (simp add: permitted_risk_def)
  then have pr: "permitted_risk c d \<in> {a. \<exists>n. reduced_by c n a}"
      "\<forall>y \<in> {a. \<exists>n. reduced_by c n a}. permitted_risk c d \<le> y"
    using m unfolding Reduced(4) by simp_all
  have "d = d'" using Reduced(1) assms(1) by simp
  moreover from pr(1) reduced_by_le [OF _ assms(3-5)]
  have "0 < permitted_risk c d \<and> permitted_risk c d \<le> Fin r" by blast
  ultimately show ?thesis using pr Reduced(2,3) by auto
next
  case (Allowed d')
  with assms show ?thesis
    by (auto simp: permitted_risk_def blocked_by_def reduced_by_def)
qed

lemma evaluate_total: "\<exists>d. evaluate c = Inr d"
  by (cases rule: evaluate_cases [of c]) auto

section \<open>What each check lets through\<close>

lemma blocked_by_simps:
  "CHECKS n = Some check \<Longrightarrow> check c = Inr fo \<Longrightarrow>
     \<not> blocked_by c n \<longleftrightarrow> (\<forall>f. fo = Some f \<longrightarrow> f_kind f \<noteq> Block)"
  by (auto simp: blocked_by_def gate_check_def)

lemma not_blocked:
  assumes "\<not> blocked_by c n" "CHECKS n = Some check"
  obtains (Passes) "check c = Inr None"
  | (Reduces) f a where "check c = Inr (Some f)" "f_kind f = Reduce" "f_adjusted f = Some a" "reduced_by c n a"
proof (cases "check c")
  case (Inl e)
  with assms show thesis by (auto simp: blocked_by_def gate_check_def block_def)
next
  case (Inr fo)
  then have g: "gate_check c n = fo" using assms(2) by (simp add: gate_check_def)
  show thesis
  proof (cases fo)
    case None
    with Inr Passes show thesis by simp
  next
    case (Some f)
    with g assms(1) have "f_kind f = Reduce" by (cases "f_kind f") (auto simp: blocked_by_def)
    with g Some gate_check_sound [of c n] obtain a where "f_adjusted f = Some a"
      by (auto simp: sound_failure_def)
    with Some Inr g \<open>f_kind f = Reduce\<close> Reduces show thesis by (auto simp: reduced_by_def)
  qed
qed

lemma block_simps [simp]:
  "block n code \<noteq> None"
  "block n code = Some f \<longleftrightarrow> f = \<lparr>f_check = n, f_kind = Block, f_reason_code = code, f_adjusted = None\<rparr>"
  "reduce n code a = Some f \<longleftrightarrow> f = \<lparr>f_check = n, f_kind = Reduce, f_reason_code = code, f_adjusted = Some a\<rparr>"
  "reduce n code a \<noteq> None"
  by (auto simp: block_def reduce_def)

section \<open>The permitted risk fits every cap\<close>

definition sized :: "GateContext \<Rightarrow> real \<Rightarrow> real \<Rightarrow> bool" where
  \<comment> \<open>an order-stage request of risk \<open>r\<close> without a planned notional, whose notional is \<open>k\<close> per unit
     of risk\<close>
  "sized c r k \<longleftrightarrow> gc_stage c = ''order'' \<and> r_planned_notional_usd (gc_request c) = None
     \<and> r_requested_risk_pct (gc_request c) = Fin r \<and> 0 < r \<and> 0 < k
     \<and> (\<exists>e p s. r_equity (gc_request c) = Fin e \<and> r_price (gc_request c) = Fin p
          \<and> r_stop_distance (gc_request c) = Fin s \<and> 0 < s \<and> p \<noteq> 0 \<and> k = e * \<bar>p\<bar> / s)"

lemma sized_projection:
  assumes "sized c r k"
  shows "projected_notional (gc_request c) = Fin (r * k)"
    "projected_notional_per_risk (gc_request c) = Fin k"
  using assms
  by (auto simp: sized_def projected_notional_def projected_notional_per_risk_def
      notional_per_share_def)

lemma risk_to_fit_room:
  assumes "sized c r k" "\<not> risk_to_fit c (Fin room) \<le> 0"
  shows "\<exists>a. risk_to_fit c (Fin room) = Fin a \<and> a * k \<le> room"
proof -
  have k: "0 < k" "r_requested_risk_pct (gc_request c) = Fin r" using assms(1) by (simp_all add: sized_def)
  with assms(2) have "0 < room" by (auto simp: risk_to_fit_def split: if_splits)
  then have fit: "risk_to_fit c (Fin room) = Fin (max 0 (min r (room / k)))"
    using k by (simp add: risk_to_fit_def sized_projection(2) [OF assms(1)] fp_simps)
  have "max 0 (min r (room / k)) * k \<le> (room / k) * k"
    using k \<open>0 < room\<close> by (intro mult_right_mono) auto
  with fit k show ?thesis by simp
qed

text \<open>One shape covers every check with a room: over the cap it shrinks to the room or blocks.\<close>

lemma fits_cap:
  assumes "sized c r k" "\<not> blocked_by c n"
    and over: "cap < held + r * k \<Longrightarrow> blocked_by c n
      \<or> \<not> risk_to_fit c (Fin (cap - held)) \<le> 0 \<and> reduced_by c n (risk_to_fit c (Fin (cap - held)))"
    and x: "x \<le> r" "\<forall>a. reduced_by c n a \<longrightarrow> Fin x \<le> a"
  shows "held + x * k \<le> cap"
proof (cases "cap < held + r * k")
  case False
  have "x * k \<le> r * k" using x(1) assms(1) by (intro mult_right_mono) (auto simp: sized_def)
  with False show ?thesis by simp
next
  case True
  from over [OF True] assms(2) have pos: "\<not> risk_to_fit c (Fin (cap - held)) \<le> 0"
    and red: "reduced_by c n (risk_to_fit c (Fin (cap - held)))" by blast+
  from risk_to_fit_room [OF assms(1) pos] x(2) red obtain a where a: "x \<le> a" "a * k \<le> cap - held"
    by fastforce
  have "x * k \<le> a * k" using a(1) assms(1) by (intro mult_right_mono) (auto simp: sized_def)
  with a(2) show ?thesis by simp
qed

lemma over_cap:
  assumes "gate_check c n = (if a \<le> 0 then block n code else reduce n code' a)"
  shows "blocked_by c n \<or> \<not> a \<le> 0 \<and> reduced_by c n a"
  using assms by (auto simp: blocked_by_def reduced_by_def)

lemma mandate_guards:
  "\<not> blocked_by c NMandate \<Longrightarrow>
     gate_mandate c = mandate_caps c \<and> (r_symbol (gc_request c) \<in> set (md_allowed (gc_mandate c)) \<or> reduces_a_held_name c)
     \<and> \<not> is_expired (gc_mandate c) (gc_now c)
     \<and> (implies_short (gc_request c) \<longrightarrow> md_shorts (gc_mandate c))
     \<and> (0 < md_max_daily_trades (gc_mandate c) \<longrightarrow> sleeve_trades c < md_max_daily_trades (gc_mandate c))
     \<and> \<not> b_cash (gc_book c) < md_min_cash_reserve_usd (gc_mandate c)
     \<and> m_tradable (gc_market c)"
  by (auto simp: gate_mandate_def blocked_by_def gate_check_def Let_def split: if_splits)

lemma fits_exposure:
  assumes "sized c r k" "\<not> blocked_by c NMandate" "x \<le> r" "\<forall>a. reduced_by c NMandate a \<longrightarrow> Fin x \<le> a"
    "held_notional c = Fin h" "md_max_total_exposure_usd (gc_mandate c) = Fin cap"
  shows "h + x * k \<le> cap"
proof (rule fits_cap [OF assms(1,2) over_cap assms(3,4)])
  show "cap < h + r * k \<Longrightarrow> gate_check c NMandate =
      (if risk_to_fit c (Fin (cap - h)) \<le> 0 then block NMandate ''exposure_cap''
       else reduce NMandate ''exposure_cap'' (risk_to_fit c (Fin (cap - h))))"
    using mandate_guards [OF assms(2)]
    by (simp add: gate_check_def mandate_caps_def assms(5,6) sized_projection(1) [OF assms(1)])
qed

lemma fits_sleeve:
  assumes "sized c r k" "\<not> blocked_by c NSleeveCapital" "x \<le> r"
    "\<forall>a. reduced_by c NSleeveCapital a \<longrightarrow> Fin x \<le> a"
    "gc_sleeve_ceiling_pct c = Fin ceil" "gc_sleeve_deployed_pct c = Fin dep" "b_equity (gc_book c) = Fin e"
  shows "dep * e + x * k \<le> ceil * e"
proof (rule fits_cap [OF assms(1,2) _ assms(3,4)])
  assume over: "ceil * e < dep * e + r * k"
  have pos: "0 < ceil * e - dep * e"
    using assms(2) by (auto simp: gate_sleeve_capital_def assms(5-7) blocked_by_def gate_check_def not_le
        Let_def split: if_splits)
  with over have "gate_check c NSleeveCapital =
      (if risk_to_fit c (Fin (ceil * e - dep * e)) \<le> 0 then block NSleeveCapital ''no_room''
       else reduce NSleeveCapital ''sleeve_ceiling'' (risk_to_fit c (Fin (ceil * e - dep * e))))"
    by (simp add: gate_check_def gate_sleeve_capital_def assms(5-7) Let_def
        sized_projection(1) [OF assms(1)])
  then show "blocked_by c NSleeveCapital \<or> \<not> risk_to_fit c (Fin (ceil * e - dep * e)) \<le> 0
      \<and> reduced_by c NSleeveCapital (risk_to_fit c (Fin (ceil * e - dep * e)))"
    by (rule over_cap)
qed

lemma fits_single_name:
  assumes "sized c r k" "\<not> blocked_by c NConcentration" "x \<le> r"
    "\<forall>a. reduced_by c NConcentration a \<longrightarrow> Fin x \<le> a"
    "name_exposure c = Fin ex" "single_name_cap_pct c = Fin pct" "b_equity (gc_book c) = Fin e"
  shows "ex + x * k \<le> pct * e"
proof (rule fits_cap [OF assms(1,2) over_cap assms(3,4)])
  show "pct * e < ex + r * k \<Longrightarrow> gate_check c NConcentration =
      (if risk_to_fit c (Fin (pct * e - ex)) \<le> 0 then block NConcentration ''single_name_cap''
       else reduce NConcentration ''single_name_cap'' (risk_to_fit c (Fin (pct * e - ex))))"
    using assms(1)
    by (simp add: gate_check_def gate_concentration_def assms(5-7) Let_def sized_def
        sized_projection(1) [OF assms(1)])
qed

lemma fits_participation:
  assumes "sized c r k" "\<not> blocked_by c NLiquidity" "x \<le> r"
    "\<forall>a. reduced_by c NLiquidity a \<longrightarrow> Fin x \<le> a"
    "m_adv_shares (gc_market c) = Some (Fin adv)" "cfg_max_adv_pct (gc_config c) = Fin pct"
    "r_price (gc_request c) = Fin p"
  shows "x * k \<le> pct * adv * \<bar>p\<bar>"
proof -
  have p: "p \<noteq> 0" "gc_stage c = ''order''" using assms(1,7) by (auto simp: sized_def)
  then have nps: "notional_per_share (gc_request c) = Fin \<bar>p\<bar>" "\<not> \<bar>p\<bar> \<le> 0"
    by (simp_all add: notional_per_share_def assms(7))
  have usable: "m_last (gc_market c) \<noteq> None" "0 < adv"
    using assms(2) p nps by (auto simp: gate_liquidity_def assms(5) blocked_by_def gate_check_def not_le
        Let_def split: if_splits)
  have "0 + x * k \<le> pct * adv * \<bar>p\<bar>"
  proof (rule fits_cap [OF assms(1,2) over_cap assms(3,4)])
    assume "pct * adv * \<bar>p\<bar> < 0 + r * k"
    then have "pct * adv < r * k / \<bar>p\<bar>" using p by (simp add: less_divide_eq)
    then show "gate_check c NLiquidity =
      (if risk_to_fit c (Fin (pct * adv * \<bar>p\<bar> - 0)) \<le> 0 then block NLiquidity ''participation''
       else reduce NLiquidity ''participation'' (risk_to_fit c (Fin (pct * adv * \<bar>p\<bar> - 0))))"
      using p nps usable
      by (auto simp: gate_check_def gate_liquidity_def assms(5,6) Let_def
          sized_projection(1) [OF assms(1)])
  qed
  then show ?thesis by simp
qed

lemma fits_es_budget:
  assumes "sized c r k" "\<not> blocked_by c NHouseCvar" "x \<le> r" "\<forall>a. reduced_by c NHouseCvar a \<longrightarrow> Fin x \<le> a"
    "es_value_pct (gc_es c) = Fin es" "cfg_es_budget_house_pct (gc_config c) = Fin bh"
    "cfg_es_budget_sleeve_pct (gc_config c) = Fin bs"
  shows "es + x \<le> min bh bs \<and> es_which (gc_es c) \<noteq> EUnavailable"
proof -
  have st: "gc_stage c = ''order''" "r_requested_risk_pct (gc_request c) = Fin r"
    using assms(1) by (auto simp: sized_def)
  have avail: "es_which (gc_es c) \<noteq> EUnavailable" "\<not> es_window_days (gc_es c) \<le> 0"
    using assms(2) st by (auto simp: gate_house_cvar_def blocked_by_def gate_check_def)
  show ?thesis
  proof (cases "es + r \<le> min bh bs")
    case True
    with assms(3) avail show ?thesis by linarith
  next
    case False
    then have g: "gate_check c NHouseCvar =
        (if Fin (max 0 (min bh bs - es)) \<le> 0 then block NHouseCvar ''es_budget''
         else reduce NHouseCvar ''es_budget'' (Fin (max 0 (min bh bs - es))))"
      using st avail by (auto simp: gate_check_def gate_house_cvar_def assms(5-7) fp_simps Let_def)
    from over_cap [OF g] assms(2,4) have "0 < max 0 (min bh bs - es)" "x \<le> max 0 (min bh bs - es)"
      by (auto simp: fp_simps)
    with avail show ?thesis by linarith
  qed
qed

section \<open>Facts of an order that no check blocks\<close>

lemma drawdown_guards:
  "\<not> blocked_by c NHouseDrawdown \<Longrightarrow> \<not> l_halt (gc_ladder c)
     \<and> (r_sleeve (gc_request c) = INTRADAY \<longrightarrow> l_allow_new_intraday (gc_ladder c))"
  by (auto simp: gate_house_drawdown_def blocked_by_def gate_check_def Let_def split: if_splits)

lemma cluster_guards:
  "\<not> blocked_by c NCorrelationStress \<Longrightarrow> gc_stage c = ''order'' \<Longrightarrow>
     \<not> cfg_cluster_cap_pct (gc_config c) * gc_sleeve_ceiling_pct c * b_equity (gc_book c)
        < (case map_of (cluster_notional (gc_book c))
             (cluster_key (r_cluster (gc_request c)) (r_sector (gc_request c)) (r_symbol (gc_request c))) of
             Some v \<Rightarrow> v | None \<Rightarrow> 0) + projected_notional (gc_request c)"
  by (auto simp: gate_correlation_stress_def blocked_by_def gate_check_def Let_def split: if_splits)

lemma time_guards:
  "\<not> blocked_by c NTime \<Longrightarrow> gc_stage c = ''order'' \<Longrightarrow>
     \<not> m_halted (gc_market c) \<and> m_session (gc_market c) \<notin> {None, Some ''closed''}"
  by (auto simp: gate_time_def blocked_by_def gate_check_def Let_def split: if_splits)

lemma time_window:
  assumes "\<not> blocked_by c NTime" "gc_stage c = ''order''" "r_sleeve (gc_request c) = INTRADAY"
  shows "\<exists>after before. parse_hhmm (cfg_intraday_entry_after (gc_config c)) = Inr after
    \<and> parse_hhmm (cfg_intraday_entry_before (gc_config c)) = Inr before
    \<and> after \<le> time_of (gc_now c) \<and> time_of (gc_now c) \<le> before"
  using assms time_guards [OF assms(1,2)]
  by (cases "parse_hhmm (cfg_intraday_entry_after (gc_config c))";
      cases "parse_hhmm (cfg_intraday_entry_before (gc_config c))";
      cases "parse_hhmm (cfg_intraday_flat_by (gc_config c))")
    (auto simp: gate_time_def blocked_by_def gate_check_def Let_def split: if_splits)

definition only_blocks :: "Failure option \<Rightarrow> bool" where
  "only_blocks fo \<longleftrightarrow> (\<forall>f. fo = Some f \<longrightarrow> f_kind f = Block)"

lemma only_blocks_simps [simp]:
  "only_blocks None" "only_blocks (block n code)"
  "gc_stage c = ''order'' \<Longrightarrow> only_blocks (soft c n code a)"
  by (auto simp: only_blocks_def soft_def)

lemma only_blocks_invalidation: "gc_stage c = ''order'' \<Longrightarrow> only_blocks (invalidation_failure c xs)"
  by (induction xs) (auto split: option.splits)

lemma only_blocks_data:
  assumes "gc_stage c = ''order''"
  shows "only_blocks (gate_check c NData)"
proof -
  have "only_blocks (data_tail c)"
    using only_blocks_invalidation [OF assms, of "gc_live_invalidations c"] assms
    by (auto simp: data_tail_def Let_def split: option.splits)
  with assms show ?thesis by (simp add: gate_check_def gate_data_def Let_def)
qed

lemma soft_order:
  "gc_stage c = ''order'' \<Longrightarrow> soft c n code a
     = Some \<lparr>f_check = n, f_kind = Block, f_reason_code = code, f_adjusted = Some a\<rparr>"
  by (simp add: soft_def)

lemma data_guards:
  assumes "\<not> blocked_by c NData" "gc_stage c = ''order''"
  shows "gc_reference_complete c \<and> \<not> gc_reference_stale c
    \<and> str_lower (m_data_quality (gc_market c)) = ''fresh''
    \<and> \<not> stale (m_quote_age_s (gc_market c)) (cfg_max_quote_staleness_s (gc_config c))
    \<and> \<not> stale (m_bar_age_s (gc_market c)) (cfg_max_bar_staleness_s (gc_config c))
    \<and> r_stop_price (gc_request c) \<noteq> None"
proof -
  have unknown: "str_lower ''unknown'' \<noteq> ''fresh''" by code_simp
  from only_blocks_data [OF assms(2)] assms(1) have "gate_check c NData = None"
    by (cases "gate_check c NData") (auto simp: only_blocks_def blocked_by_def)
  then have "gate_data c = Inr None" by (auto simp: gate_check_def gate_data_def Let_def)
  with assms(2) unknown show ?thesis
    by (auto simp: gate_data_def data_tail_def Let_def soft_order split: if_splits option.splits)
qed

lemma wash_guards:
  "\<not> blocked_by c NWash \<Longrightarrow> gc_wash_nets c \<or> gc_other_sleeve_side c = None
     \<or> gc_other_sleeve_side c = Some (r_side (gc_request c))"
  by (auto simp: gate_wash_def blocked_by_def gate_check_def split: option.splits if_splits)

lemma short_guards:
  "\<not> blocked_by c NShortability \<Longrightarrow> implies_short (gc_request c) \<Longrightarrow>
     md_shorts (gc_mandate c) \<and> m_shortable (gc_market c) \<and> \<not> m_ssr (gc_market c)"
  by (auto simp: gate_shortability_def blocked_by_def gate_check_def split: if_splits)

section \<open>A setup that can never trade\<close>

text \<open>
  \<open>VWAP_PULLBACK\<close> is listed both as a trend setup and as a reversion setup, so no day type is legal
  for it: the market-regime check blocks it always.
\<close>

lemma vwap_pullback_always_blocked:
  "str_upper (r_setup (gc_request c)) = ''VWAP_PULLBACK'' \<Longrightarrow> blocked_by c NMarketRegime"
  by (auto simp: blocked_by_def gate_check_def gate_market_regime_def Let_def TREND_SETUPS_def
      REVERSION_SETUPS_def)

section \<open>What each check lets through: the caps\<close>

text \<open>A permitted order is inside a cap, or the check's reduction is among those of the decision.\<close>

definition reduced_to :: "GateDecision \<Rightarrow> gate_name \<Rightarrow> pyfloat \<Rightarrow> bool" where
  "reduced_to d n a \<longleftrightarrow> gd_verdict d = REDUCE
     \<and> (\<exists>f \<in> set (gd_failures d). f_check f = n \<and> f_kind f = Reduce \<and> f_adjusted f = Some a)"

definition cut_if :: "GateDecision \<Rightarrow> gate_name \<Rightarrow> bool \<Rightarrow> pyfloat \<Rightarrow> bool" where
  \<comment> \<open>over the cap the risk is cut to one that is not zero\<close>
  "cut_if d n over a \<longleftrightarrow> (over \<longrightarrow> \<not> a \<le> 0 \<and> reduced_to d n a)"

definition permits :: "GateContext \<Rightarrow> GateDecision \<Rightarrow> bool" where
  "permits c d \<longleftrightarrow> evaluate c = Inr d \<and> allowed d"

lemma permits_not_blocked: "permits c d \<Longrightarrow> \<not> blocked_by c n"
  by (cases rule: evaluate_cases [of c]) (auto simp: permits_def allowed_def blocked_by_def)

lemma permits_check:
  assumes "permits c d" "CHECKS n = Some check"
  shows "\<exists>fo. check c = Inr fo \<and> gate_check c n = fo"
proof (cases "check c")
  case (Inl e)
  then have "blocked_by c n" using assms(2) by (simp add: blocked_by_def gate_check_def)
  with permits_not_blocked [OF assms(1)] show ?thesis by blast
qed (use assms(2) in \<open>simp add: gate_check_def\<close>)

lemma permits_reduced:
  assumes "permits c d" "gate_check c n = reduce n code a"
  shows "reduced_to d n a"
proof -
  from assms(1) have ev: "evaluate c = Inr d" "allowed d" by (simp_all add: permits_def)
  obtain f where f: "gate_check c n = Some f" "f_check f = n" "f_kind f = Reduce" "f_adjusted f = Some a"
    using assms(2) by (simp add: reduce_def)
  then have "f \<in> set (gd_failures d)"
    using evaluate_binding [OF ev(1)] failure_list_set by auto
  moreover have "gd_verdict d = REDUCE"
    by (cases rule: evaluate_cases [of c]) (use ev f(1) in \<open>auto simp: allowed_def\<close>)
  ultimately show ?thesis using f by (auto simp: reduced_to_def)
qed

lemma permits_cut:
  assumes "permits c d" "over \<Longrightarrow> gate_check c n = (if a \<le> 0 then block n code else reduce n code' a)"
  shows "cut_if d n over a"
proof -
  have "\<not> a \<le> 0 \<and> reduced_to d n a" if over
  proof (cases "a \<le> 0")
    case True
    with assms(2) [OF that] have "blocked_by c n" by (simp add: blocked_by_def)
    with permits_not_blocked [OF assms(1)] show ?thesis by blast
  next
    case False
    with assms(2) [OF that] permits_reduced [OF assms(1), of n code'] show ?thesis by simp
  qed
  then show ?thesis by (simp add: cut_if_def)
qed

lemma mandate_caps_guards:
  assumes "permits c d"
  shows "cut_if d NMandate (md_max_total_exposure_usd (gc_mandate c) < held_notional c + projected_notional (gc_request c))
      (risk_to_fit c (md_max_total_exposure_usd (gc_mandate c) - held_notional c))"
    "\<not> md_max_total_exposure_usd (gc_mandate c) < held_notional c + projected_notional (gc_request c) \<Longrightarrow>
       r_planned_notional_usd (gc_request c) = Some planned \<Longrightarrow>
       cut_if d NMandate (md_max_notional_per_order_usd (gc_mandate c) < planned)
         (risk_to_fit c (md_max_notional_per_order_usd (gc_mandate c)))"
    "\<not> md_max_total_exposure_usd (gc_mandate c) < held_notional c + projected_notional (gc_request c) \<Longrightarrow>
       (\<forall>planned. r_planned_notional_usd (gc_request c) = Some planned \<longrightarrow> \<not> md_max_notional_per_order_usd (gc_mandate c) < planned) \<Longrightarrow>
       \<not> cfg_leverage_cap (gc_config c) * b_equity (gc_book c) < held_notional c + projected_notional (gc_request c)"
proof -
  have m: "gate_mandate c = mandate_caps c"
    using mandate_guards [OF permits_not_blocked [OF assms]] by blast
  show "cut_if d NMandate (md_max_total_exposure_usd (gc_mandate c) < held_notional c + projected_notional (gc_request c))
      (risk_to_fit c (md_max_total_exposure_usd (gc_mandate c) - held_notional c))"
    by (rule permits_cut [OF assms, where code = "''exposure_cap''" and code' = "''exposure_cap''"]) (simp add: gate_check_def m mandate_caps_def Let_def)
  assume e: "\<not> md_max_total_exposure_usd (gc_mandate c) < held_notional c + projected_notional (gc_request c)"
  show "cut_if d NMandate (md_max_notional_per_order_usd (gc_mandate c) < planned)
         (risk_to_fit c (md_max_notional_per_order_usd (gc_mandate c)))"
    if "r_planned_notional_usd (gc_request c) = Some planned"
    by (rule permits_cut [OF assms, where code = "''order_cap''" and code' = "''order_cap''"]) (use e that in \<open>simp add: gate_check_def m mandate_caps_def Let_def\<close>)
  show "\<not> cfg_leverage_cap (gc_config c) * b_equity (gc_book c) < held_notional c + projected_notional (gc_request c)"
    if "\<forall>planned. r_planned_notional_usd (gc_request c) = Some planned \<longrightarrow> \<not> md_max_notional_per_order_usd (gc_mandate c) < planned"
  proof
    assume "cfg_leverage_cap (gc_config c) * b_equity (gc_book c) < held_notional c + projected_notional (gc_request c)"
    with e that have "gate_check c NMandate = block NMandate ''leverage_cap''"
      by (simp add: gate_check_def m mandate_caps_def Let_def split: option.split)
    with permits_not_blocked [OF assms, of NMandate] show False by (simp add: blocked_by_def)
  qed
qed

definition sleeve_room :: "GateContext \<Rightarrow> pyfloat" where
  "sleeve_room c = gc_sleeve_ceiling_pct c * b_equity (gc_book c) - gc_sleeve_deployed_pct c * b_equity (gc_book c)"

lemma sleeve_guards:
  assumes "permits c d"
  shows "\<not> sleeve_room c \<le> 0"
    "cut_if d NSleeveCapital (sleeve_room c < projected_notional (gc_request c)) (risk_to_fit c (sleeve_room c))"
proof -
  show r: "\<not> sleeve_room c \<le> 0"
    using permits_not_blocked [OF assms, of NSleeveCapital]
    by (auto simp: blocked_by_def gate_check_def gate_sleeve_capital_def sleeve_room_def Let_def)
  show "cut_if d NSleeveCapital (sleeve_room c < projected_notional (gc_request c)) (risk_to_fit c (sleeve_room c))"
    by (rule permits_cut [OF assms, where code = "''no_room''" and code' = "''sleeve_ceiling''"])
      (use r in \<open>simp add: gate_check_def gate_sleeve_capital_def sleeve_room_def [symmetric] Let_def\<close>)
qed

lemma ladder_guards:
  assumes "permits c d"
  shows "l_size_multiplier (gc_ladder c) < Fin 1 \<longrightarrow>
    reduced_to d NHouseDrawdown (r_requested_risk_pct (gc_request c) * l_size_multiplier (gc_ladder c))"
proof
  assume "l_size_multiplier (gc_ladder c) < Fin 1"
  with drawdown_guards [OF permits_not_blocked [OF assms]]
  have "gate_check c NHouseDrawdown = reduce NHouseDrawdown (l_reason (gc_ladder c))
      (r_requested_risk_pct (gc_request c) * l_size_multiplier (gc_ladder c))"
    by (auto simp: gate_check_def gate_house_drawdown_def Let_def)
  then show "reduced_to d NHouseDrawdown (r_requested_risk_pct (gc_request c) * l_size_multiplier (gc_ladder c))"
    by (rule permits_reduced [OF assms])
qed

definition es_budget :: "GateContext \<Rightarrow> pyfloat" where
  "es_budget c = pymin (cfg_es_budget_house_pct (gc_config c)) (cfg_es_budget_sleeve_pct (gc_config c))"

lemma cvar_guards:
  assumes "permits c d" "gc_stage c = ''order''"
  shows "es_which (gc_es c) \<noteq> EUnavailable" "0 < es_window_days (gc_es c)"
    "cut_if d NHouseCvar (\<not> es_value_pct (gc_es c) + r_requested_risk_pct (gc_request c) \<le> es_budget c)
       (pymax 0 (es_budget c - es_value_pct (gc_es c)))"
proof -
  have "\<not> (es_which (gc_es c) = EUnavailable \<or> es_window_days (gc_es c) \<le> 0)"
  proof
    assume "es_which (gc_es c) = EUnavailable \<or> es_window_days (gc_es c) \<le> 0"
    with assms(2) have "gate_check c NHouseCvar = block NHouseCvar ''es_unavailable''"
      by (simp add: gate_check_def gate_house_cvar_def)
    with permits_not_blocked [OF assms(1), of NHouseCvar] show False by (simp add: blocked_by_def)
  qed
  then show w: "es_which (gc_es c) \<noteq> EUnavailable" "0 < es_window_days (gc_es c)" by simp_all
  show "cut_if d NHouseCvar (\<not> es_value_pct (gc_es c) + r_requested_risk_pct (gc_request c) \<le> es_budget c)
       (pymax 0 (es_budget c - es_value_pct (gc_es c)))"
    by (rule permits_cut [OF assms(1), where code = "''es_budget''" and code' = "''es_budget''"])
      (use assms(2) w in \<open>simp add: gate_check_def gate_house_cvar_def es_budget_def Let_def\<close>)
qed

lemma vol_guards:
  assumes "permits c d"
  shows "cut_if d NVolRegime (vs_warmup_ok (gc_vol c) \<and> \<not> Fin 1 \<le> vs_scalar (gc_vol c))
    (r_requested_risk_pct (gc_request c) * pymax 0 (vs_scalar (gc_vol c)))"
  by (rule permits_cut [OF assms, where code = "''vol_scalar_zero''" and code' = "''vol_above_target''"]) (simp add: gate_check_def gate_vol_regime_def Let_def)

lemma regime_guards:
  assumes "permits c d"
  shows "str_upper (r_setup (gc_request c)) \<in> set TREND_SETUPS \<Longrightarrow> str_lower (str_or (gc_day_type c) []) = ''trend''"
    "str_upper (r_setup (gc_request c)) \<in> set REVERSION_SETUPS \<Longrightarrow> str_lower (str_or (gc_day_type c) []) = ''range''"
  using permits_not_blocked [OF assms, of NMarketRegime]
  by (auto simp: blocked_by_def gate_check_def gate_market_regime_def Let_def split: if_splits)

lemma knife_guards:
  assumes "permits c d" "str_upper (r_setup (gc_request c)) \<in> set REVERSION_SETUPS"
  shows "\<not> m_news_shock (gc_market c)"
    "m_reopen_cooldown_s (gc_market c) = Some s \<Longrightarrow> \<not> s < REOPEN_COOLDOWN_S"
    "m_impulse_pct (gc_market c) = Some i \<Longrightarrow> atr_pct (gc_market c) = Some a \<Longrightarrow> \<not> i \<le> Fin (- 2) * a"
  using permits_not_blocked [OF assms(1), of NKnifeGuard] assms(2)
  by (auto simp: blocked_by_def gate_check_def gate_knife_guard_def Let_def split: if_splits option.splits)

definition name_cap :: "GateContext \<Rightarrow> pyfloat" where
  "name_cap c = single_name_cap_pct c * b_equity (gc_book c)"

lemma name_guards:
  assumes "permits c d" "gc_stage c = ''order''"
  shows "cut_if d NConcentration (name_cap c < name_exposure c + projected_notional (gc_request c))
    (risk_to_fit c (name_cap c - name_exposure c))"
  by (rule permits_cut [OF assms(1), where code = "''single_name_cap''" and code' = "''single_name_cap''"])
    (use assms(2) in \<open>simp add: gate_check_def gate_concentration_def name_cap_def [symmetric] Let_def\<close>)

lemma count_guards:
  assumes "permits c d" "gc_stage c = ''order''"
    "\<not> name_cap c < name_exposure c + projected_notional (gc_request c)"
  shows "count_positions (gc_book c) (Some (r_sleeve (gc_request c)))
        < (if r_sleeve (gc_request c) = INTRADAY then cfg_max_positions_intraday (gc_config c)
           else cfg_max_positions_swing (gc_config c))
      \<or> \<not> feq (position_for (gc_book c) (r_symbol (gc_request c))) 0"
    "count_positions (gc_book c) None
       < cfg_max_positions_swing (gc_config c) + cfg_max_positions_intraday (gc_config c)"
    "r_sleeve (gc_request c) = INTRADAY \<Longrightarrow> 0 < cfg_intraday_max_trades_per_name (gc_config c) \<Longrightarrow>
       trades_for (gc_book c) (r_symbol (gc_request c)) < cfg_intraday_max_trades_per_name (gc_config c)"
  using permits_not_blocked [OF assms(1), of NConcentration] assms(2,3)
  by (auto simp: blocked_by_def gate_check_def gate_concentration_def name_cap_def Let_def not_less [symmetric]
      split: if_splits)

lemma liquidity_guards:
  assumes "permits c d" "gc_stage c = ''order''"
  shows "\<not> notional_per_share (gc_request c) \<le> 0 \<and> m_last (gc_market c) \<noteq> None
    \<and> (\<exists>adv. m_adv_shares (gc_market c) = Some adv \<and> \<not> adv \<le> 0
       \<and> cut_if d NLiquidity (cfg_max_adv_pct (gc_config c) * adv
            < fdiv (projected_notional (gc_request c)) (notional_per_share (gc_request c)))
          (risk_to_fit c (cfg_max_adv_pct (gc_config c) * adv * notional_per_share (gc_request c)))
       \<and> (spread_blown (gc_market c) SPREAD_MULTIPLE \<longrightarrow> cfg_max_adv_pct (gc_config c) * adv
            < fdiv (projected_notional (gc_request c)) (notional_per_share (gc_request c))))"
proof -
  note nb = permits_not_blocked [OF assms(1), of NLiquidity]
  have p: "\<not> (notional_per_share (gc_request c) \<le> 0 \<or> m_last (gc_market c) = None)"
  proof
    assume "notional_per_share (gc_request c) \<le> 0 \<or> m_last (gc_market c) = None"
    with assms(2) have "gate_check c NLiquidity = block NLiquidity ''no_price''"
      by (simp add: gate_check_def gate_liquidity_def Let_def)
    with nb show False by (simp add: blocked_by_def)
  qed
  with nb assms(2) obtain adv where adv: "m_adv_shares (gc_market c) = Some adv" "\<not> adv \<le> 0"
    by (cases "m_adv_shares (gc_market c)")
      (auto simp: blocked_by_def gate_check_def gate_liquidity_def Let_def split: if_splits)
  have cut: "cut_if d NLiquidity (cfg_max_adv_pct (gc_config c) * adv
            < fdiv (projected_notional (gc_request c)) (notional_per_share (gc_request c)))
          (risk_to_fit c (cfg_max_adv_pct (gc_config c) * adv * notional_per_share (gc_request c)))"
    by (rule permits_cut [OF assms(1), where code = "''participation''" and code' = "''participation''"])
      (use assms(2) p adv in \<open>auto simp: gate_check_def gate_liquidity_def Let_def\<close>)
  have "cfg_max_adv_pct (gc_config c) * adv
            < fdiv (projected_notional (gc_request c)) (notional_per_share (gc_request c))"
    if "spread_blown (gc_market c) SPREAD_MULTIPLE"
  proof (rule ccontr)
    assume "\<not> ?thesis"
    with assms(2) p adv that have "gate_check c NLiquidity = block NLiquidity ''spread_blowout''"
      by (auto simp: gate_check_def gate_liquidity_def Let_def)
    with nb show False by (simp add: blocked_by_def)
  qed
  with p adv cut show ?thesis by blast
qed

definition planned_cost_bps :: "GateContext \<Rightarrow> pyfloat" where
  "planned_cost_bps c = (case r_round_trip_cost_bps (gc_request c) of
     Some x \<Rightarrow> if truthy x then x else round_trip_cost_bps c | None \<Rightarrow> round_trip_cost_bps c)"

lemma cost_guards:
  assumes "permits c d" "gc_stage c = ''order''"
  shows "\<not> planned_cost_bps c \<le> 0
    \<and> (\<exists>move. r_measured_move_bps (gc_request c) = Some move
        \<and> \<not> move \<le> cfg_cost_gate_multiple (gc_config c) * planned_cost_bps c)"
proof -
  have g: "gate_check c NCost = (case r_measured_move_bps (gc_request c) of
        None \<Rightarrow> block NCost ''no_move''
      | Some move \<Rightarrow> if planned_cost_bps c \<le> 0 then block NCost ''no_cost''
          else if move \<le> cfg_cost_gate_multiple (gc_config c) * planned_cost_bps c then block NCost ''cost_gate''
          else None)"
    using assms(2) by (simp add: gate_check_def gate_cost_def planned_cost_bps_def Let_def split: option.split)
  from permits_not_blocked [OF assms(1), of NCost] show ?thesis
    unfolding blocked_by_def g by (auto split: option.splits if_splits)
qed

definition approval_due :: "GateContext \<Rightarrow> bool" where
  "approval_due c \<longleftrightarrow> str_lower (md_approval_mode (gc_mandate c)) \<in> {''manual-high-order'', ''approval''}
     \<and> md_max_notional_per_order_usd (gc_mandate c) * cfg_approval_threshold_factor (gc_config c)
         \<le> projected_notional (gc_request c)"

lemma approval_check:
  "gate_check c NApproval =
     (if approval_due c then reduce NApproval ''approval_required'' (r_requested_risk_pct (gc_request c)) else None)"
proof -
  have "str_lower ''manual'' \<notin> {''manual-high-order'', ''approval''}" "str_lower [] = []" by code_simp+
  then show ?thesis by (auto simp: gate_check_def gate_approval_def approval_due_def Let_def)
qed

lemma approval_guards:
  assumes "permits c d" "approval_due c"
  shows "gd_approval_required d \<and> reduced_to d NApproval (r_requested_risk_pct (gc_request c))"
proof -
  have ev: "evaluate c = Inr d" using assms(1) by (simp add: permits_def)
  have g: "gate_check c NApproval = reduce NApproval ''approval_required'' (r_requested_risk_pct (gc_request c))"
    using assms(2) by (simp add: approval_check)
  then obtain f where "gate_check c NApproval = Some f" "f_check f = NApproval" by (simp add: reduce_def)
  then show ?thesis using evaluate_binding [OF ev] permits_reduced [OF assms(1) g] by blast
qed

lemma tail_guards:
  assumes "permits c d" "gc_stage c = ''order''"
  shows "str_lower (strip (str_or (m_price_caliber (gc_market c)) [])) \<notin> set UNUSABLE_CALIBERS
    \<and> (\<forall>days. gc_decision_age_days c = Some days \<longrightarrow> \<not> gc_ingest_window_days c < Fin (of_int days))
    \<and> invalidation_failure c (gc_live_invalidations c) = None"
proof -
  from only_blocks_data [OF assms(2)] permits_not_blocked [OF assms(1), of NData] have "gate_check c NData = None"
    by (cases "gate_check c NData") (auto simp: only_blocks_def blocked_by_def)
  then have "gate_data c = Inr None" by (auto simp: gate_check_def gate_data_def Let_def)
  then have "data_tail c = None"
    using assms(2) by (auto simp: gate_data_def Let_def soft_order split: if_splits)
  with assms(2) show ?thesis by (auto simp: data_tail_def Let_def soft_order split: if_splits option.splits)
qed

lemma invalidations_clear:
  assumes "invalidation_failure c xs = None" "entry \<in> set xs" "search_breach entry = Some level"
    "m_last (gc_market c) = Some price"
  shows "\<not> price \<le> float_or_inf level"
  using assms by (induction xs) (auto split: option.splits if_splits)

lemma time_gate_guards:
  assumes "permits c d" "gc_stage c = ''order''" "r_sleeve (gc_request c) = INTRADAY"
  shows "gc_time_gate_ok c \<noteq> Some False"
  using permits_not_blocked [OF assms(1), of NTime] time_guards [OF permits_not_blocked [OF assms(1)] assms(2)] assms(2,3)
  by (cases "parse_hhmm (cfg_intraday_entry_after (gc_config c))";
      cases "parse_hhmm (cfg_intraday_entry_before (gc_config c))";
      cases "parse_hhmm (cfg_intraday_flat_by (gc_config c))")
    (auto simp: gate_time_def blocked_by_def gate_check_def Let_def split: if_splits)

end
