(* ===== verification/Sleeves.thy ===== *)
theory Sleeves
  imports RiskState Config Json
begin

text \<open>
  \<open>signald/sleeves\<close>: the static policies of the two sleeves, their budgets against the book, and
  the router, the only producer of a sleeve name. A \<open>RouteError\<close> is a \<open>ValueError\<close>.
\<close>

section \<open>Policies\<close>

record SleevePolicy =
  pol_sleeve :: string
  pol_risk_per_trade_pct :: pyfloat
  pol_max_positions :: int
  pol_max_single_name_pct :: pyfloat
  pol_max_trades_per_name :: int
  pol_stop_kind :: string
  pol_entry_policy :: string
  pol_overnight :: bool
  pol_flat_by :: "string option"

definition SLEEVE_STOP_KIND :: string where
  "SLEEVE_STOP_KIND = ''synthetic_stop_limit''"

definition swing_policy :: "Config \<Rightarrow> SleevePolicy" where
  "swing_policy cfg =
     \<lparr>pol_sleeve = SWING, pol_risk_per_trade_pct = cfg_risk_per_trade_swing_pct cfg,
      pol_max_positions = cfg_max_positions_swing cfg,
      pol_max_single_name_pct = cfg_max_single_name_pct_swing cfg, pol_max_trades_per_name = 0,
      pol_stop_kind = SLEEVE_STOP_KIND, pol_entry_policy = ''next_session_limit_band'',
      pol_overnight = True, pol_flat_by = None\<rparr>"

definition intraday_policy :: "Config \<Rightarrow> SleevePolicy" where
  "intraday_policy cfg =
     \<lparr>pol_sleeve = INTRADAY, pol_risk_per_trade_pct = cfg_risk_per_trade_intraday_pct cfg,
      pol_max_positions = cfg_max_positions_intraday cfg,
      pol_max_single_name_pct = cfg_max_single_name_pct_intraday cfg,
      pol_max_trades_per_name = cfg_intraday_max_trades_per_name cfg,
      pol_stop_kind = SLEEVE_STOP_KIND, pol_entry_policy = ''intraday_windows'',
      pol_overnight = False, pol_flat_by = Some (cfg_intraday_flat_by cfg)\<rparr>"

definition policy_for :: "Config \<Rightarrow> string \<Rightarrow> SleevePolicy res" where
  "policy_for cfg sleeve =
     (if sleeve = SWING then Inr (swing_policy cfg)
      else if sleeve = INTRADAY then Inr (intraday_policy cfg)
      else Inl ValueError)"

section \<open>Budgets\<close>

record SleeveBudget =
  sb_sleeve :: string
  sb_capital_ceiling_pct :: pyfloat
  sb_vol_target :: pyfloat
  sb_risk_per_trade_pct :: pyfloat
  sb_es_budget_pct :: pyfloat
  sb_daily_loss_soft_pct :: pyfloat
  sb_daily_loss_hard_pct :: pyfloat
  sb_max_positions :: int
  sb_max_trades_per_name :: int
  sb_deployed_pct :: pyfloat
  sb_heat_pct :: pyfloat

definition room_pct :: "SleeveBudget \<Rightarrow> pyfloat" where
  "room_pct b = pymax 0 (sb_capital_ceiling_pct b - sb_deployed_pct b)"

definition at_ceiling :: "SleeveBudget \<Rightarrow> bool" where
  "at_ceiling b \<longleftrightarrow> room_pct b \<le> 0"

definition notional_share :: "BookState \<Rightarrow> string \<Rightarrow> pyfloat" where
  "notional_share book sleeve =
     (let total = b_notional book in
      if total \<le> 0 then 0 else fdiv (sleeve_deployed book sleeve) total)"

definition budget_for :: "Config \<Rightarrow> string \<Rightarrow> BookState \<Rightarrow> SleeveBudget res" where
  "budget_for cfg sleeve book =
     rmap (\<lambda>policy.
       (let (ceiling, vol_target) =
              (if sleeve = SWING
               then (cfg_sleeve_swing_capital_pct cfg, cfg_sleeve_swing_vol_target cfg)
               else (cfg_sleeve_intraday_capital_pct cfg, cfg_sleeve_intraday_vol_target cfg))
        in \<lparr>sb_sleeve = sleeve, sb_capital_ceiling_pct = ceiling, sb_vol_target = vol_target,
            sb_risk_per_trade_pct = pol_risk_per_trade_pct policy,
            sb_es_budget_pct = cfg_es_budget_sleeve_pct cfg,
            sb_daily_loss_soft_pct = cfg_daily_loss_soft_pct cfg,
            sb_daily_loss_hard_pct = cfg_daily_loss_hard_pct cfg,
            sb_max_positions = pol_max_positions policy,
            sb_max_trades_per_name = pol_max_trades_per_name policy,
            sb_deployed_pct = deployed_pct book sleeve,
            sb_heat_pct = b_heat_pct book * notional_share book sleeve\<rparr>))
       (policy_for cfg sleeve)"

fun budget_list :: "Config \<Rightarrow> BookState \<Rightarrow> string list \<Rightarrow> (string \<times> SleeveBudget) list res" where
  "budget_list cfg book [] = Inr []"
| "budget_list cfg book (s # ss) =
     rbind (budget_for cfg s book) (\<lambda>b. rmap (Cons (s, b)) (budget_list cfg book ss))"

definition budgets_for :: "Config \<Rightarrow> BookState \<Rightarrow> (string \<times> SleeveBudget) list res" where
  "budgets_for cfg book = budget_list cfg book SLEEVES"

definition notional_room_usd :: "SleeveBudget \<Rightarrow> BookState \<Rightarrow> pyfloat" where
  "notional_room_usd b book = pymax 0 (room_pct b * b_equity book)"

section \<open>Routing\<close>

record Route =
  rt_sleeve :: string
  rt_source :: string

definition route_research :: "(string \<times> json) list \<Rightarrow> Route res" where
  \<comment> \<open>the argument is the artifact's \<open>extra\<close> mapping; only a string can name the sleeve\<close>
  "route_research extra =
     (case jget extra ''sleeve'' of
        JNull \<Rightarrow> Inr \<lparr>rt_sleeve = SWING, rt_source = ''research''\<rparr>
      | JStr s \<Rightarrow> if str_lower (strip s) \<noteq> SWING then Inl ValueError
                  else Inr \<lparr>rt_sleeve = SWING, rt_source = ''research''\<rparr>
      | _ \<Rightarrow> Inl ValueError)"

definition route_intraday :: "Config \<Rightarrow> bool \<Rightarrow> Route res" where
  "route_intraday cfg enabled =
     (if \<not> (cfg_intraday_enabled cfg \<and> enabled) then Inl ValueError
      else Inr \<lparr>rt_sleeve = INTRADAY, rt_source = ''engine''\<rparr>)"

section \<open>Facts\<close>

lemma sleeve_names: "SWING \<noteq> INTRADAY" "INTRADAY \<noteq> SWING"
  by (simp_all add: SWING_def INTRADAY_def)

lemma budgets_for_total:
  "\<exists>s i. budgets_for cfg book = Inr [(SWING, s), (INTRADAY, i)]
     \<and> budget_for cfg SWING book = Inr s \<and> budget_for cfg INTRADAY book = Inr i"
  by (simp add: budgets_for_def SLEEVES_def budget_for_def policy_for_def sleeve_names)

lemma heat_is_apportioned:
  assumes "\<forall>p \<in> set (b_positions book). p_sleeve p \<in> set SLEEVES"
    "b_notional book = Fin t" "0 < t" "b_heat_pct book = Fin h"
    "budget_for cfg SWING book = Inr s" "budget_for cfg INTRADAY book = Inr i"
  shows "sb_heat_pct s + sb_heat_pct i = b_heat_pct book"
proof -
  have sum: "sleeve_deployed book SWING + sleeve_deployed book INTRADAY = Fin t"
    using sleeves_partition_notional [OF assms(1)] assms(2) by simp
  then obtain x y where xy: "sleeve_deployed book SWING = Fin x" "sleeve_deployed book INTRADAY = Fin y"
    by (cases "sleeve_deployed book SWING"; cases "sleeve_deployed book INTRADAY") auto
  then have "x + y = t" using sum by simp
  then have "h * (x / t) + h * (y / t) = h"
    using assms(3) by (simp add: add_divide_distrib [symmetric] distrib_left [symmetric])
  with assms xy show ?thesis
    by (auto simp: budget_for_def policy_for_def notional_share_def sleeve_names)
qed

lemma room_bounds:
  assumes "budget_for cfg sleeve book = Inr b" "sb_capital_ceiling_pct b = Fin c"
    "deployed_pct book sleeve = Fin d" "b_equity book = Fin e" "0 < e"
  shows "notional_room_usd b book = Fin (max 0 ((c - d) * e))"
    "at_ceiling b \<longleftrightarrow> c \<le> d"
  using assms
  by (auto simp: budget_for_def rmap_Inr_iff notional_room_usd_def room_pct_def at_ceiling_def
      fp_simps max_def zero_le_mult_iff mult_le_0_iff split: if_splits)

end
