(* ===== verification/Reconcile.thy ===== *)
theory Reconcile
  imports RiskState "HOL-Library.Product_Lexorder"
begin

text \<open>
  \<open>signald/reconcile.py\<close>: the local ledger against the broker. A record that the source reads with
  \<open>_field\<close> is given by the fields it reads, each of which may be missing. The detail texts are left
  out; a drift carries both numbers as the source does.
\<close>

section \<open>Definitions\<close>

definition CLOSED_ORDER_STATUSES :: "string list" where
  "CLOSED_ORDER_STATUSES =
     [''filled'', ''canceled'', ''cancelled'', ''expired'', ''rejected'', ''done_for_day'',
      ''stopped'', ''suspended'', ''replaced'', ''not_found'']"

record qty_record =
  q_symbol :: "string option"
  q_qty :: "pyfloat option"

record broker_order =
  bo_status :: "string option"
  bo_client_order_id :: "string option"
  bo_symbol :: "string option"

datatype drift_value = NoValue | Number pyfloat | Status "string option" | OrderRef string "string option"

record Drift =
  d_kind :: string
  d_symbol :: "string option"
  d_local :: drift_value
  d_broker :: drift_value

record ReconcileReport =
  rr_ok :: bool
  rr_halt :: bool
  rr_drift :: "Drift list"

fun net_loop :: "(string \<times> pyfloat) list \<Rightarrow> qty_record list \<Rightarrow> (string \<times> pyfloat) list res" where
  "net_loop net [] = Inr net"
| "net_loop net (r # rs) =
     (case (q_symbol r, q_qty r) of
        (Some s, Some q) \<Rightarrow> net_loop (dict_add s q net) rs
      | _ \<Rightarrow> Inl ValueError)"

definition net_by_symbol :: "qty_record list \<Rightarrow> (string \<times> pyfloat) list res" where
  "net_by_symbol records = net_loop [] records"

definition net_of :: "(string \<times> pyfloat) list \<Rightarrow> string \<Rightarrow> pyfloat" where
  "net_of net s = (case map_of net s of Some q \<Rightarrow> q | None \<Rightarrow> 0)"

definition position_drifts ::
  "(string \<times> pyfloat) list \<Rightarrow> (string \<times> pyfloat) list \<Rightarrow> pyfloat \<Rightarrow> Drift list" where
  "position_drifts local_net broker_net tolerance =
     map (\<lambda>s. \<lparr>d_kind = ''position'', d_symbol = Some s, d_local = Number (net_of local_net s),
                d_broker = Number (net_of broker_net s)\<rparr>)
       (filter (\<lambda>s. tolerance < \<bar>net_of local_net s - net_of broker_net s\<bar>)
         (sort (remdups (map fst local_net @ map fst broker_net))))"

definition order_drift :: "string option list \<Rightarrow> broker_order \<Rightarrow> Drift option" where
  "order_drift known_ids order =
     (let status = str_lower (str_or (bo_status order) []) in
      if status \<in> set CLOSED_ORDER_STATUSES then None
      else (case bo_client_order_id order of
              None \<Rightarrow> Some \<lparr>d_kind = ''order'', d_symbol = bo_symbol order, d_local = NoValue,
                            d_broker = Status (bo_status order)\<rparr>
            | Some cid \<Rightarrow>
                if Some cid \<in> set known_ids then None
                else Some \<lparr>d_kind = ''order'', d_symbol = bo_symbol order, d_local = NoValue,
                           d_broker = OrderRef cid (if status = [] then None else Some status)\<rparr>))"

definition number_or_none :: "pyfloat option \<Rightarrow> drift_value" where
  "number_or_none x = (case x of None \<Rightarrow> NoValue | Some v \<Rightarrow> Number v)"

definition cash_drift :: "pyfloat option \<Rightarrow> pyfloat option \<Rightarrow> pyfloat \<Rightarrow> Drift list" where
  "cash_drift cash_local cash_broker tolerance =
     (let drift = \<lparr>d_kind = ''cash'', d_symbol = None, d_local = number_or_none cash_local,
                   d_broker = number_or_none cash_broker\<rparr>
      in case (cash_local, cash_broker) of
           (None, None) \<Rightarrow> []
         | (Some l, Some b) \<Rightarrow> if tolerance < \<bar>l - b\<bar> then [drift] else []
         | _ \<Rightarrow> [drift])"

definition reconcile ::
  "qty_record list \<Rightarrow> qty_record list \<Rightarrow> broker_order list \<Rightarrow> string option list
     \<Rightarrow> pyfloat option \<Rightarrow> pyfloat option \<Rightarrow> pyfloat \<Rightarrow> pyfloat \<Rightarrow> ReconcileReport res" where
  \<comment> \<open>\<open>local_open_orders\<close> is given by the \<open>client_order_id\<close> of each\<close>
  "reconcile local_fills broker_positions broker_orders local_ids cash_local cash_broker
       share_tolerance cash_tolerance =
     rbind (net_by_symbol local_fills) (\<lambda>local_net.
     rmap (\<lambda>broker_net.
       (let drift = position_drifts local_net broker_net share_tolerance
                      @ List.map_filter (order_drift local_ids) broker_orders
                      @ cash_drift cash_local cash_broker cash_tolerance;
            ordered = sort_key (\<lambda>d. (d_kind d, str_or (d_symbol d) [])) drift
        in \<lparr>rr_ok = (ordered = []), rr_halt = (ordered \<noteq> []), rr_drift = ordered\<rparr>))
       (net_by_symbol broker_positions))"

section \<open>Netting\<close>

definition position_of :: "qty_record list \<Rightarrow> string \<Rightarrow> pyfloat" where
  \<comment> \<open>the signed quantity of a symbol, straight from the records\<close>
  "position_of rs s =
     fsum (map (\<lambda>r. case q_qty r of Some q \<Rightarrow> q | None \<Rightarrow> 0) (filter (\<lambda>r. q_symbol r = Some s) rs))"

lemma net_loop_InrD:
  assumes "net_loop net rs = Inr out"
  shows "map_of out s = (if \<exists>r \<in> set rs. q_symbol r = Some s
      then Some (foldl (+) (net_of net s) (map (\<lambda>r. case q_qty r of Some q \<Rightarrow> q | None \<Rightarrow> 0)
                   (filter (\<lambda>r. q_symbol r = Some s) rs)))
      else map_of net s)"
  using assms
proof (induction rs arbitrary: net)
  case Nil
  then show ?case by simp
next
  case (Cons r rs)
  from Cons.prems obtain t q where r: "q_symbol r = Some t" "q_qty r = Some q"
    and rest: "net_loop (dict_add t q net) rs = Inr out"
    by (auto split: option.splits)
  have no: "\<forall>x \<in> set rs. q_symbol x \<noteq> Some s \<Longrightarrow> filter (\<lambda>x. q_symbol x = Some s) rs = []"
    by (simp add: filter_empty_conv)
  have start: "net_of (dict_add t q net) s = (if t = s then net_of net s + q else net_of net s)"
    "map_of (dict_add t q net) s = (if t = s then Some (net_of net s + q) else map_of net s)"
    by (simp_all add: net_of_def map_of_dict_add)
  show ?case
  proof (cases "t = s"; cases "\<exists>x \<in> set rs. q_symbol x = Some s")
    assume "t = s" "\<not> (\<exists>x \<in> set rs. q_symbol x = Some s)"
    with Cons.IH [OF rest] r start no show ?thesis by simp
  qed (use Cons.IH [OF rest] r start in simp_all)
qed

lemma net_by_symbol_InrD:
  assumes "net_by_symbol rs = Inr net"
  shows "net_of net s = position_of rs s" "s \<in> set (map fst net) \<longleftrightarrow> (\<exists>r \<in> set rs. q_symbol r = Some s)"
proof -
  have m: "map_of net s = (if \<exists>r \<in> set rs. q_symbol r = Some s then Some (position_of rs s) else None)"
    using net_loop_InrD [of "[]" rs net s] assms
    by (simp add: net_by_symbol_def net_of_def position_of_def fsum_def)
  have "(\<forall>r \<in> set rs. q_symbol r \<noteq> Some s) \<Longrightarrow> filter (\<lambda>r. q_symbol r = Some s) rs = []"
    by (simp add: filter_empty_conv)
  with m show "net_of net s = position_of rs s" by (auto simp: net_of_def position_of_def)
  have "s \<in> set (map fst net) \<longleftrightarrow> map_of net s \<noteq> None" by (simp add: map_of_eq_None_iff)
  with m show "s \<in> set (map fst net) \<longleftrightarrow> (\<exists>r \<in> set rs. q_symbol r = Some s)" by auto
qed

lemma position_of_absent: "\<forall>r \<in> set rs. q_symbol r \<noteq> Some s \<Longrightarrow> position_of rs s = 0"
proof -
  assume "\<forall>r \<in> set rs. q_symbol r \<noteq> Some s"
  then have "filter (\<lambda>r. q_symbol r = Some s) rs = []" by (simp add: filter_empty_conv)
  then show ?thesis by (simp add: position_of_def)
qed

lemma sort_key_Nil: "sort_key f xs = [] \<longleftrightarrow> xs = []"
  by (metis length_0_conv length_sort)

lemma position_drifts_Nil:
  assumes "net_by_symbol fills = Inr ln'" "net_by_symbol positions = Inr bn" "0 \<le> tol"
  shows "position_drifts ln' bn tol = [] \<longleftrightarrow>
    (\<forall>s. \<not> tol < \<bar>position_of fills s - position_of positions s\<bar>)"
proof -
  have "position_drifts ln' bn tol = [] \<longleftrightarrow>
      (\<forall>s \<in> set (map fst ln') \<union> set (map fst bn). \<not> tol < \<bar>position_of fills s - position_of positions s\<bar>)"
    using net_by_symbol_InrD(1) [OF assms(1)] net_by_symbol_InrD(1) [OF assms(2)]
    by (simp add: position_drifts_def filter_empty_conv image_Un)
  moreover have "\<not> tol < \<bar>position_of fills s - position_of positions s\<bar>"
    if "s \<notin> set (map fst ln') \<union> set (map fst bn)" for s
  proof -
    have "position_of fills s = 0" "position_of positions s = 0"
      using that net_by_symbol_InrD(2) [OF assms(1)] net_by_symbol_InrD(2) [OF assms(2)]
      by (auto intro!: position_of_absent)
    with assms(3) show ?thesis by (cases tol) (auto simp: fp_simps)
  qed
  ultimately show ?thesis by blast
qed

lemma order_drift_None:
  "order_drift ids o' = None \<longleftrightarrow>
     str_lower (str_or (bo_status o') []) \<in> set CLOSED_ORDER_STATUSES
       \<or> (\<exists>cid. bo_client_order_id o' = Some cid \<and> Some cid \<in> set ids)"
  by (auto simp: order_drift_def Let_def split: option.splits)

lemma cash_drift_Nil:
  "cash_drift l b tol = [] \<longleftrightarrow>
     (l = None \<and> b = None) \<or> (\<exists>x y. l = Some x \<and> b = Some y \<and> \<not> tol < \<bar>x - y\<bar>)"
  by (auto simp: cash_drift_def Let_def split: option.splits)

lemma map_filter_Nil: "List.map_filter f xs = [] \<longleftrightarrow> (\<forall>x \<in> set xs. f x = None)"
  by (auto simp: List.map_filter_def filter_empty_conv)

lemma reconcile_total:
  "(\<forall>r \<in> set (fills @ positions). q_symbol r \<noteq> None \<and> q_qty r \<noteq> None)
     \<longleftrightarrow> (\<exists>rep. reconcile fills positions orders ids cl cb st ct = Inr rep)"
proof -
  have net: "(\<exists>out. net_by_symbol rs = Inr out) \<longleftrightarrow> (\<forall>r \<in> set rs. q_symbol r \<noteq> None \<and> q_qty r \<noteq> None)"
    for rs
  proof -
    have "(\<exists>out. net_loop net rs = Inr out) \<longleftrightarrow> (\<forall>r \<in> set rs. q_symbol r \<noteq> None \<and> q_qty r \<noteq> None)"
      for net by (induction rs arbitrary: net) (auto split: option.splits)
    then show ?thesis by (simp add: net_by_symbol_def)
  qed
  have "(\<exists>rep. reconcile fills positions orders ids cl cb st ct = Inr rep) \<longleftrightarrow>
      (\<exists>out. net_by_symbol fills = Inr out) \<and> (\<exists>out. net_by_symbol positions = Inr out)"
    by (simp add: reconcile_def rbind_Inr_iff rmap_Inr_iff) blast
  then show ?thesis unfolding net set_append by blast
qed

text \<open>A quantity that is not a number compares with nothing, so it is never a drift.\<close>

lemma NaN_position_is_no_drift:
  "reconcile [\<lparr>q_symbol = Some ''ABC'', q_qty = Some (Fin 100)\<rparr>]
     [\<lparr>q_symbol = Some ''ABC'', q_qty = Some NaN\<rparr>] [] [] None None (Fin 0) (Fin 1)
   = Inr \<lparr>rr_ok = True, rr_halt = False, rr_drift = []\<rparr>"
  by code_simp

end
