(* ===== verification/Examples.thy ===== *)
theory Examples
  imports Flatten OrderManager Sizing Gate Sleeves Reconcile
begin

text \<open>
  Concrete inputs on which the properties are instantiated: a liquid market, a long position with
  a stop, a limit intent, a broker that answers from a list, and a request at the house gate. They are the shapes the test suite of the
  program uses.
\<close>

definition ex_market :: MarketState where
  "ex_market =
     \<lparr>m_symbol = ''ABC'', m_last = Some (Fin 100), m_spread_bps = Some (Fin 2),
      m_spread_median_bps = Some (Fin 2), m_quote_age_s = Some (Fin 1), m_bar_age_s = Some (Fin 10),
      m_session = Some ''regular'', m_halted = False, m_reopen_cooldown_s = None, m_tradable = True,
      m_shortable = True, m_ssr = False, m_adv_shares = Some (Fin 2000000), m_atr = Some (Fin 2),
      m_data_quality = ''fresh'', m_price_caliber = Some ''adjusted'', m_impulse_pct = None,
      m_news_shock = False, m_last_bar_high = None, m_last_bar_low = None\<rparr>"

definition ex_request :: RiskRequest where
  "ex_request =
     \<lparr>r_sleeve = SWING, r_symbol = ''ABC'', r_setup = ''BREAKOUT'', r_side = ''buy'',
      r_stop_distance = Fin 2, r_price = Fin 100, r_equity = Fin 100000,
      r_requested_risk_pct = Fin (1 / 200), r_stop_price = Some (Fin 98),
      r_measured_move_bps = Some (Fin 200), r_round_trip_cost_bps = None,
      r_trailing_volume = Some (Fin 2000000), r_intent_id = Some ''i1'', r_cluster = None,
      r_sector = None, r_opens_short = False, r_planned_notional_usd = None\<rparr>"

definition ex_position :: Position where
  "ex_position =
     \<lparr>p_symbol = ''ABC'', p_qty = Fin 10, p_avg_entry = Fin 100, p_sleeve = SWING,
      p_last = Some (Fin 100), p_stop = Some (Fin 95), p_setup = None, p_sector = None,
      p_cluster = None, p_opened_at = None\<rparr>"

definition ex_intent :: OrderIntent where
  "ex_intent =
     \<lparr>oi_intent_id = ''i1'', oi_sleeve = SWING, oi_symbol = ''ABC'', oi_side = ''buy'', oi_qty = 10,
      oi_order_type = ''limit'', oi_limit_price = Some (Fin 100), oi_stop_price = Some (Fin 98),
      oi_tif = ''day'', oi_client_order_id = ''swi-i1-1'',
      oi_created_at = ''2026-07-30T10:00:00'', oi_extended_hours = False\<rparr>"

definition ex_book :: BookState where
  "ex_book =
     \<lparr>b_equity = Fin 100000, b_cash = Fin 50000, b_positions = [], b_heat_pct = Fin 0,
      b_es_pct = Fin 0, b_day_pnl_pct = Fin 0, b_five_day_pct = Fin 0, b_drawdown_pct = Fin 0,
      b_peak_equity = None, b_net_beta = None, b_trades_today = [],
      b_sleeve_trades_today = [], b_buying_power = Some (Fin 50000)\<rparr>"

definition ex_mandate :: Mandate where
  "ex_mandate =
     \<lparr>md_id = ''m1'', md_expires = 750000, md_allowed = [''ABC''], md_shorts = False,
      md_max_notional_per_order_usd = Fin 20000, md_max_total_exposure_usd = Fin 150000,
      md_min_cash_reserve_usd = Fin 1000, md_max_daily_trades = 10,
      md_daily_loss_limit_usd = Fin 1000, md_approval_mode = ''manual''\<rparr>"

definition ex_guard :: guard_context where
  "ex_guard =
     \<lparr>g_book = ex_book, g_market = ex_market, g_mandate = Some ex_mandate,
      g_config = default_config, g_gate_verdict = Some ''ALLOW'', g_approval_id = None,
      g_requires_approval = False, g_open_orders = [], g_other_sleeve_side = None,
      g_price_of = None\<rparr>"

definition ex_seam :: "(nat \<Rightarrow> reply) \<Rightarrow> nat seam" where
  \<comment> \<open>a broker that answers its \<open>n\<close>-th call from a list\<close>
  "ex_seam answers = \<lparr>transport = (\<lambda>n meth p. (Suc n, answers n)), clock = (\<lambda>n. (n, ''t''))\<rparr>"

definition ex_world :: "nat World" where
  "ex_world = \<lparr>w_out = 0, w_file = [], w_audit = Some [], w_trace = []\<rparr>"

definition ex_es :: ESResult where
  "ex_es =
     \<lparr>es_value_pct = Fin (1 / 1000), es_which = EStress, es_flagged = True, es_window_days = 20,
      es_historical_part = Fin 0, es_parametric_part = Fin 0, es_stress_part = Fin (1 / 1000)\<rparr>"

definition ex_vol :: VolScalar where
  "ex_vol =
     \<lparr>vs_scalar = Fin 1, vs_target = Fin (1 / 10), vs_realized = Fin (1 / 10), vs_warmup_ok = True,
      vs_applied = False, vs_reason = VWithinBand\<rparr>"

definition ex_rung0 :: LadderState where
  "ex_rung0 =
     \<lparr>l_rung = 0, l_size_multiplier = Fin 1, l_allow_new_intraday = True, l_flatten_intraday = False,
      l_freeze_allocation = False, l_halt = False, l_reason = ''none''\<rparr>"

definition ex_now :: datetime where
  "ex_now = \<lparr>wall_us = 740000 * 86400000000 + 36000000000, utc_off = None\<rparr>"

definition ex_gate :: "pyfloat \<Rightarrow> GateContext" where
  \<comment> \<open>an order-stage request of the given risk; half a percent is over the single-name cap\<close>
  "ex_gate risk =
     \<lparr>gc_request = ex_request\<lparr>r_requested_risk_pct := risk\<rparr>, gc_book = ex_book,
      gc_market = ex_market, gc_mandate = ex_mandate, gc_config = default_config, gc_now = ex_now,
      gc_ladder = ex_rung0, gc_vol = ex_vol, gc_es = ex_es,
      gc_sleeve_ceiling_pct = Fin (70 / 100), gc_sleeve_deployed_pct = Fin 0, gc_day_type = None,
      gc_time_gate_ok = None, gc_other_sleeve_side = None, gc_wash_nets = False,
      gc_stage = ''order'', gc_reference_complete = True, gc_reference_stale = False,
      gc_positions_value_usd = None, gc_decision_age_days = None, gc_ingest_window_days = Fin 7,
      gc_live_invalidations = [], gc_last_signal = None, gc_cooldown_hours = Fin 24,
      gc_action = None, gc_held_symbols = None\<rparr>"

definition ex_broken_gate :: GateContext where
  \<comment> \<open>an intraday request whose session window cannot be read\<close>
  "ex_broken_gate =
     (ex_gate (Fin (1 / 1000)))\<lparr>gc_request := ex_request\<lparr>r_sleeve := INTRADAY\<rparr>,
        gc_config := default_config\<lparr>cfg_intraday_entry_after := ''soon''\<rparr>\<rparr>"

definition ex_caps :: SizingCaps where
  "ex_caps =
     \<lparr>sc_sleeve_risk_remaining_pct = Fin (1 / 200), sc_house_heat_remaining_pct = Fin (3 / 100),
      sc_sleeve_notional_room_usd = Fin 70000, sc_participation_cap_pct = Fin (25 / 100),
      sc_kelly_fraction = Fin (1 / 4), sc_validated_edge = Some (Fin (5 / 100)),
      sc_kelly_win_loss_ratio = Some (Fin 1), sc_kelly_shrink = Fin 1, sc_max_leverage_pct = None\<rparr>"

definition ex_limits :: ladder_thresholds where
  "ex_limits =
     \<lparr>soft_pct = Fin (1 / 100), hard_pct = Fin (3 / 100), derisk_5d_pct = Fin (6 / 100),
      derisk_dd_pct = Fin (10 / 100), halt_dd_pct = Fin (15 / 100)\<rparr>"

definition ex_bad_day :: ladder_path where
  "ex_bad_day =
     \<lparr>day_pnl_pct = Fin (- 4 / 100), five_day_pct = 0, drawdown_pct = Fin (- 4 / 100)\<rparr>"

definition ex_minute :: "int \<Rightarrow> datetime" where
  "ex_minute k = \<lparr>wall_us = k * 60000000, utc_off = None\<rparr>"

definition ex_halted :: HaltMachine where
  "ex_halted =
     \<lparr>h_cooldown_s = Fin 300, h_phase = PHalted, h_reason = RHalt, h_since = Some (ex_minute 0),
      h_reopen_at = None, h_no_reopen = False\<rparr>"

definition ex_long_book :: BookState where
  "ex_long_book = ex_book\<lparr>b_positions := [ex_position], b_heat_pct := Fin (1 / 100)\<rparr>"

lemmas ex_gate_defs = ex_es_def ex_vol_def ex_rung0_def ex_now_def ex_gate_def ex_broken_gate_def
  ex_caps_def

lemmas ex_defs = ex_market_def ex_request_def ex_position_def ex_intent_def ex_book_def
  ex_mandate_def ex_guard_def ex_seam_def ex_world_def

lemma cfg_stops [simp]:
  "cfg_stop_atr_mult default_config = Fin (175 / 100)"
  "cfg_stop_mae_pctl default_config = Fin (80 / 100)"
  by (simp_all add: default_config_def)

end
