(* ===== verification/OrderState.thy ===== *)
theory OrderState
  imports Json Interfaces "HOL-Library.AList"
begin

text \<open>
  \<open>signald/order/state.py\<close>: the order state machine over broker \<open>trade_updates\<close>. An event is a JSON
  value; an event that cannot be applied leaves the state where it was and is recorded as an
  anomaly. The manager is a \<open>monotone_machine\<close>: per order, the filled quantity and the status only
  move along \<open>LEGAL_TRANSITIONS\<close>.
\<close>

section \<open>Statuses\<close>

datatype order_status =
    StNew | StAccepted | StPartiallyFilled | StFilled | StCanceled | StRejected | StExpired
  | StReplaced | StDoneForDay | StUnknown string

definition STATES :: "(string \<times> order_status) list" where
  "STATES =
     [(''new'', StNew), (''accepted'', StAccepted), (''partially_filled'', StPartiallyFilled),
      (''filled'', StFilled), (''canceled'', StCanceled), (''rejected'', StRejected),
      (''expired'', StExpired), (''replaced'', StReplaced), (''done_for_day'', StDoneForDay)]"

definition TERMINAL_STATES :: "order_status list" where
  "TERMINAL_STATES = [StFilled, StCanceled, StRejected, StExpired, StReplaced, StDoneForDay]"

fun LEGAL_TRANSITIONS :: "order_status \<Rightarrow> order_status list" where
  "LEGAL_TRANSITIONS StNew =
     [StNew, StAccepted, StPartiallyFilled, StFilled, StCanceled, StRejected, StExpired, StReplaced,
      StDoneForDay]"
| "LEGAL_TRANSITIONS StAccepted =
     [StAccepted, StPartiallyFilled, StFilled, StCanceled, StRejected, StExpired, StReplaced,
      StDoneForDay]"
| "LEGAL_TRANSITIONS StPartiallyFilled =
     [StPartiallyFilled, StFilled, StCanceled, StExpired, StReplaced, StDoneForDay]"
| "LEGAL_TRANSITIONS StFilled = [StFilled]"
| "LEGAL_TRANSITIONS StCanceled = [StCanceled]"
| "LEGAL_TRANSITIONS StRejected = [StRejected]"
| "LEGAL_TRANSITIONS StExpired = [StExpired]"
| "LEGAL_TRANSITIONS StReplaced = [StReplaced]"
| "LEGAL_TRANSITIONS StDoneForDay = [StDoneForDay]"
| "LEGAL_TRANSITIONS (StUnknown s) = []"

definition EVENT_TO_STATUS :: "(string \<times> order_status) list" where
  "EVENT_TO_STATUS =
     [(''new'', StNew), (''accepted'', StAccepted), (''partial_fill'', StPartiallyFilled),
      (''fill'', StFilled), (''canceled'', StCanceled), (''rejected'', StRejected),
      (''expired'', StExpired), (''replaced'', StReplaced), (''done_for_day'', StDoneForDay)]"

definition FILL_EVENTS :: "string list" where
  "FILL_EVENTS = [''partial_fill'', ''fill'']"

section \<open>Coercions of broker fields\<close>

type_synonym code = string

fun opt_int :: "json \<Rightarrow> code \<Rightarrow> code + int option" where
  "opt_int JNull code = Inr None"
| "opt_int (JBool _) code = Inl code"
| "opt_int (JInt i) code = Inr (Some i)"
| "opt_int (JFloat x) code =
     (case float_integer x of None \<Rightarrow> Inl code | Some i \<Rightarrow> Inr (Some i))"
| "opt_int (JStr s) code =
     (if strip s = [] then Inr None
      else (case int_of_text s of
              Some i \<Rightarrow> Inr (Some i)
            | None \<Rightarrow>
                (case float_of_text s of
                   None \<Rightarrow> Inl code
                 | Some x \<Rightarrow>
                     (case float_integer x of None \<Rightarrow> Inl code | Some i \<Rightarrow> Inr (Some i)))))"
| "opt_int _ code = Inl code"

fun opt_float :: "json \<Rightarrow> code \<Rightarrow> code + pyfloat option" where
  "opt_float JNull code = Inr None"
| "opt_float (JBool _) code = Inl code"
| "opt_float (JInt i) code = Inr (Some (Fin (of_int i)))"
| "opt_float (JFloat x) code = (if isfinite x then Inr (Some x) else Inl code)"
| "opt_float (JStr s) code =
     (if s = [] then Inr None
      else (case float_of_text s of
              None \<Rightarrow> Inl code
            | Some x \<Rightarrow> if isfinite x then Inr (Some x) else Inl code))"
| "opt_float _ code = Inl code"

fun opt_text :: "json \<Rightarrow> pytext option" where
  "opt_text JNull = None"
| "opt_text (JStr s) = (if strip s = [] then None else Some (Txt (strip s)))"
| "opt_text v = Some (Repr v)"

section \<open>Orders, fills and the manager\<close>

record OrderState =
  os_client_order_id :: string
  os_order_id :: "pytext option"
  os_symbol :: string
  os_side :: string
  os_qty :: int
  os_filled_qty :: int
  os_avg_fill_price :: "pyfloat option"
  os_status :: order_status
  os_updated_at :: pytext
  os_reason :: "pytext option"

definition open_qty :: "OrderState \<Rightarrow> int" where
  "open_qty s = os_qty s - os_filled_qty s"

definition is_terminal :: "OrderState \<Rightarrow> bool" where
  "is_terminal s \<longleftrightarrow> os_status s \<in> set TERMINAL_STATES"

record Fill =
  fl_client_order_id :: string
  fl_order_id :: "pytext option"
  fl_symbol :: string
  fl_side :: string
  fl_qty :: int
  fl_price :: pyfloat
  fl_at :: pytext

datatype audit_row =
    AuditFill Fill
  | AuditState OrderState
  | AuditAnomaly code "string option" json

record Manager =
  sm_states :: "(string \<times> OrderState) list"
  sm_fills :: "Fill list"
  sm_anomalies :: "(code \<times> string option \<times> json) list"
  sm_audit :: "audit_row list option"

definition lookup_state :: "Manager \<Rightarrow> string \<Rightarrow> OrderState option" where
  "lookup_state m cid = map_of (sm_states m) cid"

definition audit_append :: "audit_row \<Rightarrow> Manager \<Rightarrow> Manager" where
  "audit_append row m =
     m\<lparr>sm_audit := (case sm_audit m of None \<Rightarrow> None | Some rows \<Rightarrow> Some (rows @ [row]))\<rparr>"

definition anomaly ::
  "code \<Rightarrow> json \<Rightarrow> string option \<Rightarrow> Manager \<Rightarrow> Manager \<times> OrderState option" where
  "anomaly code raw cid m =
     (audit_append (AuditAnomaly code cid raw)
        (m\<lparr>sm_anomalies := sm_anomalies m @ [(code, cid, raw)]\<rparr>),
      case cid of None \<Rightarrow> None | Some c \<Rightarrow> lookup_state m c)"

definition target_status :: "(string \<times> json) list \<Rightarrow> json \<Rightarrow> code + order_status" where
  "target_status order event_name =
     (case jget order ''status'' of
        JNull \<Rightarrow>
          (case event_name of
             JStr e \<Rightarrow> (case map_of EVENT_TO_STATUS e of Some s \<Rightarrow> Inr s
                        | None \<Rightarrow> Inl ''missing_status'')
           | _ \<Rightarrow> Inl ''missing_status'')
      | JStr s \<Rightarrow>
          (if s = [] then
             (case event_name of
                JStr e \<Rightarrow> (case map_of EVENT_TO_STATUS e of Some t \<Rightarrow> Inr t
                           | None \<Rightarrow> Inl ''missing_status'')
              | _ \<Rightarrow> Inl ''missing_status'')
           else (case map_of STATES s of Some t \<Rightarrow> Inr t | None \<Rightarrow> Inl ''unknown_status''))
      | _ \<Rightarrow> Inl ''unknown_status'')"

definition fill_qty_of :: "int option \<Rightarrow> int option \<Rightarrow> int \<Rightarrow> code + int" where
  "fill_qty_of fill_qty broker_filled base_filled =
     (case fill_qty of
        Some q \<Rightarrow> Inr q
      | None \<Rightarrow> (case broker_filled of None \<Rightarrow> Inl ''missing_fill_qty''
                 | Some b \<Rightarrow> Inr (b - base_filled)))"

definition new_filled_of :: "int \<Rightarrow> int option \<Rightarrow> int \<Rightarrow> code + int" where
  "new_filled_of fill_qty broker_filled base_filled =
     (case broker_filled of
        Some b \<Rightarrow>
          if b < base_filled then Inl ''filled_qty_regressed''
          else if b \<noteq> base_filled + fill_qty then Inl ''filled_qty_mismatch''
          else Inr b
      | None \<Rightarrow> Inr (base_filled + fill_qty))"

definition new_avg_of ::
  "pyfloat option \<Rightarrow> pyfloat option \<Rightarrow> int \<Rightarrow> int \<Rightarrow> pyfloat \<Rightarrow> int \<Rightarrow> pyfloat" where
  "new_avg_of broker_avg base_avg base_filled fill_qty fill_price new_filled =
     (case broker_avg of
        Some a \<Rightarrow> a
      | None \<Rightarrow>
          (case base_avg of
             None \<Rightarrow> fill_price
           | Some b \<Rightarrow>
               if base_filled = 0 then fill_price
               else fdiv (Fin (of_int base_filled) * b + Fin (of_int fill_qty) * fill_price)
                         (Fin (of_int new_filled))))"

definition apply_fill ::
  "(string \<times> json) list \<Rightarrow> string \<Rightarrow> pytext option \<Rightarrow> string \<Rightarrow> string \<Rightarrow> int \<Rightarrow> pyfloat option
     \<Rightarrow> int option \<Rightarrow> pyfloat option \<Rightarrow> pytext \<Rightarrow> code + Fill \<times> int \<times> pyfloat option" where
  "apply_fill event cid order_id symbol side base_filled base_avg broker_filled broker_avg stamp =
     rbind (opt_int (jget event ''qty'') ''bad_fill_qty'') (\<lambda>raw_qty.
     rbind (opt_float (jget event ''price'') ''bad_fill_price'') (\<lambda>raw_price.
     rbind (fill_qty_of raw_qty broker_filled base_filled) (\<lambda>fill_qty.
     case (case raw_price of Some p \<Rightarrow> Some p | None \<Rightarrow> broker_avg) of
       None \<Rightarrow> Inl ''missing_fill_price''
     | Some fill_price \<Rightarrow>
         if fill_qty \<le> 0 then Inl ''non_positive_fill_qty''
         else rmap (\<lambda>new_filled.
                (\<lparr>fl_client_order_id = cid, fl_order_id = order_id, fl_symbol = symbol,
                  fl_side = side, fl_qty = fill_qty, fl_price = fill_price, fl_at = stamp\<rparr>,
                 new_filled,
                 Some (new_avg_of broker_avg base_avg base_filled fill_qty fill_price new_filled)))
              (new_filled_of fill_qty broker_filled base_filled))))"

definition apply_quiet ::
  "OrderState option \<Rightarrow> int \<Rightarrow> pyfloat option \<Rightarrow> int option \<Rightarrow> pyfloat option
     \<Rightarrow> code + int \<times> pyfloat option" where
  \<comment> \<open>the branch of \<open>apply\<close> for an event that carries no execution\<close>
  "apply_quiet prev base_filled base_avg broker_filled broker_avg =
     rmap (\<lambda>new_filled. (new_filled, case broker_avg of Some a \<Rightarrow> Some a | None \<Rightarrow> base_avg))
       (case broker_filled of
          Some b \<Rightarrow>
            if b < base_filled then Inl ''filled_qty_regressed''
            else if prev \<noteq> None \<and> b \<noteq> base_filled then Inl ''unexpected_filled_qty''
            else Inr b
        | None \<Rightarrow> Inr base_filled)"

definition commit_state :: "OrderState \<Rightarrow> Fill option \<Rightarrow> Manager \<Rightarrow> Manager" where
  "commit_state s fill m =
     (let m1 = m\<lparr>sm_states := AList.update (os_client_order_id s) s (sm_states m)\<rparr>;
          m2 = (case fill of None \<Rightarrow> m1
                | Some f \<Rightarrow> audit_append (AuditFill f) (m1\<lparr>sm_fills := sm_fills m1 @ [f]\<rparr>))
      in audit_append (AuditState s) m2)"

definition nonempty_str :: "json \<Rightarrow> string option" where
  \<comment> \<open>a value that is a non-empty string\<close>
  "nonempty_str v = (case v of JStr s \<Rightarrow> if s = [] then None else Some s | _ \<Rightarrow> None)"

definition parse_quantities ::
  "(string \<times> json) list \<Rightarrow> code + int \<times> int option \<times> pyfloat option" where
  "parse_quantities order =
     rbind (opt_int (jget order ''qty'') ''bad_qty'') (\<lambda>qty.
     rbind (opt_int (jget order ''filled_qty'') ''bad_filled_qty'') (\<lambda>broker_filled.
     rbind (opt_float (jget order ''filled_avg_price'') ''bad_filled_avg_price'') (\<lambda>broker_avg.
     case qty of None \<Rightarrow> Inl ''missing_qty'' | Some q \<Rightarrow> Inr (q, broker_filled, broker_avg))))"

definition execution ::
  "OrderState option \<Rightarrow> (string \<times> json) list \<Rightarrow> string \<Rightarrow> pytext option \<Rightarrow> string \<Rightarrow> string
     \<Rightarrow> int option \<Rightarrow> pyfloat option \<Rightarrow> pytext \<Rightarrow> code + Fill option \<times> int \<times> pyfloat option" where
  \<comment> \<open>the execution an event carries, with the advanced quantity and average\<close>
  "execution prev event cid order_id symbol side broker_filled broker_avg stamp =
     (let base_filled = (case prev of Some p \<Rightarrow> os_filled_qty p | None \<Rightarrow> 0);
          base_avg = (case prev of Some p \<Rightarrow> os_avg_fill_price p | None \<Rightarrow> None)
      in if jget event ''event'' \<in> JStr ` set FILL_EVENTS
         then rmap (\<lambda>(f, n, a). (Some f, n, a))
                (apply_fill event cid order_id symbol side base_filled base_avg
                   broker_filled broker_avg stamp)
         else rmap (\<lambda>(n, a). (None, n, a))
                (apply_quiet prev base_filled base_avg broker_filled broker_avg))"

definition advance ::
  "pytext \<Rightarrow> OrderState option \<Rightarrow> (string \<times> json) list \<Rightarrow> (string \<times> json) list \<Rightarrow> string
     \<Rightarrow> order_status \<Rightarrow> string \<Rightarrow> string \<Rightarrow> int \<times> int option \<times> pyfloat option
     \<Rightarrow> code + OrderState \<times> Fill option" where
  \<comment> \<open>the transition test, the execution and the new state\<close>
  "advance now prev event order cid target symbol side quantities =
     (let (qty, broker_filled, broker_avg) = quantities in
      if (case prev of None \<Rightarrow> False
          | Some p \<Rightarrow> target \<noteq> os_status p \<and> target \<notin> set (LEGAL_TRANSITIONS (os_status p)))
      then Inl ''illegal_transition''
      else
        (let order_id = opt_text (jget order ''id'');
             stamp = (case opt_text (jget event ''timestamp'') of Some t \<Rightarrow> t | None \<Rightarrow> now);
             reason = (case opt_text (jget order ''reject_reason'') of Some r \<Rightarrow> Some r
                       | None \<Rightarrow> opt_text (jget event ''reason''))
         in rbind (execution prev event cid order_id symbol side broker_filled broker_avg stamp)
              (\<lambda>(fill, new_filled, new_avg).
                 if qty < new_filled then Inl ''filled_qty_exceeds_qty''
                 else Inr (\<lparr>os_client_order_id = cid, os_order_id = order_id, os_symbol = symbol,
                            os_side = side, os_qty = qty, os_filled_qty = new_filled,
                            os_avg_fill_price = new_avg, os_status = target, os_updated_at = stamp,
                            os_reason = reason\<rparr>, fill))))"

definition event_body ::
  "pytext \<Rightarrow> Manager \<Rightarrow> (string \<times> json) list \<Rightarrow> (string \<times> json) list \<Rightarrow> string
     \<Rightarrow> code + OrderState \<times> Fill option" where
  \<comment> \<open>\<open>apply\<close> past its first guards: the new state and the execution, or an anomaly code\<close>
  "event_body now m event order cid =
     rbind (target_status order (jget event ''event'')) (\<lambda>target.
      case nonempty_str (jget order ''symbol'') of
        None \<Rightarrow> Inl ''missing_symbol''
      | Some symbol \<Rightarrow>
      (case nonempty_str (jget order ''side'') of
        None \<Rightarrow> Inl ''missing_side''
      | Some side \<Rightarrow>
        rbind (parse_quantities order)
          (advance now (lookup_state m cid) event order cid target symbol side)))"

definition known_event_name :: "json \<Rightarrow> bool" where
  \<comment> \<open>\<open>event_name is None or event_name in EVENT_TO_STATUS\<close>\<close>
  "known_event_name v =
     (case v of JNull \<Rightarrow> True | JStr e \<Rightarrow> map_of EVENT_TO_STATUS e \<noteq> None | _ \<Rightarrow> False)"

definition apply_order ::
  "pytext \<Rightarrow> Manager \<Rightarrow> json \<Rightarrow> (string \<times> json) list \<Rightarrow> (string \<times> json) list \<Rightarrow> string
     \<Rightarrow> (Manager \<times> OrderState option) res" where
  \<comment> \<open>\<open>apply\<close> once the order body and its \<open>client_order_id\<close> are known\<close>
  "apply_order now m event ev order cid =
     (if \<not> hashable (jget ev ''event'') then Inl TypeError
      else if \<not> known_event_name (jget ev ''event'')
      then Inr (anomaly ''unknown_event'' event (Some cid) m)
      else (case event_body now m ev order cid of
              Inl code \<Rightarrow> Inr (anomaly code event (Some cid) m)
            | Inr (s, fill) \<Rightarrow> Inr (commit_state s fill m, Some s)))"

definition apply_event :: "pytext \<Rightarrow> Manager \<Rightarrow> json \<Rightarrow> (Manager \<times> OrderState option) res" where
  "apply_event now m event =
     (case event of
        JObj ev \<Rightarrow>
          (case jget ev ''order'' of
             JObj order \<Rightarrow>
               (case nonempty_str (jget order ''client_order_id'') of
                  None \<Rightarrow> Inr (anomaly ''missing_client_order_id'' event None m)
                | Some cid \<Rightarrow> apply_order now m event ev order cid)
           | _ \<Rightarrow> Inr (anomaly ''missing_order'' event None m))
      | _ \<Rightarrow> Inr (anomaly ''malformed_event'' event None m))"

definition feed :: "Manager \<Rightarrow> pytext \<times> json \<Rightarrow> Manager" where
  \<comment> \<open>one delivery of the stream; an exception leaves the object as it was\<close>
  "feed m te = (case apply_event (fst te) m (snd te) of Inl _ \<Rightarrow> m | Inr (m', _) \<Rightarrow> m')"

definition open_orders :: "Manager \<Rightarrow> OrderState list" where
  "open_orders m =
     sort_key os_client_order_id (filter (\<lambda>s. \<not> is_terminal s) (map snd (sm_states m)))"

definition status_text :: "order_status \<Rightarrow> string" where
  "status_text st =
     (case st of StUnknown t \<Rightarrow> t
      | _ \<Rightarrow> (case map_of (map (\<lambda>(t, s). (s, t)) STATES) st of Some t \<Rightarrow> t | None \<Rightarrow> []))"

definition restore_one :: "Manager \<Rightarrow> OrderState \<Rightarrow> Manager" where
  "restore_one m st =
     (if os_status st \<notin> set (map snd STATES)
      then fst (anomaly ''restore_unknown_status''
                  (JObj [(''client_order_id'', JStr (os_client_order_id st)),
                         (''status'', JStr (status_text (os_status st)))])
                  (Some (os_client_order_id st)) m)
      else if os_qty st < 0 \<or> os_filled_qty st < 0 \<or> os_qty st < os_filled_qty st
      then fst (anomaly ''restore_inconsistent_qty''
                  (JObj [(''client_order_id'', JStr (os_client_order_id st)),
                         (''qty'', JInt (os_qty st)), (''filled_qty'', JInt (os_filled_qty st))])
                  (Some (os_client_order_id st)) m)
      else m\<lparr>sm_states := AList.update (os_client_order_id st) st (sm_states m)\<rparr>)"

definition restore :: "Manager \<Rightarrow> OrderState list \<Rightarrow> Manager" where
  "restore m states = foldl restore_one m (sort_key os_client_order_id states)"

definition empty_manager :: "audit_row list option \<Rightarrow> Manager" where
  "empty_manager audit =
     \<lparr>sm_states = [], sm_fills = [], sm_anomalies = [], sm_audit = audit\<rparr>"

section \<open>Transitions\<close>

lemma legal_refl: "s \<in> set (map snd STATES) \<Longrightarrow> s \<in> set (LEGAL_TRANSITIONS s)"
  by (auto simp: STATES_def)

lemma legal_trans:
  "t \<in> set (LEGAL_TRANSITIONS s) \<Longrightarrow> u \<in> set (LEGAL_TRANSITIONS t) \<Longrightarrow> u \<in> set (LEGAL_TRANSITIONS s)"
  by (cases s) auto

lemma legal_states: "t \<in> set (LEGAL_TRANSITIONS s) \<Longrightarrow> t \<in> set (map snd STATES)"
  by (cases s) (auto simp: STATES_def)

lemma terminal_only_itself:
  "s \<in> set TERMINAL_STATES \<Longrightarrow> t \<in> set (LEGAL_TRANSITIONS s) \<longleftrightarrow> t = s"
  by (auto simp: TERMINAL_STATES_def)

lemma target_status_known: "target_status order e = Inr t \<Longrightarrow> t \<in> set (map snd STATES)"
proof -
  have sub: "u \<in> snd ` set STATES" if "map_of EVENT_TO_STATUS x = Some u \<or> map_of STATES x = Some u"
    for x u
  proof -
    from that have "(x, u) \<in> set EVENT_TO_STATUS \<union> set STATES" by (auto dest: map_of_SomeD)
    then show ?thesis by (auto simp: EVENT_TO_STATUS_def STATES_def)
  qed
  show "target_status order e = Inr t \<Longrightarrow> t \<in> set (map snd STATES)"
    using sub by (auto simp: target_status_def split: json.splits if_splits option.splits)
qed

section \<open>One event\<close>

lemma states_anomaly [simp]: "sm_states (fst (anomaly code raw cid m)) = sm_states m"
  by (simp add: anomaly_def audit_append_def)

lemma lookup_anomaly [simp]: "lookup_state (fst (anomaly code raw cid m)) k = lookup_state m k"
  by (simp add: anomaly_def audit_append_def lookup_state_def)

lemma fills_anomaly [simp]: "sm_fills (fst (anomaly code raw cid m)) = sm_fills m"
  by (simp add: anomaly_def audit_append_def)

lemma lookup_commit:
  "lookup_state (commit_state s fill m) k =
     (if k = os_client_order_id s then Some s else lookup_state m k)"
  by (simp add: commit_state_def audit_append_def lookup_state_def update_conv' Let_def
      split: option.splits)

lemma fills_commit:
  "sm_fills (commit_state s fill m) = sm_fills m @ (case fill of None \<Rightarrow> [] | Some f \<Rightarrow> [f])"
  by (simp add: commit_state_def audit_append_def Let_def split: option.splits)

lemma apply_fill_InrD:
  assumes "apply_fill event cid oid symbol side base_filled base_avg bf ba stamp = Inr (f, n, a)"
  shows "0 < fl_qty f \<and> n = base_filled + fl_qty f \<and> fl_client_order_id f = cid
    \<and> (bf = None \<or> bf = Some n)"
proof -
  have "new_filled_of q bf base_filled = Inr n \<Longrightarrow> n = base_filled + q \<and> (bf = None \<or> bf = Some n)" for q
    by (auto simp: new_filled_of_def split: option.splits if_splits)
  with assms show ?thesis
    by (fastforce simp: apply_fill_def rbind_Inr_iff rmap_Inr_iff split: option.splits if_splits)
qed

lemma apply_quiet_InrD:
  assumes "apply_quiet prev base_filled base_avg bf ba = Inr (n, a)"
  shows "base_filled \<le> n \<and> (prev \<noteq> None \<longrightarrow> n = base_filled)"
  using assms by (auto simp: apply_quiet_def rmap_Inr_iff split: option.splits if_splits)

definition filled_of :: "OrderState option \<Rightarrow> int" where
  "filled_of prev = (case prev of Some p \<Rightarrow> os_filled_qty p | None \<Rightarrow> 0)"

lemma execution_InrD:
  assumes "execution prev ev cid oid symbol side bf ba stamp = Inr (fill, n, a)"
  shows "case fill of
      Some f \<Rightarrow> 0 < fl_qty f \<and> fl_client_order_id f = cid \<and> n = filled_of prev + fl_qty f
    | None \<Rightarrow> filled_of prev \<le> n \<and> (prev \<noteq> None \<longrightarrow> n = filled_of prev)"
  using assms
  by (auto simp: execution_def Let_def rmap_Inr_iff filled_of_def
      dest!: apply_fill_InrD apply_quiet_InrD split: if_splits)

lemma advance_InrD:
  assumes "advance now prev ev order cid target symbol side qs = Inr (s, fill)"
  shows "os_client_order_id s = cid \<and> os_status s = target \<and> os_filled_qty s \<le> os_qty s
    \<and> (case prev of None \<Rightarrow> True
       | Some p \<Rightarrow> target = os_status p \<or> target \<in> set (LEGAL_TRANSITIONS (os_status p)))
    \<and> (case fill of
         Some f \<Rightarrow> 0 < fl_qty f \<and> fl_client_order_id f = cid
           \<and> os_filled_qty s = filled_of prev + fl_qty f
       | None \<Rightarrow> filled_of prev \<le> os_filled_qty s
           \<and> (prev \<noteq> None \<longrightarrow> os_filled_qty s = filled_of prev))"
proof -
  obtain qty bf ba where qs: "qs = (qty, bf, ba)" by (cases qs)
  from assms obtain n a oid stamp where
    ex: "execution prev ev cid oid symbol side bf ba stamp = Inr (fill, n, a)"
    and s: "os_client_order_id s = cid" "os_status s = target" "os_filled_qty s = n" "n \<le> os_qty s"
    and legal: "case prev of None \<Rightarrow> True
       | Some p \<Rightarrow> target = os_status p \<or> target \<in> set (LEGAL_TRANSITIONS (os_status p))"
    by (auto simp: advance_def qs Let_def rbind_Inr_iff split: if_splits option.splits)
  from execution_InrD [OF ex] s legal show ?thesis by auto
qed

lemma event_body_InrD:
  assumes "event_body now m ev order cid = Inr (s, fill)"
  shows "os_client_order_id s = cid \<and> os_status s \<in> set (map snd STATES)
    \<and> os_filled_qty s \<le> os_qty s
    \<and> (case lookup_state m cid of None \<Rightarrow> True
       | Some p \<Rightarrow> os_status s = os_status p \<or> os_status s \<in> set (LEGAL_TRANSITIONS (os_status p)))
    \<and> (case fill of
         Some f \<Rightarrow> 0 < fl_qty f \<and> fl_client_order_id f = cid
           \<and> os_filled_qty s = filled_of (lookup_state m cid) + fl_qty f
       | None \<Rightarrow> filled_of (lookup_state m cid) \<le> os_filled_qty s
           \<and> (lookup_state m cid \<noteq> None \<longrightarrow> os_filled_qty s = filled_of (lookup_state m cid)))"
proof -
  from assms obtain target symbol side qs where
    "target_status order (jget ev ''event'') = Inr target"
    "advance now (lookup_state m cid) ev order cid target symbol side qs = Inr (s, fill)"
    by (cases "nonempty_str (jget order ''symbol'')"; cases "nonempty_str (jget order ''side'')")
      (auto simp: event_body_def rbind_Inr_iff)
  note target = target_status_known [OF this(1)] and adv = advance_InrD [OF this(2)]
  have st: "os_status s = target" using adv by blast
  from adv target show ?thesis unfolding st by blast
qed

lemma apply_order_Inr:
  assumes "apply_order now m event ev order cid = Inr (m', r)"
  shows "(\<exists>code. anomaly code event (Some cid) m = (m', r))
    \<or> (\<exists>s fill. event_body now m ev order cid = Inr (s, fill) \<and> m' = commit_state s fill m \<and> r = Some s)"
  using assms by (auto simp: apply_order_def split: if_splits sum.splits)

lemma apply_event_shape:
  "(\<exists>code. apply_event now m event = Inr (anomaly code event None m))
    \<or> (\<exists>ev order cid. apply_event now m event = apply_order now m event ev order cid)"
proof (cases event)
  case (JObj ev)
  then show ?thesis
    by (cases "jget ev ''order''") (auto simp: apply_event_def split: option.split)
qed (auto simp: apply_event_def)

lemma apply_event_cases:
  assumes "apply_event now m event = Inr (m', r)"
  obtains (Anomaly) code cid where "anomaly code event cid m = (m', r)"
  | (Applied) ev order cid s fill where
      "event_body now m ev order cid = Inr (s, fill)" "m' = commit_state s fill m" "r = Some s"
  using apply_event_shape [of now m event]
proof
  assume "\<exists>code. apply_event now m event = Inr (anomaly code event None m)"
  with assms show thesis using Anomaly by auto
next
  assume "\<exists>ev order cid. apply_event now m event = apply_order now m event ev order cid"
  with assms show thesis using Anomaly Applied by (metis apply_order_Inr)
qed

section \<open>The machine\<close>

definition fill_total :: "Manager \<Rightarrow> string \<Rightarrow> int" where
  "fill_total m cid = sum_list (map fl_qty (filter (\<lambda>f. fl_client_order_id f = cid) (sm_fills m)))"

definition manager_inv :: "Manager \<Rightarrow> bool" where
  "manager_inv m \<longleftrightarrow>
     (\<forall>cid. case lookup_state m cid of
        None \<Rightarrow> fill_total m cid = 0
      | Some s \<Rightarrow> os_client_order_id s = cid \<and> os_status s \<in> set (map snd STATES)
          \<and> 0 \<le> os_filled_qty s \<and> os_filled_qty s \<le> os_qty s
          \<and> 0 \<le> fill_total m cid \<and> fill_total m cid \<le> os_filled_qty s)"

definition order_below :: "OrderState option \<Rightarrow> OrderState option \<Rightarrow> bool" where
  "order_below a b =
     (case a of None \<Rightarrow> True
      | Some s \<Rightarrow> (case b of None \<Rightarrow> False
          | Some t \<Rightarrow> os_filled_qty s \<le> os_filled_qty t
              \<and> (os_status t = os_status s \<or> os_status t \<in> set (LEGAL_TRANSITIONS (os_status s)))))"

lemma manager_inv_empty: "manager_inv (empty_manager audit)"
  by (simp add: manager_inv_def empty_manager_def lookup_state_def fill_total_def)

lemma fill_total_commit:
  "fill_total (commit_state s fill m) cid =
     fill_total m cid + (case fill of None \<Rightarrow> 0
        | Some f \<Rightarrow> if fl_client_order_id f = cid then fl_qty f else 0)"
  by (simp add: fill_total_def fills_commit split: option.splits)

lemma fill_total_anomaly [simp]: "fill_total (fst (anomaly code raw cid m)) k = fill_total m k"
  by (simp add: fill_total_def)

lemma feed_cases:
  obtains (Same) "lookup_state (feed m te) = lookup_state m" "sm_fills (feed m te) = sm_fills m"
  | (Applied) ev order cid s fill where
      "event_body (fst te) m ev order cid = Inr (s, fill)" "feed m te = commit_state s fill m"
proof (cases "apply_event (fst te) m (snd te)")
  case (Inl e)
  then show thesis by (intro Same) (simp_all add: feed_def)
next
  case (Inr mr)
  obtain m' r where mr: "mr = (m', r)" by (cases mr)
  with Inr have feed: "feed m te = m'" by (simp add: feed_def)
  from Inr mr have "apply_event (fst te) m (snd te) = Inr (m', r)" by simp
  then show thesis
  proof (cases rule: apply_event_cases)
    case (Anomaly code cid)
    then have "m' = fst (anomaly code (snd te) cid m)" by (metis fst_conv)
    then show thesis using feed by (intro Same) auto
  next
    case (Applied ev order cid s fill)
    then show thesis using feed that(2) by blast
  qed
qed

lemma feed_inv: "manager_inv m \<Longrightarrow> manager_inv (feed m te)"
proof -
  assume inv: "manager_inv m"
  show ?thesis
  proof (cases rule: feed_cases [where m = m and te = te])
    case Same
    then have ft: "fill_total (feed m te) = fill_total m" by (simp add: fun_eq_iff fill_total_def)
    from inv show ?thesis unfolding manager_inv_def Same(1) ft .
  next
    case (Applied ev order cid s fill)
    note b = event_body_InrD [OF Applied(1)]
    have old: "case lookup_state m k of None \<Rightarrow> fill_total m k = 0
      | Some s \<Rightarrow> os_client_order_id s = k \<and> os_status s \<in> set (map snd STATES)
          \<and> 0 \<le> os_filled_qty s \<and> os_filled_qty s \<le> os_qty s
          \<and> 0 \<le> fill_total m k \<and> fill_total m k \<le> os_filled_qty s" for k
      using inv by (simp add: manager_inv_def)
    show ?thesis
      unfolding manager_inv_def Applied(2)
    proof
      fix k
      show "case lookup_state (commit_state s fill m) k of
          None \<Rightarrow> fill_total (commit_state s fill m) k = 0
        | Some s' \<Rightarrow> os_client_order_id s' = k \<and> os_status s' \<in> set (map snd STATES)
          \<and> 0 \<le> os_filled_qty s' \<and> os_filled_qty s' \<le> os_qty s'
          \<and> 0 \<le> fill_total (commit_state s fill m) k
          \<and> fill_total (commit_state s fill m) k \<le> os_filled_qty s'"
        using b old [of k]
        by (cases "k = cid") (auto simp: lookup_commit fill_total_commit filled_of_def split: option.splits)
    qed
  qed
qed

lemma feed_below: "order_below (lookup_state m k) (lookup_state (feed m te) k)"
proof (cases rule: feed_cases [where m = m and te = te])
  case Same
  then show ?thesis by (simp add: order_below_def split: option.splits)
next
  case (Applied ev order cid s fill)
  note b = event_body_InrD [OF Applied(1)]
  show ?thesis
    using b unfolding Applied(2)
    by (cases "k = cid") (auto simp: lookup_commit order_below_def filled_of_def split: option.splits)
qed

interpretation osm: monotone_machine feed manager_inv order_below lookup_state
proof
  show "manager_inv m \<Longrightarrow> manager_inv (feed m te)" for m te by (rule feed_inv)
  show "order_below v v" for v by (simp add: order_below_def split: option.splits)
  show "order_below u v \<Longrightarrow> order_below v w \<Longrightarrow> order_below u w" for u v w
    by (auto simp: order_below_def split: option.splits intro: legal_trans)
  show "order_below (lookup_state m k) (lookup_state (feed m te) k)" for m k te
    by (rule feed_below)
qed

lemma order_below_terminal:
  "order_below (Some s) b \<Longrightarrow> is_terminal s \<Longrightarrow> \<exists>t. b = Some t \<and> os_status t = os_status s"
  by (auto simp: order_below_def is_terminal_def terminal_only_itself split: option.splits)

lemma restore_one_inv_states:
  assumes "\<forall>k s. lookup_state m k = Some s \<longrightarrow>
      os_status s \<in> set (map snd STATES) \<and> 0 \<le> os_filled_qty s \<and> os_filled_qty s \<le> os_qty s"
  shows "\<forall>k s. lookup_state (restore_one m st) k = Some s \<longrightarrow>
      os_status s \<in> set (map snd STATES) \<and> 0 \<le> os_filled_qty s \<and> os_filled_qty s \<le> os_qty s"
proof -
  have "lookup_state (restore_one m st) k = Some s \<Longrightarrow> lookup_state m k = Some s
      \<or> s = st \<and> os_status st \<in> set (map snd STATES) \<and> 0 \<le> os_filled_qty st \<and> os_filled_qty st \<le> os_qty st"
    for k s
    by (auto simp: restore_one_def lookup_state_def update_conv' not_less split: if_splits)
  with assms show ?thesis by blast
qed

end
