(* ===== verification/Engine.thy ===== *)
theory Engine
  imports Gate Sizing Sleeves Reconcile Flatten OrderManager OrderState "HOL-Library.Sublist"
begin

text \<open>
  \<open>signald/engine.py\<close>: one intraday session, composed of the models of the modules it calls. What
  the scan finds is an argument (its setup scanner is not in the repository): the candidates and
  the skips. The market data service is the function \<open>en_volumes\<close> from a symbol to the volumes of
  its 21 daily bars, \<open>None\<close> when it raises; it answers a symbol the same within a session. A call
  may raise after it has had effects, so an operation returns the session beside its result.
\<close>

section \<open>The session\<close>

record Candidate =
  cd_symbol :: string
  cd_setup :: string
  cd_side :: string
  cd_entry_price :: pyfloat
  cd_stop_price :: pyfloat
  cd_expected_move_bps :: pyfloat
  cd_day_type :: "string option"
  cd_cluster :: "string option"

record 'b Engine =
  en_cfg :: Config
  en_mandate :: Mandate
  en_universe :: "string list"
  en_equity_history :: "pyfloat list"
  en_daily_returns :: "pyfloat list"
  en_book :: BookState
  en_volumes :: "string \<Rightarrow> pyfloat list option"
  en_broker_positions :: "(nat \<Rightarrow> Position list option res) option"
  en_states :: "Manager option"
  en_seam :: "'b seam"
  en_quantile :: "real \<Rightarrow> real"
  en_to_et :: "datetime \<Rightarrow> datetime"
  en_clock_text :: string \<comment> \<open>\<open>config.now().isoformat()\<close>, as the protective legs read it\<close>

datatype engine_event =
    EvSkipped string \<comment> \<open>the policy refused the symbol\<close>
  | EvDenied string "(guard_name \<times> guard_failure) list" "guard_name option"
  | EvSubmit string string int \<comment> \<open>symbol, status, quantity\<close>
  | EvProtective string string
  | EvReconcile bool bool nat
  | EvSessionEnd bool nat "bool option" \<comment> \<open>refused, submitted, flat\<close>

record 'b Session =
  ss_world :: "'b World"
  ss_trades :: "(string \<times> int) list"
  ss_reads :: nat \<comment> \<open>how often the broker's positions were read\<close>
  ss_audit :: "engine_event list option"

record Submitted =
  su_symbol :: string
  su_setup :: string
  su_qty :: int
  su_limit_price :: pyfloat
  su_client_order_id :: string

record Outcome =
  ou_symbol :: string
  ou_setup :: string
  ou_verdict :: verdict
  ou_binding_gate :: "gate_name option"
  ou_allowed :: bool
  ou_reason :: string
  ou_adjusted_risk_pct :: "pyfloat option"
  ou_snapshot :: GateSnapshot
  ou_qty :: "int option"

definition log_event :: "engine_event \<Rightarrow> 'b Session \<Rightarrow> 'b Session" where
  "log_event ev s = s\<lparr>ss_audit := map_option (\<lambda>rows. rows @ [ev]) (ss_audit s)\<rparr>"

definition armed :: "'b Engine \<Rightarrow> bool \<Rightarrow> bool" where
  "armed en execute =
     (if \<not> order_path_enabled (en_cfg en) then False else if \<not> execute then False else True)"

section \<open>State the gate reads\<close>

definition ladder_limits :: "Config \<Rightarrow> ladder_thresholds" where
  "ladder_limits cfg =
     \<lparr>soft_pct = cfg_daily_loss_soft_pct cfg, hard_pct = cfg_daily_loss_hard_pct cfg,
      derisk_5d_pct = cfg_derisk_5d_pct cfg, derisk_dd_pct = cfg_derisk_dd_pct cfg,
      halt_dd_pct = cfg_derisk_halt_dd_pct cfg\<rparr>"

definition engine_ladder :: "'b Engine \<Rightarrow> LadderState res" where
  "engine_ladder en =
     (let equity = b_equity (en_book en);
          peak = (case en_equity_history en of [] \<Rightarrow> equity | x # xs \<Rightarrow> foldl pymax x xs)
      in rung_for \<lparr>day_pnl_pct = b_day_pnl_pct (en_book en), five_day_pct = b_five_day_pct (en_book en),
                   drawdown_pct = (if 0 < peak then - (1 - fdiv equity peak) else 0)\<rparr>
           (ladder_limits (en_cfg en)))"

definition engine_vol :: "'b Engine \<Rightarrow> VolScalar res" where
  "engine_vol en =
     (let cfg = en_cfg en in
      vol_scalar (en_daily_returns en)
        ((default_vol_params (cfg_sleeve_intraday_vol_target cfg))
           \<lparr>vp_halflife_days := cfg_vol_halflife_days cfg, vp_warmup_days := cfg_vol_warmup_days cfg,
            vp_cap := cfg_vol_scale_cap cfg, vp_band := cfg_vol_rebalance_band cfg\<rparr>))"

definition engine_es :: "'b Engine \<Rightarrow> ESResult res" where
  "engine_es en =
     (let cfg = en_cfg en in
      es_estimate (en_quantile en) (map uminus (filter (\<lambda>r. r < 0) (en_daily_returns en)))
        (cfg_es_confidence cfg) None default_grid
        (cfg_cluster_cap_pct cfg * cfg_sleeve_intraday_capital_pct cfg) 30)"

definition adv_shares :: "'b Engine \<Rightarrow> string \<Rightarrow> pyfloat option" where
  \<comment> \<open>\<open>_adv_shares\<close> over \<open>_adv\<close>: the mean daily volume\<close>
  "adv_shares en symbol =
     (case en_volumes en symbol of
        None \<Rightarrow> None
      | Some [] \<Rightarrow> None
      | Some vs \<Rightarrow> Some (fdiv (fsum vs) (Fin (of_nat (length vs)))))"

definition int_add :: "string \<Rightarrow> int \<Rightarrow> (string \<times> int) list \<Rightarrow> (string \<times> int) list" where
  "int_add k n d = AList.update k ((case map_of d k of None \<Rightarrow> 0 | Some m \<Rightarrow> m) + n) d"

definition book_with_trades :: "'b Engine \<Rightarrow> (string \<times> int) list \<Rightarrow> BookState" where
  \<comment> \<open>the rebuilt book names its fields one by one: \<open>peak_equity\<close> and \<open>buying_power\<close> are not among them\<close>
  "book_with_trades en trades =
     (let book = en_book en in
      if trades = [] \<and> b_trades_today book = [] then book
      else book\<lparr>b_trades_today := foldl (\<lambda>d (s, n). int_add s n d) (b_trades_today book) trades,
                b_sleeve_trades_today := [(INTRADAY, sum_list (map snd trades))],
                b_peak_equity := None, b_buying_power := None\<rparr>)"

section \<open>One candidate\<close>

definition stop_gap :: "Candidate \<Rightarrow> pyfloat" where
  "stop_gap c = \<bar>cd_entry_price c - cd_stop_price c\<bar>"

definition candidate_request :: "'b Engine \<Rightarrow> Candidate \<Rightarrow> RiskRequest" where
  "candidate_request en c =
     \<lparr>r_sleeve = INTRADAY, r_symbol = cd_symbol c, r_setup = cd_setup c, r_side = cd_side c,
      r_stop_distance = stop_gap c, r_price = cd_entry_price c, r_equity = b_equity (en_book en),
      r_requested_risk_pct = pol_risk_per_trade_pct (intraday_policy (en_cfg en)),
      r_stop_price = Some (cd_stop_price c), r_measured_move_bps = Some (cd_expected_move_bps c),
      r_round_trip_cost_bps = None, r_trailing_volume = adv_shares en (cd_symbol c),
      r_intent_id = None, r_cluster = cd_cluster c, r_sector = None, r_opens_short = False,
      r_planned_notional_usd = None\<rparr>"

definition bare_market :: "'b Engine \<Rightarrow> Candidate \<Rightarrow> MarketState" where
  \<comment> \<open>the market \<open>_submit\<close> hands to the policy and the guard; the other fields are the defaults\<close>
  "bare_market en c =
     \<lparr>m_symbol = cd_symbol c, m_last = Some (cd_entry_price c), m_spread_bps = None,
      m_spread_median_bps = None, m_quote_age_s = None, m_bar_age_s = None,
      m_session = Some ''rth'', m_halted = False, m_reopen_cooldown_s = None, m_tradable = True,
      m_shortable = False, m_ssr = False, m_adv_shares = adv_shares en (cd_symbol c), m_atr = None,
      m_data_quality = ''fresh'', m_price_caliber = Some ''adjusted'', m_impulse_pct = None,
      m_news_shock = False, m_last_bar_high = None, m_last_bar_low = None\<rparr>"

definition gate_market :: "'b Engine \<Rightarrow> Candidate \<Rightarrow> MarketState" where
  "gate_market en c =
     (bare_market en c)\<lparr>m_atr := Some (fdiv (stop_gap c)
        (pymax (cfg_stop_atr_mult (en_cfg en)) (Fin (1 / 1000000000))))\<rparr>"

definition gate_context ::
  "'b Engine \<Rightarrow> datetime \<Rightarrow> (string \<times> int) list \<Rightarrow> Candidate \<Rightarrow> GateContext res" where
  "gate_context en now trades c =
     (let cfg = en_cfg en; book = book_with_trades en trades in
      rbind (budget_for cfg INTRADAY book) (\<lambda>budget.
      rbind (engine_ladder en) (\<lambda>ladder.
      rbind (engine_vol en) (\<lambda>vol.
      rmap (\<lambda>es.
        \<lparr>gc_request = candidate_request en c, gc_book = book, gc_market = gate_market en c,
         gc_mandate = en_mandate en, gc_config = cfg, gc_now = now, gc_ladder = ladder, gc_vol = vol,
         gc_es = es, gc_sleeve_ceiling_pct = sb_capital_ceiling_pct budget,
         gc_sleeve_deployed_pct = sb_deployed_pct budget, gc_day_type = cd_day_type c,
         gc_time_gate_ok = None, gc_other_sleeve_side = None, gc_wash_nets = False,
         gc_stage = ''order'', gc_reference_complete = True, gc_reference_stale = False,
         gc_positions_value_usd = None, gc_decision_age_days = None,
         gc_ingest_window_days = Fin 1, gc_live_invalidations = [], gc_last_signal = None,
         gc_cooldown_hours = Fin 12, gc_action = None, gc_held_symbols = None\<rparr>)
        (engine_es en)))))"

definition sizing_caps :: "'b Engine \<Rightarrow> BookState \<Rightarrow> SleeveBudget \<Rightarrow> SizingCaps" where
  "sizing_caps en book budget =
     (let cfg = en_cfg en in
      \<lparr>sc_sleeve_risk_remaining_pct = pymax 0 (sb_risk_per_trade_pct budget),
       sc_house_heat_remaining_pct = pymax 0 (cfg_max_heat_pct cfg - b_heat_pct book),
       sc_sleeve_notional_room_usd = notional_room_usd budget book,
       sc_participation_cap_pct = cfg_max_adv_pct cfg, sc_kelly_fraction = cfg_kelly_fraction cfg,
       sc_validated_edge = Some (Fin (5 / 100)), sc_kelly_win_loss_ratio = Some (Fin 1),
       sc_kelly_shrink = Fin 1, sc_max_leverage_pct = None\<rparr>)"

definition gate_risk :: "GateDecision \<Rightarrow> RiskRequest \<Rightarrow> pyfloat" where
  \<comment> \<open>\<open>decision.adjusted_risk_pct or request.requested_risk_pct\<close>\<close>
  "gate_risk d r =
     (case gd_adjusted_risk_pct d of
        Some a \<Rightarrow> if truthy a then a else r_requested_risk_pct r | None \<Rightarrow> r_requested_risk_pct r)"

definition candidate_size ::
  "'b Engine \<Rightarrow> (string \<times> int) list \<Rightarrow> Candidate \<Rightarrow> GateDecision \<Rightarrow> RiskDecision res" where
  "candidate_size en trades c d =
     (let book = book_with_trades en trades; r = candidate_request en c in
      rmap (\<lambda>budget. size_request (r\<lparr>r_requested_risk_pct := gate_risk d r\<rparr>)
                       (sizing_caps en book budget) (Fin 1))
        (budget_for (en_cfg en) INTRADAY book))"

definition plan_request :: "'b Engine \<Rightarrow> Candidate \<Rightarrow> RiskRequest" where
  "plan_request en c =
     (candidate_request en c)\<lparr>r_measured_move_bps := None, r_trailing_volume := None, r_cluster := None\<rparr>"

definition entry_intent :: "datetime \<Rightarrow> Candidate \<Rightarrow> ChildOrder \<Rightarrow> OrderIntent" where
  "entry_intent now c child =
     \<lparr>oi_intent_id = cd_symbol c @ ''-'' @ nat_text (co_seq child), oi_sleeve = INTRADAY,
      oi_symbol = cd_symbol c, oi_side = cd_side c, oi_qty = co_qty child,
      oi_order_type = co_order_type child, oi_limit_price = Some (co_limit_price child),
      oi_stop_price = Some (cd_stop_price c), oi_tif = ''day'',
      oi_client_order_id = client_order_id INTRADAY (cd_setup c) (nat_text (co_seq child)),
      oi_created_at = isoformat_seconds now, oi_extended_hours = False\<rparr>"

definition entry_guard :: "'b Engine \<Rightarrow> BookState \<Rightarrow> Candidate \<Rightarrow> guard_context" where
  "entry_guard en book c =
     \<lparr>g_book = book, g_market = bare_market en c, g_mandate = Some (en_mandate en),
      g_config = en_cfg en, g_gate_verdict = Some ''ALLOW'', g_approval_id = None,
      g_requires_approval = False, g_open_orders = [], g_other_sleeve_side = None,
      g_price_of = Some (cd_entry_price c)\<rparr>"

fun submit_children ::
  "'b Engine \<Rightarrow> datetime \<Rightarrow> Candidate \<Rightarrow> BookState \<Rightarrow> 'b Session \<Rightarrow> ChildOrder list
     \<Rightarrow> 'b Session \<times> Submitted option" where
  "submit_children en now c book s [] = (s, None)"
| "submit_children en now c book s (child # rest) =
     (let i = entry_intent now c child; verdict = guard i (entry_guard en book c) in
      if \<not> gr_ok verdict then
        submit_children en now c book
          (log_event (EvDenied (cd_symbol c) (gr_reasons verdict) (gr_binding verdict)) s) rest
      else
        (let (w, r) = submit (en_seam en) i (ss_world s);
             s1 = log_event (EvSubmit (cd_symbol c) (sr_status r) (co_qty child)) (s\<lparr>ss_world := w\<rparr>)
         in if sr_status r = ''submitted'' then
              (s1\<lparr>ss_trades := int_add (cd_symbol c) 1 (ss_trades s1)\<rparr>,
               Some \<lparr>su_symbol = cd_symbol c, su_setup = cd_setup c, su_qty = co_qty child,
                     su_limit_price = co_limit_price child,
                     su_client_order_id = sr_client_order_id r\<rparr>)
            else submit_children en now c book s1 rest))"

definition submit_entry ::
  "'b Engine \<Rightarrow> datetime \<Rightarrow> Candidate \<Rightarrow> int \<Rightarrow> 'b Session \<Rightarrow> 'b Session \<times> Submitted option res" where
  \<comment> \<open>\<open>_submit\<close>: only a \<open>ValueError\<close> of the policy is a skip\<close>
  "submit_entry en now c qty s =
     (case plan_entry (plan_request en c) qty (bare_market en c) (en_cfg en) None of
        Inl ValueError \<Rightarrow> (log_event (EvSkipped (cd_symbol c)) s, Inr None)
      | Inl e \<Rightarrow> (s, Inl e)
      | Inr plan \<Rightarrow>
          (let (s', sub) = submit_children en now c (book_with_trades en (ss_trades s)) s (op_orders plan)
           in (s', Inr sub)))"

definition outcome_of :: "Candidate \<Rightarrow> GateDecision \<Rightarrow> Outcome" where
  "outcome_of c d =
     \<lparr>ou_symbol = cd_symbol c, ou_setup = cd_setup c, ou_verdict = gd_verdict d,
      ou_binding_gate = gd_binding_gate d, ou_allowed = allowed d,
      ou_reason = gd_permission_reason_code d, ou_adjusted_risk_pct = gd_adjusted_risk_pct d,
      ou_snapshot = gd_state_snapshot d, ou_qty = None\<rparr>"

definition assess :: "'b Engine \<Rightarrow> datetime \<Rightarrow> (string \<times> int) list \<Rightarrow> Candidate \<Rightarrow> GateDecision res" where
  "assess en now trades c = rbind (gate_context en now trades c) evaluate"

definition evaluate_candidate ::
  "'b Engine \<Rightarrow> datetime \<Rightarrow> bool \<Rightarrow> 'b Session \<Rightarrow> Candidate
     \<Rightarrow> 'b Session \<times> (Outcome \<times> Submitted option) res" where
  "evaluate_candidate en now is_armed s c =
     (case assess en now (ss_trades s) c of
        Inl e \<Rightarrow> (s, Inl e)
      | Inr d \<Rightarrow>
          (let out = outcome_of c d in
           if \<not> allowed d then (s, Inr (out, None))
           else if \<not> is_armed then (s, Inr (out, None))
           else (case candidate_size en (ss_trades s) c d of
             Inl e \<Rightarrow> (s, Inl e)
           | Inr sz \<Rightarrow>
               if \<not> rd_ok sz then (s, Inr (out\<lparr>ou_reason := rd_reason sz\<rparr>, None))
               else sbind (submit_entry en now c (rd_qty sz) s)
                      (\<lambda>s' sub. (s', Inr (out\<lparr>ou_qty := Some (rd_qty sz)\<rparr>, sub))))))"

record Skip =
  sk_symbol :: string
  sk_reason :: string
  sk_setup :: "string option"

fun candidates_loop ::
  "'b Engine \<Rightarrow> datetime \<Rightarrow> bool \<Rightarrow> 'b Session \<Rightarrow> Candidate list
     \<Rightarrow> 'b Session \<times> (Outcome list \<times> Submitted list \<times> Skip list) res" where
  "candidates_loop en now is_armed s [] = (s, Inr ([], [], []))"
| "candidates_loop en now is_armed s (c # cs) =
     sbind (evaluate_candidate en now is_armed s c) (\<lambda>s1 (out, sub).
     sbind (candidates_loop en now is_armed s1 cs) (\<lambda>s2 (outs, subs, skips).
       (s2, Inr (if \<not> ou_allowed out
                 then (out # outs, subs,
                       \<lparr>sk_symbol = cd_symbol c, sk_reason = ou_reason out,
                        sk_setup = Some (cd_setup c)\<rparr> # skips)
                 else (out # outs, (case sub of None \<Rightarrow> subs | Some x \<Rightarrow> x # subs), skips)))))"

section \<open>Protection, flattening, reconciliation\<close>

definition sleeve_positions :: "'b Engine \<Rightarrow> Position list" where
  "sleeve_positions en = filter (\<lambda>p. p_sleeve p = INTRADAY) (b_positions (en_book en))"

fun submit_legs ::
  "'b seam \<Rightarrow> OrderIntent list \<Rightarrow> 'b Session \<Rightarrow> 'b Session \<times> (string \<times> string \<times> string) list" where
  \<comment> \<open>the protective legs: symbol, id and status of each\<close>
  "submit_legs sm [] s = (s, [])"
| "submit_legs sm (i # is) s =
     (let (w, r) = submit sm i (ss_world s);
          (s', rows) = submit_legs sm is
            (log_event (EvProtective (oi_symbol i) (sr_status r)) (s\<lparr>ss_world := w\<rparr>))
      in (s', (oi_symbol i, sr_client_order_id r, sr_status r) # rows))"

definition covered_keys :: "'b Engine \<Rightarrow> string list res" where
  \<comment> \<open>the keys of the \<open>stops\<close> that \<open>_protect\<close> passes on; an open order is an \<open>OrderState\<close>, whose
     \<open>.get\<close> does not exist\<close>
  "covered_keys en =
     (case en_states en of
        Some m \<Rightarrow> if open_orders m \<noteq> [] then Inl AttributeError
                  else Inr (map p_symbol (filter (\<lambda>p. p_stop p \<noteq> None) (b_positions (en_book en))))
      | None \<Rightarrow> Inr (map p_symbol (filter (\<lambda>p. p_stop p \<noteq> None) (b_positions (en_book en)))))"

definition protect ::
  "'b Engine \<Rightarrow> 'b Session \<Rightarrow> 'b Session \<times> (string \<times> string \<times> string) list res" where
  "protect en s =
     (if sleeve_positions en = [] then (s, Inr [])
      else (case rbind (covered_keys en) (\<lambda>covered.
              protective_orders (sleeve_positions en) covered (en_cfg en) (en_clock_text en)) of
          Inl e \<Rightarrow> (s, Inl e)
        | Inr legs \<Rightarrow> (let (s', rows) = submit_legs (en_seam en) legs s in (s', Inr rows))))"

datatype flat_detail = FNone | FNothing | FVerdict flat_verdict | FNeedsBroker

fun send_all :: "'b seam \<Rightarrow> OrderIntent list \<Rightarrow> 'b World \<Rightarrow> 'b World" where
  "send_all sm [] w = w"
| "send_all sm (i # is) w = send_all sm is (fst (submit sm i w))"

definition read_broker ::
  "'b Engine \<Rightarrow> 'b Session \<Rightarrow> (nat \<Rightarrow> Position list option res) \<Rightarrow> 'b Session \<times> Position list option res" where
  "read_broker en s read = (s\<lparr>ss_reads := Suc (ss_reads s)\<rparr>, read (ss_reads s))"

definition flatten ::
  "'b Engine \<Rightarrow> datetime \<Rightarrow> 'b Session \<Rightarrow> 'b Session \<times> (bool \<times> flat_detail) res" where
  \<comment> \<open>\<open>verify_flat\<close> is handed the positions themselves: a missing read is \<open>tuple(None)\<close>\<close>
  "flatten en now s =
     (let positions = sleeve_positions en in
      if positions = [] then (s, Inr (True, FNothing))
      else (case flatten_plan (en_to_et en) positions now (isoformat now) (en_cfg en) True of
          Inl e \<Rightarrow> (s, Inl e)
        | Inr plan \<Rightarrow>
            (let s1 = s\<lparr>ss_world := send_all (en_seam en) (fp_orders plan) (ss_world s)\<rparr> in
             case en_broker_positions en of
               None \<Rightarrow> (s1, Inr (False, FNeedsBroker))
             | Some read \<Rightarrow>
                 sbind (read_broker en s1 read) (\<lambda>s2 answer.
                   (s2, case answer of
                          None \<Rightarrow> Inl TypeError
                        | Some ps \<Rightarrow> rmap (\<lambda>v. (v = VFlat, FVerdict v)) (verify_flat (\<lambda>_. Some ps) 1))))))"

definition fill_record :: "Fill \<Rightarrow> qty_record" where
  "fill_record f = \<lparr>q_symbol = Some (fl_symbol f), q_qty = Some (Fin (of_int (fl_qty f)))\<rparr>"

definition position_record :: "Position \<Rightarrow> qty_record" where
  "position_record p = \<lparr>q_symbol = Some (p_symbol p), q_qty = Some (p_qty p)\<rparr>"

definition engine_reconcile ::
  "'b Engine \<Rightarrow> 'b Session \<Rightarrow> 'b Session \<times> (bool option \<times> Drift list) res" where
  "engine_reconcile en s =
     (case (en_states en, en_broker_positions en) of
        (Some m, Some read) \<Rightarrow>
          sbind (read_broker en s read) (\<lambda>s1 answer.
            (case rbind (case answer of None \<Rightarrow> Inl TypeError | Some ps \<Rightarrow> Inr ps) (\<lambda>ps.
                    reconcile (map fill_record (sm_fills m)) (map position_record ps) []
                      (map (\<lambda>o'. Some (os_client_order_id o')) (open_orders m)) None None (Fin 0) (Fin 1)) of
               Inl e \<Rightarrow> (s1, Inl e)
             | Inr rep \<Rightarrow>
                 (log_event (EvReconcile (rr_ok rep) (rr_halt rep) (length (rr_drift rep))) s1,
                  Inr (Some (rr_ok rep), rr_drift rep))))
      | _ \<Rightarrow> (s, Inr (None, [])))"

section \<open>The run\<close>

record SessionResult =
  sn_session :: string
  sn_scanned :: nat
  sn_candidates :: "Candidate list"
  sn_gated :: "Outcome list"
  sn_submitted :: "Submitted list"
  sn_skipped :: "Skip list"
  sn_protective :: "(string \<times> string \<times> string) list"
  sn_flat :: "bool option"
  sn_flat_detail :: flat_detail
  sn_reconciled :: "bool option"
  sn_drift :: "Drift list"
  sn_halted :: bool
  sn_trades_today :: "(string \<times> int) list"

definition engine_run ::
  "'b Engine \<Rightarrow> bool \<Rightarrow> datetime \<Rightarrow> bool \<Rightarrow> Candidate list \<Rightarrow> Skip list \<Rightarrow> 'b Session
     \<Rightarrow> 'b Session \<times> SessionResult res" where
  "engine_run en execute now flat_wanted candidates scan_skips s =
     (let is_armed = armed en execute in
      sbind (candidates_loop en now is_armed s candidates) (\<lambda>s1 (gated, submitted, skips).
      sbind (if is_armed \<and> en_states en \<noteq> None then protect en s1 else (s1, Inr [])) (\<lambda>s2 protective.
      sbind (if flat_wanted \<and> is_armed
             then sbind (flatten en now s2) (\<lambda>t (flat, detail). (t, Inr (Some flat, detail)))
             else (s2, Inr (None, FNone))) (\<lambda>s3 (flat, detail).
      sbind (engine_reconcile en s3) (\<lambda>s4 (reconciled, drift).
        (case engine_ladder en of
           Inl e \<Rightarrow> (s4, Inl e)
         | Inr ladder \<Rightarrow>
             (log_event (EvSessionEnd (\<not> is_armed) (length submitted) flat) s4,
              Inr \<lparr>sn_session = date_text (date_of now), sn_scanned = length (en_universe en),
                   sn_candidates = candidates, sn_gated = gated, sn_submitted = submitted,
                   sn_skipped = scan_skips @ skips, sn_protective = protective, sn_flat = flat,
                   sn_flat_detail = detail, sn_reconciled = reconciled, sn_drift = drift,
                   sn_halted = (l_halt ladder \<or> \<not> is_armed), sn_trades_today = ss_trades s4\<rparr>)))))))"

section \<open>What reaches the broker\<close>

definition submits :: "effect list \<Rightarrow> payload list" where
  \<comment> \<open>the submitted payloads of a trace, in order\<close>
  "submits tr = concat (map (\<lambda>e. case e of Called MSubmit p _ \<Rightarrow> [p] | _ \<Rightarrow> []) tr)"

lemma submits_simps [simp]:
  "submits [] = []" "submits (Called MSubmit p r # tr) = p # submits tr"
  "submits (Appended row # tr) = submits tr" "submits (xs @ ys) = submits xs @ submits ys"
  by (simp_all add: submits_def)

definition sends :: "'b World \<Rightarrow> payload list \<Rightarrow> 'b World \<Rightarrow> bool" where
  \<comment> \<open>from one world to a later one the trace only grew, by exactly these submissions\<close>
  "sends w ps w' \<longleftrightarrow> (\<exists>new. w_trace w' = w_trace w @ new \<and> submits new = ps)"

lemma sends_refl [simp]: "sends w [] w"
  by (simp add: sends_def)

lemma sends_trans: "sends w ps w1 \<Longrightarrow> sends w1 qs w2 \<Longrightarrow> sends w (ps @ qs) w2"
  unfolding sends_def by (metis append.assoc submits_simps(4))

lemma sends_submit:
  assumes "submit sm i w = (w', r)"
  shows "sends w [submit_payload i] w'"
proof -
  from submit_shape [OF assms] obtain t a tail where
    tr: "extends w ([Appended (pending_row i t), Called MSubmit (submit_payload i) a] @ tail) w'"
    and tl: "if sr_status r = ''rejected''
       then \<exists>t'. tail = [Appended (resolution_row (oi_client_order_id i) ''rejected'' t')] else tail = []"
    by blast
  from tl have "submits tail = []" by (auto split: if_splits)
  with tr show ?thesis by (auto simp: sends_def extends_def)
qed

lemma log_event_simps [simp]:
  "ss_world (log_event e s) = ss_world s" "ss_trades (log_event e s) = ss_trades s"
  by (simp_all add: log_event_def)

lemma submit_children_sends:
  assumes "submit_children en now c book s children = (s', sub)"
  shows "\<exists>sent. subseq sent children
    \<and> sends (ss_world s) (map (\<lambda>ch. submit_payload (entry_intent now c ch)) sent) (ss_world s')
    \<and> (\<forall>ch \<in> set sent. gr_ok (guard (entry_intent now c ch) (entry_guard en book c)))
    \<and> ss_trades s' = (if sub = None then ss_trades s else int_add (cd_symbol c) 1 (ss_trades s))
    \<and> (sub \<noteq> None \<longrightarrow> sent \<noteq> [])"
  using assms
proof (induction children arbitrary: s)
  case Nil
  then show ?case by auto
next
  case (Cons ch rest)
  let ?i = "entry_intent now c ch"
  show ?case
  proof (cases "gr_ok (guard ?i (entry_guard en book c))")
    case False
    define s1 where "s1 = log_event (EvDenied (cd_symbol c) (gr_reasons (guard ?i (entry_guard en book c)))
      (gr_binding (guard ?i (entry_guard en book c)))) s"
    have "submit_children en now c book s1 rest = (s', sub)"
      using Cons.prems False by (simp add: s1_def Let_def)
    from Cons.IH [OF this] obtain sent where "subseq sent rest"
      "sends (ss_world s) (map (\<lambda>ch. submit_payload (entry_intent now c ch)) sent) (ss_world s')"
      "\<forall>ch \<in> set sent. gr_ok (guard (entry_intent now c ch) (entry_guard en book c))"
      "ss_trades s' = (if sub = None then ss_trades s else int_add (cd_symbol c) 1 (ss_trades s))"
      "sub \<noteq> None \<longrightarrow> sent \<noteq> []"
      by (auto simp: s1_def)
    then show ?thesis by (intro exI [of _ sent]) auto
  next
    case True
    obtain w r where w: "submit (en_seam en) ?i (ss_world s) = (w, r)" by (cases "submit (en_seam en) ?i (ss_world s)")
    note snd1 = sends_submit [OF w]
    show ?thesis
    proof (cases "sr_status r = ''submitted''")
      case sub: True
      with Cons.prems True w show ?thesis
        using snd1 by (intro exI [of _ "[ch]"]) auto
    next
      case no: False
      define s1 where "s1 = log_event (EvSubmit (cd_symbol c) (sr_status r) (co_qty ch)) (s\<lparr>ss_world := w\<rparr>)"
      have "submit_children en now c book s1 rest = (s', sub)"
        using Cons.prems True w no by (simp add: s1_def)
      from Cons.IH [OF this] obtain sent where sent: "subseq sent rest"
        "sends w (map (\<lambda>ch. submit_payload (entry_intent now c ch)) sent) (ss_world s')"
        "\<forall>ch \<in> set sent. gr_ok (guard (entry_intent now c ch) (entry_guard en book c))"
        "ss_trades s' = (if sub = None then ss_trades s else int_add (cd_symbol c) 1 (ss_trades s))"
        by (auto simp: s1_def)
      from sends_trans [OF snd1 sent(2)] sent True show ?thesis
        by (intro exI [of _ "ch # sent"]) auto
    qed
  qed
qed

lemma sum_list_subseq_le:
  "subseq xs ys \<Longrightarrow> \<forall>y \<in> set ys. 0 \<le> (f y :: int) \<Longrightarrow> sum_list (map f xs) \<le> sum_list (map f ys)"
  by (induction rule: list_emb.induct) (auto intro!: sum_list_nonneg)

text \<open>What an entry at the broker rests on: the gate, the sizer and the guard on its candidate.\<close>

definition entry_basis ::
  "'b Engine \<Rightarrow> datetime \<Rightarrow> (string \<times> int) list \<Rightarrow> Candidate \<Rightarrow> ChildOrder list \<Rightarrow> bool" where
  "entry_basis en now trades c sent \<longleftrightarrow>
     (\<exists>d sz. assess en now trades c = Inr d \<and> allowed d \<and> candidate_size en trades c d = Inr sz \<and> rd_ok sz
        \<and> sum_list (map co_qty sent) \<le> rd_qty sz
        \<and> (\<forall>ch \<in> set sent. 1 \<le> co_qty ch
             \<and> gr_ok (guard (entry_intent now c ch) (entry_guard en (book_with_trades en trades) c))))"

definition entry_sends ::
  "'b Engine \<Rightarrow> datetime \<Rightarrow> bool \<Rightarrow> Candidate \<Rightarrow> 'b Session \<Rightarrow> ChildOrder list \<Rightarrow> 'b Session \<Rightarrow> bool" where
  "entry_sends en now is_armed c s sent s' \<longleftrightarrow>
     sends (ss_world s) (map (\<lambda>ch. submit_payload (entry_intent now c ch)) sent) (ss_world s')
     \<and> (sent \<noteq> [] \<longrightarrow> is_armed \<and> entry_basis en now (ss_trades s) c sent)
     \<and> (ss_trades s' = ss_trades s
          \<or> sent \<noteq> [] \<and> ss_trades s' = int_add (cd_symbol c) 1 (ss_trades s))"

lemma entry_sends_none: "entry_sends en now a c s [] s"
  by (simp add: entry_sends_def)

lemma submit_entry_sends:
  assumes "submit_entry en now c qty s = (s', out)"
  shows "\<exists>sent. sends (ss_world s) (map (\<lambda>ch. submit_payload (entry_intent now c ch)) sent) (ss_world s')
    \<and> (sent \<noteq> [] \<longrightarrow> sum_list (map co_qty sent) \<le> qty)
    \<and> (\<forall>ch \<in> set sent. 1 \<le> co_qty ch \<and> gr_ok (guard (entry_intent now c ch)
          (entry_guard en (book_with_trades en (ss_trades s)) c)))
    \<and> (ss_trades s' = ss_trades s
         \<or> sent \<noteq> [] \<and> ss_trades s' = int_add (cd_symbol c) 1 (ss_trades s))"
proof (cases "plan_entry (plan_request en c) qty (bare_market en c) (en_cfg en) None")
  case (Inl e)
  with assms have "ss_world s' = ss_world s" "ss_trades s' = ss_trades s"
    by (auto simp: submit_entry_def split: exc.splits)
  then show ?thesis by (intro exI [of _ "[]"]) simp
next
  case (Inr plan)
  then obtain style urgent where b: "build_plan (plan_request en c) qty (bare_market en c) (en_cfg en) style urgent
      = Inr plan" by (auto simp: plan_entry_def)
  from b obtain p dev limit where q: "1 \<le> qty" and orders: "op_orders plan =
      map (make_child (if style = ''resting_limit'' then ''limit'' else ''marketable_limit'') limit style)
        (List.enumerate 0 (child_sizes qty (slice_count qty (m_adv_shares (bare_market en c)))))"
    by (elim build_plan_InrD)
  note total = child_orders(1) [OF q orders]
  have pos: "\<forall>ch \<in> set (op_orders plan). 1 \<le> co_qty ch" using child_orders(4) [OF q orders] by blast
  from Inr assms obtain sub where sc:
    "submit_children en now c (book_with_trades en (ss_trades s)) s (op_orders plan) = (s', sub)"
    by (auto simp: submit_entry_def split: prod.splits)
  from submit_children_sends [OF sc] obtain sent where sent: "subseq sent (op_orders plan)"
    "sends (ss_world s) (map (\<lambda>ch. submit_payload (entry_intent now c ch)) sent) (ss_world s')"
    "\<forall>ch \<in> set sent. gr_ok (guard (entry_intent now c ch)
       (entry_guard en (book_with_trades en (ss_trades s)) c))"
    "ss_trades s' = (if sub = None then ss_trades s else int_add (cd_symbol c) 1 (ss_trades s))"
    "sub \<noteq> None \<longrightarrow> sent \<noteq> []" by blast
  have "sum_list (map co_qty sent) \<le> qty"
    using sum_list_subseq_le [OF sent(1), of co_qty] pos total by force
  moreover have "\<forall>ch \<in> set sent. 1 \<le> co_qty ch"
    using pos by (auto elim!: list_emb_set [OF sent(1)])
  ultimately show ?thesis using sent by (intro exI [of _ sent]) (auto split: if_splits)
qed

lemma evaluate_candidate_sends:
  assumes "evaluate_candidate en now is_armed s c = (s', out)"
  shows "\<exists>sent. entry_sends en now is_armed c s sent s'"
proof (cases "s' = s")
  case True
  then show ?thesis using entry_sends_none by blast
next
  case False
  with assms obtain d where d: "assess en now (ss_trades s) c = Inr d" "allowed d" "is_armed"
    by (auto simp: evaluate_candidate_def Let_def split: sum.splits if_splits)
  with assms False obtain sz where sz: "candidate_size en (ss_trades s) c d = Inr sz" "rd_ok sz"
    by (auto simp: evaluate_candidate_def Let_def split: sum.splits if_splits)
  obtain t res where t: "submit_entry en now c (rd_qty sz) s = (t, res)"
    by (cases "submit_entry en now c (rd_qty sz) s")
  with assms d sz have "s' = t"
    by (cases res) (simp_all add: evaluate_candidate_def)
  from submit_entry_sends [OF t] obtain sent where
    sent: "sends (ss_world s) (map (\<lambda>ch. submit_payload (entry_intent now c ch)) sent) (ss_world t)"
    "sent \<noteq> [] \<longrightarrow> sum_list (map co_qty sent) \<le> rd_qty sz"
    "\<forall>ch \<in> set sent. 1 \<le> co_qty ch \<and> gr_ok (guard (entry_intent now c ch)
          (entry_guard en (book_with_trades en (ss_trades s)) c))"
    "ss_trades t = ss_trades s \<or> sent \<noteq> [] \<and> ss_trades t = int_add (cd_symbol c) 1 (ss_trades s)"
    by blast
  have "sent \<noteq> [] \<longrightarrow> entry_basis en now (ss_trades s) c sent"
    unfolding entry_basis_def using d(1,2) sz sent(2,3) by blast
  with sent(1,4) d(3) \<open>s' = t\<close> show ?thesis unfolding entry_sends_def by blast
qed

section \<open>The session as a whole\<close>

definition entry_payload ::
  "'b Engine \<Rightarrow> datetime \<Rightarrow> bool \<Rightarrow> Candidate list \<Rightarrow> payload \<Rightarrow> bool" where
  \<comment> \<open>the payload of a guarded child of a sized candidate that the gate permits\<close>
  "entry_payload en now is_armed cs p \<longleftrightarrow>
     is_armed \<and> (\<exists>c \<in> set cs. \<exists>trades sent. entry_basis en now trades c sent
       \<and> (\<exists>ch \<in> set sent. p = submit_payload (entry_intent now c ch)))"

definition exit_payload :: "'b Engine \<Rightarrow> datetime \<Rightarrow> payload \<Rightarrow> bool" where
  "exit_payload en now p \<longleftrightarrow>
     (\<exists>plan. flatten_plan (en_to_et en) (sleeve_positions en) now (isoformat now) (en_cfg en) True = Inr plan
        \<and> (\<exists>i \<in> set (fp_orders plan). p = submit_payload i))"

lemma entry_sends_payloads:
  assumes "entry_sends en now a c s sent s'" "c \<in> set cs"
  shows "\<exists>ps. sends (ss_world s) ps (ss_world s') \<and> (\<forall>p \<in> set ps. entry_payload en now a cs p)"
proof -
  let ?ps = "map (\<lambda>ch. submit_payload (entry_intent now c ch)) sent"
  have "entry_payload en now a cs p" if "p \<in> set ?ps" for p
  proof -
    from that obtain ch where "ch \<in> set sent" "p = submit_payload (entry_intent now c ch)" by auto
    moreover from this have "sent \<noteq> []" by auto
    ultimately show ?thesis using assms unfolding entry_sends_def entry_payload_def by blast
  qed
  with assms(1) show ?thesis unfolding entry_sends_def by blast
qed

lemma entry_payload_mono: "entry_payload en now a cs p \<Longrightarrow> set cs \<subseteq> set ds \<Longrightarrow> entry_payload en now a ds p"
  unfolding entry_payload_def by blast

lemma candidates_loop_sends:
  assumes "candidates_loop en now a s cs = (s', out)"
  shows "\<exists>ps. sends (ss_world s) ps (ss_world s') \<and> (\<forall>p \<in> set ps. entry_payload en now a cs p)"
  using assms
proof (induction cs arbitrary: s s' out)
  case Nil
  then show ?case by (intro exI [of _ "[]"]) simp
next
  case (Cons c cs)
  obtain s1 r1 where e: "evaluate_candidate en now a s c = (s1, r1)" by (cases "evaluate_candidate en now a s c")
  obtain s2 r2 where l: "candidates_loop en now a s1 cs = (s2, r2)" by (cases "candidates_loop en now a s1 cs")
  from evaluate_candidate_sends [OF e] obtain sent where "entry_sends en now a c s sent s1" by blast
  from entry_sends_payloads [OF this, of "c # cs"] obtain ps where
    ps: "sends (ss_world s) ps (ss_world s1)" "\<forall>p \<in> set ps. entry_payload en now a (c # cs) p" by auto
  from Cons.IH [OF l] obtain qs where
    qs: "sends (ss_world s1) qs (ss_world s2)" "\<forall>p \<in> set qs. entry_payload en now a cs p" by blast
  have all: "\<forall>p \<in> set (ps @ qs). entry_payload en now a (c # cs) p"
    using ps(2) qs(2) entry_payload_mono [of en now a cs _ "c # cs"] by auto
  show ?case
  proof (cases r1)
    case (Inl x)
    with Cons.prems e have "s' = s1" by simp
    with ps show ?thesis by blast
  next
    case (Inr x)
    with Cons.prems e l have "s' = s2"
      by (cases r2) (auto split: prod.splits)
    with sends_trans [OF ps(1) qs(1)] all show ?thesis by blast
  qed
qed

text \<open>
  \<open>_protect\<close> hands \<open>protective_orders\<close> the stops of the positions that have one, where that function
  takes the ones already working: a position with a stop counts as covered, and one without has no
  level to protect at. So no protective order is ever built.
\<close>

lemma no_leg_needed:
  assumes "covered_keys en = Inr covered"
  shows "protective_orders (sleeve_positions en) covered cfg stamp = Inr legs \<Longrightarrow> legs = []"
proof -
  assume "protective_orders (sleeve_positions en) covered cfg stamp = Inr legs"
  then have "map oi_symbol legs = map p_symbol (filter (needs_leg covered) (sort_key p_symbol (sleeve_positions en)))"
    unfolding protective_orders_def by (rule protective_loop_symbols)
  moreover have "\<not> needs_leg covered p" if "p \<in> set (sleeve_positions en)" for p
  proof -
    have "set covered = p_symbol ` {q \<in> set (b_positions (en_book en)). p_stop q \<noteq> None}"
      using assms by (auto simp: covered_keys_def split: option.splits if_splits)
    with that show ?thesis by (auto simp: needs_leg_def sleeve_positions_def)
  qed
  then have "filter (needs_leg covered) (sort_key p_symbol (sleeve_positions en)) = []"
    by (simp add: filter_empty_conv)
  ultimately show "legs = []" by simp
qed

lemma protect_never_protects:
  "fst (protect en s) = s \<and> (snd (protect en s) = Inr [] \<or> isl (snd (protect en s)))"
proof (cases "rbind (covered_keys en) (\<lambda>covered.
              protective_orders (sleeve_positions en) covered (en_cfg en) (en_clock_text en))")
  case (Inl e)
  then show ?thesis by (simp add: protect_def)
next
  case (Inr legs)
  then have "legs = []" using no_leg_needed by (auto simp: rbind_Inr_iff)
  with Inr show ?thesis by (simp add: protect_def)
qed

lemma send_all_sends: "sends w (map submit_payload is) (send_all sm is w)"
proof (induction "is" arbitrary: w)
  case (Cons i "is")
  obtain w1 r where "submit sm i w = (w1, r)" by (cases "submit sm i w")
  with sends_trans [OF sends_submit [OF this] Cons.IH] show ?case by simp
qed simp

lemma flatten_sends:
  assumes "flatten en now s = (s', out)"
  shows "\<exists>ps. sends (ss_world s) ps (ss_world s') \<and> (\<forall>p \<in> set ps. exit_payload en now p)"
proof (cases "sleeve_positions en = []")
  case True
  with assms have "s' = s" by (simp add: flatten_def)
  then show ?thesis by (intro exI [of _ "[]"]) simp
next
  case ne: False
  show ?thesis
  proof (cases "flatten_plan (en_to_et en) (sleeve_positions en) now (isoformat now) (en_cfg en) True")
    case (Inl e)
    with assms ne have "s' = s" by (simp add: flatten_def)
    then show ?thesis by (intro exI [of _ "[]"]) simp
  next
    case (Inr plan)
    have "ss_world s' = send_all (en_seam en) (fp_orders plan) (ss_world s)"
      using assms ne Inr
      by (auto simp: flatten_def Let_def read_broker_def sbind_def split: option.splits prod.splits sum.splits)
    moreover have "exit_payload en now p" if "p \<in> set (map submit_payload (fp_orders plan))" for p
      using that Inr by (auto simp: exit_payload_def)
    ultimately show ?thesis using send_all_sends by metis
  qed
qed

lemma reconcile_keeps_world: "engine_reconcile en s = (s', out) \<Longrightarrow> ss_world s' = ss_world s"
  by (auto simp: engine_reconcile_def read_broker_def sbind_def Let_def
      split: option.splits sum.splits prod.splits)

definition via :: "(payload \<Rightarrow> bool) \<Rightarrow> 'b Session \<Rightarrow> 'b Session \<Rightarrow> bool" where
  \<comment> \<open>between two sessions only payloads of this kind were sent\<close>
  "via P s s' \<longleftrightarrow> (\<exists>ps. sends (ss_world s) ps (ss_world s') \<and> (\<forall>p \<in> set ps. P p))"

lemma via_still: "ss_world s' = ss_world s \<Longrightarrow> via P s s'"
  unfolding via_def by (intro exI [of _ "[]"]) simp

lemma via_trans: "via P s s1 \<Longrightarrow> via P s1 s2 \<Longrightarrow> via P s s2"
  unfolding via_def by (elim exE conjE, drule (1) sends_trans, rule exI, rule conjI, assumption) auto

lemma via_sbind:
  assumes "via P s (fst m)" "\<And>s1 x. m = (s1, Inr x) \<Longrightarrow> via P s1 (fst (f s1 x))"
  shows "via P s (fst (sbind m f))"
proof (cases "snd m")
  case (Inl e)
  then have m: "m = (fst m, Inl e)" by (metis prod.collapse)
  from assms(1) show ?thesis by (subst m) simp
next
  case (Inr x)
  then have m: "m = (fst m, Inr x)" by (metis prod.collapse)
  from via_trans [OF assms(1) assms(2) [OF m]] show ?thesis by (subst m) simp
qed

lemma via_flatten: "via (exit_payload en now) s (fst (flatten en now s))"
  unfolding via_def by (rule flatten_sends [of _ _ _ _ "snd (flatten en now s)"]) simp

lemma engine_run_sends:
  assumes "engine_run en execute now flat_wanted cs skips s = (s', out)"
  shows "\<exists>ps qs. sends (ss_world s) (ps @ qs) (ss_world s')
    \<and> (\<forall>p \<in> set ps. entry_payload en now (armed en execute) cs p)
    \<and> (\<forall>p \<in> set qs. armed en execute \<and> flat_wanted \<and> exit_payload en now p)"
proof -
  let ?a = "armed en execute" and ?P = "\<lambda>p. armed en execute \<and> flat_wanted \<and> exit_payload en now p"
  obtain s1 r1 where l: "candidates_loop en now ?a s cs = (s1, r1)" by (cases "candidates_loop en now ?a s cs")
  from candidates_loop_sends [OF l] obtain ps where
    ps: "sends (ss_world s) ps (ss_world s1)" "\<forall>p \<in> set ps. entry_payload en now ?a cs p" by blast
  have flat: "via ?P t (fst (if flat_wanted \<and> ?a
      then sbind (flatten en now t) (\<lambda>t (flat, detail). (t, Inr (Some flat, detail)))
      else (t, Inr (None, FNone))))" for t
  proof (cases "flat_wanted \<and> ?a")
    case True
    then have "?P = exit_payload en now" by auto
    then show ?thesis
      using True by (simp add: via_sbind [OF via_flatten] via_still split: prod.split)
  next
    case False
    then show ?thesis by (simp only: if_False via_still fst_conv)
  qed
  have "via ?P s1 (fst (engine_run en execute now flat_wanted cs skips s))"
  proof (cases r1)
    case (Inl e)
    then show ?thesis by (simp add: engine_run_def Let_def l via_still)
  next
    case (Inr x)
    obtain gated submitted skips' where x: "x = (gated, submitted, skips')" by (cases x)
    show ?thesis
      unfolding engine_run_def Let_def l Inr x sbind_simps prod.case
      apply (rule via_sbind)
       apply (rule via_still, use protect_never_protects [of en s1] in \<open>simp\<close>)
      apply (rule via_sbind, rule flat)
      subgoal for s2 prot s3 y
        apply (cases y, simp only: prod.case)
        apply (rule via_sbind)
         apply (rule via_still, rule reconcile_keeps_world, rule surjective_pairing)
        subgoal for fl det s4 z
          by (cases z) (auto intro: via_still split: sum.splits)
        done
      done
  qed
  with assms have "via ?P s1 s'" by simp
  then obtain qs where "sends (ss_world s1) qs (ss_world s')" "\<forall>p \<in> set qs. ?P p" unfolding via_def by blast
  with sends_trans [OF ps(1)] ps(2) show ?thesis by blast
qed

lemma disarmed_candidate: "fst (evaluate_candidate en now False s c) = s"
  by (auto simp: evaluate_candidate_def Let_def split: sum.splits)

lemma disarmed_loop: "fst (candidates_loop en now False s cs) = s"
proof (induction cs)
  case (Cons c cs)
  obtain r where "evaluate_candidate en now False s c = (s, r)"
    using disarmed_candidate [of en now s c] by (metis prod.collapse)
  moreover obtain r' where "candidates_loop en now False s cs = (s, r')"
    using Cons by (metis prod.collapse)
  ultimately show ?case by (cases r; cases r') (auto split: prod.splits)
qed simp

lemma disarmed_run:
  assumes "engine_run en execute now flat_wanted cs skips s = (s', out)" "\<not> armed en execute"
  shows "ss_world s' = ss_world s"
proof -
  obtain r where "candidates_loop en now False s cs = (s, r)"
    using disarmed_loop [of en now s cs] by (metis prod.collapse)
  moreover obtain s4 r4 where r4: "engine_reconcile en s = (s4, r4)" by (cases "engine_reconcile en s")
  ultimately have "ss_world s' = ss_world s \<or> ss_world s' = ss_world s4"
    using assms by (cases r; cases r4) (auto simp: engine_run_def Let_def split: prod.splits sum.splits)
  with reconcile_keeps_world [OF r4] show ?thesis by auto
qed

section \<open>The risk of one candidate\<close>

lemma gate_context_Inr:
  assumes "gate_context en now trades c = Inr ctx"
  obtains budget ladder vol es where "budget_for (en_cfg en) INTRADAY (book_with_trades en trades) = Inr budget"
    "engine_ladder en = Inr ladder" "engine_vol en = Inr vol" "engine_es en = Inr es"
    "gc_request ctx = candidate_request en c" "gc_ladder ctx = ladder" "gc_stage ctx = ''order''"
    "gc_config ctx = en_cfg en" "gc_mandate ctx = en_mandate en" "gc_now ctx = now"
    "gc_book ctx = book_with_trades en trades" "gc_es ctx = es" "gc_market ctx = gate_market en c"
  using assms unfolding gate_context_def Let_def rbind_Inr_iff rmap_Inr_iff by auto

lemma engine_ladder_positive:
  assumes "engine_ladder en = Inr l" shows "l_halt l \<or> 0 < l_size_multiplier l"
proof -
  obtain p t where "rung_for p t = Inr l" using assms unfolding engine_ladder_def Let_def by blast
  then have "rung_state (l_rung l) = Inr l" using rung_for_worst by blast
  from rung_state_InrD [OF this] show ?thesis by (auto split: if_splits)
qed

lemma assess_risk:
  assumes "assess en now trades c = Inr d" "allowed d"
    "pol_risk_per_trade_pct (intraday_policy (en_cfg en)) = Fin r" "0 < r"
  shows "0 < gate_risk d (candidate_request en c) \<and> gate_risk d (candidate_request en c) \<le> Fin r"
proof -
  from assms(1) obtain ctx where ctx: "gate_context en now trades c = Inr ctx" "evaluate ctx = Inr d"
    by (auto simp: assess_def rbind_Inr_iff)
  from gate_context_Inr [OF ctx(1)] obtain ladder where
    l: "engine_ladder en = Inr ladder" "gc_ladder ctx = ladder" "gc_request ctx = candidate_request en c"
    by metis
  have "ladder_positive ctx" using engine_ladder_positive [OF l(1)] l(2) by (simp add: ladder_positive_def)
  moreover have rq: "r_requested_risk_pct (gc_request ctx) = Fin r"
    using assms(3) l(3) by (simp add: candidate_request_def)
  ultimately have pr: "0 < permitted_risk ctx d" "permitted_risk ctx d \<le> Fin r"
    using evaluate_permits [OF ctx(2) assms(2) _ assms(4)] by blast+
  have "gate_risk d (candidate_request en c) = permitted_risk ctx d"
    using pr(1) l(3) by (auto simp: gate_risk_def permitted_risk_def truthy_def split: option.splits)
  with pr show ?thesis by simp
qed

lemma candidate_size_risk:
  assumes "candidate_size en trades c d = Inr sz" "rd_ok sz" "b_equity (en_book en) = Fin e"
    "0 < gate_risk d (candidate_request en c)" "gate_risk d (candidate_request en c) \<le> Fin r"
  obtains gap where "stop_gap c = Fin gap" "0 < gap" "1 \<le> rd_qty sz" "of_int (rd_qty sz) * gap \<le> \<bar>e\<bar> * r"
proof -
  from assms(1) obtain caps where
    sz: "sz = size_request ((candidate_request en c)\<lparr>r_requested_risk_pct := gate_risk d (candidate_request en c)\<rparr>)
           caps (Fin 1)"
    by (auto simp: candidate_size_def Let_def rmap_Inr_iff)
  note b = size_request_bounds [OF assms(2) sz]
  from assms(2) sz obtain gap where gap: "stop_gap c = Fin gap" "0 < gap"
    by (auto simp: candidate_request_def elim: size_request_okD)
  obtain g where g: "gate_risk d (candidate_request en c) = Fin g" "0 < g" "g \<le> r"
    using assms(4,5) by (cases "gate_risk d (candidate_request en c)") (auto simp: fp_simps)
  from b(3) have "risk_within (rd_risk_pct sz) (Fin g) (Fin 1)" by (simp add: g)
  with b(2) g obtain x where x: "rd_risk_pct sz = Fin x" "0 \<le> x" "x \<le> g"
    by (cases "rd_risk_pct sz") (auto simp: risk_within_def finite_or_zero_def fp_simps)
  have "of_int (rd_qty sz) * gap \<le> e * x"
    using b(5) gap x(1) assms(3) by (simp add: candidate_request_def finite_or_zero_def fp_simps)
  also have "\<dots> \<le> \<bar>e\<bar> * r" using x g(3) by (intro mult_mono) auto
  finally show thesis using that [OF gap b(1)] by simp
qed

lemma entry_basis_risk:
  assumes "entry_basis en now trades c sent" "sent \<noteq> []"
    "pol_risk_per_trade_pct (intraday_policy (en_cfg en)) = Fin r" "0 < r" "b_equity (en_book en) = Fin e"
  shows "\<exists>gap. stop_gap c = Fin gap \<and> 0 < gap \<and> of_int (sum_list (map co_qty sent)) * gap \<le> \<bar>e\<bar> * r"
proof -
  from assms(1) obtain d sz where d: "assess en now trades c = Inr d" "allowed d"
    "candidate_size en trades c d = Inr sz" "rd_ok sz" "sum_list (map co_qty sent) \<le> rd_qty sz"
    unfolding entry_basis_def by blast
  from assess_risk [OF d(1,2) assms(3,4)] candidate_size_risk [OF d(3,4) assms(5)]
  obtain gap where gap: "stop_gap c = Fin gap" "0 < gap" "of_int (rd_qty sz) * gap \<le> \<bar>e\<bar> * r" by blast
  have "real_of_int (sum_list (map co_qty sent)) * gap \<le> of_int (rd_qty sz) * gap"
    using d(5) gap(2) by (intro mult_right_mono) auto
  with gap show ?thesis by (intro exI [of _ gap]) linarith
qed

lemma entry_payload_member:
  assumes "entry_basis en now trades c sent" "ch \<in> set sent"
  shows "\<exists>d sz. assess en now trades c = Inr d \<and> allowed d \<and> candidate_size en trades c d = Inr sz \<and> rd_ok sz
     \<and> 1 \<le> co_qty ch \<and> co_qty ch \<le> rd_qty sz
     \<and> gr_ok (guard (entry_intent now c ch) (entry_guard en (book_with_trades en trades) c))"
proof -
  from assms(1) obtain d sz where d: "assess en now trades c = Inr d" "allowed d"
    "candidate_size en trades c d = Inr sz" "rd_ok sz" "sum_list (map co_qty sent) \<le> rd_qty sz"
    "\<forall>ch \<in> set sent. 1 \<le> co_qty ch
       \<and> gr_ok (guard (entry_intent now c ch) (entry_guard en (book_with_trades en trades) c))"
    unfolding entry_basis_def by blast
  have "sum_list (map co_qty [ch]) \<le> sum_list (map co_qty sent)"
    using assms(2) d(6) by (intro sum_list_subseq_le) (auto simp: subseq_singleton_left)
  with d assms(2) show ?thesis by auto
qed

end
