(* ===== verification/EngineExample.thy ===== *)
theory EngineExample
  imports Engine Examples
begin

text \<open>
  A session that trades: the shipped configuration with the risk per trade and the tail budgets the
  test suite uses, one liquid candidate, and a broker that accepts. Every stage is evaluated, so the
  properties of the session are seen to hold of a run that sends an order.
\<close>

definition ex_engine_config :: Config where
  "ex_engine_config = default_config\<lparr>cfg_risk_per_trade_intraday_pct := Fin (1 / 1000),
     cfg_es_budget_house_pct := Fin (2 / 100), cfg_es_budget_sleeve_pct := Fin (2 / 100)\<rparr>"

definition ex_engine :: "nat Engine" where
  "ex_engine =
     \<lparr>en_cfg = ex_engine_config, en_mandate = ex_mandate, en_universe = [''ABC''],
      en_equity_history = [Fin 100000], en_daily_returns = [Fin (- 1 / 1000)], en_book = ex_book,
      en_volumes = (\<lambda>_. Some [Fin 2000000]), en_broker_positions = None, en_states = None,
      en_seam = ex_seam (\<lambda>_. Body (JObj [(''status'', JStr ''accepted'')])), en_quantile = (\<lambda>_. 2),
      en_to_et = (\<lambda>t. t), en_clock_text = ''t''\<rparr>"

definition ex_candidate :: Candidate where
  "ex_candidate =
     \<lparr>cd_symbol = ''ABC'', cd_setup = ''ORB'', cd_side = ''buy'', cd_entry_price = Fin 20,
      cd_stop_price = Fin (39 / 2), cd_expected_move_bps = Fin 200, cd_day_type = None, cd_cluster = None\<rparr>"

definition ex_engine_es :: ESResult where
  "ex_engine_es = \<lparr>es_value_pct = Fin (15 / 1000), es_which = EStress, es_flagged = True, es_window_days = 1,
     es_historical_part = Fin (1 / 1000), es_parametric_part = Fin 0, es_stress_part = Fin (15 / 1000)\<rparr>"

lemma ex_engine_es: "engine_es ex_engine = Inr ex_engine_es"
  by (simp add: engine_es_def ex_engine_def ex_engine_config_def default_config_def es_estimate_def check_confidence_def
     effective_sigma_def check_sigma_def es_historical_def es_parametric_def es_stress_def z_score_def
     loss_ok_def default_grid_def Let_def tail_count_def clamp_unit_def fp_simps ex_engine_es_def the_fin_def)

definition ex_engine_vol :: "real \<Rightarrow> VolScalar" where
  "ex_engine_vol v = \<lparr>vs_scalar = 1, vs_target = Fin (10 / 100), vs_realized = Fin v, vs_warmup_ok = False,
     vs_applied = False, vs_reason = VWarmup\<rparr>"

lemma ex_engine_vol: "\<exists>v. engine_vol ex_engine = Inr (ex_engine_vol v)"
proof -
  have "\<exists>v. ewma_vol (map Fin [- 1 / 1000]) (Fin 20) 252 = Inr (Fin v)"
    using ewma_vol_bounds [of 20 252 "[- 1 / 1000]" "1 / 1000"] by auto
  moreover have "vol_params_ok (default_vol_params (Fin (10 / 100)))" by code_simp
  ultimately show ?thesis 
    by (auto simp: engine_vol_def ex_engine_def ex_engine_config_def default_config_def vol_scalar_def
      default_vol_params_def ex_engine_vol_def)
qed

definition ex_engine_gate :: "real \<Rightarrow> GateContext" where
  "ex_engine_gate v =
     \<lparr>gc_request = candidate_request ex_engine ex_candidate, gc_book = ex_book,
      gc_market = gate_market ex_engine ex_candidate, gc_mandate = ex_mandate,
      gc_config = ex_engine_config, gc_now = ex_now, gc_ladder = ex_rung0, gc_vol = ex_engine_vol v,
      gc_es = ex_engine_es, gc_sleeve_ceiling_pct = Fin (30 / 100), gc_sleeve_deployed_pct = Fin 0,
      gc_day_type = None, gc_time_gate_ok = None, gc_other_sleeve_side = None, gc_wash_nets = False,
      gc_stage = ''order'', gc_reference_complete = True, gc_reference_stale = False,
      gc_positions_value_usd = None, gc_decision_age_days = None, gc_ingest_window_days = Fin 1,
      gc_live_invalidations = [], gc_last_signal = None, gc_cooldown_hours = Fin 12, gc_action = None,
      gc_held_symbols = None\<rparr>"

lemma ex_engine_ladder: "engine_ladder ex_engine = Inr ex_rung0"
  by code_simp

lemma ex_engine_budget:
  "(case budget_for ex_engine_config INTRADAY ex_book of
      Inr b \<Rightarrow> sb_capital_ceiling_pct b = Fin (30 / 100) \<and> sb_deployed_pct b = 0 | _ \<Rightarrow> False)"
  by code_simp

lemma ex_engine_book: "book_with_trades ex_engine [] = ex_book"
  by (simp add: book_with_trades_def ex_engine_def ex_book_def)

lemma ex_engine_context:
  assumes "engine_vol ex_engine = Inr (ex_engine_vol v)"
  shows "gate_context ex_engine ex_now [] ex_candidate = Inr (ex_engine_gate v)"
proof -
  obtain b where b: "budget_for ex_engine_config INTRADAY ex_book = Inr b" "sb_capital_ceiling_pct b = Fin (30 / 100)"
    "sb_deployed_pct b = 0"
    using ex_engine_budget by (auto split: sum.splits)
  have cfg: "en_cfg ex_engine = ex_engine_config" "en_mandate ex_engine = ex_mandate" by (simp_all add: ex_engine_def)
  show ?thesis
    unfolding gate_context_def Let_def ex_engine_book ex_engine_ladder cfg b(1) assms ex_engine_es rbind_simps rmap_simps
      b(2,3) ex_engine_gate_def by (simp add: zero_pyfloat_def ex_candidate_def)
qed

lemma ex_engine_allows:
  "(case evaluate (ex_engine_gate v) of
      Inr d \<Rightarrow> gd_verdict d = ALLOW \<and> gd_adjusted_risk_pct d = None | _ \<Rightarrow> False)"
  by code_simp

lemma ex_engine_sizes:
  assumes "gd_adjusted_risk_pct d = None"
  shows "(case candidate_size ex_engine [] ex_candidate d of Inr z \<Rightarrow> rd_ok z \<and> rd_qty z = 200 | _ \<Rightarrow> False)"
proof -
  have "(case rmap (\<lambda>budget. size_request (candidate_request ex_engine ex_candidate)
                       (sizing_caps ex_engine ex_book budget) (Fin 1))
        (budget_for ex_engine_config INTRADAY ex_book) of Inr z \<Rightarrow> rd_ok z \<and> rd_qty z = 200 | _ \<Rightarrow> False)"
    by code_simp
  then show ?thesis
    unfolding candidate_size_def ex_engine_book Let_def gate_risk_def assms by (simp add: ex_engine_def)
qed

lemma ex_engine_plans:
  "(case plan_entry (plan_request ex_engine ex_candidate) 200 (bare_market ex_engine ex_candidate)
        ex_engine_config None of
      Inr p \<Rightarrow> list_all (\<lambda>ch. gr_ok (guard (entry_intent ex_now ex_candidate ch)
                 (entry_guard ex_engine ex_book ex_candidate))) (op_orders p) \<and> op_orders p \<noteq> []
    | _ \<Rightarrow> False)"
  by code_simp

definition ex_session :: "nat Session" where
  "ex_session = \<lparr>ss_world = ex_world, ss_trades = [], ss_reads = 0, ss_audit = Some []\<rparr>"

lemma ex_engine_submits:
  "(case submit_entry ex_engine ex_now ex_candidate 200 ex_session of
      (s, Inr (Some x)) \<Rightarrow> su_qty x = 200 \<and> length (submits (w_trace (ss_world s))) = 1
        \<and> ss_trades s = [(''ABC'', 1)] | _ \<Rightarrow> False)"
  by code_simp

lemma ex_engine_assess:
  "\<exists>d. assess ex_engine ex_now [] ex_candidate = Inr d \<and> gd_verdict d = ALLOW \<and> gd_adjusted_risk_pct d = None"
proof -
  obtain v where "engine_vol ex_engine = Inr (ex_engine_vol v)" using ex_engine_vol by blast
  from ex_engine_context [OF this] ex_engine_allows [of v] show ?thesis
    by (auto simp: assess_def split: sum.splits)
qed

lemma ex_engine_enters:
  "\<exists>s out sub. evaluate_candidate ex_engine ex_now True ex_session ex_candidate = (s, Inr (out, Some sub))
     \<and> ou_allowed out \<and> su_qty sub = 200 \<and> length (submits (w_trace (ss_world s))) = 1"
proof -
  obtain d where d: "assess ex_engine ex_now [] ex_candidate = Inr d" "gd_verdict d = ALLOW"
    "gd_adjusted_risk_pct d = None" using ex_engine_assess by blast
  moreover from ex_engine_sizes [OF d(3)] obtain z where
    "candidate_size ex_engine [] ex_candidate d = Inr z" "rd_ok z" "rd_qty z = 200" by (auto split: sum.splits)
  moreover obtain s sub where "submit_entry ex_engine ex_now ex_candidate 200 ex_session = (s, Inr (Some sub))"
    "su_qty sub = 200" "length (submits (w_trace (ss_world s))) = 1"
    using ex_engine_submits by (auto split: prod.splits sum.splits option.splits)
  ultimately show ?thesis
    by (simp add: evaluate_candidate_def allowed_def outcome_of_def ex_session_def)
qed

lemma ex_engine_runs:
  "\<exists>s' out. engine_run ex_engine True ex_now False [ex_candidate] [] ex_session = (s', Inr out)
     \<and> length (sn_submitted out) = 1 \<and> length (submits (w_trace (ss_world s'))) = 1"
proof -
  obtain s out sub where run: "evaluate_candidate ex_engine ex_now True ex_session ex_candidate = (s, Inr (out, Some sub))"
    "ou_allowed out" "length (submits (w_trace (ss_world s))) = 1" using ex_engine_enters by blast
  have "armed ex_engine True" by code_simp
  moreover have "engine_reconcile ex_engine s = (s, Inr (None, []))" "en_states ex_engine = None"
    by (simp_all add: engine_reconcile_def ex_engine_def)
  ultimately show ?thesis
    using run by (simp add: engine_run_def ex_engine_ladder log_event_def)
qed

end
