(* ===== verification/Ledger.thy ===== *)
theory Ledger
  imports Json "HOL-Library.Multiset"
begin

text \<open>
  \<open>AuditChain\<close> of \<open>signald/stores.py\<close>: the hash-chained ledger. A file is the list of its non-blank
  lines, each the JSON value it parses to or \<open>None\<close> for a line that does not parse. The chain's
  digest, \<open>sha256(prev + json.dumps(body, sort_keys=True))\<close>, is the argument \<open>digest\<close> of the previous
  hash and the canonical body: nothing below rests on more than its being a function, and what a
  forger needs is stated as a collision of it.
\<close>

section \<open>Canonical JSON\<close>

fun canon :: "json \<Rightarrow> json" where
  \<comment> \<open>what \<open>sort_keys\<close> makes of a value: the keys of every object in order\<close>
  "canon (JList xs) = JList (map canon xs)"
| "canon (JObj d) = JObj (sort_key fst (map (\<lambda>kv. (fst kv, canon (snd kv))) d))"
| "canon v = v"

type_synonym digest = "string \<Rightarrow> json \<Rightarrow> string"
type_synonym ledger = "json option list"

datatype pyval = Plain json | Opaque string \<comment> \<open>a value \<open>json\<close> cannot encode, and its \<open>str\<close>\<close>

fun body_value :: "pyval \<Rightarrow> json" where
  "body_value (Plain v) = v"
| "body_value (Opaque s) = JStr s"

section \<open>The chain\<close>

definition genesis :: string where
  "genesis = replicate 64 CHR ''0''"

definition read_ledger :: "ledger \<Rightarrow> json list" where
  "read_ledger f = map (\<lambda>l. case l of Some v \<Rightarrow> v | None \<Rightarrow> JObj []) f"

definition tail_hash :: "json list \<Rightarrow> string res" where
  \<comment> \<open>\<open>rows[-1]["hash"]\<close>, and that it can be put before a string\<close>
  "tail_hash rows =
     (if rows = [] then Inr genesis
      else (case last rows of
          JObj d \<Rightarrow> (case map_of d ''hash'' of
              Some (JStr h) \<Rightarrow> Inr h | Some _ \<Rightarrow> Inl TypeError | None \<Rightarrow> Inl KeyError)
        | _ \<Rightarrow> Inl TypeError))"

definition unhashed :: "(string \<times> json) list \<Rightarrow> (string \<times> json) list" where
  "unhashed d = filter (\<lambda>kv. fst kv \<noteq> ''hash'') d"

definition row_body ::
  "nat \<Rightarrow> string \<Rightarrow> string \<Rightarrow> string \<Rightarrow> (string \<times> json) list \<Rightarrow> string \<Rightarrow> (string \<times> json) list" where
  "row_body index ts kind reason data prev =
     [(''index'', JInt (int index)), (''ts'', JStr ts), (''kind'', JStr kind), (''reason'', JStr reason),
      (''data'', JObj data), (''prev_hash'', JStr prev)]"

definition linked_row :: "digest \<Rightarrow> (string \<times> json) list \<Rightarrow> string \<Rightarrow> json" where
  "linked_row h body prev =
     canon (JObj (body @ [(''hash'', JStr (h prev (canon (JObj body))))]))"

definition next_row ::
  "digest \<Rightarrow> string \<Rightarrow> string \<Rightarrow> string \<Rightarrow> (string \<times> pyval) list \<Rightarrow> ledger \<Rightarrow> json res" where
  \<comment> \<open>the row linked to the ledger as read: the body is hashed with \<open>default=str\<close>, the row written
     without it\<close>
  "next_row h ts kind reason data f =
     (let rows = read_ledger f in
      rbind (tail_hash rows) (\<lambda>prev.
        (let body = row_body (length rows) ts kind reason (map (\<lambda>(k, v). (k, body_value v)) data) prev in
         if \<exists>kv \<in> set data. (case snd kv of Opaque _ \<Rightarrow> True | Plain _ \<Rightarrow> False) then Inl TypeError
         else Inr (linked_row h body prev))))"

definition ledger_append ::
  "digest \<Rightarrow> string \<Rightarrow> string \<Rightarrow> string \<Rightarrow> (string \<times> pyval) list \<Rightarrow> ledger \<Rightarrow> ledger res" where
  "ledger_append h ts kind reason data f =
     rmap (\<lambda>row. f @ [Some row]) (next_row h ts kind reason data f)"

definition row_ok :: "digest \<Rightarrow> string \<Rightarrow> (string \<times> json) list \<Rightarrow> bool" where
  "row_ok h prev d \<longleftrightarrow>
     jget d ''hash'' = JStr (h prev (canon (JObj (unhashed d))))
     \<and> jget d ''prev_hash'' = JStr prev \<and> json_truthy (jget d ''kind'')"

fun verify_rows :: "digest \<Rightarrow> nat \<Rightarrow> string \<Rightarrow> json list \<Rightarrow> (bool \<times> int) res" where
  "verify_rows h i prev [] = Inr (True, -1)"
| "verify_rows h i prev (JObj d # rows) =
     (if \<not> row_ok h prev d then Inr (False, int i)
      else verify_rows h (Suc i) (h prev (canon (JObj (unhashed d)))) rows)"
| "verify_rows h i prev (_ # rows) = Inl AttributeError"

definition verify_ledger :: "digest \<Rightarrow> ledger \<Rightarrow> (bool \<times> int) res" where
  \<comment> \<open>a row that is not an object has no \<open>get\<close>\<close>
  "verify_ledger h f = verify_rows h 0 genesis (read_ledger f)"

section \<open>Canonical bodies\<close>

lemma map_insort_key: "(\<And>y. k (g y) = k' y) \<Longrightarrow> map g (insort_key k' x xs) = insort_key k (g x) (map g xs)"
  by (induction xs) auto

lemma map_sort_key:
  assumes "\<And>y. k (g y) = k' y"
  shows "map g (sort_key k' xs) = sort_key k (map g xs)"
  using map_insort_key [of k g k', OF assms] by (induction xs) simp_all

lemma canon_canon [simp]: "canon (canon v) = canon v"
proof (induction v rule: canon.induct)
  case (2 d)
  let ?c = "\<lambda>kv. (fst kv, canon (snd kv))"
  have again: "map ?c (map ?c d) = map ?c d" using 2 by auto
  have "map ?c (sort_key fst (map ?c d)) = sort_key fst (map ?c (map ?c d))"
    by (rule map_sort_key) simp
  then show ?case unfolding canon.simps again by (simp add: sort_key_id_if_sorted)
qed simp_all

lemma canon_unhashed:
  assumes "canon (JObj (b @ [(''hash'', v)])) = JObj d" "''hash'' \<notin> fst ` set b"
  shows "canon (JObj (unhashed d)) = canon (JObj b)"
proof -
  let ?c = "\<lambda>kv. (fst kv, canon (snd kv))"
  have d: "d = sort_key fst (map ?c (b @ [(''hash'', v)]))" using assms(1) by simp
  have "unhashed (map ?c (b @ [(''hash'', v)])) = map ?c b"
    using assms(2) by (force simp: unhashed_def filter_id_conv)
  then have "JObj (unhashed d) = canon (JObj b)"
    by (simp add: d unhashed_def filter_sort)
  then show ?thesis by (metis canon_canon)
qed

lemma jget_canon:
  assumes "distinct (map fst b)" "canon (JObj b) = JObj d"
  shows "jget d k = canon (jget b k)"
proof -
  let ?c = "\<lambda>kv. (fst kv, canon (snd kv))"
  have d: "d = sort_key fst (map ?c b)" using assms(2) by simp
  have "mset (map fst d) = mset (map fst (map ?c b))" unfolding d by (simp only: mset_map mset_sort)
  from mset_eq_imp_distinct_iff [OF this] have "distinct (map fst d)" using assms(1) by (simp add: o_def)
  then have "map_of d = map_of (map ?c b)"
    using assms(1) by (subst map_of_inject_set) (simp_all add: d o_def)
  moreover have "map_of (map ?c b) k = map_option canon (map_of b k)" for k
    by (induction b) auto
  ultimately show ?thesis by (simp add: jget_def split: option.split)
qed

section \<open>An appended chain verifies\<close>

definition body_of :: "(string \<times> json) list \<Rightarrow> json" where
  "body_of d = canon (JObj (unhashed d))"

fun chain_end :: "digest \<Rightarrow> string \<Rightarrow> json list \<Rightarrow> string" where
  \<comment> \<open>the hash a chain ends with\<close>
  "chain_end h prev [] = prev"
| "chain_end h prev (JObj d # rows) = chain_end h (h prev (body_of d)) rows"
| "chain_end h prev (_ # rows) = chain_end h prev rows"

lemma verify_loop_split:
  "verify_rows h i prev rows = Inr (True, -1) \<Longrightarrow>
     verify_rows h i prev (rows @ later) = verify_rows h (i + length rows) (chain_end h prev rows) later"
proof (induction h i prev rows rule: verify_rows.induct)
  case (2 h i prev d rows)
  then have "row_ok h prev d" by (auto split: if_splits)
  with 2 show ?case by (simp add: body_of_def)
qed simp_all

lemma verify_first_bad:
  assumes "verify_rows h i prev rows = Inr (False, j)"
  obtains n d where "j = int (i + n)" "n < length rows" "rows ! n = JObj d"
    "verify_rows h i prev (take n rows) = Inr (True, -1)" "\<not> row_ok h (chain_end h prev (take n rows)) d"
  using assms
proof (induction h i prev rows arbitrary: thesis rule: verify_rows.induct)
  case (2 h i prev d rows)
  show ?case
  proof (cases "row_ok h prev d")
    case False
    with 2 show ?thesis by (intro "2.prems"(1) [of 0 d]) auto
  next
    case True
    with 2(3) have v: "verify_rows h (Suc i) (h prev (body_of d)) rows = Inr (False, j)"
      by (simp add: body_of_def)
    obtain n d' where n: "j = int (Suc i + n)" "n < length rows" "rows ! n = JObj d'"
      "verify_rows h (Suc i) (h prev (body_of d)) (take n rows) = Inr (True, -1)"
      "\<not> row_ok h (chain_end h (h prev (body_of d)) (take n rows)) d'"
      using "2.IH" [OF _ _ v [unfolded body_of_def]] True unfolding body_of_def by blast
    with True show ?thesis by (intro "2.prems"(1) [of "Suc n" d']) (auto simp: body_of_def)
  qed
qed simp_all

lemma verify_objects:
  "verify_rows h i prev rows = Inr (True, -1) \<Longrightarrow> r \<in> set rows \<Longrightarrow> \<exists>d. r = JObj d"
  by (induction h i prev rows rule: verify_rows.induct) (auto split: if_splits)

lemma tail_hash_chain_end:
  assumes "verify_rows h i genesis rows = Inr (True, -1)"
  shows "tail_hash rows = Inr (chain_end h genesis rows)"
proof (cases rows rule: rev_cases)
  case (snoc xs r)
  have "\<exists>d. r = JObj d" using verify_objects [OF assms, of r] snoc by simp
  then obtain d where r: "r = JObj d" by blast
  have "verify_rows h i prev (xs @ [JObj d]) = Inr (True, -1) \<Longrightarrow>
      jget d ''hash'' = JStr (chain_end h prev (xs @ [JObj d]))" for prev
    by (induction h i prev xs rule: verify_rows.induct) (auto simp: row_ok_def body_of_def split: if_splits)
  with assms have "jget d ''hash'' = JStr (chain_end h genesis rows)" by (simp add: snoc r)
  then show ?thesis by (auto simp: tail_hash_def snoc r jget_def split: option.splits)
qed (simp add: tail_hash_def)

lemma linked_row_ok:
  assumes "b = row_body n ts kind reason data prev" "kind \<noteq> []"
  obtains d where "linked_row h b prev = JObj d" "row_ok h prev d" "body_of d = canon (JObj b)"
proof -
  let ?v = "JStr (h prev (canon (JObj b)))"
  obtain d where d: "linked_row h b prev = JObj d" by (simp add: linked_row_def)
  then have c: "canon (JObj (b @ [(''hash'', ?v)])) = JObj d" by (simp add: linked_row_def)
  have fresh: "''hash'' \<notin> fst ` set b" and dist: "distinct (map fst (b @ [(''hash'', ?v)]))"
    by (simp_all add: assms(1) row_body_def)
  have body: "canon (JObj (unhashed d)) = canon (JObj b)" by (rule canon_unhashed [OF c fresh])
  have "jget d ''hash'' = ?v" "jget d ''prev_hash'' = JStr prev" "jget d ''kind'' = JStr kind"
    unfolding jget_canon [OF dist c] by (simp_all add: assms(1) row_body_def jget_def)
  with body assms(2) have "row_ok h prev d" by (simp add: row_ok_def)
  with d body show thesis by (intro that) (simp_all add: body_of_def)
qed

lemma append_verifies:
  assumes "verify_ledger h f = Inr (True, -1)" "kind \<noteq> []" "ledger_append h ts kind reason data f = Inr f'"
  shows "verify_ledger h f' = Inr (True, -1)"
proof -
  let ?rows = "read_ledger f"
  have v: "verify_rows h 0 genesis ?rows = Inr (True, -1)" using assms(1) by (simp add: verify_ledger_def)
  note tail = tail_hash_chain_end [OF v]
  let ?b = "row_body (length ?rows) ts kind reason (map (\<lambda>(k, v). (k, body_value v)) data)
      (chain_end h genesis ?rows)"
  have f': "f' = f @ [Some (linked_row h ?b (chain_end h genesis ?rows))]"
    using assms(3) tail by (simp add: ledger_append_def next_row_def Let_def split: if_splits)
  obtain d where "linked_row h ?b (chain_end h genesis ?rows) = JObj d" "row_ok h (chain_end h genesis ?rows) d"
    by (rule linked_row_ok [OF refl assms(2)])
  then show ?thesis
    using verify_loop_split [OF v] by (simp add: verify_ledger_def f' read_ledger_def)
qed

lemma append_succeeds:
  assumes "verify_ledger h f = Inr (True, -1)" "\<forall>kv \<in> set data. \<exists>v. snd kv = Plain v"
  shows "\<exists>row. ledger_append h ts kind reason data f = Inr (f @ [Some row])"
proof -
  have "verify_rows h 0 genesis (read_ledger f) = Inr (True, -1)" using assms(1) by (simp add: verify_ledger_def)
  from tail_hash_chain_end [OF this] assms(2) show ?thesis
    by (force simp: ledger_append_def next_row_def Let_def)
qed

section \<open>Tampering needs a collision\<close>

definition collision :: "digest \<Rightarrow> bool" where
  "collision h \<longleftrightarrow> (\<exists>p b q c. (p, b) \<noteq> (q, c) \<and> h p b = h q c)"

definition hits_genesis :: "digest \<Rightarrow> bool" where
  "hits_genesis h \<longleftrightarrow> (\<exists>p b. h p b = genesis)"

definition row_bodies :: "json list \<Rightarrow> json list" where
  "row_bodies rows = map (\<lambda>r. case r of JObj d \<Rightarrow> body_of d | _ \<Rightarrow> r) rows"

lemma chain_end_snoc: "chain_end h prev (rows @ [JObj d]) = h (chain_end h prev rows) (body_of d)"
  by (induction h prev rows rule: chain_end.induct) simp_all

lemma equal_ends:
  assumes "\<forall>r \<in> set xs. \<exists>d. r = JObj d" "\<forall>r \<in> set ys. \<exists>d. r = JObj d"
    "chain_end h genesis xs = chain_end h genesis ys" "\<not> collision h" "\<not> hits_genesis h"
  shows "row_bodies xs = row_bodies ys"
  using assms(1-3)
proof (induction xs arbitrary: ys rule: rev_induct)
  case Nil
  show ?case
  proof (cases ys rule: rev_cases)
    case (snoc zs r)
    with Nil(2) obtain d where "r = JObj d" by auto
    with Nil(3) snoc have "hits_genesis h" by (auto simp: chain_end_snoc hits_genesis_def intro: sym)
    with assms(5) show ?thesis by simp
  qed simp
next
  case (snoc r xs)
  from snoc(2) obtain d where r: "r = JObj d" by auto
  show ?case
  proof (cases ys rule: rev_cases)
    case Nil
    with snoc(4) r have "hits_genesis h" by (auto simp: chain_end_snoc hits_genesis_def)
    with assms(5) show ?thesis by simp
  next
    case s: (snoc zs r')
    with snoc(3) obtain d' where r': "r' = JObj d'" by auto
    have "h (chain_end h genesis xs) (body_of d) = h (chain_end h genesis zs) (body_of d')"
      using snoc(4) by (simp add: r s r' chain_end_snoc)
    with assms(4) have "chain_end h genesis xs = chain_end h genesis zs" "body_of d = body_of d'"
      unfolding collision_def by blast+
    with snoc.IH [of zs] snoc(2,3) s show ?thesis by (simp add: row_bodies_def r r')
  qed
qed

lemma tamper_evident:
  assumes "verify_ledger h f = Inr (True, -1)" "verify_ledger h g = Inr (True, -1)"
    "tail_hash (read_ledger f) = tail_hash (read_ledger g)"
  shows "row_bodies (read_ledger f) = row_bodies (read_ledger g) \<or> collision h \<or> hits_genesis h"
proof -
  have v: "verify_rows h 0 genesis (read_ledger f) = Inr (True, -1)"
    "verify_rows h 0 genesis (read_ledger g) = Inr (True, -1)"
    using assms(1,2) by (simp_all add: verify_ledger_def)
  have "chain_end h genesis (read_ledger f) = chain_end h genesis (read_ledger g)"
    using assms(3) tail_hash_chain_end [OF v(1)] tail_hash_chain_end [OF v(2)] by simp
  with equal_ends verify_objects [OF v(1)] verify_objects [OF v(2)] show ?thesis by blast
qed

text \<open>A last line that does not parse leaves no hash to link to: nothing can be appended any later.\<close>

lemma corrupt_tail_stops_appends: "ledger_append h ts kind reason data (f @ [None]) = Inl KeyError"
  by (simp add: ledger_append_def next_row_def read_ledger_def tail_hash_def)

end
