(* ===== verification/LedgerLock.thy ===== *)
theory LedgerLock
  imports Ledger
begin

text \<open>
  \<open>_cross_process_lock\<close> of \<open>signald/stores.py\<close> around an append: the sidecar lock file, the processes
  that contend for it and the ledger they share, one system call a step. The lock file belongs to the
  process that created it; a pid written after the file was unlinked goes to no one. \<open>takeover\<close>
  says whether the waiters ever unlink a lock, that of a dead holder or, past the deadline, of any.
\<close>

section \<open>The protocol\<close>

datatype lock_phase =
    Idle
  | Waiting
  | Unlinking \<comment> \<open>decided to remove the lock it saw\<close>
  | Owning \<comment> \<open>created the lock file, the pid not yet in it\<close>
  | Inside
  | HasRead ledger
  | Finished \<comment> \<open>wrote its row, or the append raised\<close>
  | Crashed

record 'p system =
  lock_file :: "('p \<times> bool) option" \<comment> \<open>its creator, and whether the pid is in it\<close>
  shared :: ledger
  phase_of :: "'p \<Rightarrow> lock_phase"

definition set_phase :: "'p \<Rightarrow> lock_phase \<Rightarrow> 'p system \<Rightarrow> 'p system" where
  "set_phase p ph s = s\<lparr>phase_of := (phase_of s)(p := ph)\<rparr>"

inductive lock_step :: "bool \<Rightarrow> ('p \<Rightarrow> ledger \<Rightarrow> json res) \<Rightarrow> 'p system \<Rightarrow> 'p system \<Rightarrow> bool"
  for takeover :: bool and row_for :: "'p \<Rightarrow> ledger \<Rightarrow> json res" where
  start: "phase_of s p = Idle \<Longrightarrow> lock_step takeover row_for s (set_phase p Waiting s)"
| create: "phase_of s p = Waiting \<Longrightarrow> lock_file s = None
    \<Longrightarrow> lock_step takeover row_for s (set_phase p Owning (s\<lparr>lock_file := Some (p, False)\<rparr>))"
| write_pid: "phase_of s p = Owning
    \<Longrightarrow> lock_step takeover row_for s (set_phase p Inside
          (s\<lparr>lock_file := if lock_file s = Some (p, False) then Some (p, True) else lock_file s\<rparr>))"
| dead_holder: "takeover \<Longrightarrow> phase_of s p = Waiting \<Longrightarrow> lock_file s = Some (q, True) \<Longrightarrow> phase_of s q = Crashed
    \<Longrightarrow> lock_step takeover row_for s (set_phase p Unlinking s)"
| deadline: "takeover \<Longrightarrow> phase_of s p = Waiting \<Longrightarrow> lock_file s \<noteq> None
    \<Longrightarrow> lock_step takeover row_for s (set_phase p Unlinking s)"
| unlink: "phase_of s p = Unlinking
    \<Longrightarrow> lock_step takeover row_for s (set_phase p Waiting (s\<lparr>lock_file := None\<rparr>))"
| reads: "phase_of s p = Inside \<Longrightarrow> lock_step takeover row_for s (set_phase p (HasRead (shared s)) s)"
| writes: "phase_of s p = HasRead f \<Longrightarrow> row_for p f = Inr row
    \<Longrightarrow> lock_step takeover row_for s (set_phase p Finished (s\<lparr>shared := shared s @ [Some row]\<rparr>))"
| raised: "phase_of s p = HasRead f \<Longrightarrow> row_for p f = Inl e
    \<Longrightarrow> lock_step takeover row_for s (set_phase p Finished s)"
| release: "phase_of s p = Finished
    \<Longrightarrow> lock_step takeover row_for s (set_phase p Idle (s\<lparr>lock_file := None\<rparr>))"
| crash: "lock_step takeover row_for s (set_phase p Crashed s)"

inductive reaches :: "bool \<Rightarrow> ('p \<Rightarrow> ledger \<Rightarrow> json res) \<Rightarrow> 'p system \<Rightarrow> 'p system \<Rightarrow> bool"
  for takeover :: bool and row_for :: "'p \<Rightarrow> ledger \<Rightarrow> json res" where
  here: "reaches takeover row_for s s"
| further: "reaches takeover row_for s t \<Longrightarrow> lock_step takeover row_for t u \<Longrightarrow> reaches takeover row_for s u"

definition quiet_system :: "ledger \<Rightarrow> 'p system" where
  "quiet_system f = \<lparr>lock_file = None, shared = f, phase_of = (\<lambda>_. Idle)\<rparr>"

section \<open>Mutual exclusion without takeovers\<close>

definition in_section :: "lock_phase \<Rightarrow> bool" where
  "in_section ph \<longleftrightarrow> ph = Owning \<or> ph = Inside \<or> (\<exists>f. ph = HasRead f) \<or> ph = Finished"

lemma in_section_simps [simp]:
  "\<not> in_section Idle" "\<not> in_section Waiting" "\<not> in_section Unlinking" "\<not> in_section Crashed"
  "in_section Owning" "in_section Inside" "in_section (HasRead f)" "in_section Finished"
  by (simp_all add: in_section_def)

definition exclusive :: "'p system \<Rightarrow> bool" where
  \<comment> \<open>whoever is in the critical section owns the lock, and what it has read is still the ledger\<close>
  "exclusive s \<longleftrightarrow>
     (\<forall>p. in_section (phase_of s p) \<longrightarrow> (\<exists>b. lock_file s = Some (p, b)))
     \<and> (\<forall>p f. phase_of s p = HasRead f \<longrightarrow> f = shared s)
     \<and> (\<forall>p. phase_of s p \<noteq> Unlinking)"

lemma phase_of_set_phase [simp]:
  "phase_of (set_phase p ph s) q = (if q = p then ph else phase_of s q)"
  "lock_file (set_phase p ph s) = lock_file s" "shared (set_phase p ph s) = shared s"
  by (simp_all add: set_phase_def)

lemma exclusive_alone:
  assumes "exclusive s" "in_section (phase_of s p)" "q \<noteq> p"
  shows "\<not> in_section (phase_of s q)"
proof
  assume "in_section (phase_of s q)"
  with assms(1,2) obtain b c where "lock_file s = Some (q, b)" "lock_file s = Some (p, c)"
    unfolding exclusive_def by blast
  with assms(3) show False by simp
qed

lemma exclusive_step:
  assumes "lock_step False row_for s s'" "exclusive s"
  shows "exclusive s'"
  using assms
proof (induction rule: lock_step.cases)
  case (create t p)
  then have "\<not> in_section (phase_of s q)" for q by (auto simp: exclusive_def)
  with create show ?case by (auto simp: exclusive_def split: if_splits)
next
  case (writes t p f row)
  then have "\<not> in_section (phase_of s q)" if "q \<noteq> p" for q
    using exclusive_alone [of s p q] that by simp
  then have "phase_of s q \<noteq> HasRead g" if "q \<noteq> p" for q g
    using that by (metis in_section_simps(7))
  with writes show ?case by (auto simp: exclusive_def split: if_splits)
next
  case (release t p)
  then have "\<not> in_section (phase_of s q)" if "q \<noteq> p" for q
    using exclusive_alone [of s p q] that by simp
  with release show ?case by (auto simp: exclusive_def split: if_splits)
next
  case (raised t p f e)
  then have "phase_of s q \<noteq> HasRead g" if "q \<noteq> p" for q g
    using exclusive_alone [of s p q] that by (metis in_section_simps(7))
  with raised show ?case by (auto simp: exclusive_def split: if_splits)
qed (auto simp: exclusive_def split: if_splits)

text \<open>Every row a process writes then follows the ledger it is written to.\<close>

definition links :: "digest \<Rightarrow> ('p \<Rightarrow> ledger \<Rightarrow> json res) \<Rightarrow> bool" where
  \<comment> \<open>each process appends rows of its own, of a non-empty kind\<close>
  "links h row_for \<longleftrightarrow>
     (\<forall>p. \<exists>ts kind reason data. kind \<noteq> [] \<and> row_for p = next_row h ts kind reason data)"

lemma links_verifies:
  assumes "links h row_for" "row_for p f = Inr row" "verify_ledger h f = Inr (True, -1)"
  shows "verify_ledger h (f @ [Some row]) = Inr (True, -1)"
proof -
  from assms(1) obtain ts kind reason data where
    r: "kind \<noteq> []" "row_for p = next_row h ts kind reason data" unfolding links_def by blast
  with assms(2) have "ledger_append h ts kind reason data f = Inr (f @ [Some row])" by (simp add: ledger_append_def)
  from append_verifies [OF assms(3) r(1) this] show ?thesis .
qed

lemma locked_step:
  assumes "lock_step False row_for s s'" "exclusive s" "links h row_for"
    "verify_ledger h (shared s) = Inr (True, -1)"
  shows "verify_ledger h (shared s') = Inr (True, -1)"
  using assms
proof (induction rule: lock_step.cases)
  case (writes t p f row)
  then have "f = shared t" by (auto simp: exclusive_def)
  with writes links_verifies [of h row_for p f row] show ?case by simp
qed simp_all

lemma locked_reaches:
  assumes "reaches False row_for s t" "exclusive s" "links h row_for"
    "verify_ledger h (shared s) = Inr (True, -1)"
  shows "exclusive t \<and> verify_ledger h (shared t) = Inr (True, -1)"
  using assms
proof (induction rule: reaches.induct)
  case (further t u)
  with exclusive_step locked_step show ?case by blast
qed simp

lemma quiet_exclusive: "exclusive (quiet_system f)"
  by (simp add: exclusive_def quiet_system_def)

section \<open>A takeover can fork the chain\<close>

text \<open>
  Two waiters meet the lock of a crashed process. The first removes it, creates its own and goes in;
  the second, which had decided on the old lock, removes the new one and goes in as well.
\<close>

definition both_inside :: "'p \<Rightarrow> 'p \<Rightarrow> 'p \<Rightarrow> ledger \<Rightarrow> 'p system" where
  "both_inside p q c f =
     \<lparr>lock_file = Some (q, True), shared = f,
      phase_of = (\<lambda>_. Idle)(c := Crashed, p := Inside, q := Inside)\<rparr>"

lemma two_inside:
  assumes "p \<noteq> q" "p \<noteq> c" "q \<noteq> c"
  shows "reaches True row_for (quiet_system f) (both_inside p q c f)"
proof -
  let ?R = "reaches True row_for (quiet_system f)"
  define ph where "ph = (\<lambda>a b d x. if x = p then a else if x = q then b else if x = c then d else Idle)"
  define st where "st = (\<lambda>l a b d. \<lparr>lock_file = l, shared = f, phase_of = ph a b d\<rparr>)"
  have set: "set_phase p x (st l a b d) = st l x b d" "set_phase q x (st l a b d) = st l a x d"
    "set_phase c x (st l a b d) = st l a b x" for l a b d x
    using assms by (auto simp: set_phase_def st_def ph_def fun_eq_iff)
  have at: "phase_of (st l a b d) p = a" "phase_of (st l a b d) q = b" "phase_of (st l a b d) c = d"
    "lock_file (st l a b d) = l" "(st l a b d)\<lparr>lock_file := m\<rparr> = st m a b d" for l a b d m
    using assms by (auto simp: st_def ph_def)
  have r: "?R (st None Idle Idle Idle)"
  proof -
    have "quiet_system f = st None Idle Idle Idle" by (simp add: quiet_system_def st_def ph_def fun_eq_iff)
    then show ?thesis using here by metis
  qed
  have r: "?R (st None Idle Idle Waiting)"
    using further [OF r start [where s = "st None Idle Idle Idle" and p = c]] by (simp add: at set)
  have r: "?R (st (Some (c, False)) Idle Idle Owning)"
    using further [OF r create [where s = "st None Idle Idle Waiting" and p = c]] by (simp add: at set)
  have r: "?R (st (Some (c, True)) Idle Idle Inside)"
    using further [OF r write_pid [where s = "st (Some (c, False)) Idle Idle Owning" and p = c]] by (simp add: at set)
  have r: "?R (st (Some (c, True)) Idle Idle Crashed)"
    using further [OF r crash [where s = "st (Some (c, True)) Idle Idle Inside" and p = c]] by (simp add: at set)
  have r: "?R (st (Some (c, True)) Waiting Idle Crashed)"
    using further [OF r start [where s = "st (Some (c, True)) Idle Idle Crashed" and p = p]] by (simp add: at set)
  have r: "?R (st (Some (c, True)) Waiting Waiting Crashed)"
    using further [OF r start [where s = "st (Some (c, True)) Waiting Idle Crashed" and p = q]] by (simp add: at set)
  have r: "?R (st (Some (c, True)) Unlinking Waiting Crashed)"
    using further [OF r dead_holder [where s = "st (Some (c, True)) Waiting Waiting Crashed" and p = p and q = c]] by (simp add: at set)
  have r: "?R (st (Some (c, True)) Unlinking Unlinking Crashed)"
    using further [OF r dead_holder [where s = "st (Some (c, True)) Unlinking Waiting Crashed" and p = q and q = c]] by (simp add: at set)
  have r: "?R (st None Waiting Unlinking Crashed)"
    using further [OF r unlink [where s = "st (Some (c, True)) Unlinking Unlinking Crashed" and p = p]] by (simp add: at set)
  have r: "?R (st (Some (p, False)) Owning Unlinking Crashed)"
    using further [OF r create [where s = "st None Waiting Unlinking Crashed" and p = p]] by (simp add: at set)
  have r: "?R (st (Some (p, True)) Inside Unlinking Crashed)"
    using further [OF r write_pid [where s = "st (Some (p, False)) Owning Unlinking Crashed" and p = p]] by (simp add: at set)
  have r: "?R (st None Inside Waiting Crashed)"
    using further [OF r unlink [where s = "st (Some (p, True)) Inside Unlinking Crashed" and p = q]] by (simp add: at set)
  have r: "?R (st (Some (q, False)) Inside Owning Crashed)"
    using further [OF r create [where s = "st None Inside Waiting Crashed" and p = q]] by (simp add: at set)
  have r: "?R (st (Some (q, True)) Inside Inside Crashed)"
    using further [OF r write_pid [where s = "st (Some (q, False)) Inside Owning Crashed" and p = q]] by (simp add: at set)
  moreover have "st (Some (q, True)) Inside Inside Crashed = both_inside p q c f"
    using assms by (auto simp: st_def ph_def both_inside_def)
  ultimately show ?thesis by simp
qed

lemma fork_run:
  assumes "p \<noteq> q" "p \<noteq> c" "q \<noteq> c" "row_for p f = Inr r" "row_for q f = Inr r'"
  shows "\<exists>t. reaches True row_for (quiet_system f) t \<and> shared t = f @ [Some r, Some r']"
proof -
  let ?R = "reaches True row_for (quiet_system f)"
  define s0 where "s0 = both_inside p q c f"
  define s1 where "s1 = set_phase p (HasRead f) s0"
  define s2 where "s2 = set_phase q (HasRead f) s1"
  define s3 where "s3 = set_phase p Finished (s2\<lparr>shared := shared s2 @ [Some r]\<rparr>)"
  define s4 where "s4 = set_phase q Finished (s3\<lparr>shared := shared s3 @ [Some r']\<rparr>)"
  have start: "phase_of s0 p = Inside" "phase_of s0 q = Inside" "shared s0 = f"
    using assms(1) by (simp_all add: s0_def both_inside_def)
  have "?R s0" unfolding s0_def by (rule two_inside [OF assms(1-3)])
  from further [OF this reads [of _ p]] start have "?R s1" by (simp add: s1_def)
  from further [OF this reads [of _ q]] start assms(1) have "?R s2" by (simp add: s1_def s2_def)
  from further [OF this writes [of _ p f]] start assms have "?R s3" by (simp add: s1_def s2_def s3_def)
  from further [OF this writes [of _ q f]] start assms have "?R s4" by (simp add: s1_def s2_def s3_def s4_def)
  moreover have "shared s4 = f @ [Some r, Some r']" by (simp add: s1_def s2_def s3_def s4_def start)
  ultimately show ?thesis by blast
qed

lemma fork_detected:
  assumes "verify_ledger h f = Inr (True, -1)" "kind \<noteq> []" "next_row h ts kind reason data f = Inr r"
    "next_row h ts' kind' reason' data' f = Inr r'" "kind' \<noteq> []"
  shows "verify_ledger h (f @ [Some r, Some r']) = Inr (False, int (length f) + 1) \<or> (\<exists>e b. h e b = e)"
proof -
  let ?rows = "read_ledger f" and ?e = "chain_end h genesis (read_ledger f)"
  have v: "verify_rows h 0 genesis ?rows = Inr (True, -1)" using assms(1) by (simp add: verify_ledger_def)
  have r: "r = linked_row h (row_body (length ?rows) ts kind reason (map (\<lambda>(k, v). (k, body_value v)) data) ?e) ?e"
    "r' = linked_row h (row_body (length ?rows) ts' kind' reason' (map (\<lambda>(k, v). (k, body_value v)) data') ?e) ?e"
    using assms(3,4) tail_hash_chain_end [OF v] by (simp_all add: next_row_def Let_def split: if_splits)
  obtain d where d: "r = JObj d" "row_ok h ?e d" unfolding r by (rule linked_row_ok [OF refl assms(2)])
  obtain d' where d': "r' = JObj d'" "row_ok h ?e d'" unfolding r by (rule linked_row_ok [OF refl assms(5)])
  have "verify_ledger h (f @ [Some r, Some r'])
      = verify_rows h (Suc (length f)) (h ?e (body_of d)) [r']"
  proof -
    have "read_ledger (f @ [Some r, Some r']) = ?rows @ [JObj d, r']" "length ?rows = length f"
      by (simp_all add: read_ledger_def d(1))
    with verify_loop_split [OF v, of "[JObj d, r']"] show ?thesis
      by (simp add: verify_ledger_def body_of_def d(2))
  qed
  also have "\<dots> = Inr (False, int (length f) + 1) \<or> h ?e (body_of d) = ?e"
  proof -
    have "jget d' ''prev_hash'' = JStr ?e" using d'(2) by (simp add: row_ok_def)
    then show ?thesis by (simp add: d'(1) row_ok_def)
  qed
  finally show ?thesis by blast
qed

section \<open>Acquisition always returns\<close>

datatype lock_view = Absent | Held bool bool \<comment> \<open>whether a pid is in it, whether that process lives\<close>

definition LOCK_TIMEOUT_US :: int where "LOCK_TIMEOUT_US = 5000000"
definition POLL_US :: int where "POLL_US = 5000"

partial_function (option) acquire :: "bool \<Rightarrow> int \<Rightarrow> int \<Rightarrow> lock_view \<Rightarrow> int option" where
  \<comment> \<open>the loop of one process that no other interferes with; whether \<open>unlink\<close> can remove the file;
     \<open>None\<close> where it never returns\<close>
  "acquire unlinks deadline now view =
     (case view of
        Absent \<Rightarrow> Some now
      | Held known alive \<Rightarrow>
          if known \<and> \<not> alive then acquire unlinks deadline now (if unlinks then Absent else view)
          else if deadline < now then acquire unlinks deadline now (if unlinks then Absent else view)
          else acquire unlinks deadline (now + POLL_US) view)"

lemma acquire_absent [simp]: "acquire unlinks deadline now Absent = Some now"
  by (simp add: acquire.simps)

lemma acquire_returns:
  "\<exists>t. acquire True deadline now view = Some t \<and> now \<le> t \<and> (t \<le> now \<or> t \<le> deadline + POLL_US)"
proof (induction "nat (deadline - now + 1)" arbitrary: now rule: less_induct)
  case less
  show ?case
  proof (cases view)
    case (Held known alive)
    show ?thesis
    proof (cases "known \<and> \<not> alive \<or> deadline < now")
      case True
      then show ?thesis by (subst acquire.simps) (auto simp: Held)
    next
      case False
      then have "nat (deadline - (now + POLL_US) + 1) < nat (deadline - now + 1)" by (simp add: POLL_US_def)
      from less [OF this] obtain t where "acquire True deadline (now + POLL_US) view = Some t"
        "now + POLL_US \<le> t" "t \<le> now + POLL_US \<or> t \<le> deadline + POLL_US" by blast
      with False show ?thesis by (subst acquire.simps) (auto simp: Held POLL_US_def)
    qed
  qed simp
qed

lemma acquire_spins: "acquire False deadline now (Held True False) = None"
proof -
  have "\<not> unlinks \<longrightarrow> view \<noteq> Held True False" if "acquire unlinks d n view = Some t" for unlinks d n view t
    by (rule acquire.raw_induct [OF _ that, where P = "\<lambda>unlinks _ _ view _. \<not> unlinks \<longrightarrow> view \<noteq> Held True False"])
      (auto split: lock_view.splits if_splits)
  then show ?thesis by (metis option.exhaust)
qed

end
