(* ===== verification/Stores.thy ===== *)
theory Stores
  imports Json "HOL-Library.AList"
begin

text \<open>
  The append-only files of \<open>signald/stores.py\<close>: the signal feed and its per-ticker latest, the
  idempotency journal, the candidate and monitor ledgers. As in \<open>Ledger\<close> a file is its non-blank
  lines; these readers drop a line that does not parse. A row that is not an object has no \<open>get\<close>.
\<close>

type_synonym jsonl = "json option list"

definition json_rows :: "jsonl \<Rightarrow> json list" where
  "json_rows f = List.map_filter id f"

definition append_line :: "(string \<times> json) list \<Rightarrow> jsonl \<Rightarrow> jsonl" where
  "append_line d f = f @ [Some (JObj d)]"

fun row_get :: "json \<Rightarrow> string \<Rightarrow> json res" where
  "row_get (JObj d) k = Inr (jget d k)"
| "row_get _ k = Inl AttributeError"

section \<open>The signal feed\<close>

definition append_signal :: "(string \<times> json) list \<Rightarrow> jsonl \<Rightarrow> jsonl" where
  "append_signal = append_line"

definition write_latest ::
  "(string \<times> json) list \<Rightarrow> json option option \<Rightarrow> json option option res" where
  \<comment> \<open>\<open>latest[envelope["ticker"]] = envelope\<close>; a missing or unreadable file starts empty\<close>
  "write_latest envelope file =
     (let latest = (case file of Some (Some v) \<Rightarrow> v | _ \<Rightarrow> JObj []) in
      case map_of envelope ''ticker'' of
        None \<Rightarrow> Inl KeyError
      | Some (JStr ticker) \<Rightarrow>
          (case latest of
             JObj d \<Rightarrow> Inr (Some (Some (JObj (AList.update ticker (JObj envelope) d))))
           | _ \<Rightarrow> Inl TypeError)
      | Some _ \<Rightarrow> Inl OtherError)"

section \<open>The journal\<close>

definition mark_processed ::
  "string \<Rightarrow> string \<Rightarrow> string \<Rightarrow> string \<Rightarrow> string option \<Rightarrow> string \<Rightarrow> jsonl \<Rightarrow> jsonl" where
  "mark_processed decision_hash ticker path outcome mandate_hash stamp f =
     append_line ([(''type'', JStr ''processed''), (''decision_hash'', JStr decision_hash),
        (''ticker'', JStr ticker), (''path'', JStr path), (''outcome'', JStr outcome),
        (''at'', JStr stamp)]
        @ (case mandate_hash of None \<Rightarrow> [] | Some h \<Rightarrow> [(''mandate_hash'', JStr h)])) f"

fun processed_in :: "json list \<Rightarrow> string \<Rightarrow> string option \<Rightarrow> bool res" where
  "processed_in [] decision_hash mandate_hash = Inr False"
| "processed_in (r # rows) decision_hash mandate_hash =
     rbind (row_get r ''type'') (\<lambda>ty.
       if ty \<noteq> JStr ''processed'' then processed_in rows decision_hash mandate_hash
       else rbind (row_get r ''decision_hash'') (\<lambda>dh.
         if dh \<noteq> JStr decision_hash then processed_in rows decision_hash mandate_hash
         else rbind (row_get r ''mandate_hash'') (\<lambda>recorded.
           if recorded = JNull \<or> (case mandate_hash of None \<Rightarrow> True | Some m \<Rightarrow> recorded = JStr m)
           then Inr True else processed_in rows decision_hash mandate_hash)))"

definition is_processed :: "string \<Rightarrow> string option \<Rightarrow> jsonl \<Rightarrow> bool res" where
  "is_processed decision_hash mandate_hash f = processed_in (json_rows f) decision_hash mandate_hash"

definition need :: "(string \<times> json) list \<Rightarrow> string \<Rightarrow> json res" where
  \<comment> \<open>\<open>envelope[key]\<close>\<close>
  "need d k = (case map_of d k of Some v \<Rightarrow> Inr v | None \<Rightarrow> Inl KeyError)"

definition add_signal :: "(string \<times> json) list \<Rightarrow> jsonl \<Rightarrow> jsonl res" where
  "add_signal envelope f =
     rbind (need envelope ''signal_id'') (\<lambda>sid.
     rbind (need envelope ''decision_hash'') (\<lambda>dh.
     rbind (need envelope ''ticker'') (\<lambda>ticker.
     rbind (need envelope ''action'') (\<lambda>action.
     rbind (need envelope ''emitted_at'') (\<lambda>emitted.
     rmap (\<lambda>notional.
       append_line [(''type'', JStr ''signal''), (''signal_id'', sid), (''decision_hash'', dh),
         (''ticker'', ticker), (''action'', action), (''emitted_at'', emitted),
         (''notional_usd'', notional)] f)
       (row_get (case map_of envelope ''gates'' of Some g \<Rightarrow> g | None \<Rightarrow> JObj []) ''target_notional_usd''))))))"

definition stamp_of :: "json \<Rightarrow> datetime option" where
  \<comment> \<open>\<open>_parse_ts\<close> of the text the daemon writes; any other value is no stamp\<close>
  "stamp_of v = (case v of JStr s \<Rightarrow> parse_stamp s | _ \<Rightarrow> None)"

fun count_signals :: "date \<Rightarrow> json list \<Rightarrow> nat res" where
  "count_signals today [] = Inr 0"
| "count_signals today (r # rows) =
     rbind (row_get r ''type'') (\<lambda>ty.
       if ty \<noteq> JStr ''signal'' then count_signals today rows
       else rbind (row_get r ''emitted_at'') (\<lambda>at'.
         rmap (\<lambda>n. (case stamp_of at' of Some t \<Rightarrow> if date_of t = today then Suc n else n | None \<Rightarrow> n))
           (count_signals today rows)))"

definition signals_today_count :: "datetime \<Rightarrow> jsonl \<Rightarrow> nat res" where
  "signals_today_count now f = count_signals (date_of now) (json_rows f)"

fun first_signal :: "json list \<Rightarrow> json option res" where
  "first_signal [] = Inr None"
| "first_signal (r # rows) =
     rbind (row_get r ''type'') (\<lambda>ty. if ty = JStr ''signal'' then Inr (Some r) else first_signal rows)"

definition last_signal :: "jsonl \<Rightarrow> json option res" where
  "last_signal f = first_signal (rev (json_rows f))"

section \<open>Candidates and monitors\<close>

fun has_row :: "string \<Rightarrow> string \<Rightarrow> json list \<Rightarrow> bool res" where
  "has_row ticker decision_hash [] = Inr False"
| "has_row ticker decision_hash (r # rows) =
     rbind (row_get r ''ticker'') (\<lambda>t.
       if t \<noteq> JStr (str_upper ticker) then has_row ticker decision_hash rows
       else rbind (row_get r ''decision_hash'') (\<lambda>dh.
         if dh = JStr decision_hash then Inr True else has_row ticker decision_hash rows))"

definition has_record :: "string \<Rightarrow> string \<Rightarrow> jsonl \<Rightarrow> bool res" where
  "has_record ticker decision_hash f = has_row ticker decision_hash (json_rows f)"

definition opt_json :: "('a \<Rightarrow> json) \<Rightarrow> 'a option \<Rightarrow> json" where
  "opt_json g x = (case x of None \<Rightarrow> JNull | Some v \<Rightarrow> g v)"

definition record_candidate ::
  "string \<Rightarrow> string \<Rightarrow> string \<Rightarrow> string \<Rightarrow> pyfloat option \<Rightarrow> pyfloat option \<Rightarrow> string option \<Rightarrow> string
     \<Rightarrow> jsonl \<Rightarrow> jsonl" where
  "record_candidate ticker rating action decision_hash target_pct stop run_id stamp f =
     append_line [(''type'', JStr ''candidate''), (''ticker'', JStr (str_upper ticker)),
       (''rating'', JStr rating), (''action'', JStr action), (''decision_hash'', JStr decision_hash),
       (''target_pct'', opt_json JFloat target_pct), (''stop'', opt_json JFloat stop),
       (''run_id'', opt_json JStr run_id), (''at'', JStr stamp)] f"

definition record_monitor ::
  "string \<Rightarrow> string \<Rightarrow> string \<Rightarrow> string \<Rightarrow> bool \<Rightarrow> bool \<Rightarrow> string option \<Rightarrow> string option \<Rightarrow> string
     \<Rightarrow> jsonl \<Rightarrow> jsonl" where
  "record_monitor ticker rating action decision_hash in_mandate blocked binding_gate run_id stamp f =
     append_line [(''type'', JStr ''monitor''), (''ticker'', JStr (str_upper ticker)),
       (''rating'', JStr rating), (''action'', JStr action), (''decision_hash'', JStr decision_hash),
       (''in_mandate'', JBool in_mandate), (''blocked'', JBool blocked),
       (''binding_gate'', opt_json JStr binding_gate), (''run_id'', opt_json JStr run_id),
       (''at'', JStr stamp)] f"

section \<open>The journal as a set of marks and a list of signals\<close>

definition objects :: "jsonl \<Rightarrow> bool" where
  "objects f \<longleftrightarrow> list_all (\<lambda>r. case r of JObj _ \<Rightarrow> True | _ \<Rightarrow> False) (json_rows f)"

fun typed :: "string \<Rightarrow> json \<Rightarrow> bool" where
  "typed ty (JObj d) = (jget d ''type'' = JStr ty)"
| "typed ty _ = False"

fun field :: "string \<Rightarrow> json \<Rightarrow> json" where
  "field k (JObj d) = jget d k"
| "field k _ = JNull"

definition marks :: "jsonl \<Rightarrow> (json \<times> json) list" where
  \<comment> \<open>the decisions handled, and the mandate a refusal is bound to\<close>
  "marks f = map (\<lambda>r. (field ''decision_hash'' r, field ''mandate_hash'' r)) (filter (typed ''processed'') (json_rows f))"

definition emissions :: "jsonl \<Rightarrow> json list" where
  "emissions f = filter (typed ''signal'') (json_rows f)"

definition settles :: "string \<Rightarrow> string option \<Rightarrow> json \<times> json \<Rightarrow> bool" where
  \<comment> \<open>a mark that covers a decision under a mandate\<close>
  "settles dh mh m \<longleftrightarrow> fst m = JStr dh \<and> (snd m = JNull \<or> mh = None \<or> snd m = JStr (the mh))"

lemma json_rows_append [simp]: "json_rows (append_line d f) = json_rows f @ [JObj d]"
  by (simp add: json_rows_def append_line_def List.map_filter_def)

lemma objects_append [simp]: "objects (append_line d f) \<longleftrightarrow> objects f"
  by (simp add: objects_def)

lemma is_processed_marks:
  assumes "objects f" shows "is_processed dh mh f = Inr (\<exists>m \<in> set (marks f). settles dh mh m)"
proof -
  have "processed_in rows dh mh = Inr (\<exists>r \<in> set rows. typed ''processed'' r
      \<and> settles dh mh (field ''decision_hash'' r, field ''mandate_hash'' r))"
    if "list_all (\<lambda>r. case r of JObj _ \<Rightarrow> True | _ \<Rightarrow> False) rows" for rows
    using that
  proof (induction rows)
    case (Cons r rows)
    then obtain d where "r = JObj d" by (cases r) auto
    with Cons show ?case by (cases mh) (auto simp: settles_def)
  qed simp
  from this [of "json_rows f"] assms show ?thesis by (auto simp: is_processed_def objects_def marks_def)
qed

lemma signals_today_emissions:
  assumes "objects f"
  shows "signals_today_count now f = Inr (length (filter (\<lambda>r. case stamp_of (field ''emitted_at'' r) of
           Some t \<Rightarrow> date_of t = date_of now | None \<Rightarrow> False) (emissions f)))"
proof -
  have "count_signals day rows = Inr (length (filter (\<lambda>r. case stamp_of (field ''emitted_at'' r) of
           Some t \<Rightarrow> date_of t = day | None \<Rightarrow> False) (filter (typed ''signal'') rows)))"
    if "list_all (\<lambda>r. case r of JObj _ \<Rightarrow> True | _ \<Rightarrow> False) rows" for rows day
    using that
  proof (induction rows)
    case (Cons r rows)
    then obtain d where "r = JObj d" by (cases r) auto
    with Cons show ?case by (auto split: option.splits)
  qed simp
  with assms show ?thesis by (simp add: signals_today_count_def objects_def emissions_def)
qed

lemma last_signal_emissions:
  assumes "objects f"
  shows "last_signal f = Inr (if emissions f = [] then None else Some (last (emissions f)))"
proof -
  have "first_signal rows = Inr (case filter (typed ''signal'') rows of [] \<Rightarrow> None | r # _ \<Rightarrow> Some r)"
    if "list_all (\<lambda>r. case r of JObj _ \<Rightarrow> True | _ \<Rightarrow> False) rows" for rows
    using that
  proof (induction rows)
    case (Cons r rows)
    then obtain d where "r = JObj d" by (cases r) auto
    with Cons show ?case by auto
  qed simp
  from this [of "rev (json_rows f)"] assms show ?thesis
    by (simp add: last_signal_def objects_def emissions_def rev_filter [symmetric] last_rev [symmetric]
        hd_conv_nth split: list.split)
qed

lemma mark_processed_marks:
  "marks (mark_processed dh ticker path outcome mh stamp f)
     = marks f @ [(JStr dh, opt_json JStr mh)]"
  "emissions (mark_processed dh ticker path outcome mh stamp f) = emissions f"
  by (cases mh; simp add: marks_def emissions_def mark_processed_def jget_def opt_json_def)+

lemma add_signal_emissions:
  assumes "add_signal envelope f = Inr f'"
  shows "marks f' = marks f" "\<exists>r. emissions f' = emissions f @ [r] \<and> typed ''signal'' r
     \<and> (\<forall>k \<in> {''signal_id'', ''decision_hash'', ''ticker'', ''action'', ''emitted_at''}.
          field k r = jget envelope k)"
    "objects f' \<longleftrightarrow> objects f"
proof -
  from assms obtain sid dh tk ac em no where
    k: "need envelope ''signal_id'' = Inr sid" "need envelope ''decision_hash'' = Inr dh"
      "need envelope ''ticker'' = Inr tk" "need envelope ''action'' = Inr ac"
      "need envelope ''emitted_at'' = Inr em"
    and f': "f' = append_line [(''type'', JStr ''signal''), (''signal_id'', sid), (''decision_hash'', dh),
         (''ticker'', tk), (''action'', ac), (''emitted_at'', em), (''notional_usd'', no)] f"
    unfolding add_signal_def rbind_Inr_iff rmap_Inr_iff by blast
  have need: "need envelope k = Inr v \<Longrightarrow> jget envelope k = v" for k v
    by (auto simp: need_def jget_def split: option.splits)
  show "marks f' = marks f" by (simp add: f' marks_def jget_def)
  show "objects f' \<longleftrightarrow> objects f" by (simp add: f')
  show "\<exists>r. emissions f' = emissions f @ [r] \<and> typed ''signal'' r
     \<and> (\<forall>k \<in> {''signal_id'', ''decision_hash'', ''ticker'', ''action'', ''emitted_at''}.
          field k r = jget envelope k)"
    using k [THEN need] by (simp add: f' emissions_def) (simp add: jget_def)
qed

section \<open>Once only\<close>

lemma has_record_after:
  assumes "objects f"
  shows "has_record ticker dh (record_candidate ticker rating action dh target stop run stamp f) = Inr True"
    "has_record ticker dh (record_monitor ticker rating action dh inm bl gate run stamp f) = Inr True"
proof -
  have "has_row ticker dh (rows @ [JObj d]) = Inr True"
    if "list_all (\<lambda>r. case r of JObj _ \<Rightarrow> True | _ \<Rightarrow> False) rows"
      "jget d ''ticker'' = JStr (str_upper ticker)" "jget d ''decision_hash'' = JStr dh" for rows d
    using that
  proof (induction rows)
    case (Cons r rows)
    then obtain e where "r = JObj e" by (cases r) auto
    with Cons show ?case by auto
  qed simp
  with assms show "has_record ticker dh (record_candidate ticker rating action dh target stop run stamp f) = Inr True"
    "has_record ticker dh (record_monitor ticker rating action dh inm bl gate run stamp f) = Inr True"
    by (simp_all add: has_record_def record_candidate_def record_monitor_def objects_def jget_def)
qed

text \<open>\<open>record\<close> itself does not look: only its caller's \<open>has\<close> keeps a row from being written twice.\<close>

lemma record_candidate_repeats:
  "length (record_candidate ticker rating action dh target stop run stamp
     (record_candidate ticker rating action dh target stop run stamp f)) = length f + 2"
  by (simp add: record_candidate_def append_line_def)

end
