(* ===== verification/JsonText.thy ===== *)
theory JsonText
  imports Ledger "HOL-Library.AList"
begin

text \<open>
  Python's coercions of values read from JSON: \<open>str\<close>, \<open>float\<close>, \<open>int\<close>, \<open>list\<close> and \<open>dict\<close>, the
  idioms \<open>str(x or "")\<close> and \<open>x or None\<close>, and \<open>sha256_of\<close>. The text of a float, a list or an object is
  the argument \<open>rp\<close>: no decision looks inside it except to compare it with fixed words. The hash of a
  canonical value is the argument \<open>h\<close>.
\<close>

named_theorems ok_iff \<open>when a chain of checks returns\<close>

declare rbind_Inr_iff [ok_iff] rmap_Inr_iff [ok_iff]

lemma rbind_Inl_iff: "rbind r f = Inl e \<longleftrightarrow> r = Inl e \<or> (\<exists>x. r = Inr x \<and> f x = Inl e)"
  by (cases r) auto

lemma rbind_InlE:
  "rbind r f = Inl e \<Longrightarrow> (r = Inl e \<Longrightarrow> P) \<Longrightarrow> (\<And>x. r = Inr x \<Longrightarrow> f x = Inl e \<Longrightarrow> P) \<Longrightarrow> P"
  by (cases r) auto

lemma rmap_Inl_iff: "rmap f r = Inl e \<longleftrightarrow> r = Inl e"
  by (cases r) auto

lemma rbind_InrE: "rbind r f = Inr y \<Longrightarrow> (\<And>x. r = Inr x \<Longrightarrow> f x = Inr y \<Longrightarrow> P) \<Longrightarrow> P"
  by (auto simp: rbind_Inr_iff)

lemma rmap_InrE: "rmap f r = Inr y \<Longrightarrow> (\<And>x. r = Inr x \<Longrightarrow> y = f x \<Longrightarrow> P) \<Longrightarrow> P"
  by (auto simp: rmap_Inr_iff)

section \<open>Text\<close>

definition int_text :: "int \<Rightarrow> string" where
  "int_text n = (if n < 0 then CHR ''-'' # nat_text (nat (- n)) else nat_text (nat n))"

fun py_str :: "(json \<Rightarrow> string) \<Rightarrow> json \<Rightarrow> string" where
  "py_str rp JNull = ''None''"
| "py_str rp (JBool b) = (if b then ''True'' else ''False'')"
| "py_str rp (JInt n) = int_text n"
| "py_str rp (JStr s) = s"
| "py_str rp v = rp v"

definition or_str :: "(json \<Rightarrow> string) \<Rightarrow> json \<Rightarrow> string" where
  \<comment> \<open>\<open>str(x or "")\<close>\<close>
  "or_str rp v = (if json_truthy v then py_str rp v else [])"

definition some_text :: "string \<Rightarrow> string option" where
  \<comment> \<open>\<open>text or None\<close>\<close>
  "some_text s = (if s = [] then None else Some s)"

definition removeprefix :: "string \<Rightarrow> string \<Rightarrow> string" where
  "removeprefix p s = (if take (length p) s = p then drop (length p) s else s)"

fun split_on :: "char \<Rightarrow> string \<Rightarrow> string list" where
  \<comment> \<open>\<open>text.split(c)\<close>: never empty\<close>
  "split_on c [] = [[]]"
| "split_on c (x # xs) =
     (if x = c then [] # split_on c xs
      else (case split_on c xs of [] \<Rightarrow> [[x]] | w # ws \<Rightarrow> (x # w) # ws))"

lemma split_on_ne [simp]: "split_on c xs \<noteq> []"
  by (induction xs) (auto split: list.splits)

lemma removeprefix_simps [simp]: "removeprefix p (p @ s) = s"
  by (simp add: removeprefix_def)

lemma or_str_simps [simp]: "or_str rp JNull = []" "or_str rp (JStr s) = s"
  by (simp_all add: or_str_def)

lemma some_text_iff [simp]: "some_text s = Some t \<longleftrightarrow> s = t \<and> t \<noteq> []" "some_text s = None \<longleftrightarrow> s = []"
  by (auto simp: some_text_def)

section \<open>Numbers and containers\<close>

fun float_of_json :: "json \<Rightarrow> pyfloat res" where
  "float_of_json (JBool b) = Inr (if b then 1 else 0)"
| "float_of_json (JInt n) = Inr (Fin (of_int n))"
| "float_of_json (JFloat x) = Inr x"
| "float_of_json (JStr s) = (case float_of_text s of Some x \<Rightarrow> Inr x | None \<Rightarrow> Inl ValueError)"
| "float_of_json _ = Inl TypeError"

fun int_of_json :: "json \<Rightarrow> int res" where
  "int_of_json (JBool b) = Inr (if b then 1 else 0)"
| "int_of_json (JInt n) = Inr n"
| "int_of_json (JFloat (Fin x)) = Inr (if 0 \<le> x then \<lfloor>x\<rfloor> else \<lceil>x\<rceil>)"
| "int_of_json (JFloat NaN) = Inl ValueError"
| "int_of_json (JFloat _) = Inl OverflowError"
| "int_of_json (JStr s) = (case int_of_text s of Some n \<Rightarrow> Inr n | None \<Rightarrow> Inl ValueError)"
| "int_of_json _ = Inl TypeError"

definition json_or :: "json \<Rightarrow> json \<Rightarrow> json" where
  \<comment> \<open>\<open>x or d\<close>\<close>
  "json_or v d = (if json_truthy v then v else d)"

fun list_of_json :: "json \<Rightarrow> json list res" where
  \<comment> \<open>\<open>list(x)\<close>: the characters of a text, the keys of an object\<close>
  "list_of_json (JList xs) = Inr xs"
| "list_of_json (JStr s) = Inr (map (\<lambda>c. JStr [c]) s)"
| "list_of_json (JObj d) = Inr (map (JStr \<circ> fst) d)"
| "list_of_json _ = Inl TypeError"

definition pair_of_json :: "json \<Rightarrow> (json \<times> json) res" where
  "pair_of_json v =
     rbind (list_of_json v) (\<lambda>xs.
       case xs of [k, x] \<Rightarrow> if hashable k then Inr (k, x) else Inl TypeError | _ \<Rightarrow> Inl ValueError)"

fun pairs_of_json :: "json list \<Rightarrow> (json \<times> json) list res" where
  "pairs_of_json [] = Inr []"
| "pairs_of_json (v # vs) = rbind (pair_of_json v) (\<lambda>p. rmap ((#) p) (pairs_of_json vs))"

definition dict_of_json :: "json \<Rightarrow> (json \<times> json) list res" where
  \<comment> \<open>\<open>dict(x)\<close>: an object, or an iterable of pairs; a later key overrides\<close>
  "dict_of_json v =
     (case v of
        JObj d \<Rightarrow> Inr (map (\<lambda>(k, x). (JStr k, x)) d)
      | _ \<Rightarrow> rbind (list_of_json v) (\<lambda>xs. rmap (foldl (\<lambda>d (k, x). AList.update k x d) []) (pairs_of_json xs)))"

section \<open>Hashes\<close>

type_synonym json_hash = "json \<Rightarrow> string"

definition sha256_of :: "json_hash \<Rightarrow> json \<Rightarrow> string" where
  "sha256_of h v = h (canon v)"

definition without :: "string list \<Rightarrow> (string \<times> json) list \<Rightarrow> (string \<times> json) list" where
  "without ks d = filter (\<lambda>kv. fst kv \<notin> set ks) d"

lemma map_of_without: "map_of (without ks d) k = (if k \<in> set ks then None else map_of d k)"
  unfolding without_def by (induction d) auto

lemma without_idem [simp]: "without ks (without ks d) = without ks d"
  by (simp add: without_def)

lemma without_append [simp]: "without ks (d @ e) = without ks d @ without ks e"
  by (simp add: without_def)

lemma jget_without [simp]: "jget (without ks d) k = (if k \<in> set ks then JNull else jget d k)"
  by (simp add: jget_def map_of_without)

lemma jget_append: "jget (d @ e) k = (if map_of d k = None then jget e k else jget d k)"
  by (auto simp: jget_def map_add_def split: option.split)

end
