(* ===== verification/Signing.thy ===== *)
theory Signing
  imports Stores JsonText
begin

text \<open>
  \<open>signald/api/signing.py\<close>: the canonical string, the nonce store and the authenticator. SHA-256 and
  HMAC are the arguments \<open>sha\<close> (of the body) and \<open>hmac\<close> (of secret and message); nothing below rests
  on more than their being functions. The clock is a function of how often it was read. Headers and
  keys are mappings in order; instants are microseconds UTC.
\<close>

section \<open>What is signed\<close>

definition ROLES :: "string list" where
  "ROLES = [''read'', ''propose'', ''execute'', ''admin'']"

record parts =
  pa_method :: string
  pa_path :: string
  pa_body :: string
  pa_timestamp :: string
  pa_nonce :: string
  pa_key_id :: string

definition newline :: char where "newline = CHR 0x0A"

definition canonical_string :: "(string \<Rightarrow> string) \<Rightarrow> parts \<Rightarrow> string" where
  "canonical_string sha p =
     pa_method p @ newline # pa_path p @ newline # sha (pa_body p) @ newline # pa_timestamp p
       @ newline # pa_nonce p @ newline # pa_key_id p"

definition sign ::
  "(string \<Rightarrow> string) \<Rightarrow> (string \<Rightarrow> string \<Rightarrow> string) \<Rightarrow> string \<Rightarrow> parts \<Rightarrow> string" where
  "sign sha hmac secret p = hmac secret (canonical_string sha p)"

definition verify_signature ::
  "(string \<Rightarrow> string) \<Rightarrow> (string \<Rightarrow> string \<Rightarrow> string) \<Rightarrow> string \<Rightarrow> string \<Rightarrow> parts \<Rightarrow> bool" where
  "verify_signature sha hmac secret signature p \<longleftrightarrow> sign sha hmac secret p = signature"

definition parse_iso :: "string \<Rightarrow> datetime option" where
  "parse_iso text = fromisoformat (strip text)"

section \<open>The nonce store\<close>

record nonce_store =
  ns_ttl_s :: pyfloat
  ns_seen :: "(string \<times> int) list"
  ns_loaded :: bool
  ns_file :: "jsonl option" \<comment> \<open>the journal, where there is a path\<close>
  ns_text :: "json \<Rightarrow> string" \<comment> \<open>\<open>str\<close> of a float, a list or an object\<close>

definition load_row :: "(json \<Rightarrow> string) \<Rightarrow> json \<Rightarrow> (string \<times> int) list \<Rightarrow> (string \<times> int) list res" where
  \<comment> \<open>the earliest claim of a nonce wins; a nonce that is no string is no string's nonce\<close>
  "load_row rp r seen =
     rbind (row_get r ''nonce'') (\<lambda>nonce.
     rbind (row_get r ''at'') (\<lambda>stamp.
       (case parse_iso (py_str rp stamp) of
          None \<Rightarrow> Inr seen
        | Some t \<Rightarrow>
            if \<not> json_truthy nonce then Inr seen
            else if \<not> hashable nonce then Inl TypeError
            else (case nonce of
                JStr n \<Rightarrow> (case map_of seen n of
                    Some before' \<Rightarrow> if utc_instant t < before' then Inr (AList.update n (utc_instant t) seen)
                                   else Inr seen
                  | None \<Rightarrow> Inr (AList.update n (utc_instant t) seen))
              | _ \<Rightarrow> Inr seen))))"

fun load_rows :: "(json \<Rightarrow> string) \<Rightarrow> json list \<Rightarrow> (string \<times> int) list \<Rightarrow> (string \<times> int) list \<times> exc option" where
  \<comment> \<open>what was read before a row that raises stays read\<close>
  "load_rows rp [] seen = (seen, None)"
| "load_rows rp (r # rs) seen =
     (case load_row rp r seen of Inl e \<Rightarrow> (seen, Some e) | Inr seen' \<Rightarrow> load_rows rp rs seen')"

definition load :: "nonce_store \<Rightarrow> nonce_store \<times> exc option" where
  \<comment> \<open>marked as loaded before the file is read\<close>
  "load ns =
     (if ns_loaded ns then (ns, None)
      else (let (seen, e) = (case ns_file ns of None \<Rightarrow> (ns_seen ns, None)
                             | Some f \<Rightarrow> load_rows (ns_text ns) (json_rows f) (ns_seen ns))
            in (ns\<lparr>ns_loaded := True, ns_seen := seen\<rparr>, e)))"

definition stale_nonce :: "pyfloat \<Rightarrow> int \<Rightarrow> int \<Rightarrow> bool" where
  "stale_nonce ttl now at' \<longleftrightarrow> ttl \<le> total_seconds (now - at')"

definition purge :: "int \<Rightarrow> nonce_store \<Rightarrow> nonce_store" where
  "purge now ns = ns\<lparr>ns_seen := filter (\<lambda>(n, at'). \<not> stale_nonce (ns_ttl_s ns) now at') (ns_seen ns)\<rparr>"

definition knows :: "string \<Rightarrow> nonce_store \<Rightarrow> bool" where
  "knows n ns \<longleftrightarrow> n \<in> fst ` set (ns_seen ns)"

definition seen :: "string \<Rightarrow> datetime \<Rightarrow> nonce_store \<Rightarrow> nonce_store \<times> bool res" where
  "seen n now ns =
     (case load ns of
        (ns', Some e) \<Rightarrow> (ns', Inl e)
      | (ns', None) \<Rightarrow> (let ns'' = purge (utc_instant now) ns' in (ns'', Inr (knows n ns''))))"

definition as_utc :: "datetime \<Rightarrow> datetime" where
  "as_utc t = \<lparr>wall_us = utc_instant t, utc_off = Some 0\<rparr>"

definition consume :: "string \<Rightarrow> datetime \<Rightarrow> nonce_store \<Rightarrow> nonce_store \<times> bool res" where
  "consume n now ns =
     (case load ns of
        (ns', Some e) \<Rightarrow> (ns', Inl e)
      | (ns', None) \<Rightarrow>
          (let ns'' = purge (utc_instant now) ns' in
           if knows n ns'' then (ns'', Inr False)
           else (ns''\<lparr>ns_seen := AList.update n (utc_instant now) (ns_seen ns''),
                      ns_file := map_option (append_line [(''nonce'', JStr n),
                         (''at'', JStr (isoformat (as_utc now)))]) (ns_file ns'')\<rparr>, Inr True)))"

section \<open>The authenticator\<close>

record auth_result =
  ar_ok :: bool
  ar_role :: "string option"
  ar_reason :: string

record request =
  rq_method :: string
  rq_path :: string
  rq_body :: string
  rq_headers :: "(string \<times> string) list"
  rq_required_role :: "string option"

fun header :: "(string \<times> string) list \<Rightarrow> string \<Rightarrow> string" where
  "header [] name = []"
| "header ((k, v) # hs) name = (if str_lower k = str_lower name then strip v else header hs name)"

fun index_of :: "'a \<Rightarrow> 'a list \<Rightarrow> nat" where
  "index_of x [] = 0"
| "index_of x (y # ys) = (if x = y then 0 else Suc (index_of x ys))"

definition role_allows :: "string \<Rightarrow> string \<Rightarrow> bool" where
  "role_allows role required =
     (if role \<notin> set ROLES \<or> required \<notin> set ROLES then False
      else index_of required ROLES \<le> index_of role ROLES)"

record authenticator =
  au_keys :: "(string \<times> string) list"
  au_roles :: "(string \<times> string) list"
  au_window_s :: pyfloat
  au_clock :: "nat \<Rightarrow> datetime"
  au_sha :: "string \<Rightarrow> string"
  au_hmac :: "string \<Rightarrow> string \<Rightarrow> string"

record auth_state =
  at_ticks :: nat \<comment> \<open>how often the clock was read\<close>
  at_nonces :: nonce_store

definition refuse :: "string option \<Rightarrow> string \<Rightarrow> auth_result" where
  "refuse role reason = \<lparr>ar_ok = False, ar_role = role, ar_reason = reason\<rparr>"

definition request_parts :: "request \<Rightarrow> parts" where
  "request_parts q =
     \<lparr>pa_method = rq_method q, pa_path = rq_path q, pa_body = rq_body q,
      pa_timestamp = header (rq_headers q) ''X-Timestamp'', pa_nonce = header (rq_headers q) ''X-Nonce'',
      pa_key_id = header (rq_headers q) ''X-Key-Id''\<rparr>"

definition in_window :: "pyfloat \<Rightarrow> datetime \<Rightarrow> datetime \<Rightarrow> bool" where
  "in_window window now t \<longleftrightarrow>
     \<not> fdiv window (Fin 2) < total_seconds \<bar>utc_instant now - utc_instant t\<bar>"

definition spend_tick :: "auth_state \<Rightarrow> auth_state" where
  "spend_tick s = s\<lparr>at_ticks := Suc (at_ticks s)\<rparr>"

definition claim ::
  "authenticator \<Rightarrow> request \<Rightarrow> string \<Rightarrow> string \<Rightarrow> auth_state \<Rightarrow> auth_state \<times> auth_result res" where
  \<comment> \<open>from the nonce check on\<close>
  "claim au q secret role s =
     (let p = request_parts q; (ns, known) = seen (pa_nonce p) (au_clock au (at_ticks s)) (at_nonces s);
          s1 = spend_tick s\<lparr>at_nonces := ns\<rparr> in
      case known of
        Inl e \<Rightarrow> (s1, Inl e)
      | Inr True \<Rightarrow> (s1, Inr (refuse None ''replayed_nonce''))
      | Inr False \<Rightarrow>
          if \<not> verify_signature (au_sha au) (au_hmac au) secret
                 (header (rq_headers q) ''X-Signature'') p
            then (s1, Inr (refuse None ''bad_signature''))
          else (let (ns', fresh) = consume (pa_nonce p) (au_clock au (at_ticks s1)) ns;
                    s2 = spend_tick s1\<lparr>at_nonces := ns'\<rparr> in
            case fresh of
              Inl e \<Rightarrow> (s2, Inl e)
            | Inr False \<Rightarrow> (s2, Inr (refuse None ''replayed_nonce''))
            | Inr True \<Rightarrow> (s2, Inr (case rq_required_role q of
                  Some required \<Rightarrow> if \<not> role_allows role required then refuse (Some role) ''forbidden''
                                   else \<lparr>ar_ok = True, ar_role = Some role, ar_reason = ''ok''\<rparr>
                | None \<Rightarrow> \<lparr>ar_ok = True, ar_role = Some role, ar_reason = ''ok''\<rparr>))))"

definition authenticate ::
  "authenticator \<Rightarrow> request \<Rightarrow> auth_state \<Rightarrow> auth_state \<times> auth_result res" where
  "authenticate au q s =
     (let p = request_parts q; signature = header (rq_headers q) ''X-Signature'' in
      if pa_key_id p = [] \<or> pa_timestamp p = [] \<or> pa_nonce p = [] \<or> signature = []
        then (s, Inr (refuse None ''missing_header''))
      else (case map_of (au_keys au) (pa_key_id p) of
          None \<Rightarrow> (s, Inr (refuse None ''unknown_key''))
        | Some secret \<Rightarrow>
            (case map_of (au_roles au) (pa_key_id p) of
               None \<Rightarrow> (s, Inr (refuse None ''forbidden''))
             | Some role \<Rightarrow>
                 if role \<notin> set ROLES then (s, Inr (refuse None ''forbidden''))
                 else (case parse_iso (pa_timestamp p) of
                     None \<Rightarrow> (s, Inr (refuse None ''stale_timestamp''))
                   | Some t \<Rightarrow>
                       if \<not> in_window (au_window_s au) (au_clock au (at_ticks s)) t
                         then (spend_tick s, Inr (refuse None ''stale_timestamp''))
                       else claim au q secret role (spend_tick s)))))"

section \<open>An accepted request\<close>

lemma spend_tick_simps [simp]: "at_ticks (spend_tick s) = Suc (at_ticks s)" "at_nonces (spend_tick s) = at_nonces s"
  by (simp_all add: spend_tick_def)

lemma load_loaded: "ns_loaded (fst (load ns))" "ns_ttl_s (fst (load ns)) = ns_ttl_s ns"
    "ns_loaded ns \<Longrightarrow> load ns = (ns, None)"
  by (auto simp: load_def Let_def split: option.split prod.split)

lemma purge_simps [simp]:
  "ns_loaded (purge now ns) = ns_loaded ns" "ns_ttl_s (purge now ns) = ns_ttl_s ns"
  "ns_file (purge now ns) = ns_file ns"
  by (simp_all add: purge_def)

lemma seen_state:
  assumes "seen n now ns = (ns', r)"
  shows "ns_loaded ns'" "ns_ttl_s ns' = ns_ttl_s ns"
    "r = Inr b \<Longrightarrow> b = knows n ns' \<and> ns' = purge (utc_instant now) (fst (load ns))"
  using assms load_loaded [of ns]
  by (auto simp: seen_def Let_def split: prod.splits option.splits)

lemma consume_loaded:
  assumes "ns_loaded ns" "consume n now ns = (ns', r)"
  shows "\<exists>b. r = Inr b" "ns_loaded ns'" "ns_ttl_s ns' = ns_ttl_s ns"
    "r = Inr True \<Longrightarrow> map_of (ns_seen ns') n = Some (utc_instant now)"
  using assms by (auto simp: consume_def load_loaded(3) Let_def update_conv' split: if_splits)

lemma claim_ok:
  assumes "claim au q secret role s = (s', Inr r)" "ar_ok r"
  shows "ar_role r = Some role"
    "verify_signature (au_sha au) (au_hmac au) secret (header (rq_headers q) ''X-Signature'') (request_parts q)"
    "\<forall>required. rq_required_role q = Some required \<longrightarrow> role_allows role required"
    "\<not> knows (pa_nonce (request_parts q))
        (purge (utc_instant (au_clock au (at_ticks s))) (fst (load (at_nonces s))))"
    "at_ticks s' = at_ticks s + 2" "ns_loaded (at_nonces s')" "ns_ttl_s (at_nonces s') = ns_ttl_s (at_nonces s)"
    "map_of (ns_seen (at_nonces s')) (pa_nonce (request_parts q))
        = Some (utc_instant (au_clock au (at_ticks s + 1)))"
proof -
  let ?p = "request_parts q"
  obtain ns known where sn: "seen (pa_nonce ?p) (au_clock au (at_ticks s)) (at_nonces s) = (ns, known)"
    by (cases "seen (pa_nonce ?p) (au_clock au (at_ticks s)) (at_nonces s)")
  obtain ns' fresh where cn: "consume (pa_nonce ?p) (au_clock au (Suc (at_ticks s))) ns = (ns', fresh)"
    by (cases "consume (pa_nonce ?p) (au_clock au (Suc (at_ticks s))) ns")
  note loaded = seen_state [OF sn]
  note con = consume_loaded [OF loaded(1) cn]
  have known: "known = Inr False"
    using assms sn by (auto simp: claim_def Let_def refuse_def split: sum.splits bool.splits)
  have sig: "verify_signature (au_sha au) (au_hmac au) secret (header (rq_headers q) ''X-Signature'') ?p"
    using assms sn known by (auto simp: claim_def Let_def refuse_def split: if_splits)
  have fresh: "fresh = Inr True"
    using assms sn cn known sig by (auto simp: claim_def Let_def refuse_def split: sum.splits bool.splits)
  have run: "s' = spend_tick (spend_tick s\<lparr>at_nonces := ns\<rparr>)\<lparr>at_nonces := ns'\<rparr>"
      "r = (case rq_required_role q of
          Some required \<Rightarrow> if \<not> role_allows role required then refuse (Some role) ''forbidden''
                           else \<lparr>ar_ok = True, ar_role = Some role, ar_reason = ''ok''\<rparr>
        | None \<Rightarrow> \<lparr>ar_ok = True, ar_role = Some role, ar_reason = ''ok''\<rparr>)"
    using assms(1) sn cn known sig fresh by (simp_all add: claim_def)
  show "ar_role r = Some role" "\<forall>required. rq_required_role q = Some required \<longrightarrow> role_allows role required"
    using run(2) assms(2) by (auto simp: refuse_def split: option.splits if_splits)
  show "\<not> knows (pa_nonce ?p) (purge (utc_instant (au_clock au (at_ticks s))) (fst (load (at_nonces s))))"
    using loaded(3) [OF known] by auto
  show "at_ticks s' = at_ticks s + 2" "ns_loaded (at_nonces s')" "ns_ttl_s (at_nonces s') = ns_ttl_s (at_nonces s)"
    "map_of (ns_seen (at_nonces s')) (pa_nonce ?p) = Some (utc_instant (au_clock au (at_ticks s + 1)))"
    using run(1) con(2,3,4) fresh loaded(2) by simp_all
  show "verify_signature (au_sha au) (au_hmac au) secret (header (rq_headers q) ''X-Signature'') ?p" by (rule sig)
qed

lemma authenticate_ok:
  assumes "authenticate au q s = (s', Inr r)" "ar_ok r"
  obtains secret role t where "map_of (au_keys au) (pa_key_id (request_parts q)) = Some secret"
    "map_of (au_roles au) (pa_key_id (request_parts q)) = Some role" "role \<in> set ROLES"
    "parse_iso (pa_timestamp (request_parts q)) = Some t"
    "in_window (au_window_s au) (au_clock au (at_ticks s)) t"
    "claim au q secret role (spend_tick s) = (s', Inr r)"
  using assms by (auto simp: authenticate_def Let_def refuse_def split: if_splits option.splits)

lemma load_file: "ns_file (fst (load ns)) = ns_file ns"
  by (auto simp: load_def Let_def split: option.split prod.split)

lemma purge_sub: "set (ns_seen (purge now ns)) \<subseteq> set (ns_seen ns)"
  by (auto simp: purge_def)

lemma claim_unclaimed:
  assumes "claim au q secret role s = (s', Inr r)" "ar_reason r \<notin> {''ok'', ''forbidden''}"
  shows "ns_file (at_nonces s') = ns_file (at_nonces s)
    \<and> set (ns_seen (at_nonces s')) \<subseteq> set (ns_seen (fst (load (at_nonces s))))"
proof -
  let ?p = "request_parts q"
  obtain ns known where sn: "seen (pa_nonce ?p) (au_clock au (at_ticks s)) (at_nonces s) = (ns, known)"
    by (cases "seen (pa_nonce ?p) (au_clock au (at_ticks s)) (at_nonces s)")
  obtain ns' fresh where cn: "consume (pa_nonce ?p) (au_clock au (Suc (at_ticks s))) ns = (ns', fresh)"
    by (cases "consume (pa_nonce ?p) (au_clock au (Suc (at_ticks s))) ns")
  have ns: "ns_file ns = ns_file (at_nonces s)"
    "set (ns_seen ns) \<subseteq> set (ns_seen (fst (load (at_nonces s))))"
    using sn load_file [of "at_nonces s"] purge_sub
    by (auto simp: seen_def Let_def split: prod.splits option.splits dest: subsetD)
  have ns': "ns_file ns' = ns_file ns" "set (ns_seen ns') \<subseteq> set (ns_seen ns)" if "fresh = Inr False"
    using cn that load_loaded(3) [OF seen_state(1) [OF sn]] purge_sub
    by (auto simp: consume_def Let_def split: if_splits)
  consider "s' = spend_tick s\<lparr>at_nonces := ns\<rparr>"
    | "fresh = Inr False" "s' = spend_tick (spend_tick s\<lparr>at_nonces := ns\<rparr>)\<lparr>at_nonces := ns'\<rparr>"
    using assms sn cn
    by (auto simp: claim_def Let_def refuse_def split: sum.splits bool.splits if_splits option.splits)
  then show ?thesis
  proof cases
    case 2
    with ns ns' show ?thesis by auto
  qed (use ns in auto)
qed

lemma authenticate_unclaimed:
  assumes "authenticate au q s = (s', Inr r)" "ar_reason r \<notin> {''ok'', ''forbidden''}"
  shows "ns_file (at_nonces s') = ns_file (at_nonces s)
    \<and> (at_nonces s' = at_nonces s
       \<or> set (ns_seen (at_nonces s')) \<subseteq> set (ns_seen (fst (load (at_nonces s)))))"
proof -
  consider "at_nonces s' = at_nonces s" | secret role where "claim au q secret role (spend_tick s) = (s', Inr r)"
    using assms(1) by (auto simp: authenticate_def Let_def split: if_splits option.splits)
  then show ?thesis
  proof cases
    case 2
    from claim_unclaimed [OF this assms(2)] show ?thesis by simp
  qed simp
qed

section \<open>A nonce once claimed\<close>

definition remembers :: "string \<Rightarrow> int \<Rightarrow> nonce_store \<Rightarrow> bool" where
  "remembers n c ns \<longleftrightarrow> ns_loaded ns \<and> map_of (ns_seen ns) n = Some c"

lemma map_of_filter_keep: "map_of xs n = Some c \<Longrightarrow> P (n, c) \<Longrightarrow> map_of (filter P xs) n = Some c"
  by (induction xs) (auto split: if_splits)

lemma remembers_purge:
  "remembers n c ns \<Longrightarrow> \<not> stale_nonce (ns_ttl_s ns) now c \<Longrightarrow> remembers n c (purge now ns)"
  by (simp add: remembers_def purge_def map_of_filter_keep)

lemma remembers_knows: "remembers n c ns \<Longrightarrow> knows n ns"
  by (force simp: remembers_def knows_def dest: map_of_SomeD)

lemma remembers_seen:
  assumes "remembers n c ns" "\<not> stale_nonce (ns_ttl_s ns) (utc_instant now) c" "seen m now ns = (ns', r)"
  shows "remembers n c ns'"
proof -
  have "load ns = (ns, None)" using assms(1) by (simp add: load_loaded(3) remembers_def)
  with assms(3) remembers_purge [OF assms(1,2)] show ?thesis by (auto simp: seen_def Let_def)
qed

lemma remembers_consume:
  assumes "remembers n c ns" "\<not> stale_nonce (ns_ttl_s ns) (utc_instant now) c" "consume m now ns = (ns', r)"
  shows "remembers n c ns'"
proof -
  have "load ns = (ns, None)" using assms(1) by (simp add: load_loaded(3) remembers_def)
  moreover note kept = remembers_purge [OF assms(1,2)]
  moreover from kept have "knows n (purge (utc_instant now) ns)" by (rule remembers_knows)
  ultimately show ?thesis using assms(3)
    by (cases "m = n") (auto simp: consume_def Let_def remembers_def update_conv' split: if_splits)
qed

lemma claim_remembers:
  assumes "claim au q secret role s = (s', r)" "remembers n c (at_nonces s)"
    "\<forall>i < at_ticks s'. \<not> stale_nonce (ns_ttl_s (at_nonces s)) (utc_instant (au_clock au i)) c"
  shows "remembers n c (at_nonces s') \<and> ns_ttl_s (at_nonces s') = ns_ttl_s (at_nonces s) \<and> at_ticks s \<le> at_ticks s'"
proof -
  let ?p = "request_parts q"
  obtain ns known where sn: "seen (pa_nonce ?p) (au_clock au (at_ticks s)) (at_nonces s) = (ns, known)"
    by (cases "seen (pa_nonce ?p) (au_clock au (at_ticks s)) (at_nonces s)")
  obtain ns' fresh where cn: "consume (pa_nonce ?p) (au_clock au (Suc (at_ticks s))) ns = (ns', fresh)"
    by (cases "consume (pa_nonce ?p) (au_clock au (Suc (at_ticks s))) ns")
  consider "s' = spend_tick s\<lparr>at_nonces := ns\<rparr>" | "s' = spend_tick (spend_tick s\<lparr>at_nonces := ns\<rparr>)\<lparr>at_nonces := ns'\<rparr>"
    using assms(1) sn cn by (auto simp: claim_def Let_def split: sum.splits bool.splits if_splits)
  then show ?thesis
  proof cases
    case 1
    with assms(3) have "\<not> stale_nonce (ns_ttl_s (at_nonces s)) (utc_instant (au_clock au (at_ticks s))) c" by simp
    from remembers_seen [OF assms(2) this sn] seen_state(2) [OF sn] 1 show ?thesis by simp
  next
    case 2
    with assms(3) have fresh1: "\<not> stale_nonce (ns_ttl_s (at_nonces s)) (utc_instant (au_clock au (at_ticks s))) c"
      and fresh2: "\<not> stale_nonce (ns_ttl_s (at_nonces s)) (utc_instant (au_clock au (Suc (at_ticks s)))) c"
      by simp_all
    note one = remembers_seen [OF assms(2) fresh1 sn]
    have "\<not> stale_nonce (ns_ttl_s ns) (utc_instant (au_clock au (Suc (at_ticks s)))) c"
      using fresh2 seen_state(2) [OF sn] by simp
    from remembers_consume [OF one this cn] consume_loaded(3) [OF seen_state(1) [OF sn] cn]
      seen_state(2) [OF sn] 2 show ?thesis by simp
  qed
qed

lemma authenticate_remembers:
  assumes "authenticate au q s = (s', r)" "remembers n c (at_nonces s)"
    "\<forall>i < at_ticks s'. \<not> stale_nonce (ns_ttl_s (at_nonces s)) (utc_instant (au_clock au i)) c"
  shows "remembers n c (at_nonces s') \<and> ns_ttl_s (at_nonces s') = ns_ttl_s (at_nonces s) \<and> at_ticks s \<le> at_ticks s'"
proof -
  consider "s' = s" | "s' = spend_tick s" | secret role where "claim au q secret role (spend_tick s) = (s', r)"
    using assms(1) by (auto simp: authenticate_def Let_def split: if_splits option.splits)
  then show ?thesis
  proof cases
    case 3
    from claim_remembers [OF this, of n c] assms(2,3) show ?thesis by simp
  qed (use assms in simp_all)
qed

lemma authenticate_ticks: "authenticate au q s = (s', r) \<Longrightarrow> at_ticks s \<le> at_ticks s'"
proof -
  have claim: "claim au q secret role t = (t', r) \<Longrightarrow> at_ticks t \<le> at_ticks t'" for secret role t t'
    by (auto simp: claim_def Let_def split: prod.splits sum.splits bool.splits if_splits)
  assume "authenticate au q s = (s', r)"
  then show ?thesis
    by (auto simp: authenticate_def Let_def split: if_splits option.splits dest!: claim)
qed

section \<open>A restart\<close>

text \<open>
  After a restart the journal is read back with the earliest claim of each nonce. A nonce that was
  used again after its first claim had lapsed is then taken for lapsed, and its last use forgotten.
\<close>

definition nonce_row :: "string \<Rightarrow> datetime \<Rightarrow> json" where
  "nonce_row n t = JObj [(''nonce'', JStr n), (''at'', JStr (isoformat (as_utc t)))]"

lemma restart_forgets_reused_nonce:
  defines "day \<equiv> 740000 * 86400000000"
  shows "(case seen ''n'' \<lparr>wall_us = day + 800000000, utc_off = Some 0\<rparr>
     \<lparr>ns_ttl_s = Fin 600, ns_seen = [], ns_loaded = False,
      ns_file = Some [Some (nonce_row ''n'' \<lparr>wall_us = day, utc_off = Some 0\<rparr>),
                      Some (nonce_row ''n'' \<lparr>wall_us = day + 700000000, utc_off = Some 0\<rparr>)],
      ns_text = (\<lambda>_. [])\<rparr> of
     (_, r) \<Rightarrow> r = Inr False)"
  unfolding day_def by code_simp

lemma claim_survives_restart:
  assumes "consume n now ns = (ns', Inr True)" "ns_file ns = Some f" "stampable (as_utc now)" "n \<noteq> []"
    "load_rows rp (json_rows f) [] = (old, None)" "map_of old n = None"
  shows "remembers n (utc_instant now)
     (fst (load \<lparr>ns_ttl_s = ttl, ns_seen = [], ns_loaded = False, ns_file = ns_file ns', ns_text = rp\<rparr>))"
proof -
  note kept = load_file [of ns]
  have f': "ns_file ns' = Some (append_line [(''nonce'', JStr n), (''at'', JStr (isoformat (as_utc now)))] f)"
    using assms(1,2) kept
    by (auto simp: consume_def Let_def purge_def split: prod.splits option.splits if_splits)
  have "parse_iso (isoformat (as_utc now)) = Some (as_utc now)"
    using parse_isoformat_us(2) [OF assms(3)] strip_isoformat(2) [OF assms(3)] by (simp add: parse_iso_def)
  moreover have "utc_instant (as_utc now) = utc_instant now" by (simp add: as_utc_def utc_instant_def)
  ultimately have row: "load_row rp (JObj [(''nonce'', JStr n), (''at'', JStr (isoformat (as_utc now)))]) old
      = Inr (AList.update n (utc_instant now) old)"
    using assms(4,6) by (simp add: load_row_def jget_def)
  have "load_rows rp (xs @ [r]) seen = (case load_rows rp xs seen of (s, Some e) \<Rightarrow> (s, Some e) | (s, None) \<Rightarrow> load_rows rp [r] s)"
    for xs r seen
    by (induction xs arbitrary: seen) (auto split: sum.split)
  then have "load_rows rp (json_rows f @ [JObj [(''nonce'', JStr n), (''at'', JStr (isoformat (as_utc now)))]]) []
      = (AList.update n (utc_instant now) old, None)"
    using assms(5) row by simp
  then show ?thesis by (simp add: f' load_def remembers_def update_conv')
qed

section \<open>The canonical string\<close>

lemma split_newline: "newline \<notin> set a \<Longrightarrow> newline \<notin> set b \<Longrightarrow> a @ newline # x = b @ newline # y \<Longrightarrow> a = b \<and> x = y"
  by (induction a arbitrary: b; case_tac b) auto

lemma canonical_string_injective:
  assumes "canonical_string sha p = canonical_string sha q"
    "\<forall>x \<in> {p, q}. \<forall>f \<in> {pa_method, pa_path, pa_timestamp, pa_nonce}. newline \<notin> set (f x)"
    "\<forall>b. newline \<notin> set (sha b)"
  shows "pa_method p = pa_method q \<and> pa_path p = pa_path q \<and> sha (pa_body p) = sha (pa_body q)
    \<and> pa_timestamp p = pa_timestamp q \<and> pa_nonce p = pa_nonce q \<and> pa_key_id p = pa_key_id q"
proof -
  have clean: "newline \<notin> set (pa_method x)" "newline \<notin> set (pa_path x)" "newline \<notin> set (pa_timestamp x)"
    "newline \<notin> set (pa_nonce x)" "newline \<notin> set (sha (pa_body x))" if "x \<in> {p, q}" for x
    using assms(2,3) that by auto
  note eq = assms(1) [unfolded canonical_string_def]
  from split_newline [OF clean(1) clean(1) eq] have m: "pa_method p = pa_method q"
    and eq: "pa_path p @ newline # sha (pa_body p) @ newline # pa_timestamp p @ newline # pa_nonce p @ newline # pa_key_id p
      = pa_path q @ newline # sha (pa_body q) @ newline # pa_timestamp q @ newline # pa_nonce q @ newline # pa_key_id q"
    by simp_all
  from split_newline [OF clean(2) clean(2) eq] have pt: "pa_path p = pa_path q"
    and eq: "sha (pa_body p) @ newline # pa_timestamp p @ newline # pa_nonce p @ newline # pa_key_id p
      = sha (pa_body q) @ newline # pa_timestamp q @ newline # pa_nonce q @ newline # pa_key_id q" by simp_all
  from split_newline [OF clean(5) clean(5) eq] have b: "sha (pa_body p) = sha (pa_body q)"
    and eq: "pa_timestamp p @ newline # pa_nonce p @ newline # pa_key_id p
      = pa_timestamp q @ newline # pa_nonce q @ newline # pa_key_id q" by simp_all
  from split_newline [OF clean(3) clean(3) eq] have ts: "pa_timestamp p = pa_timestamp q"
    and eq: "pa_nonce p @ newline # pa_key_id p = pa_nonce q @ newline # pa_key_id q" by simp_all
  from split_newline [OF clean(4) clean(4) eq] show ?thesis using m pt b ts by simp
qed

end
