(* ===== verification/Requests.thy ===== *)
theory Requests
  imports Signing
begin

text \<open>
  The server of \<open>signald/api/server.py\<close> is a \<open>ThreadingHTTPServer\<close>: requests are in flight at once over
  one nonce store. Here a request is a thread that takes two steps: \<open>arrive_request\<close>, from its headers to its
  signature, and \<open>finish_request\<close>, the consumption of its nonce and the check of its role; \<open>authenticate\<close> is one
  after the other. Any interleaving of the steps of any threads accepts no request twice. A step is taken
  without interruption: \<open>consume_race\<close> shows what two consumptions do that are not, as the store holds
  no lock.
\<close>

section \<open>The two steps of a request\<close>

definition arrive_request :: "authenticator \<Rightarrow> request \<Rightarrow> auth_state \<Rightarrow> auth_state \<times> (auth_result res + string)" where
  \<comment> \<open>up to the signature: an answer, or the role that goes on\<close>
  "arrive_request au q s =
     (let p = request_parts q; signature = header (rq_headers q) ''X-Signature'' in
      if pa_key_id p = [] \<or> pa_timestamp p = [] \<or> pa_nonce p = [] \<or> signature = []
        then (s, Inl (Inr (refuse None ''missing_header'')))
      else (case map_of (au_keys au) (pa_key_id p) of
          None \<Rightarrow> (s, Inl (Inr (refuse None ''unknown_key'')))
        | Some secret \<Rightarrow>
            (case map_of (au_roles au) (pa_key_id p) of
               None \<Rightarrow> (s, Inl (Inr (refuse None ''forbidden'')))
             | Some role \<Rightarrow>
                 if role \<notin> set ROLES then (s, Inl (Inr (refuse None ''forbidden'')))
                 else (case parse_iso (pa_timestamp p) of
                     None \<Rightarrow> (s, Inl (Inr (refuse None ''stale_timestamp'')))
                   | Some t \<Rightarrow>
                       if \<not> in_window (au_window_s au) (au_clock au (at_ticks s)) t
                         then (spend_tick s, Inl (Inr (refuse None ''stale_timestamp'')))
                       else (let s1 = spend_tick s;
                                 (ns, known) = seen (pa_nonce p) (au_clock au (at_ticks s1)) (at_nonces s1);
                                 s2 = spend_tick s1\<lparr>at_nonces := ns\<rparr> in
                         case known of
                           Inl e \<Rightarrow> (s2, Inl (Inl e))
                         | Inr True \<Rightarrow> (s2, Inl (Inr (refuse None ''replayed_nonce'')))
                         | Inr False \<Rightarrow>
                             if \<not> verify_signature (au_sha au) (au_hmac au) secret signature p
                               then (s2, Inl (Inr (refuse None ''bad_signature'')))
                             else (s2, Inr role))))))"

definition finish_request :: "authenticator \<Rightarrow> request \<Rightarrow> string \<Rightarrow> auth_state \<Rightarrow> auth_state \<times> auth_result res" where
  "finish_request au q role s =
     (let (ns, fresh) = consume (pa_nonce (request_parts q)) (au_clock au (at_ticks s)) (at_nonces s);
          s1 = spend_tick s\<lparr>at_nonces := ns\<rparr> in
      case fresh of
        Inl e \<Rightarrow> (s1, Inl e)
      | Inr False \<Rightarrow> (s1, Inr (refuse None ''replayed_nonce''))
      | Inr True \<Rightarrow> (s1, Inr (case rq_required_role q of
            Some required \<Rightarrow> if \<not> role_allows role required then refuse (Some role) ''forbidden''
                             else \<lparr>ar_ok = True, ar_role = Some role, ar_reason = ''ok''\<rparr>
          | None \<Rightarrow> \<lparr>ar_ok = True, ar_role = Some role, ar_reason = ''ok''\<rparr>)))"

lemma authenticate_steps:
  "authenticate au q s = (case arrive_request au q s of (s1, Inl r) \<Rightarrow> (s1, r) | (s1, Inr role) \<Rightarrow> finish_request au q role s1)"
  by (simp add: authenticate_def arrive_request_def claim_def finish_request_def Let_def split: option.split sum.split bool.split prod.split)

section \<open>Requests in flight\<close>

datatype stage = Arriving | Checked string nat | Answered "auth_result res" nat nat
  \<comment> \<open>the readings of the clock at which the window and the nonce were checked\<close>

record flight =
  fl_state :: auth_state
  fl_stage :: "nat \<Rightarrow> stage"

definition advance_request :: "authenticator \<Rightarrow> (nat \<Rightarrow> request) \<Rightarrow> flight \<Rightarrow> nat \<Rightarrow> flight" where
  "advance_request au rq f i =
     (let s = fl_state f in
      case fl_stage f i of
        Arriving \<Rightarrow>
          (case arrive_request au (rq i) s of
             (s1, Inl r) \<Rightarrow> \<lparr>fl_state = s1, fl_stage = (fl_stage f)(i := Answered r (at_ticks s) (at_ticks s))\<rparr>
           | (s1, Inr role) \<Rightarrow> \<lparr>fl_state = s1, fl_stage = (fl_stage f)(i := Checked role (at_ticks s))\<rparr>)
      | Checked role t0 \<Rightarrow>
          (case finish_request au (rq i) role s of
             (s1, r) \<Rightarrow> \<lparr>fl_state = s1, fl_stage = (fl_stage f)(i := Answered r t0 (at_ticks s))\<rparr>)
      | Answered _ _ _ \<Rightarrow> f)"

definition serve_requests :: "authenticator \<Rightarrow> (nat \<Rightarrow> request) \<Rightarrow> auth_state \<Rightarrow> nat list \<Rightarrow> flight" where
  \<comment> \<open>from all requests arriving, the threads in the order in which they take their steps\<close>
  "serve_requests au rq s schedule = foldl (advance_request au rq) \<lparr>fl_state = s, fl_stage = (\<lambda>_. Arriving)\<rparr> schedule"

definition accepted_at :: "flight \<Rightarrow> nat \<Rightarrow> nat \<Rightarrow> nat \<Rightarrow> bool" where
  \<comment> \<open>a request that was accepted, and when its window and its nonce were checked\<close>
  "accepted_at f i t0 t1 \<longleftrightarrow> (\<exists>r. fl_stage f i = Answered (Inr r) t0 t1 \<and> ar_ok r)"


section \<open>What a step does to the store\<close>

definition checked :: "authenticator \<Rightarrow> request \<Rightarrow> nat \<Rightarrow> bool" where
  "checked au q t0 \<longleftrightarrow>
     (\<exists>t. parse_iso (pa_timestamp (request_parts q)) = Some t \<and> in_window (au_window_s au) (au_clock au t0) t)"

abbreviation lapsed :: "authenticator \<Rightarrow> pyfloat \<Rightarrow> nat \<Rightarrow> nat \<Rightarrow> bool" where
  "lapsed au ttl later earlier \<equiv> stale_nonce ttl (utc_instant (au_clock au later)) (utc_instant (au_clock au earlier))"

lemma arrive_step:
  assumes "arrive_request au q s = (s1, out)"
  shows "at_ticks s \<le> at_ticks s1" "ns_ttl_s (at_nonces s1) = ns_ttl_s (at_nonces s)"
    "ns_loaded (at_nonces s) \<Longrightarrow> ns_loaded (at_nonces s1)"
    "remembers n c (at_nonces s) \<Longrightarrow> remembers n c (at_nonces s1)
       \<or> (\<exists>k < at_ticks s1. stale_nonce (ns_ttl_s (at_nonces s)) (utc_instant (au_clock au k)) c)"
    "out = Inr role \<Longrightarrow> checked au q (at_ticks s) \<and> at_ticks s < at_ticks s1 \<and> ns_loaded (at_nonces s1)"
    "out = Inl (Inr r) \<Longrightarrow> \<not> ar_ok r"
proof -
  obtain ns known where sn: "seen (pa_nonce (request_parts q)) (au_clock au (Suc (at_ticks s))) (at_nonces s) = (ns, known)"
    by (cases "seen (pa_nonce (request_parts q)) (au_clock au (Suc (at_ticks s))) (at_nonces s)")
  have cases: "s1 = s \<or> s1 = spend_tick s \<or> s1 = spend_tick (spend_tick s)\<lparr>at_nonces := ns\<rparr>"
    using assms sn by (auto simp: arrive_request_def Let_def split: if_splits option.splits sum.splits bool.splits)
  then show "at_ticks s \<le> at_ticks s1" "ns_ttl_s (at_nonces s1) = ns_ttl_s (at_nonces s)"
    "ns_loaded (at_nonces s) \<Longrightarrow> ns_loaded (at_nonces s1)"
    using seen_state(1,2) [OF sn] by auto
  show "remembers n c (at_nonces s1)
       \<or> (\<exists>k < at_ticks s1. stale_nonce (ns_ttl_s (at_nonces s)) (utc_instant (au_clock au k)) c)"
    if m: "remembers n c (at_nonces s)"
  proof (cases "s1 = spend_tick (spend_tick s)\<lparr>at_nonces := ns\<rparr>")
    case True
    then show ?thesis using remembers_seen [OF m _ sn] by (auto intro!: exI [of _ "Suc (at_ticks s)"])
  next
    case False
    then show ?thesis using cases m by auto
  qed
  show "checked au q (at_ticks s) \<and> at_ticks s < at_ticks s1 \<and> ns_loaded (at_nonces s1)" if "out = Inr role"
    using assms sn that seen_state(1) [OF sn]
    by (auto simp: arrive_request_def checked_def Let_def split: if_splits option.splits sum.splits bool.splits)
  show "\<not> ar_ok r" if "out = Inl (Inr r)"
    using assms sn that
    by (auto simp: arrive_request_def refuse_def Let_def split: if_splits option.splits sum.splits bool.splits)
qed

lemma finish_step:
  assumes "finish_request au q role s = (s1, r)" "ns_loaded (at_nonces s)"
  shows "at_ticks s1 = Suc (at_ticks s)" "ns_ttl_s (at_nonces s1) = ns_ttl_s (at_nonces s)" "ns_loaded (at_nonces s1)"
    "remembers n c (at_nonces s) \<Longrightarrow> remembers n c (at_nonces s1)
       \<or> stale_nonce (ns_ttl_s (at_nonces s)) (utc_instant (au_clock au (at_ticks s))) c"
    "r = Inr a \<Longrightarrow> ar_ok a \<Longrightarrow>
       remembers (pa_nonce (request_parts q)) (utc_instant (au_clock au (at_ticks s))) (at_nonces s1)
       \<and> (remembers (pa_nonce (request_parts q)) c (at_nonces s)
          \<longrightarrow> stale_nonce (ns_ttl_s (at_nonces s)) (utc_instant (au_clock au (at_ticks s))) c)"
proof -
  obtain ns fresh where cn: "consume (pa_nonce (request_parts q)) (au_clock au (at_ticks s)) (at_nonces s) = (ns, fresh)"
    by (cases "consume (pa_nonce (request_parts q)) (au_clock au (at_ticks s)) (at_nonces s)")
  note con = consume_loaded [OF assms(2) cn]
  have s1: "s1 = spend_tick s\<lparr>at_nonces := ns\<rparr>"
    using assms(1) cn by (auto simp: finish_request_def Let_def split: sum.splits bool.splits)
  show "at_ticks s1 = Suc (at_ticks s)" "ns_ttl_s (at_nonces s1) = ns_ttl_s (at_nonces s)" "ns_loaded (at_nonces s1)"
    using s1 con(2,3) by simp_all
  show "remembers n c (at_nonces s1) \<or> stale_nonce (ns_ttl_s (at_nonces s)) (utc_instant (au_clock au (at_ticks s))) c"
    if "remembers n c (at_nonces s)"
    using remembers_consume [OF that _ cn] s1 by auto
  assume a: "r = Inr a" "ar_ok a"
  then have fresh: "fresh = Inr True"
    using assms(1) cn by (auto simp: finish_request_def refuse_def Let_def split: sum.splits bool.splits)
  have "stale_nonce (ns_ttl_s (at_nonces s)) (utc_instant (au_clock au (at_ticks s))) c"
    if m: "remembers (pa_nonce (request_parts q)) c (at_nonces s)"
  proof (rule ccontr)
    assume "\<not> stale_nonce (ns_ttl_s (at_nonces s)) (utc_instant (au_clock au (at_ticks s))) c"
    from remembers_knows [OF remembers_purge [OF m this]] cn fresh show False
      using assms(2) by (simp add: consume_def load_loaded(3) Let_def)
  qed
  then show "remembers (pa_nonce (request_parts q)) (utc_instant (au_clock au (at_ticks s))) (at_nonces s1)
       \<and> (remembers (pa_nonce (request_parts q)) c (at_nonces s)
          \<longrightarrow> stale_nonce (ns_ttl_s (at_nonces s)) (utc_instant (au_clock au (at_ticks s))) c)"
    using con(2,4) fresh s1 by (simp add: remembers_def)
qed

section \<open>The invariant\<close>

definition forward :: "authenticator \<Rightarrow> bool" where
  "forward au \<longleftrightarrow> (\<forall>i j. i \<le> j \<longrightarrow> utc_instant (au_clock au i) \<le> utc_instant (au_clock au j))"

lemma lapsed_later: "forward au \<Longrightarrow> lapsed au ttl k c \<Longrightarrow> k \<le> l \<Longrightarrow> lapsed au ttl l c"
  unfolding forward_def stale_nonce_def total_seconds_def
  by (cases ttl) (auto simp: field_simps, meson diff_right_mono of_int_le_iff order_trans)

definition request_nonce :: "request \<Rightarrow> string" where
  "request_nonce q = pa_nonce (request_parts q)"

definition claims_kept :: "authenticator \<Rightarrow> (nat \<Rightarrow> request) \<Rightarrow> pyfloat \<Rightarrow> flight \<Rightarrow> bool" where
  "claims_kept au rq ttl f \<longleftrightarrow>
     ns_ttl_s (at_nonces (fl_state f)) = ttl
     \<and> (\<forall>i role t0. fl_stage f i = Checked role t0 \<longrightarrow>
          checked au (rq i) t0 \<and> t0 < at_ticks (fl_state f) \<and> ns_loaded (at_nonces (fl_state f)))
     \<and> (\<forall>i t0 t1. accepted_at f i t0 t1 \<longrightarrow>
          checked au (rq i) t0 \<and> t0 \<le> t1 \<and> t1 < at_ticks (fl_state f)
          \<and> (remembers (request_nonce (rq i)) (utc_instant (au_clock au t1)) (at_nonces (fl_state f))
             \<or> (\<exists>k < at_ticks (fl_state f). lapsed au ttl k t1)))
     \<and> (\<forall>i j t0 t1 u0 u1. i \<noteq> j \<longrightarrow> accepted_at f i t0 t1 \<longrightarrow> accepted_at f j u0 u1
          \<longrightarrow> request_nonce (rq i) = request_nonce (rq j) \<longrightarrow> t1 \<le> u1 \<longrightarrow> lapsed au ttl u1 t1)"

lemma accepted_at_upd:
  "accepted_at \<lparr>fl_state = s, fl_stage = (fl_stage f)(i := x)\<rparr> j t0 t1 \<longleftrightarrow>
     (if j = i then \<exists>r. x = Answered (Inr r) t0 t1 \<and> ar_ok r else accepted_at f j t0 t1)"
  by (simp add: accepted_at_def)

lemma claims_kept_start: "claims_kept au rq (ns_ttl_s (at_nonces s)) \<lparr>fl_state = s, fl_stage = (\<lambda>_. Arriving)\<rparr>"
  by (simp add: claims_kept_def accepted_at_def)

lemma arrive_kept:
  assumes au: "forward au" and kept: "claims_kept au rq ttl f" and start: "fl_stage f i = Arriving"
    and step: "arrive_request au (rq i) (fl_state f) = (s1, out)"
    and x: "case out of Inl r \<Rightarrow> x = Answered r (at_ticks (fl_state f)) (at_ticks (fl_state f))
            | Inr role \<Rightarrow> x = Checked role (at_ticks (fl_state f))"
  shows "claims_kept au rq ttl \<lparr>fl_state = s1, fl_stage = (fl_stage f)(i := x)\<rparr>"
proof -
  let ?g = "\<lparr>fl_state = s1, fl_stage = (fl_stage f)(i := x)\<rparr>"
  note arr = arrive_step [OF step]
  have same: "accepted_at ?g j t0 t1 = accepted_at f j t0 t1" for j t0 t1
    using x arr(6) start by (auto simp: accepted_at_upd accepted_at_def split: sum.splits)
  have kept': "remembers n c (at_nonces s1)
      \<or> (\<exists>k < at_ticks s1. stale_nonce ttl (utc_instant (au_clock au k)) c)"
    if "remembers n c (at_nonces (fl_state f))" for n c
    using arr(4) [OF that] kept by (simp add: claims_kept_def)
  have stages: "fl_stage ?g j = Checked role t0 \<Longrightarrow> (j \<noteq> i \<and> fl_stage f j = Checked role t0)
      \<or> (j = i \<and> out = Inr role \<and> t0 = at_ticks (fl_state f))" for j role t0
    using x by (auto split: if_splits sum.splits)
  show ?thesis
    unfolding claims_kept_def same flight.select_convs(1)
  proof (intro conjI allI impI)
    show "ns_ttl_s (at_nonces s1) = ttl" using arr(2) kept by (simp add: claims_kept_def)
  next
    fix j role t0 assume "fl_stage ?g j = Checked role t0"
    from stages [OF this] show "checked au (rq j) t0" "t0 < at_ticks s1" "ns_loaded (at_nonces s1)"
      using kept arr(1,3,5) by (fastforce simp: claims_kept_def)+
  next
    fix j t0 t1 assume a: "accepted_at f j t0 t1"
    with kept show "checked au (rq j) t0" "t0 \<le> t1" by (auto simp: claims_kept_def)
    from a kept arr(1) show "t1 < at_ticks s1" by (fastforce simp: claims_kept_def)
    from a kept have "remembers (request_nonce (rq j)) (utc_instant (au_clock au t1)) (at_nonces (fl_state f))
       \<or> (\<exists>k < at_ticks (fl_state f). lapsed au ttl k t1)" by (auto simp: claims_kept_def)
    with kept' arr(1) show "remembers (request_nonce (rq j)) (utc_instant (au_clock au t1)) (at_nonces s1)
       \<or> (\<exists>k < at_ticks s1. lapsed au ttl k t1)" by (meson less_le_trans)
  next
    fix j l t0 t1 u0 u1
    assume "j \<noteq> l" "accepted_at f j t0 t1" "accepted_at f l u0 u1" "request_nonce (rq j) = request_nonce (rq l)" "t1 \<le> u1"
    with kept show "lapsed au ttl u1 t1" unfolding claims_kept_def by blast
  qed
qed

lemma finish_kept:
  assumes au: "forward au" and kept: "claims_kept au rq ttl f" and start: "fl_stage f i = Checked role t"
    and step: "finish_request au (rq i) role (fl_state f) = (s1, r)"
  shows "claims_kept au rq ttl \<lparr>fl_state = s1, fl_stage = (fl_stage f)(i := Answered r t (at_ticks (fl_state f)))\<rparr>"
proof -
  let ?now = "at_ticks (fl_state f)"
  let ?g = "\<lparr>fl_state = s1, fl_stage = (fl_stage f)(i := Answered r t ?now)\<rparr>"
  from kept start have ti: "checked au (rq i) t" "t < ?now" and loaded: "ns_loaded (at_nonces (fl_state f))"
    and ttl: "ns_ttl_s (at_nonces (fl_state f)) = ttl" by (auto simp: claims_kept_def)
  note fin = finish_step [OF step loaded, unfolded ttl]
  have before: "remembers (request_nonce (rq j)) (utc_instant (au_clock au t1)) (at_nonces (fl_state f))
       \<or> (\<exists>k < ?now. lapsed au ttl k t1)" "t1 < ?now" if "accepted_at f j t0 t1" for j t0 t1
    using that kept by (auto simp: claims_kept_def)
  have acc: "accepted_at ?g j t0 t1 \<Longrightarrow> (j \<noteq> i \<and> accepted_at f j t0 t1)
      \<or> (j = i \<and> t0 = t \<and> t1 = ?now \<and> (\<exists>a. r = Inr a \<and> ar_ok a))" for j t0 t1
    by (auto simp: accepted_at_upd split: if_splits)
  have fresh: "lapsed au ttl ?now t1"
    if "\<exists>a. r = Inr a \<and> ar_ok a" "accepted_at f j t0 t1" "request_nonce (rq j) = request_nonce (rq i)" for j t0 t1
    using before [OF that(2)] that(1,3) fin(5) lapsed_later [OF au] by (auto simp: request_nonce_def)
  show ?thesis
    unfolding claims_kept_def flight.select_convs(1)
  proof (intro conjI allI impI)
    show "ns_ttl_s (at_nonces s1) = ttl" by (rule fin(2))
  next
    fix j role' t0 assume "fl_stage ?g j = Checked role' t0"
    then show "checked au (rq j) t0" "t0 < at_ticks s1" "ns_loaded (at_nonces s1)"
      using kept fin(1,3) by (auto simp: claims_kept_def less_SucI split: if_splits)
  next
    fix j t0 t1 assume a: "accepted_at ?g j t0 t1"
    from acc [OF a] kept ti fin(1) show "checked au (rq j) t0" "t0 \<le> t1" "t1 < at_ticks s1"
      by (auto simp: claims_kept_def less_SucI)
    from acc [OF a] show "remembers (request_nonce (rq j)) (utc_instant (au_clock au t1)) (at_nonces s1)
       \<or> (\<exists>k < at_ticks s1. lapsed au ttl k t1)"
    proof (elim disjE conjE)
      assume "accepted_at f j t0 t1"
      from before(1) [OF this] show ?thesis
      proof (elim disjE exE conjE)
        assume "remembers (request_nonce (rq j)) (utc_instant (au_clock au t1)) (at_nonces (fl_state f))"
        from fin(4) [OF this] fin(1) show ?thesis by auto
      next
        fix k assume "k < ?now" "lapsed au ttl k t1"
        with fin(1) show ?thesis by (auto intro: exI [of _ k])
      qed
    next
      assume "j = i" "t1 = ?now" "\<exists>a. r = Inr a \<and> ar_ok a"
      with fin(5) show ?thesis by (auto simp: request_nonce_def)
    qed
  next
    fix j l t0 t1 u0 u1
    assume p: "j \<noteq> l" "accepted_at ?g j t0 t1" "accepted_at ?g l u0 u1" "request_nonce (rq j) = request_nonce (rq l)" "t1 \<le> u1"
    from acc [OF p(2)] acc [OF p(3)] show "lapsed au ttl u1 t1"
    proof (elim disjE conjE)
      assume "accepted_at f j t0 t1" "accepted_at f l u0 u1"
      with p kept show ?thesis unfolding claims_kept_def by blast
    next
      assume "accepted_at f j t0 t1" "l = i" "u1 = ?now" "\<exists>a. r = Inr a \<and> ar_ok a"
      with fresh p(4) show ?thesis by auto
    next
      assume "t1 = ?now" "accepted_at f l u0 u1"
      with before(2) p(5) show ?thesis by fastforce
    qed (use p(1) in auto)
  qed
qed

lemma advance_kept:
  assumes "forward au" "claims_kept au rq ttl f"
  shows "claims_kept au rq ttl (advance_request au rq f i)"
proof (cases "fl_stage f i")
  case Arriving
  obtain s1 out where "arrive_request au (rq i) (fl_state f) = (s1, out)" by (cases "arrive_request au (rq i) (fl_state f)")
  then show ?thesis using arrive_kept [OF assms Arriving] Arriving
    by (cases out) (simp_all add: advance_request_def Let_def)
next
  case (Checked role t)
  obtain s1 r where "finish_request au (rq i) role (fl_state f) = (s1, r)" by (cases "finish_request au (rq i) role (fl_state f)")
  then show ?thesis using finish_kept [OF assms Checked] Checked by (simp add: advance_request_def Let_def)
next
  case Answered
  then show ?thesis using assms(2) by (simp add: advance_request_def)
qed

lemma serve_kept:
  assumes "forward au"
  shows "claims_kept au rq (ns_ttl_s (at_nonces s)) (serve_requests au rq s schedule)"
proof -
  have "claims_kept au rq ttl f \<Longrightarrow> claims_kept au rq ttl (foldl (advance_request au rq) f schedule)" for ttl f
    by (induction schedule arbitrary: f) (simp_all add: advance_kept [OF assms])
  then show ?thesis by (simp add: serve_requests_def claims_kept_start)
qed

section \<open>The times of two acceptances\<close>

lemma window_spread:
  assumes "in_window (Fin w) (au_clock au k) t" "in_window (Fin w) (au_clock au l) t"
  shows "real_of_int (utc_instant (au_clock au l) - utc_instant (au_clock au k)) \<le> 1000000 * w"
  using assms by (auto simp: in_window_def total_seconds_def abs_if field_simps split: if_splits)

lemma two_acceptances:
  assumes "forward au" "accepted_at f i t0 t1" "accepted_at f j u0 u1" "i \<noteq> j" "t1 \<le> u1"
    "f = serve_requests au rq s schedule" "ns_ttl_s (at_nonces s) = Fin ttl" "au_window_s au = Fin w"
    "request_nonce (rq i) = request_nonce (rq j)"
    "pa_timestamp (request_parts (rq i)) = pa_timestamp (request_parts (rq j))"
  shows "1000000 * (ttl - w) \<le> real_of_int (utc_instant (au_clock au u1) - utc_instant (au_clock au u0))"
proof -
  note kept = serve_kept [OF assms(1), of rq s schedule, unfolded assms(7), folded assms(6)]
  with assms(2,3) have c: "checked au (rq i) t0" "checked au (rq j) u0" "t0 \<le> t1" by (auto simp: claims_kept_def)
  from kept assms(2-5,9) have "lapsed au (Fin ttl) u1 t1" unfolding claims_kept_def by blast
  then have "1000000 * ttl \<le> real_of_int (utc_instant (au_clock au u1) - utc_instant (au_clock au t1))"
    by (simp add: stale_nonce_def total_seconds_def field_simps)
  moreover from c assms(8,10) have "real_of_int (utc_instant (au_clock au u0) - utc_instant (au_clock au t0)) \<le> 1000000 * w"
    unfolding checked_def by (metis option.inject window_spread)
  moreover from assms(1) c(3) have "utc_instant (au_clock au t0) \<le> utc_instant (au_clock au t1)" by (simp add: forward_def)
  ultimately show ?thesis by (simp add: algebra_simps)
qed

section \<open>Inside a consumption\<close>

text \<open>
  \<open>consume\<close> tests for the nonce and then writes it, without a lock. Two requests that both test before
  either writes are both told that the nonce is new.
\<close>

definition write_nonce :: "string \<Rightarrow> datetime \<Rightarrow> nonce_store \<Rightarrow> nonce_store" where
  "write_nonce n now ns =
     ns\<lparr>ns_seen := AList.update n (utc_instant now) (ns_seen ns),
        ns_file := map_option (append_line [(''nonce'', JStr n), (''at'', JStr (isoformat (as_utc now)))]) (ns_file ns)\<rparr>"

lemma consume_two_steps:
  "consume n now ns = (case seen n now ns of
      (ns', Inl e) \<Rightarrow> (ns', Inl e)
    | (ns', Inr True) \<Rightarrow> (ns', Inr False)
    | (ns', Inr False) \<Rightarrow> (write_nonce n now ns', Inr True))"
  by (simp add: consume_def seen_def write_nonce_def Let_def split: prod.split option.split bool.split)

lemma consume_race:
  assumes "seen n now ns = (ns', Inr False)"
  shows "snd (seen n later ns') = Inr False"
    "snd (seen n later (write_nonce n now ns')) = Inr (\<not> stale_nonce (ns_ttl_s ns) (utc_instant later) (utc_instant now))"
proof -
  note st = seen_state [OF assms]
  have unknown: "n \<notin> fst ` set (ns_seen ns')" using st(3) [OF refl] by (metis knows_def)
  then have "\<not> knows n (purge (utc_instant later) ns')" using purge_sub by (auto simp: knows_def)
  then show "snd (seen n later ns') = Inr False" using load_loaded(3) [OF st(1)] by (simp add: seen_def Let_def)
  have fresh: "n \<notin> fst ` set xs \<Longrightarrow> AList.update n c xs = xs @ [(n, c)]" for xs :: "(string \<times> int) list" and c
    by (induction xs) auto
  show "snd (seen n later (write_nonce n now ns')) = Inr (\<not> stale_nonce (ns_ttl_s ns) (utc_instant later) (utc_instant now))"
    using load_loaded(3) [of "write_nonce n now ns'"] st(1,2) unknown
    by (auto simp: seen_def Let_def write_nonce_def knows_def purge_def fresh)
qed

end
