(* ===== verification/Promotion.thy ===== *)
theory Promotion
  imports Json Config
begin

text \<open>
  \<open>signald/promotion.py\<close>: the order-path opt-ins, the promotion checklist and the hard cap. Evidence
  comes as JSON; the requirement and detail texts of the items are left out.
\<close>

definition DSR_MIN :: pyfloat where "DSR_MIN = Fin (95 / 100)"
definition PBO_MAX :: pyfloat where "PBO_MAX = Fin (5 / 100)"
definition MIN_TRADES :: int where "MIN_TRADES = 50"
definition MIN_OOS_MONTHS :: pyfloat where "MIN_OOS_MONTHS = Fin 6"
definition MIN_COST_MODEL_FILLS :: int where "MIN_COST_MODEL_FILLS = 50"
definition MIN_PAPER_SESSIONS :: int where "MIN_PAPER_SESSIONS = 20"

section \<open>Opt-ins\<close>

datatype opt_in_reason = AllowedMode | NoOrderPath | PaperNeedsExecute | LiveNeedsExecute
  | LiveNeedsAcknowledgement | UnknownMode

definition opt_ins :: "string \<Rightarrow> bool \<Rightarrow> bool \<Rightarrow> bool \<times> opt_in_reason" where
  "opt_ins mode execute_flag live_ack =
     (if mode = ''signal'' then (False, NoOrderPath)
      else if mode = ''paper'' then
        (if execute_flag then (True, AllowedMode) else (False, PaperNeedsExecute))
      else if mode = ''live'' then
        (if \<not> execute_flag then (False, LiveNeedsExecute)
         else if \<not> live_ack then (False, LiveNeedsAcknowledgement)
         else (True, AllowedMode))
      else (False, UnknownMode))"

definition opt_ins_enforced :: bool where
  "opt_ins_enforced =
     (let no_flag = fst (opt_ins ''live'' False False); flag_only = fst (opt_ins ''live'' True False);
          both = fst (opt_ins ''live'' True True)
      in no_flag = False \<and> flag_only = False \<and> both = True)"

section \<open>The checklist\<close>

definition num :: "json \<Rightarrow> pyfloat option" where
  \<comment> \<open>\<open>_num\<close>: a finite real\<close>
  "num v = (case v of
      JInt n \<Rightarrow> Some (Fin (of_int n))
    | JFloat x \<Rightarrow> if isfinite x then Some x else None
    | _ \<Rightarrow> None)"

datatype gate_failure = NoEvidence | NoRecord | LowDSR | HighPBO | FewTrades | ShortOOS | NoTrials

definition unless :: "bool \<Rightarrow> 'a \<Rightarrow> 'a list" where
  "unless b x = (if b then [] else [x])"

definition record_failures :: "json \<Rightarrow> gate_failure list" where
  "record_failures v =
     (case v of
        JObj d \<Rightarrow>
          unless (case num (jget d ''dsr'') of None \<Rightarrow> False | Some x \<Rightarrow> \<not> x < DSR_MIN) LowDSR
          @ unless (case num (jget d ''pbo'') of None \<Rightarrow> False | Some x \<Rightarrow> \<not> PBO_MAX < x) HighPBO
          @ unless (case num (jget d ''trades'') of None \<Rightarrow> False | Some x \<Rightarrow> \<not> x < Fin (of_int MIN_TRADES)) FewTrades
          @ unless (case num (jget d ''oos_months'') of None \<Rightarrow> False | Some x \<Rightarrow> \<not> x < MIN_OOS_MONTHS) ShortOOS
          @ unless (case num (jget d ''n'') of None \<Rightarrow> False | Some x \<Rightarrow> \<not> x \<le> 0) NoTrials
      | _ \<Rightarrow> [NoRecord])"

type_synonym validation = "(string \<times> json) list option"

definition validation_failures :: "validation \<Rightarrow> (string \<times> gate_failure) list" where
  "validation_failures validation =
     (case validation of
        None \<Rightarrow> [([], NoEvidence)]
      | Some [] \<Rightarrow> [([], NoEvidence)]
      | Some d \<Rightarrow> concat (map (\<lambda>(setup, v). map (Pair setup) (record_failures v)) (sort_key fst d)))"

definition realised_fills :: "validation \<Rightarrow> int" where
  "realised_fills validation =
     (case validation of
        None \<Rightarrow> 0
      | Some d \<Rightarrow>
          \<lfloor>the_fin (fsum (concat (map (\<lambda>(_, v). case v of
             JObj r \<Rightarrow> (case num (jget r ''trades'') of Some x \<Rightarrow> if 0 < x then [x] else [] | None \<Rightarrow> [])
           | _ \<Rightarrow> []) d)))\<rfloor>)"

record evidence =
  ev_sessions_reconciled :: int
  ev_drills_passed :: "string list"
  ev_required_drills :: "string list"
  ev_paper_sessions_required :: int
  ev_validation :: validation
  ev_kill_switch_tested :: bool
  ev_stale_data_tested :: bool
  ev_daily_loss_tested :: bool
  ev_hard_cap_usd :: json
  ev_approval_threshold_usd :: json
  ev_backups_tested :: bool
  ev_owner_signed_date :: "string option"

definition positive_num :: "json \<Rightarrow> bool" where
  "positive_num v \<longleftrightarrow> (case num v of Some x \<Rightarrow> 0 < x | None \<Rightarrow> False)"

record PromotionReport =
  pr_profile :: string
  pr_items :: "(string \<times> bool) list"
  pr_complete :: bool
  pr_blockers :: "string list"

definition checklist :: "string \<Rightarrow> evidence \<Rightarrow> (string \<times> bool) list" where
  "checklist profile ev =
     (let missing = filter (\<lambda>d. d \<notin> set (ev_drills_passed ev)) (ev_required_drills ev) in
      [(''paper_sessions'', ev_paper_sessions_required ev \<le> ev_sessions_reconciled ev),
       (''drills'', ev_required_drills ev \<noteq> [] \<and> missing = []),
       (''validation_gates'', validation_failures (ev_validation ev) = []),
       (''cost_model'', MIN_COST_MODEL_FILLS \<le> realised_fills (ev_validation ev)),
       (''kill_switch'', ev_kill_switch_tested ev),
       (''daily_loss_flatten'', ev_daily_loss_tested ev),
       (''stale_data_block'', ev_stale_data_tested ev),
       (''ops_readiness'', ev_backups_tested ev),
       (''owner_signoff'', case ev_owner_signed_date ev of None \<Rightarrow> False | Some s \<Rightarrow> strip s \<noteq> [])]
      @ (if profile = ''live'' then
           [(''hard_cap'', positive_num (ev_hard_cap_usd ev)),
            (''approval_thresholds'', positive_num (ev_approval_threshold_usd ev)),
            (''opt_ins'', opt_ins_enforced)]
         else []))"

definition promotion_report :: "string \<Rightarrow> evidence \<Rightarrow> PromotionReport res" where
  "promotion_report profile ev =
     (if profile \<notin> set VALID_MODES then Inl ValueError
      else (let items = checklist profile ev; blockers = map fst (filter (\<lambda>i. \<not> snd i) items) in
        Inr \<lparr>pr_profile = profile, pr_items = items, pr_complete = (blockers = []), pr_blockers = blockers\<rparr>))"

section \<open>The hard cap\<close>

datatype cap_refusal = CapUnusable | NotionalUnusable | CapExceeded

definition hard_cap_violation :: "json \<Rightarrow> json \<Rightarrow> cap_refusal option" where
  "hard_cap_violation notional cap =
     (if cap = JNull then None
      else (case num cap of
          None \<Rightarrow> Some CapUnusable
        | Some c \<Rightarrow>
            if c \<le> 0 then Some CapUnusable
            else (case num notional of
                None \<Rightarrow> Some NotionalUnusable
              | Some n \<Rightarrow> if c < n then Some CapExceeded else None)))"

section \<open>What completes a promotion\<close>

lemma opt_ins_always_enforced: "opt_ins_enforced"
  by (simp add: opt_ins_enforced_def opt_ins_def)

lemma num_fin: "num v = Some x \<Longrightarrow> \<exists>r. x = Fin r"
  by (auto simp: num_def isfinite_iff split: json.splits if_splits)

definition setup_passes :: "json \<Rightarrow> bool" where
  \<comment> \<open>the validation gates of one setup\<close>
  "setup_passes v \<longleftrightarrow> (\<exists>d dsr pbo trades oos n. v = JObj d
     \<and> num (jget d ''dsr'') = Some (Fin dsr) \<and> 95 / 100 \<le> dsr
     \<and> num (jget d ''pbo'') = Some (Fin pbo) \<and> pbo \<le> 5 / 100
     \<and> num (jget d ''trades'') = Some (Fin trades) \<and> 50 \<le> trades
     \<and> num (jget d ''oos_months'') = Some (Fin oos) \<and> 6 \<le> oos
     \<and> num (jget d ''n'') = Some (Fin n) \<and> 0 < n)"

lemma unless_Nil [simp]: "unless b x = [] \<longleftrightarrow> b"
  by (simp add: unless_def)

lemma num_test: "(case num v of None \<Rightarrow> False | Some x \<Rightarrow> P x) \<longleftrightarrow> (\<exists>r. num v = Some (Fin r) \<and> P (Fin r))"
  using num_fin [of v] by (auto split: option.split)

lemma record_failures_Nil: "record_failures v = [] \<longleftrightarrow> setup_passes v"
proof (cases v)
  case (JObj d)
  have "record_failures v = [] \<longleftrightarrow>
      (\<exists>r. num (jget d ''dsr'') = Some (Fin r) \<and> 95 / 100 \<le> r)
      \<and> (\<exists>r. num (jget d ''pbo'') = Some (Fin r) \<and> r \<le> 5 / 100)
      \<and> (\<exists>r. num (jget d ''trades'') = Some (Fin r) \<and> 50 \<le> r)
      \<and> (\<exists>r. num (jget d ''oos_months'') = Some (Fin r) \<and> 6 \<le> r)
      \<and> (\<exists>r. num (jget d ''n'') = Some (Fin r) \<and> 0 < r)"
    by (simp add: record_failures_def JObj num_test DSR_MIN_def PBO_MAX_def MIN_TRADES_def
        MIN_OOS_MONTHS_def zero_pyfloat_def not_less not_le)
  then show ?thesis unfolding setup_passes_def JObj by blast
qed (auto simp: record_failures_def setup_passes_def)

lemma validation_failures_Nil:
  "validation_failures va = [] \<longleftrightarrow> (\<exists>d. va = Some d \<and> d \<noteq> [] \<and> (\<forall>(setup, v) \<in> set d. setup_passes v))"
proof (cases "\<exists>d. va = Some d \<and> d \<noteq> []")
  case True
  then obtain d where d: "va = Some d" "d \<noteq> []" by blast
  then have "validation_failures va
      = concat (map (\<lambda>(setup, v). map (Pair setup) (record_failures v)) (sort_key fst d))"
    using d(2) by (cases d) (simp, simp only: validation_failures_def option.case list.case)
  then have "validation_failures va = [] \<longleftrightarrow> (\<forall>(setup, v) \<in> set (sort_key fst d). record_failures v = [])"
    by auto
  with d show ?thesis by (simp add: record_failures_Nil)
next
  case False
  then show ?thesis by (auto simp: validation_failures_def split: option.split list.split)
qed

lemma report_complete:
  assumes "promotion_report profile ev = Inr rep"
  shows "(pr_complete rep \<longleftrightarrow> (\<forall>i \<in> set (checklist profile ev). snd i))
    \<and> pr_blockers rep = map fst (filter (\<lambda>i. \<not> snd i) (checklist profile ev))
    \<and> pr_items rep = checklist profile ev"
  using assms by (force simp: promotion_report_def Let_def filter_empty_conv split: if_splits)

end
