(* ===== verification/Calendar.thy ===== *)
theory Calendar
  imports Config
begin

text \<open>
  \<open>signald/marketdata/calendar.py\<close> and \<open>signald/marketdata/clock.py\<close>: the code-shipped session
  calendar, the conversion to Eastern time and the clock check. A time zone is what the program uses
  of a \<open>tzinfo\<close>: the aware local time of a UTC instant and the offset of a wall time. The fallback
  zone \<open>US_EASTERN\<close> is modelled; where the host has a time zone database \<open>ET\<close> is another zone. Two
  datetimes that share the zone compare and subtract on the wall clock, as in Python.
\<close>

section \<open>Calendar primitives\<close>

definition date_at :: "int \<Rightarrow> int \<Rightarrow> int \<Rightarrow> date" where
  \<comment> \<open>\<open>date(y, m, d)\<close> of a valid triple\<close>
  "date_at y m d = days_before_year y + days_before_month y m + d"

definition CALENDAR_YEARS :: "int list" where
  "CALENDAR_YEARS = [2026, 2027]"

definition OPEN_ET :: int where "OPEN_ET = (9 * 60 + 30) * 60000000"
definition CLOSE_ET :: int where "CLOSE_ET = 16 * 60 * 60000000"
definition HALF_DAY_CLOSE_ET :: int where "HALF_DAY_CLOSE_ET = 13 * 60 * 60000000"

definition nth_weekday :: "int \<Rightarrow> int \<Rightarrow> int \<Rightarrow> int \<Rightarrow> date" where
  "nth_weekday year month wd n =
     (let first = date_at year month 1; offset = (wd - weekday first) mod 7
      in first + (offset + 7 * (n - 1)))"

definition last_weekday :: "int \<Rightarrow> int \<Rightarrow> int \<Rightarrow> date" where
  "last_weekday year month wd =
     (let next_first = date_at (year + (if month = 12 then 1 else 0)) (month mod 12 + 1) 1;
          final = next_first - 1
      in final - (weekday final - wd) mod 7)"

definition observed :: "date \<Rightarrow> date" where
  "observed day = (if weekday day = 5 then day - 1 else if weekday day = 6 then day + 1 else day)"

definition easter_sunday :: "int \<Rightarrow> date" where
  "easter_sunday year =
     (let a = year mod 19; b = year div 100; c = year mod 100; d = b div 4; e = b mod 4;
          f = (b + 8) div 25; g = (b - f + 1) div 3; h = (19 * a + b - d - g + 15) mod 30;
          i = c div 4; k = c mod 4; ll = (32 + 2 * e + 2 * i - h - k) mod 7;
          m = (a + 11 * h + 22 * ll) div 451
      in date_at year ((h + ll - 7 * m + 114) div 31) ((h + ll - 7 * m + 114) mod 31 + 1))"

definition holiday_dates :: "int \<Rightarrow> date list" where
  "holiday_dates year =
     [observed (date_at year 1 1), nth_weekday year 1 0 3, nth_weekday year 2 0 3,
      easter_sunday year - 2, last_weekday year 5 0, observed (date_at year 6 19),
      observed (date_at year 7 4), nth_weekday year 9 0 1, nth_weekday year 11 3 4,
      observed (date_at year 12 25)]"

definition US_HOLIDAYS :: "date list" where
  "US_HOLIDAYS = holiday_dates 2026 @ holiday_dates 2027"

section \<open>Sessions\<close>

definition half_day_close :: "date \<Rightarrow> int option" where
  "half_day_close day =
     (let (y, m, d) = ymd_of day in
      if 5 \<le> weekday day \<or> day \<in> set US_HOLIDAYS then None
      else if day = nth_weekday y 11 3 4 + 1 then Some HALF_DAY_CLOSE_ET
      else if (m, d) \<in> {(7, 3), (12, 24)} then Some HALF_DAY_CLOSE_ET
      else None)"

record DaySession =
  ds_date :: date
  ds_is_session :: bool
  ds_open_et :: "int option"
  ds_close_et :: "int option"
  ds_is_half_day :: bool
  ds_closed_reason :: "string option"

definition closed_day :: "date \<Rightarrow> string \<Rightarrow> DaySession" where
  "closed_day day reason =
     \<lparr>ds_date = day, ds_is_session = False, ds_open_et = None, ds_close_et = None,
      ds_is_half_day = False, ds_closed_reason = Some reason\<rparr>"

definition session_for :: "date \<Rightarrow> DaySession" where
  "session_for day =
     (if year_of day \<notin> set CALENDAR_YEARS then closed_day day ''calendar_out_of_range''
      else if 5 \<le> weekday day then closed_day day ''weekend''
      else if day \<in> set US_HOLIDAYS then closed_day day ''holiday''
      else (let half = half_day_close day in
        \<lparr>ds_date = day, ds_is_session = True, ds_open_et = Some OPEN_ET,
         ds_close_et = Some (case half of Some t \<Rightarrow> t | None \<Rightarrow> CLOSE_ET),
         ds_is_half_day = (half \<noteq> None), ds_closed_reason = None\<rparr>))"

definition is_session :: "date \<Rightarrow> bool" where
  "is_session day = ds_is_session (session_for day)"

definition MAX_DATE :: date where "MAX_DATE = 3652059"

function trading_loop :: "date \<Rightarrow> date \<Rightarrow> date list \<Rightarrow> date list res" where
  "trading_loop day until days =
     (if until < day then Inr days
      else (let days' = (if is_session day then days @ [day] else days) in
            if day = MAX_DATE then Inl OverflowError else trading_loop (day + 1) until days'))"
  by auto
termination by (relation "measure (\<lambda>(day, until, days). nat (until - day + 1))") auto

declare trading_loop.simps [simp del]

definition trading_days :: "date \<Rightarrow> date \<Rightarrow> date list res" where
  "trading_days start until = (if until < start then Inr [] else trading_loop start until [])"

section \<open>Time zones\<close>

record zone =
  from_utc :: "int \<Rightarrow> datetime" \<comment> \<open>the aware local time of an instant, in microseconds\<close>
  wall_offset :: "int \<Rightarrow> int" \<comment> \<open>the offset of a wall time\<close>

definition hour_us :: int where "hour_us = 3600000000"

definition dst_bounds :: "int \<Rightarrow> int \<times> int" where
  "dst_bounds year =
     (nth_weekday year 3 6 2 * us_per_day + 2 * hour_us,
      nth_weekday year 11 6 1 * us_per_day + 2 * hour_us)"

definition is_dst_local :: "int \<Rightarrow> bool" where
  "is_dst_local wall =
     (let (start, until) = dst_bounds (year_of (wall div us_per_day)) in start \<le> wall \<and> wall < until)"

definition eastern_offset :: "int \<Rightarrow> int" where
  "eastern_offset wall = (if is_dst_local wall then -4 else -5) * hour_us"

definition eastern_fromutc :: "int \<Rightarrow> datetime" where
  "eastern_fromutc utc =
     (let local = utc - 5 * hour_us;
          wall = (if is_dst_local local then utc - 4 * hour_us else local)
      in \<lparr>wall_us = wall, utc_off = Some (eastern_offset wall)\<rparr>)"

definition US_EASTERN :: zone where
  "US_EASTERN = \<lparr>from_utc = eastern_fromutc, wall_offset = eastern_offset\<rparr>"

definition to_et :: "zone \<Rightarrow> datetime \<Rightarrow> datetime" where
  "to_et z stamp = from_utc z (utc_instant stamp)"

definition to_utc :: "zone \<Rightarrow> datetime \<Rightarrow> datetime" where
  "to_utc z t =
     \<lparr>wall_us = wall_us t - (case utc_off t of None \<Rightarrow> wall_offset z (wall_us t) | Some off \<Rightarrow> off),
      utc_off = Some 0\<rparr>"

definition combine :: "zone \<Rightarrow> date \<Rightarrow> int \<Rightarrow> datetime" where
  \<comment> \<open>\<open>datetime.combine(day, time, tzinfo=et.tzinfo)\<close>\<close>
  "combine z day t =
     (let wall = day * us_per_day + t in \<lparr>wall_us = wall, utc_off = Some (wall_offset z wall)\<rparr>)"

definition phase_at :: "datetime \<Rightarrow> string" where
  \<comment> \<open>\<open>session_phase\<close> of a stamp already in Eastern time\<close>
  "phase_at et =
     (let session = session_for (date_of et) in
      case (ds_open_et session, ds_close_et session) of
        (Some opens, Some closes) \<Rightarrow>
          if time_of et < opens then ''pre'' else if time_of et < closes then ''rth'' else ''post''
      | _ \<Rightarrow> ''closed'')"

definition session_phase :: "zone \<Rightarrow> datetime \<Rightarrow> string" where
  "session_phase z stamp = phase_at (to_et z stamp)"

definition close_window :: "zone \<Rightarrow> datetime \<Rightarrow> int \<Rightarrow> bool \<times> int option" where
  "close_window z stamp minutes =
     (if minutes \<le> 0 then (False, None)
      else (let et = to_et z stamp; session = session_for (date_of et) in
        case ds_close_et session of
          None \<Rightarrow> (False, None)
        | Some closes \<Rightarrow>
            (let remaining = wall_us (combine z (ds_date session) closes) - wall_us et in
             if remaining < 0 then (False, None)
             else if minutes * 60 * 1000000 < remaining then (False, None)
             else (True, Some (remaining div 60000000)))))"

section \<open>The clock\<close>

record ClockCheck =
  ck_ok :: bool
  ck_offset_ms :: pyfloat
  ck_limit_ms :: pyfloat
  ck_reason :: string

definition clock_offset_ms :: "datetime \<Rightarrow> datetime \<Rightarrow> pyfloat" where
  "clock_offset_ms host reference =
     Fin (of_int \<bar>utc_instant host - utc_instant reference\<bar> / 1000)"

definition check_clock :: "datetime \<Rightarrow> datetime \<Rightarrow> Config \<Rightarrow> ClockCheck" where
  "check_clock host reference cfg =
     (let offset = clock_offset_ms host reference; limit = cfg_clock_max_offset_ms cfg; ok = offset \<le> limit in
      \<lparr>ck_ok = ok, ck_offset_ms = offset, ck_limit_ms = limit,
       ck_reason = (if ok then [] else ''clock_offset'')\<rparr>)"

fun close_search :: "zone \<Rightarrow> date \<Rightarrow> nat \<Rightarrow> datetime res" where
  "close_search z day 0 = Inl ValueError"
| "close_search z day (Suc n) =
     (case ds_close_et (session_for (day + 1)) of
        Some closes \<Rightarrow> Inr (combine z (day + 1) closes)
      | None \<Rightarrow> close_search z (day + 1) n)"

definition next_close :: "zone \<Rightarrow> datetime \<Rightarrow> datetime res" where
  "next_close z stamp =
     (let et = to_et z stamp; day = date_of et in
      case ds_close_et (session_for day) of
        Some closes \<Rightarrow> if wall_us et < wall_us (combine z day closes) then Inr (combine z day closes)
                        else close_search z day 400
      | None \<Rightarrow> close_search z day 400)"

definition seconds_since_open :: "zone \<Rightarrow> datetime \<Rightarrow> pyfloat option" where
  "seconds_since_open z stamp =
     (let et = to_et z stamp in
      if phase_at et \<noteq> ''rth'' then None
      else map_option (\<lambda>opens. total_seconds (wall_us et - wall_us (combine z (date_of et) opens)))
             (ds_open_et (session_for (date_of et))))"

section \<open>The shipped calendar\<close>

lemma trading_loop_filter:
  "until < MAX_DATE \<Longrightarrow> trading_loop day until days = Inr (days @ filter is_session [day..until])"
proof (induction day until days rule: trading_loop.induct)
  case (1 day until days)
  show ?case
  proof (cases "until < day")
    case True
    then show ?thesis by (simp add: trading_loop.simps)
  next
    case False
    then have "[day..until] = day # [day + 1..until]" by (simp add: upto_rec1)
    with 1 False show ?thesis by (simp add: trading_loop.simps [of day])
  qed
qed

lemma year_of_iff: "year_of d = y \<longleftrightarrow> days_before_year y < d \<and> d \<le> days_before_year (y + 1)"
proof
  assume "days_before_year y < d \<and> d \<le> days_before_year (y + 1)"
  moreover have "days_before_year (year_of d) < d" "d \<le> days_before_year (year_of d + 1)"
    using year_of_correct [of d] by simp_all
  ultimately have "\<not> year_of d + 1 \<le> y" "\<not> y + 1 \<le> year_of d"
    using days_before_year_mono [of "year_of d + 1" y] days_before_year_mono [of "y + 1" "year_of d"] by auto
  then show "year_of d = y" by simp
qed (use year_of_correct [of d] in auto)

lemma calendar_years: "year_of d \<in> set CALENDAR_YEARS \<longleftrightarrow> date_at 2026 1 1 \<le> d \<and> d \<le> date_at 2027 12 31"
proof -
  have "days_before_year 2026 = 739616" "days_before_year 2027 = 739981" "days_before_year 2028 = 740346"
    "date_at 2026 1 1 = 739617" "date_at 2027 12 31 = 740346"
    by code_simp+
  then show ?thesis by (auto simp: CALENDAR_YEARS_def year_of_iff)
qed

lemma holidays: "US_HOLIDAYS =
   [date_at 2026 1 1, date_at 2026 1 19, date_at 2026 2 16, date_at 2026 4 3, date_at 2026 5 25,
    date_at 2026 6 19, date_at 2026 7 3, date_at 2026 9 7, date_at 2026 11 26, date_at 2026 12 25,
    date_at 2027 1 1, date_at 2027 1 18, date_at 2027 2 15, date_at 2027 3 26, date_at 2027 5 31,
    date_at 2027 6 18, date_at 2027 7 5, date_at 2027 9 6, date_at 2027 11 25, date_at 2027 12 24]"
  by code_simp

definition half_days :: "date set" where
  "half_days = {date_at 2026 11 27, date_at 2026 12 24, date_at 2027 11 26}"

lemma ymd_of_date_at: "1 \<le> d \<Longrightarrow> d \<le> MAX_DATE \<Longrightarrow> ymd_of d = (y, m, k) \<Longrightarrow> d = date_at y m k"
  using mk_date_ymd_of(1) [of d y m k]
  by (auto simp: mk_date_def date_at_def MAX_DATE_def split: if_splits)

lemma half_day_iff:
  assumes "is_session d" shows "half_day_close d \<noteq> None \<longleftrightarrow> d \<in> half_days"
proof -
  have yr: "year_of d \<in> set CALENDAR_YEARS" and open_day: "\<not> 5 \<le> weekday d" "d \<notin> set US_HOLIDAYS"
    using assms by (auto simp: is_session_def session_for_def closed_day_def split: if_splits)
  obtain y m k where ymd: "ymd_of d = (y, m, k)" by (cases "ymd_of d")
  have "date_at 2026 1 1 = 739617" "date_at 2027 12 31 = 740346" by code_simp+
  with yr have "1 \<le> d" "d \<le> MAX_DATE" by (auto simp: calendar_years MAX_DATE_def)
  from ymd_of_date_at [OF this ymd] have d: "d = date_at y m k" .
  have y: "y = 2026 \<or> y = 2027" using yr ymd by (auto simp: ymd_of_def Let_def CALENDAR_YEARS_def)
  have late: "nth_weekday 2026 11 3 4 + 1 = date_at 2026 11 27" "nth_weekday 2027 11 3 4 + 1 = date_at 2027 11 26"
    by code_simp+
  have shut: "5 \<le> weekday (date_at 2027 7 3)" "date_at 2026 7 3 \<in> set US_HOLIDAYS" "date_at 2027 12 24 \<in> set US_HOLIDAYS"
    by code_simp+
  have parts: "ymd_of (date_at 2026 12 24) = (2026, 12, 24)" "ymd_of (date_at 2026 11 27) = (2026, 11, 27)"
    "ymd_of (date_at 2027 11 26) = (2027, 11, 26)" by code_simp+
  have "half_day_close d \<noteq> None \<longleftrightarrow> d = nth_weekday y 11 3 4 + 1 \<or> (m, k) \<in> {(7, 3), (12, 24)}"
    using open_day ymd by (simp add: half_day_close_def)
  also have "\<dots> \<longleftrightarrow> d \<in> half_days"
    using y late shut parts open_day d ymd by (auto simp: half_days_def)
  finally show ?thesis .
qed

lemma is_session_iff:
  "is_session d \<longleftrightarrow> date_at 2026 1 1 \<le> d \<and> d \<le> date_at 2027 12 31 \<and> weekday d < 5 \<and> d \<notin> set US_HOLIDAYS"
  using calendar_years [of d] by (auto simp: is_session_def session_for_def closed_day_def Let_def)

lemma half_day_value: "half_day_close d = None \<or> half_day_close d = Some HALF_DAY_CLOSE_ET"
  by (simp add: half_day_close_def split: prod.split)

lemma session_for_open:
  assumes "is_session d"
  shows "ds_open_et (session_for d) = Some OPEN_ET"
    "ds_close_et (session_for d) = Some (if d \<in> half_days then HALF_DAY_CLOSE_ET else CLOSE_ET)"
    "ds_is_half_day (session_for d) \<longleftrightarrow> d \<in> half_days" "ds_date (session_for d) = d"
proof -
  have half: "half_day_close d = (if d \<in> half_days then Some HALF_DAY_CLOSE_ET else None)"
    using half_day_iff [OF assms] half_day_value [of d] by auto
  have "year_of d \<in> set CALENDAR_YEARS" "\<not> 5 \<le> weekday d" "d \<notin> set US_HOLIDAYS"
    using assms unfolding is_session_def session_for_def closed_day_def by (simp_all split: if_splits)
  then have "session_for d = \<lparr>ds_date = d, ds_is_session = True, ds_open_et = Some OPEN_ET,
      ds_close_et = Some (if d \<in> half_days then HALF_DAY_CLOSE_ET else CLOSE_ET),
      ds_is_half_day = (d \<in> half_days), ds_closed_reason = None\<rparr>"
    unfolding session_for_def half Let_def by simp
  then show "ds_open_et (session_for d) = Some OPEN_ET"
    "ds_close_et (session_for d) = Some (if d \<in> half_days then HALF_DAY_CLOSE_ET else CLOSE_ET)"
    "ds_is_half_day (session_for d) \<longleftrightarrow> d \<in> half_days" "ds_date (session_for d) = d"
    by simp_all
qed

lemma session_for_closed:
  "\<not> is_session d \<Longrightarrow> ds_open_et (session_for d) = None \<and> ds_close_et (session_for d) = None"
  by (auto simp: is_session_def session_for_def closed_day_def Let_def split: if_splits)

section \<open>The next close\<close>

definition closing_wall :: "date \<Rightarrow> int" where
  \<comment> \<open>the wall time of a session's closing bell\<close>
  "closing_wall d = d * us_per_day + (if d \<in> half_days then HALF_DAY_CLOSE_ET else CLOSE_ET)"

lemma closing_wall_day: "closing_wall d div us_per_day = d" "closing_wall d < (d + 1) * us_per_day"
    "d * us_per_day < closing_wall d"
  by (simp_all add: closing_wall_def us_per_day_def HALF_DAY_CLOSE_ET_def CLOSE_ET_def)

lemma closing_wall_mono: "d < e \<Longrightarrow> closing_wall d < closing_wall e"
proof -
  assume "d < e"
  then have "(d + 1) * us_per_day \<le> e * us_per_day" by (intro mult_right_mono) (auto simp: us_per_day_def)
  with closing_wall_day(2) [of d] closing_wall_day(3) [of e] show ?thesis by simp
qed

lemma combine_close: "is_session d \<Longrightarrow> ds_close_et (session_for d) = Some c \<Longrightarrow> wall_us (combine z d c) = closing_wall d"
  by (simp add: session_for_open combine_def closing_wall_def Let_def)

lemma close_search_first:
  "case close_search z day n of
     Inr t \<Rightarrow> \<exists>d. day < d \<and> d \<le> day + int n \<and> is_session d \<and> wall_us t = closing_wall d
                \<and> (\<forall>e. day < e \<and> e < d \<longrightarrow> \<not> is_session e)
   | Inl _ \<Rightarrow> \<forall>e. day < e \<and> e \<le> day + int n \<longrightarrow> \<not> is_session e"
proof (induction n arbitrary: day)
  case (Suc n)
  show ?case
  proof (cases "is_session (day + 1)")
    case True
    then show ?thesis
      using session_for_open(2) [OF True] combine_close [OF True] by (auto intro!: exI [of _ "day + 1"])
  next
    case False
    have split: "day < e \<longleftrightarrow> e = day + 1 \<or> day + 1 < e" for e by auto
    show ?thesis
    proof (cases "close_search z (day + 1) n")
      case (Inl x)
      with Suc [of "day + 1"] False show ?thesis by (auto simp: session_for_closed split)
    next
      case (Inr t)
      with Suc [of "day + 1"] obtain d where "day + 1 < d" "d \<le> day + 1 + int n" "is_session d"
        "wall_us t = closing_wall d" "\<forall>e. day + 1 < e \<and> e < d \<longrightarrow> \<not> is_session e" by auto
      with False Inr show ?thesis by (auto simp: session_for_closed split intro!: exI [of _ d])
    qed
  qed
qed auto

lemma next_close_first:
  assumes "next_close z stamp = Inr t"
  shows "\<exists>d. is_session d \<and> wall_us t = closing_wall d \<and> wall_us (to_et z stamp) < closing_wall d
    \<and> (\<forall>e. is_session e \<and> wall_us (to_et z stamp) < closing_wall e \<longrightarrow> d \<le> e)"
proof -
  define et where "et = to_et z stamp"
  define day where "day = date_of et"
  have wall: "day * us_per_day \<le> wall_us et" "wall_us et < (day + 1) * us_per_day"
    using date_of_bounds [of et] by (simp_all add: day_def)
  have past: "wall_us et < closing_wall e \<longrightarrow> day \<le> e" for e
  proof (rule impI, rule ccontr)
    assume "wall_us et < closing_wall e" "\<not> day \<le> e"
    moreover from this have "(e + 1) * us_per_day \<le> day * us_per_day"
      by (intro mult_right_mono) (auto simp: us_per_day_def)
    ultimately show False using closing_wall_day(2) [of e] wall(1) by linarith
  qed
  have later: "wall_us et < closing_wall e" if "day < e" for e
  proof -
    have "(day + 1) * us_per_day \<le> e * us_per_day" using that by (intro mult_right_mono) (auto simp: us_per_day_def)
    with wall(2) closing_wall_day(3) [of e] show ?thesis by linarith
  qed
  show ?thesis
  proof (cases "is_session day \<and> wall_us et < closing_wall day")
    case True
    with assms have "wall_us t = closing_wall day"
      using session_for_open(2) [of day] combine_close [of day]
      by (auto simp: next_close_def Let_def et_def [symmetric] day_def [symmetric] split: if_splits)
    with True past show ?thesis unfolding et_def [symmetric] by blast
  next
    case False
    have "close_search z day 400 = Inr t"
    proof (cases "is_session day")
      case True
      with assms False show ?thesis
        using session_for_open(2) [OF True] combine_close [OF True]
        by (auto simp: next_close_def Let_def et_def [symmetric] day_def [symmetric])
    next
      case no: False
      with assms show ?thesis
        by (simp add: next_close_def Let_def et_def [symmetric] day_def [symmetric] session_for_closed)
    qed
    with close_search_first [where z = z and day = day and n = 400] obtain d where d: "day < d" "is_session d"
      "wall_us t = closing_wall d" "\<forall>e. day < e \<and> e < d \<longrightarrow> \<not> is_session e" by auto
    have "d \<le> e" if "is_session e" "wall_us et < closing_wall e" for e
    proof (rule ccontr)
      assume "\<not> d \<le> e"
      with that past [of e] d(4) False show False by (cases "e = day") auto
    qed
    with d later [OF d(1)] show ?thesis unfolding et_def [symmetric] by blast
  qed
qed

lemma next_close_total:
  assumes "date_at 2026 1 1 - 300 \<le> date_of (to_et z stamp)" "date_of (to_et z stamp) < date_at 2027 12 31"
  shows "\<exists>t. next_close z stamp = Inr t"
proof -
  define day where "day = date_of (to_et z stamp)"
  have known: "is_session (date_at 2026 1 2)" "is_session (date_at 2026 12 31)" "is_session (date_at 2027 12 31)"
    by code_simp+
  have nums: "date_at 2026 1 1 = 739617" "date_at 2026 1 2 = 739618" "date_at 2026 12 31 = 739981"
    "date_at 2027 12 31 = 740346" by code_simp+
  have "\<exists>e. day < e \<and> e \<le> day + 400 \<and> is_session e"
  proof -
    consider "day < date_at 2026 1 2" | "date_at 2026 1 2 \<le> day" "day < date_at 2026 12 31"
      | "date_at 2026 12 31 \<le> day" by linarith
    then show ?thesis
    proof cases
      case 1 with assms known(1) show ?thesis unfolding nums day_def [symmetric] by (intro exI [of _ 739618]) simp
    next
      case 2 with assms known(2) show ?thesis unfolding nums day_def [symmetric] by (intro exI [of _ 739981]) simp
    next
      case 3 with assms known(3) show ?thesis unfolding nums day_def [symmetric] by (intro exI [of _ 740346]) simp
    qed
  qed
  then have "\<exists>t. close_search z day 400 = Inr t"
    using close_search_first [where z = z and day = day and n = 400] by (cases "close_search z day 400") auto
  then show ?thesis by (auto simp: next_close_def Let_def day_def [symmetric] split: option.split)
qed

section \<open>Eastern time\<close>

definition fold_hour :: "int \<Rightarrow> bool" where
  \<comment> \<open>the instants of the hour after the clocks went back\<close>
  "fold_hour utc \<longleftrightarrow>
     (let local = utc - 5 * hour_us; until = snd (dst_bounds (year_of (local div us_per_day)))
      in until - hour_us \<le> local \<and> local < until)"

lemma nth_weekday_range: "0 \<le> nth_weekday y m wd n - date_at y m 1 - 7 * (n - 1)
    \<and> nth_weekday y m wd n - date_at y m 1 - 7 * (n - 1) < 7"
  by (simp add: nth_weekday_def Let_def)

lemma year_length: "days_before_year (y + 1) = days_before_year y + (if is_leap y then 366 else 365)"
  using days_in_year [of y] by simp

lemma dst_bounds_days:
  assumes "dst_bounds y = (start, until)"
  shows "(days_before_year y + 1) * us_per_day + hour_us \<le> start" "start \<le> until - 2 * hour_us"
    "until + hour_us < (days_before_year y + 365) * us_per_day"
proof -
  define a b where "a = nth_weekday y 3 6 2" and "b = nth_weekday y 11 6 1"
  have se: "start = a * us_per_day + 2 * hour_us" "until = b * us_per_day + 2 * hour_us"
    using assms by (simp_all add: dst_bounds_def a_def b_def)
  have "days_before_year y + 60 \<le> a" "a \<le> days_before_year y + 80"
    using nth_weekday_range [of y 3 6 2] by (auto simp: a_def date_at_def days_before_month_def split: if_splits)
  moreover have "days_before_year y + 300 \<le> b" "b \<le> days_before_year y + 320"
    using nth_weekday_range [of y 11 6 1] by (auto simp: b_def date_at_def days_before_month_def split: if_splits)
  ultimately show "(days_before_year y + 1) * us_per_day + hour_us \<le> start" "start \<le> until - 2 * hour_us"
    "until + hour_us < (days_before_year y + 365) * us_per_day"
    by (simp_all add: se us_per_day_def hour_us_def)
qed

lemma wall_year:
  assumes "(days_before_year y + 1) * us_per_day \<le> wall" "wall < (days_before_year y + 365) * us_per_day"
  shows "year_of (wall div us_per_day) = y"
proof -
  define q where "q = wall div us_per_day"
  have "q * 86400000000 \<le> wall" "wall < q * 86400000000 + 86400000000"
    using div_mult_mod_eq [of wall 86400000000] pos_mod_bound [of 86400000000 wall]
      pos_mod_sign [of 86400000000 wall] by (simp_all add: q_def us_per_day_def)
  with assms have "days_before_year y + 1 \<le> q" "q < days_before_year y + 365"
    unfolding us_per_day_def by auto
  then have "days_before_year y + 1 \<le> wall div us_per_day" "wall div us_per_day < days_before_year y + 365"
    by (simp_all only: q_def)
  then show ?thesis using year_length [of y] by (auto simp: year_of_iff)
qed

lemma eastern_instant:
  "utc_instant (eastern_fromutc u) = u + (if fold_hour u then hour_us else 0)"
proof -
  define local y where "local = u - 5 * hour_us" and "y = year_of (local div us_per_day)"
  obtain start until where dst: "dst_bounds y = (start, until)" by (cases "dst_bounds y")
  note bounds = dst_bounds_days [OF dst]
  have here: "is_dst_local local \<longleftrightarrow> start \<le> local \<and> local < until"
    using dst by (simp add: is_dst_local_def y_def)
  have fold: "fold_hour u \<longleftrightarrow> until - hour_us \<le> local \<and> local < until"
    using dst by (simp add: fold_hour_def y_def local_def Let_def)
  have h: "0 < hour_us" by (simp add: hour_us_def)
  show ?thesis
  proof (cases "is_dst_local local")
    case False
    with here fold h bounds(2) have "\<not> fold_hour u" by auto
    with False show ?thesis
      by (simp add: eastern_fromutc_def Let_def local_def [symmetric] eastern_offset_def utc_instant_def)
        (simp add: local_def)
  next
    case True
    have in_dst: "start \<le> local" "local < until" using True here by simp_all
    then have "(days_before_year y + 1) * us_per_day \<le> local + hour_us"
      "local + hour_us < (days_before_year y + 365) * us_per_day"
      using bounds h by linarith+
    from wall_year [OF this] have "is_dst_local (local + hour_us) \<longleftrightarrow> start \<le> local + hour_us \<and> local + hour_us < until"
      by (simp add: is_dst_local_def dst)
    then have "is_dst_local (local + hour_us) \<longleftrightarrow> \<not> fold_hour u"
      unfolding fold using in_dst h by linarith
    then have off: "eastern_offset (local + hour_us) = (if fold_hour u then - 5 else - 4) * hour_us"
      by (simp add: eastern_offset_def)
    have "u - 4 * hour_us = local + hour_us" by (simp add: local_def)
    then have "eastern_fromutc u = \<lparr>wall_us = local + hour_us, utc_off = Some (eastern_offset (local + hour_us))\<rparr>"
      using True by (simp add: eastern_fromutc_def Let_def local_def)
    then show ?thesis unfolding utc_instant_def off by (simp add: local_def)
  qed
qed

end
