(* ===== verification/Watch.thy ===== *)
theory Watch
  imports Calendar Json "HOL-Library.AList"
begin

text \<open>
  \<open>signald/watch.py\<close>: which artifacts a poll considers, when it may scan, and what it reports. An
  artifact is what the loop sees of a file: its path, the name of its folder, the JSON in it (\<open>None\<close>
  where it cannot be read) and its modification time. \<open>tx\<close> is Python's \<open>str\<close> of a value that is not
  a string. Texts printed for the operator are reduced to their reason.
\<close>

section \<open>Discovery\<close>

record artifact =
  af_path :: string
  af_folder :: string
  af_doc :: "json option"
  af_mtime :: real

definition trimmed_upper :: "string \<Rightarrow> string" where
  "trimmed_upper s = str_upper (strip s)"

definition own_ticker :: "(json \<Rightarrow> string) \<Rightarrow> json \<Rightarrow> string res" where
  \<comment> \<open>\<open>str(doc.get("ticker") or "").strip().upper()\<close>; only an object has \<open>get\<close>\<close>
  "own_ticker tx doc =
     (case doc of
        JObj d \<Rightarrow> Inr (trimmed_upper (case jget d ''ticker'' of
            JStr s \<Rightarrow> s | v \<Rightarrow> if json_truthy v then tx v else []))
      | _ \<Rightarrow> Inl AttributeError)"

definition ticker_of :: "(json \<Rightarrow> string) \<Rightarrow> artifact \<Rightarrow> string option res" where
  "ticker_of tx a =
     rmap (\<lambda>own. if own \<noteq> [] then Some own
                 else (let head = trimmed_upper (takeWhile (\<lambda>c. c \<noteq> CHR ''_'') (af_folder a))
                       in if head = [] then None else Some head))
       (case af_doc a of None \<Rightarrow> Inr [] | Some doc \<Rightarrow> own_ticker tx doc)"

fun newest ::
  "(json \<Rightarrow> string) \<Rightarrow> artifact list \<Rightarrow> (string \<times> artifact) list \<Rightarrow> (string \<times> artifact) list res" where
  "newest tx [] best = Inr best"
| "newest tx (f # fs) best =
     rbind (ticker_of tx f) (\<lambda>t. case t of
         None \<Rightarrow> newest tx fs best
       | Some ticker \<Rightarrow>
           (case map_of best ticker of
              None \<Rightarrow> newest tx fs (AList.update ticker f best)
            | Some b \<Rightarrow> if af_mtime b < af_mtime f then newest tx fs (AList.update ticker f best)
                       else newest tx fs best))"

definition discover ::
  "(json \<Rightarrow> string) \<Rightarrow> Config \<Rightarrow> artifact list option \<Rightarrow> artifact list \<Rightarrow> artifact list res" where
  \<comment> \<open>the artifacts of the tree in the order \<open>rglob\<close> gives them (\<open>None\<close> without a watch directory), and
     the JSON files of the directory itself\<close>
  "discover tx cfg tree flat =
     (case tree of
        None \<Rightarrow> Inr []
      | Some files \<Rightarrow>
          if cfg_watch_recursive cfg then
            (if \<not> cfg_latest_only cfg then Inr (sort_key af_path files)
             else rmap (map snd) (newest tx files []))
          else Inr (sort_key af_path flat))"

section \<open>The scan window\<close>

definition scan_window :: "Config \<Rightarrow> zone \<Rightarrow> datetime \<Rightarrow> bool option \<Rightarrow> bool \<times> string" where
  \<comment> \<open>the broker's clock is \<open>None\<close> where it cannot be read\<close>
  "scan_window cfg z stamp broker =
     (if \<not> cfg_scan_rth_only cfg then (True, ''any'')
      else (let phase = session_phase z stamp in
        if phase \<noteq> ''rth'' then (False, phase)
        else if cfg_scan_confirm_broker_clock cfg \<and> broker = None then (False, ''broker_unknown'')
        else if cfg_scan_confirm_broker_clock cfg \<and> broker = Some False then (False, ''broker_closed'')
        else if fst (close_window z stamp (cfg_close_window_minutes cfg)) then (True, ''rth_close'')
        else (True, ''rth'')))"

section \<open>The loop\<close>

record cycle_result =
  re_kind :: string
  re_reasons :: "string list"
  re_path :: "string option"

type_synonym reported = "(string \<times> (string \<times> string list)) list"

definition report :: "cycle_result \<Rightarrow> reported \<Rightarrow> reported \<times> bool" where
  "report r seen =
     (case re_path r of
        None \<Rightarrow> (seen, True)
      | Some p \<Rightarrow>
          if map_of seen p = Some (re_kind r, re_reasons r) then (seen, False)
          else (AList.update p (re_kind r, re_reasons r) seen, True))"

fun report_all :: "cycle_result list \<Rightarrow> reported \<Rightarrow> reported \<times> cycle_result list" where
  "report_all [] seen = (seen, [])"
| "report_all (r # rs) seen =
     (let (seen', new) = report r seen; (seen'', out) = report_all rs seen'
      in (seen'', if new then r # out else out))"

datatype watch_event = Heartbeat | Announce bool string | Shown cycle_result

record watcher =
  wt_last_reason :: "string option"
  wt_last_open_reason :: "string option"
  wt_reported :: reported

record cycle =
  cy_stop :: bool
  cy_stamp :: datetime
  cy_broker :: "bool option"
  cy_results :: "cycle_result list" \<comment> \<open>what \<open>run_once\<close> returns, should it be called\<close>

definition watch_cycle :: "Config \<Rightarrow> zone \<Rightarrow> bool \<Rightarrow> cycle \<Rightarrow> watcher \<Rightarrow> watcher \<times> watch_event list" where
  "watch_cycle cfg z listening c w =
     (let (is_open, reason) = scan_window cfg z (cy_stamp c) (cy_broker c) in
      if is_open then
        (let (last_reason, said) =
               (if wt_last_reason w \<noteq> None then (None, [Announce True reason])
                else if wt_last_open_reason w \<noteq> None \<and> wt_last_open_reason w \<noteq> Some reason
                  then (None, [Announce True reason])
                else (None, []));
             (seen, shown) = (if listening then report_all (cy_results c) (wt_reported w)
                              else (wt_reported w, []))
         in (w\<lparr>wt_last_reason := last_reason, wt_last_open_reason := Some reason, wt_reported := seen\<rparr>,
             Heartbeat # said @ map Shown shown))
      else if wt_last_reason w \<noteq> Some reason then
        (w\<lparr>wt_last_reason := Some reason\<rparr>, [Heartbeat, Announce False reason])
      else (w, [Heartbeat]))"

fun watch_run :: "Config \<Rightarrow> zone \<Rightarrow> bool \<Rightarrow> cycle list \<Rightarrow> watcher \<Rightarrow> watcher \<times> watch_event list" where
  "watch_run cfg z listening [] w = (w, [])"
| "watch_run cfg z listening (c # cs) w =
     (if cy_stop c then (w, [])
      else (let (w1, out) = watch_cycle cfg z listening c w; (w2, out') = watch_run cfg z listening cs w1
            in (w2, out @ out')))"

section \<open>The newest artifact of each ticker\<close>

definition best_of :: "(json \<Rightarrow> string) \<Rightarrow> artifact list \<Rightarrow> (string \<times> artifact) list \<Rightarrow> bool" where
  \<comment> \<open>each ticker of the files once, with a newest of its files\<close>
  "best_of tx fs best \<longleftrightarrow>
     distinct (map fst best)
     \<and> (\<forall>(t, a) \<in> set best. a \<in> set fs \<and> ticker_of tx a = Inr (Some t))
     \<and> (\<forall>f \<in> set fs. \<forall>t. ticker_of tx f = Inr (Some t) \<longrightarrow>
          (\<exists>a. map_of best t = Some a \<and> af_mtime f \<le> af_mtime a))"

lemma best_of_snoc:
  assumes "best_of tx fs best" "ticker_of tx f = Inr to"
  shows "best_of tx (fs @ [f]) (case to of
      None \<Rightarrow> best
    | Some t \<Rightarrow> (case map_of best t of
          None \<Rightarrow> AList.update t f best
        | Some b \<Rightarrow> if af_mtime b < af_mtime f then AList.update t f best else best))"
proof (cases to)
  case None
  with assms show ?thesis by (auto simp: best_of_def)
next
  case (Some t)
  have upd: "best_of tx (fs @ [f]) (AList.update t f best)"
    if "\<forall>b. map_of best t = Some b \<longrightarrow> af_mtime b \<le> af_mtime f"
  proof -
    have "(k, a) \<in> set (AList.update t f best) \<Longrightarrow> (k, a) = (t, f) \<or> (k, a) \<in> set best" for k a
      by (induction best) (auto split: if_splits)
    with assms that Some show ?thesis
      unfolding best_of_def
      by (force simp: distinct_update update_conv' split: if_splits intro: order_trans)
  qed
  show ?thesis
  proof (cases "map_of best t")
    case None
    with upd Some show ?thesis by simp
  next
    case b: (Some b)
    show ?thesis
    proof (cases "af_mtime b < af_mtime f")
      case True
      with upd Some b show ?thesis by simp
    next
      case False
      with assms Some b show ?thesis by (auto simp: best_of_def)
    qed
  qed
qed

lemma newest_best:
  assumes "newest tx fs best = Inr out" "best_of tx gs best"
  shows "best_of tx (gs @ fs) out"
  using assms
proof (induction fs arbitrary: gs best)
  case (Cons f fs)
  from Cons.prems(1) obtain to where to: "ticker_of tx f = Inr to" by (auto simp: rbind_Inr_iff)
  define best' where "best' = (case to of
      None \<Rightarrow> best
    | Some t \<Rightarrow> (case map_of best t of
          None \<Rightarrow> AList.update t f best
        | Some b \<Rightarrow> if af_mtime b < af_mtime f then AList.update t f best else best))"
  have "newest tx fs best' = Inr out"
  proof (cases to)
    case None
    with Cons.prems(1) to show ?thesis by (simp add: best'_def)
  next
    case (Some t)
    with Cons.prems(1) to show ?thesis by (cases "map_of best t") (simp_all add: best'_def split: if_splits)
  qed
  moreover have "best_of tx (gs @ [f]) best'"
    unfolding best'_def by (rule best_of_snoc [OF Cons.prems(2) to])
  ultimately show ?case using Cons.IH [of best' "gs @ [f]"] by simp
qed simp

section \<open>What the loop says\<close>

text \<open>A result is shown exactly when it is the first of its path or differs from the last one seen.\<close>

lemma report_again:
  assumes "report r seen = (seen', new)" "re_path r = Some p"
  shows "new \<longleftrightarrow> map_of seen p \<noteq> Some (re_kind r, re_reasons r)"
    "map_of seen' p = Some (re_kind r, re_reasons r)" "q \<noteq> p \<longrightarrow> map_of seen' q = map_of seen q"
  using assms by (auto simp: report_def update_conv' split: if_splits)

lemma report_all_sub: "report_all rs seen = (seen', out) \<Longrightarrow> set out \<subseteq> set rs"
proof (induction rs arbitrary: seen out)
  case (Cons r rs)
  then show ?case by (fastforce split: prod.splits if_splits)
qed simp

lemma scan_window_open:
  assumes "scan_window cfg z stamp broker = (True, reason)" "cfg_scan_rth_only cfg"
  shows "is_session (date_of (to_et z stamp))" "OPEN_ET \<le> time_of (to_et z stamp)"
    "wall_us (to_et z stamp) < closing_wall (date_of (to_et z stamp))"
    "cfg_scan_confirm_broker_clock cfg \<longrightarrow> broker = Some True"
    "reason = ''rth_close'' \<longleftrightarrow>
       closing_wall (date_of (to_et z stamp)) - wall_us (to_et z stamp) \<le> cfg_close_window_minutes cfg * 60000000"
proof -
  let ?et = "to_et z stamp"
  have rth: "session_phase z stamp = ''rth''" and broker: "cfg_scan_confirm_broker_clock cfg \<longrightarrow> broker = Some True"
    and reason: "reason = (if fst (close_window z stamp (cfg_close_window_minutes cfg)) then ''rth_close'' else ''rth'')"
    using assms by (auto simp: scan_window_def Let_def split: if_splits)
  have day: "is_session (date_of ?et)"
  proof (rule ccontr)
    assume "\<not> is_session (date_of ?et)"
    then have "phase_at ?et = ''closed''" by (simp add: phase_at_def session_for_closed)
    with rth show False by (simp add: session_phase_def)
  qed
  note ses = session_for_open [OF day]
  define c where "c = (if date_of ?et \<in> half_days then HALF_DAY_CLOSE_ET else CLOSE_ET)"
  have times: "OPEN_ET \<le> time_of ?et" "time_of ?et < c"
    using rth ses(1,2) by (auto simp: session_phase_def phase_at_def Let_def c_def split: if_splits)
  have wall: "wall_us ?et = date_of ?et * us_per_day + time_of ?et" by (simp add: date_of_def time_of_def)
  have closing: "closing_wall (date_of ?et) = date_of ?et * us_per_day + c" by (simp add: closing_wall_def c_def)
  show "is_session (date_of ?et)" "OPEN_ET \<le> time_of ?et" "cfg_scan_confirm_broker_clock cfg \<longrightarrow> broker = Some True"
    using day times broker by simp_all
  show before: "wall_us ?et < closing_wall (date_of ?et)" using times wall closing by simp
  have "wall_us (combine z (ds_date (session_for (date_of ?et))) c) = closing_wall (date_of ?et)"
    by (simp add: combine_def ses(4) closing Let_def)
  then have "fst (close_window z stamp (cfg_close_window_minutes cfg)) \<longleftrightarrow>
      closing_wall (date_of ?et) - wall_us ?et \<le> cfg_close_window_minutes cfg * 60000000"
    using before ses(2) by (auto simp: close_window_def Let_def c_def [symmetric])
  then show "reason = ''rth_close'' \<longleftrightarrow>
       closing_wall (date_of ?et) - wall_us ?et \<le> cfg_close_window_minutes cfg * 60000000"
    by (simp add: reason)
qed

lemma watch_cycle_shown:
  assumes "watch_cycle cfg z listening c w = (w', out)" "Shown r \<in> set out"
  shows "r \<in> set (cy_results c) \<and> fst (scan_window cfg z (cy_stamp c) (cy_broker c))"
  using assms by (auto simp: watch_cycle_def Let_def split: prod.splits if_splits dest!: report_all_sub)

lemma watch_run_shown:
  assumes "watch_run cfg z listening cs w = (w', out)" "Shown r \<in> set out"
  shows "\<exists>c \<in> set cs. r \<in> set (cy_results c) \<and> fst (scan_window cfg z (cy_stamp c) (cy_broker c))"
  using assms
proof (induction cs arbitrary: w out)
  case (Cons c cs)
  obtain w1 o1 where one: "watch_cycle cfg z listening c w = (w1, o1)" by (cases "watch_cycle cfg z listening c w")
  obtain o2 where rest: "watch_run cfg z listening cs w1 = (w', o2)" "out = o1 @ o2"
    using Cons.prems one by (auto split: prod.splits if_splits)
  with Cons.prems(2) watch_cycle_shown [OF one] Cons.IH [OF rest(1)] show ?case by auto
qed simp

definition announcements :: "watch_event list \<Rightarrow> (bool \<times> string) list" where
  "announcements out = concat (map (\<lambda>e. case e of Announce b r \<Rightarrow> [(b, r)] | _ \<Rightarrow> []) out)"

definition beats :: "watch_event list \<Rightarrow> nat" where
  "beats out = length (filter (\<lambda>e. e = Heartbeat) out)"

lemma announcements_simps [simp]:
  "announcements [] = []" "announcements (a @ b) = announcements a @ announcements b"
  "announcements (Heartbeat # out) = announcements out"
  "announcements (Announce up r # out) = (up, r) # announcements out"
  "announcements (map Shown rs) = []"
  by (simp_all add: announcements_def concat_eq_Nil_conv)

definition last_said :: "(bool \<times> string) option \<Rightarrow> watcher \<Rightarrow> bool" where
  \<comment> \<open>what the loop's two reasons know of its last announcement\<close>
  "last_said a w \<longleftrightarrow>
     (case a of
        None \<Rightarrow> wt_last_reason w = None
      | Some (up, r) \<Rightarrow>
          if up then wt_last_reason w = None \<and> wt_last_open_reason w = Some r
          else wt_last_reason w = Some r)"

lemma watch_cycle_said:
  assumes "watch_cycle cfg z listening c w = (w', out)" "last_said a w"
  shows "(announcements out = [] \<and> last_said a w')
    \<or> (\<exists>b. announcements out = [b] \<and> a \<noteq> Some b \<and> last_said (Some b) w')"
proof -
  obtain up reason where sw: "scan_window cfg z (cy_stamp c) (cy_broker c) = (up, reason)"
    by (cases "scan_window cfg z (cy_stamp c) (cy_broker c)")
  show ?thesis
  proof (cases up)
    case False
    note run = assms(1) [unfolded watch_cycle_def sw Let_def, simplified False prod.case if_False]
    show ?thesis
    proof (cases "wt_last_reason w = Some reason")
      case True
      with run have "w' = w" "out = [Heartbeat]" by simp_all
      with assms(2) show ?thesis by simp
    next
      case new: False
      with run have w': "w' = w\<lparr>wt_last_reason := Some reason\<rparr>" "out = [Heartbeat, Announce False reason]"
        by simp_all
      have "a \<noteq> Some (False, reason)" using assms(2) new by (auto simp: last_said_def)
      moreover have "last_said (Some (False, reason)) w'" by (simp add: last_said_def w'(1))
      ultimately show ?thesis by (simp add: w'(2))
    qed
  next
    case True
    obtain seen shown where "(if listening then report_all (cy_results c) (wt_reported w)
        else (wt_reported w, [])) = (seen, shown)" by fastforce
    note run = assms(1) [unfolded watch_cycle_def sw Let_def, simplified True this prod.case if_True]
    define said where "said = (wt_last_reason w \<noteq> None
        \<or> wt_last_open_reason w \<noteq> None \<and> wt_last_open_reason w \<noteq> Some reason)"
    have w': "wt_last_reason w' = None" "wt_last_open_reason w' = Some reason"
      "announcements out = (if said then [(True, reason)] else [])"
      using run by (auto simp: said_def split: if_splits)
    show ?thesis
    proof (cases said)
      case True
      then have "a \<noteq> Some (True, reason)" using assms(2) by (auto simp: said_def last_said_def)
      with True w' show ?thesis by (simp add: last_said_def)
    next
      case False
      then have "last_said a w'"
        using assms(2) w' by (auto simp: said_def last_said_def split: option.splits if_splits)
      with False w' show ?thesis by simp
    qed
  qed
qed

lemma watch_run_said:
  assumes "watch_run cfg z listening cs w = (w', out)" "last_said a w"
  shows "successively (\<noteq>) (announcements out)
    \<and> (announcements out \<noteq> [] \<longrightarrow> a \<noteq> Some (hd (announcements out)))"
  using assms
proof (induction cs arbitrary: w out a)
  case (Cons c cs)
  show ?case
  proof (cases "cy_stop c")
    case True
    with Cons.prems show ?thesis by simp
  next
    case False
    obtain w1 o1 where one: "watch_cycle cfg z listening c w = (w1, o1)" by (cases "watch_cycle cfg z listening c w")
    obtain o2 where rest: "watch_run cfg z listening cs w1 = (w', o2)" "out = o1 @ o2"
      using Cons.prems one False by (auto split: prod.splits if_splits)
    from watch_cycle_said [OF one Cons.prems(2)] show ?thesis
    proof
      assume "announcements o1 = [] \<and> last_said a w1"
      with Cons.IH [OF rest(1), of a] rest(2) show ?thesis by simp
    next
      assume "\<exists>b. announcements o1 = [b] \<and> a \<noteq> Some b \<and> last_said (Some b) w1"
      then obtain b where "announcements o1 = [b]" "a \<noteq> Some b" "last_said (Some b) w1" by blast
      with Cons.IH [OF rest(1), of "Some b"] rest(2) show ?thesis
        by (cases "announcements o2") auto
    qed
  qed
qed simp

lemma watch_run_beats:
  assumes "watch_run cfg z listening cs w = (w', out)"
  shows "beats out = length (takeWhile (\<lambda>c. \<not> cy_stop c) cs)"
  using assms
proof (induction cs arbitrary: w out)
  case (Cons c cs)
  obtain w1 o1 where one: "watch_cycle cfg z listening c w = (w1, o1)" by (cases "watch_cycle cfg z listening c w")
  then have "beats o1 = 1"
    by (auto simp: watch_cycle_def Let_def beats_def filter_empty_conv split: prod.splits if_splits)
  with Cons one show ?case by (auto simp: beats_def split: prod.splits if_splits)
qed (simp add: beats_def)

end
