(* ===== verification/Schema.thy ===== *)
theory Schema
  imports JsonText
begin

text \<open>
  \<open>signald/schema.py\<close>: the research decision, parsed and hash-pinned from an untrusted artifact, and
  its normalisation to a signal contract. Whatever an artifact holds, parsing returns a decision or
  the exception that the source raises there; not every one of them is a \<open>ContractError\<close>.
\<close>

section \<open>Vocabulary\<close>

definition VALID_DATA_QUALITY :: "string list" where
  "VALID_DATA_QUALITY = [''fresh'', ''partial'', ''stale'', ''unknown'']"

definition VALID_DIRECTIONS :: "string list" where
  "VALID_DIRECTIONS = [''add'', ''buy'', ''exit'', ''hold'', ''none'', ''reduce'', ''sell'']"

definition VALID_ACTIONS :: "string list" where
  "VALID_ACTIONS = [''BUY'', ''HOLD'', ''REDUCE'', ''EXIT'', ''NONE'']"

definition RATING_TO_DIRECTION :: "(string \<times> string) list" where
  "RATING_TO_DIRECTION =
     [(''buy'', ''add''), (''overweight'', ''add''), (''outperform'', ''add''), (''hold'', ''hold''),
      (''underweight'', ''reduce''), (''underperform'', ''reduce''), (''sell'', ''exit'')]"

definition DIRECTION_TO_ACTION :: "(string \<times> string) list" where
  "DIRECTION_TO_ACTION =
     [(''add'', ''BUY''), (''buy'', ''BUY''), (''hold'', ''HOLD''), (''reduce'', ''REDUCE''),
      (''sell'', ''REDUCE''), (''exit'', ''EXIT''), (''none'', ''NONE'')]"

section \<open>The research decision\<close>

record ResearchDecision =
  dn_ticker :: string
  dn_effective_date :: date
  dn_rating :: "string option"
  dn_direction :: "string option"
  dn_data_quality :: string
  dn_schema_version :: string
  dn_thesis :: "string option"
  dn_rationale :: "string option"
  dn_recommended_allocation_pct :: "pyfloat option"
  dn_target_notional :: "pyfloat option"
  dn_stop_loss :: "pyfloat option"
  dn_take_profit :: "pyfloat option"
  dn_size_pct_book :: "pyfloat option"
  dn_price_caliber :: "string option"
  dn_invalidations :: "string list"
  dn_guardrail_reason :: "string option"
  dn_risk_gate_verdict :: "string option"
  dn_risk_gate_reasons :: "json list"
  dn_disclosure :: "(json \<times> json) list"
  dn_decision_hash :: string
  dn_extra :: "(string \<times> json) list"
  dn_opportunity_score :: "pyfloat option"
  dn_net_beta :: "pyfloat option"
  dn_expires_at :: "datetime option"
  dn_produced_at :: "datetime option"
  dn_idempotency_key :: "string option"
  dn_producer :: "(json \<times> json) list"
  dn_artifact_sha256 :: "string option"
  dn_risk_context :: "(string \<times> json) list"

definition action_for :: "string \<Rightarrow> string \<Rightarrow> string option" where
  \<comment> \<open>of a direction and a rating in lower case: the direction decides where it is a known one\<close>
  "action_for d r =
     (case map_of DIRECTION_TO_ACTION d of
        Some a \<Rightarrow> Some a
      | None \<Rightarrow> (case map_of RATING_TO_DIRECTION r of
          Some d' \<Rightarrow> map_of DIRECTION_TO_ACTION d' | None \<Rightarrow> None))"

definition decision_action :: "ResearchDecision \<Rightarrow> string res" where
  "decision_action rd =
     (case action_for (str_lower (strip (str_or (dn_direction rd) []))) (str_lower (strip (str_or (dn_rating rd) []))) of
        Some a \<Rightarrow> Inr a | None \<Rightarrow> Inl ContractError)"

section \<open>Coercions\<close>

definition coerce_float :: "json \<Rightarrow> pyfloat option res" where
  "coerce_float v =
     (if v = JNull then Inr None
      else (case float_of_json v of Inr x \<Rightarrow> Inr (Some x) | Inl _ \<Rightarrow> Inl ContractError))"

definition coerce_ts :: "(json \<Rightarrow> string) \<Rightarrow> json \<Rightarrow> datetime option res" where
  "coerce_ts rp v =
     (let t = strip (py_str rp v) in
      if v = JNull \<or> t = [] then Inr None
      else (case parse_stamp t of Some s \<Rightarrow> Inr (Some s) | None \<Rightarrow> Inl ContractError))"

definition dict_or_empty :: "json \<Rightarrow> (string \<times> json) list option" where
  \<comment> \<open>\<open>x or {}\<close>, where that is an object\<close>
  "dict_or_empty v = (case json_or v (JObj []) of JObj d \<Rightarrow> Some d | _ \<Rightarrow> None)"

fun texts_of :: "json list \<Rightarrow> string list option" where
  "texts_of [] = Some []"
| "texts_of (JStr s # xs) = map_option ((#) s) (texts_of xs)"
| "texts_of (_ # xs) = None"

section \<open>Parsing\<close>

definition KNOWN_KEYS :: "string list" where
  "KNOWN_KEYS = [''schema_version'', ''ticker'', ''effective_date'', ''rating'', ''direction'',
     ''thesis'', ''rationale'', ''recommended_allocation_pct'', ''position'', ''data_quality'',
     ''price_caliber'', ''invalidations'', ''guardrail_reason'', ''risk_gate'', ''disclosure'',
     ''decision_hash'', ''opportunity_score'', ''net_beta'', ''expires_at'', ''produced_at'',
     ''idempotency_key'', ''producer'', ''artifact_sha256'', ''risk_context'']"

definition body_hash :: "json_hash \<Rightarrow> (string \<times> json) list \<Rightarrow> string" where
  \<comment> \<open>the hash of the artifact without its \<open>decision_hash\<close>\<close>
  "body_hash h raw = sha256_of h (JObj (without [''decision_hash''] raw))"

definition hash_matches :: "(json \<Rightarrow> string) \<Rightarrow> json_hash \<Rightarrow> (string \<times> json) list \<Rightarrow> bool" where
  "hash_matches rp h raw \<longleftrightarrow>
     (let declared = jget raw ''decision_hash'' in
      json_truthy declared \<longrightarrow> removeprefix ''sha256:'' (py_str rp declared) = body_hash h raw)"

definition invalidations_of :: "(string \<times> json) list \<Rightarrow> string list res" where
  "invalidations_of raw =
     rbind (list_of_json (json_or (jget raw ''invalidations'') (JList []))) (\<lambda>xs.
       case texts_of xs of Some ts \<Rightarrow> Inr ts | None \<Rightarrow> Inl ContractError)"

definition risk_gate_of ::
  "(json \<Rightarrow> string) \<Rightarrow> (string \<times> json) list \<Rightarrow> (string option \<times> json list) res" where
  "risk_gate_of rp raw =
     (case dict_or_empty (jget raw ''risk_gate'') of
        None \<Rightarrow> Inr (None, [])
      | Some rg \<Rightarrow>
          rmap (\<lambda>reasons. (some_text (strip (or_str rp (jget rg ''verdict''))), reasons))
            (list_of_json (json_or (jget rg ''reasons'') (JList []))))"

definition header_of ::
  "(json \<Rightarrow> string) \<Rightarrow> (string \<times> json) list
     \<Rightarrow> (string \<times> date \<times> string option \<times> string option \<times> string) res" where
  \<comment> \<open>ticker, effective date, rating, direction and data quality\<close>
  "header_of rp raw =
     (let ticker = str_upper (strip (or_str rp (jget raw ''ticker'')));
          rating = some_text (strip (or_str rp (jget raw ''rating'')));
          direction = some_text (str_lower (strip (or_str rp (jget raw ''direction''))));
          quality = str_lower (strip (py_str rp (json_or (jget raw ''data_quality'') (JStr ''unknown''))))
      in
      if ticker = [] then Inl ContractError
      else (case parse_iso_date (or_str rp (jget raw ''effective_date'')) of
          None \<Rightarrow> Inl ContractError
        | Some effective \<Rightarrow>
            if (case direction of Some d \<Rightarrow> d \<notin> set VALID_DIRECTIONS | None \<Rightarrow> False) then Inl ContractError
            else if direction = None \<and> str_lower (strip (str_or rating [])) = [] then Inl ContractError
            else if quality \<notin> set VALID_DATA_QUALITY then Inl ContractError
            else Inr (ticker, effective, rating, direction, quality)))"

definition fill_decision ::
  "(json \<Rightarrow> string) \<Rightarrow> json_hash \<Rightarrow> (string \<times> json) list \<Rightarrow> (string \<times> json) list \<Rightarrow> (string \<times> json) list
     \<Rightarrow> string list \<Rightarrow> string option \<times> json list
     \<Rightarrow> string \<times> date \<times> string option \<times> string option \<times> string \<Rightarrow> ResearchDecision res" where
  \<comment> \<open>the constructor call; its arguments are evaluated from the first to the last\<close>
  "fill_decision rp h raw pos rc invalidations gate hdr =
     (let (ticker, effective, rating, direction, quality) = hdr; text_of = (\<lambda>k. some_text (or_str rp (jget raw k)))
      in
      rbind (coerce_float (jget raw ''recommended_allocation_pct'')) (\<lambda>alloc.
      rbind (coerce_float (jget pos ''target_notional'')) (\<lambda>notional.
      rbind (coerce_float (jget pos ''stop_loss'')) (\<lambda>stop.
      rbind (coerce_float (jget pos ''take_profit'')) (\<lambda>profit.
      rbind (coerce_float (jget pos ''size_pct_book'')) (\<lambda>share.
      rbind (dict_of_json (json_or (jget raw ''disclosure'') (JObj []))) (\<lambda>disclosure.
      rbind (coerce_float (jget raw ''opportunity_score'')) (\<lambda>score.
      rbind (coerce_float (jget raw ''net_beta'')) (\<lambda>beta.
      rbind (coerce_ts rp (jget raw ''expires_at'')) (\<lambda>expires.
      rbind (coerce_ts rp (jget raw ''produced_at'')) (\<lambda>produced.
      rmap (\<lambda>producer.
        \<lparr>dn_ticker = ticker, dn_effective_date = effective, dn_rating = rating, dn_direction = direction,
         dn_data_quality = quality,
         dn_schema_version = py_str rp (json_or (jget raw ''schema_version'') (JStr ''1.0.0'')),
         dn_thesis = text_of ''thesis'', dn_rationale = text_of ''rationale'',
         dn_recommended_allocation_pct = alloc, dn_target_notional = notional, dn_stop_loss = stop,
         dn_take_profit = profit, dn_size_pct_book = share,
         dn_price_caliber = some_text (strip (or_str rp (jget raw ''price_caliber''))),
         dn_invalidations = invalidations, dn_guardrail_reason = text_of ''guardrail_reason'',
         dn_risk_gate_verdict = fst gate, dn_risk_gate_reasons = snd gate, dn_disclosure = disclosure,
         dn_decision_hash = body_hash h raw, dn_extra = without KNOWN_KEYS raw,
         dn_opportunity_score = score, dn_net_beta = beta, dn_expires_at = expires,
         dn_produced_at = produced, dn_idempotency_key = text_of ''idempotency_key'',
         dn_producer = producer, dn_artifact_sha256 = text_of ''artifact_sha256'', dn_risk_context = rc\<rparr>)
      (dict_of_json (json_or (jget raw ''producer'') (JObj []))))))))))))))"

definition parse_object ::
  "(json \<Rightarrow> string) \<Rightarrow> json_hash \<Rightarrow> (string \<times> json) list \<Rightarrow> ResearchDecision res" where
  "parse_object rp h raw =
     rbind (header_of rp raw) (\<lambda>hdr.
     (case dict_or_empty (jget raw ''position'') of
        None \<Rightarrow> Inl ContractError
      | Some pos \<Rightarrow>
          rbind (invalidations_of raw) (\<lambda>invalidations.
          rbind (risk_gate_of rp raw) (\<lambda>gate.
          (case dict_or_empty (jget raw ''risk_context'') of
             None \<Rightarrow> Inl ContractError
           | Some rc \<Rightarrow>
               if \<not> hash_matches rp h raw then Inl ContractError
               else rbind (fill_decision rp h raw pos rc invalidations gate hdr) (\<lambda>rd.
                 rmap (\<lambda>_. rd) (decision_action rd)))))))"

definition parse_research_decision ::
  "(json \<Rightarrow> string) \<Rightarrow> json_hash \<Rightarrow> json \<Rightarrow> ResearchDecision res" where
  "parse_research_decision rp h raw =
     (case raw of JObj d \<Rightarrow> parse_object rp h d | _ \<Rightarrow> Inl AttributeError)"

section \<open>The signal contract\<close>

record SignalContract =
  sc_symbol :: string
  sc_action :: string
  sc_target_pct :: pyfloat
  sc_expiry :: string
  sc_decision_hash :: string
  sc_timestamp :: string
  sc_target_notional_usd :: "pyfloat option"
  sc_score :: "pyfloat option"
  sc_confidence :: "pyfloat option"
  sc_target_price :: "pyfloat option"
  sc_stop_price :: "pyfloat option"
  sc_max_position_pct :: "pyfloat option"
  sc_strategy :: "string option"
  sc_reason :: "string option"
  sc_opportunity_score :: "pyfloat option"
  sc_idempotency_key :: "string option"

definition clamp01 :: "pyfloat \<Rightarrow> pyfloat" where
  \<comment> \<open>\<open>max(0.0, min(1.0, x))\<close>\<close>
  "clamp01 x = pymax 0 (pymin 1 x)"

definition target_share :: "ResearchDecision \<Rightarrow> pyfloat" where
  "target_share rd =
     (case dn_recommended_allocation_pct rd of
        Some pct \<Rightarrow> clamp01 (fdiv pct (Fin 100))
      | None \<Rightarrow> clamp01 (case dn_size_pct_book rd of Some s \<Rightarrow> if truthy s then s else 0 | None \<Rightarrow> 0))"

definition extra_float :: "ResearchDecision \<Rightarrow> string \<Rightarrow> pyfloat option res" where
  \<comment> \<open>\<open>None if x is None else float(x)\<close>\<close>
  "extra_float rd k =
     (if jget (dn_extra rd) k = JNull then Inr None else rmap Some (float_of_json (jget (dn_extra rd) k)))"

definition contract_of ::
  "(json \<Rightarrow> string) \<Rightarrow> ResearchDecision \<Rightarrow> string \<Rightarrow> datetime \<Rightarrow> pyfloat option \<Rightarrow> string \<Rightarrow> SignalContract res" where
  "contract_of rp rd expiry now equity action =
     (let pct = target_share rd;
          notional = (case dn_target_notional rd of
              Some n \<Rightarrow> Some n | None \<Rightarrow> map_option (\<lambda>e. pct * e) equity);
          strategy = jget (dn_extra rd) ''strategy''
      in
      rbind (extra_float rd ''score'') (\<lambda>score.
      rmap (\<lambda>confidence.
        \<lparr>sc_symbol = dn_ticker rd, sc_action = action, sc_target_pct = round_to 6 pct, sc_expiry = expiry,
         sc_decision_hash = dn_decision_hash rd, sc_timestamp = isoformat_seconds now,
         sc_target_notional_usd = map_option (round_to 2) notional, sc_score = score,
         sc_confidence = confidence, sc_target_price = dn_take_profit rd, sc_stop_price = dn_stop_loss rd,
         sc_max_position_pct = map_option (round_to 6) (dn_size_pct_book rd),
         sc_strategy = (if strategy = JNull then None else Some (py_str rp strategy)),
         sc_reason = dn_rationale rd, sc_opportunity_score = dn_opportunity_score rd,
         sc_idempotency_key = dn_idempotency_key rd\<rparr>)
        (extra_float rd ''confidence'')))"

definition build_signal_contract ::
  "(json \<Rightarrow> string) \<Rightarrow> ResearchDecision \<Rightarrow> string \<Rightarrow> datetime \<Rightarrow> pyfloat option \<Rightarrow> SignalContract res" where
  "build_signal_contract rp rd expiry now equity =
     rbind (decision_action rd) (contract_of rp rd expiry now equity)"

section \<open>What a parsed decision is\<close>

lemma action_for_valid: "action_for d r = Some a \<Longrightarrow> a \<in> set VALID_ACTIONS"
  by (auto simp: action_for_def DIRECTION_TO_ACTION_def RATING_TO_DIRECTION_def VALID_ACTIONS_def
      split: option.splits if_splits)

lemma decision_action_valid: "decision_action rd = Inr a \<Longrightarrow> a \<in> set VALID_ACTIONS"
  by (auto simp: decision_action_def dest: action_for_valid split: option.splits)

lemma parse_object_steps:
  assumes "parse_object rp h raw = Inr rd"
  obtains hdr pos ivs gate rc a where "header_of rp raw = Inr hdr"
    "dict_or_empty (jget raw ''position'') = Some pos" "invalidations_of raw = Inr ivs"
    "risk_gate_of rp raw = Inr gate" "dict_or_empty (jget raw ''risk_context'') = Some rc"
    "hash_matches rp h raw" "fill_decision rp h raw pos rc ivs gate hdr = Inr rd" "decision_action rd = Inr a"
  using assms unfolding parse_object_def
  by (auto simp: rbind_Inr_iff rmap_Inr_iff split: option.splits if_splits)

lemma fill_decision_fields:
  assumes "fill_decision rp h raw pos rc ivs gate (ticker, effective, rating, direction, quality) = Inr rd"
  shows "dn_ticker rd = ticker \<and> dn_effective_date rd = effective \<and> dn_rating rd = rating
    \<and> dn_direction rd = direction \<and> dn_data_quality rd = quality \<and> dn_decision_hash rd = body_hash h raw
    \<and> dn_extra rd = without KNOWN_KEYS raw \<and> dn_invalidations rd = ivs \<and> dn_risk_context rd = rc
    \<and> coerce_float (jget raw ''recommended_allocation_pct'') = Inr (dn_recommended_allocation_pct rd)
    \<and> coerce_float (jget pos ''stop_loss'') = Inr (dn_stop_loss rd)
    \<and> coerce_float (jget pos ''target_notional'') = Inr (dn_target_notional rd)"
  using assms unfolding fill_decision_def Let_def prod.case
  by (elim rbind_InrE rmap_InrE) simp

lemma blank_text [simp]: "strip [] = []" "str_lower [] = []" "str_or None [] = []" "some_text [] = None"
  by (simp_all add: strip_def str_lower_def str_or_def)

lemma header_of_facts:
  assumes "header_of rp raw = Inr (ticker, effective, rating, direction, quality)"
  shows "ticker = str_upper (strip (or_str rp (jget raw ''ticker'')))" "ticker \<noteq> []"
    "parse_iso_date (or_str rp (jget raw ''effective_date'')) = Some effective"
    "quality \<in> set VALID_DATA_QUALITY"
    "case direction of Some d \<Rightarrow> d \<in> set VALID_DIRECTIONS | None \<Rightarrow> rating \<noteq> None"
  using assms unfolding header_of_def Let_def
  by (auto split: option.splits if_splits)

lemma parsed_decision:
  assumes "parse_research_decision rp h raw = Inr rd"
  obtains d where "raw = JObj d" "hash_matches rp h d" "dn_decision_hash rd = body_hash h d"
    "dn_ticker rd \<noteq> []" "dn_data_quality rd \<in> set VALID_DATA_QUALITY"
    "dn_ticker rd = str_upper (strip (or_str rp (jget d ''ticker'')))"
    "parse_iso_date (or_str rp (jget d ''effective_date'')) = Some (dn_effective_date rd)"
    "\<exists>a \<in> set VALID_ACTIONS. decision_action rd = Inr a"
    "coerce_float (jget d ''recommended_allocation_pct'') = Inr (dn_recommended_allocation_pct rd)"
    "dn_extra rd = without KNOWN_KEYS d"
proof -
  from assms obtain d where raw: "raw = JObj d" and obj: "parse_object rp h d = Inr rd"
    by (auto simp: parse_research_decision_def split: json.splits)
  from obj obtain hdr pos ivs gate rc a where hdr: "header_of rp d = Inr hdr" and hm: "hash_matches rp h d"
    and fill: "fill_decision rp h d pos rc ivs gate hdr = Inr rd" and act: "decision_action rd = Inr a"
    by (rule parse_object_steps)
  obtain t e r dr q where h: "hdr = (t, e, r, dr, q)" by (cases hdr)
  note f = fill_decision_fields [OF fill [unfolded h]] and g = header_of_facts [OF hdr [unfolded h]]
  show thesis
    by (rule that [OF raw hm]) (use f g act decision_action_valid [OF act] in simp_all)
qed

section \<open>Hash pinning\<close>

definition stamped :: "json_hash \<Rightarrow> (string \<times> json) list \<Rightarrow> (string \<times> json) list" where
  \<comment> \<open>an artifact that declares its own hash\<close>
  "stamped h raw = without [''decision_hash''] raw @ [(''decision_hash'', JStr (''sha256:'' @ body_hash h raw))]"

lemma body_hash_stamped [simp]: "body_hash h (stamped h raw) = body_hash h raw"
  by (simp add: body_hash_def stamped_def) (simp add: without_def)

lemma jget_stamped: "k \<noteq> ''decision_hash'' \<Longrightarrow> jget (stamped h raw) k = jget raw k"
  by (simp add: stamped_def jget_append map_of_without) (simp add: jget_def)

lemma jget_stamped_hash: "jget (stamped h raw) ''decision_hash'' = JStr (''sha256:'' @ body_hash h raw)"
  by (simp add: stamped_def jget_append map_of_without) (simp add: jget_def)

lemma stamped_matches: "hash_matches rp h (stamped h raw)"
  unfolding hash_matches_def jget_stamped_hash Let_def py_str.simps removeprefix_simps by simp

lemma KNOWN_decision_hash: "''decision_hash'' \<in> set KNOWN_KEYS"
  by (simp add: KNOWN_KEYS_def)

lemma without_stamped: "without KNOWN_KEYS (stamped h raw) = without KNOWN_KEYS raw"
  using KNOWN_decision_hash by (simp add: stamped_def) (auto simp: without_def intro: filter_cong)

lemma parse_stamped:
  assumes "parse_object rp h raw = Inr rd"
  shows "parse_object rp h (stamped h raw) = Inr rd"
proof -
  note j = jget_stamped [of _ h raw]
  have hdr: "header_of rp (stamped h raw) = header_of rp raw"
    and ivs: "invalidations_of (stamped h raw) = invalidations_of raw"
    and gate: "risk_gate_of rp (stamped h raw) = risk_gate_of rp raw"
    by (simp_all add: header_of_def invalidations_of_def risk_gate_of_def j cong: if_cong)
  have fill: "fill_decision rp h (stamped h raw) = fill_decision rp h raw"
    by (simp add: fill_decision_def j without_stamped fun_eq_iff cong: if_cong)
  from assms show ?thesis
    by (rule parse_object_steps) (simp add: parse_object_def hdr ivs gate fill j stamped_matches)
qed

section \<open>Normalisation\<close>

lemma clamp01_cases: "clamp01 x = Fin (case x of Fin r \<Rightarrow> max 0 (min 1 r) | PInf \<Rightarrow> 1 | NInf \<Rightarrow> 0 | NaN \<Rightarrow> 1)"
  by (cases x) (simp_all add: clamp01_def fp_simps, simp_all add: pymin_def pymax_def fp_simps)

lemma round_digits_unit:
  assumes "0 \<le> x" "x \<le> 1" shows "0 \<le> round_digits n x" "round_digits n x \<le> 1"
proof -
  have "0 \<le> x * 10 ^ n" "x * 10 ^ n \<le> 10 ^ n" using assms by (simp_all add: mult_left_le_one_le)
  then have "0 \<le> round_half_even (x * 10 ^ n)" and up: "round_half_even (x * 10 ^ n) \<le> 10 ^ n"
    using round_half_even_ge [of 0 "x * 10 ^ n"] round_half_even_le [of "x * 10 ^ n" "10 ^ n"] by simp_all
  then show "0 \<le> round_digits n x" by (simp add: round_digits_def)
  from up have "of_int (round_half_even (x * 10 ^ n)) \<le> (10 ^ n :: real)"
    by (metis of_int_le_iff of_int_numeral of_int_power)
  then show "round_digits n x \<le> 1" by (simp add: round_digits_def divide_le_eq)
qed

lemma target_share_unit: "\<exists>r. target_share rd = Fin r \<and> 0 \<le> r \<and> r \<le> 1"
  by (auto simp: target_share_def clamp01_cases split: option.split pyfloat.split)

lemma contract_fields:
  assumes "build_signal_contract rp rd expiry now equity = Inr c"
  shows "decision_action rd = Inr (sc_action c)" "sc_symbol c = dn_ticker rd"
    "sc_decision_hash c = dn_decision_hash rd" "sc_target_pct c = round_to 6 (target_share rd)"
    "sc_target_notional_usd c = map_option (round_to 2) (case dn_target_notional rd of
        Some n \<Rightarrow> Some n | None \<Rightarrow> map_option (\<lambda>e. target_share rd * e) equity)"
    "sc_stop_price c = dn_stop_loss rd"
  using assms by (auto simp: build_signal_contract_def contract_of_def Let_def rbind_Inr_iff rmap_Inr_iff)

text \<open>An allocation that is not a number is read as the whole book.\<close>

lemma NaN_allocation_is_everything:
  "dn_recommended_allocation_pct rd = Some NaN \<Longrightarrow> target_share rd = Fin 1"
  by (simp add: target_share_def clamp01_cases)

text \<open>A score that is no number raises where nothing catches it.\<close>

lemma bad_score_raises:
  assumes "decision_action rd = Inr a" "jget (dn_extra rd) ''score'' = JStr ''high''"
  shows "build_signal_contract rp rd expiry now equity = Inl ValueError"
proof -
  have "float_of_text ''high'' = None" by code_simp
  with assms show ?thesis by (simp add: build_signal_contract_def contract_of_def extra_float_def)
qed

end
