(* ===== verification/Contracts.thy ===== *)
theory Contracts
  imports Schema
begin

text \<open>
  \<open>signald/contracts.py\<close>: the boundary every dropped artifact passes. Validation returns the version
  or raises an \<open>EnvelopeError\<close> with its reason code; the two other exceptions it can raise (a naive
  and an aware stamp compared, a stamp at the end of time) are values here as well. The offset of the
  host's local time at a wall time is the argument \<open>loc\<close>.
\<close>

section \<open>Versions\<close>

type_synonym version = "int \<times> int \<times> int"

definition envelope_check :: "bool \<Rightarrow> string \<Rightarrow> unit res" where
  "envelope_check ok code = (if ok then Inr () else Inl (EnvelopeError code))"

definition SUPPORTED_MAJOR :: "int list" where "SUPPORTED_MAJOR = [1]"
definition TRADE_PERMISSIONS :: "string list" where "TRADE_PERMISSIONS = [''ALLOW'', ''REDUCE'', ''BLOCK'']"
definition ENVELOPE_SLEEVES :: "string list" where "ENVELOPE_SLEEVES = [''swing'', ''intraday'']"
definition ENVELOPE_ACTIONS :: "string list" where
  "ENVELOPE_ACTIONS = [''BUY'', ''HOLD'', ''REDUCE'', ''EXIT'', ''NONE'']"

definition semver_parts :: "string \<Rightarrow> version res" where
  "semver_parts t =
     (let parts = split_on CHR ''.'' t; ds = map digits_val parts in
      if 3 < length parts \<or> None \<in> set ds then Inl (EnvelopeError ''invalid_version'')
      else (case map the ds @ [0, 0, 0] of
          a # b # c # _ \<Rightarrow> Inr (a, b, c) | _ \<Rightarrow> Inl (EnvelopeError ''invalid_version'')))"

definition parse_semver :: "(json \<Rightarrow> string) \<Rightarrow> json \<Rightarrow> version res" where
  "parse_semver rp v =
     (case v of
        JBool _ \<Rightarrow> Inl (EnvelopeError ''invalid_version'')
      | JInt n \<Rightarrow> Inr (n, 0, 0)
      | _ \<Rightarrow> (let t = strip (or_str rp v) in
               if t = [] then Inl (EnvelopeError ''invalid_version'') else semver_parts t))"

definition check_compatibility :: "(json \<Rightarrow> string) \<Rightarrow> json \<Rightarrow> version res" where
  "check_compatibility rp v =
     rbind (parse_semver rp v) (\<lambda>(a, b, c).
       if a \<notin> set SUPPORTED_MAJOR then Inl (EnvelopeError ''unknown_major'') else Inr (a, b, c))"

fun is_v11 :: "version \<Rightarrow> bool" where
  "is_v11 (a, b, c) \<longleftrightarrow> 1 < a \<or> a = 1 \<and> (1 < b \<or> b = 1 \<and> 0 \<le> c)"

section \<open>UUIDs\<close>

fun remove_all :: "string \<Rightarrow> string \<Rightarrow> string" where
  \<comment> \<open>\<open>text.replace(p, "")\<close> of a non-empty \<open>p\<close>\<close>
  "remove_all p [] = []"
| "remove_all p (x # xs) =
     (if take (length p) (x # xs) = p then remove_all p (drop (length p - 1) xs) else x # remove_all p xs)"

definition strip_braces :: "string \<Rightarrow> string" where
  "strip_braces s =
     (let P = (\<lambda>c. c = CHR ''{'' \<or> c = CHR ''}'') in rev (dropWhile P (rev (dropWhile P s))))"

definition hex_digit :: "char \<Rightarrow> int option" where
  "hex_digit c =
     (if is_digit c then Some (digit_val c)
      else if CHR ''a'' \<le> c \<and> c \<le> CHR ''f'' then Some (of_char c - 87)
      else if CHR ''A'' \<le> c \<and> c \<le> CHR ''F'' then Some (of_char c - 55) else None)"

fun hex_val :: "int \<Rightarrow> bool \<Rightarrow> string \<Rightarrow> int option" where
  \<comment> \<open>digits with single underscores between them; the flag says that a digit came last\<close>
  "hex_val acc digit [] = (if digit then Some acc else None)"
| "hex_val acc digit (c # cs) =
     (if c = CHR ''_'' then (if digit then hex_val acc False cs else None)
      else (case hex_digit c of None \<Rightarrow> None | Some d \<Rightarrow> hex_val (16 * acc + d) True cs))"

definition hex_unsigned :: "string \<Rightarrow> int option" where
  "hex_unsigned s =
     (if str_lower (take 2 s) = ''0x''
      then hex_val 0 False (if take 1 (drop 2 s) = ''_'' then drop 3 s else drop 2 s)
      else hex_val 0 False s)"

definition hex_of_text :: "string \<Rightarrow> int option" where
  \<comment> \<open>\<open>int(text, 16)\<close>\<close>
  "hex_of_text s =
     (case strip s of
        [] \<Rightarrow> None
      | c # cs \<Rightarrow> if c = CHR ''-'' then map_option uminus (hex_unsigned cs)
                 else if c = CHR ''+'' then hex_unsigned cs else hex_unsigned (c # cs))"

definition uuid_int :: "string \<Rightarrow> int option" where
  "uuid_int s =
     (let hex = filter (\<lambda>c. c \<noteq> CHR ''-'') (strip_braces (remove_all ''uuid:'' (remove_all ''urn:'' s))) in
      if length hex \<noteq> 32 then None
      else (case hex_of_text hex of Some n \<Rightarrow> if 0 \<le> n then Some n else None | None \<Rightarrow> None))"

definition is_uuid4 :: "string \<Rightarrow> bool" where
  \<comment> \<open>it parses, its variant is that of RFC 4122 and its version 4\<close>
  "is_uuid4 s \<longleftrightarrow>
     (case uuid_int s of
        None \<Rightarrow> False | Some n \<Rightarrow> n div 2 ^ 62 mod 4 = 2 \<and> n div 2 ^ 76 mod 16 = 4)"

section \<open>Fields\<close>

definition require_str :: "(json \<Rightarrow> string) \<Rightarrow> (string \<times> json) list \<Rightarrow> string \<Rightarrow> unit res" where
  "require_str rp raw k =
     envelope_check (jget raw k \<noteq> JNull \<and> strip (py_str rp (jget raw k)) \<noteq> []) ''missing_field''"

definition parse_iso_field :: "(json \<Rightarrow> string) \<Rightarrow> bool \<Rightarrow> json \<Rightarrow> datetime res" where
  "parse_iso_field rp require_offset v =
     (let t = strip (or_str rp v) in
      if t = [] then Inl (EnvelopeError ''missing_field'')
      else (case parse_stamp t of
          None \<Rightarrow> Inl (EnvelopeError ''invalid_timestamp'')
        | Some stamp \<Rightarrow>
            if require_offset \<and> utc_off stamp = None then Inl (EnvelopeError ''naive_timestamp'')
            else Inr stamp))"

definition optional_iso :: "(json \<Rightarrow> string) \<Rightarrow> bool \<Rightarrow> json \<Rightarrow> datetime option res" where
  "optional_iso rp strict v = (if json_truthy v then rmap Some (parse_iso_field rp strict v) else Inr None)"

definition check_closed :: "(json \<Rightarrow> string) \<Rightarrow> json \<Rightarrow> string list \<Rightarrow> unit res" where
  "check_closed rp v allowed = envelope_check (v = JNull \<or> strip (py_str rp v) \<in> set allowed) ''invalid_enum''"

definition artifact_body :: "(string \<times> json) list \<Rightarrow> json" where
  "artifact_body raw = JObj (without [''artifact_sha256'', ''decision_hash''] raw)"

definition verify_artifact_hash ::
  "(json \<Rightarrow> string) \<Rightarrow> json_hash \<Rightarrow> (string \<times> json) list \<Rightarrow> unit res" where
  "verify_artifact_hash rp h raw =
     (let declared = strip (or_str rp (jget raw ''artifact_sha256'')) in
      if declared = [] then Inl (EnvelopeError ''missing_field'')
      else envelope_check (removeprefix ''sha256:'' declared = sha256_of h (artifact_body raw))
             ''artifact_hash_mismatch'')"

definition number_check :: "json \<Rightarrow> (pyfloat \<Rightarrow> bool) \<Rightarrow> string \<Rightarrow> unit res" where
  "number_check v ok code =
     (if v = JNull then Inr ()
      else (case float_of_json v of
          Inl _ \<Rightarrow> Inl (EnvelopeError code) | Inr x \<Rightarrow> envelope_check (ok x) code))"

section \<open>Validation\<close>

definition as_aware :: "(int \<Rightarrow> int) \<Rightarrow> datetime \<Rightarrow> int res" where
  \<comment> \<open>the UTC instant; a naive stamp is read in the host's local time\<close>
  "as_aware loc t =
     (let instant = wall_us t - (case utc_off t of Some off \<Rightarrow> off | None \<Rightarrow> loc (wall_us t)) in
      if us_per_day \<le> instant \<and> instant < 3652060 * us_per_day then Inr instant else Inl OverflowError)"

definition check_enums :: "(json \<Rightarrow> string) \<Rightarrow> (string \<times> json) list \<Rightarrow> unit res" where
  "check_enums rp raw =
     rbind (check_closed rp (jget raw ''direction'') VALID_DIRECTIONS) (\<lambda>_.
     rbind (check_closed rp (jget raw ''action'') ENVELOPE_ACTIONS) (\<lambda>_.
     rbind (check_closed rp (jget raw ''trade_permission'') TRADE_PERMISSIONS) (\<lambda>_.
     rbind (envelope_check (jget raw ''trade_permission'' = JNull) ''producer_set_permission'') (\<lambda>_.
     rbind (check_closed rp (jget raw ''sleeve'') ENVELOPE_SLEEVES) (\<lambda>_.
     (let quality = jget raw ''data_quality'' in
      check_closed rp (if json_truthy quality then JStr (str_lower (strip (py_str rp quality))) else JNull)
        VALID_DATA_QUALITY))))))"

definition check_action :: "(json \<Rightarrow> string) \<Rightarrow> (string \<times> json) list \<Rightarrow> unit res" where
  "check_action rp raw =
     (let direction = str_lower (strip (or_str rp (jget raw ''direction'')));
          rating = str_lower (strip (or_str rp (jget raw ''rating'')))
      in envelope_check (direction \<in> fst ` set DIRECTION_TO_ACTION \<or> rating \<in> fst ` set RATING_TO_DIRECTION)
           ''unresolvable_action'')"

definition check_producer :: "(json \<Rightarrow> string) \<Rightarrow> (string \<times> json) list \<Rightarrow> unit res" where
  "check_producer rp raw =
     envelope_check (case jget raw ''producer'' of
         JObj p \<Rightarrow> strip (or_str rp (jget p ''service'')) \<noteq> [] | _ \<Rightarrow> False) ''invalid_producer''"

definition check_v11 :: "(json \<Rightarrow> string) \<Rightarrow> json_hash \<Rightarrow> (string \<times> json) list \<Rightarrow> unit res" where
  "check_v11 rp h raw =
     rbind (envelope_check (\<forall>k \<in> set [''expires_at'', ''idempotency_key'', ''producer'', ''artifact_sha256''].
              json_truthy (jget raw k)) ''missing_field'') (\<lambda>_.
     rbind (envelope_check (is_uuid4 (strip (py_str rp (jget raw ''idempotency_key'')))) ''invalid_idempotency_key'')
       (\<lambda>_. rbind (check_producer rp raw) (\<lambda>_. verify_artifact_hash rp h raw)))"

definition check_expiry ::
  "(json \<Rightarrow> string) \<Rightarrow> (int \<Rightarrow> int) \<Rightarrow> datetime \<Rightarrow> bool \<Rightarrow> json \<Rightarrow> datetime \<Rightarrow> unit res" where
  "check_expiry rp loc now strict produced_at expired =
     rbind (optional_iso rp strict produced_at) (\<lambda>produced.
     rbind (case produced of None \<Rightarrow> Inr ()
            | Some p \<Rightarrow> rbind (dt_diff_us expired p) (\<lambda>d. envelope_check (\<not> d < 0) ''invalid_timestamp'')) (\<lambda>_.
     rbind (as_aware loc now) (\<lambda>n.
     rbind (as_aware loc expired) (\<lambda>e. envelope_check (\<not> e < n) ''expired''))))"

definition validate_object ::
  "(json \<Rightarrow> string) \<Rightarrow> json_hash \<Rightarrow> (int \<Rightarrow> int) \<Rightarrow> datetime \<Rightarrow> (string \<times> json) list \<Rightarrow> version res" where
  "validate_object rp h loc now raw =
     rbind (check_compatibility rp (case map_of raw ''schema_version'' of Some v \<Rightarrow> v | None \<Rightarrow> JInt 1)) (\<lambda>version.
     rbind (require_str rp raw ''ticker'') (\<lambda>_.
     rbind (check_enums rp raw) (\<lambda>_.
     rbind (check_action rp raw) (\<lambda>_.
     rbind (number_check (jget raw ''opportunity_score'') (\<lambda>x. 0 \<le> x \<and> x \<le> Fin 100) ''invalid_opportunity_score'') (\<lambda>_.
     rbind (number_check (jget raw ''net_beta'') (\<lambda>_. True) ''invalid_net_beta'') (\<lambda>_.
     rbind (optional_iso rp (is_v11 version) (jget raw ''expires_at'')) (\<lambda>expired.
     rbind (if is_v11 version then check_v11 rp h raw else Inr ()) (\<lambda>_.
     rmap (\<lambda>_. version)
       (case expired of None \<Rightarrow> Inr ()
        | Some e \<Rightarrow> check_expiry rp loc now (is_v11 version) (jget raw ''produced_at'') e)))))))))"

definition validate_envelope ::
  "(json \<Rightarrow> string) \<Rightarrow> json_hash \<Rightarrow> (int \<Rightarrow> int) \<Rightarrow> datetime \<Rightarrow> json \<Rightarrow> version res" where
  "validate_envelope rp h loc now raw =
     (case raw of JObj d \<Rightarrow> validate_object rp h loc now d | _ \<Rightarrow> Inl (EnvelopeError ''not_an_object''))"

section \<open>Dead letters\<close>

definition compact_stamp :: "datetime \<Rightarrow> string" where
  \<comment> \<open>\<open>now.strftime("%Y%m%dT%H%M%S")\<close>\<close>
  "compact_stamp t =
     (let (y, m, d) = ymd_of (date_of t); s = time_of t div 1000000 in
      pad4 y @ pad2 m @ pad2 d @ ''T'' @ pad2 (s div 3600) @ pad2 (s div 60 mod 60) @ pad2 (s mod 60))"

record DeadLetter =
  dl_name :: string \<comment> \<open>the stem of the payload and of its sidecar\<close>
  dl_body :: json
  dl_reason_code :: string
  dl_received_at :: string
  dl_source :: string
  dl_producer :: "string option"

definition dead_letter ::
  "json \<Rightarrow> string \<Rightarrow> string \<Rightarrow> string \<Rightarrow> datetime \<Rightarrow> string option \<Rightarrow> DeadLetter" where
  "dead_letter raw code source stem now producer =
     \<lparr>dl_name = stem @ ''-'' @ compact_stamp now @ ''-'' @ code, dl_body = canon raw, dl_reason_code = code,
      dl_received_at = isoformat_seconds now, dl_source = source, dl_producer = producer\<rparr>"

section \<open>What an accepted envelope is\<close>

lemma envelope_check_iff [ok_iff]: "envelope_check b c = Inr u \<longleftrightarrow> b"
  by (simp add: envelope_check_def)

lemma closed_iff [ok_iff]: "check_closed rp v allowed = Inr u \<longleftrightarrow> v = JNull \<or> strip (py_str rp v) \<in> set allowed"
  by (simp add: check_closed_def ok_iff)

lemma number_check_iff [ok_iff]:
  "number_check v ok code = Inr u \<longleftrightarrow> v = JNull \<or> (\<exists>x. float_of_json v = Inr x \<and> ok x)"
  by (auto simp: number_check_def ok_iff split: sum.splits)

lemma artifact_hash_iff [ok_iff]:
  "verify_artifact_hash rp h raw = Inr u \<longleftrightarrow> strip (or_str rp (jget raw ''artifact_sha256'')) \<noteq> []
     \<and> removeprefix ''sha256:'' (strip (or_str rp (jget raw ''artifact_sha256''))) = sha256_of h (artifact_body raw)"
  by (simp add: verify_artifact_hash_def Let_def ok_iff)

lemma parse_iso_field_iff [ok_iff]:
  "parse_iso_field rp strict v = Inr t \<longleftrightarrow>
     strip (or_str rp v) \<noteq> [] \<and> parse_stamp (strip (or_str rp v)) = Some t \<and> (strict \<longrightarrow> utc_off t \<noteq> None)"
  by (auto simp: parse_iso_field_def Let_def split: option.splits)

lemma optional_iso_iff [ok_iff]:
  "optional_iso rp strict v = Inr x \<longleftrightarrow>
     (if json_truthy v then \<exists>t. x = Some t \<and> parse_iso_field rp strict v = Inr t else x = None)"
  by (auto simp: optional_iso_def rmap_Inr_iff)

lemma semver_major: "check_compatibility rp v = Inr ver \<Longrightarrow> fst ver = 1"
  by (auto simp: check_compatibility_def ok_iff SUPPORTED_MAJOR_def split: if_splits)

lemma validated:
  assumes "validate_envelope rp h loc now raw = Inr ver"
  obtains d expired where "raw = JObj d" "fst ver = 1" "require_str rp d ''ticker'' = Inr ()"
    "check_enums rp d = Inr ()" "check_action rp d = Inr ()"
    "number_check (jget d ''opportunity_score'') (\<lambda>x. 0 \<le> x \<and> x \<le> Fin 100) ''invalid_opportunity_score'' = Inr ()"
    "optional_iso rp (is_v11 ver) (jget d ''expires_at'') = Inr expired"
    "is_v11 ver \<Longrightarrow> check_v11 rp h d = Inr ()"
    "\<And>e. expired = Some e \<Longrightarrow> check_expiry rp loc now (is_v11 ver) (jget d ''produced_at'') e = Inr ()"
proof -
  from assms obtain d where raw: "raw = JObj d" and v: "validate_object rp h loc now d = Inr ver"
    by (auto simp: validate_envelope_def split: json.splits)
  from v show thesis
    unfolding validate_object_def
    by (elim rbind_InrE rmap_InrE, intro that [OF raw]) (auto dest: semver_major split: option.splits if_splits)
qed

lemma not_expired:
  assumes "check_expiry rp loc now strict p e = Inr ()"
  shows "\<exists>a b. as_aware loc now = Inr a \<and> as_aware loc e = Inr b \<and> a \<le> b"
  using assms unfolding check_expiry_def
  by (elim rbind_InrE) (auto simp: envelope_check_iff not_less)

lemma aware_iff: "as_aware loc t = Inr i \<Longrightarrow> utc_off t = Some off \<Longrightarrow> i = wall_us t - off"
  by (auto simp: as_aware_def Let_def split: if_splits)

lemma resolvable_action:
  "d \<in> fst ` set DIRECTION_TO_ACTION \<or> r \<in> fst ` set RATING_TO_DIRECTION \<Longrightarrow> action_for d r \<noteq> None"
  by (auto simp: action_for_def DIRECTION_TO_ACTION_def RATING_TO_DIRECTION_def)

section \<open>Which exceptions reach the caller\<close>

lemma float_of_json_error: "float_of_json v = Inl e \<Longrightarrow> e \<in> {ValueError, TypeError}"
  by (cases v) (auto split: option.splits)

lemma envelope_check_Inl: "envelope_check b c = Inl e \<Longrightarrow> e = EnvelopeError c"
  by (simp add: envelope_check_def split: if_splits)

definition envelope_error :: "exc \<Rightarrow> bool" where
  "envelope_error e \<longleftrightarrow> (\<exists>c. e = EnvelopeError c)"

named_theorems raises \<open>which exceptions an operation can raise\<close>

lemma simple_raises [raises]:
  "envelope_check b c = Inl e \<Longrightarrow> envelope_error e"
  "check_closed rp v allowed = Inl e \<Longrightarrow> envelope_error e"
  "number_check v ok c = Inl e \<Longrightarrow> envelope_error e"
  "require_str rp raw k = Inl e \<Longrightarrow> envelope_error e"
  "verify_artifact_hash rp h raw = Inl e \<Longrightarrow> envelope_error e"
  "parse_iso_field rp strict v = Inl e \<Longrightarrow> envelope_error e"
  "optional_iso rp strict v = Inl e \<Longrightarrow> envelope_error e"
  "check_compatibility rp v = Inl e \<Longrightarrow> envelope_error e"
  "check_action rp raw = Inl e \<Longrightarrow> envelope_error e"
  "check_producer rp raw = Inl e \<Longrightarrow> envelope_error e"
  by (auto simp: envelope_error_def envelope_check_def check_closed_def number_check_def require_str_def
      verify_artifact_hash_def Let_def parse_iso_field_def optional_iso_def rmap_Inl_iff rbind_Inl_iff
      check_compatibility_def parse_semver_def semver_parts_def check_action_def check_producer_def
      split: if_splits sum.splits option.splits json.splits list.splits)

lemma group_raises [raises]:
  "check_enums rp raw = Inl e \<Longrightarrow> envelope_error e"
  "check_v11 rp h raw = Inl e \<Longrightarrow> envelope_error e"
  by (auto simp: check_enums_def check_v11_def rbind_Inl_iff Let_def intro: simple_raises)

lemma as_aware_raises: "as_aware loc t = Inl e \<Longrightarrow> e = OverflowError"
  by (simp add: as_aware_def Let_def split: if_splits)

lemma dt_diff_raises: "dt_diff_us a b = Inl e \<Longrightarrow> e = TypeError \<and> (utc_off a = None) \<noteq> (utc_off b = None)"
  by (auto simp: dt_diff_us_def split: option.splits)

lemma produced_raises:
  assumes "(case produced of None \<Rightarrow> Inr ()
      | Some q \<Rightarrow> rbind (dt_diff_us x q) (\<lambda>d. envelope_check (\<not> d < 0) c)) = Inl e"
  shows "envelope_error e \<or> e = TypeError \<and> (\<exists>q. produced = Some q \<and> (utc_off x = None) \<noteq> (utc_off q = None))"
  using assms
  by (cases produced; simp; elim rbind_InlE) (auto dest: dt_diff_raises simple_raises)

lemma check_expiry_raises:
  assumes "check_expiry rp loc now strict p x = Inl e" "strict \<longrightarrow> utc_off x \<noteq> None"
  shows "envelope_error e \<or> e = OverflowError \<or> e = TypeError \<and> \<not> strict"
proof -
  have aware: "utc_off q \<noteq> None" if "optional_iso rp strict p = Inr (Some q)" strict for q
    using that by (auto simp: ok_iff split: if_splits)
  from assms(1) show ?thesis
    unfolding check_expiry_def
    by (elim rbind_InlE) (use assms(2) aware in \<open>auto dest!: produced_raises simple_raises as_aware_raises\<close>)
qed

lemma validate_raises:
  assumes "validate_envelope rp h loc now raw = Inl e"
  shows "envelope_error e \<or> e = OverflowError
    \<or> e = TypeError \<and> (\<exists>d ver. raw = JObj d \<and> check_compatibility rp
         (case map_of d ''schema_version'' of Some v \<Rightarrow> v | None \<Rightarrow> JInt 1) = Inr ver \<and> \<not> is_v11 ver)"
proof (cases raw)
  case (JObj d)
  with assms have v: "validate_object rp h loc now d = Inl e" by (simp add: validate_envelope_def)
  have last: "envelope_error e \<or> e = OverflowError \<or> e = TypeError \<and> \<not> strict"
    if "optional_iso rp strict x = Inr expired" "rmap (\<lambda>_. ver) (case expired of None \<Rightarrow> Inr ()
        | Some t \<Rightarrow> check_expiry rp loc now strict p t) = Inl e" for strict x expired ver p
    using that check_expiry_raises [of rp loc now strict p _ e]
    by (auto simp: rmap_Inl_iff ok_iff split: option.splits if_splits)
  have v11: "envelope_error e" if "(if b then check_v11 rp h d else Inr ()) = Inl e" for b
    using that by (auto split: if_splits intro: group_raises)
  from v show ?thesis
    unfolding validate_object_def
    by (elim rbind_InlE) (use JObj in \<open>auto simp del: is_v11.simps dest: v11 last simple_raises group_raises\<close>)
qed (use assms in \<open>auto simp: validate_envelope_def envelope_error_def\<close>)

text \<open>Under the older version an aware expiry and a naive production stamp cannot be compared.\<close>

lemma mixed_stamps_raise:
  assumes "utc_off e \<noteq> None"
  shows "check_expiry rp loc now False (JStr ''2026-01-01T00:00:00'') e = Inl TypeError"
proof -
  have "parse_stamp (strip ''2026-01-01T00:00:00'') = Some \<lparr>wall_us = 739617 * us_per_day, utc_off = None\<rparr>"
    "strip ''2026-01-01T00:00:00'' \<noteq> []" by code_simp+
  then have "optional_iso rp False (JStr ''2026-01-01T00:00:00'')
      = Inr (Some \<lparr>wall_us = 739617 * us_per_day, utc_off = None\<rparr>)"
    by (simp add: optional_iso_def parse_iso_field_def)
  with assms show ?thesis by (auto simp: check_expiry_def dt_diff_us_def)
qed

end
