(* ===== verification/Inbox.thy ===== *)
theory Inbox
  imports Contracts Stores Interfaces
begin

text \<open>
  \<open>signald/inbox.py\<close>: the dedupe table and boundary validation in front of the processor. The table is
  an append-only file whose last row of a key is its state; \<open>accepts_once\<close> interprets the locale
  \<open>once_only\<close> on it. An artifact is a file: its path, name and stem, what reading it gives, and the
  identity (time and size) its \<open>stat\<close> gives.
\<close>

section \<open>State\<close>

record artifact_file =
  af_path :: string
  af_name :: string
  af_stem :: string
  af_utf8 :: bool \<comment> \<open>whether its bytes are UTF-8, which reading it does not handle\<close>
  af_body :: "json option option" \<comment> \<open>\<open>None\<close> where it cannot be read, \<open>Some None\<close> where it is no JSON\<close>
  af_stat :: "string option" \<comment> \<open>the text \<open>mtime_ns:size\<close>\<close>

type_synonym ledger_event = "string \<times> (string \<times> json) list" \<comment> \<open>kind and data\<close>

record quarantined =
  qu_name :: string
  qu_body :: "(string \<times> json) list"
  qu_reason_code :: string
  qu_key :: "string option"

record Inbox =
  ib_path :: string
  ib_rows :: jsonl
  ib_dead :: "DeadLetter list"
  ib_quarantined :: "quarantined list"
  ib_audit :: "ledger_event list"

datatype admission_kind = Accepted | Deduped | DeadLettered

record Admission =
  ad_kind :: admission_kind
  ad_key :: string
  ad_raw :: "(string \<times> json) list option"
  ad_reason_code :: "string option"

section \<open>The dedupe table\<close>

definition keyed_rows :: "jsonl \<Rightarrow> (string \<times> json) list list" where
  \<comment> \<open>\<open>_rows\<close>: objects with a key\<close>
  "keyed_rows f = List.map_filter (\<lambda>v. case v of JObj d \<Rightarrow> if json_truthy (jget d ''key'') then Some d else None
     | _ \<Rightarrow> None) (json_rows f)"

definition inbox_row_state :: "(json \<Rightarrow> string) \<Rightarrow> (string \<times> json) list \<Rightarrow> string" where
  "inbox_row_state rp d = py_str rp (json_or (jget d ''state'') (JStr ''admitted''))"

definition state_of :: "(json \<Rightarrow> string) \<Rightarrow> string \<Rightarrow> jsonl \<Rightarrow> string option" where
  "state_of rp key f =
     foldl (\<lambda>st d. if jget d ''key'' = JStr key then Some (inbox_row_state rp d) else st) None (keyed_rows f)"

definition seen_key :: "(json \<Rightarrow> string) \<Rightarrow> string \<Rightarrow> jsonl \<Rightarrow> bool" where
  "seen_key rp key f \<longleftrightarrow> state_of rp key f \<noteq> None"

definition row_keys :: "jsonl \<Rightarrow> json list" where
  "row_keys f = map (\<lambda>d. jget d ''key'') (keyed_rows f)"

definition pending_keys :: "(json \<Rightarrow> string) \<Rightarrow> jsonl \<Rightarrow> string list res" where
  \<comment> \<open>the keys whose last state is \<open>admitted\<close>, sorted; the program writes no key that is not a text\<close>
  "pending_keys rp f =
     (case texts_of (row_keys f) of
        None \<Rightarrow> Inl TypeError
      | Some ks \<Rightarrow> Inr (sort (filter (\<lambda>k. state_of rp k f = Some ''admitted'') (remdups ks))))"

definition producer_of :: "(string \<times> json) list \<Rightarrow> (string \<times> json) list" where
  "producer_of raw = (case jget raw ''producer'' of JObj p \<Rightarrow> p | _ \<Rightarrow> [])"

definition key_for :: "(json \<Rightarrow> string) \<Rightarrow> json_hash \<Rightarrow> (string \<times> json) list \<Rightarrow> string" where
  "key_for rp h raw =
     (let p = producer_of raw; service = strip (or_str rp (jget p ''service''));
          run_id = strip (or_str rp (jget p ''run_id'')); artifact = strip (or_str rp (jget raw ''artifact_sha256''));
          decision = strip (or_str rp (jget raw ''decision_hash''))
      in if service \<noteq> [] \<and> run_id \<noteq> [] \<and> artifact \<noteq> []
         then service @ '':'' @ run_id @ '':'' @ removeprefix ''sha256:'' artifact
         else if decision \<noteq> [] then removeprefix ''sha256:'' decision
         else sha256_of h (JObj raw))"

definition inbox_row ::
  "string \<Rightarrow> string \<Rightarrow> string \<Rightarrow> (string \<times> json) list option \<Rightarrow> string \<Rightarrow> (string \<times> json) list
     \<Rightarrow> (string \<times> json) list" where
  "inbox_row key st stamp raw source extra =
     (let body = (case raw of Some d \<Rightarrow> d | None \<Rightarrow> []) in
      [(''key'', JStr key), (''state'', JStr st), (''at'', JStr stamp), (''ticker'', jget body ''ticker''),
       (''decision_hash'', jget body ''decision_hash''), (''source'', JStr source)]
      @ filter (\<lambda>kv. snd kv \<notin> {JNull, JStr []}) extra)"

definition record_state ::
  "string \<Rightarrow> string \<Rightarrow> string \<Rightarrow> (string \<times> json) list option \<Rightarrow> string \<Rightarrow> (string \<times> json) list \<Rightarrow> Inbox \<Rightarrow> Inbox" where
  "record_state key st stamp raw source extra ib =
     ib\<lparr>ib_rows := append_line (inbox_row key st stamp raw source extra) (ib_rows ib)\<rparr>"

definition audit_inbox :: "string \<Rightarrow> string \<Rightarrow> string \<Rightarrow> (string \<times> json) list \<Rightarrow> Inbox \<Rightarrow> Inbox" where
  "audit_inbox kind key path extra ib =
     ib\<lparr>ib_audit := ib_audit ib @ [(kind, [(''key'', JStr key), (''path'', JStr path)] @ extra)]\<rparr>"

section \<open>Ingest\<close>

definition send_dead_letter ::
  "(json \<Rightarrow> string) \<Rightarrow> json_hash \<Rightarrow> datetime \<Rightarrow> (string \<times> json) list option \<Rightarrow> string \<Rightarrow> artifact_file
     \<Rightarrow> string option \<Rightarrow> string option \<Rightarrow> Inbox \<Rightarrow> Inbox \<times> Admission" where
  "send_dead_letter rp h now body code p producer key ib =
     (let letter = dead_letter (case body of Some d \<Rightarrow> JObj d | None \<Rightarrow> JObj [(''unreadable'', JStr (af_path p))])
            code (af_path p) (af_stem p) now producer;
          key = (case key of Some k \<Rightarrow> k
                 | None \<Rightarrow> (case body of Some (x # xs) \<Rightarrow> key_for rp h (x # xs)
                     | _ \<Rightarrow> ''unreadable:'' @ af_name p));
          ib1 = record_state key ''dead_lettered'' (isoformat_seconds now) body (af_path p)
                  [(''reason_code'', JStr code)] (ib\<lparr>ib_dead := ib_dead ib @ [letter]\<rparr>);
          ib2 = audit_inbox ''dead_lettered'' key (af_path p)
                  [(''reason_code'', JStr code), (''dead_letter'', JStr (dl_name letter))] ib1
      in (ib2, \<lparr>ad_kind = DeadLettered, ad_key = key, ad_raw = body, ad_reason_code = Some code\<rparr>))"

definition deduped :: "string \<Rightarrow> (string \<times> json) list option \<Rightarrow> Admission" where
  "deduped key raw = \<lparr>ad_kind = Deduped, ad_key = key, ad_raw = raw, ad_reason_code = None\<rparr>"

definition unreadable_key :: "artifact_file \<Rightarrow> string" where
  "unreadable_key p =
     ''unreadable:'' @ af_name p @ (case af_stat p of Some s \<Rightarrow> CHR '':'' # s | None \<Rightarrow> '':gone'')"

definition admit_body ::
  "(json \<Rightarrow> string) \<Rightarrow> json_hash \<Rightarrow> (int \<Rightarrow> int) \<Rightarrow> datetime \<Rightarrow> artifact_file \<Rightarrow> (string \<times> json) list \<Rightarrow> Inbox
     \<Rightarrow> Inbox \<times> Admission res" where
  \<comment> \<open>from the key on; only an \<open>EnvelopeError\<close> of the validation is caught\<close>
  "admit_body rp h loc now p body ib =
     (let key = key_for rp h body in
      case validate_envelope rp h loc now (JObj body) of
        Inl (EnvelopeError code) \<Rightarrow>
          if seen_key rp key (ib_rows ib) then (ib, Inr (deduped key (Some body)))
          else (let (ib', a) = send_dead_letter rp h now (Some body) code p
                  (some_text (or_str rp (jget (producer_of body) ''service''))) None ib in (ib', Inr a))
      | Inl e \<Rightarrow> (ib, Inl e)
      | Inr version \<Rightarrow>
          if seen_key rp key (ib_rows ib) then (ib, Inr (deduped key (Some body)))
          else (audit_inbox ''admitted'' key (af_path p) []
                  (record_state key ''admitted'' (isoformat_seconds now) (Some body) (af_path p)
                     [(''schema_version'', jget body ''schema_version'')] ib),
                Inr \<lparr>ad_kind = Accepted, ad_key = key, ad_raw = Some body, ad_reason_code = None\<rparr>))"

definition admit ::
  "(json \<Rightarrow> string) \<Rightarrow> json_hash \<Rightarrow> (int \<Rightarrow> int) \<Rightarrow> datetime \<Rightarrow> artifact_file \<Rightarrow> Inbox \<Rightarrow> Inbox \<times> Admission res" where
  "admit rp h loc now p ib =
     (if \<not> af_utf8 p then (ib, Inl ValueError)
      else case af_body p of
        Some (Some (JObj body)) \<Rightarrow> admit_body rp h loc now p body ib
      | _ \<Rightarrow> (let key = unreadable_key p in
          if seen_key rp key (ib_rows ib) then (ib, Inr (deduped key None))
          else (let (ib', a) = send_dead_letter rp h now None ''unreadable'' p None (Some key) ib in (ib', Inr a))))"

definition commit :: "(json \<Rightarrow> string) \<Rightarrow> datetime \<Rightarrow> string \<Rightarrow> string \<Rightarrow> Inbox \<Rightarrow> Inbox" where
  "commit rp now key signal_id ib =
     (if state_of rp key (ib_rows ib) = Some ''committed'' then ib
      else record_state key ''committed'' (isoformat_seconds now) None (ib_path ib)
             [(''signal_id'', JStr signal_id)] ib)"

definition quarantine ::
  "(json \<Rightarrow> string) \<Rightarrow> datetime \<Rightarrow> (string \<times> json) list \<Rightarrow> string \<Rightarrow> string \<Rightarrow> Inbox \<Rightarrow> Inbox" where
  "quarantine rp now envelope code key ib =
     (let name = py_str rp (json_or (jget envelope ''ticker'') (JStr ''unknown'')) @ ''-'' @ compact_stamp now
            @ ''-'' @ code
      in audit_inbox ''quarantined'' key name []
           (ib\<lparr>ib_quarantined := ib_quarantined ib @
                [\<lparr>qu_name = name, qu_body = envelope, qu_reason_code = code, qu_key = some_text key\<rparr>]\<rparr>))"

section \<open>The table after a row\<close>

lemma keyed_rows_append [simp]:
  "keyed_rows (append_line d f) = keyed_rows f @ (if json_truthy (jget d ''key'') then [d] else [])"
  by (simp add: keyed_rows_def List.map_filter_def)

lemma inbox_row_fields:
  "jget (inbox_row key st stamp raw source extra) ''key'' = JStr key"
  "jget (inbox_row key st stamp raw source extra) ''state'' = JStr st"
  by (simp_all add: inbox_row_def jget_def Let_def)

lemma state_of_record:
  assumes "key \<noteq> []" "st \<noteq> []"
  shows "state_of rp k (ib_rows (record_state key st stamp raw source extra ib))
    = (if k = key then Some st else state_of rp k (ib_rows ib))"
  using assms by (auto simp: state_of_def record_state_def inbox_row_fields inbox_row_state_def json_or_def)

lemma record_state_known:
  "seen_key rp k (ib_rows ib) \<Longrightarrow> seen_key rp k (ib_rows (record_state key st stamp raw source extra ib))"
  by (auto simp: seen_key_def state_of_def record_state_def inbox_row_fields)

lemma ib_rows_simps [simp]:
  "ib_rows (audit_inbox kind key path extra ib) = ib_rows ib"
  "ib_rows (quarantine rp now env code key ib) = ib_rows ib"
  by (simp_all add: audit_inbox_def quarantine_def Let_def)

lemma send_dead_letter_rows:
  assumes "send_dead_letter rp h now body code p producer key ib = (ib', a)"
  shows "ad_kind a = DeadLettered" "\<exists>k stamp raw src extra. ib_rows ib' = ib_rows (record_state k ''dead_lettered'' stamp raw src extra ib)"
proof -
  show "ad_kind a = DeadLettered" using assms by (auto simp: send_dead_letter_def Let_def)
  from assms have "ib' = fst (send_dead_letter rp h now body code p producer key ib)" by simp
  then have "ib_rows ib' = ib_rows (record_state (ad_key (snd (send_dead_letter rp h now body code p producer key ib)))
      ''dead_lettered'' (isoformat_seconds now) body (af_path p) [(''reason_code'', JStr code)] ib)"
    by (simp add: send_dead_letter_def Let_def record_state_def)
  then show "\<exists>k stamp raw src extra. ib_rows ib' = ib_rows (record_state k ''dead_lettered'' stamp raw src extra ib)"
    by blast
qed


section \<open>Effectively once\<close>

datatype inbox_op =
    Admit datetime artifact_file
  | Commit datetime string string
  | Quarantine datetime "(string \<times> json) list" string string

fun inbox_step :: "(json \<Rightarrow> string) \<Rightarrow> json_hash \<Rightarrow> (int \<Rightarrow> int) \<Rightarrow> Inbox \<Rightarrow> inbox_op \<Rightarrow> Inbox \<times> string option" where
  \<comment> \<open>an operation, and the key it admits\<close>
  "inbox_step rp h loc ib (Admit now p) =
     (case admit rp h loc now p ib of
        (ib', Inr a) \<Rightarrow> (ib', if ad_kind a = Accepted then Some (ad_key a) else None)
      | (ib', Inl _) \<Rightarrow> (ib', None))"
| "inbox_step rp h loc ib (Commit now key sid) = (commit rp now key sid ib, None)"
| "inbox_step rp h loc ib (Quarantine now env code key) = (quarantine rp now env code key ib, None)"

definition grows :: "jsonl \<Rightarrow> jsonl \<Rightarrow> bool" where
  "grows f f' \<longleftrightarrow> (\<exists>rows. f' = f @ rows)"

lemma grows_refl [simp]: "grows f f"
  by (simp add: grows_def)

lemma grows_trans [trans]: "grows f g \<Longrightarrow> grows g k \<Longrightarrow> grows f k"
  by (auto simp: grows_def)

lemma grows_append_line [simp]: "grows f (append_line d f)"
  by (simp add: grows_def append_line_def)

lemma grows_record [simp]: "grows (ib_rows ib) (ib_rows (record_state key st stamp raw source extra ib))"
  by (simp add: record_state_def)

lemma json_rows_app: "json_rows (f @ g) = json_rows f @ json_rows g"
  by (simp add: json_rows_def List.map_filter_def)

lemma keyed_rows_app: "keyed_rows (f @ g) = keyed_rows f @ keyed_rows g"
  by (simp add: keyed_rows_def json_rows_app List.map_filter_def)

lemma foldl_state_stays:
  "\<exists>y. foldl (\<lambda>st d. if P d then Some (g d) else st) (Some x) rows = Some y"
  by (induction rows arbitrary: x) auto

lemma seen_grows: "grows f f' \<Longrightarrow> seen_key rp k f \<Longrightarrow> seen_key rp k f'"
  by (auto simp: grows_def seen_key_def state_of_def keyed_rows_app foldl_state_stays)

lemma send_dead_letter_grows:
  "send_dead_letter rp h now body code p producer key ib = (ib', a) \<Longrightarrow> grows (ib_rows ib) (ib_rows ib')"
  by (drule send_dead_letter_rows(2)) auto

lemma commit_grows [simp]: "grows (ib_rows ib) (ib_rows (commit rp now key sid ib))"
  by (simp add: commit_def)

lemma admit_grows:
  assumes "admit rp h loc now p ib = (ib', r)"
  shows "grows (ib_rows ib) (ib_rows ib')"
  using assms
  by (auto simp: admit_def admit_body_def Let_def dest: send_dead_letter_grows
      split: option.splits json.splits sum.splits exc.splits if_splits prod.splits)

lemma admit_accepts:
  assumes "admit rp h loc now p ib = (ib', Inr a)" "ad_kind a = Accepted"
  obtains body ver where "af_utf8 p" "af_body p = Some (Some (JObj body))" "ad_key a = key_for rp h body"
    "validate_envelope rp h loc now (JObj body) = Inr ver" "\<not> seen_key rp (ad_key a) (ib_rows ib)"
    "ib_rows ib' = ib_rows (record_state (ad_key a) ''admitted'' (isoformat_seconds now) (Some body) (af_path p)
       [(''schema_version'', jget body ''schema_version'')] ib)"
proof -
  have no: "ad_kind b \<noteq> Accepted" if "send_dead_letter rp h now body code p producer key ib = (ib'', b)"
    for body code producer key ib'' b
    using send_dead_letter_rows(1) [OF that] by simp
  from assms obtain body where b: "af_utf8 p" "af_body p = Some (Some (JObj body))"
    by (auto simp: admit_def Let_def deduped_def dest: no split: option.splits json.splits if_splits prod.splits)
  with assms(1) have m: "admit_body rp h loc now p body ib = (ib', Inr a)" by (simp add: admit_def)
  with assms(2) obtain ver where v: "validate_envelope rp h loc now (JObj body) = Inr ver"
    by (auto simp: admit_body_def Let_def deduped_def dest: no split: sum.splits exc.splits if_splits prod.splits)
  with m assms(2) show thesis
    by (intro that [OF b _ v]) (auto simp: admit_body_def Let_def deduped_def split: if_splits)
qed

lemma admit_keeps_dedupe:
  assumes "admit rp h loc now p ib = (ib', Inr a)" "ad_kind a = Deduped"
  shows "ib' = ib"
proof -
  have no: "ad_kind b \<noteq> Deduped" if "send_dead_letter rp h now body code p producer key ib = (ib'', b)"
    for body code producer key ib'' b
    using send_dead_letter_rows(1) [OF that] by simp
  from assms show ?thesis
    by (auto simp: admit_def admit_body_def Let_def dest: no
        split: option.splits json.splits sum.splits exc.splits if_splits prod.splits)
qed

lemma inbox_step_grows: "grows (ib_rows ib) (ib_rows (fst (inbox_step rp h loc ib a)))"
  by (cases a) (auto dest: admit_grows split: prod.splits sum.splits)

lemma inbox_run_grows: "grows (ib_rows ib) (ib_rows (run_of (inbox_step rp h loc) ib as))"
  by (induction as arbitrary: ib) (auto intro: grows_trans inbox_step_grows)

text \<open>A row with an empty key is not read back, so the table keeps only the other keys apart.\<close>

interpretation accepts_once: once_only "only (\<lambda>k. k \<noteq> []) (inbox_step rp h loc)" "\<lambda>ib k. seen_key rp k (ib_rows ib)" for rp h loc
proof unfold_locales
  fix ib ib' a k out
  {
    assume "only (\<lambda>k. k \<noteq> []) (inbox_step rp h loc) ib a = (ib', Some k)"
    then have "inbox_step rp h loc ib a = (ib', Some k)" "k \<noteq> []"
      by (auto simp: only_def Let_def split: prod.splits option.splits if_splits)
    then obtain now p ad where "admit rp h loc now p ib = (ib', Inr ad)" "ad_kind ad = Accepted" "ad_key ad = k" "k \<noteq> []"
      by (cases a) (auto split: prod.splits sum.splits if_splits)
    then show "\<not> seen_key rp k (ib_rows ib)" "seen_key rp k (ib_rows ib')"
      by (auto elim!: admit_accepts simp: seen_key_def state_of_record)
  }
  assume st: "only (\<lambda>k. k \<noteq> []) (inbox_step rp h loc) ib a = (ib', out)" and seen: "seen_key rp k (ib_rows ib)"
  then have "ib' = fst (inbox_step rp h loc ib a)" by (auto simp: only_def Let_def split: prod.splits)
  then have "grows (ib_rows ib) (ib_rows ib')" by (simp add: inbox_step_grows)
  with seen show "seen_key rp k (ib_rows ib')" by (blast intro: seen_grows)
qed


section \<open>Recovery\<close>

lemma texts_of_Some: "texts_of vs = Some ks \<longleftrightarrow> vs = map JStr ks"
  by (induction vs arbitrary: ks rule: texts_of.induct) (auto simp: map_eq_Cons_conv Cons_eq_map_conv)

lemma foldl_state_none:
  "foldl (\<lambda>st d. if P d then Some (g d) else st) None rows = Some y \<Longrightarrow> \<exists>d \<in> set rows. P d"
proof (induction rows rule: rev_induct)
  case (snoc d rows)
  then show ?case by (cases "P d") auto
qed simp

lemma state_of_key: "state_of rp k f = Some st \<Longrightarrow> JStr k \<in> set (row_keys f)"
  unfolding state_of_def by (drule foldl_state_none) (force simp: row_keys_def)

lemma pending_iff:
  assumes "pending_keys rp f = Inr ks"
  shows "k \<in> set ks \<longleftrightarrow> state_of rp k f = Some ''admitted''" "sorted ks" "distinct ks"
  using assms state_of_key [of rp k f]
  by (auto simp: pending_keys_def texts_of_Some split: option.splits)

lemma pending_record:
  assumes "pending_keys rp (ib_rows ib) = Inr ks" "key \<noteq> []" "st \<noteq> []"
  shows "\<exists>ks'. pending_keys rp (ib_rows (record_state key st stamp raw source extra ib)) = Inr ks'
    \<and> set ks' = (if st = ''admitted'' then insert key (set ks) else set ks - {key})"
proof -
  from assms(1) obtain ts where ts: "row_keys (ib_rows ib) = map JStr ts"
    by (auto simp: pending_keys_def texts_of_Some split: option.splits)
  let ?f = "ib_rows (record_state key st stamp raw source extra ib)"
  have "row_keys ?f = map JStr (ts @ [key])"
    using ts assms(2) by (simp add: row_keys_def record_state_def inbox_row_fields)
  then have "texts_of (row_keys ?f) = Some (ts @ [key])" by (simp only: texts_of_Some)
  then obtain ks' where ks': "pending_keys rp ?f = Inr ks'" by (simp add: pending_keys_def)
  have "k \<in> set ks' \<longleftrightarrow> k \<in> (if st = ''admitted'' then insert key (set ks) else set ks - {key})" for k
    using pending_iff(1) [OF ks', of k] pending_iff(1) [OF assms(1), of k] assms(2,3)
    by (auto simp: state_of_record)
  with ks' show ?thesis by blast
qed

section \<open>An artifact that is not UTF-8\<close>

text \<open>\<open>UnicodeDecodeError\<close> is no \<open>JSONDecodeError\<close>: the artifact raises at every poll, with nothing recorded.\<close>

lemma not_utf8_raises: "\<not> af_utf8 p \<Longrightarrow> admit rp h loc now p ib = (ib, Inl ValueError)"
  by (simp add: admit_def)

section \<open>What a dead letter leaves behind\<close>

text \<open>
  A dead letter takes the key the artifact declares, so a later valid artifact with the same declared
  identity is a duplicate. The empty object is the other way round: its dead letter is filed under a
  key that no lookup of it uses.
\<close>

lemma seen_is_deduped:
  assumes "af_utf8 p" "af_body p = Some (Some (JObj body))" "validate_envelope rp h loc now (JObj body) = Inr ver"
    "seen_key rp (key_for rp h body) (ib_rows ib)"
  shows "admit rp h loc now p ib = (ib, Inr (deduped (key_for rp h body) (Some body)))"
  using assms by (simp add: admit_def admit_body_def)

lemma dead_letter_shadows:
  assumes "af_utf8 p" "af_utf8 q" "af_body p = Some (Some (JObj bad))" "bad \<noteq> []" "key_for rp h bad \<noteq> []"
    "validate_envelope rp h loc now (JObj bad) = Inl (EnvelopeError code)"
    "\<not> seen_key rp (key_for rp h bad) (ib_rows ib)" "admit rp h loc now p ib = (ib', r)"
    "af_body q = Some (Some (JObj good))" "key_for rp h good = key_for rp h bad"
    "validate_envelope rp h loc later (JObj good) = Inr ver"
  shows "admit rp h loc later q ib' = (ib', Inr (deduped (key_for rp h bad) (Some good)))"
proof -
  from assms(1,3,4,6-8) have "ib_rows ib' = ib_rows (record_state (key_for rp h bad) ''dead_lettered''
      (isoformat_seconds now) (Some bad) (af_path p) [(''reason_code'', JStr code)] ib)"
    by (cases bad) (auto simp: admit_def admit_body_def Let_def send_dead_letter_def record_state_def)
  then have "seen_key rp (key_for rp h bad) (ib_rows ib')"
    using assms(5) by (simp add: seen_key_def state_of_record)
  with seen_is_deduped [OF assms(2,9,11)] assms(10) show ?thesis by simp
qed

lemma empty_object_never_deduped:
  assumes "af_utf8 p" "af_body p = Some (Some (JObj []))" "\<not> seen_key rp (sha256_of h (JObj [])) (ib_rows ib)"
    "sha256_of h (JObj []) \<noteq> ''unreadable:'' @ af_name p"
  shows "\<exists>ib' a. admit rp h loc now p ib = (ib', Inr a) \<and> ad_kind a = DeadLettered
    \<and> length (ib_dead ib') = Suc (length (ib_dead ib)) \<and> \<not> seen_key rp (sha256_of h (JObj [])) (ib_rows ib')"
proof -
  have v: "validate_envelope rp h loc now (JObj []) = Inl (EnvelopeError ''missing_field'')"
    by (simp add: validate_envelope_def validate_object_def check_compatibility_def parse_semver_def
        SUPPORTED_MAJOR_def envelope_check_def require_str_def jget_def)
  have k: "key_for rp h [] = sha256_of h (JObj [])"
    by (simp add: key_for_def producer_of_def jget_def strip_def Let_def)
  show ?thesis
    using assms by (simp add: admit_def admit_body_def v k Let_def send_dead_letter_def producer_of_def
        audit_inbox_def seen_key_def state_of_record)
      (simp add: state_of_record [where key = "''unreadable:'' @ af_name p", simplified] record_state_def)
qed

end
