(* ===== verification/MandateFile.thy ===== *)
theory MandateFile
  imports Schema Config
begin

text \<open>
  The file half of \<open>signald/mandate.py\<close>: parsing a mandate, checking the hash it is signed with,
  loading it and writing a re-signed one. A file is \<open>None\<close> where it is missing, \<open>Some None\<close> where it
  is no JSON, else its value. What \<open>Config\<close> calls a mandate is the part the gates read.
\<close>

record SignedMandate = Mandate +
  sm_owner :: string
  sm_created :: date
  sm_hash :: string
  sm_kill_switch_path :: json

type_synonym json_file = "json option option"

section \<open>Parsing\<close>

definition require_field :: "(string \<times> json) list \<Rightarrow> string \<Rightarrow> json res" where
  "require_field d k =
     (case map_of d k of
        None \<Rightarrow> Inl MandateError
      | Some v \<Rightarrow> if v \<in> {JNull, JStr []} then Inl MandateError else Inr v)"

definition mandate_date :: "(json \<Rightarrow> string) \<Rightarrow> (string \<times> json) list \<Rightarrow> string \<Rightarrow> date res" where
  "mandate_date rp d k =
     rbind (require_field d k) (\<lambda>v.
       case parse_iso_date (py_str rp v) of Some x \<Rightarrow> Inr x | None \<Rightarrow> Inl MandateError)"

definition symbols_of :: "(string \<times> json) list \<Rightarrow> (json list \<times> bool) res" where
  "symbols_of d =
     (case json_or (jget d ''symbols'') (JObj []) of
        JObj symbols \<Rightarrow>
          (case json_or (jget symbols ''allowed'') (JList []) of
             JList (x # xs) \<Rightarrow> Inr (x # xs, json_truthy (jget symbols ''shorts''))
           | _ \<Rightarrow> Inl MandateError)
      | _ \<Rightarrow> Inl AttributeError)"

definition text_field :: "(json \<Rightarrow> string) \<Rightarrow> (string \<times> json) list \<Rightarrow> string \<Rightarrow> string res" where
  "text_field rp d k = rmap (py_str rp) (require_field d k)"

definition float_field :: "(string \<times> json) list \<Rightarrow> string \<Rightarrow> pyfloat res" where
  "float_field d k = rbind (require_field d k) float_of_json"

definition float_or_zero :: "(string \<times> json) list \<Rightarrow> string \<Rightarrow> pyfloat res" where
  "float_or_zero d k = float_of_json (json_or (jget d k) (JFloat 0))"

definition mandate_hash :: "json_hash \<Rightarrow> (string \<times> json) list \<Rightarrow> string" where
  "mandate_hash h d = sha256_of h (JObj (without [''hash''] d))"

definition mandate_of ::
  "(json \<Rightarrow> string) \<Rightarrow> json_hash \<Rightarrow> (string \<times> json) list \<Rightarrow> json list \<Rightarrow> bool \<Rightarrow> date \<Rightarrow> date \<Rightarrow> SignedMandate res" where
  "mandate_of rp h d allowed shorts created expires =
     rbind (text_field rp d ''id'') (\<lambda>ident.
     rbind (text_field rp d ''owner'') (\<lambda>owner.
     rbind (float_field d ''max_notional_per_order_usd'') (\<lambda>order.
     rbind (float_field d ''max_total_exposure_usd'') (\<lambda>exposure.
     rbind (float_or_zero d ''min_cash_reserve_usd'') (\<lambda>cash.
     rbind (int_of_json (json_or (jget d ''max_daily_trades'') (JInt 0))) (\<lambda>trades.
     rmap (\<lambda>loss.
       \<lparr>md_id = ident, md_expires = expires, md_allowed = remdups (map (\<lambda>s. str_upper (py_str rp s)) allowed),
        md_shorts = shorts, md_max_notional_per_order_usd = order, md_max_total_exposure_usd = exposure,
        md_min_cash_reserve_usd = cash, md_max_daily_trades = trades, md_daily_loss_limit_usd = loss,
        md_approval_mode = py_str rp (json_or (jget d ''approval_mode'') (JStr ''manual'')),
        sm_owner = owner, sm_created = created, sm_hash = mandate_hash h d,
        sm_kill_switch_path = jget d ''kill_switch_path''\<rparr>)
       (float_or_zero d ''daily_loss_limit_usd'')))))))"

definition hash_signed :: "json_hash \<Rightarrow> (string \<times> json) list \<Rightarrow> bool" where
  "hash_signed h d \<longleftrightarrow> (json_truthy (jget d ''hash'') \<longrightarrow> jget d ''hash'' = JStr (mandate_hash h d))"

definition parse_mandate :: "(json \<Rightarrow> string) \<Rightarrow> json_hash \<Rightarrow> json \<Rightarrow> SignedMandate res" where
  "parse_mandate rp h raw =
     (case raw of
        JObj d \<Rightarrow>
          rbind (symbols_of d) (\<lambda>(allowed, shorts).
          rbind (mandate_date rp d ''created'') (\<lambda>created.
          rbind (mandate_date rp d ''expires'') (\<lambda>expires.
            if expires \<le> created then Inl MandateError
            else rbind (mandate_of rp h d allowed shorts created expires) (\<lambda>m.
              if hash_signed h d then Inr m else Inl MandateError))))
      | _ \<Rightarrow> Inl AttributeError)"

section \<open>The file\<close>

definition load_mandate :: "(json \<Rightarrow> string) \<Rightarrow> json_hash \<Rightarrow> json_file \<Rightarrow> SignedMandate res" where
  "load_mandate rp h file =
     (case file of Some (Some raw) \<Rightarrow> parse_mandate rp h raw | _ \<Rightarrow> Inl MandateError)"

record mandate_files =
  mf_doc :: json_file
  mf_archive :: "(string \<times> json) list list"

definition old_hash_of :: "json_file \<Rightarrow> json res" where
  "old_hash_of file =
     (case file of
        Some (Some (JObj d)) \<Rightarrow> Inr (jget d ''hash'')
      | Some (Some _) \<Rightarrow> Inl AttributeError
      | _ \<Rightarrow> Inr JNull)"

definition signed_doc :: "json_hash \<Rightarrow> (string \<times> json) list \<Rightarrow> (string \<times> json) list" where
  "signed_doc h raw = without [''hash''] raw @ [(''hash'', JStr (mandate_hash h raw))]"

definition archive_row ::
  "string \<Rightarrow> json \<Rightarrow> string \<Rightarrow> (string \<times> json) list \<Rightarrow> (string \<times> json) list" where
  "archive_row ts old new provenance =
     foldl (\<lambda>d (k, v). AList.update k v d) [(''ts'', JStr ts), (''old_hash'', old), (''new_hash'', JStr new)] provenance"

definition write_mandate ::
  "(json \<Rightarrow> string) \<Rightarrow> json_hash \<Rightarrow> string \<Rightarrow> (string \<times> json) list \<Rightarrow> (string \<times> json) list \<Rightarrow> mandate_files
     \<Rightarrow> mandate_files \<times> SignedMandate res" where
  \<comment> \<open>the file is replaced before what was written is parsed\<close>
  "write_mandate rp h ts raw provenance files =
     (case old_hash_of (mf_doc files) of
        Inl e \<Rightarrow> (files, Inl e)
      | Inr old \<Rightarrow>
          (let doc = signed_doc h raw; new = mandate_hash h raw;
               files' = files\<lparr>mf_doc := Some (Some (JObj doc))\<rparr>
           in (if json_truthy old \<and> old \<noteq> JStr new
               then files'\<lparr>mf_archive := mf_archive files @ [archive_row ts old new provenance]\<rparr> else files',
               parse_mandate rp h (JObj doc))))"

section \<open>What is signed\<close>

lemma jget_signed: "k \<noteq> ''hash'' \<Longrightarrow> jget (signed_doc h raw) k = jget raw k"
  by (simp add: signed_doc_def jget_append map_of_without) (simp add: jget_def)

lemma jget_signed_hash: "jget (signed_doc h raw) ''hash'' = JStr (mandate_hash h raw)"
  by (simp add: signed_doc_def jget_append map_of_without) (simp add: jget_def)

lemma map_of_signed: "k \<noteq> ''hash'' \<Longrightarrow> map_of (signed_doc h raw) k = map_of raw k"
  by (simp add: signed_doc_def map_of_without map_add_def split: option.split)

lemma mandate_hash_signed [simp]: "mandate_hash h (signed_doc h raw) = mandate_hash h raw"
  by (simp add: mandate_hash_def signed_doc_def) (simp add: without_def)

lemma signed_doc_signed: "hash_signed h (signed_doc h raw)"
  by (simp add: hash_signed_def jget_signed_hash)

lemma parse_signed_doc:
  assumes "map_of raw ''hash'' = None"
  shows "parse_mandate rp h (JObj (signed_doc h raw)) = parse_mandate rp h (JObj raw)"
proof -
  have "symbols_of (signed_doc h raw) = symbols_of raw" by (simp add: symbols_of_def jget_signed)
  moreover have "mandate_date rp (signed_doc h raw) k = mandate_date rp raw k" if "k \<noteq> ''hash''" for k
    using that by (simp add: mandate_date_def require_field_def map_of_signed)
  moreover have "mandate_of rp h (signed_doc h raw) = mandate_of rp h raw"
    by (simp add: mandate_of_def text_field_def float_field_def float_or_zero_def require_field_def
        map_of_signed jget_signed fun_eq_iff)
  moreover have "hash_signed h raw" using assms by (simp add: hash_signed_def jget_def)
  ultimately show ?thesis by (simp add: parse_mandate_def signed_doc_signed cong: if_cong)
qed

lemma mandate_of_fields:
  assumes "mandate_of rp h d allowed shorts created expires = Inr m"
  shows "md_expires m = expires \<and> sm_created m = created \<and> sm_hash m = mandate_hash h d
    \<and> md_shorts m = shorts \<and> set (md_allowed m) = (\<lambda>s. str_upper (py_str rp s)) ` set allowed"
  using assms unfolding mandate_of_def by (elim rbind_InrE rmap_InrE) simp

lemma parsed_mandate:
  assumes "parse_mandate rp h raw = Inr m"
  obtains d where "raw = JObj d" "sm_created m < md_expires m" "md_allowed m \<noteq> []"
    "sm_hash m = mandate_hash h d" "hash_signed h d"
proof -
  from assms obtain d where raw: "raw = JObj d" by (auto simp: parse_mandate_def split: json.splits)
  with assms obtain allowed shorts created expires where s: "symbols_of d = Inr (allowed, shorts)"
    and m: "mandate_of rp h d allowed shorts created expires = Inr m" "\<not> expires \<le> created" "hash_signed h d"
    by (auto simp: parse_mandate_def rbind_Inr_iff split: if_splits)
  from s have "allowed \<noteq> []" by (auto simp: symbols_of_def split: json.splits list.splits)
  with mandate_of_fields [OF m(1)] have "md_allowed m \<noteq> []" by auto
  with mandate_of_fields [OF m(1)] m show thesis by (intro that [OF raw]) auto
qed

text \<open>A number that does not parse is a plain \<open>ValueError\<close>, not the \<open>MandateError\<close> that a reload survives.\<close>

lemma bad_number_is_no_mandate_error:
  assumes "map_of d ''max_total_exposure_usd'' = Some (JStr ''high'')"
    "text_field rp d ''id'' = Inr x" "text_field rp d ''owner'' = Inr y"
    "float_field d ''max_notional_per_order_usd'' = Inr z"
  shows "mandate_of rp h d allowed shorts created expires = Inl ValueError"
proof -
  have "float_of_text ''high'' = None" by code_simp
  with assms show ?thesis by (simp add: mandate_of_def float_field_def require_field_def)
qed

end
