(* ===== verification/SignalGates.thy ===== *)
theory SignalGates
  imports Schema MandateFile Gate
begin

text \<open>
  \<open>signald/gates.py\<close>: the signal-stage facade. It translates a research decision, its contract and the
  reference data (\<open>RefData\<close> of \<open>signald/alpaca_ref.py\<close>) into the context of the house gate and its
  decision back; every rule is the gate's.
\<close>

record RefData =
  rf_last :: "pyfloat option"
  rf_vwap :: "pyfloat option"
  rf_spread_usd :: "pyfloat option"
  rf_ts :: "datetime option"
  rf_feed :: "string option"
  rf_stale :: bool
  rf_cash :: "pyfloat option"
  rf_buying_power :: "pyfloat option"
  rf_equity :: "pyfloat option"
  rf_market_open :: "bool option"
  rf_asset_tradable :: "bool option"
  rf_positions_value :: "pyfloat option"
  rf_held_symbols :: "string list option"

definition no_reference :: RefData where
  "no_reference =
     \<lparr>rf_last = None, rf_vwap = None, rf_spread_usd = None, rf_ts = None, rf_feed = None, rf_stale = False,
      rf_cash = None, rf_buying_power = None, rf_equity = None, rf_market_open = None,
      rf_asset_tradable = None, rf_positions_value = None, rf_held_symbols = None\<rparr>"

definition complete_for_gates :: "RefData \<Rightarrow> bool" where
  "complete_for_gates ref \<longleftrightarrow> rf_cash ref \<noteq> None \<and> rf_asset_tradable ref \<noteq> None"

definition or_zero :: "pyfloat option \<Rightarrow> pyfloat" where
  \<comment> \<open>\<open>float(x or 0.0)\<close>\<close>
  "or_zero x = (case x of Some v \<Rightarrow> if truthy v then v else 0 | None \<Rightarrow> 0)"

definition spread_bps :: "RefData \<Rightarrow> pyfloat option" where
  "spread_bps ref =
     (case (rf_spread_usd ref, rf_last ref) of
        (Some s, Some l) \<Rightarrow> if truthy l then Some (fdiv (fdiv s (Fin 2)) l * Fin 10000) else None
      | _ \<Rightarrow> None)"

definition quote_age_s :: "RefData \<Rightarrow> datetime \<Rightarrow> pyfloat option" where
  "quote_age_s ref now =
     map_option (\<lambda>ts. pymax 0 (total_seconds (utc_instant now - utc_instant ts))) (rf_ts ref)"

definition signal_request :: "SignalContract \<Rightarrow> RefData \<Rightarrow> string \<Rightarrow> RiskRequest" where
  "signal_request c ref sleeve =
     \<lparr>r_sleeve = sleeve, r_symbol = sc_symbol c, r_setup = str_or (sc_strategy c) ''VALUE_DIP'',
      r_side = (if sc_action c \<in> {''REDUCE'', ''EXIT''} then ''sell'' else ''buy''),
      r_stop_distance = (case (sc_stop_price c, rf_last ref) of (Some s, Some l) \<Rightarrow> \<bar>l - s\<bar> | _ \<Rightarrow> 0),
      r_price = or_zero (rf_last ref), r_equity = or_zero (rf_equity ref),
      r_requested_risk_pct = sc_target_pct c, r_stop_price = sc_stop_price c, r_measured_move_bps = None,
      r_round_trip_cost_bps = None, r_trailing_volume = None, r_intent_id = Some (sc_decision_hash c),
      r_cluster = None, r_sector = None, r_opens_short = False,
      r_planned_notional_usd = sc_target_notional_usd c\<rparr>"

record journal_state =
  js_signals_today :: nat
  js_last_signal :: "(string \<times> json) list option"
  js_cooldown_hours :: pyfloat
  js_ingest_window_hours :: pyfloat

definition signal_book :: "ResearchDecision \<Rightarrow> RefData \<Rightarrow> nat \<Rightarrow> BookState" where
  "signal_book rd ref signals_today =
     \<lparr>b_equity = or_zero (rf_equity ref), b_cash = or_zero (rf_cash ref), b_positions = [], b_heat_pct = 0,
      b_es_pct = 0, b_day_pnl_pct = 0, b_five_day_pct = 0, b_drawdown_pct = 0, b_peak_equity = None,
      b_net_beta = dn_net_beta rd, b_trades_today = [], b_sleeve_trades_today = [(SWING, int signals_today)],
      b_buying_power = None\<rparr>"

definition signal_market :: "ResearchDecision \<Rightarrow> SignalContract \<Rightarrow> RefData \<Rightarrow> datetime \<Rightarrow> MarketState" where
  "signal_market rd c ref now =
     \<lparr>m_symbol = sc_symbol c, m_last = rf_last ref, m_spread_bps = spread_bps ref, m_spread_median_bps = None,
      m_quote_age_s = quote_age_s ref now, m_bar_age_s = None,
      m_session = Some (if rf_market_open ref \<noteq> Some False then ''rth'' else ''closed''), m_halted = False,
      m_reopen_cooldown_s = None, m_tradable = (rf_asset_tradable ref \<noteq> Some False), m_shortable = False,
      m_ssr = False, m_adv_shares = None, m_atr = None, m_data_quality = dn_data_quality rd,
      m_price_caliber = dn_price_caliber rd, m_impulse_pct = None, m_news_shock = False,
      m_last_bar_high = None, m_last_bar_low = None\<rparr>"

definition hours_or :: "pyfloat \<Rightarrow> pyfloat \<Rightarrow> pyfloat" where
  \<comment> \<open>\<open>float(x or d)\<close>\<close>
  "hours_or x d = (if truthy x then x else d)"

definition build_context ::
  "ResearchDecision \<Rightarrow> SignalContract \<Rightarrow> SignedMandate \<Rightarrow> RefData \<Rightarrow> journal_state \<Rightarrow> datetime \<Rightarrow> Config
     \<Rightarrow> GateContext" where
  "build_context rd c md ref js now cfg =
     \<lparr>gc_request = signal_request c ref SWING, gc_book = signal_book rd ref (js_signals_today js),
      gc_market = signal_market rd c ref now, gc_mandate = Mandate.truncate md, gc_config = cfg, gc_now = now,
      gc_ladder = \<lparr>l_rung = 0, l_size_multiplier = 1, l_allow_new_intraday = True, l_flatten_intraday = False,
        l_freeze_allocation = False, l_halt = False, l_reason = ''none''\<rparr>,
      gc_vol = \<lparr>vs_scalar = 1, vs_target = Fin (10 / 100), vs_realized = Fin (10 / 100), vs_warmup_ok = False,
        vs_applied = False, vs_reason = VWarmup\<rparr>,
      gc_es = \<lparr>es_value_pct = 0, es_which = EUnavailable, es_flagged = True, es_window_days = 0,
        es_historical_part = 0, es_parametric_part = 0, es_stress_part = 0\<rparr>,
      gc_sleeve_ceiling_pct = 1, gc_sleeve_deployed_pct = 0, gc_day_type = None, gc_time_gate_ok = None,
      gc_other_sleeve_side = None, gc_wash_nets = False, gc_stage = ''signal'',
      gc_reference_complete = complete_for_gates ref, gc_reference_stale = rf_stale ref,
      gc_positions_value_usd = rf_positions_value ref,
      gc_decision_age_days = Some (date_of now - dn_effective_date rd),
      gc_ingest_window_days = fdiv (hours_or (js_ingest_window_hours js) (Fin 24)) (Fin 24),
      gc_live_invalidations = dn_invalidations rd, gc_last_signal = js_last_signal js,
      gc_cooldown_hours = hours_or (js_cooldown_hours js) (Fin 12), gc_action = Some (sc_action c),
      gc_held_symbols = rf_held_symbols ref\<rparr>"

section \<open>The result\<close>

datatype signal_verdict = SPass | SDowngrade | SBlock

fun verdict_word :: "verdict \<Rightarrow> signal_verdict" where
  "verdict_word ALLOW = SPass"
| "verdict_word REDUCE = SDowngrade"
| "verdict_word BLOCK = SBlock"

record GateResult =
  sg_verdict :: signal_verdict
  sg_failures :: "(gate_name \<times> string) list" \<comment> \<open>check and reason code of every failure, in order\<close>
  sg_downgrades :: "(gate_name \<times> string) list"
  sg_blocked :: "(gate_name \<times> string) list"
  sg_approval_required :: bool
  sg_target_notional_usd :: "pyfloat option"
  sg_trade_permission :: verdict
  sg_binding_gate :: "gate_name option"
  sg_adjusted_risk_pct :: "pyfloat option"
  sg_permission_reason_code :: string
  sg_state_snapshot :: GateSnapshot

definition gate_passed :: "GateResult \<Rightarrow> bool" where
  "gate_passed g \<longleftrightarrow> sg_verdict g \<in> {SPass, SDowngrade}"

definition codes_of :: "kind \<Rightarrow> Failure list \<Rightarrow> (gate_name \<times> string) list" where
  "codes_of k fs = map (\<lambda>f. (f_check f, f_reason_code f)) (filter (\<lambda>f. f_kind f = k) fs)"

definition to_gate_result :: "GateDecision \<Rightarrow> SignalContract \<Rightarrow> GateResult" where
  "to_gate_result d c =
     \<lparr>sg_verdict = verdict_word (gd_verdict d),
      sg_failures = map (\<lambda>f. (f_check f, f_reason_code f)) (gd_failures d),
      sg_downgrades = codes_of Reduce (gd_failures d), sg_blocked = codes_of Block (gd_failures d),
      sg_approval_required = gd_approval_required d, sg_target_notional_usd = sc_target_notional_usd c,
      sg_trade_permission = gd_verdict d, sg_binding_gate = gd_binding_gate d,
      sg_adjusted_risk_pct = gd_adjusted_risk_pct d,
      sg_permission_reason_code = gd_permission_reason_code d, sg_state_snapshot = gd_state_snapshot d\<rparr>"

definition evaluate_signal ::
  "ResearchDecision \<Rightarrow> SignalContract \<Rightarrow> SignedMandate \<Rightarrow> RefData \<Rightarrow> journal_state \<Rightarrow> datetime \<Rightarrow> Config
     \<Rightarrow> GateResult res" where
  "evaluate_signal rd c md ref js now cfg =
     rmap (\<lambda>d. to_gate_result d c) (evaluate (build_context rd c md ref js now cfg))"

section \<open>What a signal that passes has passed\<close>

lemma truncate_fields [simp]:
  "md_allowed (Mandate.truncate m) = md_allowed m" "md_expires (Mandate.truncate m) = md_expires m"
  "md_shorts (Mandate.truncate m) = md_shorts m" "md_max_daily_trades (Mandate.truncate m) = md_max_daily_trades m"
  "md_min_cash_reserve_usd (Mandate.truncate m) = md_min_cash_reserve_usd m"
  "md_max_total_exposure_usd (Mandate.truncate m) = md_max_total_exposure_usd m"
  "md_max_notional_per_order_usd (Mandate.truncate m) = md_max_notional_per_order_usd m"
  "md_approval_mode (Mandate.truncate m) = md_approval_mode m"
  by (simp_all add: Mandate.truncate_def)

lemma evaluate_signal_total: "\<exists>g. evaluate_signal rd c md ref js now cfg = Inr g"
  using evaluate_total [of "build_context rd c md ref js now cfg"] by (auto simp: evaluate_signal_def)

lemma passed_not_blocked:
  assumes "evaluate_signal rd c md ref js now cfg = Inr g" "gate_passed g"
  shows "\<not> blocked_by (build_context rd c md ref js now cfg) n"
proof -
  obtain d where d: "evaluate (build_context rd c md ref js now cfg) = Inr d" "g = to_gate_result d c"
    using assms(1) by (auto simp: evaluate_signal_def rmap_Inr_iff)
  have "gd_verdict d \<noteq> BLOCK"
    using assms(2) d(2) by (cases "gd_verdict d") (auto simp: gate_passed_def to_gate_result_def)
  then show ?thesis
    by (cases rule: evaluate_cases [of "build_context rd c md ref js now cfg"])
      (use d(1) in \<open>auto simp: blocked_by_def\<close>)
qed

lemma signal_verdict_block:
  assumes "evaluate_signal rd c md ref js now cfg = Inr g"
  shows "gate_passed g \<longleftrightarrow> sg_verdict g \<noteq> SBlock"
  by (cases "sg_verdict g") (auto simp: gate_passed_def)

lemma signal_reduces_held:
  "reduces_a_held_name (build_context rd c md ref js now cfg) \<longleftrightarrow>
     sc_action c \<in> {''REDUCE'', ''EXIT''}
     \<and> (\<exists>held. rf_held_symbols ref = Some held \<and> str_upper (sc_symbol c) \<in> set held)"
  by (auto simp: reduces_a_held_name_def build_context_def signal_request_def implies_short_def Let_def
      signal_book_def position_for_def by_symbol_def split: option.splits)

lemma signal_data_guards:
  assumes "\<not> blocked_by (build_context rd c md ref js now cfg) NData"
  shows "complete_for_gates ref"
    "str_lower (if dn_data_quality rd = [] then ''unknown'' else dn_data_quality rd) \<in> {''fresh'', ''partial''}"
  using assms
  by (auto simp: blocked_by_def gate_check_def gate_data_def build_context_def signal_market_def Let_def block_def
      split: if_splits)

lemma signal_data_tail:
  assumes "\<not> blocked_by (build_context rd c md ref js now cfg) NData"
    "str_lower (if dn_data_quality rd = [] then ''unknown'' else dn_data_quality rd) = ''fresh''" "\<not> rf_stale ref"
  shows "\<not> stale (quote_age_s ref now) (cfg_max_quote_staleness_s cfg)"
    "str_lower (strip (str_or (dn_price_caliber rd) [])) \<notin> set UNUSABLE_CALIBERS \<Longrightarrow>
       \<not> fdiv (hours_or (js_ingest_window_hours js) (Fin 24)) (Fin 24) < Fin (of_int (date_of now - dn_effective_date rd))"
  using assms signal_data_guards(1) [OF assms(1)]
  by (auto simp: blocked_by_def gate_check_def gate_data_def data_tail_def build_context_def signal_market_def Let_def
      split: if_splits)

lemma signal_permits:
  assumes "evaluate_signal rd c md ref js now cfg = Inr g" "gate_passed g"
  shows "(sc_symbol c \<in> set (md_allowed md)
      \<or> sc_action c \<in> {''REDUCE'', ''EXIT''}
        \<and> (\<exists>held. rf_held_symbols ref = Some held \<and> str_upper (sc_symbol c) \<in> set held))
    \<and> date_of now \<le> md_expires md
    \<and> (0 < md_max_daily_trades md \<longrightarrow> int (js_signals_today js) < md_max_daily_trades md)
    \<and> \<not> or_zero (rf_cash ref) < md_min_cash_reserve_usd md
    \<and> rf_asset_tradable ref = Some True \<and> complete_for_gates ref"
proof -
  let ?ctx = "build_context rd c md ref js now cfg"
  note free = passed_not_blocked [OF assms]
  have "sleeve_trades ?ctx = int (js_signals_today js)"
    by (simp add: sleeve_trades_def build_context_def signal_book_def signal_request_def)
  with mandate_guards [OF free [of NMandate]] signal_data_guards(1) [OF free [of NData]]
  show ?thesis
    unfolding signal_reduces_held
    by (auto simp: build_context_def signal_request_def signal_book_def signal_market_def is_expired_def
        complete_for_gates_def)
qed

end
