(* ===== verification/KillSwitch.thy ===== *)
theory KillSwitch
  imports JsonText
begin

text \<open>
  \<open>signald/kill_switch.py\<close> (the sentinel and the latch of the halt episode), \<open>signald/watchdog.py\<close> (the
  age of the heartbeat), \<open>signald/daemon.py\<close> (the single-instance lock, taken by one process at a time)
  and \<open>halt_now\<close> of \<open>signald/control.py\<close>. A fresh episode id is an argument.
\<close>

section \<open>The halt episode\<close>

record kill_files =
  kf_sentinel :: bool
  kf_latch :: "json option option"

definition is_halted :: "kill_files \<Rightarrow> bool" where
  "is_halted kf = kf_sentinel kf"

definition new_episode :: "string \<Rightarrow> datetime \<Rightarrow> (string \<times> json) list" where
  "new_episode fresh now =
     [(''episode'', JStr fresh), (''since'', JStr (isoformat_seconds now)), (''reason'', JStr ''kill_switch sentinel'')]"

definition ensure_episode :: "string \<Rightarrow> datetime \<Rightarrow> kill_files \<Rightarrow> kill_files \<times> (string \<times> json) list res" where
  "ensure_episode fresh now kf =
     (let ep = new_episode fresh now; created = (kf\<lparr>kf_latch := Some (Some (JObj ep))\<rparr>, Inr ep) in
      case kf_latch kf of
        Some (Some (JObj d)) \<Rightarrow> if json_truthy (jget d ''episode'') then (kf, Inr d) else created
      | Some (Some _) \<Rightarrow> (kf, Inl AttributeError)
      | _ \<Rightarrow> created)"

definition read_episode :: "kill_files \<Rightarrow> json option" where
  "read_episode kf = (case kf_latch kf of Some (Some v) \<Rightarrow> Some v | _ \<Rightarrow> None)"

definition resume :: "kill_files \<Rightarrow> kill_files" where
  "resume kf = kf\<lparr>kf_sentinel := False\<rparr>"

definition halt_now :: "string \<Rightarrow> datetime \<Rightarrow> kill_files \<Rightarrow> kill_files \<times> (json \<times> json) res" where
  \<comment> \<open>the sentinel, the episode, the audit row; the episode and its start are returned\<close>
  "halt_now fresh now kf =
     (let (kf', ep) = ensure_episode fresh now (kf\<lparr>kf_sentinel := True\<rparr>) in
      (kf', rbind ep (\<lambda>d. case (map_of d ''episode'', map_of d ''since'') of
         (Some e, Some s) \<Rightarrow> Inr (e, s) | _ \<Rightarrow> Inl KeyError)))"

lemma ensure_episode_cases:
  assumes "ensure_episode fresh now kf = (kf', Inr ep)"
  obtains (kept) "kf' = kf" "kf_latch kf = Some (Some (JObj ep))" "json_truthy (jget ep ''episode'')"
    | (created) "ep = new_episode fresh now" "kf' = kf\<lparr>kf_latch := Some (Some (JObj ep))\<rparr>"
proof (cases "\<exists>d. kf_latch kf = Some (Some (JObj d)) \<and> json_truthy (jget d ''episode'')")
  case True
  then show ?thesis using assms kept by (auto simp: ensure_episode_def)
next
  case False
  then have "ep = new_episode fresh now \<and> kf' = kf\<lparr>kf_latch := Some (Some (JObj ep))\<rparr>"
    using assms unfolding ensure_episode_def Let_def
    by (cases "kf_latch kf"; cases "the (kf_latch kf)"; cases "the (the (kf_latch kf))") simp_all
  then show ?thesis using created by blast
qed

lemma ensure_episode_latches:
  assumes "ensure_episode fresh now kf = (kf', Inr ep)" "fresh \<noteq> []"
  shows "kf_latch kf' = Some (Some (JObj ep))" "json_truthy (jget ep ''episode'')"
    "kf_sentinel kf' = kf_sentinel kf" "ensure_episode fresh' now' kf' = (kf', Inr ep)"
proof -
  from assms(1) show l: "kf_latch kf' = Some (Some (JObj ep))" and t: "json_truthy (jget ep ''episode'')"
    by (cases rule: ensure_episode_cases; use assms(2) in \<open>simp add: new_episode_def jget_def\<close>)+
  from assms(1) show "kf_sentinel kf' = kf_sentinel kf" by (cases rule: ensure_episode_cases) simp_all
  show "ensure_episode fresh' now' kf' = (kf', Inr ep)" by (simp add: ensure_episode_def l t)
qed

text \<open>
  The latch outlives the halt: a halt after a resume is given the episode, and the start, of the one
  before it.
\<close>

lemma second_halt_reuses_episode:
  assumes "halt_now fresh now kf = (kf', Inr (e, s))" "fresh \<noteq> []"
  shows "halt_now fresh' later (resume kf') = (kf', Inr (e, s))"
proof -
  obtain k ep where ens: "ensure_episode fresh now (kf\<lparr>kf_sentinel := True\<rparr>) = (k, Inr ep)" and k: "k = kf'"
    and es: "map_of ep ''episode'' = Some e" "map_of ep ''since'' = Some s"
    using assms(1) by (cases "ensure_episode fresh now (kf\<lparr>kf_sentinel := True\<rparr>)")
      (auto simp: halt_now_def rbind_Inr_iff split: option.splits)
  note l = ensure_episode_latches [OF ens assms(2)]
  from l(3) k have "(resume kf')\<lparr>kf_sentinel := True\<rparr> = kf'" by (simp add: resume_def)
  with l(4) [of fresh' later] k es show ?thesis by (simp add: halt_now_def)
qed

section \<open>The heartbeat\<close>

definition heartbeat_age :: "string option \<Rightarrow> pyfloat \<Rightarrow> pyfloat option" where
  "heartbeat_age file now =
     (case file of None \<Rightarrow> None | Some t \<Rightarrow> map_option (\<lambda>written. pymax 0 (now - written)) (float_of_text (strip t)))"

datatype heartbeat_loss = HeartbeatMissing | HeartbeatStale pyfloat

definition check_heartbeat :: "string option \<Rightarrow> pyfloat \<Rightarrow> pyfloat \<Rightarrow> heartbeat_loss option" where
  \<comment> \<open>\<open>None\<close> for a fresh heartbeat; else the event the notifier is handed\<close>
  "check_heartbeat file max_age now =
     (case heartbeat_age file now of
        None \<Rightarrow> Some HeartbeatMissing
      | Some age \<Rightarrow> if age \<le> max_age then None else Some (HeartbeatStale age))"

definition touch_heartbeat :: "pyfloat \<Rightarrow> string" where
  \<comment> \<open>\<open>str(int(time.time()))\<close>\<close>
  "touch_heartbeat now = int_text \<lfloor>the_fin now\<rfloor>"

lemma check_heartbeat_None_iff:
  assumes "now = Fin n" "max_age = Fin m"
  shows "check_heartbeat file max_age now = None \<longleftrightarrow>
     (\<exists>t w. file = Some t \<and> float_of_text (strip t) = Some w \<and> (case w of Fin x \<Rightarrow> max 0 (n - x) \<le> m | NInf \<Rightarrow> False | _ \<Rightarrow> 0 \<le> m))"
proof (cases "\<exists>t w. file = Some t \<and> float_of_text (strip t) = Some w")
  case True
  then obtain t w where "file = Some t" "float_of_text (strip t) = Some w" by blast
  then show ?thesis using assms
    by (cases w) (auto simp: check_heartbeat_def heartbeat_age_def fp_simps pymax_def minus_pyfloat_def)
qed (auto simp: check_heartbeat_def heartbeat_age_def split: option.split)

section \<open>The daemon's lock\<close>

definition daemon_acquire :: "(int \<Rightarrow> bool) \<Rightarrow> int \<Rightarrow> string option \<Rightarrow> string option \<times> unit res" where
  \<comment> \<open>the pid file before and after; a pid that does not parse counts as dead\<close>
  "daemon_acquire alive pid file =
     (let mine = Some (int_text pid @ [CHR 0x0A]) in
      case file of
        None \<Rightarrow> (mine, Inr ())
      | Some t \<Rightarrow>
          (case int_of_text t of
             Some p \<Rightarrow> if p \<noteq> 0 \<and> alive p then (file, Inl OtherError) else (mine, Inr ())
           | None \<Rightarrow> (mine, Inr ())))"

definition daemon_release :: "bool \<Rightarrow> string option \<Rightarrow> string option" where
  "daemon_release held file = (if held then None else file)"

end
