(* ===== verification/Processor.thy ===== *)
theory Processor
  imports Inbox SignalGates KillSwitch Sleeves
begin

text \<open>
  \<open>signald/processor.py\<close>: one artifact from the boundary to a verdict, and the reload of the mandate.
  The processor owns the journal, the signal store, the ledgers of candidates and holds, the boundary
  and the halt files; what a call reads from outside (the clock, the file, the broker's reference, the
  notifier's success, the commit) is the record \<open>process_env\<close>. A call may raise after it has had
  effects, so it returns the state beside its result. A reason is its check and code, not its sentence;
  the rows the boundary writes to the ledger are kept in the boundary.
\<close>

section \<open>State\<close>

type_synonym notice = "string \<times> (string \<times> json) list" \<comment> \<open>an event handed to the notifier\<close>

record Processor =
  pr_mandate :: SignedMandate
  pr_mandate_hash :: string
  pr_mandate_stamp :: "(int \<times> int) option"
  pr_reload_failure :: "string option"
  pr_journal :: jsonl
  pr_store :: jsonl
  pr_latest :: "json option option"
  pr_inbox :: "Inbox option"
  pr_candidates :: jsonl
  pr_monitors :: jsonl
  pr_kill :: kill_files
  pr_audit :: "ledger_event list"
  pr_notes :: "notice list"

record process_env =
  pe_cfg :: Config
  pe_now :: datetime
  pe_file :: artifact_file
  pe_utf8 :: bool
  pe_body :: "json option option" \<comment> \<open>the second reading of the file\<close>
  pe_reference :: "RefData option res" \<comment> \<open>\<open>Inr None\<close> where the reference is unavailable\<close>
  pe_fresh :: string \<comment> \<open>a fresh episode id\<close>
  pe_notify :: bool \<comment> \<open>whether the notifier has a sink\<close>
  pe_delivered :: bool
  pe_commit :: string
  pe_config_hash :: string
  pe_text :: "json \<Rightarrow> string"
  pe_hash :: json_hash
  pe_local :: "int \<Rightarrow> int"

datatype result_kind = Emitted | DryRun | Blocked | Halted | SkippedDuplicate | Invalid | DeadLetteredArtifact

record ProcessResult =
  ps_kind :: result_kind
  ps_envelope :: "(string \<times> json) list option"
  ps_path :: string

section \<open>Ledger, notifier, boundary\<close>

definition audit_event :: "string \<Rightarrow> (string \<times> json) list \<Rightarrow> Processor \<Rightarrow> Processor" where
  "audit_event kind data s = s\<lparr>pr_audit := pr_audit s @ [(kind, data)]\<rparr>"

definition notify :: "process_env \<Rightarrow> string \<Rightarrow> (string \<times> json) list \<Rightarrow> Processor \<Rightarrow> Processor" where
  \<comment> \<open>\<open>if notifier.enabled: notifier.send(...)\<close>\<close>
  "notify e kind data s = (if pe_notify e then s\<lparr>pr_notes := pr_notes s @ [(kind, data)]\<rparr> else s)"

definition notify_error :: "process_env \<Rightarrow> string \<Rightarrow> Processor \<Rightarrow> Processor" where
  "notify_error e source = notify e ''error'' [(''source'', JStr source)]"

definition settle :: "process_env \<Rightarrow> Admission option \<Rightarrow> Processor \<Rightarrow> Processor" where
  "settle e admission s =
     (case (pr_inbox s, admission) of
        (Some ib, Some a) \<Rightarrow> s\<lparr>pr_inbox := Some (commit (pe_text e) (pe_now e) (ad_key a) [] ib)\<rparr>
      | _ \<Rightarrow> s)"

definition quarantine_signal ::
  "process_env \<Rightarrow> (string \<times> json) list \<Rightarrow> string \<Rightarrow> string \<Rightarrow> Processor \<Rightarrow> Processor" where
  "quarantine_signal e envelope code key s =
     s\<lparr>pr_inbox := map_option (quarantine (pe_text e) (pe_now e) envelope code key) (pr_inbox s)\<rparr>"

definition bare_result :: "result_kind \<Rightarrow> ProcessResult" where
  "bare_result k = \<lparr>ps_kind = k, ps_envelope = None, ps_path = []\<rparr>"

definition halted :: "Processor \<Rightarrow> Processor \<times> ProcessResult res" where
  "halted s =
     (case read_episode (pr_kill s) of
        None \<Rightarrow> (audit_event ''halted'' [(''episode'', JNull)] s, Inr (bare_result Halted))
      | Some v \<Rightarrow> (case json_or v (JObj []) of
          JObj d \<Rightarrow> (audit_event ''halted'' [(''episode'', jget d ''episode'')] s, Inr (bare_result Halted))
        | _ \<Rightarrow> (s, Inl AttributeError)))"

section \<open>Artifacts that are no decision\<close>

definition artifact_key :: "json_hash \<Rightarrow> json option \<Rightarrow> string option" where
  "artifact_key h raw = (case raw of Some (JObj d) \<Rightarrow> Some (sha256_of h (JObj d)) | _ \<Rightarrow> None)"

definition invalid_artifact :: "process_env \<Rightarrow> Admission option \<Rightarrow> json option \<Rightarrow> Processor \<Rightarrow> Processor \<times> ProcessResult res" where
  "invalid_artifact e admission raw s =
     (let record = (\<lambda>s. (notify_error e ''invalid_decision'' (audit_event ''rejected_invalid''
            [(''path'', JStr (af_path (pe_file e)))] (settle e admission s)), Inr (bare_result Invalid)))
      in
      case artifact_key (pe_hash e) raw of
        None \<Rightarrow> record s
      | Some key \<Rightarrow>
          if key = [] then record s
          else (case is_processed key None (pr_journal s) of
              Inl x \<Rightarrow> (s, Inl x)
            | Inr True \<Rightarrow> (s, Inr (bare_result SkippedDuplicate))
            | Inr False \<Rightarrow>
                (let ticker = (case raw of Some (JObj d) \<Rightarrow> or_str (pe_text e) (jget d ''ticker'') | _ \<Rightarrow> []) in
                 record (s\<lparr>pr_journal := mark_processed key ticker (af_path (pe_file e)) ''invalid'' None
                   (isoformat_seconds (pe_now e)) (pr_journal s)\<rparr>))))"

section \<open>Holds and candidates\<close>

fun gate_text :: "gate_name \<Rightarrow> string" where
  "gate_text NMandate = ''mandate''" | "gate_text NSleeveCapital = ''sleeve_capital''"
| "gate_text NHouseDrawdown = ''house_drawdown''" | "gate_text NHouseCvar = ''house_cvar''"
| "gate_text NCorrelationStress = ''correlation_stress''" | "gate_text NVolRegime = ''vol_regime''"
| "gate_text NMarketRegime = ''market_regime''" | "gate_text NKnifeGuard = ''knife_guard''"
| "gate_text NConcentration = ''concentration''" | "gate_text NLiquidity = ''liquidity''"
| "gate_text NCost = ''cost''" | "gate_text NWash = ''wash''" | "gate_text NShortability = ''shortability''"
| "gate_text NData = ''data''" | "gate_text NTime = ''time''" | "gate_text NHalt = ''halt''"
| "gate_text NApproval = ''approval''"

definition run_id_of :: "process_env \<Rightarrow> ResearchDecision \<Rightarrow> string option" where
  "run_id_of e rd =
     (let run = (case jget (dn_extra rd) ''producer'' of JObj p \<Rightarrow> jget p ''run_id'' | _ \<Rightarrow> JNull);
          v = json_or run (jget (dn_extra rd) ''run_id'')
      in if v = JNull then None else Some (py_str (pe_text e) v))"

definition rating_text :: "ResearchDecision \<Rightarrow> string" where
  "rating_text rd = (case dn_rating rd of None \<Rightarrow> ''None'' | Some r \<Rightarrow> r)"

definition monitor_hold ::
  "process_env \<Rightarrow> ResearchDecision \<Rightarrow> SignalContract \<Rightarrow> GateResult \<Rightarrow> bool \<Rightarrow> Processor \<Rightarrow> Processor \<times> bool res" where
  \<comment> \<open>\<open>_record_monitor\<close>\<close>
  "monitor_hold e rd c g blocked s =
     (let ticker = str_upper (dn_ticker rd); inside = (ticker \<in> set (md_allowed (pr_mandate s)));
          gate = map_option gate_text (sg_binding_gate g)
      in
      if str_upper (sc_action c) \<noteq> ''HOLD'' then (s, Inr False)
      else (case has_record ticker (dn_decision_hash rd) (pr_monitors s) of
          Inl x \<Rightarrow> (s, Inl x)
        | Inr True \<Rightarrow> (s, Inr False)
        | Inr False \<Rightarrow>
            (let s1 = s\<lparr>pr_monitors := record_monitor ticker (rating_text rd) (sc_action c) (dn_decision_hash rd)
                   inside blocked gate (run_id_of e rd) (isoformat_seconds (pe_now e)) (pr_monitors s)\<rparr>;
                 s2 = audit_event ''monitor'' [(''ticker'', JStr ticker), (''decision_hash'', JStr (dn_decision_hash rd)),
                   (''rating'', JStr (rating_text rd)), (''in_mandate'', JBool inside), (''blocked'', JBool blocked)] s1
             in (if blocked \<and> \<not> inside then notify e ''monitor'' [(''ticker'', JStr ticker),
                   (''decision_hash'', JStr (dn_decision_hash rd))] s2 else s2, Inr True))))"

definition PROMOTABLE_RATINGS :: "string list" where
  "PROMOTABLE_RATINGS = [''buy'', ''overweight'']"

definition promotable :: "ResearchDecision \<Rightarrow> RefData \<Rightarrow> GateResult \<Rightarrow> SignedMandate \<Rightarrow> bool" where
  \<comment> \<open>the failure whose sentence says \<open>not in mandate\<close> is the symbol check's\<close>
  "promotable rd ref g md \<longleftrightarrow>
     (let ticker = str_upper (dn_ticker rd) in
      ticker \<notin> set (md_allowed md) \<and> sg_binding_gate g = Some NMandate \<and> (NMandate, ''symbol'') \<in> set (sg_blocked g)
      \<and> str_lower (strip (str_or (dn_rating rd) [])) \<in> set PROMOTABLE_RATINGS
      \<and> (case rf_held_symbols ref of None \<Rightarrow> False | Some held \<Rightarrow> ticker \<notin> set held))"

definition offer_candidate ::
  "process_env \<Rightarrow> ResearchDecision \<Rightarrow> SignalContract \<Rightarrow> RefData \<Rightarrow> GateResult \<Rightarrow> Processor \<Rightarrow> Processor \<times> bool res" where
  "offer_candidate e rd c ref g s =
     (let ticker = str_upper (dn_ticker rd) in
      if \<not> promotable rd ref g (pr_mandate s) then (s, Inr False)
      else (case has_record ticker (dn_decision_hash rd) (pr_candidates s) of
          Inl x \<Rightarrow> (s, Inl x)
        | Inr True \<Rightarrow> (s, Inr False)
        | Inr False \<Rightarrow>
            (let s1 = s\<lparr>pr_candidates := record_candidate ticker (rating_text rd) (sc_action c) (dn_decision_hash rd)
                   (Some (sc_target_pct c)) (sc_stop_price c) (run_id_of e rd) (isoformat_seconds (pe_now e))
                   (pr_candidates s)\<rparr>;
                 s2 = audit_event ''mandate_candidate'' [(''ticker'', JStr ticker),
                   (''decision_hash'', JStr (dn_decision_hash rd)), (''rating'', JStr (rating_text rd)),
                   (''action'', JStr (sc_action c))] s1
             in (notify e ''mandate_candidate'' [(''ticker'', JStr ticker), (''action'', JStr (sc_action c)),
                   (''decision_hash'', JStr (dn_decision_hash rd))] s2, Inr True))))"

section \<open>The envelope\<close>

definition cost_band :: "RefData \<Rightarrow> (int \<times> int) res" where
  "cost_band ref =
     (case (rf_last ref, rf_spread_usd ref) of
        (Some l, Some spread) \<Rightarrow>
          if truthy l
          then rmap (\<lambda>half. (max 1 half, half + 3)) (int_of_json (JFloat (fdiv (fdiv spread (Fin 2)) l * Fin 10000)))
          else Inr (3, 8)
      | _ \<Rightarrow> Inr (3, 8))"

definition pad3 :: "nat \<Rightarrow> string" where
  \<comment> \<open>\<open>{n:03d}\<close>\<close>
  "pad3 n = replicate (3 - length (nat_text n)) (CHR ''0'') @ nat_text n"

definition signal_id :: "string \<Rightarrow> nat \<Rightarrow> string" where
  "signal_id dh seq = ''sg-'' @ take 8 dh @ ''-'' @ pad3 seq"

definition code_texts :: "(gate_name \<times> string) list \<Rightarrow> json" where
  "code_texts cs = JList (map (\<lambda>(n, c). JStr (gate_text n @ '': '' @ c)) cs)"

fun signal_verdict_text :: "signal_verdict \<Rightarrow> string" where
  "signal_verdict_text SPass = ''PASS''"
| "signal_verdict_text SDowngrade = ''DOWNGRADE''"
| "signal_verdict_text SBlock = ''BLOCK''"

fun permission_text :: "verdict \<Rightarrow> string" where
  "permission_text ALLOW = ''ALLOW''"
| "permission_text REDUCE = ''REDUCE''"
| "permission_text BLOCK = ''BLOCK''"

definition ref_dict :: "RefData \<Rightarrow> (string \<times> json) list" where
  "ref_dict r =
     [(''last'', opt_json JFloat (rf_last r)), (''vwap'', opt_json JFloat (rf_vwap r)),
      (''spread_usd'', opt_json JFloat (rf_spread_usd r)),
      (''ts'', opt_json (\<lambda>t. JStr (isoformat_seconds t)) (rf_ts r)), (''feed'', opt_json JStr (rf_feed r)),
      (''stale'', JBool (rf_stale r)), (''cash'', opt_json JFloat (rf_cash r)),
      (''buying_power'', opt_json JFloat (rf_buying_power r)), (''equity'', opt_json JFloat (rf_equity r)),
      (''market_open'', opt_json JBool (rf_market_open r)),
      (''asset_tradable'', opt_json JBool (rf_asset_tradable r)),
      (''positions_value'', opt_json JFloat (rf_positions_value r))]"

definition gates_dict :: "GateResult \<Rightarrow> (string \<times> json) list" where
  "gates_dict g =
     [(''verdict'', JStr (signal_verdict_text (sg_verdict g))), (''downgrades'', code_texts (sg_downgrades g)),
      (''blocked'', code_texts (sg_blocked g)), (''reasons'', code_texts (sg_failures g)),
      (''target_notional_usd'', opt_json JFloat (sg_target_notional_usd g)),
      (''approval_required'', JBool (sg_approval_required g))]"

definition build_envelope ::
  "process_env \<Rightarrow> ResearchDecision \<Rightarrow> SignalContract \<Rightarrow> GateResult \<Rightarrow> RefData \<Rightarrow> nat \<Rightarrow> string
     \<Rightarrow> (string \<times> json) list res" where
  "build_envelope e rd c g ref seq sleeve =
     rmap (\<lambda>(low, high).
       [(''signal_id'', JStr (signal_id (dn_decision_hash rd) seq)), (''decision_hash'', JStr (dn_decision_hash rd)),
        (''ticker'', JStr (sc_symbol c)), (''action'', JStr (sc_action c)), (''target_pct'', JFloat (sc_target_pct c)),
        (''score'', opt_json JFloat (sc_score c)), (''confidence'', opt_json JFloat (sc_confidence c)),
        (''stop'', opt_json JFloat (sc_stop_price c)), (''take_profit'', opt_json JFloat (sc_target_price c)),
        (''expiry'', JStr (sc_expiry c)), (''ref'', JObj (ref_dict ref)),
        (''expected_cost_band_bps'', JList [JInt low, JInt high]), (''gates'', JObj (gates_dict g)),
        (''approval'', JObj [(''state'', JStr (if sg_approval_required g then ''WAIT_FOR_APPROVAL'' else ''not_required''))]),
        (''sleeve'', JStr sleeve), (''opportunity_score'', opt_json JFloat (sc_opportunity_score c)),
        (''trade_permission'', JStr (permission_text (sg_trade_permission g))),
        (''binding_gate'', opt_json (\<lambda>n. JStr (gate_text n)) (sg_binding_gate g)),
        (''permission_reason_code'', JStr (sg_permission_reason_code g)),
        (''permission_reason'', code_texts (if sg_blocked g \<noteq> [] then sg_blocked g
           else if sg_downgrades g \<noteq> [] then sg_downgrades g else sg_failures g)),
        (''idempotency_key'', opt_json JStr (sc_idempotency_key c)), (''valid_until'', JNull),
        (''stop_kind'', JStr ''native''), (''schema_version'', JStr ''1.1.0''),
        (''emitted_at'', JStr (isoformat_seconds (pe_now e))), (''config_hash'', JStr (pe_config_hash e)),
        (''commit'', JStr (pe_commit e))])
       (cost_band ref)"

section \<open>One artifact\<close>

definition refuse_early ::
  "process_env \<Rightarrow> Admission option \<Rightarrow> ResearchDecision \<Rightarrow> string \<Rightarrow> Processor \<Rightarrow> Processor \<times> ProcessResult res" where
  "refuse_early e admission rd source s =
     (notify_error e source (audit_event ''rejected'' [(''ticker'', JStr (dn_ticker rd))] (settle e admission s)),
      Inr (bare_result Blocked))"

definition refuse_signal ::
  "process_env \<Rightarrow> Admission option \<Rightarrow> ResearchDecision \<Rightarrow> SignalContract \<Rightarrow> RefData \<Rightarrow> GateResult \<Rightarrow> string
     \<Rightarrow> Processor \<Rightarrow> Processor \<times> ProcessResult res" where
  \<comment> \<open>the branch of a \<open>BLOCK\<close>\<close>
  "refuse_signal e admission rd c ref g sleeve s =
     (let s1 = audit_event ''rejected'' [(''ticker'', JStr (dn_ticker rd)), (''decision_hash'', JStr (dn_decision_hash rd))]
            (s\<lparr>pr_journal := mark_processed (dn_decision_hash rd) (dn_ticker rd) (af_path (pe_file e)) ''blocked''
                 (Some (pr_mandate_hash s)) (isoformat_seconds (pe_now e)) (pr_journal s)\<rparr>) in
      sbind (monitor_hold e rd c g True s1) (\<lambda>s2 _.
      sbind (offer_candidate e rd c ref g s2) (\<lambda>s3 offered.
        (let s4 = (if offered then s3 else notify_error e ''signal_blocked'' s3);
             code = (case sg_binding_gate g of Some n \<Rightarrow> gate_text n | None \<Rightarrow> ''gate_block'');
             s5 = (case admission of None \<Rightarrow> s4
               | Some a \<Rightarrow> quarantine_signal e
                   [(''ticker'', JStr (dn_ticker rd)), (''action'', JStr (sc_action c)),
                    (''decision_hash'', JStr (dn_decision_hash rd)), (''sleeve'', JStr sleeve),
                    (''binding_gate'', opt_json (\<lambda>n. JStr (gate_text n)) (sg_binding_gate g)),
                    (''reasons'', code_texts (sg_blocked g))] code (ad_key a) s4)
         in (settle e admission s5, Inr (bare_result Blocked))))))"

definition commit_emission :: "process_env \<Rightarrow> Admission option \<Rightarrow> string \<Rightarrow> Processor \<Rightarrow> Processor" where
  "commit_emission e admission sid s =
     (case (pr_inbox s, admission) of
        (Some ib, Some a) \<Rightarrow> s\<lparr>pr_inbox := Some (commit (pe_text e) (pe_now e) (ad_key a) sid ib)\<rparr>
      | _ \<Rightarrow> s)"

definition emit ::
  "process_env \<Rightarrow> Admission option \<Rightarrow> ResearchDecision \<Rightarrow> (string \<times> json) list \<Rightarrow> string \<Rightarrow> Processor
     \<Rightarrow> Processor \<times> ProcessResult res" where
  \<comment> \<open>persist and notify\<close>
  "emit e admission rd envelope sid s =
     (let s1 = s\<lparr>pr_journal := mark_processed (dn_decision_hash rd) (dn_ticker rd) (af_path (pe_file e)) ''emitted''
            None (isoformat_seconds (pe_now e)) (pr_journal s)\<rparr> in
      case add_signal envelope (pr_journal s1) of
        Inl x \<Rightarrow> (s1, Inl x)
      | Inr journal \<Rightarrow>
          (let s2 = s1\<lparr>pr_journal := journal, pr_store := append_signal envelope (pr_store s1)\<rparr> in
           case write_latest envelope (pr_latest s2) of
             Inl x \<Rightarrow> (s2, Inl x)
           | Inr latest \<Rightarrow>
               (let s3 = notify e ''signal'' [(''signal_id'', JStr sid), (''envelope'', JObj envelope)]
                      (audit_event ''accepted'' [(''ticker'', JStr (dn_ticker rd)), (''decision_hash'', JStr (dn_decision_hash rd)),
                         (''signal_id'', JStr sid)] (s2\<lparr>pr_latest := latest\<rparr>));
                    s4 = (if pe_notify e \<and> \<not> pe_delivered e
                          then audit_event ''notifier_failed'' [(''ticker'', JStr (dn_ticker rd)), (''signal_id'', JStr sid)] s3
                          else s3)
                in (commit_emission e admission sid s4, Inr ((bare_result Emitted)\<lparr>ps_envelope := Some envelope\<rparr>)))))"

definition permit_signal ::
  "process_env \<Rightarrow> Admission option \<Rightarrow> ResearchDecision \<Rightarrow> SignalContract \<Rightarrow> RefData \<Rightarrow> GateResult \<Rightarrow> string
     \<Rightarrow> Processor \<Rightarrow> Processor \<times> ProcessResult res" where
  \<comment> \<open>from step 7 on\<close>
  "permit_signal e admission rd c ref g sleeve s =
     (let seq = length (json_rows (pr_store s)) + 1 in
      case build_envelope e rd c g ref seq sleeve of
        Inl x \<Rightarrow> (s, Inl x)
      | Inr envelope \<Rightarrow>
          sbind (monitor_hold e rd c g False s) (\<lambda>s1 _.
            if cfg_dry_run (pe_cfg e)
            then (audit_event ''dry_run'' [(''ticker'', JStr (dn_ticker rd)), (''decision_hash'', JStr (dn_decision_hash rd))]
                    (settle e admission s1), Inr ((bare_result DryRun)\<lparr>ps_envelope := Some envelope\<rparr>))
            else emit e admission rd envelope (signal_id (dn_decision_hash rd) seq) s1))"

definition journal_state_of :: "process_env \<Rightarrow> jsonl \<Rightarrow> journal_state res" where
  "journal_state_of e f =
     rbind (signals_today_count (pe_now e) f) (\<lambda>n.
     rmap (\<lambda>last. \<lparr>js_signals_today = n, js_last_signal = (case last of Some (JObj d) \<Rightarrow> Some d | _ \<Rightarrow> None),
        js_cooldown_hours = cfg_cooldown_hours (pe_cfg e),
        js_ingest_window_hours = cfg_ingest_window_hours (pe_cfg e)\<rparr>) (last_signal f))"

definition route_and_gate ::
  "process_env \<Rightarrow> Admission option \<Rightarrow> ResearchDecision \<Rightarrow> RefData \<Rightarrow> Processor \<Rightarrow> Processor \<times> ProcessResult res" where
  \<comment> \<open>steps 5 to 8\<close>
  "route_and_gate e admission rd ref s =
     (case build_signal_contract (pe_text e) rd (date_text (md_expires (pr_mandate s))) (pe_now e) (rf_equity ref) of
        Inl x \<Rightarrow> (s, Inl x)
      | Inr c \<Rightarrow>
          (case route_research (dn_extra rd) of
             Inl _ \<Rightarrow>
               (let (s', r) = refuse_early e admission rd ''routing_refused'' s in
                (quarantine_signal e [(''ticker'', JStr (dn_ticker rd)), (''decision_hash'', JStr (dn_decision_hash rd))]
                   ''sleeve_routing'' [] s', r))
           | Inr route \<Rightarrow>
               (case rbind (journal_state_of e (pr_journal s)) (\<lambda>js.
                        evaluate_signal rd c (pr_mandate s) ref js (pe_now e) (pe_cfg e)) of
                  Inl x \<Rightarrow> (s, Inl x)
                | Inr g \<Rightarrow>
                    if sg_verdict g = SBlock then refuse_signal e admission rd c ref g (rt_sleeve route) s
                    else permit_signal e admission rd c ref g (rt_sleeve route) s)))"

definition decide ::
  "process_env \<Rightarrow> Admission option \<Rightarrow> ResearchDecision \<Rightarrow> Processor \<Rightarrow> Processor \<times> ProcessResult res" where
  \<comment> \<open>steps 2 to 4\<close>
  "decide e admission rd s =
     (if date_of (pe_now e) < dn_effective_date rd
      then (audit_event ''rejected'' [(''ticker'', JStr (dn_ticker rd)), (''path'', JStr (af_path (pe_file e)))]
              (settle e admission s), Inr (bare_result Blocked))
      else (case is_processed (dn_decision_hash rd) (Some (pr_mandate_hash s)) (pr_journal s) of
          Inl x \<Rightarrow> (s, Inl x)
        | Inr True \<Rightarrow> (settle e admission s, Inr (bare_result SkippedDuplicate))
        | Inr False \<Rightarrow>
            (case pe_reference e of
               Inl x \<Rightarrow> (s, Inl x)
             | Inr (Some ref) \<Rightarrow> route_and_gate e admission rd ref s
             | Inr None \<Rightarrow>
                 if cfg_ref_required (pe_cfg e) then refuse_early e admission rd ''reference_unavailable'' s
                 else route_and_gate e admission rd no_reference
                        (audit_event ''warn'' [(''ticker'', JStr (dn_ticker rd))] s))))"

definition load_and_decide :: "process_env \<Rightarrow> Admission option \<Rightarrow> Processor \<Rightarrow> Processor \<times> ProcessResult res" where
  \<comment> \<open>step 1; the file is read again\<close>
  "load_and_decide e admission s =
     (if \<not> pe_utf8 e then (s, Inl ValueError)
      else case pe_body e of
        Some (Some raw) \<Rightarrow>
          (case parse_research_decision (pe_text e) (pe_hash e) raw of
             Inr rd \<Rightarrow> decide e admission rd s
           | Inl ContractError \<Rightarrow> invalid_artifact e admission (Some raw) s
           | Inl x \<Rightarrow> (s, Inl x))
      | _ \<Rightarrow> invalid_artifact e admission None s)"

definition process_body :: "process_env \<Rightarrow> Processor \<Rightarrow> Processor \<times> ProcessResult res" where
  \<comment> \<open>\<open>_process\<close>\<close>
  "process_body e s =
     (if is_expired (Mandate.truncate (pr_mandate s)) (pe_now e) then halted s
      else if is_halted (pr_kill s)
      then (let (kf, ep) = ensure_episode (pe_fresh e) (pe_now e) (pr_kill s); s1 = s\<lparr>pr_kill := kf\<rparr> in
            case ep of Inl x \<Rightarrow> (s1, Inl x)
            | Inr d \<Rightarrow> (case map_of d ''episode'' of None \<Rightarrow> (s1, Inl KeyError) | Some _ \<Rightarrow> halted s1))
      else (case pr_inbox s of
          None \<Rightarrow> load_and_decide e None s
        | Some ib \<Rightarrow>
            (let (ib', r) = admit (pe_text e) (pe_hash e) (pe_local e) (pe_now e) (pe_file e) ib;
                 s1 = s\<lparr>pr_inbox := Some ib'\<rparr>
             in case r of
                  Inl x \<Rightarrow> (s1, Inl x)
                | Inr a \<Rightarrow> (case ad_kind a of
                    Accepted \<Rightarrow> load_and_decide e (Some a) s1
                  | Deduped \<Rightarrow> (s1, Inr (bare_result SkippedDuplicate))
                  | DeadLettered \<Rightarrow> (s1, Inr (bare_result DeadLetteredArtifact))))))"

definition process :: "process_env \<Rightarrow> Processor \<Rightarrow> Processor \<times> ProcessResult res" where
  "process e s =
     (let (s', r) = process_body e s in (s', rmap (\<lambda>p. p\<lparr>ps_path := af_path (pe_file e)\<rparr>) r))"

section \<open>Reloading the mandate\<close>

datatype reload = Unchanged | Reloaded | ReloadInvalid

definition reload_failed :: "process_env \<Rightarrow> string \<Rightarrow> Processor \<Rightarrow> Processor \<times> reload res" where
  "reload_failed e detail s =
     (if pr_reload_failure s = Some detail then s
      else notify_error e ''mandate_reload_failed'' (audit_event ''mandate_reload_failed'' [(''detail'', JStr detail)]
             (s\<lparr>pr_reload_failure := Some detail\<rparr>)),
      Inr ReloadInvalid)"

definition refresh_mandate ::
  "process_env \<Rightarrow> (int \<times> int) option \<Rightarrow> json_file \<Rightarrow> string \<Rightarrow> Processor \<Rightarrow> Processor \<times> reload res" where
  \<comment> \<open>the file's stamp, its contents and the sentence of the failure, if there is one\<close>
  "refresh_mandate e stamp file detail s =
     (case stamp of
        None \<Rightarrow> reload_failed e detail s
      | Some st \<Rightarrow>
          if pr_mandate_stamp s = Some st then (s, Inr Unchanged)
          else (case load_mandate (pe_text e) (pe_hash e) file of
              Inl MandateError \<Rightarrow> reload_failed e detail s
            | Inl x \<Rightarrow> (s, Inl x)
            | Inr fresh \<Rightarrow>
                if sm_hash fresh = pr_mandate_hash s then (s\<lparr>pr_mandate_stamp := Some st\<rparr>, Inr Unchanged)
                else (audit_event ''mandate_reloaded'' [(''old_hash'', JStr (pr_mandate_hash s)),
                        (''new_hash'', JStr (sm_hash fresh)), (''allowed'', JList (map JStr (sort (md_allowed fresh))))]
                        (s\<lparr>pr_mandate := fresh, pr_mandate_hash := sm_hash fresh, pr_mandate_stamp := Some st,
                           pr_reload_failure := None\<rparr>),
                      Inr Reloaded)))"

end
