(* ===== verification/ProcessorRuns.thy ===== *)
theory ProcessorRuns
  imports Processor
begin

text \<open>
  What a call of the processor leaves behind. \<open>later\<close> says that the files only grow, \<open>calm\<close> that
  nothing was emitted; each operation has one lemma for both. \<open>emits_once\<close> interprets the locale
  \<open>once_only\<close> on the journal: no run emits a decision twice, whatever the mandate does in between.
\<close>

named_theorems step_facts \<open>what an operation of the processor keeps\<close>

definition later :: "Processor \<Rightarrow> Processor \<Rightarrow> bool" where
  "later s s' \<longleftrightarrow> grows (pr_journal s) (pr_journal s') \<and> grows (pr_store s) (pr_store s')
     \<and> (\<forall>ib. pr_inbox s = Some ib \<longrightarrow> (\<exists>ib'. pr_inbox s' = Some ib' \<and> grows (ib_rows ib) (ib_rows ib')))
     \<and> pr_mandate s' = pr_mandate s \<and> pr_mandate_hash s' = pr_mandate_hash s"

definition calm :: "Processor \<Rightarrow> Processor \<Rightarrow> bool" where
  "calm s s' \<longleftrightarrow> later s s' \<and> pr_store s' = pr_store s \<and> pr_latest s' = pr_latest s
     \<and> emissions (pr_journal s') = emissions (pr_journal s)"

lemma grows_mark [simp]: "grows f (mark_processed dh ticker path outcome mh stamp f)"
  by (simp add: mark_processed_def)

lemma calm_refl [simp]: "calm s s"
  by (simp add: calm_def later_def)

lemma calm_later: "calm s s' \<Longrightarrow> later s s'"
  by (simp add: calm_def)

lemma later_trans: "later s t \<Longrightarrow> later t u \<Longrightarrow> later s u"
  unfolding later_def by (metis grows_trans)

lemma calm_trans: "calm s t \<Longrightarrow> calm t u \<Longrightarrow> calm s u"
  unfolding calm_def by (auto intro: later_trans)

lemma calm_simps [simp]:
  "calm s (audit_event k d t) = calm s t" "calm s (notify e k d t) = calm s t" "calm s (notify_error e src t) = calm s t"
  "calm s (t\<lparr>pr_monitors := m\<rparr>) = calm s t" "calm s (t\<lparr>pr_candidates := m\<rparr>) = calm s t"
  "calm s (t\<lparr>pr_kill := kf\<rparr>) = calm s t" "calm s (t\<lparr>pr_reload_failure := x\<rparr>) = calm s t"
  by (simp_all add: calm_def later_def audit_event_def notify_def notify_error_def)

lemma calm_settle [simp]: "calm s t \<Longrightarrow> calm s (settle e a t)"
  by (auto simp: calm_def later_def settle_def split: option.split) (metis commit_grows grows_trans)

lemma calm_quarantine [simp]: "calm s t \<Longrightarrow> calm s (quarantine_signal e env code key t)"
  by (auto simp: calm_def later_def quarantine_signal_def)

lemma calm_mark [simp]: "calm s t \<Longrightarrow> calm s (t\<lparr>pr_journal := mark_processed dh tk p oc mh st (pr_journal t)\<rparr>)"
  by (auto simp: calm_def later_def mark_processed_marks intro: grows_trans)

lemma monitor_hold_calm: "monitor_hold e rd c g b s = (s', r) \<Longrightarrow> calm s s'"
  by (auto simp: monitor_hold_def Let_def split: if_splits sum.splits bool.splits)

lemma offer_candidate_calm: "offer_candidate e rd c ref g s = (s', r) \<Longrightarrow> calm s s'"
  by (auto simp: offer_candidate_def Let_def split: if_splits sum.splits bool.splits)

section \<open>Calls that emit nothing\<close>

definition silent :: "Processor \<Rightarrow> Processor \<times> ProcessResult res \<Rightarrow> bool" where
  "silent s out \<longleftrightarrow> calm s (fst out) \<and> (\<forall>p. snd out = Inr p \<longrightarrow> ps_kind p \<noteq> Emitted)"

lemma verdict_kind [simp]: "ps_kind (bare_result k) = k" "ps_envelope (bare_result k) = None"
  by (simp_all add: bare_result_def)

lemma halted_silent: "silent s (halted s)"
  by (simp add: silent_def halted_def split: option.split json.split)

lemma invalid_silent: "silent s (invalid_artifact e a raw s)"
  by (simp add: silent_def invalid_artifact_def Let_def split: option.split sum.split bool.split)

lemma refuse_early_silent: "silent s (refuse_early e a rd src s)"
  by (simp add: silent_def refuse_early_def)

lemma refuse_signal_silent: "silent s (refuse_signal e a rd c ref g sleeve s)"
proof -
  let ?s1 = "audit_event ''rejected'' [(''ticker'', JStr (dn_ticker rd)), (''decision_hash'', JStr (dn_decision_hash rd))]
      (s\<lparr>pr_journal := mark_processed (dn_decision_hash rd) (dn_ticker rd) (af_path (pe_file e)) ''blocked''
          (Some (pr_mandate_hash s)) (isoformat_seconds (pe_now e)) (pr_journal s)\<rparr>)"
  have q1: "calm s ?s1" by simp
  obtain s2 r2 where m: "monitor_hold e rd c g True ?s1 = (s2, r2)" by (cases "monitor_hold e rd c g True ?s1")
  obtain s3 r3 where o: "offer_candidate e rd c ref g s2 = (s3, r3)" by (cases "offer_candidate e rd c ref g s2")
  have q2: "calm s s2" and q3: "calm s s3"
    using q1 monitor_hold_calm [OF m] offer_candidate_calm [OF o] by (blast intro: calm_trans)+
  show ?thesis
    using q2 q3 m o by (cases r2; cases r3) (auto simp: refuse_signal_def silent_def Let_def split: option.split)
qed

section \<open>The emission\<close>

definition emitted :: "Processor \<Rightarrow> string \<Rightarrow> (string \<times> json) list \<Rightarrow> Processor \<Rightarrow> bool" where
  \<comment> \<open>one signal row in the journal after one mark without a mandate, one line in the store\<close>
  "emitted s dh envelope s' \<longleftrightarrow> later s s'
     \<and> marks (pr_journal s') = marks (pr_journal s) @ [(JStr dh, JNull)]
     \<and> pr_store s' = append_signal envelope (pr_store s)
     \<and> length (emissions (pr_journal s')) = Suc (length (emissions (pr_journal s)))
     \<and> (\<exists>a b. pr_journal s' = pr_journal s @ [Some (JObj a), Some (JObj b)] \<and> jget a ''type'' = JStr ''processed''
          \<and> jget a ''decision_hash'' = JStr dh \<and> jget a ''mandate_hash'' = JNull)"

lemma later_audit [simp]:
  "later s (audit_event k d t) = later s t" "later s (notify e k d t) = later s t" "later s (t\<lparr>pr_latest := l\<rparr>) = later s t"
  by (simp_all add: later_def audit_event_def notify_def)

lemma later_commit [simp]: "later s t \<Longrightarrow> later s (commit_emission e a sid t)"
  by (auto simp: later_def commit_emission_def split: option.split) (metis commit_grows grows_trans)

lemma files_simps [simp]:
  "pr_journal (audit_event k d t) = pr_journal t" "pr_store (audit_event k d t) = pr_store t"
  "pr_journal (notify e k d t) = pr_journal t" "pr_store (notify e k d t) = pr_store t"
  "pr_journal (commit_emission e a sid t) = pr_journal t" "pr_store (commit_emission e a sid t) = pr_store t"
  by (simp_all add: audit_event_def notify_def commit_emission_def split: option.split)

lemma add_signal_append:
  "add_signal envelope f = Inr f' \<Longrightarrow> \<exists>b. f' = f @ [Some (JObj b)]"
  unfolding add_signal_def by (elim rbind_InrE rmap_InrE) (simp add: append_line_def)

lemma mark_append:
  "\<exists>a. mark_processed dh tk p oc mh st f = f @ [Some (JObj a)] \<and> jget a ''type'' = JStr ''processed''
     \<and> jget a ''decision_hash'' = JStr dh \<and> jget a ''mandate_hash'' = opt_json JStr mh"
  by (cases mh) (simp_all add: mark_processed_def append_line_def jget_def opt_json_def)

lemma later_files:
  assumes "grows (pr_journal s) f"
  shows "later s (s\<lparr>pr_journal := f\<rparr>)" "later s (s\<lparr>pr_journal := f, pr_store := append_signal env (pr_store s)\<rparr>)"
  using assms by (auto simp: later_def append_signal_def)

lemma emit_later: "later s (fst (emit e a rd envelope sid s))"
proof -
  have "grows (pr_journal s) f'"
    if "add_signal envelope (mark_processed dh tk p oc mh st (pr_journal s)) = Inr f'" for dh tk p oc mh st f'
    using add_signal_append [OF that] grows_mark [of "pr_journal s" dh tk p oc mh st] by (auto simp: grows_def)
  then show ?thesis
    by (simp add: emit_def Let_def later_files split: sum.split)
qed

lemma emit_emits:
  assumes "emit e a rd envelope sid s = (s', Inr p)"
  shows "emitted s (dn_decision_hash rd) envelope s' \<and> ps_kind p = Emitted \<and> ps_envelope p = Some envelope"
proof -
  let ?j = "mark_processed (dn_decision_hash rd) (dn_ticker rd) (af_path (pe_file e)) ''emitted'' None
      (isoformat_seconds (pe_now e)) (pr_journal s)"
  from assms obtain f' l where add: "add_signal envelope ?j = Inr f'"
    and p: "p = (bare_result Emitted)\<lparr>ps_envelope := Some envelope\<rparr>"
    and s': "pr_journal s' = f'" "pr_store s' = append_signal envelope (pr_store s)"
    by (auto simp: emit_def Let_def split: sum.splits)
  obtain x where x: "?j = pr_journal s @ [Some (JObj x)]" "jget x ''type'' = JStr ''processed''"
    "jget x ''decision_hash'' = JStr (dn_decision_hash rd)" "jget x ''mandate_hash'' = JNull"
    using mark_append [of "dn_decision_hash rd" "dn_ticker rd" "af_path (pe_file e)" "''emitted''" None
        "isoformat_seconds (pe_now e)" "pr_journal s"] by (auto simp: opt_json_def)
  obtain y where y: "f' = ?j @ [Some (JObj y)]" using add_signal_append [OF add] by blast
  have m: "marks f' = marks (pr_journal s) @ [(JStr (dn_decision_hash rd), JNull)]"
    using add_signal_emissions(1) [OF add] by (simp add: mark_processed_marks opt_json_def)
  have em: "length (emissions f') = Suc (length (emissions (pr_journal s)))"
    using add_signal_emissions(2) [OF add] by (auto simp: mark_processed_marks)
  have l: "later s s'" using emit_later [of s e a rd envelope sid] assms by simp
  have j: "\<exists>x y. pr_journal s' = pr_journal s @ [Some (JObj x), Some (JObj y)] \<and> jget x ''type'' = JStr ''processed''
     \<and> jget x ''decision_hash'' = JStr (dn_decision_hash rd) \<and> jget x ''mandate_hash'' = JNull"
    using x y s'(1) by auto
  show ?thesis using l j m em s' p by (simp add: emitted_def bare_result_def)
qed

section \<open>A whole call\<close>

definition sound :: "Processor \<Rightarrow> Processor \<times> ProcessResult res \<Rightarrow> (string \<Rightarrow> (string \<times> json) list \<Rightarrow> bool) \<Rightarrow> bool" where
  \<comment> \<open>it is calm, or it emits one envelope of a decision for which the condition holds\<close>
  "sound s out P \<longleftrightarrow> later s (fst out)
     \<and> (\<forall>p. snd out = Inr p \<longrightarrow> ps_kind p = Emitted \<longrightarrow>
          (\<exists>dh envelope. ps_envelope p = Some envelope \<and> emitted s dh envelope (fst out) \<and> P dh envelope))
     \<and> (\<forall>p. snd out = Inr p \<longrightarrow> ps_kind p \<noteq> Emitted \<longrightarrow> calm s (fst out))"

lemma silent_sound: "silent s out \<Longrightarrow> sound s out P"
  by (auto simp: sound_def silent_def calm_later)

lemma sound_mono: "sound s out P \<Longrightarrow> (\<And>dh env. P dh env \<Longrightarrow> Q dh env) \<Longrightarrow> sound s out Q"
  unfolding sound_def by blast

lemma sound_after:
  assumes "calm s t" "pr_journal t = pr_journal s" "sound t out P" shows "sound s out P"
proof -
  have st: "pr_store t = pr_store s" "later s t" using assms(1) by (simp_all add: calm_def)
  have e: "emitted s dh env u" if "emitted t dh env u" for dh env u
    using that st(1) later_trans [OF st(2)] by (simp add: emitted_def assms(2))
  have l: "later s (fst out)" using assms(3) st(2) later_trans by (auto simp: sound_def)
  show ?thesis
    using assms(3) e l calm_trans [OF assms(1)] unfolding sound_def by blast
qed

lemma sound_raise [simp]: "sound s (s, Inl x) P"
  by (simp add: sound_def calm_later)

lemma monitor_hold_files:
  "monitor_hold e rd c g b s = (s', r) \<Longrightarrow> pr_journal s' = pr_journal s \<and> pr_store s' = pr_store s"
  by (auto simp: monitor_hold_def Let_def split: if_splits sum.splits bool.splits)

definition fitting :: "process_env \<Rightarrow> ResearchDecision \<Rightarrow> SignalContract \<Rightarrow> GateResult \<Rightarrow> RefData \<Rightarrow> nat
    \<Rightarrow> string \<Rightarrow> string \<Rightarrow> (string \<times> json) list \<Rightarrow> bool" where
  "fitting e rd c g ref seq sleeve dh envelope \<longleftrightarrow>
     dh = dn_decision_hash rd \<and> build_envelope e rd c g ref seq sleeve = Inr envelope \<and> \<not> cfg_dry_run (pe_cfg e)"

lemma permit_sound:
  "sound s (permit_signal e a rd c ref g sleeve s)
     (fitting e rd c g ref (length (json_rows (pr_store s)) + 1) sleeve)"
proof (cases "build_envelope e rd c g ref (length (json_rows (pr_store s)) + 1) sleeve")
  case (Inl x)
  then show ?thesis by (simp add: permit_signal_def)
next
  case env: (Inr envelope)
  obtain s1 r where m: "monitor_hold e rd c g False s = (s1, r)" by (cases "monitor_hold e rd c g False s")
  note q = monitor_hold_calm [OF m] and f = monitor_hold_files [OF m]
  let ?sid = "signal_id (dn_decision_hash rd) (Suc (length (json_rows (pr_store s))))"
  show ?thesis
  proof (cases r)
    case (Inl x)
    with env m q show ?thesis by (simp add: permit_signal_def sound_def calm_later)
  next
    case (Inr b)
    show ?thesis
    proof (cases "cfg_dry_run (pe_cfg e)")
      case True
      with env m q Inr show ?thesis by (simp add: permit_signal_def sound_def calm_later)
    next
      case False
      have "sound s1 (emit e a rd envelope ?sid s1) (fitting e rd c g ref (length (json_rows (pr_store s)) + 1) sleeve)"
        using emit_later [of s1 e a rd envelope ?sid] emit_emits [of e a rd envelope ?sid s1] env False
        by (auto simp: sound_def fitting_def prod_eq_iff)
      with False env m Inr f sound_after [OF q] show ?thesis by (simp add: permit_signal_def)
    qed
  qed
qed

definition gated :: "process_env \<Rightarrow> Processor \<Rightarrow> ResearchDecision \<Rightarrow> RefData \<Rightarrow> string \<Rightarrow> (string \<times> json) list \<Rightarrow> bool" where
  "gated e s rd ref dh envelope \<longleftrightarrow> (\<exists>c route js g.
     build_signal_contract (pe_text e) rd (date_text (md_expires (pr_mandate s))) (pe_now e) (rf_equity ref) = Inr c
     \<and> route_research (dn_extra rd) = Inr route \<and> journal_state_of e (pr_journal s) = Inr js
     \<and> evaluate_signal rd c (pr_mandate s) ref js (pe_now e) (pe_cfg e) = Inr g \<and> gate_passed g
     \<and> fitting e rd c g ref (length (json_rows (pr_store s)) + 1) (rt_sleeve route) dh envelope)"

lemma route_sound: "sound s (route_and_gate e a rd ref s) (gated e s rd ref)"
proof (cases "build_signal_contract (pe_text e) rd (date_text (md_expires (pr_mandate s))) (pe_now e) (rf_equity ref)")
  case (Inl x)
  then show ?thesis by (simp add: route_and_gate_def)
next
  case c: (Inr c)
  show ?thesis
  proof (cases "route_research (dn_extra rd)")
    case (Inl x)
    have "silent s (refuse_early e a rd ''routing_refused'' s)" by (rule refuse_early_silent)
    then have "silent s (route_and_gate e a rd ref s)"
      using c Inl by (auto simp: route_and_gate_def silent_def split: prod.split)
    then show ?thesis by (rule silent_sound)
  next
    case route: (Inr route)
    let ?g = "rbind (journal_state_of e (pr_journal s)) (\<lambda>js.
                evaluate_signal rd c (pr_mandate s) ref js (pe_now e) (pe_cfg e))"
    show ?thesis
    proof (cases ?g)
      case (Inl x)
      with c route show ?thesis by (simp add: route_and_gate_def)
    next
      case (Inr g)
      then obtain js where js: "journal_state_of e (pr_journal s) = Inr js"
        "evaluate_signal rd c (pr_mandate s) ref js (pe_now e) (pe_cfg e) = Inr g" by (elim rbind_InrE)
      show ?thesis
      proof (cases "sg_verdict g = SBlock")
        case True
        with c route Inr show ?thesis
          by (simp add: route_and_gate_def silent_sound [OF refuse_signal_silent])
      next
        case False
        then have pass: "gate_passed g" using signal_verdict_block [OF js(2)] by simp
        have "sound s (permit_signal e a rd c ref g (rt_sleeve route) s) (gated e s rd ref)"
          by (rule sound_mono [OF permit_sound]) (use c route js pass in \<open>unfold gated_def, blast\<close>)
        with c route Inr False show ?thesis by (simp add: route_and_gate_def)
      qed
    qed
  qed
qed

definition timely :: "process_env \<Rightarrow> Processor \<Rightarrow> ResearchDecision \<Rightarrow> string \<Rightarrow> (string \<times> json) list \<Rightarrow> bool" where
  "timely e s rd dh envelope \<longleftrightarrow> dn_effective_date rd \<le> date_of (pe_now e)
     \<and> is_processed (dn_decision_hash rd) (Some (pr_mandate_hash s)) (pr_journal s) = Inr False
     \<and> (\<exists>ref. (pe_reference e = Inr (Some ref)
           \<or> pe_reference e = Inr None \<and> \<not> cfg_ref_required (pe_cfg e) \<and> ref = no_reference)
         \<and> gated e s rd ref dh envelope)"

lemma sound_settle [simp]: "ps_kind p \<noteq> Emitted \<Longrightarrow> calm s t \<Longrightarrow> sound s (t, Inr p) P"
  by (simp add: sound_def calm_later)

lemma gated_audit [simp]: "gated e (audit_event k d s) = gated e s"
  by (simp add: gated_def audit_event_def fun_eq_iff)

lemma decide_sound: "sound s (decide e a rd s) (timely e s rd)"
proof (cases "date_of (pe_now e) < dn_effective_date rd")
  case True
  then show ?thesis by (simp add: decide_def)
next
  case now: False
  have warn: "sound s (route_and_gate e a rd no_reference (audit_event k d s)) (gated e s rd no_reference)" for k d
    using sound_after [OF _ _ route_sound [of "audit_event k d s" e a rd no_reference], of s] by simp
  consider x where "is_processed (dn_decision_hash rd) (Some (pr_mandate_hash s)) (pr_journal s) = Inl x"
    | "is_processed (dn_decision_hash rd) (Some (pr_mandate_hash s)) (pr_journal s) = Inr True"
    | "is_processed (dn_decision_hash rd) (Some (pr_mandate_hash s)) (pr_journal s) = Inr False"
    by (metis (full_types) sum.exhaust)
  then show ?thesis
  proof cases
    case 3
    consider x where "pe_reference e = Inl x" | ref where "pe_reference e = Inr (Some ref)"
      | "pe_reference e = Inr None" "cfg_ref_required (pe_cfg e)"
      | "pe_reference e = Inr None" "\<not> cfg_ref_required (pe_cfg e)"
      by (metis not_None_eq sum.exhaust)
    then show ?thesis
    proof cases
      case (2 ref)
      have "sound s (route_and_gate e a rd ref s) (timely e s rd)"
        by (rule sound_mono [OF route_sound]) (use now 3 2 in \<open>auto simp: timely_def\<close>)
      with now 3 2 show ?thesis by (simp add: decide_def)
    next
      case c3: 3
      with now 3 show ?thesis by (simp add: decide_def silent_sound [OF refuse_early_silent])
    next
      case 4
      have "sound s (route_and_gate e a rd no_reference (audit_event k d s)) (timely e s rd)" for k d
        by (rule sound_mono [OF warn]) (use now 3 4 in \<open>auto simp: timely_def\<close>)
      with now 3 4 show ?thesis by (simp add: decide_def)
    qed (use now 3 in \<open>simp add: decide_def\<close>)
  qed (use now in \<open>simp_all add: decide_def\<close>)
qed

definition admitted :: "process_env \<Rightarrow> Processor \<Rightarrow> bool" where
  "admitted e s \<longleftrightarrow> (case pr_inbox s of None \<Rightarrow> True
     | Some ib \<Rightarrow> (\<exists>ib' a. admit (pe_text e) (pe_hash e) (pe_local e) (pe_now e) (pe_file e) ib = (ib', Inr a)
         \<and> ad_kind a = Accepted))"

definition warranted :: "process_env \<Rightarrow> Processor \<Rightarrow> string \<Rightarrow> (string \<times> json) list \<Rightarrow> bool" where
  "warranted e s dh envelope \<longleftrightarrow>
     date_of (pe_now e) \<le> md_expires (pr_mandate s) \<and> \<not> kf_sentinel (pr_kill s) \<and> admitted e s
     \<and> (\<exists>raw rd. pe_utf8 e \<and> pe_body e = Some (Some raw) \<and> parse_research_decision (pe_text e) (pe_hash e) raw = Inr rd
          \<and> timely e s rd dh envelope)"

lemma load_sound:
  "sound s (load_and_decide e a s) (\<lambda>dh env. \<exists>raw rd. pe_utf8 e \<and> pe_body e = Some (Some raw)
     \<and> parse_research_decision (pe_text e) (pe_hash e) raw = Inr rd \<and> timely e s rd dh env)"
proof (cases "\<exists>raw rd. pe_utf8 e \<and> pe_body e = Some (Some raw) \<and> parse_research_decision (pe_text e) (pe_hash e) raw = Inr rd")
  case True
  then obtain raw rd where r: "pe_utf8 e" "pe_body e = Some (Some raw)" "parse_research_decision (pe_text e) (pe_hash e) raw = Inr rd"
    by blast
  show ?thesis
    by (rule sound_mono [of s _ "timely e s rd"]) (use r decide_sound [of s e a rd] in \<open>auto simp: load_and_decide_def\<close>)
next
  case False
  then have "silent s (load_and_decide e a s)"
    using invalid_silent [of s e a]
    by (auto simp: load_and_decide_def silent_def split: option.split sum.split exc.split)
  then show ?thesis by (rule silent_sound)
qed

lemma timely_inbox [simp]: "timely e (s\<lparr>pr_inbox := x\<rparr>) = timely e s"
  by (simp add: timely_def gated_def fun_eq_iff)

lemma calm_inbox:
  "pr_inbox s = Some ib \<Longrightarrow> grows (ib_rows ib) (ib_rows ib') \<Longrightarrow> calm s (s\<lparr>pr_inbox := Some ib'\<rparr>)"
  by (simp add: calm_def later_def)

lemma halted_body_sound:
  assumes "kf_sentinel (pr_kill s)" "\<not> is_expired (Mandate.truncate (pr_mandate s)) (pe_now e)"
  shows "sound s (process_body e s) P"
proof -
  obtain kf ep where k: "ensure_episode (pe_fresh e) (pe_now e) (pr_kill s) = (kf, ep)"
    by (cases "ensure_episode (pe_fresh e) (pe_now e) (pr_kill s)")
  have "sound s (halted (s\<lparr>pr_kill := kf\<rparr>)) P"
    by (rule sound_after [OF _ _ silent_sound [OF halted_silent]]) simp_all
  moreover have "sound s (s\<lparr>pr_kill := kf\<rparr>, Inl x) P" for x
    by (simp add: sound_def calm_later)
  ultimately show ?thesis
    using assms k by (simp add: process_body_def is_halted_def Let_def split: sum.split option.split)
qed

lemma process_body_sound: "sound s (process_body e s) (warranted e s)"
proof (cases "is_expired (Mandate.truncate (pr_mandate s)) (pe_now e)")
  case True
  then show ?thesis by (simp add: process_body_def silent_sound [OF halted_silent])
next
  case live: False
  show ?thesis
  proof (cases "kf_sentinel (pr_kill s)")
    case True
    with live show ?thesis by (simp add: halted_body_sound)
  next
    case on: False
    have due: "date_of (pe_now e) \<le> md_expires (pr_mandate s)" using live by (simp add: is_expired_def not_less)
    show ?thesis
    proof (cases "pr_inbox s")
      case None
      have "sound s (load_and_decide e None s) (warranted e s)"
        by (rule sound_mono [OF load_sound]) (use None due on in \<open>auto simp: warranted_def admitted_def\<close>)
      with None live on show ?thesis by (simp add: process_body_def is_halted_def)
    next
      case (Some ib)
      obtain ib' r where ad: "admit (pe_text e) (pe_hash e) (pe_local e) (pe_now e) (pe_file e) ib = (ib', r)"
        by (cases "admit (pe_text e) (pe_hash e) (pe_local e) (pe_now e) (pe_file e) ib")
      note q = calm_inbox [OF Some admit_grows [OF ad]]
      have go: "sound s (load_and_decide e (Some a) (s\<lparr>pr_inbox := Some ib'\<rparr>)) (warranted e s)"
        if "r = Inr a" "ad_kind a = Accepted" for a
        by (rule sound_after [OF q _ sound_mono [OF load_sound]])
          (use Some due on ad that in \<open>auto simp: warranted_def admitted_def\<close>)
      show ?thesis
      proof (cases r)
        case (Inl x)
        with ad Some live on q show ?thesis by (simp add: process_body_def is_halted_def sound_def calm_later)
      next
        case (Inr a)
        with ad Some live on q go show ?thesis
          by (cases "ad_kind a") (simp_all add: process_body_def is_halted_def)
      qed
    qed
  qed
qed

lemma process_sound: "sound s (process e s) (warranted e s)"
proof -
  obtain s' r where b: "process_body e s = (s', r)" by (cases "process_body e s")
  with process_body_sound [of s e] show ?thesis
    by (cases r) (auto simp: process_def sound_def)
qed

section \<open>Once only\<close>

lemma processed_in_app: "processed_in (rows @ rest) dh mh = Inr False \<Longrightarrow> processed_in rows dh mh = Inr False"
proof (induction rows)
  case (Cons r rows)
  then show ?case by (cases r) (auto split: if_splits)
qed simp

lemma is_processed_grows: "grows f f' \<Longrightarrow> is_processed dh mh f' = Inr False \<Longrightarrow> is_processed dh mh f = Inr False"
  by (auto simp: is_processed_def grows_def json_rows_app intro: processed_in_app)

lemma processed_in_marked:
  assumes "jget a ''type'' = JStr ''processed''" "jget a ''decision_hash'' = JStr dh" "jget a ''mandate_hash'' = JNull"
  shows "processed_in (rows @ JObj a # rest) dh mh \<noteq> Inr False"
  using assms
proof (induction rows)
  case (Cons r rows)
  then show ?case by (cases r) auto
qed simp

datatype processor_op =
    Process process_env
  | Refresh process_env "(int \<times> int) option" json_file string

definition emission_of :: "ProcessResult res \<Rightarrow> string option" where
  \<comment> \<open>the decision a call emits\<close>
  "emission_of r =
     (case r of
        Inr p \<Rightarrow> (if ps_kind p = Emitted
          then (case ps_envelope p of
              Some env \<Rightarrow> (case jget env ''decision_hash'' of JStr dh \<Rightarrow> Some dh | _ \<Rightarrow> None)
            | None \<Rightarrow> None)
          else None)
      | Inl _ \<Rightarrow> None)"

fun processor_step :: "Processor \<Rightarrow> processor_op \<Rightarrow> Processor \<times> string option" where
  "processor_step s (Process e) = (let (s', r) = process e s in (s', emission_of r))"
| "processor_step s (Refresh e stamp file detail) = (fst (refresh_mandate e stamp file detail s), None)"

lemma refresh_files:
  "pr_journal (fst (refresh_mandate e stamp file detail s)) = pr_journal s"
  "pr_store (fst (refresh_mandate e stamp file detail s)) = pr_store s"
  "pr_inbox (fst (refresh_mandate e stamp file detail s)) = pr_inbox s"
  by (simp_all add: refresh_mandate_def reload_failed_def audit_event_def notify_error_def notify_def
      split: option.split sum.split exc.split)

lemma envelope_hash: "fitting e rd c g ref seq sleeve dh envelope \<Longrightarrow> jget envelope ''decision_hash'' = JStr dh"
  by (auto simp: fitting_def build_envelope_def rmap_Inr_iff jget_def)

lemma warranted_hash:
  assumes "warranted e s dh envelope"
  shows "jget envelope ''decision_hash'' = JStr dh"
    "is_processed dh (Some (pr_mandate_hash s)) (pr_journal s) = Inr False"
proof -
  from assms obtain rd where t: "timely e s rd dh envelope" by (auto simp: warranted_def)
  then show "jget envelope ''decision_hash'' = JStr dh"
    by (auto simp: timely_def gated_def intro: envelope_hash)
  from t have "dh = dn_decision_hash rd" by (auto simp: timely_def gated_def fitting_def)
  with t show "is_processed dh (Some (pr_mandate_hash s)) (pr_journal s) = Inr False" by (simp add: timely_def)
qed

lemma step_emission:
  assumes "processor_step s op = (s', Some dh)"
  obtains e envelope where "op = Process e" "warranted e s dh envelope" "emitted s dh envelope s'"
proof (cases op)
  case (Process e)
  obtain r where p: "process e s = (s', r)" and r: "emission_of r = Some dh"
    using assms Process by (auto split: prod.splits)
  then obtain x env where x: "r = Inr x" "ps_kind x = Emitted" "ps_envelope x = Some env" "jget env ''decision_hash'' = JStr dh"
    by (auto simp: emission_of_def split: sum.splits if_splits option.splits json.splits)
  with p process_sound [of s e] obtain dh' where "emitted s dh' env s'" "warranted e s dh' env"
    by (auto simp: sound_def)
  with warranted_hash(1) [of e s dh' env] x(4) Process show thesis by (intro that) auto
qed (use assms in simp)

lemma step_journal_grows:
  assumes "processor_step s op = (s', k)"
  shows "grows (pr_journal s) (pr_journal s')"
proof (cases op)
  case (Process e)
  with assms process_sound [of s e] show ?thesis by (auto simp: sound_def later_def split: prod.splits)
next
  case (Refresh e stamp doc detail)
  with assms have "s' = fst (refresh_mandate e stamp doc detail s)" by simp
  then show ?thesis by (simp add: refresh_files)
qed

interpretation emits_once: once_only processor_step "\<lambda>s dh. \<forall>mh. is_processed dh mh (pr_journal s) \<noteq> Inr False"
proof unfold_locales
  fix s op s' dh
  assume st: "processor_step s op = (s', Some dh)"
  then obtain e env where w: "warranted e s dh env" and em: "emitted s dh env s'" by (rule step_emission)
  show "\<not> (\<forall>mh. is_processed dh mh (pr_journal s) \<noteq> Inr False)" using warranted_hash(2) [OF w] by blast
  show "\<forall>mh. is_processed dh mh (pr_journal s') \<noteq> Inr False"
    using em processed_in_marked by (fastforce simp: emitted_def is_processed_def json_rows_def List.map_filter_def)
next
  fix s op s' out dh
  assume "processor_step s op = (s', out)" "\<forall>mh. is_processed dh mh (pr_journal s) \<noteq> Inr False"
  then show "\<forall>mh. is_processed dh mh (pr_journal s') \<noteq> Inr False"
    by (blast dest: step_journal_grows is_processed_grows)
qed

section \<open>Halted, shut, lost\<close>

lemma halted_appends:
  "halted t = (t', x) \<Longrightarrow> (case x of Inr p \<Rightarrow> ps_kind p = Halted \<and> (\<exists>v. t' = audit_event ''halted'' [(''episode'', v)] t)
     | Inl _ \<Rightarrow> t' = t)"
  by (auto simp: halted_def split: option.splits json.splits)

lemma halted_changes_nothing:
  assumes "kf_sentinel (pr_kill s) \<or> md_expires (pr_mandate s) < date_of (pe_now e)"
    "process e s = (s', r)"
  shows "\<exists>kf. kf = (if md_expires (pr_mandate s) < date_of (pe_now e) then pr_kill s
        else fst (ensure_episode (pe_fresh e) (pe_now e) (pr_kill s)))
    \<and> kf_sentinel kf = kf_sentinel (pr_kill s)
    \<and> (case r of Inr p \<Rightarrow> ps_kind p = Halted \<and> (\<exists>v. s' = audit_event ''halted'' [(''episode'', v)] (s\<lparr>pr_kill := kf\<rparr>))
       | Inl _ \<Rightarrow> s' = s\<lparr>pr_kill := kf\<rparr>)"
proof -
  obtain kf ep where k: "ensure_episode (pe_fresh e) (pe_now e) (pr_kill s) = (kf, ep)"
    by (cases "ensure_episode (pe_fresh e) (pe_now e) (pr_kill s)")
  obtain t' x where t: "halted s = (t', x)" by (cases "halted s")
  obtain u' y where u: "halted (s\<lparr>pr_kill := kf\<rparr>) = (u', y)" by (cases "halted (s\<lparr>pr_kill := kf\<rparr>)")
  have same: "s\<lparr>pr_kill := pr_kill s\<rparr> = s" by simp
  have sentinel: "kf_sentinel kf = kf_sentinel (pr_kill s)"
    using k by (auto simp: ensure_episode_def Let_def split: option.splits json.splits if_splits)
  show ?thesis
  proof (cases "is_expired (Mandate.truncate (pr_mandate s)) (pe_now e)")
    case True
    then have "s' = t'" "r = rmap (\<lambda>p. p\<lparr>ps_path := af_path (pe_file e)\<rparr>) x"
      using assms(2) t by (simp_all add: process_def process_body_def)
    with halted_appends [OF t] same True show ?thesis
      by (intro exI [of _ "pr_kill s"]) (cases x; auto simp: is_expired_def)
  next
    case False
    then have "kf_sentinel (pr_kill s)" using assms(1) by (simp add: is_expired_def)
    with False have "(s' = s\<lparr>pr_kill := kf\<rparr> \<and> (\<exists>z. r = Inl z)) \<or> (s' = u' \<and> r = rmap (\<lambda>p. p\<lparr>ps_path := af_path (pe_file e)\<rparr>) y)"
      using assms(2) k u by (auto simp: process_def process_body_def is_halted_def Let_def split: sum.splits option.splits)
    with halted_appends [OF u] k False sentinel show ?thesis
      by (intro exI [of _ kf]) (cases y; auto simp: is_expired_def)
  qed
qed

lemma halted_kind: "halted t = (t', Inr p) \<Longrightarrow> ps_kind p = Halted"
  by (auto simp: halted_def split: option.splits json.splits)

lemma admitted_body:
  assumes "pr_inbox s = Some ib" "process e s = (s', Inr p)" "ps_kind p \<in> {Emitted, DryRun, Blocked, Invalid}"
  obtains ib' a where "admit (pe_text e) (pe_hash e) (pe_local e) (pe_now e) (pe_file e) ib = (ib', Inr a)"
    "ad_kind a = Accepted" "later (s\<lparr>pr_inbox := Some ib'\<rparr>) s'"
proof -
  obtain p' where b: "process_body e s = (s', Inr p')" "ps_kind p' \<in> {Emitted, DryRun, Blocked, Invalid}"
    using assms(2,3) by (cases "process_body e s") (auto simp: process_def rmap_Inr_iff)
  have no: "halted t \<noteq> (s', Inr p')" for t
    using halted_kind [of t s' p'] b(2) by auto
  obtain ib' r where ad: "admit (pe_text e) (pe_hash e) (pe_local e) (pe_now e) (pe_file e) ib = (ib', r)"
    by (cases "admit (pe_text e) (pe_hash e) (pe_local e) (pe_now e) (pe_file e) ib")
  have l: "later t (fst (load_and_decide e a t))" for a t
    using load_sound [of t e a] by (simp add: sound_def)
  from b no assms(1) ad obtain a where a: "r = Inr a" "ad_kind a = Accepted"
    "load_and_decide e (Some a) (s\<lparr>pr_inbox := Some ib'\<rparr>) = (s', Inr p')"
    by (cases r) (auto simp: process_body_def bare_result_def Let_def
        split: if_splits prod.splits sum.splits option.splits admission_kind.splits)
  with ad l [of "s\<lparr>pr_inbox := Some ib'\<rparr>" "Some a"] show thesis by (intro that) auto
qed

text \<open>
  The boundary remembers an artifact for good. The journal binds a refusal to the mandate, so that a
  widened mandate reopens it; with the boundary in front, the artifact never gets there again.
\<close>

lemma decided_stays_shut:
  assumes "pr_inbox s = Some ib" "process e s = (s1, Inr p)" "ps_kind p \<in> {Emitted, DryRun, Blocked, Invalid}"
    "af_body (pe_file e) = Some (Some (JObj body))" "key_for (pe_text e) (pe_hash e) body \<noteq> []"
    and later: "pr_inbox s2 = pr_inbox s1" "pe_file e2 = pe_file e" "pe_text e2 = pe_text e" "pe_hash e2 = pe_hash e"
    and live: "\<not> kf_sentinel (pr_kill s2)" "date_of (pe_now e2) \<le> md_expires (pr_mandate s2)"
    and ok: "validate_envelope (pe_text e2) (pe_hash e2) (pe_local e2) (pe_now e2) (JObj body) = Inr ver"
  shows "\<exists>q. process e2 s2 = (s2, Inr q) \<and> ps_kind q = SkippedDuplicate"
proof -
  from assms(1-3) obtain ib' a where ad: "admit (pe_text e) (pe_hash e) (pe_local e) (pe_now e) (pe_file e) ib = (ib', Inr a)"
    "ad_kind a = Accepted" and l: "later (s\<lparr>pr_inbox := Some ib'\<rparr>) s1" by (rule admitted_body)
  from ad(1) have utf8: "af_utf8 (pe_file e)" by (auto simp: admit_def split: if_splits)
  from ad assms(4,5) have "seen_key (pe_text e) (key_for (pe_text e) (pe_hash e) body) (ib_rows ib')"
    by (auto elim!: admit_accepts simp: seen_key_def state_of_record)
  moreover from l obtain ib1 where i1: "pr_inbox s1 = Some ib1" "grows (ib_rows ib') (ib_rows ib1)"
    by (auto simp: later_def)
  ultimately have "seen_key (pe_text e) (key_for (pe_text e) (pe_hash e) body) (ib_rows ib1)"
    by (blast intro: seen_grows)
  then have dup: "admit (pe_text e2) (pe_hash e2) (pe_local e2) (pe_now e2) (pe_file e2) ib1
      = (ib1, Inr (deduped (key_for (pe_text e) (pe_hash e) body) (Some body)))"
    using later assms(4) ok seen_is_deduped utf8 by simp
  have "s2\<lparr>pr_inbox := Some ib1\<rparr> = s2" using later(1) i1(1) by simp
  then show ?thesis
    using dup later(1) i1(1) live
    by (simp add: process_def process_body_def is_expired_def is_halted_def not_less deduped_def bare_result_def)
qed

lemma empty_key_never_seen: "\<not> seen_key rp [] f"
proof -
  have "jget d ''key'' \<noteq> JStr []" if "d \<in> set (keyed_rows f)" for d
    using that by (auto simp: keyed_rows_def List.map_filter_def split: json.splits if_splits)
  then show ?thesis using foldl_state_none by (fastforce simp: seen_key_def state_of_def)
qed

section \<open>Candidates\<close>

lemma offered_candidate:
  assumes "offer_candidate e rd c ref g s = (s', Inr True)"
  shows "str_upper (dn_ticker rd) \<notin> set (md_allowed (pr_mandate s))" "(NMandate, ''symbol'') \<in> set (sg_blocked g)"
    "\<exists>held. rf_held_symbols ref = Some held \<and> str_upper (dn_ticker rd) \<notin> set held"
    "has_record (str_upper (dn_ticker rd)) (dn_decision_hash rd) (pr_candidates s) = Inr False"
    "length (pr_candidates s') = Suc (length (pr_candidates s))" "pr_mandate s' = pr_mandate s"
    "pr_store s' = pr_store s" "pr_journal s' = pr_journal s"
  using assms
  by (auto simp: offer_candidate_def promotable_def Let_def audit_event_def notify_def record_candidate_def append_line_def
      split: if_splits sum.splits bool.splits option.splits)

text \<open>The producer block is a known key, so it is never among the extras that the run id is looked for in.\<close>

lemma producer_run_id_lost:
  assumes "parse_research_decision rp h (JObj d) = Inr rd"
  shows "run_id_of e rd = (if jget d ''run_id'' = JNull then None else Some (py_str (pe_text e) (jget d ''run_id'')))"
proof -
  from assms have x: "dn_extra rd = without KNOWN_KEYS d" by (rule parsed_decision) simp
  have "jget (dn_extra rd) ''producer'' = JNull" "jget (dn_extra rd) ''run_id'' = jget d ''run_id''"
    unfolding x by (simp_all add: jget_def map_of_without KNOWN_KEYS_def)
  then show ?thesis by (simp add: run_id_of_def json_or_def)
qed

end
