(* ===== verification/ResearchSafety.thy ===== *)
theory ResearchSafety
  imports ProcessorRuns Examples
begin

text \<open>
  The properties of the research path, from an artifact on disk to a signal in the store: the boundary
  validates and dedupes it, the parser pins it to its hash, the gate decides, the processor persists.
  The example is one artifact that is emitted, and a processor with an empty state.
\<close>

section \<open>An artifact that is emitted\<close>

definition ex_artifact :: "(string \<times> json) list" where
  "ex_artifact =
     [(''ticker'', JStr ''ABC''), (''effective_date'', JStr ''2027-01-19''), (''rating'', JStr ''Buy''),
      (''data_quality'', JStr ''fresh''), (''price_caliber'', JStr ''adjusted''),
      (''recommended_allocation_pct'', JFloat (Fin 1)), (''expires_at'', JStr ''2027-01-20T00:00:00''),
      (''position'', JObj [(''stop_loss'', JFloat (Fin 95))])]"

definition ex_hash :: json_hash where
  "ex_hash v = ''0123456789''"

definition ex_text :: "json \<Rightarrow> string" where
  "ex_text v = ''?''"

definition ex_signed :: SignedMandate where
  "ex_signed = Mandate.extend ex_mandate
     \<lparr>sm_owner = ''desk'', sm_created = 739000, sm_hash = ''m'', sm_kill_switch_path = JNull\<rparr>"

definition ex_reference :: RefData where
  "ex_reference =
     \<lparr>rf_last = Some (Fin 100), rf_vwap = Some (Fin 100), rf_spread_usd = Some (Fin (2 / 100)), rf_ts = None,
      rf_feed = Some ''sip'', rf_stale = False, rf_cash = Some (Fin 50000), rf_buying_power = Some (Fin 50000),
      rf_equity = Some (Fin 100000), rf_market_open = Some True, rf_asset_tradable = Some True,
      rf_positions_value = Some 0, rf_held_symbols = Some []\<rparr>"

definition ex_file :: artifact_file where
  "ex_file = \<lparr>af_path = ''reports/ABC.json'', af_name = ''ABC.json'', af_stem = ''ABC'',
     af_utf8 = True, af_body = Some (Some (JObj ex_artifact)), af_stat = Some ''1:2''\<rparr>"

definition ex_process :: process_env where
  "ex_process =
     \<lparr>pe_cfg = default_config\<lparr>cfg_dry_run := False\<rparr>, pe_now = ex_now, pe_file = ex_file,
      pe_utf8 = True, pe_body = Some (Some (JObj ex_artifact)), pe_reference = Inr (Some ex_reference), pe_fresh = ''e1'',
      pe_notify = True, pe_delivered = True, pe_commit = ''abc'', pe_config_hash = ''c'', pe_text = ex_text,
      pe_hash = ex_hash, pe_local = (\<lambda>_. 0)\<rparr>"

definition ex_inbox :: Inbox where
  "ex_inbox = \<lparr>ib_path = ''inbox.jsonl'', ib_rows = [], ib_dead = [], ib_quarantined = [], ib_audit = []\<rparr>"

definition ex_processor :: Processor where
  "ex_processor =
     \<lparr>pr_mandate = ex_signed, pr_mandate_hash = ''m'', pr_mandate_stamp = None, pr_reload_failure = None,
      pr_journal = [], pr_store = [], pr_latest = None, pr_inbox = Some ex_inbox, pr_candidates = [],
      pr_monitors = [], pr_kill = \<lparr>kf_sentinel = False, kf_latch = None\<rparr>, pr_audit = [], pr_notes = []\<rparr>"

definition result_kind_of :: "Processor \<times> ProcessResult res \<Rightarrow> result_kind option" where
  "result_kind_of out = (case snd out of Inr p \<Rightarrow> Some (ps_kind p) | Inl _ \<Rightarrow> None)"

lemma result_kind_ofD:
  "result_kind_of out = Some k \<Longrightarrow> \<exists>p. out = (fst out, Inr p) \<and> ps_kind p = k"
  by (cases out) (auto simp: result_kind_of_def split: sum.splits)

section \<open>The boundary\<close>

lemma unit_float_range: "0 \<le> x \<Longrightarrow> x \<le> Fin b \<Longrightarrow> \<exists>y. x = Fin y \<and> 0 \<le> y \<and> y \<le> b"
  by (cases x) (simp_all add: fp_simps)

text \<open>C24: What an accepted envelope guarantees: a supported major version, a named ticker, a direction or
  rating that resolves to an action, an opportunity score within 0 to 100 if there is one, an expiry
  that has not passed if there is one; and from version 1.1 on an expiry with an offset, a version-4
  UUID, a named producer and an artifact hash that matches the body.\<close>

theorem envelope_guarantees:
  assumes "validate_envelope rp h loc now raw = Inr ver"
  shows "\<exists>d. raw = JObj d \<and> fst ver = 1 \<and> strip (py_str rp (jget d ''ticker'')) \<noteq> []
    \<and> action_for (str_lower (strip (or_str rp (jget d ''direction'')))) (str_lower (strip (or_str rp (jget d ''rating'')))) \<noteq> None
    \<and> (jget d ''opportunity_score'' = JNull
       \<or> (\<exists>x. float_of_json (jget d ''opportunity_score'') = Inr (Fin x) \<and> 0 \<le> x \<and> x \<le> 100))
    \<and> (json_truthy (jget d ''expires_at'') \<longrightarrow>
        (\<exists>e a b. parse_stamp (strip (or_str rp (jget d ''expires_at''))) = Some e
           \<and> as_aware loc now = Inr a \<and> as_aware loc e = Inr b \<and> a \<le> b))
    \<and> (is_v11 ver \<longrightarrow>
        (\<exists>e. parse_stamp (strip (or_str rp (jget d ''expires_at''))) = Some e \<and> utc_off e \<noteq> None)
        \<and> is_uuid4 (strip (py_str rp (jget d ''idempotency_key'')))
        \<and> (\<exists>p. jget d ''producer'' = JObj p \<and> strip (or_str rp (jget p ''service'')) \<noteq> [])
        \<and> removeprefix ''sha256:'' (strip (or_str rp (jget d ''artifact_sha256''))) = sha256_of h (artifact_body d))"
  using assms
proof (rule validated)
  fix d expired
  assume raw: "raw = JObj d" and ver: "fst ver = 1" and tk: "require_str rp d ''ticker'' = Inr ()"
    and act: "check_action rp d = Inr ()"
    and score: "number_check (jget d ''opportunity_score'') (\<lambda>x. 0 \<le> x \<and> x \<le> Fin 100) ''invalid_opportunity_score'' = Inr ()"
    and iso: "optional_iso rp (is_v11 ver) (jget d ''expires_at'') = Inr expired"
    and v11: "is_v11 ver \<Longrightarrow> check_v11 rp h d = Inr ()"
    and exp: "\<And>e. expired = Some e \<Longrightarrow> check_expiry rp loc now (is_v11 ver) (jget d ''produced_at'') e = Inr ()"
  have a: "action_for (str_lower (strip (or_str rp (jget d ''direction'')))) (str_lower (strip (or_str rp (jget d ''rating'')))) \<noteq> None"
    using act by (intro resolvable_action) (simp add: check_action_def Let_def envelope_check_iff)
  have s: "jget d ''opportunity_score'' = JNull
       \<or> (\<exists>x. float_of_json (jget d ''opportunity_score'') = Inr (Fin x) \<and> 0 \<le> x \<and> x \<le> 100)"
    using score unit_float_range by (auto simp: number_check_iff)
  have x: "\<exists>e a b. parse_stamp (strip (or_str rp (jget d ''expires_at''))) = Some e
           \<and> as_aware loc now = Inr a \<and> as_aware loc e = Inr b \<and> a \<le> b" if "json_truthy (jget d ''expires_at'')"
    using iso that exp by (auto simp: optional_iso_iff parse_iso_field_iff dest!: not_expired)
  have v: "(\<exists>e. parse_stamp (strip (or_str rp (jget d ''expires_at''))) = Some e \<and> utc_off e \<noteq> None)
        \<and> is_uuid4 (strip (py_str rp (jget d ''idempotency_key'')))
        \<and> (\<exists>p. jget d ''producer'' = JObj p \<and> strip (or_str rp (jget p ''service'')) \<noteq> [])
        \<and> removeprefix ''sha256:'' (strip (or_str rp (jget d ''artifact_sha256''))) = sha256_of h (artifact_body d)"
    if "is_v11 ver"
    using v11 [OF that] iso that unfolding check_v11_def
    by (elim rbind_InrE)
      (auto simp: envelope_check_iff check_producer_def artifact_hash_iff optional_iso_iff parse_iso_field_iff
        split: json.splits)
  show ?thesis using raw ver tk a s x v by (auto simp: require_str_def envelope_check_iff)
qed

definition ex_artifact_v11 :: "(string \<times> json) list" where
  "ex_artifact_v11 =
     [(''schema_version'', JStr ''1.1.0''), (''ticker'', JStr ''ABC''), (''effective_date'', JStr ''2027-01-19''),
      (''direction'', JStr ''buy''), (''data_quality'', JStr ''fresh''), (''opportunity_score'', JInt 80),
      (''expires_at'', JStr ''2027-01-20T00:00:00+00:00''),
      (''idempotency_key'', JStr ''9f1b3c5e-7a2d-4e6f-8a1b-3c5e7a2d4e6f''),
      (''producer'', JObj [(''service'', JStr ''desk''), (''run_id'', JStr ''r1'')]),
      (''artifact_sha256'', JStr ''sha256:0123456789'')]"

lemma envelope_guarantees_example:
  "validate_envelope ex_text ex_hash (\<lambda>_. 0) ex_now (JObj ex_artifact_v11) = Inr (1, 1, 0)
   \<and> is_uuid4 (strip (py_str ex_text (jget ex_artifact_v11 ''idempotency_key'')))"
proof -
  have v: "validate_envelope ex_text ex_hash (\<lambda>_. 0) ex_now (JObj ex_artifact_v11) = Inr (1, 1, 0)" by code_simp
  with envelope_guarantees [OF v] show ?thesis by auto
qed



text \<open>Own before write: an admitted key is pending from its admission to its commit, so that a crash
  in between leaves exactly it for recovery; the commit removes it and leaves the others.\<close>

theorem inbox_pending_until_commit:
  assumes "admit rp h loc now p ib = (ib', Inr a)" "ad_kind a = Accepted" "ad_key a \<noteq> []"
    "pending_keys rp (ib_rows ib) = Inr ks"
  shows "\<exists>ks' ks''. pending_keys rp (ib_rows ib') = Inr ks' \<and> set ks' = insert (ad_key a) (set ks)
    \<and> pending_keys rp (ib_rows (commit rp stamp (ad_key a) sid ib')) = Inr ks''
    \<and> set ks'' = set ks - {ad_key a} \<and> ad_key a \<notin> set ks \<and> sorted ks'' \<and> distinct ks''"
  using assms(1,2)
proof (rule admit_accepts)
  fix body ver
  assume new: "\<not> seen_key rp (ad_key a) (ib_rows ib)"
    and rows: "ib_rows ib' = ib_rows (record_state (ad_key a) ''admitted'' (isoformat_seconds now) (Some body) (af_path p)
       [(''schema_version'', jget body ''schema_version'')] ib)"
  obtain ks' where
    ks': "pending_keys rp (ib_rows ib') = Inr ks'" "set ks' = insert (ad_key a) (set ks)"
    using pending_record [OF assms(4,3), of "''admitted''" "isoformat_seconds now" "Some body" "af_path p"
      "[(''schema_version'', jget body ''schema_version'')]"] unfolding rows by auto
  have st: "state_of rp (ad_key a) (ib_rows ib') = Some ''admitted''"
    using assms(3) by (simp add: rows state_of_record)
  obtain ks'' where
    ks'': "pending_keys rp (ib_rows (commit rp stamp (ad_key a) sid ib')) = Inr ks''" "set ks'' = set ks' - {ad_key a}"
    using pending_record [OF ks'(1) assms(3), of "''committed''" "isoformat_seconds stamp" None "ib_path ib'"
      "[(''signal_id'', JStr sid)]"] by (auto simp: commit_def st)
  have "ad_key a \<notin> set ks" using new pending_iff(1) [OF assms(4)] by (auto simp: seen_key_def)
  with ks' ks'' pending_iff(2,3) [OF ks''(1)] show ?thesis by auto
qed

lemma inbox_pending_until_commit_example:
  "\<exists>ib' a ks' ks''. admit ex_text ex_hash (\<lambda>_. 0) ex_now ex_file ex_inbox = (ib', Inr a)
     \<and> pending_keys ex_text (ib_rows ib') = Inr ks' \<and> set ks' = {ad_key a}
     \<and> pending_keys ex_text (ib_rows (commit ex_text ex_now (ad_key a) ''s'' ib')) = Inr ks'' \<and> set ks'' = {}"
proof -
  have "case admit ex_text ex_hash (\<lambda>_. 0) ex_now ex_file ex_inbox of
      (_, Inr a) \<Rightarrow> ad_kind a = Accepted \<and> ad_key a \<noteq> [] | _ \<Rightarrow> False" by code_simp
  then obtain ib' a where a: "admit ex_text ex_hash (\<lambda>_. 0) ex_now ex_file ex_inbox = (ib', Inr a)"
    "ad_kind a = Accepted" "ad_key a \<noteq> []" by (auto split: prod.splits sum.splits)
  have none: "pending_keys ex_text (ib_rows ex_inbox) = Inr []" by code_simp
  from inbox_pending_until_commit [OF a none, of ex_now "''s''"] a(1) show ?thesis by fastforce
qed

section \<open>Pinning\<close>

text \<open>C25: A parsed decision carries the hash of its own body, and stamping the artifact with that hash
  changes nothing; an artifact that keeps the stamp but not the body is refused unless the two bodies
  collide. The contract built from it has one of the five actions and a target between 0 and 1.\<close>

theorem decision_hash_pinned:
  assumes "parse_research_decision rp h (JObj d) = Inr rd"
  shows "dn_decision_hash rd = body_hash h d
    \<and> parse_research_decision rp h (JObj (stamped h d)) = Inr rd
    \<and> (\<forall>d' rd'. jget d' ''decision_hash'' = jget (stamped h d) ''decision_hash''
          \<longrightarrow> parse_research_decision rp h (JObj d') = Inr rd' \<longrightarrow> body_hash h d' = body_hash h d)
    \<and> (\<forall>expiry now equity c. build_signal_contract rp rd expiry now equity = Inr c \<longrightarrow>
          sc_decision_hash c = body_hash h d \<and> sc_symbol c = dn_ticker rd \<and> sc_action c \<in> set VALID_ACTIONS
          \<and> (\<exists>x. sc_target_pct c = Fin x \<and> 0 \<le> x \<and> x \<le> 1))"
proof (intro conjI allI impI)
  show h: "dn_decision_hash rd = body_hash h d" using assms by (rule parsed_decision) simp
  show "parse_research_decision rp h (JObj (stamped h d)) = Inr rd"
    using assms parse_stamped by (simp add: parse_research_decision_def)
  show "body_hash h d' = body_hash h d" if "jget d' ''decision_hash'' = jget (stamped h d) ''decision_hash''"
    "parse_research_decision rp h (JObj d') = Inr rd'" for d' rd'
  proof -
    from that(2) have "hash_matches rp h d'" by (rule parsed_decision) simp
    then show ?thesis unfolding hash_matches_def that(1) jget_stamped_hash Let_def py_str.simps removeprefix_simps by simp
  qed
  fix expiry now equity c
  assume c: "build_signal_contract rp rd expiry now equity = Inr c"
  note f = contract_fields [OF c]
  show "sc_decision_hash c = body_hash h d" "sc_symbol c = dn_ticker rd" using f h by simp_all
  show "sc_action c \<in> set VALID_ACTIONS" using decision_action_valid f(1) by blast
  from target_share_unit obtain r where "target_share rd = Fin r" "0 \<le> r" "r \<le> 1" by blast
  then show "\<exists>x. sc_target_pct c = Fin x \<and> 0 \<le> x \<and> x \<le> 1"
    using f(4) round_digits_unit by (simp add: round_to_def)
qed

lemma decision_hash_pinned_example:
  "\<exists>rd. parse_research_decision ex_text ex_hash (JObj ex_artifact) = Inr rd
     \<and> dn_decision_hash rd = body_hash ex_hash ex_artifact
     \<and> parse_research_decision ex_text ex_hash (JObj (stamped ex_hash ex_artifact)) = Inr rd"
proof -
  have "\<not> isl (parse_research_decision ex_text ex_hash (JObj ex_artifact))" by code_simp
  then obtain rd where rd: "parse_research_decision ex_text ex_hash (JObj ex_artifact) = Inr rd"
    by (auto simp: isl_def) (metis sum.exhaust)
  with decision_hash_pinned [OF rd] show ?thesis by blast
qed

text \<open>A mandate that was written and parsed is the one that is loaded, pinned to the hash of what was
  written and valid for at least a day, with someone to trade; its predecessor's hash is archived when it
  differs; and a file that carries the same hash but other contents is refused unless they collide.\<close>

theorem mandate_write_load:
  assumes "write_mandate rp h ts raw provenance files = (files', Inr m)"
  shows "load_mandate rp h (mf_doc files') = Inr m \<and> sm_hash m = mandate_hash h raw
    \<and> sm_created m < md_expires m \<and> md_allowed m \<noteq> []
    \<and> (\<exists>old. old_hash_of (mf_doc files) = Inr old
        \<and> mf_archive files' = mf_archive files @
            (if json_truthy old \<and> old \<noteq> JStr (sm_hash m) then [archive_row ts old (sm_hash m) provenance] else []))
    \<and> (\<forall>d m'. jget d ''hash'' = JStr (sm_hash m) \<longrightarrow> load_mandate rp h (Some (Some (JObj d))) = Inr m'
        \<longrightarrow> mandate_hash h d = mandate_hash h raw \<or> sm_hash m = [])"
proof -
  from assms obtain old where old: "old_hash_of (mf_doc files) = Inr old"
    and f: "mf_doc files' = Some (Some (JObj (signed_doc h raw)))"
      "mf_archive files' = mf_archive files @
        (if json_truthy old \<and> old \<noteq> JStr (mandate_hash h raw) then [archive_row ts old (mandate_hash h raw) provenance] else [])"
    and m: "parse_mandate rp h (JObj (signed_doc h raw)) = Inr m"
    by (auto simp: write_mandate_def Let_def split: sum.splits if_splits)
  from m have p: "sm_created m < md_expires m" "md_allowed m \<noteq> []" "sm_hash m = mandate_hash h raw"
    by (rule parsed_mandate, simp)+
  have "mandate_hash h d = mandate_hash h raw \<or> sm_hash m = []"
    if "jget d ''hash'' = JStr (sm_hash m)" "load_mandate rp h (Some (Some (JObj d))) = Inr m'" for d m'
  proof -
    from that(2) have "parse_mandate rp h (JObj d) = Inr m'" by (simp add: load_mandate_def)
    then have "hash_signed h d" by (rule parsed_mandate) simp
    with that(1) p(3) show ?thesis by (auto simp: hash_signed_def)
  qed
  with old f m p show ?thesis by (simp add: load_mandate_def)
qed

definition ex_mandate_doc :: "(string \<times> json) list" where
  "ex_mandate_doc =
     [(''id'', JStr ''m1''), (''owner'', JStr ''desk''), (''created'', JStr ''2026-01-01''),
      (''expires'', JStr ''2027-12-31''), (''symbols'', JObj [(''allowed'', JList [JStr ''ABC''])]),
      (''max_notional_per_order_usd'', JInt 20000), (''max_total_exposure_usd'', JInt 150000)]"

lemma mandate_write_load_example:
  "\<exists>files m. write_mandate ex_text ex_hash ''t'' ex_mandate_doc []
       \<lparr>mf_doc = Some (Some (JObj [(''hash'', JStr ''old'')])), mf_archive = []\<rparr> = (files, Inr m)
     \<and> load_mandate ex_text ex_hash (mf_doc files) = Inr m \<and> length (mf_archive files) = 1"
proof -
  let ?w = "write_mandate ex_text ex_hash ''t'' ex_mandate_doc []
       \<lparr>mf_doc = Some (Some (JObj [(''hash'', JStr ''old'')])), mf_archive = []\<rparr>"
  have "\<not> isl (snd ?w)" "length (mf_archive (fst ?w)) = 1" by code_simp+
  then obtain m where w: "?w = (fst ?w, Inr m)" by (cases "snd ?w") (auto simp: prod_eq_iff)
  with mandate_write_load [OF w] \<open>length (mf_archive (fst ?w)) = 1\<close> show ?thesis by blast
qed

section \<open>Emission\<close>

text \<open>C1: A signal is emitted only under a mandate in force, with no halt sentinel, from an artifact the
  boundary admitted, not ahead of its date, not yet handled under this mandate, outside a dry run, on
  the reference the broker gave, and with a verdict of the gate on exactly that decision, contract,
  reference and journal that is no block; so for a symbol the mandate lists or a reduction of a name the
  account holds, within the day's signals, tradable and with cash above the reserve by that reference,
  on data that is fresh or partial, and where it is fresh on a quote and a decision not too old; and
  then exactly one envelope of that decision is appended to the store and one mark and one signal row
  to the journal.\<close>

theorem emission_warranted:
  assumes "process e s = (s', Inr p)" "ps_kind p = Emitted"
  shows "\<exists>raw rd c ref js g envelope.
    date_of (pe_now e) \<le> md_expires (pr_mandate s) \<and> \<not> is_halted (pr_kill s) \<and> admitted e s \<and> \<not> cfg_dry_run (pe_cfg e)
    \<and> pe_body e = Some (Some raw) \<and> parse_research_decision (pe_text e) (pe_hash e) raw = Inr rd
    \<and> dn_effective_date rd \<le> date_of (pe_now e)
    \<and> is_processed (dn_decision_hash rd) (Some (pr_mandate_hash s)) (pr_journal s) = Inr False
    \<and> pe_reference e = Inr (Some ref)
    \<and> build_signal_contract (pe_text e) rd (date_text (md_expires (pr_mandate s))) (pe_now e) (rf_equity ref) = Inr c
    \<and> journal_state_of e (pr_journal s) = Inr js
    \<and> evaluate_signal rd c (pr_mandate s) ref js (pe_now e) (pe_cfg e) = Inr g \<and> sg_verdict g \<in> {SPass, SDowngrade}
    \<and> (sc_symbol c \<in> set (md_allowed (pr_mandate s))
       \<or> sc_action c \<in> {''REDUCE'', ''EXIT''}
         \<and> (\<exists>held. rf_held_symbols ref = Some held \<and> str_upper (sc_symbol c) \<in> set held))
    \<and> (\<forall>n. signals_today_count (pe_now e) (pr_journal s) = Inr n \<longrightarrow> 0 < md_max_daily_trades (pr_mandate s)
         \<longrightarrow> int n < md_max_daily_trades (pr_mandate s))
    \<and> rf_asset_tradable ref = Some True
    \<and> (\<exists>cash. rf_cash ref = Some cash \<and> \<not> or_zero (Some cash) < md_min_cash_reserve_usd (pr_mandate s))
    \<and> str_lower (dn_data_quality rd) \<in> {''fresh'', ''partial''}
    \<and> (str_lower (dn_data_quality rd) = ''fresh'' \<and> \<not> rf_stale ref \<longrightarrow>
         \<not> stale (quote_age_s ref (pe_now e)) (cfg_max_quote_staleness_s (pe_cfg e))
         \<and> (str_lower (strip (str_or (dn_price_caliber rd) [])) \<notin> set UNUSABLE_CALIBERS \<longrightarrow>
              \<not> fdiv (hours_or (cfg_ingest_window_hours (pe_cfg e)) (Fin 24)) (Fin 24)
                  < Fin (of_int (date_of (pe_now e) - dn_effective_date rd))))
    \<and> ps_envelope p = Some envelope \<and> jget envelope ''decision_hash'' = JStr (dn_decision_hash rd)
    \<and> jget envelope ''action'' = JStr (sc_action c) \<and> jget envelope ''ticker'' = JStr (sc_symbol c)
    \<and> pr_store s' = append_signal envelope (pr_store s)
    \<and> marks (pr_journal s') = marks (pr_journal s) @ [(JStr (dn_decision_hash rd), JNull)]
    \<and> length (emissions (pr_journal s')) = Suc (length (emissions (pr_journal s)))"
proof -
  from process_sound [of s e] assms obtain dh env where env: "ps_envelope p = Some env" "emitted s dh env s'"
    and w: "warranted e s dh env" by (auto simp: sound_def)
  from w obtain raw rd ref where base: "date_of (pe_now e) \<le> md_expires (pr_mandate s)" "\<not> is_halted (pr_kill s)" "admitted e s"
    and rd: "pe_body e = Some (Some raw)" "parse_research_decision (pe_text e) (pe_hash e) raw = Inr rd"
    and t: "dn_effective_date rd \<le> date_of (pe_now e)"
      "is_processed (dn_decision_hash rd) (Some (pr_mandate_hash s)) (pr_journal s) = Inr False"
    and g: "gated e s rd ref dh env" and given: "pe_reference e = Inr (Some ref) \<or> ref = no_reference"
    by (auto simp: warranted_def timely_def is_halted_def)
  from g obtain c js g and route :: Route where c: "build_signal_contract (pe_text e) rd (date_text (md_expires (pr_mandate s))) (pe_now e) (rf_equity ref) = Inr c"
    and js: "journal_state_of e (pr_journal s) = Inr js" "evaluate_signal rd c (pr_mandate s) ref js (pe_now e) (pe_cfg e) = Inr g"
      "gate_passed g" and fit: "fitting e rd c g ref (length (json_rows (pr_store s)) + 1) (rt_sleeve route) dh env"
    unfolding gated_def by - (elim exE conjE, rule that, assumption+)
  have n: "signals_today_count (pe_now e) (pr_journal s) = Inr (js_signals_today js)"
    and window: "js_ingest_window_hours js = cfg_ingest_window_hours (pe_cfg e)"
    using js(1) unfolding journal_state_of_def by (elim rbind_InrE rmap_InrE; simp)+
  have pass: "sg_verdict g \<in> {SPass, SDowngrade}" using js(3) by (simp add: gate_passed_def)
  have dh: "dh = dn_decision_hash rd" "\<not> cfg_dry_run (pe_cfg e)" using fit by (simp_all add: fitting_def)
  have k: "jget env ''decision_hash'' = JStr (dn_decision_hash rd)" "jget env ''action'' = JStr (sc_action c)"
    "jget env ''ticker'' = JStr (sc_symbol c)"
    using fit by (auto simp: fitting_def build_envelope_def rmap_Inr_iff jget_def)
  have files: "pr_store s' = append_signal env (pr_store s)"
    "marks (pr_journal s') = marks (pr_journal s) @ [(JStr (dn_decision_hash rd), JNull)]"
    "length (emissions (pr_journal s')) = Suc (length (emissions (pr_journal s)))"
    using env(2) dh(1) by (simp_all add: emitted_def)
  note perm = signal_permits [OF js(2,3)]
  note named = perm [THEN conjunct1] and day = perm [THEN conjunct2, THEN conjunct2, THEN conjunct1]
    and cash = perm [THEN conjunct2, THEN conjunct2, THEN conjunct2, THEN conjunct1]
    and tradable = perm [THEN conjunct2, THEN conjunct2, THEN conjunct2, THEN conjunct2, THEN conjunct1]
    and complete = perm [THEN conjunct2, THEN conjunct2, THEN conjunct2, THEN conjunct2, THEN conjunct2]
  have ref: "pe_reference e = Inr (Some ref)" using given tradable by (auto simp: no_reference_def)
  have cash': "\<exists>cash. rf_cash ref = Some cash \<and> \<not> or_zero (Some cash) < md_min_cash_reserve_usd (pr_mandate s)"
    using complete cash by (auto simp: complete_for_gates_def)
  note data = passed_not_blocked [OF js(2,3), of NData]
  have unknown: "str_lower ''unknown'' \<notin> {''fresh'', ''partial''}" "str_lower [] \<notin> {''fresh'', ''partial''}" by code_simp+
  have quality: "str_lower (dn_data_quality rd) \<in> {''fresh'', ''partial''}"
    using signal_data_guards(2) [OF data] unknown by (cases "dn_data_quality rd = []") simp_all
  have young: "str_lower (dn_data_quality rd) = ''fresh'' \<and> \<not> rf_stale ref \<longrightarrow>
         \<not> stale (quote_age_s ref (pe_now e)) (cfg_max_quote_staleness_s (pe_cfg e))
         \<and> (str_lower (strip (str_or (dn_price_caliber rd) [])) \<notin> set UNUSABLE_CALIBERS \<longrightarrow>
              \<not> fdiv (hours_or (cfg_ingest_window_hours (pe_cfg e)) (Fin 24)) (Fin 24)
                  < Fin (of_int (date_of (pe_now e) - dn_effective_date rd)))"
    using signal_data_tail [OF data] unknown(2) window by (cases "dn_data_quality rd = []") auto
  have cap: "\<forall>n. signals_today_count (pe_now e) (pr_journal s) = Inr n \<longrightarrow> 0 < md_max_daily_trades (pr_mandate s)
         \<longrightarrow> int n < md_max_daily_trades (pr_mandate s)"
    using n day by simp
  show ?thesis
    by (rule exI [of _ raw], rule exI [of _ rd], rule exI [of _ c], rule exI [of _ ref], rule exI [of _ js],
        rule exI [of _ g], rule exI [of _ env])
      (intro conjI; rule base dh(2) rd t ref c js(1,2) pass named cap tradable cash' quality young env(1) k files)
qed

lemma emission_warranted_example:
  "\<exists>s' p rd. process ex_process ex_processor = (s', Inr p) \<and> ps_kind p = Emitted
     \<and> parse_research_decision ex_text ex_hash (JObj ex_artifact) = Inr rd
     \<and> marks (pr_journal s') = [(JStr (dn_decision_hash rd), JNull)] \<and> length (pr_store s') = 1"
proof -
  have "result_kind_of (process ex_process ex_processor) = Some Emitted" by code_simp
  then obtain p where p: "process ex_process ex_processor = (fst (process ex_process ex_processor), Inr p)" "ps_kind p = Emitted"
    by (auto dest: result_kind_ofD)
  have "marks (pr_journal ex_processor) = []" "pr_store ex_processor = []" by code_simp+
  with emission_warranted [OF p] p show ?thesis
    by (fastforce simp: ex_process_def append_signal_def append_line_def)
qed

text \<open>C2: No decision is emitted twice: over any sequence of artifacts and mandate reloads the emitted
  decision hashes are distinct, and none was settled in the journal before under every mandate.\<close>

theorem no_decision_emitted_twice:
  "distinct (accepted processor_step s ops)
   \<and> (\<forall>dh \<in> set (accepted processor_step s ops). \<exists>mh. is_processed dh mh (pr_journal s) = Inr False)"
  using emits_once.accepted_distinct emits_once.never_known by blast

lemma no_decision_emitted_twice_example:
  "accepted processor_step ex_processor [Process ex_process, Refresh ex_process (Some (1, 2)) (Some (Some (JObj ex_mandate_doc))) ''x'',
      Process (ex_process\<lparr>pe_file := ex_file\<lparr>af_path := ''copy.json''\<rparr>\<rparr>)] = [''0123456789'']
   \<and> (\<exists>mh. is_processed ''0123456789'' mh (pr_journal ex_processor) = Inr False)"
proof -
  let ?ops = "[Process ex_process, Refresh ex_process (Some (1, 2)) (Some (Some (JObj ex_mandate_doc))) ''x'',
      Process (ex_process\<lparr>pe_file := ex_file\<lparr>af_path := ''copy.json''\<rparr>\<rparr>)]"
  have a: "accepted processor_step ex_processor ?ops = [''0123456789'']" by code_simp
  have "''0123456789'' \<in> set [''0123456789'']" by simp
  then have "''0123456789'' \<in> set (accepted processor_step ex_processor ?ops)" unfolding a .
  with no_decision_emitted_twice a show ?thesis by blast
qed



end
