(* ===== verification/Stats.thy ===== *)
theory Stats
  imports Tail
begin

text \<open>
  \<open>signald/validation/stats.py\<close>: the statistics that decide whether a back-test means anything, over
  finite series. The normal quantile and distribution function are the arguments \<open>z\<close> and \<open>phi\<close>, the
  random generator the record \<open>rng\<close> of its two operations; the sentences of the reasons are left out.
\<close>

section \<open>Helpers\<close>

definition EULER_MASCHERONI :: real where "EULER_MASCHERONI = 5772156649015329 / 10000000000000000"
definition DSR_THRESHOLD :: real where "DSR_THRESHOLD = 95 / 100"
definition PBO_THRESHOLD :: real where "PBO_THRESHOLD = 5 / 100"
definition GATE_MIN_TRADES :: int where "GATE_MIN_TRADES = 50"
definition GATE_MIN_OOS_MONTHS :: real where "GATE_MIN_OOS_MONTHS = 6"

definition fmean :: "real list \<Rightarrow> real" where
  "fmean xs = sum_list xs / of_nat (length xs)"

definition sharpe_of :: "real list \<Rightarrow> real" where
  "sharpe_of xs = (if length xs < 2 then 0 else if stdev xs = 0 then 0 else fmean xs / stdev xs)"

definition quantile_of :: "real list \<Rightarrow> real \<Rightarrow> real" where
  "quantile_of xs q =
     (if length xs = 1 then xs ! 0
      else (let pos = q * (of_nat (length xs) - 1); lo = \<lfloor>pos\<rfloor>; hi = \<lceil>pos\<rceil> in
        if lo = hi then xs ! nat lo
        else xs ! nat lo * (of_int hi - pos) + xs ! nat hi * (pos - of_int lo)))"

definition percentile_interval :: "real list \<Rightarrow> real \<Rightarrow> (real \<times> real) res" where
  "percentile_interval samples confidence =
     (if \<not> (0 < confidence \<and> confidence < 1) then Inl ValueError
      else (let alpha = (1 - confidence) / 2; ordered = sort samples in
        Inr (quantile_of ordered alpha, quantile_of ordered (1 - alpha))))"

definition expected_max_factor :: "(real \<Rightarrow> real) \<Rightarrow> int \<Rightarrow> real" where
  "expected_max_factor z n =
     (if n \<le> 1 then 0
      else (1 - EULER_MASCHERONI) * z (1 - 1 / of_int n) + EULER_MASCHERONI * z (1 - 1 / (of_int n * exp 1)))"

fun cut :: "nat list \<Rightarrow> 'a list \<Rightarrow> 'a list list" where
  "cut [] xs = []"
| "cut (s # ss) xs = take s xs # cut ss (drop s xs)"

definition contiguous_blocks :: "'a list \<Rightarrow> nat \<Rightarrow> 'a list list" where
  "contiguous_blocks xs splits =
     (let base = length xs div splits; extra = length xs mod splits in
      cut (map (\<lambda>i. base + (if i < extra then 1 else 0)) [0..<splits]) xs)"

section \<open>Deflated Sharpe ratio, over-fitting, length of a back-test\<close>

definition deflated_sharpe ::
  "(real \<Rightarrow> real) \<Rightarrow> (real \<Rightarrow> real) \<Rightarrow> real \<Rightarrow> int \<Rightarrow> int \<Rightarrow> real \<Rightarrow> real \<Rightarrow> real res" where
  "deflated_sharpe z phi sharpe n_trials observations skew kurtosis =
     (if n_trials < 1 then Inl ValueError
      else if observations < 2 then Inl ValueError
      else (let sr0 = sqrt (1 / of_int observations) * expected_max_factor z n_trials;
                correction = 1 - skew * sharpe + (kurtosis - 1) / 4 * sharpe\<^sup>2 in
        if correction \<le> 0 then Inl ValueError
        else Inr (phi ((sharpe - sr0) * sqrt (of_int (observations - 1)) / sqrt correction))))"

definition probability_of_backtest_overfitting :: "real list \<Rightarrow> int \<Rightarrow> int \<Rightarrow> real option res" where
  "probability_of_backtest_overfitting returns splits trials =
     (if returns = [] then Inl ValueError
      else if splits < 2 then Inl ValueError
      else if trials < 1 then Inl ValueError
      else if int (length returns) < splits * 4 then Inr None
      else (let blocks = contiguous_blocks returns (nat splits);
                ins = map (\<lambda>k. sharpe_of (concat (take k blocks))) [1..<nat splits];
                outs = map (\<lambda>k. sharpe_of (concat (drop k blocks))) [1..<nat splits];
                count = nat (max 1 (round_half_even (of_nat (length ins) / of_int trials)));
                chosen = take count (sort_key (\<lambda>i. - (ins ! i)) [0..<length ins]);
                losers = length (filter (\<lambda>i. outs ! i < ins ! i) chosen)
            in Inr (Some (of_nat losers / of_nat (length chosen)))))"

definition minimum_backtest_length :: "(real \<Rightarrow> real) \<Rightarrow> int \<Rightarrow> real \<Rightarrow> pyfloat res" where
  "minimum_backtest_length z n_trials sharpe =
     (if n_trials < 1 then Inl ValueError
      else if sharpe \<le> 0 then Inr PInf
      else Inr (Fin ((expected_max_factor z n_trials / sharpe)\<^sup>2)))"

section \<open>The stationary bootstrap\<close>

record 'g rng =
  rg_random :: "'g \<Rightarrow> real \<times> 'g"
  rg_randrange :: "nat \<Rightarrow> 'g \<Rightarrow> nat \<times> 'g"

fun stationary_walk :: "'g rng \<Rightarrow> real \<Rightarrow> real list \<Rightarrow> nat \<Rightarrow> nat \<Rightarrow> 'g \<Rightarrow> real list \<times> 'g" where
  \<comment> \<open>as many steps as the last but one argument says, from an index\<close>
  "stationary_walk r p xs idx 0 g = ([], g)"
| "stationary_walk r p xs idx (Suc k) g =
     (let (u, g1) = rg_random r g;
          (next, g2) = (if u < p then rg_randrange r (length xs) g1 else ((idx + 1) mod length xs, g1));
          (rest, g3) = stationary_walk r p xs next k g2
      in (xs ! idx # rest, g3))"

definition stationary_sample :: "'g rng \<Rightarrow> real list \<Rightarrow> real \<Rightarrow> 'g \<Rightarrow> real list \<times> 'g" where
  "stationary_sample r xs mean_block g =
     (let (idx, g1) = rg_randrange r (length xs) g in
      stationary_walk r (1 / mean_block) xs idx (length xs) g1)"

fun bootstrap_samples ::
  "'g rng \<Rightarrow> (real list \<Rightarrow> real) \<Rightarrow> real list \<Rightarrow> real \<Rightarrow> nat \<Rightarrow> 'g \<Rightarrow> real list" where
  "bootstrap_samples r statistic xs block 0 g = []"
| "bootstrap_samples r statistic xs block (Suc k) g =
     (let (sample, g1) = stationary_sample r xs block g in
      statistic sample # bootstrap_samples r statistic xs block k g1)"

definition stationary_bootstrap_ci ::
  "'g rng \<Rightarrow> (real list \<Rightarrow> real) \<Rightarrow> real list \<Rightarrow> int \<Rightarrow> real option \<Rightarrow> real \<Rightarrow> 'g \<Rightarrow> (real \<times> real) res" where
  "stationary_bootstrap_ci r statistic xs resamples mean_block confidence seed =
     (if xs = [] then Inl ValueError
      else if \<not> (0 < confidence \<and> confidence < 1) then Inl ValueError
      else if resamples < 1 then Inl ValueError
      else (let block = (case mean_block of Some b \<Rightarrow> b | None \<Rightarrow> of_nat (length xs) powr (1 / 3)) in
        if block \<le> 0 then Inl ValueError
        else percentile_interval (bootstrap_samples r statistic xs block (nat resamples) seed) confidence))"

record PairedComparison =
  pc_mean_diff :: real
  pc_ci_low :: real
  pc_ci_high :: real
  pc_share_positive :: real
  pc_n :: nat
  pc_excludes_zero :: bool

definition paired_comparison :: "'g rng \<Rightarrow> real list \<Rightarrow> real list \<Rightarrow> int \<Rightarrow> 'g \<Rightarrow> PairedComparison res" where
  "paired_comparison r a b resamples seed =
     (if length a \<noteq> length b then Inl ValueError
      else if a = [] then Inl ValueError
      else (let diffs = map2 (-) a b in
        rmap (\<lambda>(low, high).
          \<lparr>pc_mean_diff = fmean diffs, pc_ci_low = low, pc_ci_high = high,
           pc_share_positive = of_nat (length (filter (\<lambda>d. 0 < d) diffs)) / of_nat (length diffs),
           pc_n = length diffs, pc_excludes_zero = (0 < low \<or> high < 0)\<rparr>)
          (stationary_bootstrap_ci r fmean diffs resamples None (95 / 100) seed)))"

section \<open>Newey-West\<close>

definition autocovariance :: "real list \<Rightarrow> nat \<Rightarrow> real" where
  "autocovariance resid k = sum_list (map (\<lambda>i. resid ! i * resid ! (i - k)) [k..<length resid]) / of_nat (length resid)"

definition long_run_variance :: "real list \<Rightarrow> nat \<Rightarrow> real" where
  "long_run_variance resid lags =
     foldl (\<lambda>acc k. acc + 2 * (1 - of_nat k / (of_nat lags + 1)) * autocovariance resid k)
       (sum_list (map (\<lambda>e. e * e) resid) / of_nat (length resid)) [1..<lags + 1]"

definition newey_west_t :: "real list \<Rightarrow> int option \<Rightarrow> real res" where
  "newey_west_t xs lags =
     (if xs = [] then Inl ValueError
      else (let n = length xs;
                l = (case lags of Some k \<Rightarrow> k | None \<Rightarrow> \<lfloor>4 * (of_nat n / 100 :: real) powr (2 / 9)\<rfloor>) in
        if l < 0 then Inl ValueError
        else (let m = fmean xs; resid = map (\<lambda>v. v - m) xs;
                  variance = long_run_variance resid (nat (min l (int n - 1))) / of_nat n
              in Inr (if variance \<le> 0 then 0 else m / sqrt variance))))"

section \<open>The gates\<close>

record ValidationGate =
  vg_name :: string
  vg_value :: "real option"
  vg_threshold :: "real option"
  vg_passed :: "bool option"

definition value_of :: "'a res \<Rightarrow> 'a option" where
  \<comment> \<open>\<open>None\<close> where a \<open>ValueError\<close> was caught\<close>
  "value_of r = (case r of Inl e \<Rightarrow> None | Inr v \<Rightarrow> Some v)"

definition validation_gates ::
  "(real \<Rightarrow> real) \<Rightarrow> (real \<Rightarrow> real) \<Rightarrow> real \<Rightarrow> int \<Rightarrow> int \<Rightarrow> int \<Rightarrow> real \<Rightarrow> real list option \<Rightarrow> ValidationGate list" where
  "validation_gates z phi sharpe n_trials observations trades oos_months returns =
     (let dsr = value_of (deflated_sharpe z phi sharpe n_trials observations 0 3);
          pbo = (case returns of None \<Rightarrow> None
            | Some xs \<Rightarrow> (case probability_of_backtest_overfitting xs 8 1 of Inr v \<Rightarrow> v | Inl e \<Rightarrow> None)) in
      [\<lparr>vg_name = ''dsr'', vg_value = dsr, vg_threshold = Some DSR_THRESHOLD,
        vg_passed = map_option (\<lambda>v. DSR_THRESHOLD \<le> v) dsr\<rparr>,
       \<lparr>vg_name = ''pbo'', vg_value = pbo, vg_threshold = Some PBO_THRESHOLD,
        vg_passed = map_option (\<lambda>v. v \<le> PBO_THRESHOLD) pbo\<rparr>,
       \<lparr>vg_name = ''trades'', vg_value = Some (of_int trades), vg_threshold = Some (of_int GATE_MIN_TRADES),
        vg_passed = Some (GATE_MIN_TRADES \<le> trades)\<rparr>,
       \<lparr>vg_name = ''oos_months'', vg_value = Some oos_months, vg_threshold = Some GATE_MIN_OOS_MONTHS,
        vg_passed = Some (GATE_MIN_OOS_MONTHS \<le> oos_months)\<rparr>,
       \<lparr>vg_name = ''n_trials'', vg_value = Some (of_int n_trials), vg_threshold = None,
        vg_passed = Some (1 \<le> n_trials)\<rparr>])"

section \<open>Blocks\<close>

lemma length_cut [simp]: "length (cut ss xs) = length ss"
  by (induction ss xs rule: cut.induct) simp_all

lemma concat_cut: "sum_list ss = length xs \<Longrightarrow> concat (cut ss xs) = xs"
  by (induction ss xs rule: cut.induct) (auto simp: append_take_drop_id)

lemma lengths_cut: "sum_list ss \<le> length xs \<Longrightarrow> map length (cut ss xs) = ss"
  by (induction ss xs rule: cut.induct) auto

lemma sum_list_sizes:
  "sum_list (map (\<lambda>i. b + (if i < e then 1 else (0::nat))) [0..<s]) = s * b + min e s"
  by (induction s) auto

lemma block_sizes:
  "0 < s \<Longrightarrow> sum_list (map (\<lambda>i. n div s + (if i < n mod s then 1 else (0::nat))) [0..<s]) = n"
  unfolding sum_list_sizes by (simp add: min_def mod_less_divisor less_imp_le mult.commute)

lemma contiguous_blocks_length [simp]: "length (contiguous_blocks xs splits) = splits"
  by (simp add: contiguous_blocks_def Let_def)

lemma contiguous_blocks_concat: "0 < splits \<Longrightarrow> concat (contiguous_blocks xs splits) = xs"
  unfolding contiguous_blocks_def Let_def by (rule concat_cut) (rule block_sizes)

lemma contiguous_blocks_even:
  assumes "0 < splits" and "ys \<in> set (contiguous_blocks xs splits)"
  shows "length ys = length xs div splits \<or> length ys = length xs div splits + 1"
proof -
  have "map length (contiguous_blocks xs splits)
    = map (\<lambda>i. length xs div splits + (if i < length xs mod splits then 1 else 0)) [0..<splits]"
    unfolding contiguous_blocks_def Let_def by (rule lengths_cut) (simp only: block_sizes assms(1))
  then have "length ys \<in> set (map (\<lambda>i. length xs div splits + (if i < length xs mod splits then 1 else 0)) [0..<splits])"
    using assms(2) by (metis image_eqI set_map)
  then show ?thesis by auto
qed

section \<open>Over-fitting\<close>

lemma pbo_none_iff:
  assumes "returns \<noteq> []" and "2 \<le> splits" and "1 \<le> trials"
  shows "probability_of_backtest_overfitting returns splits trials = Inr None \<longleftrightarrow> int (length returns) < splits * 4"
  using assms by (simp add: probability_of_backtest_overfitting_def Let_def)

lemma share_unit: "0 \<le> of_nat (length (filter P xs)) / (of_nat (length xs) :: real)
    \<and> of_nat (length (filter P xs)) / (of_nat (length xs) :: real) \<le> 1"
  by (simp add: divide_le_eq)

lemma pbo_unit:
  assumes "probability_of_backtest_overfitting returns splits trials = Inr (Some p)"
  shows "0 \<le> p \<and> p \<le> 1"
proof -
  have "\<exists>P (xs :: nat list). p = of_nat (length (filter P xs)) / of_nat (length xs)"
    using assms unfolding probability_of_backtest_overfitting_def Let_def
    by (simp only: sum.inject option.inject sum.distinct option.distinct if_False split: if_split_asm) blast
  then show ?thesis using share_unit by blast
qed

section \<open>Quantiles\<close>

lemma quantile_one: "length xs = 1 \<Longrightarrow> quantile_of xs q = xs ! 0"
  by (simp add: quantile_of_def)

definition interpolate :: "real list \<Rightarrow> real \<Rightarrow> real" where
  \<comment> \<open>the piecewise linear curve through the points of a list\<close>
  "interpolate xs pos = xs ! nat \<lfloor>pos\<rfloor> + (pos - of_int \<lfloor>pos\<rfloor>) * (xs ! nat \<lceil>pos\<rceil> - xs ! nat \<lfloor>pos\<rfloor>)"

lemma ceiling_floor_cases: "\<lceil>x :: real\<rceil> = \<lfloor>x\<rfloor> \<and> of_int \<lfloor>x\<rfloor> = x \<or> \<lceil>x\<rceil> = \<lfloor>x\<rfloor> + 1"
  by (smt (verit) ceiling_altdef)

lemma quantile_interpolate: "quantile_of xs q = interpolate xs (q * (of_nat (length xs) - 1))"
proof (cases "length xs = 1")
  case True
  then show ?thesis by (simp add: quantile_of_def interpolate_def)
next
  case False
  let ?p = "q * (of_nat (length xs) - 1 :: real)"
  from ceiling_floor_cases[of ?p] show ?thesis
    using False by (auto simp: quantile_of_def interpolate_def Let_def algebra_simps)
qed

lemma interpolate_between:
  assumes "sorted xs" and "0 \<le> p" and "p \<le> of_nat (length xs) - 1"
  shows "xs ! nat \<lfloor>p\<rfloor> \<le> interpolate xs p \<and> interpolate xs p \<le> xs ! nat \<lceil>p\<rceil>"
proof -
  let ?lo = "nat \<lfloor>p\<rfloor>" and ?hi = "nat \<lceil>p\<rceil>" and ?f = "p - of_int \<lfloor>p\<rfloor>"
  have "?hi < length xs" using assms by linarith
  moreover have "?lo \<le> ?hi" by (simp add: nat_mono floor_le_ceiling)
  ultimately have d: "0 \<le> xs ! ?hi - xs ! ?lo" using sorted_nth_mono[OF assms(1), of ?lo ?hi] by simp
  have f: "0 \<le> ?f" "?f \<le> 1" by linarith+
  have "0 \<le> ?f * (xs ! ?hi - xs ! ?lo)" using f d by simp
  moreover have "?f * (xs ! ?hi - xs ! ?lo) \<le> xs ! ?hi - xs ! ?lo" using mult_right_mono[OF f(2) d] by simp
  ultimately show ?thesis by (simp add: interpolate_def)
qed

lemma interpolate_mono:
  assumes "sorted xs" and "0 \<le> p" and "p \<le> p'" and "p' \<le> of_nat (length xs) - 1"
  shows "interpolate xs p \<le> interpolate xs p'"
proof (cases "\<lceil>p\<rceil> \<le> \<lfloor>p'\<rfloor>")
  case True
  have "nat \<lfloor>p'\<rfloor> < length xs" using assms by linarith
  then have "xs ! nat \<lceil>p\<rceil> \<le> xs ! nat \<lfloor>p'\<rfloor>"
    by (rule sorted_nth_mono[OF assms(1) nat_mono[OF True]])
  moreover have "interpolate xs p \<le> xs ! nat \<lceil>p\<rceil>" using interpolate_between[of xs p] assms by simp
  moreover have "xs ! nat \<lfloor>p'\<rfloor> \<le> interpolate xs p'" using interpolate_between[of xs p'] assms by simp
  ultimately show ?thesis by linarith
next
  case False
  then have eq: "\<lfloor>p'\<rfloor> = \<lfloor>p\<rfloor>" "\<lceil>p'\<rceil> = \<lceil>p\<rceil>" using assms(3) by linarith+
  have "nat \<lceil>p\<rceil> < length xs" using assms by linarith
  then have d: "0 \<le> xs ! nat \<lceil>p\<rceil> - xs ! nat \<lfloor>p\<rfloor>"
    using sorted_nth_mono[OF assms(1) nat_mono[OF floor_le_ceiling]] by simp
  show ?thesis using mult_right_mono[OF _ d, of "p - of_int \<lfloor>p\<rfloor>" "p' - of_int \<lfloor>p\<rfloor>"] assms(3)
    by (simp add: interpolate_def eq)
qed

lemma interpolate_mirror:
  assumes "0 \<le> p" and "p \<le> of_nat (length xs) - 1"
  shows "interpolate (rev (map uminus xs)) p = - interpolate xs (of_nat (length xs) - 1 - p)"
proof -
  let ?n = "length xs" and ?l = "nat \<lfloor>p\<rfloor>" and ?h = "nat \<lceil>p\<rceil>"
  have fl: "\<lfloor>of_nat ?n - 1 - p\<rfloor> = int ?n - 1 - \<lceil>p\<rceil>" and ce: "\<lceil>of_nat ?n - 1 - p\<rceil> = int ?n - 1 - \<lfloor>p\<rfloor>"
    by linarith+
  have ix: "nat (int ?n - 1 - \<lceil>p\<rceil>) = ?n - Suc ?h" "nat (int ?n - 1 - \<lfloor>p\<rfloor>) = ?n - Suc ?l"
    using assms by linarith+
  have lt: "?h < ?n" "?l < ?n" using assms by linarith+
  then have nth: "rev (map uminus xs) ! ?h = - xs ! (?n - Suc ?h)" "rev (map uminus xs) ! ?l = - xs ! (?n - Suc ?l)"
    by (simp_all add: rev_nth)
  from ceiling_floor_cases[of p] show ?thesis
  proof
    assume *: "\<lceil>p\<rceil> = \<lfloor>p\<rfloor> \<and> of_int \<lfloor>p\<rfloor> = p"
    then show ?thesis unfolding interpolate_def fl ce ix nth by simp
  next
    assume *: "\<lceil>p\<rceil> = \<lfloor>p\<rfloor> + 1"
    then have "of_int \<lceil>p\<rceil> = (of_int \<lfloor>p\<rfloor> + 1 :: real)" by simp
    then show ?thesis unfolding interpolate_def fl ce ix nth by (simp add: algebra_simps)
  qed
qed

lemma quantile_mono:
  assumes "sorted xs" and "xs \<noteq> []" and "0 \<le> q" and "q \<le> q'" and "q' \<le> 1"
  shows "quantile_of xs q \<le> quantile_of xs q'"
proof -
  have n: "0 \<le> (of_nat (length xs) - 1 :: real)" using assms(2) by (cases xs) simp_all
  show ?thesis unfolding quantile_interpolate
    using interpolate_mono[OF assms(1) mult_nonneg_nonneg[OF assms(3) n] mult_right_mono[OF assms(4) n]]
      mult_right_mono[OF assms(5) n] by simp
qed

lemma quantile_in_range:
  assumes "sorted xs" and "xs \<noteq> []" and "0 \<le> q" and "q \<le> 1"
  shows "xs ! 0 \<le> quantile_of xs q \<and> quantile_of xs q \<le> xs ! (length xs - 1)"
proof -
  have e: "nat (int (length xs) - 1) = length xs - 1" by arith
  have "quantile_of xs 0 = xs ! 0" by (simp add: quantile_interpolate interpolate_def)
  moreover have "quantile_of xs 1 = xs ! (length xs - 1)"
    using assms(2) e by (simp add: quantile_interpolate interpolate_def)
  ultimately show ?thesis using quantile_mono[OF assms(1,2), of 0 q] quantile_mono[OF assms(1,2), of q 1] assms(3,4)
    by simp
qed

lemma quantile_mirror:
  assumes "xs \<noteq> []" and "0 \<le> q" and "q \<le> 1"
  shows "quantile_of (rev (map uminus xs)) q = - quantile_of xs (1 - q)"
proof -
  have n: "0 \<le> (of_nat (length xs) - 1 :: real)" using assms(1) by (cases xs) simp_all
  have "q * (of_nat (length xs) - 1) \<le> of_nat (length xs) - 1" using mult_right_mono[OF assms(3) n] by simp
  then show ?thesis
    using interpolate_mirror[OF mult_nonneg_nonneg[OF assms(2) n], of xs]
    by (simp add: quantile_interpolate algebra_simps)
qed

lemma sort_uminus: "sort (map uminus xs) = rev (map uminus (sort (xs :: real list)))"
proof (rule properties_for_sort)
  show "mset (rev (map uminus (sort xs))) = mset (map uminus xs)" by simp
  show "sorted (rev (map uminus (sort xs)))"
    by (simp add: sorted_wrt_rev sorted_wrt_map)
qed

lemma percentile_interval_mirror:
  assumes "percentile_interval samples c = Inr (lo, hi)" and "samples \<noteq> []"
  shows "percentile_interval (map uminus samples) c = Inr (- hi, - lo)"
proof -
  have c: "0 < c" "c < 1" using assms(1) by (auto simp: percentile_interval_def split: if_splits)
  have ne: "sort samples \<noteq> []" using assms(2) by (metis length_0_conv length_sort)
  have q: "0 \<le> (1 - c) / 2" "(1 - c) / 2 \<le> 1" "0 \<le> 1 - (1 - c) / 2" "1 - (1 - c) / 2 \<le> 1" using c by (simp_all add: field_simps)
  show ?thesis using assms(1) c quantile_mirror[OF ne q(1,2)] quantile_mirror[OF ne q(3,4)]
    by (simp add: percentile_interval_def Let_def sort_uminus)
qed

lemma percentile_interval_between:
  assumes "percentile_interval samples c = Inr (lo, hi)" and "samples \<noteq> []"
    and "\<And>x. x \<in> set samples \<Longrightarrow> l \<le> x \<and> x \<le> u"
  shows "l \<le> lo \<and> lo \<le> hi \<and> hi \<le> u"
proof -
  have c: "0 < c" "c < 1" using assms(1) by (auto simp: percentile_interval_def split: if_splits)
  let ?a = "(1 - c) / 2" and ?s = "sort samples"
  have lh: "lo = quantile_of ?s ?a" "hi = quantile_of ?s (1 - ?a)"
    using assms(1) c by (auto simp: percentile_interval_def Let_def)
  have len: "0 < length ?s" using assms(2) by simp
  then have ne: "?s \<noteq> []" unfolding length_greater_0_conv .
  have q: "0 \<le> ?a" "?a \<le> 1 - ?a" "1 - ?a \<le> 1" using c by (simp_all add: field_simps)
  have "?s ! 0 \<in> set ?s" "?s ! (length ?s - 1) \<in> set ?s" using len by (simp_all del: length_sort set_sort)
  then have "l \<le> ?s ! 0" "?s ! (length ?s - 1) \<le> u" using assms(3) by simp_all
  moreover have "quantile_of ?s ?a \<le> quantile_of ?s (1 - ?a)" by (rule quantile_mono[OF sorted_sort ne q])
  moreover have "?s ! 0 \<le> quantile_of ?s ?a" using quantile_in_range[OF sorted_sort ne, of ?a] q by linarith
  moreover have "quantile_of ?s (1 - ?a) \<le> ?s ! (length ?s - 1)"
    using quantile_in_range[OF sorted_sort ne, of "1 - ?a"] q by linarith
  ultimately show ?thesis unfolding lh by linarith
qed

section \<open>The bootstrap and the paired comparison\<close>

definition rng_ok :: "'g rng \<Rightarrow> bool" where
  \<comment> \<open>\<open>random.Random.randrange(n)\<close> draws an index below \<open>n\<close>\<close>
  "rng_ok r \<longleftrightarrow> (\<forall>n g. 0 < n \<longrightarrow> fst (rg_randrange r n g) < n)"

lemma rng_okD: "rng_ok r \<Longrightarrow> 0 < n \<Longrightarrow> rg_randrange r n g = (i, g') \<Longrightarrow> i < n"
  unfolding rng_ok_def by (metis fst_conv)

lemma next_index:
  assumes "rng_ok r" and "idx < n" and "(if u < p then rg_randrange r n g1 else ((idx + 1) mod n, g1)) = (i, g2)"
  shows "i < n"
proof -
  have "0 < n" using assms(2) by linarith
  then show ?thesis using assms(3) rng_okD[OF assms(1) \<open>0 < n\<close>, of g1 i g2] by (auto split: if_splits)
qed

lemma stationary_walk_Suc:
  assumes "rg_random r g = (u, g1)"
    and "(if u < p then rg_randrange r (length xs) g1 else ((idx + 1) mod length xs, g1)) = (i, g2)"
  shows "stationary_walk r p xs idx (Suc k) g
    = (xs ! idx # fst (stationary_walk r p xs i k g2), snd (stationary_walk r p xs i k g2))"
  using assms(2) by (simp only: stationary_walk.simps Let_def assms(1) prod.case split_def fst_conv snd_conv)

lemma stationary_walk_next:
  obtains u g1 i g2 where "rg_random r g = (u, g1)"
    and "(if u < p then rg_randrange r n g1 else ((idx + 1) mod n, g1)) = (i, g2)"
  by (meson surj_pair)

lemma stationary_walk_map:
  assumes "rng_ok r" and "idx < length xs"
  shows "stationary_walk r p (map f xs) idx k g = (map f (fst (stationary_walk r p xs idx k g)), snd (stationary_walk r p xs idx k g))"
  using assms(2)
proof (induction k arbitrary: idx g)
  case (Suc k)
  obtain u g1 i g2 where u: "rg_random r g = (u, g1)"
    and i: "(if u < p then rg_randrange r (length xs) g1 else ((idx + 1) mod length xs, g1)) = (i, g2)"
    by (rule stationary_walk_next)
  have "i < length xs" by (rule next_index[OF assms(1) Suc.prems i])
  from Suc.IH[OF this, of g2] show ?case
    using Suc.prems i by (simp only: stationary_walk_Suc[OF u] length_map nth_map fst_conv snd_conv list.map)
qed simp

lemma stationary_walk_set:
  assumes "rng_ok r" and "idx < length xs"
  shows "set (fst (stationary_walk r p xs idx k g)) \<subseteq> set xs \<and> length (fst (stationary_walk r p xs idx k g)) = k"
  using assms(2)
proof (induction k arbitrary: idx g)
  case (Suc k)
  obtain u g1 i g2 where u: "rg_random r g = (u, g1)"
    and i: "(if u < p then rg_randrange r (length xs) g1 else ((idx + 1) mod length xs, g1)) = (i, g2)"
    by (rule stationary_walk_next)
  have "i < length xs" by (rule next_index[OF assms(1) Suc.prems i])
  from Suc.IH[OF this, of g2] show ?case
    using Suc.prems by (simp del: stationary_walk.simps add: stationary_walk_Suc[OF u i])
qed simp

lemma stationary_sample_map:
  assumes "rng_ok r" and "xs \<noteq> []"
  shows "stationary_sample r (map f xs) b g = (map f (fst (stationary_sample r xs b g)), snd (stationary_sample r xs b g))"
proof -
  obtain i g1 where i: "rg_randrange r (length xs) g = (i, g1)" by fastforce
  moreover have "i < length xs" using assms by (simp add: rng_okD[OF _ _ i])
  ultimately show ?thesis by (simp add: stationary_sample_def stationary_walk_map[OF assms(1)])
qed

lemma stationary_sample_set:
  assumes "rng_ok r" and "xs \<noteq> []" and "stationary_sample r xs b g = (ys, g')"
  shows "set ys \<subseteq> set xs" and "length ys = length xs"
proof -
  obtain i g1 where i: "rg_randrange r (length xs) g = (i, g1)" by fastforce
  moreover have "i < length xs" using assms by (simp add: rng_okD[OF _ _ i])
  ultimately show "set ys \<subseteq> set xs" "length ys = length xs"
    using assms(3) stationary_walk_set[OF assms(1), of i xs "1 / b" "length xs" g1]
    by (simp_all add: stationary_sample_def)
qed

lemma bootstrap_samples_length [simp]: "length (bootstrap_samples r f xs b k g) = k"
  by (induction k arbitrary: g) (simp_all split: prod.splits)

lemma fmean_uminus: "fmean (map uminus xs) = - fmean xs"
proof -
  have "sum_list (map uminus xs) = - sum_list xs" by (induction xs) simp_all
  then show ?thesis by (simp add: fmean_def)
qed

lemma fmean_between:
  assumes "xs \<noteq> []" and "\<And>x. x \<in> set xs \<Longrightarrow> l \<le> x \<and> x \<le> u"
  shows "l \<le> fmean xs \<and> fmean xs \<le> u"
proof -
  have "l * of_nat (length xs) \<le> sum_list xs \<and> sum_list xs \<le> u * of_nat (length xs)"
    using assms(2) by (induction xs) (force simp: algebra_simps)+
  then show ?thesis using assms(1) by (simp add: fmean_def le_divide_eq divide_le_eq)
qed

lemma bootstrap_samples_uminus:
  assumes "rng_ok r" and "xs \<noteq> []"
  shows "bootstrap_samples r fmean (map uminus xs) b k g = map uminus (bootstrap_samples r fmean xs b k g)"
  by (induction k arbitrary: g) (simp_all add: stationary_sample_map[OF assms] fmean_uminus split: prod.splits)

lemma bootstrap_samples_between:
  assumes "rng_ok r" and "xs \<noteq> []" and "\<And>x. x \<in> set xs \<Longrightarrow> l \<le> x \<and> x \<le> u"
  shows "y \<in> set (bootstrap_samples r fmean xs b k g) \<Longrightarrow> l \<le> y \<and> y \<le> u"
proof (induction k arbitrary: g)
  case (Suc k)
  obtain ys g1 where s: "stationary_sample r xs b g = (ys, g1)" by fastforce
  have "ys \<noteq> []" using stationary_sample_set(2)[OF assms(1,2) s] assms(2) by auto
  then have "l \<le> fmean ys \<and> fmean ys \<le> u"
    using stationary_sample_set(1)[OF assms(1,2) s] assms(3) by (intro fmean_between) auto
  then show ?case using Suc.prems Suc.IH[of g1] by (auto simp: s)
qed simp

lemma bootstrap_ci_samples:
  assumes "stationary_bootstrap_ci r f xs k b c g = Inr ci"
  shows "xs \<noteq> [] \<and> 1 \<le> k \<and> (\<exists>block. percentile_interval (bootstrap_samples r f xs block (nat k) g) c = Inr ci)"
  using assms by (auto simp: stationary_bootstrap_ci_def Let_def split: if_splits)

lemma bootstrap_ci_between:
  assumes "rng_ok r" and "stationary_bootstrap_ci r fmean xs k b c g = Inr (lo, hi)"
    and "\<And>x. x \<in> set xs \<Longrightarrow> l \<le> x \<and> x \<le> u"
  shows "l \<le> lo \<and> lo \<le> hi \<and> hi \<le> u"
proof -
  obtain block where xs: "xs \<noteq> []" "1 \<le> k"
    and p: "percentile_interval (bootstrap_samples r fmean xs block (nat k) g) c = Inr (lo, hi)"
    using bootstrap_ci_samples[OF assms(2)] by blast
  have "length (bootstrap_samples r fmean xs block (nat k) g) \<noteq> 0" using xs(2) by simp
  then have "bootstrap_samples r fmean xs block (nat k) g \<noteq> []" unfolding length_0_conv .
  from percentile_interval_between[OF p this bootstrap_samples_between[OF assms(1) xs(1) assms(3)]]
  show ?thesis .
qed

lemma bootstrap_ci_mirror:
  assumes "rng_ok r" and "stationary_bootstrap_ci r fmean xs k b c g = Inr (lo, hi)"
  shows "stationary_bootstrap_ci r fmean (map uminus xs) k b c g = Inr (- hi, - lo)"
proof -
  have xs: "xs \<noteq> []" "1 \<le> k" using bootstrap_ci_samples[OF assms(2)] by auto
  have ne: "bootstrap_samples r fmean xs block (nat k) g \<noteq> []" for block
  proof -
    have "length (bootstrap_samples r fmean xs block (nat k) g) \<noteq> 0" using xs(2) by simp
    then show ?thesis unfolding length_0_conv .
  qed
  show ?thesis using assms(2) xs percentile_interval_mirror[OF _ ne]
    by (auto simp: stationary_bootstrap_ci_def Let_def bootstrap_samples_uminus[OF assms(1) xs(1)]
        split: if_splits cong: option.case_cong)
qed

lemma paired_comparison_between:
  assumes "rng_ok r" and "paired_comparison r a b k g = Inr c"
    and "\<And>i. i < length a \<Longrightarrow> l \<le> a ! i - b ! i \<and> a ! i - b ! i \<le> u"
  shows "l \<le> pc_ci_low c \<and> pc_ci_low c \<le> pc_ci_high c \<and> pc_ci_high c \<le> u"
    and "l \<le> pc_mean_diff c \<and> pc_mean_diff c \<le> u"
    and "pc_excludes_zero c \<longleftrightarrow> 0 < pc_ci_low c \<or> pc_ci_high c < 0"
    and "0 \<le> pc_share_positive c \<and> pc_share_positive c \<le> 1"
proof -
  have eq: "length a = length b" "a \<noteq> []" using assms(2) by (auto simp: paired_comparison_def split: if_splits)
  let ?d = "map2 (-) a b"
  obtain lo hi where ci: "stationary_bootstrap_ci r fmean ?d k None (95 / 100) g = Inr (lo, hi)"
    and c: "c = \<lparr>pc_mean_diff = fmean ?d, pc_ci_low = lo, pc_ci_high = hi,
           pc_share_positive = of_nat (length (filter (\<lambda>d. 0 < d) ?d)) / of_nat (length ?d),
           pc_n = length ?d, pc_excludes_zero = (0 < lo \<or> hi < 0)\<rparr>"
    using assms(2) by (fastforce simp: paired_comparison_def Let_def rmap_Inr_iff split: if_splits)
  have d: "l \<le> x \<and> x \<le> u" if "x \<in> set ?d" for x
    using that assms(3) eq by (auto simp: in_set_conv_nth)
  have "?d \<noteq> []" using eq by (cases a; cases b) simp_all
  from fmean_between[OF this d] bootstrap_ci_between[OF assms(1) ci d] share_unit[of "\<lambda>d. 0 < d" ?d]
  show "l \<le> pc_ci_low c \<and> pc_ci_low c \<le> pc_ci_high c \<and> pc_ci_high c \<le> u"
    "l \<le> pc_mean_diff c \<and> pc_mean_diff c \<le> u"
    "pc_excludes_zero c \<longleftrightarrow> 0 < pc_ci_low c \<or> pc_ci_high c < 0"
    "0 \<le> pc_share_positive c \<and> pc_share_positive c \<le> 1" unfolding c by simp_all
qed

lemma map2_minus_swap: "map2 (-) b a = map uminus (map2 (-) a (b :: real list))"
  by (induction a b rule: list_induct2') simp_all

lemma paired_comparison_swap:
  assumes "rng_ok r" and "paired_comparison r a b k g = Inr c"
  shows "\<exists>c'. paired_comparison r b a k g = Inr c' \<and> pc_mean_diff c' = - pc_mean_diff c
    \<and> pc_ci_low c' = - pc_ci_high c \<and> pc_ci_high c' = - pc_ci_low c \<and> pc_n c' = pc_n c
    \<and> (pc_excludes_zero c' \<longleftrightarrow> pc_excludes_zero c)"
proof -
  have eq: "length a = length b" "a \<noteq> []" "b \<noteq> []" using assms(2) by (auto simp: paired_comparison_def split: if_splits)
  obtain lo hi where ci: "stationary_bootstrap_ci r fmean (map2 (-) a b) k None (95 / 100) g = Inr (lo, hi)"
    using assms(2) by (fastforce simp: paired_comparison_def Let_def rmap_Inr_iff split: if_splits)
  show ?thesis using assms(2) eq ci bootstrap_ci_mirror[OF assms(1) ci]
    by (auto simp: paired_comparison_def Let_def map2_minus_swap[of b a] fmean_uminus simp del: map_map)
qed

section \<open>Deflated Sharpe and Newey-West\<close>

definition quantile_ok :: "(real \<Rightarrow> real) \<Rightarrow> bool" where
  \<comment> \<open>the inverse of a distribution function symmetric about \<open>0\<close>\<close>
  "quantile_ok z \<longleftrightarrow> (\<forall>p q. 0 < p \<longrightarrow> p \<le> q \<longrightarrow> q < 1 \<longrightarrow> z p \<le> z q) \<and> z (1 / 2) = 0"

lemma expected_max_factor_mono:
  assumes "quantile_ok z" and "n \<le> m" and "1 < n"
  shows "expected_max_factor z n \<le> expected_max_factor z m"
proof -
  have z: "z p \<le> z q" if "0 < p" "p \<le> q" "q < 1" for p q using assms(1) that unfolding quantile_ok_def by blast
  have r: "1 < (of_int n :: real)" "of_int n \<le> (of_int m :: real)" using assms(2,3) by simp_all
  have e: "1 < exp (1 :: real)" by simp
  have ne: "1 < (of_int n :: real) * exp 1" using mult_strict_mono[of 1 "of_int n :: real" 1 "exp 1"] r e by simp
  have "z (1 - 1 / of_int n) \<le> z (1 - 1 / of_int m)" using r by (intro z) (simp_all add: frac_le)
  moreover have "z (1 - 1 / (of_int n * exp 1)) \<le> z (1 - 1 / (of_int m * exp 1))"
    using r ne by (intro z) (simp_all add: frac_le)
  ultimately have "(1 - EULER_MASCHERONI) * z (1 - 1 / of_int n) + EULER_MASCHERONI * z (1 - 1 / (of_int n * exp 1))
      \<le> (1 - EULER_MASCHERONI) * z (1 - 1 / of_int m) + EULER_MASCHERONI * z (1 - 1 / (of_int m * exp 1))"
    by (intro add_mono mult_left_mono) (simp_all add: EULER_MASCHERONI_def)
  then show ?thesis using assms(2,3) by (simp add: expected_max_factor_def)
qed

lemma expected_max_factor_nonneg:
  assumes "quantile_ok z"
  shows "0 \<le> expected_max_factor z n"
proof (cases "n \<le> 1")
  case True
  then show ?thesis by (simp add: expected_max_factor_def)
next
  case False
  have z: "0 \<le> z q" if "1 / 2 \<le> q" "q < 1" for q
  proof -
    have "z (1 / 2) \<le> z q" using assms that unfolding quantile_ok_def by (metis half_gt_zero zero_less_one)
    then show ?thesis using assms by (simp add: quantile_ok_def)
  qed
  have n: "2 \<le> (of_int n :: real)" using False by simp
  have e: "1 \<le> exp (1 :: real)" by simp
  have ne: "2 \<le> (of_int n :: real) * exp 1" using mult_mono[of 2 "of_int n :: real" 1 "exp 1"] n e by simp
  have "0 \<le> z (1 - 1 / of_int n)" using n by (intro z) (simp_all add: field_simps)
  moreover have "0 \<le> z (1 - 1 / (of_int n * exp 1))" using n ne by (intro z) (simp_all add: field_simps)
  ultimately show ?thesis using False by (simp add: expected_max_factor_def EULER_MASCHERONI_def)
qed

lemma expected_max_factor_antimono:
  assumes "quantile_ok z" and "n \<le> m"
  shows "expected_max_factor z n \<le> expected_max_factor z m"
proof (cases "1 < n")
  case True
  then show ?thesis by (rule expected_max_factor_mono[OF assms])
next
  case False
  then have "expected_max_factor z n = 0" by (simp add: expected_max_factor_def)
  then show ?thesis using expected_max_factor_nonneg[OF assms(1)] by simp
qed

lemma deflated_sharpe_more_trials:
  assumes "quantile_ok z" and "mono phi" and "n \<le> m"
    and "deflated_sharpe z phi s n obs sk ku = Inr x" and "deflated_sharpe z phi s m obs sk ku = Inr y"
  shows "y \<le> x"
proof -
  let ?c = "1 - sk * s + (ku - 1) / 4 * s\<^sup>2" and ?o = "of_int obs :: real"
  let ?arg = "\<lambda>n. (s - sqrt (1 / ?o) * expected_max_factor z n) * sqrt (of_int (obs - 1)) / sqrt ?c"
  have c: "0 < ?c" "2 \<le> obs" and xy: "x = phi (?arg n)" "y = phi (?arg m)"
    using assms(4,5) by (simp_all only: deflated_sharpe_def Let_def sum.inject sum.distinct not_less not_le split: if_split_asm)
  have "sqrt (1 / ?o) * expected_max_factor z n \<le> sqrt (1 / ?o) * expected_max_factor z m"
    using c by (intro mult_left_mono expected_max_factor_antimono[OF assms(1,3)]) simp
  then have "?arg m \<le> ?arg n" using c by (intro divide_right_mono mult_right_mono) simp_all
  then show ?thesis unfolding xy by (rule monoD[OF assms(2)])
qed

lemma minimum_backtest_length_cases:
  "minimum_backtest_length z n s = Inl e \<longleftrightarrow> n < 1 \<and> e = ValueError"
  "1 \<le> n \<Longrightarrow> s \<le> 0 \<Longrightarrow> minimum_backtest_length z n s = Inr PInf"
  by (auto simp: minimum_backtest_length_def)

lemma gates_in_order:
  "map vg_name (validation_gates z phi s n obs trades months returns) = [''dsr'', ''pbo'', ''trades'', ''oos_months'', ''n_trials'']"
  by (simp add: validation_gates_def Let_def)

lemma gates_fail_closed:
  assumes "g \<in> set (validation_gates z phi s n obs trades months returns)"
  shows "vg_passed g = None \<longleftrightarrow> vg_value g = None"
  using assms by (auto simp: validation_gates_def Let_def)

lemma gates_all_pass:
  assumes "\<forall>g \<in> set (validation_gates z phi s n obs trades months returns). vg_passed g = Some True"
  shows "1 \<le> n \<and> 2 \<le> obs \<and> 50 \<le> trades \<and> 6 \<le> months
    \<and> (\<exists>d p xs. deflated_sharpe z phi s n obs 0 3 = Inr d \<and> 95 / 100 \<le> d \<and> returns = Some xs
         \<and> probability_of_backtest_overfitting xs 8 1 = Inr (Some p) \<and> p \<le> 5 / 100 \<and> 32 \<le> length xs)"
proof -
  let ?d = "value_of (deflated_sharpe z phi s n obs 0 3)"
  from assms obtain d where d: "?d = Some d" "DSR_THRESHOLD \<le> d"
    by (auto simp: validation_gates_def Let_def)
  then have dsr: "deflated_sharpe z phi s n obs 0 3 = Inr d" by (auto simp: value_of_def split: sum.splits)
  then have "2 \<le> obs" by (auto simp: deflated_sharpe_def split: if_splits)
  from assms obtain xs p where xs: "returns = Some xs" "probability_of_backtest_overfitting xs 8 1 = Inr (Some p)" "p \<le> PBO_THRESHOLD"
    by (auto simp: validation_gates_def Let_def split: option.splits sum.splits)
  then have "32 \<le> length xs" by (auto simp: probability_of_backtest_overfitting_def split: if_splits)
  moreover have "1 \<le> n" "50 \<le> trades" "6 \<le> months"
    using assms by (auto simp: validation_gates_def Let_def GATE_MIN_TRADES_def GATE_MIN_OOS_MONTHS_def)
  ultimately show ?thesis using dsr d xs \<open>2 \<le> obs\<close> by (auto simp: DSR_THRESHOLD_def PBO_THRESHOLD_def)
qed

lemma fmean_replicate: "0 < n \<Longrightarrow> fmean (replicate n v) = v"
  by (simp add: fmean_def sum_list_replicate)

lemma long_run_variance_zero: "long_run_variance (replicate n 0) k = 0"
proof -
  have "autocovariance (replicate n 0) i = 0" for i
  proof -
    have "map (\<lambda>j. replicate n 0 ! j * replicate n 0 ! (j - i)) [i..<n] = map (\<lambda>j. 0 :: real) [i..<n]"
      by (rule map_cong) auto
    then have "sum_list (map (\<lambda>j. replicate n 0 ! j * replicate n 0 ! (j - i)) [i..<n]) = (0 :: real)"
      by (simp only: sum_list_0)
    then show ?thesis by (simp add: autocovariance_def)
  qed
  moreover have "foldl (\<lambda>acc k. acc + 2 * (1 - of_nat k / (of_nat l + 1)) * 0) (0 :: real) ks = 0" for l :: nat and ks :: "nat list"
    by (induction ks) simp_all
  ultimately show ?thesis by (simp add: long_run_variance_def sum_list_replicate)
qed

lemma newey_west_constant:
  assumes "0 < n" and "lags = None \<or> (\<exists>k. lags = Some k \<and> 0 \<le> k)"
  shows "newey_west_t (replicate n v) lags = Inr 0"
proof -
  have "0 \<le> 4 * (of_nat n / 100 :: real) powr (2 / 9)" by simp
  then have "0 \<le> \<lfloor>4 * (of_nat n / 100 :: real) powr (2 / 9)\<rfloor>" unfolding zero_le_floor .
  then have "\<not> (case lags of Some k \<Rightarrow> k | None \<Rightarrow> \<lfloor>4 * (of_nat n / 100 :: real) powr (2 / 9)\<rfloor>) < 0"
    using assms(2) by (auto simp del: floor_less_zero zero_le_floor)
  moreover have "map (\<lambda>w. w - v) (replicate n v) = replicate n 0" by simp
  moreover have "replicate n v \<noteq> []" using assms(1) by simp
  ultimately show ?thesis
    by (simp only: newey_west_t_def Let_def length_replicate fmean_replicate[OF assms(1)] long_run_variance_zero if_False) simp
qed

end
