(* ===== verification/Lineage.thy ===== *)
theory Lineage
  imports Stats Stores JsonText Ledger Config
begin

text \<open>
  \<open>signald/lineage.py\<close>: the trial registry, the sleeves' scorecards and their paired comparison, the
  diversification statistics, the monthly allocation proposal and the kill and shrink criteria. The
  statistics are those of \<open>Stats\<close>; amounts are real numbers, as there. A file of trials is its
  non-blank lines, \<open>None\<close> for one that is not JSON; the rendered Markdown is left out.
\<close>

section \<open>Numbers\<close>

definition SESSIONS_BAR :: nat where "SESSIONS_BAR = 3500"
definition FEASIBILITY_CLAIM :: string where
  "FEASIBILITY_CLAIM = ''feasibility, not superiority - no winner is declared''"
definition ADEQUATE_CLAIM :: string where
  "ADEQUATE_CLAIM = ''the paired interval excludes zero; the pre-registered validation gates decide, not this report''"
definition NO_DIFFERENCE_CLAIM :: string where
  "NO_DIFFERENCE_CLAIM = ''no difference distinguishable from noise; no winner is declared''"

definition finite_num :: "json \<Rightarrow> real option" where
  \<comment> \<open>\<open>_finite\<close>: a finite real; a boolean, a string or \<open>NaN\<close> is no number\<close>
  "finite_num v = (case v of
      JInt n \<Rightarrow> Some (of_int n)
    | JFloat x \<Rightarrow> (case x of Fin r \<Rightarrow> Some r | _ \<Rightarrow> None)
    | _ \<Rightarrow> None)"

section \<open>The trial registry\<close>

record Trial =
  tl_trial_id :: string
  tl_variant :: string
  tl_started_at :: string
  tl_notes :: string
  tl_metric :: "(string \<times> real) list"
  tl_n_trials :: json

fun clean_items :: "(string \<times> json) list \<Rightarrow> (string \<times> real) list res" where
  "clean_items [] = Inr []"
| "clean_items ((k, v) # d) =
     (case finite_num v of None \<Rightarrow> Inl ValueError | Some x \<Rightarrow> rmap ((#) (k, x)) (clean_items d))"

definition clean_metric :: "(string \<times> json) list option \<Rightarrow> (string \<times> real) list res" where
  "clean_metric metric = (case metric of None \<Rightarrow> Inr [] | Some d \<Rightarrow> clean_items d)"

record TrialRegistry =
  tr_file :: jsonl
  tr_audit :: "ledger option"

definition registry_rows :: "jsonl \<Rightarrow> json list res" where
  \<comment> \<open>a line that does not parse raises, it is not skipped\<close>
  "registry_rows f = (if None \<in> set f then Inl ValueError else Inr (map the f))"

definition trial_count :: "TrialRegistry \<Rightarrow> int res" where
  "trial_count reg = rmap (\<lambda>rows. int (length rows)) (registry_rows (tr_file reg))"

definition str_field :: "(json \<Rightarrow> string) \<Rightarrow> (string \<times> json) list \<Rightarrow> string \<Rightarrow> string" where
  \<comment> \<open>\<open>str(row.get(key, ""))\<close>\<close>
  "str_field rp d k = (case map_of d k of None \<Rightarrow> [] | Some v \<Rightarrow> py_str rp v)"

fun trial_of_row :: "(json \<Rightarrow> string) \<Rightarrow> json \<Rightarrow> Trial res" where
  "trial_of_row rp (JObj d) =
     (case json_or (jget d ''metric'') (JObj []) of
        JObj m \<Rightarrow> rmap (\<lambda>metric.
          \<lparr>tl_trial_id = str_field rp d ''trial_id'', tl_variant = str_field rp d ''variant'',
           tl_started_at = str_field rp d ''started_at'', tl_notes = str_field rp d ''notes'',
           tl_metric = metric, tl_n_trials = jget d ''n_trials''\<rparr>) (clean_items m)
      | _ \<Rightarrow> Inl AttributeError)"
| "trial_of_row rp _ = Inl AttributeError"

fun trials_of_rows :: "(json \<Rightarrow> string) \<Rightarrow> json list \<Rightarrow> Trial list res" where
  "trials_of_rows rp [] = Inr []"
| "trials_of_rows rp (v # vs) = rbind (trial_of_row rp v) (\<lambda>t. rmap ((#) t) (trials_of_rows rp vs))"

definition trials :: "(json \<Rightarrow> string) \<Rightarrow> TrialRegistry \<Rightarrow> Trial list res" where
  "trials rp reg = rbind (registry_rows (tr_file reg)) (trials_of_rows rp)"

definition trial_id_text :: "nat \<Rightarrow> string" where
  \<comment> \<open>\<open>f"T{n:04d}"\<close>\<close>
  "trial_id_text n = ''T'' @ replicate (4 - length (nat_text n)) CHR ''0'' @ nat_text n"

definition metric_json :: "(string \<times> real) list \<Rightarrow> json" where
  "metric_json m = JObj (map (\<lambda>(k, x). (k, JFloat (Fin x))) m)"

definition trial_row :: "Trial \<Rightarrow> json" where
  "trial_row t = canon (JObj
     [(''trial_id'', JStr (tl_trial_id t)), (''variant'', JStr (tl_variant t)),
      (''started_at'', JStr (tl_started_at t)), (''notes'', JStr (tl_notes t)),
      (''metric'', metric_json (tl_metric t)), (''n_trials'', tl_n_trials t)])"

definition register_trial ::
  "digest \<Rightarrow> datetime \<Rightarrow> string \<Rightarrow> string \<Rightarrow> string \<Rightarrow> (string \<times> json) list option
   \<Rightarrow> TrialRegistry \<Rightarrow> TrialRegistry \<times> Trial res" where
  \<comment> \<open>\<open>now\<close> is the registry's clock, \<open>ats\<close> the stamp of the audit chain's own\<close>
  "register_trial h now ats variant notes metric reg =
     (case trial_count reg of Inl e \<Rightarrow> (reg, Inl e)
      | Inr c \<Rightarrow> (case clean_metric metric of Inl e \<Rightarrow> (reg, Inl e)
      | Inr m \<Rightarrow>
         (let t = \<lparr>tl_trial_id = trial_id_text (nat (c + 1)), tl_variant = variant,
                   tl_started_at = isoformat_seconds now, tl_notes = notes, tl_metric = m,
                   tl_n_trials = JInt (c + 1)\<rparr>;
              reg1 = reg\<lparr>tr_file := tr_file reg @ [Some (trial_row t)]\<rparr>
          in (case tr_audit reg of
                None \<Rightarrow> (reg1, Inr t)
              | Some f \<Rightarrow>
                  (case ledger_append h ats ''trial_registered''
                     (''trial '' @ tl_trial_id t @ '' ('' @ variant @ '')'')
                     [(''trial_id'', Plain (JStr (tl_trial_id t))), (''variant'', Plain (JStr variant)),
                      (''n_trials'', Plain (JInt (c + 1)))] f of
                     Inl e \<Rightarrow> (reg1, Inl e)
                   | Inr f' \<Rightarrow> (reg1\<lparr>tr_audit := Some f'\<rparr>, Inr t))))))"

definition registry_deflated_sharpe ::
  "(real \<Rightarrow> int \<Rightarrow> int \<Rightarrow> real res) \<Rightarrow> TrialRegistry \<Rightarrow> real \<Rightarrow> int \<Rightarrow> real res" where
  \<comment> \<open>\<open>fn\<close> is the injected implementation, or \<open>deflated_sharpe\<close> with its default moments\<close>
  "registry_deflated_sharpe fn reg sharpe observations =
     rbind (trial_count reg) (\<lambda>n. fn sharpe n observations)"

section \<open>Trade rows and daily series\<close>

type_synonym trade = "(string \<times> json) list"

fun replace_z :: "string \<Rightarrow> string" where
  \<comment> \<open>\<open>text.replace("Z", "+00:00")\<close>\<close>
  "replace_z [] = []"
| "replace_z (c # cs) = (if c = CHR ''Z'' then ''+00:00'' else [c]) @ replace_z cs"

definition day_text :: "string \<Rightarrow> string" where
  "day_text raw =
     (let text = replace_z raw in
      case fromisoformat text of Some t \<Rightarrow> date_text (date_of t) | None \<Rightarrow> take 10 text)"

definition day_of :: "(json \<Rightarrow> string) \<Rightarrow> trade \<Rightarrow> string option" where
  "day_of rp row =
     (if json_truthy (jget row ''exit_ts'') then Some (day_text (py_str rp (jget row ''exit_ts'')))
      else if json_truthy (jget row ''entry_ts'') then Some (day_text (py_str rp (jget row ''entry_ts'')))
      else None)"

definition row_gross :: "trade \<Rightarrow> real option" where
  \<comment> \<open>\<open>qty * (exit_px - entry_px)\<close> of three numbers\<close>
  "row_gross row =
     (case (finite_num (jget row ''qty''), finite_num (jget row ''entry_px''), finite_num (jget row ''exit_px'')) of
        (Some qty, Some entry, Some exit_px) \<Rightarrow> Some (qty * (exit_px - entry)) | _ \<Rightarrow> None)"

definition row_net :: "trade \<Rightarrow> real option" where
  "row_net row =
     (case (row_gross row, finite_num (jget row ''fees_usd'')) of
        (Some gross, Some fees) \<Rightarrow> Some (gross - fees) | _ \<Rightarrow> None)"

definition day_sum :: "(string \<times> real) list \<Rightarrow> string \<Rightarrow> real" where
  "day_sum days day = (case map_of days day of None \<Rightarrow> 0 | Some x \<Rightarrow> x)"

fun collect_days :: "(json \<Rightarrow> string) \<Rightarrow> trade list \<Rightarrow> (string \<times> real) list \<times> nat \<times> nat
    \<Rightarrow> (string \<times> real) list \<times> nat \<times> nat" where
  "collect_days rp [] acc = acc"
| "collect_days rp (row # rows) (days, bad_pnl, bad_day) =
     collect_days rp rows
       (case row_net row of
          None \<Rightarrow> (days, bad_pnl + 1, bad_day)
        | Some net \<Rightarrow>
            (case day_of rp row of
               None \<Rightarrow> (days, bad_pnl, bad_day + 1)
             | Some day \<Rightarrow> (AList.update day (day_sum days day + net) days, bad_pnl, bad_day)))"

definition daily_pnl :: "(json \<Rightarrow> string) \<Rightarrow> trade list \<Rightarrow> (string \<times> real) list \<times> string option" where
  "daily_pnl rp rows =
     (let (days, bad_pnl, bad_day) = collect_days rp rows ([], 0, 0) in
      if 0 < bad_pnl then ([], Some (''net PnL unavailable on '' @ nat_text bad_pnl @ '' trade(s)''))
      else if 0 < bad_day then ([], Some (''session date unavailable on '' @ nat_text bad_day @ '' trade(s)''))
      else (days, None))"

definition aligned ::
  "(string \<times> real) list \<Rightarrow> (string \<times> real) list \<Rightarrow> string list \<times> real list \<times> real list" where
  "aligned days_a days_b =
     (let sessions = sort (remdups (map fst days_a @ map fst days_b)) in
      (sessions, map (day_sum days_a) sessions, map (day_sum days_b) sessions))"

definition pearson :: "real list \<Rightarrow> real list \<Rightarrow> real option" where
  "pearson x y =
     (let n = length x in
      if n < 2 \<or> length y \<noteq> n then None
      else (let mx = sum_list x / of_nat n; my = sum_list y / of_nat n;
                cross = sum_list (map2 (\<lambda>a b. (a - mx) * (b - my)) x y);
                var_x = sum_list (map (\<lambda>a. (a - mx)\<^sup>2) x); var_y = sum_list (map (\<lambda>b. (b - my)\<^sup>2) y) in
        if var_x \<le> 0 \<or> var_y \<le> 0 then None else Some (cross / sqrt (var_x * var_y))))"

definition max_drawdown :: "real list \<Rightarrow> real" where
  "max_drawdown values =
     (let (peak, cumulative, drawdown) =
            foldl (\<lambda>(peak, cum, dd) v.
              (let cum' = cum + v; peak' = max peak cum' in (peak', cum', max dd (peak' - cum'))))
              (0, 0, 0) values
      in drawdown)"

section \<open>Scorecards\<close>

definition METRICS :: "string list" where
  "METRICS = [''net_pnl_usd'', ''gross_pnl_usd'', ''fees_usd'', ''win_rate'', ''expectancy_usd'', ''expectancy_r'',
     ''avg_win_usd'', ''avg_loss_usd'', ''payoff_ratio'', ''profit_factor'', ''max_drawdown_usd'', ''mean_slippage_bps'']"

record Scorecard =
  sc_sleeve :: string
  sc_trades :: nat
  sc_metrics :: "(string \<times> real option) list"
  sc_reasons :: "(string \<times> string) list"
  sc_sample_adequate :: bool

record card_tally =
  ct_grosses :: "real list"
  ct_nets :: "real list"
  ct_fees :: "real list"
  ct_slips :: "real list"
  ct_rs :: "real list"
  ct_bad_core :: nat
  ct_bad_fees :: nat

definition tally_row :: "card_tally \<Rightarrow> trade \<Rightarrow> card_tally" where
  "tally_row t row =
     (let t1 = (case row_gross row of
                  None \<Rightarrow> t\<lparr>ct_bad_core := ct_bad_core t + 1\<rparr>
                | Some gross \<Rightarrow>
                    (case finite_num (jget row ''fees_usd'') of
                       None \<Rightarrow> t\<lparr>ct_grosses := ct_grosses t @ [gross], ct_bad_fees := ct_bad_fees t + 1\<rparr>
                     | Some fees \<Rightarrow> t\<lparr>ct_grosses := ct_grosses t @ [gross], ct_fees := ct_fees t @ [fees],
                         ct_nets := ct_nets t @ [gross - fees]\<rparr>));
          t2 = (case finite_num (jget row ''slippage_bps'') of None \<Rightarrow> t1
                | Some s \<Rightarrow> t1\<lparr>ct_slips := ct_slips t1 @ [s]\<rparr>)
      in (case finite_num (jget row ''r_multiple'') of None \<Rightarrow> t2
          | Some r \<Rightarrow> t2\<lparr>ct_rs := ct_rs t2 @ [r]\<rparr>))"

definition empty_tally :: card_tally where
  "empty_tally = \<lparr>ct_grosses = [], ct_nets = [], ct_fees = [], ct_slips = [], ct_rs = [], ct_bad_core = 0, ct_bad_fees = 0\<rparr>"

definition wins_of :: "real list \<Rightarrow> real list" where "wins_of nets = filter (\<lambda>x. 0 < x) nets"
definition losses_of :: "real list \<Rightarrow> real list" where "losses_of nets = filter (\<lambda>x. x < 0) nets"

definition core_ok :: "card_tally \<Rightarrow> bool" where "core_ok t \<longleftrightarrow> ct_bad_core t = 0"
definition fees_ok :: "card_tally \<Rightarrow> bool" where "fees_ok t \<longleftrightarrow> core_ok t \<and> ct_bad_fees t = 0"

definition some_if :: "bool \<Rightarrow> 'a \<Rightarrow> 'a option" where
  "some_if b x = (if b then Some x else None)"

definition card_metrics :: "nat \<Rightarrow> card_tally \<Rightarrow> (string \<times> real option) list" where
  "card_metrics n t =
     (let nets = ct_nets t; wins = wins_of nets; losses = losses_of nets; ok = fees_ok t;
          avg_win = sum_list wins / of_nat (length wins);
          avg_loss = \<bar>sum_list losses / of_nat (length losses)\<bar> in
      [(''net_pnl_usd'', some_if ok (sum_list nets)),
       (''gross_pnl_usd'', some_if (core_ok t) (sum_list (ct_grosses t))),
       (''fees_usd'', some_if ok (sum_list (ct_fees t))),
       (''win_rate'', some_if ok (of_nat (length wins) / of_nat n)),
       (''expectancy_usd'', some_if ok (sum_list nets / of_nat n)),
       (''expectancy_r'', some_if (length (ct_rs t) = n) (sum_list (ct_rs t) / of_nat n)),
       (''avg_win_usd'', some_if (ok \<and> wins \<noteq> []) avg_win),
       (''avg_loss_usd'', some_if (ok \<and> losses \<noteq> []) avg_loss),
       (''payoff_ratio'', some_if (ok \<and> wins \<noteq> [] \<and> losses \<noteq> []) (avg_win / avg_loss)),
       (''profit_factor'', some_if (ok \<and> wins \<noteq> [] \<and> losses \<noteq> []) (sum_list wins / \<bar>sum_list losses\<bar>)),
       (''max_drawdown_usd'', some_if ok (max_drawdown nets)),
       (''mean_slippage_bps'', some_if (ct_slips t \<noteq> []) (sum_list (ct_slips t) / of_nat (length (ct_slips t))))])"

definition metric_reason :: "nat \<Rightarrow> card_tally \<Rightarrow> string \<Rightarrow> string" where
  "metric_reason n t key =
     (let core_reason = ''qty/entry_px/exit_px unavailable on '' @ nat_text (ct_bad_core t) @ '' trade(s)'';
          fees_reason = ''fees_usd unavailable on '' @ nat_text (ct_bad_fees t) @ '' trade(s)'' in
      if key = ''gross_pnl_usd'' then core_reason
      else if \<not> fees_ok t then (if ct_bad_core t \<noteq> 0 then core_reason else fees_reason)
      else if key = ''avg_win_usd'' then ''no winning trades''
      else if key = ''avg_loss_usd'' then ''no losing trades''
      else if key = ''payoff_ratio'' then ''requires both winning and losing trades''
      else if key = ''profit_factor'' then ''no losing trades (undefined)''
      else if key = ''expectancy_r'' then
        ''r_multiple unavailable on '' @ nat_text (n - length (ct_rs t)) @ '' trade(s)''
      else if key = ''mean_slippage_bps'' then ''slippage_bps unavailable on all trades''
      else ''unavailable'')"

definition scorecard :: "trade list \<Rightarrow> string \<Rightarrow> int \<Rightarrow> Scorecard" where
  "scorecard rows sleeve minimum_trades =
     (if rows = [] then
        \<lparr>sc_sleeve = sleeve, sc_trades = 0, sc_metrics = map (\<lambda>k. (k, None)) METRICS,
         sc_reasons = map (\<lambda>k. (k, ''no trades'')) METRICS, sc_sample_adequate = False\<rparr>
      else (let n = length rows; t = foldl tally_row empty_tally rows; metrics = card_metrics n t in
        \<lparr>sc_sleeve = sleeve, sc_trades = n, sc_metrics = metrics,
         sc_reasons = map (\<lambda>(k, _). (k, metric_reason n t k)) (filter (\<lambda>(_, v). v = None) metrics),
         sc_sample_adequate = (minimum_trades \<le> int n)\<rparr>))"

section \<open>The paired comparison\<close>

record difference =
  df_sessions :: nat
  df_mean_diff :: "real option"
  df_ci_low :: "real option"
  df_ci_high :: "real option"
  df_share_positive :: "real option"
  df_excludes_zero :: "bool option"
  df_n :: "nat option"
  df_reason :: "string option"

record Comparison =
  cm_a :: Scorecard
  cm_b :: Scorecard
  cm_difference :: difference
  cm_claim :: string

definition no_difference :: "nat \<Rightarrow> string option \<Rightarrow> difference" where
  "no_difference n why =
     \<lparr>df_sessions = n, df_mean_diff = None, df_ci_low = None, df_ci_high = None, df_share_positive = None,
      df_excludes_zero = None, df_n = None, df_reason = why\<rparr>"

definition paired_difference ::
  "(real list \<Rightarrow> real list \<Rightarrow> PairedComparison res) \<Rightarrow> (string \<times> real) list \<times> string option
   \<Rightarrow> (string \<times> real) list \<times> string option \<Rightarrow> difference res" where
  "paired_difference paired a b =
     (let (days_a, why_a) = a; (days_b, why_b) = b;
          (sessions, series_a, series_b) = aligned days_a days_b; n = length sessions in
      if why_a \<noteq> None \<or> why_b \<noteq> None then
        Inr (no_difference n (if why_a \<noteq> None then why_a else why_b))
      else if n < 2 then Inr (no_difference n (Some ''fewer than two aligned sessions''))
      else if days_a = [] \<or> days_b = [] then
        Inr (no_difference n (Some ''one sleeve has no daily PnL to pair''))
      else rmap (\<lambda>p.
        \<lparr>df_sessions = n, df_mean_diff = Some (pc_mean_diff p), df_ci_low = Some (pc_ci_low p),
         df_ci_high = Some (pc_ci_high p), df_share_positive = Some (pc_share_positive p),
         df_excludes_zero = Some (pc_excludes_zero p), df_n = Some (pc_n p), df_reason = None\<rparr>)
        (paired series_a series_b))"

definition comparison_claim :: "difference \<Rightarrow> bool \<Rightarrow> string" where
  "comparison_claim d adequate =
     (if df_sessions d < SESSIONS_BAR \<or> \<not> adequate then FEASIBILITY_CLAIM
      else if df_excludes_zero d = Some True then ADEQUATE_CLAIM else NO_DIFFERENCE_CLAIM)"

definition compare_sleeves ::
  "(json \<Rightarrow> string) \<Rightarrow> (real list \<Rightarrow> real list \<Rightarrow> PairedComparison res) \<Rightarrow> trade list \<Rightarrow> trade list
   \<Rightarrow> string \<Rightarrow> string \<Rightarrow> int \<Rightarrow> Comparison res" where
  "compare_sleeves rp paired trades_a trades_b sleeve_a sleeve_b minimum_trades =
     (let card_a = scorecard trades_a sleeve_a minimum_trades;
          card_b = scorecard trades_b sleeve_b minimum_trades in
      rmap (\<lambda>d. \<lparr>cm_a = card_a, cm_b = card_b, cm_difference = d,
             cm_claim = comparison_claim d (sc_sample_adequate card_a \<and> sc_sample_adequate card_b)\<rparr>)
        (paired_difference paired (daily_pnl rp trades_a) (daily_pnl rp trades_b)))"

section \<open>Diversification\<close>

record diversification =
  dv_days :: nat
  dv_correlation :: "real option"
  dv_stress_correlation :: "real option"
  dv_co_drawdown_incidence :: "real option"
  dv_tail_joint_share :: "real option"
  dv_tail_independence_share :: "real option"
  dv_reasons :: "(string \<times> string) list"

definition DIVERSIFICATION :: "string list" where
  "DIVERSIFICATION = [''correlation'', ''stress_correlation'', ''co_drawdown_incidence'', ''tail_joint_share'',
     ''tail_independence_share'']"

definition no_diversification :: "nat \<Rightarrow> string \<Rightarrow> diversification" where
  "no_diversification n why =
     \<lparr>dv_days = n, dv_correlation = None, dv_stress_correlation = None, dv_co_drawdown_incidence = None,
      dv_tail_joint_share = None, dv_tail_independence_share = None,
      dv_reasons = map (\<lambda>k. (k, why)) DIVERSIFICATION\<rparr>"

definition co_drawdown :: "real list \<Rightarrow> real list \<Rightarrow> real option" where
  "co_drawdown a b =
     (if a = [] then None
      else (let (peak_a, cum_a, peak_b, cum_b, both) =
                  foldl (\<lambda>(pa, ca, pb, cb, k) (x, y).
                    (let ca' = ca + x; pa' = max pa ca'; cb' = cb + y; pb' = max pb cb' in
                     (pa', ca', pb', cb', if ca' < pa' \<and> cb' < pb' then k + 1 else k)))
                    (0, 0, 0, 0, 0 :: nat) (zip a b)
            in Some (of_nat both / of_nat (length a))))"

definition worst_indices :: "(nat \<Rightarrow> real) \<Rightarrow> nat \<Rightarrow> nat \<Rightarrow> nat list" where
  \<comment> \<open>the first \<open>k\<close> of the sessions in order of their result\<close>
  "worst_indices f n k = take k (sort_key f [0..<n])"

definition sleeve_diversification :: "(json \<Rightarrow> string) \<Rightarrow> trade list \<Rightarrow> trade list \<Rightarrow> diversification" where
  "sleeve_diversification rp trades_a trades_b =
     (let (days_a, why_a) = daily_pnl rp trades_a; (days_b, why_b) = daily_pnl rp trades_b;
          (sessions, a, b) = aligned days_a days_b; n = length sessions in
      case (if why_a \<noteq> None then why_a else why_b) of
        Some why \<Rightarrow> no_diversification n why
      | None \<Rightarrow>
        (if n = 0 then no_diversification n ''no sessions to align''
         else
          (let corr = pearson a b; decile = n div 10;
               worst = worst_indices (\<lambda>i. a ! i + b ! i) n decile;
               stress = (if 2 \<le> decile then pearson (map ((!) a) worst) (map ((!) b) worst) else None);
               tail_n = max 1 (n div 20);
               joint = set (worst_indices ((!) a) n tail_n) \<inter> set (worst_indices ((!) b) n tail_n);
               few = ''fewer than 20 sessions ('' @ nat_text n @ '') for a 5% tail''
           in \<lparr>dv_days = n, dv_correlation = corr, dv_stress_correlation = stress,
               dv_co_drawdown_incidence = co_drawdown a b,
               dv_tail_joint_share = some_if (20 \<le> n) (of_nat (card joint) / of_nat n),
               dv_tail_independence_share = some_if (20 \<le> n) ((of_nat tail_n / of_nat n)\<^sup>2),
               dv_reasons =
                 (if corr = None then
                    [(''correlation'', if n < 2 then ''fewer than two sessions'' else ''daily PnL has no variance'')]
                  else [])
                 @ (if 2 \<le> decile then
                      (if stress = None then [(''stress_correlation'', ''worst-decile PnL has no variance'')] else [])
                    else [(''stress_correlation'',
                            ''worst decile of '' @ nat_text n @ '' session(s) has fewer than two points'')])
                 @ (if 20 \<le> n then [] else [(''tail_joint_share'', few), (''tail_independence_share'', few)])\<rparr>)))"

section \<open>Allocation proposals\<close>

datatype cap_reason = CappedByBand | CappedByFloor | CappedByCeiling
datatype alloc_reason = AllocationFrozen | NoiseBarNotCleared | ActiveDrawdown | HotStreak | NoTilt | ReviewTilt

record AllocationDecision =
  ad_sleeve :: string
  ad_current_pct :: pyfloat
  ad_proposed_pct :: pyfloat
  ad_capped_by :: "cap_reason option"
  ad_reason :: alloc_reason
  ad_frozen :: bool

definition hard_ceiling :: "string \<Rightarrow> Config \<Rightarrow> pyfloat \<Rightarrow> pyfloat" where
  "hard_ceiling sleeve cfg ceiling_pct =
     (let hard = (if sleeve = ''swing'' then Some (cfg_sleeve_swing_capital_pct cfg)
                  else if sleeve = ''intraday'' then Some (cfg_sleeve_intraday_capital_pct cfg) else None) in
      case hard of None \<Rightarrow> ceiling_pct
      | Some h \<Rightarrow> if isfinite h then pymin ceiling_pct h else ceiling_pct)"

definition copysign :: "pyfloat \<Rightarrow> real \<Rightarrow> pyfloat" where
  "copysign x s = (if s < 0 then - \<bar>x\<bar> else \<bar>x\<bar>)"

definition tilt_target ::
  "pyfloat \<Rightarrow> real \<Rightarrow> pyfloat \<Rightarrow> pyfloat \<Rightarrow> pyfloat \<Rightarrow> pyfloat \<times> cap_reason option" where
  \<comment> \<open>the current share moved by the tilt within the band, then clamped: the floor is tried first\<close>
  "tilt_target cur tilt band_pct floor_pct cap =
     (let (target, capped) =
            (if band_pct < Fin \<bar>tilt\<bar> then (cur + copysign band_pct tilt, Some CappedByBand)
             else (cur + Fin tilt, None)) in
      if target < floor_pct then (floor_pct, Some CappedByFloor)
      else if cap < target then (cap, Some CappedByCeiling)
      else (target, capped))"

definition propose_sleeve ::
  "Config \<Rightarrow> bool \<Rightarrow> pyfloat \<Rightarrow> pyfloat \<Rightarrow> pyfloat \<Rightarrow> string \<Rightarrow> pyfloat \<Rightarrow> (string \<times> json) list \<Rightarrow> AllocationDecision" where
  "propose_sleeve cfg frozen floor_pct ceiling_pct band_pct sleeve cur ev =
     (let stay = (\<lambda>why fr. \<lparr>ad_sleeve = sleeve, ad_current_pct = cur, ad_proposed_pct = cur,
                      ad_capped_by = None, ad_reason = why, ad_frozen = fr\<rparr>) in
      if frozen then stay AllocationFrozen True
      else if \<not> json_truthy (jget ev ''clears_noise_bar'') then stay NoiseBarNotCleared False
      else if json_truthy (jget ev ''in_drawdown'') then stay ActiveDrawdown False
      else if json_truthy (jget ev ''hot_streak'') then stay HotStreak False
      else (case finite_num (jget ev ''tilt_pct'') of
          None \<Rightarrow> stay NoTilt False
        | Some tilt \<Rightarrow>
            (if tilt = 0 then stay NoTilt False
             else (let (target, capped) =
                         tilt_target cur tilt band_pct floor_pct (hard_ceiling sleeve cfg ceiling_pct)
                   in \<lparr>ad_sleeve = sleeve, ad_current_pct = cur, ad_proposed_pct = target,
                       ad_capped_by = capped, ad_reason = ReviewTilt, ad_frozen = False\<rparr>))))"

definition propose_allocation ::
  "(string \<times> pyfloat) list \<Rightarrow> (string \<times> (string \<times> json) list) list \<Rightarrow> Config \<Rightarrow> bool
   \<Rightarrow> pyfloat \<Rightarrow> pyfloat \<Rightarrow> pyfloat \<Rightarrow> AllocationDecision list" where
  "propose_allocation current evidence cfg frozen floor_pct ceiling_pct band_pct =
     map (\<lambda>(sleeve, cur). propose_sleeve cfg frozen floor_pct ceiling_pct band_pct sleeve cur
            (case map_of evidence sleeve of None \<Rightarrow> [] | Some ev \<Rightarrow> ev))
       (sort_key fst current)"

section \<open>The kill and shrink criteria\<close>

datatype review_verdict = VKill | VShrink | VKeep
datatype review_reason = NegativeExpectation | CvarGrows | WeakContribution | InsufficientEvidence | KeepIt
datatype review_detail =
    ExpectationOver pyfloat int bool | SharesOf pyfloat pyfloat | NotClearOfZero
  | ClearOfZero pyfloat int | TradesNeeded int

definition MIN_TRADES_FOR_VERDICT :: int where "MIN_TRADES_FOR_VERDICT = 100"

record ReviewDecision =
  rv_sleeve :: string
  rv_verdict :: review_verdict
  rv_reason_code :: review_reason
  rv_detail :: review_detail
  rv_target_pct :: "pyfloat option"

definition review_acts :: "ReviewDecision \<Rightarrow> bool" where
  "review_acts d \<longleftrightarrow> rv_verdict d = VKill \<or> rv_verdict d = VShrink"

definition given :: "(string \<times> json) list option \<Rightarrow> bool" where
  "given bootstrap \<longleftrightarrow> bootstrap \<noteq> None \<and> bootstrap \<noteq> Some []"

definition prediction_excluded :: "(string \<times> json) list option \<Rightarrow> pyfloat option \<Rightarrow> bool res" where
  "prediction_excluded bootstrap predicted =
     (case (bootstrap, predicted) of
        (Some b, Some p) \<Rightarrow>
          (if b = [] \<or> jget b ''ci_low'' = JNull \<or> jget b ''ci_high'' = JNull then Inr False
           else rbind (float_of_json (jget b ''ci_low'')) (\<lambda>low.
             if \<not> low \<le> p then Inr True
             else rmap (\<lambda>high. \<not> p \<le> high) (float_of_json (jget b ''ci_high''))))
      | _ \<Rightarrow> Inr False)"

definition clears_zero :: "(string \<times> json) list option \<Rightarrow> bool" where
  \<comment> \<open>no interval was given, or it says so\<close>
  "clears_zero bootstrap =
     (case bootstrap of None \<Rightarrow> True | Some b \<Rightarrow> b = [] \<or> json_truthy (jget b ''excludes_zero''))"

definition kill_shrink_decision ::
  "string \<Rightarrow> int \<Rightarrow> pyfloat option \<Rightarrow> pyfloat \<Rightarrow> bool \<Rightarrow> (string \<times> json) list option \<Rightarrow> pyfloat option
   \<Rightarrow> pyfloat option \<Rightarrow> pyfloat option \<Rightarrow> pyfloat \<Rightarrow> ReviewDecision res" where
  "kill_shrink_decision sleeve n expectancy current_pct sample_adequate bootstrap predicted cvar_share
       return_share shrink_pct =
     rmap (\<lambda>excluded.
       (let enough = (MIN_TRADES_FOR_VERDICT \<le> n \<and> sample_adequate);
            dec = (\<lambda>v code d target. \<lparr>rv_sleeve = sleeve, rv_verdict = v, rv_reason_code = code,
                     rv_detail = d, rv_target_pct = target\<rparr>);
            none_acts = dec VKeep InsufficientEvidence (TradesNeeded n) (Some current_pct);
            positive = (case expectancy of Some e \<Rightarrow>
                if enough \<and> 0 < e then
                  (if \<not> clears_zero bootstrap then dec VShrink WeakContribution NotClearOfZero (Some shrink_pct)
                   else dec VKeep KeepIt (ClearOfZero e n) (Some current_pct))
                else none_acts | None \<Rightarrow> none_acts);
            tail_risk = (case (cvar_share, return_share) of
                (Some c, Some r) \<Rightarrow> if r < c then dec VKill CvarGrows (SharesOf c r) None else positive
              | _ \<Rightarrow> positive)
        in (case expectancy of
              Some e \<Rightarrow> if enough \<and> e \<le> 0 \<and> (predicted = None \<or> excluded)
                        then dec VKill NegativeExpectation (ExpectationOver e n excluded) None else tail_risk
            | None \<Rightarrow> tail_risk)))
       (prediction_excluded bootstrap predicted)"

section \<open>The committed artifacts\<close>

definition opt_num :: "real option \<Rightarrow> json" where
  "opt_num v = (case v of None \<Rightarrow> JNull | Some x \<Rightarrow> JFloat (Fin x))"

definition scorecard_dict :: "Scorecard \<Rightarrow> json" where
  "scorecard_dict c = JObj
     [(''sleeve'', JStr (sc_sleeve c)), (''trades'', JInt (int (sc_trades c))),
      (''sample_adequate'', JBool (sc_sample_adequate c)),
      (''metrics'', JObj (map (\<lambda>(k, v). (k, opt_num v)) (sc_metrics c))),
      (''reasons'', JObj (map (\<lambda>(k, v). (k, JStr v)) (sc_reasons c)))]"

definition difference_dict :: "difference \<Rightarrow> json" where
  "difference_dict d = JObj
     [(''sessions'', JInt (int (df_sessions d))), (''mean_diff'', opt_num (df_mean_diff d)),
      (''ci_low'', opt_num (df_ci_low d)), (''ci_high'', opt_num (df_ci_high d)),
      (''share_positive'', opt_num (df_share_positive d)),
      (''excludes_zero'', case df_excludes_zero d of None \<Rightarrow> JNull | Some b \<Rightarrow> JBool b),
      (''n'', case df_n d of None \<Rightarrow> JNull | Some n \<Rightarrow> JInt (int n)),
      (''reason'', case df_reason d of None \<Rightarrow> JNull | Some s \<Rightarrow> JStr s)]"

definition claim_limit :: "(string \<times> Scorecard) list \<Rightarrow> Comparison option \<Rightarrow> string" where
  "claim_limit cards comparison =
     (if comparison = None \<or> (\<exists>c \<in> set cards. \<not> sc_sample_adequate (snd c)) then FEASIBILITY_CLAIM
      else ADEQUATE_CLAIM)"

definition sealed :: "json_hash \<Rightarrow> (string \<times> json) list \<Rightarrow> json" where
  \<comment> \<open>the payload with its own \<open>artifact_sha256\<close>, as written to the file\<close>
  "sealed h payload = canon (JObj (payload @ [(''artifact_sha256'', JStr (sha256_of h (JObj payload)))]))"

definition write_scorecard ::
  "json_hash \<Rightarrow> (string \<times> Scorecard) list \<Rightarrow> Comparison option \<Rightarrow> int \<Rightarrow> datetime \<Rightarrow> json" where
  "write_scorecard h cards comparison n generated_at =
     sealed h
       [(''generated_at'', JStr (isoformat_seconds generated_at)), (''trials'', JInt n),
        (''claim_limit'', JStr (claim_limit cards comparison)),
        (''scorecards'', JObj (map (\<lambda>(name, c). (name, scorecard_dict c)) (sort_key fst cards))),
        (''comparison'', case comparison of None \<Rightarrow> JNull
          | Some c \<Rightarrow> JObj [(''a'', scorecard_dict (cm_a c)), (''b'', scorecard_dict (cm_b c)),
              (''difference'', difference_dict (cm_difference c)), (''claim'', JStr (cm_claim c))])]"

definition verdict_text :: "review_verdict \<Rightarrow> string" where
  "verdict_text v = (case v of VKill \<Rightarrow> ''kill'' | VShrink \<Rightarrow> ''shrink'' | VKeep \<Rightarrow> ''keep'')"

definition reason_text :: "review_reason \<Rightarrow> string" where
  "reason_text c = (case c of NegativeExpectation \<Rightarrow> ''negative_expectation''
     | CvarGrows \<Rightarrow> ''cvar_grows_without_return'' | WeakContribution \<Rightarrow> ''weak_risk_adjusted_contribution''
     | InsufficientEvidence \<Rightarrow> ''insufficient_evidence'' | KeepIt \<Rightarrow> ''keep'')"

definition write_review_report ::
  "json_hash \<Rightarrow> (review_detail \<Rightarrow> string) \<Rightarrow> ReviewDecision list \<Rightarrow> datetime \<Rightarrow> int \<Rightarrow> json" where
  \<comment> \<open>the sentence of a detail is the argument \<open>sentence\<close>: its numbers are formatted to two places\<close>
  "write_review_report h sentence decisions generated_at n =
     sealed h
       [(''generated_at'', JStr (isoformat_seconds generated_at)), (''trials'', JInt n),
        (''claim_limit'', JStr FEASIBILITY_CLAIM),
        (''decisions'', JList (map (\<lambda>d. JObj
           [(''sleeve'', JStr (rv_sleeve d)), (''verdict'', JStr (verdict_text (rv_verdict d))),
            (''reason_code'', JStr (reason_text (rv_reason_code d))), (''detail'', JStr (sentence (rv_detail d))),
            (''target_pct'', case rv_target_pct d of None \<Rightarrow> JNull | Some x \<Rightarrow> JFloat x)]) decisions))]"

section \<open>The registry\<close>

lemma trial_count_Inr: "trial_count reg = Inr n \<longleftrightarrow> None \<notin> set (tr_file reg) \<and> n = int (length (tr_file reg))"
  by (auto simp: trial_count_def registry_rows_def)

lemma register_trial_grows:
  assumes "register_trial h now ats variant notes metric reg = (reg', Inr t)"
  shows "\<exists>n. trial_count reg = Inr n \<and> trial_count reg' = Inr (n + 1) \<and> tl_n_trials t = JInt (n + 1)
    \<and> tr_file reg' = tr_file reg @ [Some (trial_row t)]"
  using assms by (auto simp: register_trial_def Let_def trial_count_Inr split: sum.splits option.splits)

lemma register_trial_failed_metric:
  "clean_metric metric = Inl e \<Longrightarrow> fst (register_trial h now ats variant notes metric reg) = reg"
  by (auto simp: register_trial_def split: sum.splits)

lemma broken_registry:
  assumes "None \<in> set (tr_file reg)"
  shows "trial_count reg = Inl ValueError" and "trials rp reg = Inl ValueError"
    and "register_trial h now ats variant notes metric reg = (reg, Inl ValueError)"
    and "registry_deflated_sharpe fn reg sharpe obs = Inl ValueError"
  using assms by (simp_all add: trial_count_def registry_rows_def trials_def register_trial_def registry_deflated_sharpe_def)

lemma registry_sharpe_falls:
  assumes "quantile_ok z" and "mono phi" and "register_trial h now ats variant notes metric reg = (reg', Inr t)"
    and "registry_deflated_sharpe (\<lambda>s n obs. deflated_sharpe z phi s n obs 0 3) reg sharpe obs = Inr x"
    and "registry_deflated_sharpe (\<lambda>s n obs. deflated_sharpe z phi s n obs 0 3) reg' sharpe obs = Inr y"
  shows "y \<le> x"
proof -
  obtain n where "trial_count reg = Inr n" "trial_count reg' = Inr (n + 1)"
    using register_trial_grows[OF assms(3)] by blast
  then show ?thesis using assms(4,5)
    by (intro deflated_sharpe_more_trials[OF assms(1,2), of n "n + 1" sharpe obs 0 3 x y])
      (simp_all add: registry_deflated_sharpe_def)
qed

section \<open>Daily series carry every trade\<close>

lemma clean_items_metric: "clean_items (map (\<lambda>(k, x). (k, JFloat (Fin x))) m) = Inr m"
  by (induction m) (auto simp: finite_num_def)

lemma row_net_gross: "row_net row = Some x \<longleftrightarrow> (\<exists>g f. row_gross row = Some g \<and> finite_num (jget row ''fees_usd'') = Some f \<and> x = g - f)"
  by (auto simp: row_net_def split: option.splits)

lemma sum_update_day:
  "distinct (map fst days) \<Longrightarrow>
     sum_list (map snd (AList.update day (day_sum days day + x) days)) = sum_list (map snd days) + x"
  by (induction days) (auto simp: day_sum_def split: option.splits dest: map_of_SomeD)

lemma collect_days_bad:
  "collect_days rp rows (days, p, d) = (days', p', d') \<Longrightarrow> p \<le> p' \<and> d \<le> d'"
  by (induction rp rows "(days, p, d)" arbitrary: days p d rule: collect_days.induct)
    (force split: option.splits)+

lemma collect_days_sum:
  "collect_days rp rows (days, 0, 0) = (days', 0, 0) \<Longrightarrow> distinct (map fst days) \<Longrightarrow>
     distinct (map fst days') \<and> (\<forall>row \<in> set rows. row_net row \<noteq> None)
     \<and> sum_list (map snd days') = sum_list (map snd days) + sum_list (map (the \<circ> row_net) rows)"
proof (induction rows arbitrary: days)
  case (Cons row rows)
  obtain x where x: "row_net row = Some x"
    using Cons.prems(1) by (cases "row_net row") (auto dest: collect_days_bad)
  obtain day where day: "day_of rp row = Some day"
    using Cons.prems(1) x by (cases "day_of rp row") (auto dest: collect_days_bad)
  show ?case
    using Cons.IH[of "AList.update day (day_sum days day + x) days"] Cons.prems x day
    by (simp add: sum_update_day distinct_update)
qed simp

lemma daily_pnl_sum:
  assumes "daily_pnl rp rows = (days, None)"
  shows "distinct (map fst days)" and "\<forall>row \<in> set rows. row_net row \<noteq> None"
    and "sum_list (map snd days) = sum_list (map (the \<circ> row_net) rows)"
proof -
  obtain d p b where c: "collect_days rp rows ([], 0, 0) = (d, p, b)" by (cases "collect_days rp rows ([], 0, 0)") auto
  then have "p = 0" "b = 0" "days = d" using assms by (auto simp: daily_pnl_def split: if_splits)
  with collect_days_sum[of rp rows "[]" days] c
  show "distinct (map fst days)" "\<forall>row \<in> set rows. row_net row \<noteq> None"
    "sum_list (map snd days) = sum_list (map (the \<circ> row_net) rows)" by auto
qed

lemma daily_pnl_poisoned:
  assumes "row \<in> set rows" and "row_net row = None"
  shows "\<exists>why. daily_pnl rp rows = ([], Some why)"
proof (cases "daily_pnl rp rows")
  case (Pair days why)
  then show ?thesis using daily_pnl_sum(2)[of rp rows days] assms
    by (cases why) (auto simp: daily_pnl_def Let_def split: if_splits prod.splits)
qed

lemma sum_list_map_of:
  assumes "distinct (map fst d)" and "distinct ks" and "fst ` set d \<subseteq> set ks"
  shows "sum_list (map (day_sum d) ks) = sum_list (map snd (d :: (string \<times> real) list))"
proof -
  have z: "day_sum d k = 0" if "k \<notin> fst ` set d" for k
  proof -
    have "map_of d k = None" using that by (simp add: map_of_eq_None_iff)
    then show ?thesis by (simp add: day_sum_def)
  qed
  have "sum_list (map (day_sum d) ks) = sum (day_sum d) (set ks)"
    by (rule sum_list_distinct_conv_sum_set[OF assms(2)])
  also have "\<dots> = sum (day_sum d) (set (map fst d))"
    using assms(3) z by (intro sum.mono_neutral_right) auto
  also have "\<dots> = sum_list (map (day_sum d) (map fst d))"
    by (rule sum_list_distinct_conv_sum_set[OF assms(1), symmetric])
  also have "map (day_sum d) (map fst d) = map snd d"
    using assms(1) by (auto simp: day_sum_def)
  finally show ?thesis .
qed

lemma aligned_sums:
  assumes "aligned da db = (sessions, a, b)" and "distinct (map fst da)" and "distinct (map fst db)"
  shows "sorted sessions \<and> distinct sessions \<and> length a = length sessions \<and> length b = length sessions"
    and "sum_list a = sum_list (map snd da)" and "sum_list b = sum_list (map snd db)"
proof -
  have eq: "sessions = sort (remdups (map fst da @ map fst db))" "a = map (day_sum da) sessions" "b = map (day_sum db) sessions"
    using assms(1) by (auto simp: aligned_def Let_def)
  have d: "distinct sessions" "sorted sessions" unfolding eq(1) by (simp_all only: distinct_sort distinct_remdups sorted_sort)
  have "set sessions = fst ` set da \<union> fst ` set db" unfolding eq(1) by simp
  then show "sum_list a = sum_list (map snd da)" "sum_list b = sum_list (map snd db)"
    using assms(2,3) d unfolding eq(2,3) by (auto intro!: sum_list_map_of)
  show "sorted sessions \<and> distinct sessions \<and> length a = length sessions \<and> length b = length sessions"
    using d eq by simp
qed

section \<open>Scorecard facts\<close>

lemma card_metric_names: "map fst (card_metrics n t) = METRICS"
  by (simp add: card_metrics_def METRICS_def Let_def)

lemma reasons_cover:
  "map fst (sc_metrics (scorecard rows sleeve m)) = METRICS"
  "fst ` set (sc_reasons (scorecard rows sleeve m)) = {k. (k, None) \<in> set (sc_metrics (scorecard rows sleeve m))}"
  by (force simp: scorecard_def Let_def card_metric_names METRICS_def)+

lemma tally_row_fields:
  "ct_bad_core (tally_row t row) = ct_bad_core t + (if row_gross row = None then 1 else 0)"
  "ct_bad_fees (tally_row t row) = ct_bad_fees t + (if row_gross row \<noteq> None \<and> row_net row = None then 1 else 0)"
  "ct_nets (tally_row t row) = ct_nets t @ (case row_net row of None \<Rightarrow> [] | Some x \<Rightarrow> [x])"
  "ct_grosses (tally_row t row) = ct_grosses t @ (case row_gross row of None \<Rightarrow> [] | Some x \<Rightarrow> [x])"
  by (auto simp: tally_row_def Let_def row_net_def split: option.splits)

lemma tally_nets:
  "ct_nets (foldl tally_row t rows) = ct_nets t @ List.map_filter row_net rows"
  "ct_grosses (foldl tally_row t rows) = ct_grosses t @ List.map_filter row_gross rows"
  by (induction rows arbitrary: t) (auto simp: tally_row_fields map_filter_simps split: option.splits)

lemma tally_count:
  "length (ct_nets (foldl tally_row t rows)) + ct_bad_fees (foldl tally_row t rows) + ct_bad_core (foldl tally_row t rows)
     = length (ct_nets t) + ct_bad_fees t + ct_bad_core t + length rows"
proof (induction rows arbitrary: t)
  case (Cons row rows)
  have "row_gross row = None \<Longrightarrow> row_net row = None" by (simp add: row_net_def)
  then show ?case using Cons.IH[of "tally_row t row"] by (auto simp: tally_row_fields split: option.splits)
qed simp

lemma tally_bad_mono:
  "ct_bad_core t \<le> ct_bad_core (foldl tally_row t rows) \<and> ct_bad_fees t \<le> ct_bad_fees (foldl tally_row t rows)"
proof (induction rows arbitrary: t)
  case (Cons row rows)
  then show ?case using Cons.IH[of "tally_row t row"] by (auto simp: tally_row_fields split: if_splits)
qed simp

lemma tally_fees:
  "fees_ok (foldl tally_row t rows) \<Longrightarrow> sum_list (ct_grosses t) = sum_list (ct_nets t) + sum_list (ct_fees t) \<Longrightarrow>
     sum_list (ct_grosses (foldl tally_row t rows))
       = sum_list (ct_nets (foldl tally_row t rows)) + sum_list (ct_fees (foldl tally_row t rows))"
proof (induction rows arbitrary: t)
  case (Cons row rows)
  have "fees_ok (tally_row t row)"
    using Cons.prems(1) tally_bad_mono[of "tally_row t row" rows] by (simp add: fees_ok_def core_ok_def)
  then have "sum_list (ct_grosses (tally_row t row)) = sum_list (ct_nets (tally_row t row)) + sum_list (ct_fees (tally_row t row))"
    using Cons.prems(2) by (auto simp: tally_row_def Let_def fees_ok_def core_ok_def split: option.splits)
  then show ?case using Cons.IH[of "tally_row t row"] Cons.prems(1) by simp
qed simp

lemma scorecard_net:
  assumes "rows \<noteq> []" and "map_of (sc_metrics (scorecard rows sleeve m)) ''net_pnl_usd'' = Some (Some net)"
  shows "\<forall>row \<in> set rows. row_net row \<noteq> None" and "net = sum_list (map (the \<circ> row_net) rows)"
    and "\<exists>gross fees. map_of (sc_metrics (scorecard rows sleeve m)) ''gross_pnl_usd'' = Some (Some gross)
      \<and> map_of (sc_metrics (scorecard rows sleeve m)) ''fees_usd'' = Some (Some fees) \<and> net = gross - fees"
    and "\<exists>w. map_of (sc_metrics (scorecard rows sleeve m)) ''win_rate'' = Some (Some w) \<and> 0 \<le> w \<and> w \<le> 1"
proof -
  let ?t = "foldl tally_row empty_tally rows"
  have sc: "sc_metrics (scorecard rows sleeve m) = card_metrics (length rows) ?t"
    using assms(1) by (simp add: scorecard_def Let_def)
  have ok: "fees_ok ?t" and net: "net = sum_list (ct_nets ?t)"
    using assms(2) unfolding sc by (simp_all add: card_metrics_def Let_def some_if_def split: if_splits)
  have zero: "ct_bad_core ?t = 0" "ct_bad_fees ?t = 0" using ok by (simp_all add: fees_ok_def core_ok_def)
  have nets: "ct_nets ?t = List.map_filter row_net rows" by (simp add: tally_nets empty_tally_def)
  have "length (ct_nets ?t) = length rows"
    using tally_count[of empty_tally rows] unfolding zero by (simp add: empty_tally_def)
  then have len: "length (List.map_filter row_net rows) = length rows" unfolding nets .
  have all: "(\<forall>row \<in> set rs. row_net row \<noteq> None) \<and> List.map_filter row_net rs = map (the \<circ> row_net) rs"
    if "length (List.map_filter row_net rs) = length rs" for rs
    using that
  proof (induction rs)
    case (Cons r rs)
    have "length (List.map_filter row_net rs) \<le> length rs" by (simp add: map_filter_def)
    then show ?case using Cons by (cases "row_net r") (simp_all add: map_filter_simps)
  qed (simp add: map_filter_simps)
  show "\<forall>row \<in> set rows. row_net row \<noteq> None" "net = sum_list (map (the \<circ> row_net) rows)"
    using all[OF len] net nets by simp_all
  have "sum_list (ct_grosses ?t) = net + sum_list (ct_fees ?t)"
    using tally_fees[OF ok] net by (simp add: empty_tally_def)
  then show "\<exists>gross fees. map_of (sc_metrics (scorecard rows sleeve m)) ''gross_pnl_usd'' = Some (Some gross)
      \<and> map_of (sc_metrics (scorecard rows sleeve m)) ''fees_usd'' = Some (Some fees) \<and> net = gross - fees"
    using ok unfolding sc by (simp add: card_metrics_def Let_def some_if_def fees_ok_def)
  have "length (wins_of (ct_nets ?t)) \<le> length rows"
    using length_filter_le[of _ "ct_nets ?t"] len nets by (simp add: wins_of_def)
  then show "\<exists>w. map_of (sc_metrics (scorecard rows sleeve m)) ''win_rate'' = Some (Some w) \<and> 0 \<le> w \<and> w \<le> 1"
    using ok assms(1) unfolding sc by (simp add: card_metrics_def Let_def some_if_def divide_le_eq)
qed

lemma sample_adequate_iff: "sc_sample_adequate (scorecard rows sleeve m) \<longleftrightarrow> rows \<noteq> [] \<and> m \<le> int (length rows)"
  by (simp add: scorecard_def Let_def)

section \<open>The claim\<close>

lemma claims_differ: "FEASIBILITY_CLAIM \<noteq> ADEQUATE_CLAIM" "NO_DIFFERENCE_CLAIM \<noteq> ADEQUATE_CLAIM"
  by (simp_all add: FEASIBILITY_CLAIM_def ADEQUATE_CLAIM_def NO_DIFFERENCE_CLAIM_def)

lemma compare_sleeves_Inr:
  assumes "compare_sleeves rp paired ta tb sa sb m = Inr c"
  shows "paired_difference paired (daily_pnl rp ta) (daily_pnl rp tb) = Inr (cm_difference c)"
    and "cm_a c = scorecard ta sa m" and "cm_b c = scorecard tb sb m"
    and "cm_claim c = comparison_claim (cm_difference c)
      (sc_sample_adequate (scorecard ta sa m) \<and> sc_sample_adequate (scorecard tb sb m))"
  using assms by (auto simp: compare_sleeves_def Let_def rmap_Inr_iff)

lemma paired_difference_excludes:
  assumes "paired_difference paired x y = Inr d" and "df_excludes_zero d = Some b"
  shows "\<exists>da db sessions sa sb p. x = (da, None) \<and> y = (db, None) \<and> aligned da db = (sessions, sa, sb)
      \<and> df_sessions d = length sessions \<and> paired sa sb = Inr p \<and> pc_excludes_zero p = b"
proof -
  obtain da wa db wb sessions sa sb where eq: "x = (da, wa)" "y = (db, wb)" "aligned da db = (sessions, sa, sb)"
    by (metis surj_pair)
  show ?thesis using assms unfolding eq
    by (cases wa; cases wb)
      (auto simp: paired_difference_def no_difference_def eq(3) rmap_Inr_iff Let_def split: if_splits)
qed

lemma adequate_claim:
  assumes "compare_sleeves rp paired ta tb sa sb m = Inr c" and "cm_claim c = ADEQUATE_CLAIM"
  shows "m \<le> int (length ta) \<and> m \<le> int (length tb) \<and> ta \<noteq> [] \<and> tb \<noteq> []"
    and "SESSIONS_BAR \<le> df_sessions (cm_difference c)"
    and "\<exists>da db sessions a b p. daily_pnl rp ta = (da, None) \<and> daily_pnl rp tb = (db, None)
      \<and> aligned da db = (sessions, a, b) \<and> df_sessions (cm_difference c) = length sessions
      \<and> paired a b = Inr p \<and> pc_excludes_zero p"
proof -
  have cl: "\<not> df_sessions (cm_difference c) < SESSIONS_BAR" "df_excludes_zero (cm_difference c) = Some True"
    "sc_sample_adequate (scorecard ta sa m)" "sc_sample_adequate (scorecard tb sb m)"
    using assms(2) claims_differ unfolding compare_sleeves_Inr(4)[OF assms(1)] comparison_claim_def
    by (auto split: if_splits)
  then show "m \<le> int (length ta) \<and> m \<le> int (length tb) \<and> ta \<noteq> [] \<and> tb \<noteq> []"
    "SESSIONS_BAR \<le> df_sessions (cm_difference c)" by (simp_all add: sample_adequate_iff)
  show "\<exists>da db sessions a b p. daily_pnl rp ta = (da, None) \<and> daily_pnl rp tb = (db, None)
      \<and> aligned da db = (sessions, a, b) \<and> df_sessions (cm_difference c) = length sessions
      \<and> paired a b = Inr p \<and> pc_excludes_zero p"
    using paired_difference_excludes[OF compare_sleeves_Inr(1)[OF assms(1)] cl(2)] by auto
qed

section \<open>Correlation\<close>

lemma quadratic_sum:
  "sum_list (map2 (\<lambda>a b. (a * x + b)\<^sup>2) u v)
     = x\<^sup>2 * sum_list (map2 (\<lambda>a b. a\<^sup>2) u v) + 2 * x * sum_list (map2 (\<lambda>a b. a * b) u v) + sum_list (map2 (\<lambda>a b. b\<^sup>2) u (v :: real list))"
  by (induction u v rule: list_induct2') (simp_all add: power2_eq_square algebra_simps)

lemma map2_projections: "length u = length v \<Longrightarrow> map2 (\<lambda>a b. f a) u v = map f u \<and> map2 (\<lambda>a b. g b) u v = map g v"
  by (induction u v rule: list_induct2) simp_all

lemma cauchy_schwarz:
  assumes "length u = length v" and "0 < sum_list (map (\<lambda>a. a\<^sup>2) u)"
  shows "(sum_list (map2 (*) u v))\<^sup>2 \<le> sum_list (map (\<lambda>a. a\<^sup>2) u) * sum_list (map (\<lambda>b. b\<^sup>2) (v :: real list))"
proof -
  let ?A = "sum_list (map (\<lambda>a. a\<^sup>2) u)" and ?B = "sum_list (map (\<lambda>b. b\<^sup>2) v)" and ?S = "sum_list (map2 (*) u v)"
  let ?x = "- ?S / ?A"
  have "0 \<le> sum_list (map2 (\<lambda>a b. (a * ?x + b)\<^sup>2) u v)" by (rule sum_list_nonneg) auto
  then have "0 \<le> ?x\<^sup>2 * ?A + 2 * ?x * ?S + ?B"
    unfolding quadratic_sum using map2_projections[OF assms(1), of "\<lambda>a. a\<^sup>2" "\<lambda>b. b\<^sup>2"] by simp
  also have "?x\<^sup>2 * ?A + 2 * ?x * ?S + ?B = ?B - ?S\<^sup>2 / ?A"
    using assms(2) by (simp add: power2_eq_square field_simps)
  finally show ?thesis using assms(2) by (simp add: field_simps)
qed

lemma pearson_bounded:
  assumes "pearson x y = Some c"
  shows "\<bar>c\<bar> \<le> 1"
proof -
  let ?n = "of_nat (length x) :: real"
  let ?u = "map (\<lambda>a. a - sum_list x / ?n) x" and ?v = "map (\<lambda>b. b - sum_list y / ?n) y"
  let ?S = "sum_list (map2 (*) ?u ?v)" and ?A = "sum_list (map (\<lambda>a. a\<^sup>2) ?u)" and ?B = "sum_list (map (\<lambda>b. b\<^sup>2) ?v)"
  have len: "length x = length y" and A: "0 < ?A" and B: "0 < ?B" and c: "c = ?S / sqrt (?A * ?B)"
    using assms by (auto simp: pearson_def Let_def zip_map1 zip_map2 o_def split_def split: if_splits)
  have "?S\<^sup>2 \<le> ?A * ?B" using cauchy_schwarz[of ?u ?v] A len by simp
  then have "\<bar>?S\<bar> \<le> sqrt (?A * ?B)" by (simp add: real_le_rsqrt)
  then show ?thesis unfolding c using A B by (simp add: abs_div)
qed

section \<open>Allocation\<close>

lemma allocation_frozen:
  assumes "d \<in> set (propose_allocation current evidence cfg True floor_pct ceiling_pct band_pct)"
  shows "ad_frozen d \<and> ad_proposed_pct d = ad_current_pct d"
  using assms by (auto simp: propose_allocation_def propose_sleeve_def Let_def)

lemma propose_sleeve_moves:
  assumes "d = propose_sleeve cfg frozen floor_pct ceiling_pct band_pct sleeve cur ev"
    and "ad_reason d = ReviewTilt"
  shows "\<not> frozen \<and> json_truthy (jget ev ''clears_noise_bar'') \<and> \<not> json_truthy (jget ev ''in_drawdown'')
    \<and> \<not> json_truthy (jget ev ''hot_streak'')
    \<and> (\<exists>tilt. finite_num (jget ev ''tilt_pct'') = Some tilt \<and> tilt \<noteq> 0
         \<and> (ad_proposed_pct d, ad_capped_by d) = tilt_target cur tilt band_pct floor_pct (hard_ceiling sleeve cfg ceiling_pct))"
  using assms by (auto simp: propose_sleeve_def Let_def split: if_splits option.splits prod.splits)

lemma propose_sleeve_stays:
  assumes "d = propose_sleeve cfg frozen floor_pct ceiling_pct band_pct sleeve cur ev"
    and "ad_reason d \<noteq> ReviewTilt"
  shows "ad_proposed_pct d = cur"
  using assms by (auto simp: propose_sleeve_def Let_def split: if_splits option.splits prod.splits)

lemma tilt_target_bounds:
  assumes "tilt_target (Fin cur) tilt (Fin band) (Fin lo) (Fin hi) = (target, why)"
    and "lo \<le> cur" and "cur \<le> hi" and "0 \<le> band"
  shows "\<exists>x. target = Fin x \<and> lo \<le> x \<and> x \<le> hi \<and> \<bar>x - cur\<bar> \<le> band"
  using assms by (auto simp: tilt_target_def copysign_def split: if_splits)

lemma hard_ceiling_tight:
  "\<exists>h. hard_ceiling sleeve cfg (Fin c) = Fin h \<and> h \<le> c"
proof -
  have "\<exists>h. pymin (Fin c) v = Fin h \<and> h \<le> c" if "isfinite v" for v
    using that by (cases v) (auto simp: pymin_def)
  then show ?thesis by (auto simp: hard_ceiling_def Let_def split: option.splits)
qed

section \<open>Kill and shrink\<close>

lemma kill_shrink_acts:
  assumes "kill_shrink_decision s n e cur adequate boot pred cv rs shrink = Inr d" and "review_acts d"
    and "\<not> (\<exists>c r. cv = Some c \<and> rs = Some r \<and> r < c)"
  shows "MIN_TRADES_FOR_VERDICT \<le> n \<and> adequate \<and> e \<noteq> None"
  using assms
  by (auto simp: kill_shrink_decision_def rmap_Inr_iff review_acts_def Let_def split: option.splits if_splits)

lemma kill_by_expectation:
  assumes "kill_shrink_decision s n e cur adequate boot pred cv rs shrink = Inr d" and "rv_reason_code d = NegativeExpectation"
  shows "rv_verdict d = VKill \<and> MIN_TRADES_FOR_VERDICT \<le> n \<and> adequate \<and> (\<exists>x. e = Some x \<and> x \<le> 0)
    \<and> (pred = None \<or> prediction_excluded boot pred = Inr True)"
  using assms
  by (auto simp: kill_shrink_decision_def rmap_Inr_iff Let_def split: option.splits if_splits)

lemma kill_without_sample:
  assumes "r < c"
  shows "\<exists>d. kill_shrink_decision s 0 None cur False None None (Some c) (Some r) shrink = Inr d
    \<and> rv_verdict d = VKill \<and> rv_reason_code d = CvarGrows"
  using assms by (simp add: kill_shrink_decision_def prediction_excluded_def Let_def)

lemma keep_claims_interval:
  assumes "0 < x"
  shows "\<exists>d. kill_shrink_decision s 100 (Some x) cur True None None None None shrink = Inr d
    \<and> rv_verdict d = VKeep \<and> rv_detail d = ClearOfZero x 100"
proof -
  have "\<not> x \<le> 0" using assms by (cases x) (auto simp: zero_pyfloat_def)
  then show ?thesis using assms
    by (simp add: kill_shrink_decision_def prediction_excluded_def clears_zero_def MIN_TRADES_FOR_VERDICT_def Let_def)
qed

lemma claim_limit_unconditional:
  assumes "cm_claim c = FEASIBILITY_CLAIM" and "\<forall>card \<in> set cards. sc_sample_adequate (snd card)"
  shows "claim_limit cards (Some c) = ADEQUATE_CLAIM"
  using assms(2) by (auto simp: claim_limit_def)

lemma floor_beats_ceiling:
  "tilt_target (Fin (5 / 100)) (1 / 100) (Fin (10 / 100)) (Fin (15 / 100)) (Fin (10 / 100)) = (Fin (15 / 100), Some CappedByFloor)"
  by (simp add: tilt_target_def)

lemma clamp_leaves_band:
  "tilt_target (Fin (50 / 100)) (1 / 100) (Fin (10 / 100)) (Fin (15 / 100)) (Fin (30 / 100)) = (Fin (30 / 100), Some CappedByCeiling)"
  by (simp add: tilt_target_def)

end
