(* ===== verification/Harness.thy ===== *)
theory Harness
  imports Lineage Gate Sizing Calendar "HOL-Library.Product_Lexorder"
begin

text \<open>
  \<open>signald/validation/harness.py\<close>: the replay of bars through the live gate and sizer, with costs, and
  its summary. The caller's factories and the impact estimate (whose module, \<open>signald.signals\<close>, is
  not in the repository) are arguments; prices are real numbers. A trade row keeps its two stamps as
  datetimes, where the source writes them as text and reads them back.
\<close>

section \<open>Bars, costs, rows\<close>

record hbar =
  hb_ts :: datetime
  hb_open :: "real option"
  hb_high :: real
  hb_low :: real
  hb_close :: real
  hb_volume :: "pyfloat option"
  hb_signal :: bool
  hb_setup :: string
  hb_stop :: "real option"
  hb_target :: "real option"
  hb_side :: string
  hb_adv_shares :: "real option"
  hb_adv_usd :: "real option"
  hb_sigma_daily :: "real option"
  hb_spread_bps :: "real option"
  hb_atr :: "real option"
  hb_data_quality :: string
  hb_price_caliber :: "string option"
  hb_rvol_first5 :: "real option"
  hb_adx_14 :: "real option"
  hb_gap_pct :: "real option"
  hb_data_vintage :: "string option"

record HarnessCosts =
  hc_spread_bps :: real
  hc_impact_y :: real
  hc_fees_bps :: real
  hc_borrow_bps_per_day :: real

record HarnessContext =
  hx_symbol :: string
  hx_sleeve :: string
  hx_setup :: string
  hx_side :: string
  hx_ts :: datetime
  hx_bar :: hbar
  hx_bars :: "hbar list"
  hx_market :: MarketState
  hx_request :: RiskRequest
  hx_book :: BookState

record trade_row =
  tw_sleeve :: string
  tw_symbol :: string
  tw_setup :: string
  tw_entry_ts :: datetime
  tw_exit_ts :: datetime
  tw_qty :: real
  tw_entry_px :: real
  tw_exit_px :: real
  tw_slippage_bps :: real
  tw_fees_usd :: real
  tw_r_multiple :: real
  tw_rvol_first5 :: "real option"
  tw_adx_14 :: "real option"
  tw_gap_pct :: "real option"
  tw_spread_bps :: "real option"
  tw_exit_reason :: string
  tw_gate_verdict :: verdict
  tw_binding_gate :: "gate_name option"
  tw_data_vintage :: "string option"

datatype skip_reason =
    InsufficientBars | ImpactUnavailable | NoNextBar | OutsideWindow | NoStop | NoEntryPrice
  | GateRefused verdict "gate_name option" | SizeRefused string

record skip_row =
  sw_symbol :: string
  sw_reason :: skip_reason
  sw_ts :: "datetime option"

record open_spec =
  oe_symbol :: string
  oe_setup :: string
  oe_side :: string
  oe_qty :: int
  oe_entry_px :: real
  oe_entry_ts :: datetime
  oe_stop :: real
  oe_target :: "real option"
  oe_stop_distance :: real
  oe_last :: real
  oe_adv_usd :: "real option"
  oe_sigma_daily :: "real option"
  oe_rvol_first5 :: "real option"
  oe_adx_14 :: "real option"
  oe_gap_pct :: "real option"
  oe_spread_bps :: real
  oe_gate_verdict :: verdict
  oe_binding_gate :: "gate_name option"
  oe_data_vintage :: "string option"

section \<open>One trade\<close>

type_synonym impact = "(real \<Rightarrow> real \<Rightarrow> real \<Rightarrow> real \<Rightarrow> pyfloat option) option"

definition impact_bps :: "impact \<Rightarrow> real \<Rightarrow> real option \<Rightarrow> real option \<Rightarrow> real \<Rightarrow> real option" where
  \<comment> \<open>\<open>None\<close> where the module is absent, an input is missing, or it raises or returns no number\<close>
  "impact_bps f notional adv sigma y =
     (case (f, adv, sigma) of
        (Some g, Some a, Some s) \<Rightarrow> (case g notional a s y of Some (Fin v) \<Rightarrow> Some v | _ \<Rightarrow> None)
      | _ \<Rightarrow> None)"

definition exit_for :: "open_spec \<Rightarrow> hbar \<Rightarrow> bool \<Rightarrow> int option \<Rightarrow> (real \<times> string) option res" where
  \<comment> \<open>the stop wins a tie; \<open>float(None)\<close> raises\<close>
  "exit_for spec bar is_last flat_time =
     (case hb_open bar of None \<Rightarrow> Inl TypeError
      | Some open_px \<Rightarrow>
        (let stop = oe_stop spec;
             timed = (if flat_time \<noteq> None \<and> the flat_time \<le> time_of (hb_ts bar) then Some (hb_close bar, ''flat_by'')
                      else if is_last then Some (hb_close bar, ''eod'') else None) in
         Inr (if oe_side spec = ''buy'' then
                (if hb_low bar \<le> stop then Some (if stop < open_px then stop else open_px, ''stop'')
                 else (case oe_target spec of
                     Some target \<Rightarrow> if target \<le> hb_high bar
                       then Some (if target \<le> open_px then open_px else target, ''target'') else timed
                   | None \<Rightarrow> timed))
              else
                (if stop \<le> hb_high bar then Some (if open_px < stop then stop else open_px, ''stop'')
                 else (case oe_target spec of
                     Some target \<Rightarrow> if hb_low bar \<le> target
                       then Some (if open_px \<le> target then open_px else target, ''target'') else timed
                   | None \<Rightarrow> timed)))))"

definition row_pnl_usd :: "trade_row \<Rightarrow> real" where
  "row_pnl_usd row =
     tw_qty row * (tw_exit_px row - tw_entry_px row) - tw_fees_usd row
     - \<bar>tw_qty row\<bar> * tw_entry_px row * tw_slippage_bps row / 10000 * 2"

definition close_trade ::
  "impact \<Rightarrow> HarnessCosts \<Rightarrow> string \<Rightarrow> open_spec \<Rightarrow> real \<Rightarrow> string \<Rightarrow> datetime \<Rightarrow> trade_row \<times> bool" where
  "close_trade f costs sleeve spec exit_px exit_reason exit_ts =
     (let qty = of_int (oe_qty spec); entry_px = oe_entry_px spec;
          entry_notional = \<bar>qty\<bar> * entry_px; exit_notional = \<bar>qty\<bar> * exit_px;
          leg = (\<lambda>notional. impact_bps f notional (oe_adv_usd spec) (oe_sigma_daily spec) (hc_impact_y costs));
          bps = (\<lambda>notional. hc_spread_bps costs + (case leg notional of None \<Rightarrow> 0 | Some v \<Rightarrow> v));
          slippage_usd = entry_notional * bps entry_notional / 10000 + exit_notional * bps exit_notional / 10000;
          fees_usd = (entry_notional + exit_notional) * hc_fees_bps costs / 10000;
          holding_days = max 0 (of_int (utc_instant exit_ts - utc_instant (oe_entry_ts spec)) / 1000000 / 86400);
          borrow_usd = (if oe_side spec = ''sell''
                        then entry_notional * hc_borrow_bps_per_day costs / 10000 * holding_days else 0);
          gross = (if oe_side spec = ''buy'' then qty * (exit_px - entry_px) else qty * (entry_px - exit_px));
          net = gross - slippage_usd - fees_usd - borrow_usd;
          risk_usd = qty * oe_stop_distance spec
      in (\<lparr>tw_sleeve = sleeve, tw_symbol = oe_symbol spec, tw_setup = oe_setup spec,
           tw_entry_ts = oe_entry_ts spec, tw_exit_ts = exit_ts, tw_qty = qty, tw_entry_px = entry_px,
           tw_exit_px = exit_px, tw_slippage_bps = (bps entry_notional + bps exit_notional) / 2,
           tw_fees_usd = fees_usd, tw_r_multiple = (if 0 < risk_usd then net / risk_usd else 0),
           tw_rvol_first5 = oe_rvol_first5 spec, tw_adx_14 = oe_adx_14 spec, tw_gap_pct = oe_gap_pct spec,
           tw_spread_bps = Some (oe_spread_bps spec), tw_exit_reason = exit_reason,
           tw_gate_verdict = oe_gate_verdict spec, tw_binding_gate = oe_binding_gate spec,
           tw_data_vintage = oe_data_vintage spec\<rparr>,
          leg entry_notional = None \<or> leg exit_notional = None))"

section \<open>The replay\<close>

record replay_state =
  rp_trades :: "trade_row list"
  rp_skipped :: "skip_row list"
  rp_open :: "(string \<times> open_spec) list"
  rp_curve :: "real list"
  rp_realized :: real
  rp_impact_noted :: bool

record harness =
  ha_config :: Config
  ha_gate_factory :: "HarnessContext \<Rightarrow> GateDecision"
  ha_caps_factory :: "HarnessContext \<Rightarrow> SizingCaps"
  ha_costs :: HarnessCosts
  ha_sleeve :: string
  ha_impact :: impact

definition requested_risk_pct :: "Config \<Rightarrow> string \<Rightarrow> pyfloat" where
  "requested_risk_pct cfg sleeve =
     (if sleeve = INTRADAY then cfg_risk_per_trade_intraday_pct cfg else cfg_risk_per_trade_swing_pct cfg)"

definition harness_market :: "string \<Rightarrow> hbar \<Rightarrow> Config \<Rightarrow> real \<Rightarrow> MarketState" where
  "harness_market symbol bar cfg spread =
     \<lparr>m_symbol = symbol, m_last = Some (Fin (hb_close bar)), m_spread_bps = Some (Fin spread),
      m_spread_median_bps = Some (cfg_cost_liquid_bps cfg), m_quote_age_s = None, m_bar_age_s = None,
      m_session = None, m_halted = False, m_reopen_cooldown_s = None, m_tradable = True, m_shortable = False,
      m_ssr = False, m_adv_shares = map_option Fin (hb_adv_shares bar), m_atr = map_option Fin (hb_atr bar),
      m_data_quality = hb_data_quality bar, m_price_caliber = hb_price_caliber bar, m_impulse_pct = None,
      m_news_shock = False, m_last_bar_high = Some (Fin (hb_high bar)), m_last_bar_low = Some (Fin (hb_low bar))\<rparr>"

definition harness_request :: "harness \<Rightarrow> string \<Rightarrow> hbar \<Rightarrow> real \<Rightarrow> real \<Rightarrow> RiskRequest" where
  "harness_request ha symbol bar stop equity =
     \<lparr>r_sleeve = ha_sleeve ha, r_symbol = symbol, r_setup = hb_setup bar, r_side = hb_side bar,
      r_stop_distance = Fin \<bar>hb_close bar - stop\<bar>, r_price = Fin (hb_close bar), r_equity = Fin equity,
      r_requested_risk_pct = requested_risk_pct (ha_config ha) (ha_sleeve ha), r_stop_price = Some (Fin stop),
      r_measured_move_bps = None, r_round_trip_cost_bps = None, r_trailing_volume = hb_volume bar,
      r_intent_id = None, r_cluster = None, r_sector = None, r_opens_short = False,
      r_planned_notional_usd = None\<rparr>"

definition harness_positions :: "string \<Rightarrow> (string \<times> open_spec) list \<Rightarrow> Position list" where
  "harness_positions sleeve specs =
     map (\<lambda>(name, s).
       \<lparr>p_symbol = name, p_qty = Fin (of_int (oe_qty s)), p_avg_entry = Fin (oe_entry_px s), p_sleeve = sleeve,
        p_last = Some (Fin (oe_last s)), p_stop = Some (Fin (oe_stop s)), p_setup = Some (oe_setup s),
        p_sector = None, p_cluster = None, p_opened_at = None\<rparr>) (sort_key fst specs)"

definition harness_book :: "real \<Rightarrow> Position list \<Rightarrow> BookState" where
  "harness_book equity positions =
     \<lparr>b_equity = Fin equity, b_cash = pymax 0 (Fin equity - fsum (map p_notional positions)),
      b_positions = positions, b_heat_pct = 0, b_es_pct = 0, b_day_pnl_pct = 0, b_five_day_pct = 0,
      b_drawdown_pct = 0, b_peak_equity = None, b_net_beta = None, b_trades_today = [],
      b_sleeve_trades_today = [], b_buying_power = None\<rparr>"

definition harness_context :: "harness \<Rightarrow> real \<Rightarrow> replay_state \<Rightarrow> datetime \<Rightarrow> string \<Rightarrow> hbar list \<Rightarrow> nat \<Rightarrow> real \<Rightarrow> HarnessContext" where
  \<comment> \<open>what the factories are handed at the bar of an index whose stop is given\<close>
  "harness_context ha start st ts symbol bars idx stop =
     (let bar = bars ! idx; equity = start + rp_realized st;
          spread = (case hb_spread_bps bar of Some s \<Rightarrow> s | None \<Rightarrow> hc_spread_bps (ha_costs ha)) in
      \<lparr>hx_symbol = symbol, hx_sleeve = ha_sleeve ha, hx_setup = hb_setup bar, hx_side = hb_side bar,
       hx_ts = ts, hx_bar = bar, hx_bars = take (idx + 1) bars,
       hx_market = harness_market symbol bar (ha_config ha) spread,
       hx_request = harness_request ha symbol bar stop equity,
       hx_book = harness_book equity (harness_positions (ha_sleeve ha) (rp_open st))\<rparr>)"

definition add_skip :: "string \<Rightarrow> skip_reason \<Rightarrow> datetime option \<Rightarrow> replay_state \<Rightarrow> replay_state" where
  "add_skip symbol why ts st = st\<lparr>rp_skipped := rp_skipped st @ [\<lparr>sw_symbol = symbol, sw_reason = why, sw_ts = ts\<rparr>]\<rparr>"

definition settle_exit ::
  "harness \<Rightarrow> real \<Rightarrow> datetime \<Rightarrow> string \<Rightarrow> open_spec \<Rightarrow> replay_state \<Rightarrow> (real \<times> string) option \<Rightarrow> replay_state" where
  "settle_exit ha start ts symbol spec st outcome =
     (case outcome of None \<Rightarrow> st
      | Some (exit_px, why) \<Rightarrow>
        (let (row, missing) = close_trade (ha_impact ha) (ha_costs ha) (ha_sleeve ha) spec exit_px why ts;
             realized = rp_realized st + row_pnl_usd row;
             st1 = st\<lparr>rp_trades := rp_trades st @ [row], rp_realized := realized,
                      rp_curve := rp_curve st @ [start + realized], rp_open := AList.delete symbol (rp_open st)\<rparr>
         in if missing \<and> \<not> rp_impact_noted st
            then add_skip symbol ImpactUnavailable (Some ts) (st1\<lparr>rp_impact_noted := True\<rparr>) else st1))"

definition replay_exit ::
  "harness \<Rightarrow> real \<Rightarrow> int option \<Rightarrow> datetime \<Rightarrow> string \<Rightarrow> hbar \<Rightarrow> bool \<Rightarrow> replay_state \<Rightarrow> replay_state res" where
  "replay_exit ha start flat_time ts symbol bar is_last st =
     (case map_of (rp_open st) symbol of None \<Rightarrow> Inr st
      | Some spec0 \<Rightarrow>
        (let spec = spec0\<lparr>oe_last := hb_close bar\<rparr> in
         rmap (settle_exit ha start ts symbol spec (st\<lparr>rp_open := AList.update symbol spec (rp_open st)\<rparr>))
           (exit_for spec bar is_last flat_time)))"

definition open_entry ::
  "harness \<Rightarrow> string \<Rightarrow> hbar \<Rightarrow> hbar \<Rightarrow> real \<Rightarrow> real \<Rightarrow> GateDecision \<Rightarrow> int \<Rightarrow> open_spec" where
  "open_entry ha symbol bar next_bar stop entry_px d qty =
     \<lparr>oe_symbol = symbol, oe_setup = hb_setup bar, oe_side = hb_side bar, oe_qty = qty, oe_entry_px = entry_px,
      oe_entry_ts = hb_ts next_bar, oe_stop = stop, oe_target = hb_target bar,
      oe_stop_distance = \<bar>hb_close bar - stop\<bar>, oe_last = hb_close bar,
      oe_adv_usd = (case hb_adv_usd bar of Some a \<Rightarrow> Some a
        | None \<Rightarrow> map_option (\<lambda>shares. shares * hb_close bar) (hb_adv_shares bar)),
      oe_sigma_daily = hb_sigma_daily bar, oe_rvol_first5 = hb_rvol_first5 bar, oe_adx_14 = hb_adx_14 bar,
      oe_gap_pct = hb_gap_pct bar,
      oe_spread_bps = (case hb_spread_bps bar of Some s \<Rightarrow> s | None \<Rightarrow> hc_spread_bps (ha_costs ha)),
      oe_gate_verdict = gd_verdict d, oe_binding_gate = gd_binding_gate d, oe_data_vintage = hb_data_vintage bar\<rparr>"

definition gated_entry ::
  "harness \<Rightarrow> HarnessContext \<Rightarrow> (GateDecision \<Rightarrow> int \<Rightarrow> open_spec) \<Rightarrow> skip_reason + open_spec" where
  \<comment> \<open>the gate, then the sizer at the risk the gate allowed\<close>
  "gated_entry ha ctx spec =
     (let d = ha_gate_factory ha ctx in
      if \<not> allowed d then Inl (GateRefused (gd_verdict d) (gd_binding_gate d))
      else (let request = (case gd_adjusted_risk_pct d of None \<Rightarrow> hx_request ctx
                           | Some r \<Rightarrow> (hx_request ctx)\<lparr>r_requested_risk_pct := r\<rparr>);
                sized = size_request request (ha_caps_factory ha ctx) 1 in
        if \<not> rd_ok sized \<or> rd_qty sized < 1 then Inl (SizeRefused (rd_reason sized))
        else Inr (spec d (rd_qty sized))))"

definition entry_decision ::
  "harness \<Rightarrow> real \<Rightarrow> (int \<times> int) option \<Rightarrow> datetime \<Rightarrow> string \<Rightarrow> hbar list \<Rightarrow> nat \<Rightarrow> replay_state \<Rightarrow> skip_reason + open_spec" where
  "entry_decision ha start window ts symbol bars idx st =
     (let bar = bars ! idx in
      if length bars \<le> idx + 1 then Inl NoNextBar
      else if (case window of None \<Rightarrow> False | Some (a, b) \<Rightarrow> \<not> (a \<le> time_of ts \<and> time_of ts \<le> b)) then Inl OutsideWindow
      else (case hb_stop bar of None \<Rightarrow> Inl NoStop
        | Some stop \<Rightarrow> (case hb_open (bars ! (idx + 1)) of None \<Rightarrow> Inl NoEntryPrice
        | Some entry_px \<Rightarrow> gated_entry ha (harness_context ha start st ts symbol bars idx stop)
            (open_entry ha symbol bar (bars ! (idx + 1)) stop entry_px))))"

definition replay_entry ::
  "harness \<Rightarrow> real \<Rightarrow> (int \<times> int) option \<Rightarrow> datetime \<Rightarrow> string \<Rightarrow> hbar list \<Rightarrow> nat \<Rightarrow> replay_state \<Rightarrow> replay_state" where
  "replay_entry ha start window ts symbol bars idx st =
     (if map_of (rp_open st) symbol \<noteq> None \<or> \<not> hb_signal (bars ! idx) then st
      else (case entry_decision ha start window ts symbol bars idx st of
          Inl why \<Rightarrow> add_skip symbol why (Some ts) st
        | Inr spec \<Rightarrow> st\<lparr>rp_open := AList.update symbol spec (rp_open st)\<rparr>))"

definition bar_index :: "hbar list \<Rightarrow> datetime \<Rightarrow> nat option" where
  \<comment> \<open>\<open>ts_index\<close>: the last bar of a stamp wins\<close>
  "bar_index bars ts =
     (case filter (\<lambda>i. utc_instant (hb_ts (bars ! i)) = utc_instant ts) [0..<length bars] of
        [] \<Rightarrow> None | i # ix \<Rightarrow> Some (last (i # ix)))"

definition replay_visit ::
  "harness \<Rightarrow> real \<Rightarrow> (int \<times> int) option \<Rightarrow> int option \<Rightarrow> datetime \<Rightarrow> string \<times> hbar list \<Rightarrow> replay_state \<Rightarrow> replay_state res" where
  "replay_visit ha start window flat_time ts sb st =
     (case bar_index (snd sb) ts of None \<Rightarrow> Inr st
      | Some idx \<Rightarrow>
          rmap (replay_entry ha start window ts (fst sb) (snd sb) idx)
            (replay_exit ha start flat_time ts (fst sb) (snd sb ! idx) (idx = length (snd sb) - 1) st))"

fun fold_res :: "('a \<Rightarrow> 's \<Rightarrow> 's res) \<Rightarrow> 'a list \<Rightarrow> 's \<Rightarrow> 's res" where
  "fold_res f [] s = Inr s"
| "fold_res f (x # xs) s = rbind (f x s) (fold_res f xs)"

fun first_stamps :: "datetime list \<Rightarrow> int list \<Rightarrow> datetime list" where
  \<comment> \<open>the first of the stamps of each instant\<close>
  "first_stamps [] seen = []"
| "first_stamps (t # ts) seen =
     (if utc_instant t \<in> set seen then first_stamps ts seen else t # first_stamps ts (utc_instant t # seen))"

definition timeline :: "(string \<times> hbar list) list \<Rightarrow> datetime list" where
  "timeline series = sort_key utc_instant (first_stamps (concat (map (map hb_ts \<circ> snd) series)) [])"

definition insufficient :: "(string \<times> hbar list) list \<Rightarrow> skip_row list" where
  "insufficient series =
     map (\<lambda>(symbol, bars). \<lparr>sw_symbol = symbol, sw_reason = InsufficientBars,
            sw_ts = (case bars of [] \<Rightarrow> None | b # _ \<Rightarrow> Some (hb_ts b))\<rparr>)
       (filter (\<lambda>(symbol, bars). length bars < 2) series)"

definition sorted_bars :: "(string \<times> hbar list) list \<Rightarrow> (string \<times> hbar list) list" where
  "sorted_bars bars_by_symbol =
     map (\<lambda>(symbol, bars). (symbol, sort_key (utc_instant \<circ> hb_ts) bars)) (sort_key fst bars_by_symbol)"

definition start_state :: "real \<Rightarrow> (string \<times> hbar list) list \<Rightarrow> replay_state" where
  "start_state start series =
     \<lparr>rp_trades = [], rp_skipped = insufficient series, rp_open = [], rp_curve = [start],
      rp_realized = 0, rp_impact_noted = False\<rparr>"

definition replay_bars ::
  "harness \<Rightarrow> real \<Rightarrow> (int \<times> int) option \<Rightarrow> int option \<Rightarrow> (string \<times> hbar list) list \<Rightarrow> replay_state res" where
  "replay_bars ha start window flat_time series =
     fold_res (\<lambda>ts. fold_res (replay_visit ha start window flat_time ts) series)
       (timeline series) (start_state start series)"

definition replay ::
  "harness \<Rightarrow> real \<Rightarrow> (int \<times> int) option \<Rightarrow> int option \<Rightarrow> (string \<times> hbar list) list \<Rightarrow> replay_state res" where
  \<comment> \<open>for the intraday sleeve a window or a flat time that is not given is the configured one\<close>
  "replay ha start entry_window flat_by bars_by_symbol =
     (let cfg = ha_config ha; intraday = (ha_sleeve ha = INTRADAY) in
      rbind (if entry_window = None \<and> intraday
             then rbind (parse_hhmm (cfg_intraday_entry_after cfg)) (\<lambda>a.
                  rmap (\<lambda>b. Some (a, b)) (parse_hhmm (cfg_intraday_entry_before cfg)))
             else Inr entry_window) (\<lambda>window.
      rbind (if flat_by = None \<and> intraday then rmap Some (parse_hhmm (cfg_intraday_flat_by cfg)) else Inr flat_by)
        (\<lambda>flat_time. replay_bars ha start window flat_time (sorted_bars bars_by_symbol))))"

section \<open>The summary\<close>

definition SUMMARY_KEYS :: "string list" where
  "SUMMARY_KEYS = [''net_pnl_usd'', ''net_return'', ''max_drawdown_usd'', ''max_drawdown_pct'', ''return_max_dd'',
     ''sharpe_daily'', ''profit_factor'', ''win_rate'', ''avg_win_usd'', ''avg_loss_usd'', ''expectancy_per_trade_r'',
     ''expectancy_per_trade_usd'', ''turnover'', ''round_trips'', ''fees_usd'', ''slippage_bps_mean'',
     ''es_cvar_975_usd'', ''exposure_pct'']"

record summary =
  sm_trades :: nat
  sm_starting_equity :: real
  sm_ending_equity :: real
  sm_metrics :: "(string \<times> real option) list"
  sm_reasons :: "(string \<times> string) list"

fun curve_from :: "real \<Rightarrow> real list \<Rightarrow> real list" where
  "curve_from x [] = [x]"
| "curve_from x (v # vs) = x # curve_from (x + v) vs"

definition drawdown_of :: "real list \<Rightarrow> real \<times> real \<times> real" where
  \<comment> \<open>the running peak, the largest fall and the fall as a share of its peak\<close>
  "drawdown_of curve =
     foldl (\<lambda>(peak, dd, pct) v.
       (let peak' = max peak v; d = peak' - v in
        if dd < d then (peak', d, if 0 < peak' then d / peak' else 0) else (peak', dd, pct)))
       (curve ! 0, 0, 0) curve"

definition daily_sums :: "(date \<times> real) list \<Rightarrow> real list" where
  "daily_sums dated =
     map snd (sort_key fst
       (foldl (\<lambda>d (day, v). AList.update day ((case map_of d day of None \<Rightarrow> 0 | Some x \<Rightarrow> x) + v) d) [] dated))"

definition sharpe_daily :: "real list \<Rightarrow> real \<Rightarrow> real option res" where
  \<comment> \<open>a starting equity of zero divides by it\<close>
  "sharpe_daily daily start =
     (if 2 \<le> length daily \<and> 0 < stdev daily then
        (if start = 0 then Inl ZeroDivisionError
         else (let rs = map (\<lambda>v. v / start) daily in Inr (Some (fmean rs / stdev rs * sqrt 252))))
      else Inr None)"

fun merged_us :: "int option \<Rightarrow> int \<Rightarrow> (int \<times> int) list \<Rightarrow> int" where
  \<comment> \<open>the length of the union of sorted intervals, from the one that is open\<close>
  "merged_us None e [] = 0"
| "merged_us (Some s) e [] = e - s"
| "merged_us None e ((a, b) # ivs) = merged_us (Some a) b ivs"
| "merged_us (Some s) e ((a, b) # ivs) =
     (if a \<le> e then merged_us (Some s) (max e b) ivs else (e - s) + merged_us (Some a) b ivs)"

definition holding_intervals :: "trade_row list \<Rightarrow> (int \<times> int) list" where
  "holding_intervals rows =
     sort (filter (\<lambda>(a, b). a < b) (map (\<lambda>r. (utc_instant (tw_entry_ts r), utc_instant (tw_exit_ts r))) rows))"

definition merged_holding_seconds :: "trade_row list \<Rightarrow> real" where
  "merged_holding_seconds rows = of_int (merged_us None 0 (holding_intervals rows)) / 1000000"

definition exposure :: "trade_row list \<Rightarrow> real option" where
  "exposure rows =
     (let span = of_int (Max (set (map (utc_instant \<circ> tw_exit_ts) rows))
                         - Min (set (map (utc_instant \<circ> tw_entry_ts) rows))) / 1000000 in
      if 0 < span then Some (min 1 (merged_holding_seconds rows / span)) else None)"

definition summary_metrics :: "trade_row list \<Rightarrow> real \<Rightarrow> real option \<Rightarrow> real option \<Rightarrow> (string \<times> real option) list" where
  "summary_metrics rows start sharpe es =
     (let n = of_nat (length rows) :: real; pnl = map row_pnl_usd rows; curve = curve_from start pnl;
          net = last curve - start; ret = some_if (0 < start) (net / start);
          (peak, dd, dd_pct) = drawdown_of curve;
          wins = filter (\<lambda>v. 0 < v) pnl; losses = map uminus (filter (\<lambda>v. v < 0) pnl) in
      [(''net_pnl_usd'', Some net), (''net_return'', ret), (''max_drawdown_usd'', Some dd),
       (''max_drawdown_pct'', Some dd_pct),
       (''return_max_dd'', some_if (0 < dd_pct) ((case ret of None \<Rightarrow> 0 | Some r \<Rightarrow> r) / dd_pct)),
       (''sharpe_daily'', sharpe),
       (''profit_factor'', some_if (0 < sum_list losses) (sum_list wins / sum_list losses)),
       (''win_rate'', Some (of_nat (length wins) / n)),
       (''avg_win_usd'', some_if (wins \<noteq> []) (sum_list wins / of_nat (length wins))),
       (''avg_loss_usd'', some_if (losses \<noteq> []) (- sum_list losses / of_nat (length losses))),
       (''expectancy_per_trade_r'', Some (fmean (map tw_r_multiple rows))),
       (''expectancy_per_trade_usd'', Some (net / n)),
       (''turnover'', some_if (0 < start)
          (sum_list (map (\<lambda>r. \<bar>tw_qty r\<bar> * (tw_entry_px r + tw_exit_px r)) rows) / start)),
       (''round_trips'', Some n), (''fees_usd'', Some (sum_list (map tw_fees_usd rows))),
       (''slippage_bps_mean'', Some (fmean (map tw_slippage_bps rows))), (''es_cvar_975_usd'', es),
       (''exposure_pct'', exposure rows)])"

definition summary_reason :: "string \<Rightarrow> string" where
  "summary_reason key =
     (if key = ''net_return'' \<or> key = ''turnover'' then ''no_starting_equity''
      else if key = ''return_max_dd'' then ''no_drawdown''
      else if key = ''sharpe_daily'' then ''insufficient_daily_observations''
      else if key = ''avg_win_usd'' then ''no_wins''
      else if key = ''exposure_pct'' then ''no_span'' else ''no_losses'')"

definition summarize :: "trade_row list \<Rightarrow> real \<Rightarrow> summary res" where
  "summarize rows start =
     (if rows = [] then
        Inr \<lparr>sm_trades = 0, sm_starting_equity = start, sm_ending_equity = start,
             sm_metrics = map (\<lambda>k. (k, None)) SUMMARY_KEYS, sm_reasons = map (\<lambda>k. (k, ''no_trades'')) SUMMARY_KEYS\<rparr>
      else (let pnl = map row_pnl_usd rows;
                daily = daily_sums (zip (map (date_of \<circ> tw_exit_ts) rows) pnl);
                losses = map uminus (filter (\<lambda>v. v < 0) pnl) in
        rbind (sharpe_daily daily start) (\<lambda>sharpe.
        rmap (\<lambda>es. (let metrics = summary_metrics rows start sharpe es in
               \<lparr>sm_trades = length rows, sm_starting_equity = start, sm_ending_equity = last (curve_from start pnl),
                sm_metrics = metrics,
                sm_reasons = map (\<lambda>(k, _). (k, summary_reason k)) (filter (\<lambda>(_, v). v = None) metrics)\<rparr>))
          (if losses = [] then Inr None
           else rmap (\<lambda>v. Some (the_fin v)) (es_historical (map Fin losses) (Fin (975 / 1000)))))))"

section \<open>Exits\<close>

lemma exit_for_open: "exit_for spec bar l f = Inr r \<Longrightarrow> \<exists>x. hb_open bar = Some x"
  by (auto simp: exit_for_def split: option.splits)

lemma exit_stop_first:
  assumes "hb_open bar = Some x"
  shows "oe_side spec = ''buy'' \<Longrightarrow> hb_low bar \<le> oe_stop spec \<Longrightarrow> exit_for spec bar l f = Inr (Some (min (oe_stop spec) x, ''stop''))"
    and "oe_side spec \<noteq> ''buy'' \<Longrightarrow> oe_stop spec \<le> hb_high bar \<Longrightarrow> exit_for spec bar l f = Inr (Some (max (oe_stop spec) x, ''stop''))"
  using assms by (auto simp: exit_for_def Let_def min_def max_def)

lemma exit_last_bar: "exit_for spec bar True f = Inr r \<Longrightarrow> r \<noteq> None"
  by (auto simp: exit_for_def Let_def split: option.splits if_splits)

section \<open>Folding over the bars\<close>

lemma fold_res_inv:
  assumes "fold_res f xs s = Inr s'" and "P s"
    and "\<And>x t t'. x \<in> set xs \<Longrightarrow> P t \<Longrightarrow> f x t = Inr t' \<Longrightarrow> P t'"
  shows "P s'"
  using assms
proof (induction xs arbitrary: s)
  case (Cons x xs)
  then obtain t where "f x s = Inr t" "fold_res f xs t = Inr s'" by (auto simp: rbind_Inr_iff)
  then show ?case using Cons.IH[of t] Cons.prems by auto
qed simp

lemma fold_res_cong:
  "(\<And>x s. x \<in> set xs \<Longrightarrow> f x s = g x s) \<Longrightarrow> fold_res f xs s = fold_res g xs s"
  by (induction xs arbitrary: s) (auto intro: arg_cong2[where f = rbind])

lemma fold_res_append: "fold_res f (xs @ ys) s = rbind (fold_res f xs s) (fold_res f ys)"
  by (induction xs arbitrary: s) (auto simp: rbind_def split: sum.splits)

section \<open>The books of a replay\<close>

lemma curve_from_snoc: "curve_from x (vs @ [v]) = curve_from x vs @ [x + sum_list vs + v]"
  by (induction vs arbitrary: x) (simp_all add: algebra_simps)

lemma last_curve: "last (curve_from x vs) = x + sum_list vs"
proof (induction vs rule: rev_induct)
  case (snoc v vs)
  then show ?case by (simp add: curve_from_snoc)
qed simp

definition accounted :: "real \<Rightarrow> replay_state \<Rightarrow> bool" where
  "accounted start st \<longleftrightarrow>
     rp_realized st = sum_list (map row_pnl_usd (rp_trades st))
     \<and> rp_curve st = curve_from start (map row_pnl_usd (rp_trades st))
     \<and> (\<forall>row \<in> set (rp_trades st). 1 \<le> tw_qty row \<and> tw_gate_verdict row \<in> {ALLOW, REDUCE})
     \<and> (\<forall>s spec. map_of (rp_open st) s = Some spec \<longrightarrow> 1 \<le> oe_qty spec \<and> oe_gate_verdict spec \<in> {ALLOW, REDUCE})"

lemma add_skip_simps [simp]:
  "rp_trades (add_skip s w t st) = rp_trades st" "rp_open (add_skip s w t st) = rp_open st"
  "rp_curve (add_skip s w t st) = rp_curve st" "rp_realized (add_skip s w t st) = rp_realized st"
  by (simp_all add: add_skip_def)

lemma close_trade_fields:
  "close_trade f costs sleeve spec px why ts = (row, m) \<Longrightarrow>
     tw_qty row = of_int (oe_qty spec) \<and> tw_gate_verdict row = oe_gate_verdict spec
     \<and> tw_entry_px row = oe_entry_px spec \<and> tw_exit_px row = px"
  by (auto simp: close_trade_def Let_def)

lemma settle_Some:
  assumes "settle_exit ha start ts symbol spec st (Some o2) = st'"
  shows "\<exists>row. tw_qty row = of_int (oe_qty spec) \<and> tw_gate_verdict row = oe_gate_verdict spec
    \<and> rp_trades st' = rp_trades st @ [row] \<and> rp_realized st' = rp_realized st + row_pnl_usd row
    \<and> rp_curve st' = rp_curve st @ [start + (rp_realized st + row_pnl_usd row)]
    \<and> rp_open st' = AList.delete symbol (rp_open st)"
proof -
  obtain px why where o2: "o2 = (px, why)" by fastforce
  obtain row m where cl: "close_trade (ha_impact ha) (ha_costs ha) (ha_sleeve ha) spec px why ts = (row, m)" by fastforce
  show ?thesis using close_trade_fields[OF cl] unfolding assms[symmetric] settle_exit_def o2
    by (intro exI[of _ row]) (simp add: cl Let_def)
qed

lemma replay_exit_cases:
  assumes "replay_exit ha start flat ts symbol bar l st = Inr st'"
  obtains (none) "map_of (rp_open st) symbol = None" "st' = st"
  | (held) spec where "map_of (rp_open st) symbol = Some spec"
      "st' = st\<lparr>rp_open := AList.update symbol (spec\<lparr>oe_last := hb_close bar\<rparr>) (rp_open st)\<rparr>" "\<not> l"
  | (closed) spec row where "map_of (rp_open st) symbol = Some spec"
      "tw_qty row = of_int (oe_qty spec)" "tw_gate_verdict row = oe_gate_verdict spec"
      "rp_trades st' = rp_trades st @ [row]" "rp_realized st' = rp_realized st + row_pnl_usd row"
      "rp_curve st' = rp_curve st @ [start + (rp_realized st + row_pnl_usd row)]"
      "map_of (rp_open st') = (map_of (rp_open st))(symbol := None)"
proof (cases "map_of (rp_open st) symbol")
  case None
  then have "st' = st" using assms by (simp add: replay_exit_def)
  with None show ?thesis by (rule none)
next
  case (Some spec)
  let ?spec = "spec\<lparr>oe_last := hb_close bar\<rparr>"
  let ?st = "st\<lparr>rp_open := AList.update symbol ?spec (rp_open st)\<rparr>"
  have "rmap (settle_exit ha start ts symbol ?spec ?st) (exit_for ?spec bar l flat) = Inr st'"
    using assms by (simp add: replay_exit_def Let_def Some)
  then obtain out where out: "exit_for ?spec bar l flat = Inr out" "settle_exit ha start ts symbol ?spec ?st out = st'"
    unfolding rmap_Inr_iff by metis
  show ?thesis
  proof (cases out)
    case None
    then have "\<not> l" using exit_last_bar[of ?spec bar flat] out(1) by auto
    have "st' = ?st" using out(2) None by (simp add: settle_exit_def)
    from held[OF Some this \<open>\<not> l\<close>] show ?thesis .
  next
    case (Some o2)
    from settle_Some[OF out(2)[unfolded Some]]
    obtain row where row: "tw_qty row = of_int (oe_qty ?spec)" "tw_gate_verdict row = oe_gate_verdict ?spec"
      "rp_trades st' = rp_trades ?st @ [row]" "rp_realized st' = rp_realized ?st + row_pnl_usd row"
      "rp_curve st' = rp_curve ?st @ [start + (rp_realized ?st + row_pnl_usd row)]"
      "rp_open st' = AList.delete symbol (rp_open ?st)" by blast
    have "map_of (rp_open st') = (map_of (rp_open st))(symbol := None)"
      unfolding row(6) by (rule ext) (simp add: delete_conv' update_conv')
    with row(1-5) show ?thesis by (intro closed[OF \<open>map_of (rp_open st) symbol = Some spec\<close>, of row]) simp_all
  qed
qed

lemma gated_entry_Inr:
  "gated_entry ha ctx spec = Inr s \<Longrightarrow> \<exists>qty. allowed (ha_gate_factory ha ctx) \<and> 1 \<le> qty \<and> s = spec (ha_gate_factory ha ctx) qty"
  unfolding gated_entry_def Let_def
  by (simp only: sum.inject sum.distinct de_Morgan_disj not_not linorder_not_less split: if_split_asm) blast

lemma entry_decision_Inr:
  assumes "entry_decision ha start window ts symbol bars idx st = Inr spec"
  shows "idx + 1 < length bars \<and> hb_open (bars ! (idx + 1)) = Some (oe_entry_px spec) \<and> 1 \<le> oe_qty spec
    \<and> oe_gate_verdict spec \<in> {ALLOW, REDUCE} \<and> oe_entry_ts spec = hb_ts (bars ! (idx + 1))"
proof -
  obtain stop px where g: "idx + 1 < length bars" "hb_open (bars ! (idx + 1)) = Some px"
    "gated_entry ha (harness_context ha start st ts symbol bars idx stop)
      (open_entry ha symbol (bars ! idx) (bars ! (idx + 1)) stop px) = Inr spec"
    using assms by (auto simp: entry_decision_def Let_def split: if_split_asm option.split_asm)
  then show ?thesis using gated_entry_Inr[OF g(3)] by (auto simp: open_entry_def allowed_def)
qed

lemma replay_entry_cases:
  assumes "st' = replay_entry ha start window ts symbol bars idx st"
  obtains (same) "rp_open st' = rp_open st" "rp_trades st' = rp_trades st" "rp_curve st' = rp_curve st"
      "rp_realized st' = rp_realized st"
  | (opened) spec where "rp_open st' = AList.update symbol spec (rp_open st)" "rp_trades st' = rp_trades st"
      "rp_curve st' = rp_curve st" "rp_realized st' = rp_realized st" "map_of (rp_open st) symbol = None"
      "entry_decision ha start window ts symbol bars idx st = Inr spec"
  using assms by (fastforce simp: replay_entry_def split: if_splits sum.splits)

lemma replay_visit_accounted:
  assumes "replay_visit ha start window flat ts sb st = Inr st'" and "accounted start st"
  shows "accounted start st'"
proof (cases "bar_index (snd sb) ts")
  case None
  then show ?thesis using assms by (simp add: replay_visit_def)
next
  case (Some idx)
  then obtain st1 where ex: "replay_exit ha start flat ts (fst sb) (snd sb ! idx) (idx = length (snd sb) - 1) st = Inr st1"
    and en: "st' = replay_entry ha start window ts (fst sb) (snd sb) idx st1"
    using assms(1) by (auto simp: replay_visit_def rmap_Inr_iff)
  have 1: "accounted start st1"
    using ex assms(2) by (cases rule: replay_exit_cases)
      (auto simp: accounted_def update_conv' curve_from_snoc algebra_simps split: if_splits)
  show ?thesis using en 1 by (cases rule: replay_entry_cases) (auto simp: accounted_def update_conv' dest!: entry_decision_Inr split: if_splits)
qed

lemma replay_bars_accounted:
  assumes "replay_bars ha start window flat series = Inr st"
  shows "accounted start st"
  using assms unfolding replay_bars_def
proof (rule fold_res_inv)
  show "accounted start (start_state start series)" by (simp add: accounted_def start_state_def)
next
  fix ts t t'
  assume "accounted start t" "fold_res (replay_visit ha start window flat ts) series t = Inr t'"
  then show "accounted start t'" using replay_visit_accounted by (blast intro: fold_res_inv)
qed

section \<open>Every position is closed\<close>

lemma bar_index_Some:
  assumes "bar_index bars ts = Some i"
  shows "i < length bars" and "utc_instant (hb_ts (bars ! i)) = utc_instant ts"
    and "\<And>j. i < j \<Longrightarrow> j < length bars \<Longrightarrow> utc_instant (hb_ts (bars ! j)) \<noteq> utc_instant ts"
proof -
  let ?P = "\<lambda>i. utc_instant (hb_ts (bars ! i)) = utc_instant ts"
  let ?f = "filter ?P [0..<length bars]"
  have f: "?f \<noteq> []" "last ?f = i" using assms by (auto simp: bar_index_def split: list.splits)
  then have "i \<in> set ?f" using last_in_set by metis
  then show "i < length bars" "?P i" by simp_all
  have sorted: "sorted ?f" by (rule sorted_filter[of id, simplified]) simp
  fix j assume j: "i < j" "j < length bars"
  show "\<not> ?P j"
  proof
    assume "?P j"
    then have "j \<in> set ?f" using j by simp
    then obtain k where k: "k < length ?f" "?f ! k = j" unfolding in_set_conv_nth by blast
    have "?f ! k \<le> ?f ! (length ?f - 1)" using k(1) f(1) by (intro sorted_nth_mono[OF sorted]) auto
    then show False using k(2) f j(1) by (simp add: last_conv_nth)
  qed
qed

lemma bar_index_None: "bar_index bars ts = None \<Longrightarrow> b \<in> set bars \<Longrightarrow> utc_instant (hb_ts b) \<noteq> utc_instant ts"
  by (fastforce simp: bar_index_def in_set_conv_nth filter_empty_conv split: list.splits)

definition last_instant :: "hbar list \<Rightarrow> int" where
  "last_instant bars = utc_instant (hb_ts (last bars))"

definition still_due :: "(string \<times> hbar list) list \<Rightarrow> int set \<Rightarrow> string \<Rightarrow> bool" where
  \<comment> \<open>the final bar of a symbol is still to come\<close>
  "still_due series future s \<longleftrightarrow> (\<exists>bars. (s, bars) \<in> set series \<and> bars \<noteq> [] \<and> last_instant bars \<in> future)"

definition ordered :: "(string \<times> hbar list) list \<Rightarrow> bool" where
  "ordered series \<longleftrightarrow> distinct (map fst series) \<and> (\<forall>(s, bars) \<in> set series. sorted (map (utc_instant \<circ> hb_ts) bars))"

lemma replay_visit_open_other:
  assumes "replay_visit ha start window flat ts sb st = Inr st'" and "s \<noteq> fst sb"
  shows "map_of (rp_open st') s = map_of (rp_open st) s"
proof (cases "bar_index (snd sb) ts")
  case None
  then show ?thesis using assms by (simp add: replay_visit_def)
next
  case (Some idx)
  then obtain st1 where ex: "replay_exit ha start flat ts (fst sb) (snd sb ! idx) (idx = length (snd sb) - 1) st = Inr st1"
    and en: "st' = replay_entry ha start window ts (fst sb) (snd sb) idx st1"
    using assms(1) by (auto simp: replay_visit_def rmap_Inr_iff)
  have "map_of (rp_open st1) s = map_of (rp_open st) s"
    using ex assms(2) by (cases rule: replay_exit_cases) (simp_all add: update_conv')
  moreover have "map_of (rp_open st') s = map_of (rp_open st1) s"
    using en assms(2) by (cases rule: replay_entry_cases) (simp_all add: update_conv')
  ultimately show ?thesis by simp
qed

lemma replay_visit_open_self:
  assumes "replay_visit ha start window flat ts (s, bars) st = Inr st'"
    and "sorted (map (utc_instant \<circ> hb_ts) bars)" and "map_of (rp_open st') s \<noteq> None"
  shows "bar_index bars ts = None \<and> map_of (rp_open st) s \<noteq> None \<or> bars \<noteq> [] \<and> utc_instant ts < last_instant bars"
proof (cases "bar_index bars ts")
  case None
  then show ?thesis using assms by (simp add: replay_visit_def)
next
  case (Some idx)
  then obtain st1 where ex: "replay_exit ha start flat ts s (bars ! idx) (idx = length bars - 1) st = Inr st1"
    and en: "st' = replay_entry ha start window ts s bars idx st1"
    using assms(1) by (auto simp: replay_visit_def rmap_Inr_iff)
  note idx = bar_index_Some[OF Some]
  have "idx + 1 < length bars"
  proof (rule ccontr)
    assume no: "\<not> idx + 1 < length bars"
    then have l: "idx = length bars - 1" using idx(1) by simp
    have "map_of (rp_open st1) s = None" using ex l by (cases rule: replay_exit_cases) auto
    with en have "map_of (rp_open st') s = None"
      by (cases rule: replay_entry_cases) (use no entry_decision_Inr in auto)
    then show False using assms(3) by simp
  qed
  then have ne: "bars \<noteq> []" and lt: "idx < length bars - 1" by auto
  have "utc_instant (hb_ts (bars ! idx)) \<le> utc_instant (hb_ts (bars ! (length bars - 1)))"
    using sorted_nth_mono[OF assms(2), of idx "length bars - 1"] lt by simp
  moreover have "utc_instant (hb_ts (bars ! (length bars - 1))) \<noteq> utc_instant ts" using idx(3)[OF lt] lt by simp
  ultimately show ?thesis using ne idx(2) by (simp add: last_instant_def last_conv_nth)
qed

lemma replay_visit_pending:
  assumes "replay_visit ha start window flat ts (s, bars) st = Inr st'" and "(s, bars) \<in> set series"
    and "ordered series" and "\<And>b. (s, b) \<in> set series \<Longrightarrow> b \<noteq> [] \<Longrightarrow> utc_instant ts < last_instant b \<Longrightarrow> last_instant b \<in> future"
    and "map_of (rp_open st) s \<noteq> None \<Longrightarrow> still_due series (insert (utc_instant ts) future) s"
    and "map_of (rp_open st') s \<noteq> None"
  shows "still_due series future s"
proof -
  have bars: "b = bars" if "(s, b) \<in> set series" for b
    using that assms(2,3) by (auto simp: ordered_def intro: eq_key_imp_eq_value)
  have so: "sorted (map (utc_instant \<circ> hb_ts) bars)" using assms(2,3) by (auto simp: ordered_def)
  from replay_visit_open_self[OF assms(1) so assms(6)] show ?thesis
  proof
    assume n: "bar_index bars ts = None \<and> map_of (rp_open st) s \<noteq> None"
    then have p: "bars \<noteq> []" "last_instant bars \<in> insert (utc_instant ts) future"
      using assms(5) bars by (auto simp: still_due_def)
    then have "last_instant bars \<noteq> utc_instant ts"
      using bar_index_None[of bars ts "last bars"] n by (simp add: last_instant_def)
    then show ?thesis using p assms(2) by (auto simp: still_due_def)
  next
    assume "bars \<noteq> [] \<and> utc_instant ts < last_instant bars"
    then show ?thesis using assms(2,4) by (auto simp: still_due_def)
  qed
qed

lemma replay_step_pending:
  assumes "fold_res (replay_visit ha start window flat ts) todo st = Inr st'" and "set todo \<subseteq> set series"
    and "distinct (map fst todo)" and "ordered series"
    and "\<And>s b. (s, b) \<in> set series \<Longrightarrow> b \<noteq> [] \<Longrightarrow> utc_instant ts < last_instant b \<Longrightarrow> last_instant b \<in> future"
    and "\<And>s. map_of (rp_open st) s \<noteq> None \<Longrightarrow>
      still_due series (if s \<in> fst ` set todo then insert (utc_instant ts) future else future) s"
    and "map_of (rp_open st') s \<noteq> None"
  shows "still_due series future s"
  using assms
proof (induction todo arbitrary: st)
  case (Cons sb todo)
  obtain name bars where sb: "sb = (name, bars)" by fastforce
  obtain st1 where st1: "replay_visit ha start window flat ts (name, bars) st = Inr st1"
    "fold_res (replay_visit ha start window flat ts) todo st1 = Inr st'"
    using Cons.prems(1) unfolding sb by (auto simp: rbind_Inr_iff)
  have name: "name \<notin> fst ` set todo" "(name, bars) \<in> set series" using Cons.prems(2,3) unfolding sb by auto
  show ?case
  proof (rule Cons.IH[OF st1(2) _ _ Cons.prems(4,5) _ Cons.prems(7)])
    show "set todo \<subseteq> set series" "distinct (map fst todo)" using Cons.prems(2,3) by auto
    fix t assume t: "map_of (rp_open st1) t \<noteq> None"
    show "still_due series (if t \<in> fst ` set todo then insert (utc_instant ts) future else future) t"
    proof (cases "t = name")
      case True
      have "still_due series (insert (utc_instant ts) future) name" if "map_of (rp_open st) name \<noteq> None"
        using Cons.prems(6)[OF that] sb by simp
      from replay_visit_pending[OF st1(1) name(2) Cons.prems(4,5) this] t True
      have "still_due series future name" by simp
      then show ?thesis using True name(1) by simp
    next
      case False
      then have "map_of (rp_open st) t \<noteq> None" using t replay_visit_open_other[OF st1(1), of t] by simp
      then show ?thesis using Cons.prems(6)[of t] False sb by auto
    qed
  qed
qed simp

lemma replay_run_pending:
  assumes "fold_res (\<lambda>ts. fold_res (replay_visit ha start window flat ts) series) tms st = Inr st'"
    and "ordered series" and "sorted (map utc_instant tms)"
    and "\<And>s b. (s, b) \<in> set series \<Longrightarrow> b \<noteq> [] \<Longrightarrow>
      last_instant b \<in> utc_instant ` set tms \<or> (\<forall>t \<in> set tms. last_instant b \<le> utc_instant t)"
    and "\<And>s. map_of (rp_open st) s \<noteq> None \<Longrightarrow> still_due series (utc_instant ` set tms) s"
  shows "map_of (rp_open st') s = None"
  using assms
proof (induction tms arbitrary: st)
  case Nil
  then show ?case by (cases "map_of (rp_open st') s") (auto simp: still_due_def)
next
  case (Cons ts tms)
  obtain st1 where st1: "fold_res (replay_visit ha start window flat ts) series st = Inr st1"
    "fold_res (\<lambda>ts. fold_res (replay_visit ha start window flat ts) series) tms st1 = Inr st'"
    using Cons.prems(1) by (auto simp: rbind_Inr_iff)
  have le: "\<forall>t \<in> set tms. utc_instant ts \<le> utc_instant t" using Cons.prems(3) by auto
  show ?case
  proof (rule Cons.IH[OF st1(2) Cons.prems(2)])
    show "sorted (map utc_instant tms)" using Cons.prems(3) by simp
    show "last_instant b \<in> utc_instant ` set tms \<or> (\<forall>t \<in> set tms. last_instant b \<le> utc_instant t)"
      if "(s, b) \<in> set series" "b \<noteq> []" for s b using Cons.prems(4)[OF that] le by auto
    fix t assume t: "map_of (rp_open st1) t \<noteq> None"
    show "still_due series (utc_instant ` set tms) t"
    proof (rule replay_step_pending[OF st1(1) _ _ Cons.prems(2) _ _ t])
      show "set series \<subseteq> set series" "distinct (map fst series)" using Cons.prems(2) by (auto simp: ordered_def)
      show "last_instant b \<in> utc_instant ` set tms"
        if "(s, b) \<in> set series" "b \<noteq> []" "utc_instant ts < last_instant b" for s b
        using Cons.prems(4)[OF that(1,2)] that(3) by auto
      show "still_due series (if s \<in> fst ` set series then insert (utc_instant ts) (utc_instant ` set tms) else utc_instant ` set tms) s"
        if "map_of (rp_open st) s \<noteq> None" for s
        using Cons.prems(5)[OF that] by (force simp: still_due_def)
    qed
  qed
qed

lemma first_stamps_instants: "utc_instant ` set (first_stamps ts seen) \<union> set seen = utc_instant ` set ts \<union> set seen"
proof (induction ts arbitrary: seen)
  case (Cons t ts)
  show ?case using Cons.IH[of seen] Cons.IH[of "utc_instant t # seen"] by auto
qed simp

lemma replay_bars_flat:
  assumes "replay_bars ha start window flat series = Inr st" and "ordered series"
  shows "rp_open st = []"
proof -
  have tms: "utc_instant ` set (timeline series) = (\<Union>(s, bars) \<in> set series. (utc_instant \<circ> hb_ts) ` set bars)"
    using first_stamps_instants[of "concat (map (map hb_ts \<circ> snd) series)" "[]"] by (force simp: timeline_def)
  have "map_of (rp_open st) s = None" for s
  proof (rule replay_run_pending[OF assms(1)[unfolded replay_bars_def] assms(2)])
    show "sorted (map utc_instant (timeline series))" by (simp add: timeline_def)
    show "last_instant b \<in> utc_instant ` set (timeline series) \<or> (\<forall>t \<in> set (timeline series). last_instant b \<le> utc_instant t)"
      if "(s, b) \<in> set series" "b \<noteq> []" for s b
      using that unfolding tms last_instant_def by force
  qed (simp add: start_state_def)
  then show ?thesis by (metis map_of_eq_None_iff image_is_empty set_empty empty_iff equals0I)
qed

lemma ordered_sorted_bars: "distinct (map fst bs) \<Longrightarrow> ordered (sorted_bars bs)"
proof -
  assume d: "distinct (map fst bs)"
  have "mset (map fst (sort_key fst bs)) = mset (map fst bs)" by simp
  then have "distinct (map fst (sort_key fst bs))" using d mset_eq_imp_distinct_iff by blast
  then have "distinct (map fst (sorted_bars bs))" by (simp add: sorted_bars_def o_def split_def)
  then show ?thesis by (auto simp: ordered_def sorted_bars_def)
qed

section \<open>No lookahead\<close>

definition strictly :: "hbar list \<Rightarrow> bool" where
  "strictly bars \<longleftrightarrow> sorted_wrt (<) (map (utc_instant \<circ> hb_ts) bars)"

lemma strictly_less: "strictly bars \<Longrightarrow> i < j \<Longrightarrow> j < length bars \<Longrightarrow> utc_instant (hb_ts (bars ! i)) < utc_instant (hb_ts (bars ! j))"
  unfolding strictly_def by (simp add: sorted_wrt_iff_nth_less)

lemma filter_upt_eq: "i < n \<Longrightarrow> filter (\<lambda>j. j = i) [0..<n] = [i]"
  by (induction n) (auto simp: less_Suc_eq filter_empty_conv)

lemma bar_index_nth:
  assumes "strictly bars" and "i < length bars"
  shows "bar_index bars (hb_ts (bars ! i)) = Some i"
proof -
  have "filter (\<lambda>j. utc_instant (hb_ts (bars ! j)) = utc_instant (hb_ts (bars ! i))) [0..<length bars]
      = filter (\<lambda>j. j = i) [0..<length bars]"
  proof (rule filter_cong)
    fix j assume "j \<in> set [0..<length bars]"
    then have j: "j < length bars" by simp
    show "(utc_instant (hb_ts (bars ! j)) = utc_instant (hb_ts (bars ! i))) = (j = i)"
      using strictly_less[OF assms(1), of i j] strictly_less[OF assms(1), of j i] j assms(2)
      by (cases i j rule: linorder_cases) simp_all
  qed simp
  also have "\<dots> = [i]" by (rule filter_upt_eq[OF assms(2)])
  finally show ?thesis by (simp add: bar_index_def)
qed

lemma first_stamps_distinct:
  "distinct (map utc_instant ts) \<Longrightarrow> utc_instant ` set ts \<inter> set seen = {} \<Longrightarrow> first_stamps ts seen = ts"
  by (induction ts arbitrary: seen) auto

lemma timeline_single:
  assumes "strictly bars"
  shows "timeline [(s, bars)] = map hb_ts bars"
proof -
  have "sorted_wrt (<) (map utc_instant (map hb_ts bars))" using assms by (simp add: strictly_def)
  then have "distinct (map utc_instant (map hb_ts bars))" "sorted (map utc_instant (map hb_ts bars))"
    by (simp_all add: strict_sorted_iff)
  then show ?thesis by (simp add: timeline_def first_stamps_distinct sort_key_id_if_sorted)
qed

lemma nth_take_eq: "take n xs = take n ys \<Longrightarrow> i < n \<Longrightarrow> xs ! i = ys ! i"
  by (metis nth_take)

lemma entry_decision_cong:
  assumes "take (idx + 2) bars = take (idx + 2) bars'" and "idx + 1 < length bars" and "idx + 1 < length bars'"
  shows "entry_decision ha start window ts symbol bars idx = entry_decision ha start window ts symbol bars' idx"
proof -
  have eq: "bars ! idx = bars' ! idx" "bars ! (idx + 1) = bars' ! (idx + 1)"
    using nth_take_eq[OF assms(1)] by simp_all
  have "take (idx + 1) bars = take (idx + 1) bars'"
    using arg_cong[OF assms(1), of "take (idx + 1)"] by (simp add: min_def)
  then have hc: "harness_context ha start st ts symbol bars idx = harness_context ha start st ts symbol bars' idx"
    for st by (intro ext) (simp only: harness_context_def eq(1))
  have "(length bars \<le> idx + 1) = False" "(length bars' \<le> idx + 1) = False" using assms(2,3) by simp_all
  then show ?thesis by (intro ext) (simp only: entry_decision_def eq hc if_False)
qed

lemma replay_visit_prefix:
  assumes "strictly bars" and "strictly bars'" and "take (k + 1) bars = take (k + 1) bars'"
    and "k < length bars" and "k < length bars'" and "i < k"
  shows "replay_visit ha start window flat (hb_ts (bars ! i)) (s, bars) st
    = replay_visit ha start window flat (hb_ts (bars ! i)) (s, bars') st"
proof -
  have eq: "bars ! i = bars' ! i" using nth_take_eq[OF assms(3)] assms(6) by simp
  have "take (i + 2) bars = take (i + 2) bars'"
    using arg_cong[OF assms(3), of "take (i + 2)"] assms(6) by (simp add: min_def)
  then have ed: "entry_decision ha start window ts s bars i = entry_decision ha start window ts s bars' i" for ts
    using assms(4-6) by (intro entry_decision_cong) simp_all
  have bi: "bar_index bars (hb_ts (bars ! i)) = Some i" "bar_index bars' (hb_ts (bars ! i)) = Some i"
    using bar_index_nth[OF assms(1), of i] bar_index_nth[OF assms(2), of i] assms(4-6) eq by simp_all
  have re: "replay_entry ha start window ts s bars i = replay_entry ha start window ts s bars' i" for ts
    unfolding replay_entry_def ed eq ..
  have "(i = length bars - 1) = False" "(i = length bars' - 1) = False" using assms(4-6) by auto
  then show ?thesis by (simp only: replay_visit_def fst_conv snd_conv eq bi[unfolded eq] option.case re)
qed

lemma replay_prefix:
  assumes "strictly bars" and "strictly bars'" and "take (k + 1) bars = take (k + 1) bars'"
    and "k < length bars" and "k < length bars'"
  shows "fold_res (\<lambda>ts. replay_visit ha start window flat ts (s, bars)) (take k (timeline [(s, bars)])) st
    = fold_res (\<lambda>ts. replay_visit ha start window flat ts (s, bars')) (take k (timeline [(s, bars')])) st"
proof -
  have "take k bars = take k bars'" using arg_cong[OF assms(3), of "take k"] by (simp add: min_def)
  then have tk: "take k (timeline [(s, bars')]) = take k (timeline [(s, bars)])"
    by (simp add: timeline_single[OF assms(1)] timeline_single[OF assms(2)] take_map)
  show ?thesis unfolding tk
  proof (rule fold_res_cong)
    fix ts st assume "ts \<in> set (take k (timeline [(s, bars)]))"
    then obtain i where "i < k" "ts = hb_ts (bars ! i)"
      unfolding timeline_single[OF assms(1)] take_map set_map in_set_conv_nth
      using assms(4) by (auto simp: in_set_conv_nth)
    then show "replay_visit ha start window flat ts (s, bars) st = replay_visit ha start window flat ts (s, bars') st"
      using replay_visit_prefix[OF assms] by simp
  qed
qed

section \<open>What the summary says\<close>

definition held_us :: "(int \<times> int) list \<Rightarrow> int set" where
  \<comment> \<open>the microseconds of a list of holding intervals\<close>
  "held_us ivs = (\<Union>(a, b) \<in> set ivs. {a..<b})"

lemma finite_covered [simp]: "finite (held_us ivs)"
  by (auto simp: held_us_def)

lemma covered_Cons: "held_us ((a, b) # ivs) = {a..<b} \<union> held_us ivs"
  by (auto simp: held_us_def)

lemma merged_us_Some:
  assumes "sorted (map fst ivs)" and "\<forall>(a, b) \<in> set ivs. a < b \<and> s \<le> a" and "s < e"
  shows "merged_us (Some s) e ivs = int (card ({s..<e} \<union> held_us ivs))"
  using assms
proof (induction ivs arbitrary: s e)
  case Nil
  then show ?case by (simp add: held_us_def)
next
  case (Cons iv ivs)
  obtain a b where iv: "iv = (a, b)" by fastforce
  have ab: "a < b" "s \<le> a" "\<forall>(c, d) \<in> set ivs. c < d \<and> a \<le> c" using Cons.prems iv by fastforce+
  have so: "sorted (map fst ivs)" using Cons.prems(1) by simp
  show ?case
  proof (cases "a \<le> e")
    case True
    have "{s..<max e b} = {s..<e} \<union> {a..<b}" using True ab by auto
    moreover have "\<forall>(c, d) \<in> set ivs. c < d \<and> s \<le> c" using ab by force
    ultimately show ?thesis
      using Cons.IH[OF so, of s "max e b"] Cons.prems(3) True by (simp add: iv covered_Cons Un_assoc)
  next
    case False
    have dis: "{s..<e} \<inter> ({a..<b} \<union> held_us ivs) = {}" using False ab(3) by (fastforce simp: held_us_def)
    have "card ({s..<e} \<union> ({a..<b} \<union> held_us ivs)) = card {s..<e} + card ({a..<b} \<union> held_us ivs)"
      by (rule card_Un_disjoint) (use dis in auto)
    then show ?thesis using Cons.IH[OF so ab(3,1)] False Cons.prems(3) by (simp add: iv covered_Cons)
  qed
qed

lemma merged_us_card:
  assumes "sorted (map fst ivs)" and "\<forall>(a, b) \<in> set ivs. a < b"
  shows "merged_us None e ivs = int (card (held_us ivs))"
proof (cases ivs)
  case Nil
  then show ?thesis by (simp add: held_us_def)
next
  case (Cons iv rest)
  obtain a b where "iv = (a, b)" by fastforce
  then have iv: "ivs = (a, b) # rest" using Cons by simp
  have "\<forall>(c, d) \<in> set rest. c < d \<and> a \<le> c" using assms unfolding iv by fastforce
  then show ?thesis using merged_us_Some[of rest a b] assms unfolding iv by (simp add: covered_Cons)
qed

lemma sorted_fst: "sorted ivs \<Longrightarrow> sorted (map fst (ivs :: (int \<times> int) list))"
  by (induction ivs) (auto simp: less_eq_prod_def split: prod.splits)

lemma merged_holding:
  "merged_holding_seconds rows
     = of_nat (card (\<Union>r \<in> set rows. {utc_instant (tw_entry_ts r)..<utc_instant (tw_exit_ts r)})) / 1000000"
proof -
  let ?ivs = "holding_intervals rows"
  have "sorted ?ivs" by (simp add: holding_intervals_def)
  then have "merged_us None 0 ?ivs = int (card (held_us ?ivs))"
    by (intro merged_us_card sorted_fst) (auto simp: holding_intervals_def)
  moreover have "held_us ?ivs = (\<Union>r \<in> set rows. {utc_instant (tw_entry_ts r)..<utc_instant (tw_exit_ts r)})"
  proof (rule set_eqI)
    fix x
    have "x \<in> held_us ?ivs \<longleftrightarrow> (\<exists>iv \<in> set ?ivs. fst iv \<le> x \<and> x < snd iv)"
      by (simp add: held_us_def split_def)
    also have "\<dots> \<longleftrightarrow> (\<exists>r \<in> set rows. utc_instant (tw_entry_ts r) \<le> x \<and> x < utc_instant (tw_exit_ts r))"
      unfolding holding_intervals_def set_sort set_filter set_map by (auto intro: order.strict_trans1)
    finally show "x \<in> held_us ?ivs \<longleftrightarrow> x \<in> (\<Union>r \<in> set rows. {utc_instant (tw_entry_ts r)..<utc_instant (tw_exit_ts r)})"
      by simp
  qed
  ultimately show ?thesis by (simp add: merged_holding_seconds_def)
qed

lemma summary_metric_names: "map fst (summary_metrics rows start sharpe es) = SUMMARY_KEYS"
  by (simp add: summary_metrics_def SUMMARY_KEYS_def Let_def split_def)

lemma summarize_reasons:
  assumes "summarize rows start = Inr sm"
  shows "map fst (sm_metrics sm) = SUMMARY_KEYS"
    and "fst ` set (sm_reasons sm) = {k. (k, None) \<in> set (sm_metrics sm)}"
    and "sm_trades sm = length rows"
    and "sm_ending_equity sm = start + sum_list (map row_pnl_usd rows)"
proof -
  have "sm_ending_equity sm = last (curve_from start (map row_pnl_usd rows))"
    using assms by (auto simp: summarize_def Let_def rbind_Inr_iff rmap_Inr_iff split: if_split_asm)
  then show "sm_ending_equity sm = start + sum_list (map row_pnl_usd rows)" by (simp add: last_curve)
  show "map fst (sm_metrics sm) = SUMMARY_KEYS"
    using assms by (auto simp: summarize_def Let_def rbind_Inr_iff rmap_Inr_iff summary_metric_names o_def split: if_split_asm)
  show "sm_trades sm = length rows"
    using assms by (auto simp: summarize_def Let_def rbind_Inr_iff rmap_Inr_iff split: if_split_asm)
  show "fst ` set (sm_reasons sm) = {k. (k, None) \<in> set (sm_metrics sm)}"
    using assms by (force simp: summarize_def Let_def rbind_Inr_iff rmap_Inr_iff split: if_split_asm)
qed

section \<open>Shorts, zero equity, the book of a gate\<close>

lemma short_booked_as_loss:
  assumes "close_trade None \<lparr>hc_spread_bps = 0, hc_impact_y = y, hc_fees_bps = 0, hc_borrow_bps_per_day = 0\<rparr>
      sleeve spec px why ts = (row, m)"
    and "oe_side spec = ''sell''" and "1 \<le> oe_qty spec" and "px < oe_entry_px spec" and "0 < oe_stop_distance spec"
  shows "0 < tw_r_multiple row" and "row_pnl_usd row < 0"
  using assms
  by (auto simp: close_trade_def Let_def row_pnl_usd_def impact_bps_def mult_less_0_iff)

lemma zero_equity_raises:
  "2 \<le> length daily \<Longrightarrow> 0 < stdev daily \<Longrightarrow> sharpe_daily daily 0 = Inl ZeroDivisionError"
  by (simp add: sharpe_daily_def)

lemma book_shows_next_open:
  assumes "entry_decision ha start window ts symbol bars idx st = Inr spec" and "hb_signal (bars ! idx)"
    and "map_of (rp_open st) symbol = None"
  shows "\<exists>p \<in> set (harness_positions (ha_sleeve ha) (rp_open (replay_entry ha start window ts symbol bars idx st))).
    p_symbol p = symbol \<and> Some (p_avg_entry p) = map_option Fin (hb_open (bars ! (idx + 1)))"
proof -
  have "rp_open (replay_entry ha start window ts symbol bars idx st) = AList.update symbol spec (rp_open st)"
    using assms by (simp add: replay_entry_def)
  moreover have "(symbol, spec) \<in> set (AList.update symbol spec (rp_open st))"
    by (meson map_of_SomeD update_Some_unfold)
  ultimately show ?thesis using entry_decision_Inr[OF assms(1)]
    by (force simp: harness_positions_def)
qed

end
