(* ===== verification/ValidationSafety.thy ===== *)
theory ValidationSafety
  imports Harness Examples
begin

text \<open>
  The properties of the research side that span the statistics, the lineage and the replay: what a
  back-test may see, what its books say, and what may be claimed from them.
\<close>

section \<open>Examples\<close>








section \<open>The replay\<close>





text \<open>C29: The exposure of a summary rests on the exact length of the union of the trades' holding intervals:
  the merging loop computes the number of microseconds in which at least one trade is held.\<close>

theorem merged_holding_exact:
  "merged_holding_seconds rows
     = of_nat (card (\<Union>r \<in> set rows. {utc_instant (tw_entry_ts r)..<utc_instant (tw_exit_ts r)})) / 1000000"
  by (rule merged_holding)

section \<open>Claims\<close>

text \<open>The comparison of two sleeves claims an interval clear of zero only when both have the minimum of
  trades, every trade of both has a net result and a session, there are at least 3,500 sessions, and the
  paired comparison of the two daily series, which sum to the sleeves' net results, excludes zero.\<close>

theorem adequate_claim_earned:
  assumes "compare_sleeves rp paired ta tb sa sb m = Inr c" and "cm_claim c = ADEQUATE_CLAIM"
  shows "m \<le> int (length ta) \<and> m \<le> int (length tb) \<and> 3500 \<le> df_sessions (cm_difference c)
    \<and> (\<forall>row \<in> set (ta @ tb). row_net row \<noteq> None)
    \<and> (\<exists>a b p. paired a b = Inr p \<and> pc_excludes_zero p \<and> length a = df_sessions (cm_difference c) \<and> length b = length a
         \<and> sum_list a = sum_list (map (the \<circ> row_net) ta) \<and> sum_list b = sum_list (map (the \<circ> row_net) tb))"
proof -
  note ad = adequate_claim[OF assms]
  obtain da db sessions a b p where d: "daily_pnl rp ta = (da, None)" "daily_pnl rp tb = (db, None)"
    and al: "aligned da db = (sessions, a, b)" and n: "df_sessions (cm_difference c) = length sessions"
    and p: "paired a b = Inr p" "pc_excludes_zero p"
    using ad(3) by blast
  note da = daily_pnl_sum[OF d(1)] and db = daily_pnl_sum[OF d(2)]
  note s = aligned_sums[OF al da(1) db(1)]
  have "paired a b = Inr p \<and> pc_excludes_zero p \<and> length a = df_sessions (cm_difference c) \<and> length b = length a
      \<and> sum_list a = sum_list (map (the \<circ> row_net) ta) \<and> sum_list b = sum_list (map (the \<circ> row_net) tb)"
    using p n s da(3) db(3) by simp
  then show ?thesis using ad(1,2) da(2) db(2) by (auto simp: SESSIONS_BAR_def)
qed

lemma update_absent: "k \<notin> fst ` set d \<Longrightarrow> AList.update k v d = d @ [(k, v)]"
  by (induction d) auto

lemma collect_days_distinct:
  assumes "\<forall>row \<in> set rows. row_net row \<noteq> None \<and> day_of rp row \<noteq> None"
    and "distinct (map fst days @ map (the \<circ> day_of rp) rows)"
  shows "collect_days rp rows (days, 0, 0) = (days @ map (\<lambda>row. (the (day_of rp row), the (row_net row))) rows, 0, 0)"
  using assms
proof (induction rows arbitrary: days)
  case (Cons row rows)
  obtain x day where x: "row_net row = Some x" "day_of rp row = Some day" using Cons.prems(1) by auto
  have new: "day \<notin> fst ` set days" using Cons.prems(2) x by auto
  then have "map_of days day = None" by (simp add: map_of_eq_None_iff)
  then show ?case using Cons.IH[of "days @ [(day, x)]"] Cons.prems x new by (simp add: day_sum_def update_absent)
qed simp

definition ex_key :: "nat \<Rightarrow> string" where
  \<comment> \<open>the stamp of an example trade: no date, so its session is the text itself\<close>
  "ex_key i = [char_of (100 + i div 60), char_of (100 + i mod 60)]"

definition ex_trade :: "real \<Rightarrow> nat \<Rightarrow> trade" where
  "ex_trade x i = [(''qty'', JFloat (Fin 1)), (''entry_px'', JFloat (Fin 10)), (''exit_px'', JFloat (Fin (10 + x))),
     (''fees_usd'', JFloat (Fin 0)), (''exit_ts'', JStr (ex_key i))]"

lemma ex_char: "n < 156 \<Longrightarrow> of_char (char_of (100 + n) :: char) = (100 + n :: nat)"
  by (simp add: of_char_of take_bit_eq_mod)

lemma ex_key_inj: "i < 3600 \<Longrightarrow> j < 3600 \<Longrightarrow> ex_key i = ex_key j \<Longrightarrow> i = j"
proof -
  assume ij: "i < 3600" "j < 3600" "ex_key i = ex_key j"
  then have c: "(char_of (100 + i div 60) :: char) = char_of (100 + j div 60)" "(char_of (100 + i mod 60) :: char) = char_of (100 + j mod 60)"
    by (simp_all add: ex_key_def)
  have "i div 60 < 60" "j div 60 < 60" "i mod 60 < 60" "j mod 60 < 60" using ij by auto
  then have "i div 60 = j div 60" "i mod 60 = j mod 60"
    using arg_cong[OF c(1), of "of_char :: char \<Rightarrow> nat"] arg_cong[OF c(2), of "of_char :: char \<Rightarrow> nat"] by (simp_all add: ex_char)
  then show "i = j" by (metis div_mult_mod_eq)
qed

lemma ex_day: "i < 3600 \<Longrightarrow> day_text (ex_key i) = ex_key i"
proof -
  assume "i < 3600"
  then have lt: "i div 60 < 60" "i mod 60 < 60" by auto
  have no: "char_of (100 + n) \<noteq> CHR ''Z'' \<and> \<not> is_digit (char_of (100 + n))" if "n < 60" for n :: nat
  proof -
    have "of_char (char_of (100 + n) :: char) = (100 + n :: nat)" using ex_char[of n] that by simp
    then show ?thesis unfolding is_digit_def less_eq_char_def by (auto simp: of_char_def)
  qed
  have "replace_z (ex_key i) = ex_key i" using no[OF lt(1)] no[OF lt(2)] by (simp add: ex_key_def)
  moreover have "fromisoformat (ex_key i) = None"
    using no[OF lt(1)] by (simp add: ex_key_def fromisoformat_def digits_val_def)
  ultimately show ?thesis by (simp add: day_text_def ex_key_def)
qed

lemma ex_trade_facts: "i < 3600 \<Longrightarrow> row_net (ex_trade x i) = Some x \<and> day_of rp (ex_trade x i) = Some (ex_key i)"
  by (simp add: ex_trade_def row_net_def row_gross_def day_of_def jget_def finite_num_def ex_day) (simp add: ex_key_def)

definition ex_rng :: "unit rng" where
  "ex_rng = \<lparr>rg_random = (\<lambda>g. (0, g)), rg_randrange = (\<lambda>n g. (0, g))\<rparr>"

lemma ex_rng_ok: "rng_ok ex_rng"
  by (simp add: rng_ok_def ex_rng_def)

lemma paired_comparison_returns:
  assumes "length a = length b" and "a \<noteq> []" and "1 \<le> k"
  shows "\<exists>c. paired_comparison r a b k g = Inr c"
proof -
  have "map2 (-) a b \<noteq> []" using assms by (cases a; cases b) simp_all
  then show ?thesis using assms
    by (auto simp: paired_comparison_def stationary_bootstrap_ci_def percentile_interval_def Let_def)
qed

lemma ex_daily:
  assumes "n \<le> 3600"
  shows "daily_pnl rp (map (ex_trade x) [0..<n]) = (map (\<lambda>i. (ex_key i, x)) [0..<n], None)"
proof -
  have f: "row_net (ex_trade x i) = Some x \<and> day_of rp (ex_trade x i) = Some (ex_key i)" if "i < n" for i
    using ex_trade_facts that assms by simp
  have "map (the \<circ> day_of rp) (map (ex_trade x) [0..<n]) = map ex_key [0..<n]" using f by simp
  moreover have "distinct (map ex_key [0..<n])"
    using assms by (auto simp: distinct_map inj_on_def intro: ex_key_inj)
  ultimately have "distinct (map (the \<circ> day_of rp) (map (ex_trade x) [0..<n]))" by argo
  then have "collect_days rp (map (ex_trade x) [0..<n]) ([], 0, 0)
      = ([] @ map (\<lambda>row. (the (day_of rp row), the (row_net row))) (map (ex_trade x) [0..<n]), 0, 0)"
    using f by (intro collect_days_distinct) (simp_all only: list.map append_Nil, auto)
  moreover have "map (\<lambda>row. (the (day_of rp row), the (row_net row))) (map (ex_trade x) [0..<n]) = map (\<lambda>i. (ex_key i, x)) [0..<n]"
    using f by simp
  ultimately show ?thesis by (simp add: daily_pnl_def)
qed

lemma ex_aligned:
  assumes "n \<le> 3600"
  shows "\<exists>s. aligned (map (\<lambda>i. (ex_key i, x)) [0..<n]) (map (\<lambda>i. (ex_key i, y)) [0..<n]) = (s, replicate n x, replicate n y)
    \<and> length s = n"
proof -
  let ?d = "\<lambda>x :: real. map (\<lambda>i. (ex_key i, x)) [0..<n]"
  let ?s = "sort (remdups (map fst (?d x) @ map fst (?d y)))"
  have dist: "distinct (map ex_key [0..<n])" using assms by (auto simp: distinct_map inj_on_def intro: ex_key_inj)
  have set: "set ?s = ex_key ` {0..<n}" by auto
  have "length ?s = card (set ?s)" by (simp add: distinct_card[symmetric])
  then have len: "length ?s = n" unfolding set using dist by (simp add: distinct_map card_image)
  have sum: "day_sum (?d z) k = z" if "k \<in> set ?s" for z k
  proof -
    have "(k, z) \<in> set (?d z)" using that unfolding set by auto
    then have "map_of (?d z) k = Some z" using dist by (intro map_of_is_SomeI) (simp_all add: o_def)
    then show ?thesis by (simp add: day_sum_def)
  qed
  have "map (day_sum (?d z)) ?s = replicate n z" for z
    using sum[of _ z] len by (intro nth_equalityI) (auto simp del: set_sort)
  then show ?thesis using len by (simp add: aligned_def Let_def)
qed

lemma adequate_claim_earned_example:
  "\<exists>c. compare_sleeves (\<lambda>_. []) (\<lambda>a b. paired_comparison ex_rng a b 2000 ()) (map (ex_trade 2) [0..<3500])
        (map (ex_trade 1) [0..<3500]) ''swing'' ''intraday'' 30 = Inr c \<and> cm_claim c = ADEQUATE_CLAIM
     \<and> 3500 \<le> df_sessions (cm_difference c)"
proof -
  let ?a = "map (ex_trade 2) [0..<3500]" and ?b = "map (ex_trade 1) [0..<3500]"
  let ?p = "\<lambda>a b. paired_comparison ex_rng a b 2000 ()"
  obtain s where al: "aligned (map (\<lambda>i. (ex_key i, 2)) [0..<3500]) (map (\<lambda>i. (ex_key i, 1)) [0..<3500])
      = (s, replicate 3500 2, replicate 3500 1)" "length s = 3500"
    using ex_aligned[of 3500 2 1] by auto
  obtain p where p: "?p (replicate 3500 2) (replicate 3500 1) = Inr p"
    using paired_comparison_returns[of "replicate 3500 2" "replicate 3500 1" 2000 ex_rng "()"] by auto
  have ex: "pc_excludes_zero p"
    using paired_comparison_between(1,3)[OF ex_rng_ok p, of 1 1] by simp
  have ne: "map (\<lambda>i. (ex_key i, x)) [0..<3500] \<noteq> []" for x :: real by simp
  have "sc_sample_adequate (scorecard ?a sa 30)" "sc_sample_adequate (scorecard ?b sa 30)" for sa
    by (simp_all add: sample_adequate_iff)
  then have c: "\<exists>c. compare_sleeves (\<lambda>_. []) ?p ?a ?b ''swing'' ''intraday'' 30 = Inr c \<and> cm_claim c = ADEQUATE_CLAIM"
    unfolding compare_sleeves_def Let_def ex_daily[of 3500, simplified] paired_difference_def prod.case al(1)
    using al(2) p ex ne by (simp add: comparison_claim_def SESSIONS_BAR_def)
  then obtain c where c: "compare_sleeves (\<lambda>_. []) ?p ?a ?b ''swing'' ''intraday'' 30 = Inr c" "cm_claim c = ADEQUATE_CLAIM"
    by blast
  from adequate_claim_earned[OF c] c show ?thesis by blast
qed

text \<open>Trial registration counts: a registered trial is one more row with the next number, and the deflated
  Sharpe ratio the registry then gives for the same evidence is never higher; an unreadable registry registers
  nothing and gives no ratio.\<close>

theorem trial_count_penalises:
  assumes "quantile_ok z" and "mono phi" and "register_trial h now ats variant notes metric reg = (reg', Inr t)"
  shows "\<exists>n. trial_count reg = Inr n \<and> trial_count reg' = Inr (n + 1) \<and> tl_n_trials t = JInt (n + 1)
      \<and> tr_file reg' = tr_file reg @ [Some (trial_row t)] \<and> None \<notin> set (tr_file reg)
      \<and> (\<forall>sharpe obs. case (registry_deflated_sharpe (\<lambda>s n obs. deflated_sharpe z phi s n obs 0 3) reg sharpe obs,
                             registry_deflated_sharpe (\<lambda>s n obs. deflated_sharpe z phi s n obs 0 3) reg' sharpe obs) of
            (Inr before, Inr after) \<Rightarrow> after \<le> before | _ \<Rightarrow> True)"
proof -
  obtain n where n: "trial_count reg = Inr n" "trial_count reg' = Inr (n + 1)" "tl_n_trials t = JInt (n + 1)"
    "tr_file reg' = tr_file reg @ [Some (trial_row t)]" using register_trial_grows[OF assms(3)] by blast
  then have "None \<notin> set (tr_file reg)" by (simp add: trial_count_Inr)
  with n show ?thesis using registry_sharpe_falls[OF assms] by (auto split: sum.split)
qed

definition ex_registry :: TrialRegistry where
  "ex_registry = \<lparr>tr_file = [Some (JObj [])], tr_audit = Some []\<rparr>"

lemma trial_count_penalises_example:
  "\<exists>reg' t. register_trial (\<lambda>_ _. ''0'') ex_now ''2026-03-02'' ''orb-5m'' '''' (Some [(''sharpe'', JInt 1)]) ex_registry = (reg', Inr t)
     \<and> trial_count reg' = Inr 2 \<and> tl_n_trials t = JInt 2"
proof -
  let ?r = "register_trial (\<lambda>_ _. ''0'') ex_now ''2026-03-02'' ''orb-5m'' '''' (Some [(''sharpe'', JInt 1)]) ex_registry"
  have "\<not> isl (snd ?r)"
    by (simp add: register_trial_def ex_registry_def trial_count_def registry_rows_def clean_metric_def finite_num_def
        ledger_append_def next_row_def tail_hash_def read_ledger_def Let_def)
  then have "?r = (fst ?r, Inr (projr (snd ?r)))" by (metis prod.collapse sum.collapse(2))
  then obtain reg' t where r: "?r = (reg', Inr t)" by metis
  have "mono (\<lambda>x :: real. x)" "quantile_ok (\<lambda>p. p - 1 / 2)" by (simp_all add: mono_def quantile_ok_def)
  from trial_count_penalises[OF this(2,1) r] r show ?thesis
    by (auto simp: trial_count_def registry_rows_def ex_registry_def)
qed

text \<open>The paired comparison is fair: swapping the sleeves mirrors the mean difference and its interval and
  leaves the verdict; the interval is ordered and lies, like the mean, between the smallest and the largest
  daily difference.\<close>

theorem comparison_fair:
  assumes "rng_ok r" and "paired_comparison r a b k g = Inr c"
    and "\<And>i. i < length a \<Longrightarrow> l \<le> a ! i - b ! i \<and> a ! i - b ! i \<le> u"
  shows "l \<le> pc_ci_low c \<and> pc_ci_low c \<le> pc_ci_high c \<and> pc_ci_high c \<le> u \<and> l \<le> pc_mean_diff c \<and> pc_mean_diff c \<le> u
    \<and> (pc_excludes_zero c \<longleftrightarrow> 0 < pc_ci_low c \<or> pc_ci_high c < 0)
    \<and> (\<exists>c'. paired_comparison r b a k g = Inr c' \<and> pc_mean_diff c' = - pc_mean_diff c \<and> pc_ci_low c' = - pc_ci_high c
         \<and> pc_ci_high c' = - pc_ci_low c \<and> pc_excludes_zero c' = pc_excludes_zero c)"
  using paired_comparison_between[OF assms] paired_comparison_swap[OF assms(1,2)] by blast

lemma comparison_fair_example:
  "\<exists>c. paired_comparison ex_rng [3, 5] [1, 2] 2000 () = Inr c \<and> 2 \<le> pc_ci_low c \<and> pc_ci_high c \<le> 3 \<and> pc_excludes_zero c"
proof -
  obtain c where c: "paired_comparison ex_rng [3, 5] [1, 2] 2000 () = Inr c"
    using paired_comparison_returns[of "[3, 5]" "[1, 2]" 2000 ex_rng "()"] by auto
  have "2 \<le> ([3, 5] :: real list) ! i - [1, 2] ! i \<and> ([3, 5] :: real list) ! i - [1, 2] ! i \<le> 3" if "i < length [3, 5 :: real]" for i
    using that by (auto simp: less_Suc_eq nth_Cons split: nat.splits)
  from comparison_fair[OF ex_rng_ok c this] c show ?thesis by auto
qed

text \<open>The validation gates fail closed: all five pass exactly when a deflated Sharpe ratio of at least 0.95
  was computed from at least two observations, a series of at least 32 returns gave a probability of
  over-fitting of at most 0.05, there are 50 trades, six months out of sample and a recorded trial.\<close>

theorem gates_pass_iff:
  "list_all (\<lambda>g. vg_passed g = Some True) (validation_gates z phi s n obs trades months returns) \<longleftrightarrow>
     1 \<le> n \<and> 2 \<le> obs \<and> 50 \<le> trades \<and> 6 \<le> months
     \<and> (\<exists>d p xs. deflated_sharpe z phi s n obs 0 3 = Inr d \<and> 95 / 100 \<le> d \<and> returns = Some xs
          \<and> probability_of_backtest_overfitting xs 8 1 = Inr (Some p) \<and> p \<le> 5 / 100 \<and> 32 \<le> length xs)"
proof
  assume "list_all (\<lambda>g. vg_passed g = Some True) (validation_gates z phi s n obs trades months returns)"
  then show "1 \<le> n \<and> 2 \<le> obs \<and> 50 \<le> trades \<and> 6 \<le> months
     \<and> (\<exists>d p xs. deflated_sharpe z phi s n obs 0 3 = Inr d \<and> 95 / 100 \<le> d \<and> returns = Some xs
          \<and> probability_of_backtest_overfitting xs 8 1 = Inr (Some p) \<and> p \<le> 5 / 100 \<and> 32 \<le> length xs)"
    by (intro gates_all_pass) (simp add: list_all_iff)
qed (auto simp: validation_gates_def Let_def value_of_def DSR_THRESHOLD_def PBO_THRESHOLD_def
    GATE_MIN_TRADES_def GATE_MIN_OOS_MONTHS_def)



end
