(* ===== verification/McpTools.thy ===== *)
theory McpTools
  imports JsonText
begin

text \<open>
  \<open>signald/mcp/tools.py\<close> and the redaction of \<open>signald/mcp/server.py\<close>: the tool table and its
  toolsets, the refusal of numbers a language model wrote, and what an outbound payload may carry.
  \<open>json.dumps\<close> of a tool's schema is the argument \<open>dumps\<close>.
\<close>

section \<open>The tool table\<close>

definition TOOLSETS :: "string list" where
  "TOOLSETS = [''read'', ''simulate'', ''propose'', ''mutate'', ''config'', ''safety'']"

definition LLM_ALLOWED_AUTHORING_FIELDS :: "string list" where
  "LLM_ALLOWED_AUTHORING_FIELDS = [''symbol'', ''side'', ''intent'', ''rationale'']"

definition LLM_FORBIDDEN_NUMERIC_FIELDS :: "string list" where
  "LLM_FORBIDDEN_NUMERIC_FIELDS =
     [''qty'', ''quantity'', ''shares'', ''size'', ''size_pct'', ''price'', ''entry_px'', ''entry_price'', ''limit_price'',
      ''avg_price'', ''fill_price'', ''stop'', ''stop_price'', ''stop_loss'', ''stop_distance'', ''target'', ''target_price'',
      ''take_profit'', ''notional'', ''target_notional'', ''notional_usd'', ''order_notional'', ''risk_pct'',
      ''requested_risk_pct'', ''risk_per_trade_pct'', ''allocation'', ''allocation_pct'', ''target_weight'', ''weight'',
      ''capital_pct'', ''leverage'', ''exposure'']"

record ToolSpec =
  ts_name :: string
  ts_class :: string
  ts_description :: string
  ts_properties :: "(string \<times> string) list" \<comment> \<open>the arguments and their declared types\<close>
  ts_required :: "string list"
  ts_read_only :: bool
  ts_destructive :: bool
  ts_idempotent :: bool
  ts_open_world :: bool
  ts_approval :: string
  ts_toolset :: string

definition input_schema :: "ToolSpec \<Rightarrow> json" where
  "input_schema t = JObj
     ([(''type'', JStr ''object''),
       (''properties'', JObj (map (\<lambda>(k, ty). (k, JObj [(''type'', JStr ty)])) (ts_properties t)))]
      @ (if ts_required t = [] then [] else [(''required'', JList (map JStr (ts_required t)))]))"

definition read_tool :: "string \<Rightarrow> string \<Rightarrow> (string \<times> string) list \<Rightarrow> string list \<Rightarrow> ToolSpec" where
  "read_tool name description properties required =
     \<lparr>ts_name = name, ts_class = ''read'', ts_description = description, ts_properties = properties,
      ts_required = required, ts_read_only = True, ts_destructive = False, ts_idempotent = True,
      ts_open_world = False, ts_approval = ''no'', ts_toolset = ''read''\<rparr>"

definition authoring :: "(string \<times> string) list" where
  "authoring = map (\<lambda>k. (k, ''string'')) [''symbol'', ''side'', ''intent'', ''rationale'']"

definition TOOL_TABLE :: "ToolSpec list" where
  "TOOL_TABLE =
     [read_tool ''get_account_state'' ''Read-only: cash, equity, buying power and IML/IMD state.'' [] [],
      read_tool ''get_positions'' ''Read-only: open positions, reconstructed from fills.'' [] [],
      read_tool ''get_open_orders'' ''Read-only: working orders and their protective legs.'' [] [],
      read_tool ''get_signal_latest'' ''Read-only: the latest signal envelope for one symbol.''
        [(''symbol'', ''string'')] [''symbol''],
      read_tool ''get_risk_state'' ''Read-only: ES/CVaR usage, heat, drawdown rung and vol scalar.'' [] [],
      read_tool ''get_sleeve_allocation''
        ''Read-only: per-sleeve ceiling, deployed percentage and scorecard summary.'' [] [],
      \<lparr>ts_name = ''simulate_order'', ts_class = ''dry_run'',
       ts_description = ''Dry-run: full house-gate evaluation with no side effects; the only way to '' @
         ''test an idea. An LLM payload carries symbol/side/intent/rationale and no '' @ ''numeric trading field.'',
       ts_properties = authoring, ts_required = [''symbol'', ''side'', ''intent''], ts_read_only = True,
       ts_destructive = False, ts_idempotent = True, ts_open_world = False, ts_approval = ''no'',
       ts_toolset = ''simulate''\<rparr>,
      \<lparr>ts_name = ''propose_order'', ts_class = ''write_intent'',
       ts_description = ''Write-intent: creates an immutable hash-pinned pending proposal; it cannot '' @
         ''fill. An LLM payload carries symbol/side/intent/rationale and no numeric '' @
         ''trading field; a BLOCK verdict creates no proposal.'',
       ts_properties = authoring, ts_required = [''symbol'', ''side'', ''intent''], ts_read_only = False,
       ts_destructive = False, ts_idempotent = False, ts_open_world = False, ts_approval = ''no'',
       ts_toolset = ''propose''\<rparr>,
      \<lparr>ts_name = ''submit_order'', ts_class = ''mutating'',
       ts_description = ''Mutating: submits an approved proposal. The approval must be single-use, '' @
         ''unexpired and bound to the proposal payload hash; a modified proposal is a '' @ ''different proposal.'',
       ts_properties = [(''proposal_id'', ''string''), (''approval_id'', ''string'')],
       ts_required = [''proposal_id'', ''approval_id''], ts_read_only = False, ts_destructive = True,
       ts_idempotent = False, ts_open_world = True, ts_approval = ''yes'', ts_toolset = ''mutate''\<rparr>,
      \<lparr>ts_name = ''cancel_order'', ts_class = ''mutating'',
       ts_description = ''Mutating: cancels a working order; requires an approval token.'',
       ts_properties = [(''order_id'', ''string''), (''approval_id'', ''string'')],
       ts_required = [''order_id'', ''approval_id''], ts_read_only = False, ts_destructive = True,
       ts_idempotent = True, ts_open_world = True, ts_approval = ''yes'', ts_toolset = ''mutate''\<rparr>,
      \<lparr>ts_name = ''halt_trading'', ts_class = ''safety'',
       ts_description = ''Safety: the kill switch - cancels working orders, flattens and latches HALT. '' @
         ''Never gated and allowed even when its toolset was not listed.'',
       ts_properties = [], ts_required = [], ts_read_only = False, ts_destructive = False, ts_idempotent = True,
       ts_open_world = False, ts_approval = ''always'', ts_toolset = ''safety''\<rparr>,
      \<lparr>ts_name = ''set_sleeve_allocation'', ts_class = ''config'',
       ts_description = ''Config: sets a sleeve capital ceiling. Operator-only; requires an '' @ ''operator approval token.'',
       ts_properties = [(''sleeve'', ''string''), (''capital_pct'', ''number''), (''approval_id'', ''string'')],
       ts_required = [''sleeve'', ''capital_pct'', ''approval_id''], ts_read_only = False, ts_destructive = True,
       ts_idempotent = True, ts_open_world = False, ts_approval = ''yes'', ts_toolset = ''config''\<rparr>]"

definition parse_toolsets :: "string \<Rightarrow> string list res" where
  "parse_toolsets text =
     (let names = filter (\<lambda>s. s \<noteq> []) (map (str_lower \<circ> strip) (split_on CHR '','' text)) in
      if set names \<subseteq> set TOOLSETS then Inr names else Inl ValueError)"

definition tools_for :: "string \<Rightarrow> ToolSpec list res" where
  "tools_for text = rmap (\<lambda>wanted. filter (\<lambda>t. ts_toolset t \<in> set wanted) TOOL_TABLE) (parse_toolsets text)"

definition tool_named :: "string \<Rightarrow> ToolSpec option" where
  "tool_named name = List.find (\<lambda>t. ts_name t = name) TOOL_TABLE"

definition description_hash :: "json_hash \<Rightarrow> (json \<Rightarrow> string) \<Rightarrow> ToolSpec \<Rightarrow> string" where
  "description_hash h dumps t =
     sha256_of h (JStr (ts_name t @ ts_description t @ dumps (canon (input_schema t))))"

definition assert_descriptions_unchanged :: "json_hash \<Rightarrow> (json \<Rightarrow> string) \<Rightarrow> (string \<times> string) list \<Rightarrow> unit res" where
  "assert_descriptions_unchanged h dumps pinned =
     (if \<forall>(name, pin) \<in> set pinned. map_option (description_hash h dumps) (tool_named name) = Some pin
      then Inr () else Inl ValueError)"

section \<open>Numbers a model wrote\<close>

fun numeric_like :: "json \<Rightarrow> bool" where
  "numeric_like (JInt _) = True"
| "numeric_like (JFloat _) = True"
| "numeric_like (JStr s) = (float_of_text (strip s) \<noteq> None)"
| "numeric_like _ = False"

definition offending :: "string \<Rightarrow> json \<Rightarrow> bool" where
  "offending name v \<longleftrightarrow>
     (let lowered = str_lower (strip name) in
      lowered \<notin> set LLM_ALLOWED_AUTHORING_FIELDS
      \<and> (lowered \<in> set LLM_FORBIDDEN_NUMERIC_FIELDS \<or> numeric_like v))"

fun numeric_key_in :: "json \<Rightarrow> string option" where
  "numeric_key_in (JObj []) = None"
| "numeric_key_in (JObj ((k, v) # d)) =
     (if offending k v then Some k
      else (case numeric_key_in v of Some n \<Rightarrow> Some n | None \<Rightarrow> numeric_key_in (JObj d)))"
| "numeric_key_in (JList []) = None"
| "numeric_key_in (JList (v # vs)) = (case numeric_key_in v of Some n \<Rightarrow> Some n | None \<Rightarrow> numeric_key_in (JList vs))"
| "numeric_key_in _ = None"

definition refuses_llm_numbers :: "json \<Rightarrow> string option" where
  "refuses_llm_numbers payload = numeric_key_in payload"

section \<open>Redaction\<close>

fun occurs :: "string \<Rightarrow> string \<Rightarrow> bool" where
  "occurs p [] \<longleftrightarrow> p = []"
| "occurs p (c # cs) \<longleftrightarrow> take (length p) (c # cs) = p \<or> occurs p cs"

definition ends_with :: "string \<Rightarrow> string \<Rightarrow> bool" where
  \<comment> \<open>the end of a match: of the text, or before its final newline\<close>
  "ends_with p s \<longleftrightarrow> (\<exists>t \<in> {s} \<union> (if s \<noteq> [] \<and> last s = CHR 0x0A then {butlast s} else {}).
     length p \<le> length t \<and> drop (length t - length p) t = p)"

definition secret_key :: "string \<Rightarrow> bool" where
  "secret_key key \<longleftrightarrow>
     (let k = str_lower key in
      occurs ''secret'' k \<or> occurs ''password'' k \<or> occurs ''signing'' k
      \<or> k = ''key'' \<or> k = ''key'' @ [CHR 0x0A] \<or> ends_with ''_key'' k)"

fun redact :: "json \<Rightarrow> json" and redact_items :: "(string \<times> json) list \<Rightarrow> (string \<times> json) list"
  and redact_list :: "json list \<Rightarrow> json list" where
  "redact (JObj d) = JObj (redact_items d)"
| "redact (JList vs) = JList (redact_list vs)"
| "redact JNull = JNull" | "redact (JBool b) = JBool b" | "redact (JInt n) = JInt n"
| "redact (JFloat x) = JFloat x" | "redact (JStr s) = JStr s"
| "redact_items [] = []"
| "redact_items ((k, v) # d) = (if secret_key k then redact_items d else (k, redact v) # redact_items d)"
| "redact_list [] = []"
| "redact_list (v # vs) = redact v # redact_list vs"

section \<open>What passes\<close>

fun secret_free :: "json \<Rightarrow> bool" and items_free :: "(string \<times> json) list \<Rightarrow> bool" and list_free :: "json list \<Rightarrow> bool" where
  "secret_free (JObj d) = items_free d"
| "secret_free (JList vs) = list_free vs"
| "secret_free JNull = True" | "secret_free (JBool b) = True" | "secret_free (JInt n) = True"
| "secret_free (JFloat x) = True" | "secret_free (JStr s) = True"
| "items_free [] = True"
| "items_free ((k, v) # d) = (\<not> secret_key k \<and> secret_free v \<and> items_free d)"
| "list_free [] = True"
| "list_free (v # vs) = (secret_free v \<and> list_free vs)"

lemma redact_secret_free:
  "secret_free (redact v)" "items_free (redact_items d)" "list_free (redact_list vs)"
  by (induction v and d and vs rule: redact_redact_items_redact_list.induct) simp_all

lemma redact_id:
  "secret_free v \<Longrightarrow> redact v = v" "items_free d \<Longrightarrow> redact_items d = d" "list_free vs \<Longrightarrow> redact_list vs = vs"
  by (induction v and d and vs rule: redact_redact_items_redact_list.induct) simp_all

lemma redact_idem: "redact (redact v) = redact v"
  by (rule redact_id(1)[OF redact_secret_free(1)])

fun number_free :: "json \<Rightarrow> bool" where
  \<comment> \<open>no object of the value has an offending key, however deep\<close>
  "number_free (JObj d) = (\<forall>(k, v) \<in> set d. \<not> offending k v \<and> number_free v)"
| "number_free (JList vs) = (\<forall>v \<in> set vs. number_free v)"
| "number_free _ = True"

lemma numeric_key_in_None: "numeric_key_in v = None \<longleftrightarrow> number_free v"
  by (induction v rule: numeric_key_in.induct) (auto split: option.splits)

lemma number_in_list_passes: "numeric_key_in (JObj [(''symbol'', JStr ''AAPL''), (''legs'', JList [JInt 100])]) = None"
  by (simp add: offending_def LLM_ALLOWED_AUTHORING_FIELDS_def LLM_FORBIDDEN_NUMERIC_FIELDS_def Let_def
      str_lower_def char_lower_def strip_def is_space_def)

lemma tools_for_toolset: "tools_for text = Inr ts \<Longrightarrow> t \<in> set ts \<Longrightarrow>
    t \<in> set TOOL_TABLE \<and> (\<exists>ns. parse_toolsets text = Inr ns \<and> ts_toolset t \<in> set ns)"
  by (auto simp: tools_for_def rmap_Inr_iff)

lemma tool_namedD: "tool_named name = Some t \<Longrightarrow> t \<in> set TOOL_TABLE \<and> ts_name t = name"
  by (auto simp: tool_named_def find_Some_iff)

end
