(* ===== verification/Outbound.thy ===== *)
theory Outbound
  imports McpTools SignalGates Signing
begin

text \<open>
  The two clients of outside services: \<open>signald/alpaca_ref.py\<close> (reference data, over its transport seam)
  and \<open>signald/notifier.py\<close> (best-effort dispatch and the events it builds). The transports are
  arguments and may raise; the SDK of the broker and the text of a Discord card are left out.
\<close>

section \<open>Reference data\<close>

type_synonym ref_transport = "string \<Rightarrow> string \<Rightarrow> (string \<times> json) list option res"

definition ref_num :: "json \<Rightarrow> pyfloat option" where
  \<comment> \<open>\<open>_num\<close>: what does not convert is absent\<close>
  "ref_num v = (if v = JNull then None else (case float_of_json v of Inr x \<Rightarrow> Some x | Inl _ \<Rightarrow> None))"

definition ref_call :: "ref_transport \<Rightarrow> string \<Rightarrow> string \<Rightarrow> (string \<times> json) list res" where
  \<comment> \<open>\<open>ReferenceUnavailable\<close> is \<open>OtherError\<close>\<close>
  "ref_call tr method ticker =
     rbind (tr method ticker) (\<lambda>out. case out of None \<Rightarrow> Inl OtherError | Some d \<Rightarrow> Inr d)"

definition ref_parse_ts :: "(json \<Rightarrow> string) \<Rightarrow> json \<Rightarrow> datetime option" where
  \<comment> \<open>\<open>fromisoformat(s).replace(tzinfo=None)\<close>\<close>
  "ref_parse_ts rp v =
     (if \<not> json_truthy v then None
      else map_option (\<lambda>t. t\<lparr>utc_off := None\<rparr>) (parse_stamp (py_str rp v)))"

definition opt_bool :: "json \<Rightarrow> bool option" where
  "opt_bool v = (if v = JNull then None else Some (json_truthy v))"

definition ref_stale :: "pyfloat \<Rightarrow> datetime \<Rightarrow> datetime option \<Rightarrow> bool" where
  \<comment> \<open>\<open>now\<close> is naive UTC; a quote without a stamp is not stale\<close>
  "ref_stale limit now ts =
     (case ts of None \<Rightarrow> False | Some t \<Rightarrow> limit < total_seconds (wall_us now - wall_us t))"

definition held_of :: "(json \<Rightarrow> string) \<Rightarrow> json \<Rightarrow> string list option res" where
  "held_of rp v =
     (if v = JNull then Inr None
      else rmap (\<lambda>xs. Some (map (str_upper \<circ> py_str rp) xs)) (list_of_json v))"

definition ref_snapshot :: "(json \<Rightarrow> string) \<Rightarrow> ref_transport \<Rightarrow> pyfloat \<Rightarrow> datetime \<Rightarrow> string \<Rightarrow> RefData res" where
  "ref_snapshot rp tr limit now ticker =
     rbind (ref_call tr ''quote'' ticker) (\<lambda>qt.
     rbind (ref_call tr ''account'' ticker) (\<lambda>acct.
     rbind (ref_call tr ''clock'' ticker) (\<lambda>clk.
     rbind (ref_call tr ''asset'' ticker) (\<lambda>asset.
     rbind (ref_call tr ''positions'' ticker) (\<lambda>pos.
     rmap (\<lambda>held.
       (let ts = ref_parse_ts rp (jget qt ''ts'') in
        \<lparr>rf_last = ref_num (jget qt ''last''), rf_vwap = ref_num (jget qt ''vwap''),
         rf_spread_usd = ref_num (jget qt ''spread_usd''), rf_ts = ts,
         rf_feed = (if jget qt ''feed'' = JNull then None else Some (py_str rp (jget qt ''feed''))),
         rf_stale = ref_stale limit now ts, rf_cash = ref_num (jget acct ''cash''),
         rf_buying_power = ref_num (jget acct ''buying_power''), rf_equity = ref_num (jget acct ''equity''),
         rf_market_open = opt_bool (jget clk ''is_open''), rf_asset_tradable = opt_bool (jget asset ''tradable''),
         rf_positions_value = ref_num (jget pos ''positions_value''), rf_held_symbols = held\<rparr>))
       (held_of rp (jget pos ''symbols'')))))))"

definition clock_is_open :: "ref_transport \<Rightarrow> bool option res" where
  \<comment> \<open>only \<open>ReferenceUnavailable\<close> is caught\<close>
  "clock_is_open tr =
     (case ref_call tr ''clock'' [] of
        Inl OtherError \<Rightarrow> Inr None | Inl x \<Rightarrow> Inl x | Inr d \<Rightarrow> Inr (opt_bool (jget d ''is_open'')))"

lemma snapshot_fails_closed:
  assumes "m \<in> {''quote'', ''account'', ''clock'', ''asset'', ''positions''}" and "tr m ticker = Inr None"
  shows "\<exists>x. ref_snapshot rp tr limit now ticker = Inl x"
proof (cases "ref_snapshot rp tr limit now ticker")
  case (Inr r)
  then show ?thesis using assms by (auto simp: ref_snapshot_def ref_call_def rbind_Inr_iff rmap_Inr_iff split: option.splits)
qed simp

lemma snapshot_fields:
  assumes "ref_snapshot rp tr limit now ticker = Inr r"
  obtains qt acct clk asset pos where "tr ''quote'' ticker = Inr (Some qt)" "tr ''account'' ticker = Inr (Some acct)"
    "tr ''clock'' ticker = Inr (Some clk)" "tr ''asset'' ticker = Inr (Some asset)" "tr ''positions'' ticker = Inr (Some pos)"
    "rf_cash r = ref_num (jget acct ''cash'')" "rf_asset_tradable r = opt_bool (jget asset ''tradable'')"
    "rf_last r = ref_num (jget qt ''last'')" "rf_market_open r = opt_bool (jget clk ''is_open'')"
    "held_of rp (jget pos ''symbols'') = Inr (rf_held_symbols r)"
  using assms by (auto simp: ref_snapshot_def ref_call_def rbind_Inr_iff rmap_Inr_iff Let_def split: option.splits)

lemma offset_dropped:
  \<comment> \<open>the offset of a stamp is dropped, not applied: a quote of 12:00 UTC stamped 14:00+02:00 is still
      fresh at 13:30 UTC\<close>
  "fromisoformat ''2026-03-02T14:00:00+02:00'' = Some \<lparr>wall_us = w, utc_off = Some (2 * 3600000000)\<rparr> \<Longrightarrow>
     \<not> ref_stale (Fin 900) \<lparr>wall_us = w - 1800000000, utc_off = None\<rparr> (ref_parse_ts rp (JStr ''2026-03-02T14:00:00+02:00''))
     \<and> Fin 900 < total_seconds (utc_instant \<lparr>wall_us = w - 1800000000, utc_off = None\<rparr>
          - utc_instant \<lparr>wall_us = w, utc_off = Some (2 * 3600000000)\<rparr>)"
  by (simp add: ref_stale_def ref_parse_ts_def parse_stamp_def total_seconds_def utc_instant_def)

section \<open>Dispatch\<close>

record Notifier =
  nt_url :: string
  nt_retries :: nat
  nt_transport :: "(nat \<Rightarrow> json \<Rightarrow> unit res) option" \<comment> \<open>the n-th delivery of a payload\<close>
  nt_post :: "nat \<Rightarrow> string \<Rightarrow> json \<Rightarrow> unit res" \<comment> \<open>an HTTP POST, which may raise\<close>
  nt_card :: "json \<Rightarrow> json res" \<comment> \<open>\<open>discord_event\<close>\<close>

definition enabled :: "Notifier \<Rightarrow> bool" where
  "enabled n \<longleftrightarrow> nt_url n \<noteq> [] \<or> nt_transport n \<noteq> None"

definition deliver :: "Notifier \<Rightarrow> nat \<Rightarrow> json \<Rightarrow> unit res" where
  "deliver n k payload =
     (case nt_transport n of
        Some f \<Rightarrow> f k payload
      | None \<Rightarrow>
        (if nt_url n = [] then Inl OtherError
         else rbind (if occurs ''discord.com/api/webhooks'' (nt_url n) \<or> occurs ''discordapp.com/api/webhooks'' (nt_url n)
                     then nt_card n payload else Inr payload) (nt_post n k (nt_url n))))"

definition succeeds :: "unit res \<Rightarrow> bool" where
  "succeeds r \<longleftrightarrow> r = Inr ()"

function send_attempts :: "Notifier \<Rightarrow> json \<Rightarrow> nat \<Rightarrow> bool \<times> real list" where
  \<comment> \<open>from an attempt on: whether one succeeds, and the pauses between them\<close>
  "send_attempts n payload k =
     (if nt_retries n < k then (False, [])
      else if succeeds (deliver n k payload) then (True, [])
      else if k < nt_retries n then
        (let (ok, pauses) = send_attempts n payload (k + 1) in (ok, (1 / 4) * (of_nat k + 1) # pauses))
      else (False, []))"
  by auto
termination by (relation "measure (\<lambda>(n, payload, k). Suc (nt_retries n) - k)") auto

declare send_attempts.simps [simp del]

definition plain_json :: "(string \<times> pyval) list \<Rightarrow> json res" where
  \<comment> \<open>\<open>json.dumps(event)\<close>, and back\<close>
  "plain_json event =
     (if list_all (\<lambda>(k, v). case v of Plain _ \<Rightarrow> True | Opaque _ \<Rightarrow> False) event
      then Inr (JObj (map (\<lambda>(k, v). (k, body_value v)) event)) else Inl TypeError)"

definition send :: "Notifier \<Rightarrow> (string \<times> pyval) list \<Rightarrow> (bool \<times> real list) res" where
  "send n event =
     (if \<not> enabled n then Inr (True, [])
      else rmap (\<lambda>payload. send_attempts n payload 0) (plain_json event))"

section \<open>Events\<close>

definition signal_event :: "datetime \<Rightarrow> (string \<times> json) list \<Rightarrow> (string \<times> json) list res" where
  "signal_event now envelope =
     (case map_of envelope ''signal_id'' of None \<Rightarrow> Inl KeyError
      | Some sid \<Rightarrow> Inr [(''event'', JStr ''signal''), (''ts'', JStr (isoformat_seconds now)), (''signal_id'', sid),
          (''envelope'', JObj envelope)])"

definition mandate_candidate_event ::
  "datetime \<Rightarrow> string \<Rightarrow> json \<Rightarrow> json \<Rightarrow> json \<Rightarrow> json \<Rightarrow> json \<Rightarrow> json \<Rightarrow> (string \<times> json) list" where
  "mandate_candidate_event now ticker action rating decision_hash target_pct stop run_id =
     [(''event'', JStr ''mandate_candidate''), (''ts'', JStr (isoformat_seconds now)), (''ticker'', JStr (str_upper ticker)),
      (''action'', action), (''rating'', rating), (''decision_hash'', decision_hash), (''target_pct'', target_pct),
      (''stop'', stop), (''run_id'', run_id), (''command'', JStr (''signald mandate-add '' @ str_upper ticker))]"

definition monitor_event :: "datetime \<Rightarrow> string \<Rightarrow> json \<Rightarrow> json \<Rightarrow> json \<Rightarrow> json \<Rightarrow> (string \<times> json) list" where
  "monitor_event now ticker rating decision_hash binding_gate run_id =
     [(''event'', JStr ''monitor''), (''ts'', JStr (isoformat_seconds now)), (''ticker'', JStr (str_upper ticker)),
      (''action'', JStr ''HOLD''), (''rating'', rating), (''decision_hash'', decision_hash), (''binding_gate'', binding_gate),
      (''run_id'', run_id), (''note'', JStr ''recorded for monitoring; outside the mandate, so not tradable'')]"

definition error_event :: "datetime \<Rightarrow> string \<Rightarrow> string \<Rightarrow> (string \<times> json) list" where
  "error_event now source detail =
     [(''event'', JStr ''error''), (''ts'', JStr (isoformat_seconds now)), (''source'', JStr source), (''detail'', JStr detail)]"

definition kill_switch_event :: "datetime \<Rightarrow> string \<Rightarrow> string \<Rightarrow> (string \<times> json) list" where
  "kill_switch_event now episode reason =
     [(''event'', JStr ''kill_switch''), (''ts'', JStr (isoformat_seconds now)), (''episode'', JStr episode),
      (''reason'', JStr reason)]"

section \<open>What a dispatch does\<close>

lemma attempts_iff:
  "k \<le> Suc (nt_retries n) \<Longrightarrow>
     (fst (send_attempts n payload k) \<longleftrightarrow> (\<exists>i \<in> {k..nt_retries n}. succeeds (deliver n i payload)))
     \<and> length (snd (send_attempts n payload k)) \<le> nt_retries n - k"
proof (induction n payload k rule: send_attempts.induct)
  case (1 n payload k)
  consider "nt_retries n < k" | "k \<le> nt_retries n" "succeeds (deliver n k payload)"
    | "k < nt_retries n" "\<not> succeeds (deliver n k payload)" | "k = nt_retries n" "\<not> succeeds (deliver n k payload)" by linarith
  then show ?case
  proof cases
    case 3
    have "{k..nt_retries n} = insert k {Suc k..nt_retries n}" using 3 by auto
    then show ?thesis using "1.IH" 3 by (subst (1 2) send_attempts.simps) (simp add: split_def Let_def, linarith)
  qed (subst (1 2) send_attempts.simps, force)+
qed

lemma send_cases:
  assumes "enabled n" "send n event = Inr (ok, pauses)"
  obtains payload where "plain_json event = Inr payload"
    "ok \<longleftrightarrow> (\<exists>i \<le> nt_retries n. succeeds (deliver n i payload))" "length pauses \<le> nt_retries n"
proof -
  obtain payload where p: "plain_json event = Inr payload" "send_attempts n payload 0 = (ok, pauses)"
    using assms by (auto simp: send_def rmap_Inr_iff)
  have "(\<exists>i \<in> {0..nt_retries n}. succeeds (deliver n i payload)) = (\<exists>i \<le> nt_retries n. succeeds (deliver n i payload))"
    by auto
  then show thesis using that[OF p(1)] attempts_iff[of 0 n payload] p(2) by simp
qed

lemma send_raises:
  \<comment> \<open>the event is serialised before the guarded loop\<close>
  assumes "enabled n" and "(k, Opaque t) \<in> set event"
  shows "send n event = Inl TypeError"
  using assms by (force simp: send_def plain_json_def list_all_iff)

end
