(* ===== verification/LoadConfig.thy ===== *)
theory LoadConfig
  imports Outbound
begin

text \<open>
  \<open>load_config\<close> of \<open>signald/config.py\<close>: defaults, a \<open>.env\<close> file, the environment and keyword overrides to
  the values of the configuration's fields. The record they fill and its validation are in \<open>Config\<close>.
\<close>

section \<open>Names and kinds\<close>

datatype field_kind = KBool | KInt | KFloat | KText | KRaw \<comment> \<open>a path or an optional text: taken as it is\<close>

datatype setting = SBool bool | SInt int | SFloat pyfloat | SText string

definition PREFIX :: string where "PREFIX = ''TRADINGEXEC_''"
definition ALPACA_PREFIX :: string where "ALPACA_PREFIX = ''ALPACA_''"

definition ALIASES :: "(string \<times> string) list" where
  "ALIASES =
     [(''api_key'', ''alpaca_key''), (''api_key_id'', ''alpaca_key''), (''secret'', ''alpaca_secret''),
      (''secret_key'', ''alpaca_secret''), (''api_secret'', ''alpaca_secret'')]"

definition FIELDS :: "(string \<times> field_kind) list" where
  "FIELDS =
     [(''watch_dir'', KRaw), (''data_dir'', KRaw), (''audit_file'', KRaw), (''journal_file'', KRaw),
      (''mandate_path'', KRaw), (''kill_switch_path'', KRaw), (''halt_latch_path'', KRaw), (''heartbeat_path'', KRaw),
      (''pid_file'', KRaw), (''inbox_file'', KRaw), (''dead_letter_dir'', KRaw), (''quarantine_dir'', KRaw),
      (''poll_seconds'', KFloat), (''watch_recursive'', KBool), (''latest_only'', KBool),
      (''ingest_window_hours'', KFloat), (''cooldown_hours'', KFloat), (''min_cash_reserve_usd'', KFloat),
      (''ref_required'', KBool), (''approval_threshold_factor'', KFloat), (''notifier_url'', KRaw),
      (''notifier_timeout_s'', KFloat), (''notifier_retries'', KInt), (''alpaca_key'', KRaw),
      (''alpaca_secret'', KRaw), (''alpaca_paper'', KBool), (''dry_run'', KBool), (''mode'', KText),
      (''sleeve_swing_capital_pct'', KFloat), (''sleeve_intraday_capital_pct'', KFloat),
      (''sleeve_swing_vol_target'', KFloat), (''sleeve_intraday_vol_target'', KFloat),
      (''intraday_reserve_to_swing'', KBool), (''risk_per_trade_intraday_pct'', KFloat),
      (''risk_per_trade_swing_pct'', KFloat), (''max_heat_pct'', KFloat), (''max_positions_intraday'', KInt),
      (''max_positions_swing'', KInt), (''max_single_name_pct_swing'', KFloat),
      (''max_single_name_pct_intraday'', KFloat), (''max_adv_pct'', KFloat), (''cluster_cap_pct'', KFloat),
      (''es_budget_sleeve_pct'', KFloat), (''es_budget_house_pct'', KFloat), (''es_confidence'', KFloat),
      (''es_backtest_days'', KInt), (''daily_loss_soft_pct'', KFloat), (''daily_loss_hard_pct'', KFloat),
      (''derisk_5d_pct'', KFloat), (''derisk_dd_pct'', KFloat), (''derisk_halt_dd_pct'', KFloat),
      (''kelly_fraction'', KFloat), (''leverage_cap'', KFloat), (''vol_halflife_days'', KFloat),
      (''vol_warmup_days'', KInt), (''vol_scale_cap'', KFloat), (''vol_rebalance_band'', KFloat),
      (''stress_correlation'', KFloat), (''scan_rth_only'', KBool), (''close_window_minutes'', KInt),
      (''scan_confirm_broker_clock'', KBool), (''intraday_enabled'', KBool), (''intraday_entry_after'', KText),
      (''intraday_entry_before'', KText), (''intraday_flat_by'', KText), (''intraday_max_trades_per_name'', KInt),
      (''opening_range_minutes'', KInt), (''rvol_min'', KFloat), (''rvol_top_n'', KInt), (''min_price'', KFloat),
      (''min_adv_shares'', KInt), (''min_atr'', KFloat), (''adx_trend'', KFloat), (''adx_range'', KFloat),
      (''stop_atr_mult'', KFloat), (''stop_mae_pctl'', KFloat), (''cost_gate_multiple'', KFloat),
      (''cost_liquid_bps'', KFloat), (''cost_lowfloat_bps'', KFloat), (''data_feed'', KText),
      (''max_quote_staleness_s'', KFloat), (''max_bar_staleness_s'', KFloat), (''clock_max_offset_ms'', KFloat),
      (''api_enabled'', KBool), (''api_bind'', KText), (''api_key_id'', KRaw), (''api_signing_secret'', KRaw),
      (''api_replay_window_s'', KFloat), (''approval_ttl_s'', KFloat), (''mcp_enabled'', KBool), (''mcp_bind'', KText),
      (''mcp_toolsets'', KText), (''trial_registry'', KRaw), (''backup_dir'', KRaw), (''now_fn'', KRaw),
      (''transport'', KRaw)]"

section \<open>Reading\<close>

definition partition_at :: "char \<Rightarrow> string \<Rightarrow> string \<times> string" where
  \<comment> \<open>\<open>line.partition(c)\<close>, without the separator\<close>
  "partition_at c s = (takeWhile (\<lambda>x. x \<noteq> c) s, drop 1 (dropWhile (\<lambda>x. x \<noteq> c) s))"

definition env_line :: "string \<Rightarrow> (string \<times> string) option" where
  "env_line raw =
     (let line = strip raw in
      if line = [] \<or> take 1 line = ''#'' \<or> CHR ''='' \<notin> set line then None
      else (let (k, v) = partition_at CHR ''='' line in Some (strip k, strip v)))"

definition has_prefix :: "string \<Rightarrow> string \<Rightarrow> bool" where
  "has_prefix p k \<longleftrightarrow> take (length p) k = p"

definition ours :: "string \<Rightarrow> bool" where
  "ours k \<longleftrightarrow> has_prefix PREFIX k \<or> has_prefix ALPACA_PREFIX k"

definition env_values :: "string list option \<Rightarrow> (string \<times> string) list \<Rightarrow> (string \<times> string) list" where
  \<comment> \<open>the lines of the file, then the environment over them\<close>
  "env_values file environ =
     foldl (\<lambda>d (k, v). AList.update k v d) []
       (List.map_filter env_line (case file of None \<Rightarrow> [] | Some ls \<Rightarrow> ls) @ filter (\<lambda>(k, v). ours k) environ)"

definition field_of :: "string \<Rightarrow> string option" where
  \<comment> \<open>the field a key sets: Alpaca's own names are translated for its prefix only\<close>
  "field_of k =
     (if has_prefix PREFIX k then Some (str_lower (drop (length PREFIX) k))
      else if has_prefix ALPACA_PREFIX k
      then (let key = str_lower (drop (length ALPACA_PREFIX) k) in
        Some (case map_of ALIASES key of None \<Rightarrow> key | Some f \<Rightarrow> f))
      else None)"

definition parse_bool :: "string \<Rightarrow> bool" where
  "parse_bool v \<longleftrightarrow> str_lower (strip v) \<in> {''1'', ''true'', ''yes'', ''on''}"

definition convert :: "field_kind \<Rightarrow> string \<Rightarrow> setting res" where
  "convert k v =
     (case k of
        KBool \<Rightarrow> Inr (SBool (parse_bool v))
      | KInt \<Rightarrow> (case int_of_text v of Some n \<Rightarrow> Inr (SInt n) | None \<Rightarrow> Inl ValueError)
      | KFloat \<Rightarrow> (case float_of_text v of Some x \<Rightarrow> Inr (SFloat x) | None \<Rightarrow> Inl ValueError)
      | _ \<Rightarrow> Inr (SText v))"

fun map_fields :: "(string \<times> string) list \<Rightarrow> (string \<times> setting) list \<Rightarrow> (string \<times> setting) list res" where
  "map_fields [] acc = Inr acc"
| "map_fields ((k, v) # kvs) acc =
     (case field_of k of
        None \<Rightarrow> map_fields kvs acc
      | Some f \<Rightarrow> (case map_of FIELDS f of
            None \<Rightarrow> map_fields kvs acc
          | Some ty \<Rightarrow> rbind (convert ty v) (\<lambda>x. map_fields kvs (AList.update f x acc))))"

definition load_settings ::
  "string list option \<Rightarrow> (string \<times> string) list \<Rightarrow> (string \<times> setting option) list \<Rightarrow> (string \<times> setting) list res" where
  \<comment> \<open>an override of \<open>None\<close> is none\<close>
  "load_settings file environ overrides =
     rmap (\<lambda>d. foldl (\<lambda>d (k, v). AList.update k v d) d
         (List.map_filter (\<lambda>(k, v). map_option (Pair k) v) overrides))
       (map_fields (env_values file environ) [])"

section \<open>What the settings are\<close>

fun of_kind :: "field_kind \<Rightarrow> setting \<Rightarrow> bool" where
  "of_kind KBool (SBool _) = True"
| "of_kind KInt (SInt _) = True"
| "of_kind KFloat (SFloat _) = True"
| "of_kind KText (SText _) = True"
| "of_kind KRaw (SText _) = True"
| "of_kind _ _ = False"

definition well_kinded :: "(string \<times> setting) list \<Rightarrow> bool" where
  "well_kinded d \<longleftrightarrow> (\<forall>(f, x) \<in> set d. \<exists>ty. map_of FIELDS f = Some ty \<and> of_kind ty x)"

lemma convert_kind: "convert ty v = Inr x \<Longrightarrow> of_kind ty x"
  by (cases ty) (auto simp: convert_def split: option.splits)

lemma update_set: "set (AList.update k v d) \<subseteq> insert (k, v) (set d)"
  by (induction d) auto

lemma well_kinded_update:
  "well_kinded d \<Longrightarrow> map_of FIELDS f = Some ty \<Longrightarrow> of_kind ty x \<Longrightarrow> well_kinded (AList.update f x d)"
  using update_set[of f x d] unfolding well_kinded_def by fastforce

lemma map_fields_kinds: "map_fields kvs acc = Inr d \<Longrightarrow> well_kinded acc \<Longrightarrow> well_kinded d"
proof (induction kvs arbitrary: acc)
  case (Cons kv kvs)
  obtain k v where kv: "kv = (k, v)" by (cases kv)
  consider "map_fields kvs acc = Inr d"
    | f ty x where "map_of FIELDS f = Some ty" "convert ty v = Inr x" "map_fields kvs (AList.update f x acc) = Inr d"
    using Cons.prems(1) by (auto simp: kv rbind_Inr_iff split: option.splits)
  then show ?case
  proof cases
    case 2
    show ?thesis by (rule Cons.IH[OF 2(3) well_kinded_update[OF Cons.prems(2) 2(1) convert_kind[OF 2(2)]]])
  qed (use Cons in blast)
qed simp

lemma foldl_update_last:
  "map_of (foldl (\<lambda>d (k, v). AList.update k v d) d kvs) f = (case map_of (rev kvs) f of None \<Rightarrow> map_of d f | Some v \<Rightarrow> Some v)"
  by (induction kvs rule: rev_induct) (auto simp: update_conv' split: option.splits)

lemma map_filter_overrides:
  "map_of (rev (List.map_filter (\<lambda>(k, v). map_option (Pair k) v) ov)) f = None \<longleftrightarrow> (\<forall>v. (f, Some v) \<notin> set ov)"
proof -
  have "set (List.map_filter (\<lambda>(k, v). map_option (Pair k) v) ov) = {(k, v). (k, Some v) \<in> set ov}"
    by (force simp: List.map_filter_def image_iff split: option.splits)
  then show ?thesis by (auto simp: map_of_eq_None_iff) force
qed

lemma load_settings_cases:
  assumes "load_settings file environ ov = Inr d"
  obtains base where "map_fields (env_values file environ) [] = Inr base" "well_kinded base"
    "\<And>f. (\<forall>v. (f, Some v) \<notin> set ov) \<Longrightarrow> map_of d f = map_of base f"
    "\<And>f v. map_of (rev ov) f = Some (Some v) \<Longrightarrow> distinct (map fst ov) \<Longrightarrow> map_of d f = Some v"
proof -
  obtain base where b: "map_fields (env_values file environ) [] = Inr base"
    "d = foldl (\<lambda>d (k, v). AList.update k v d) base (List.map_filter (\<lambda>(k, v). map_option (Pair k) v) ov)"
    using assms by (auto simp: load_settings_def rmap_Inr_iff)
  let ?ov = "List.map_filter (\<lambda>(k, v). map_option (Pair k) v) ov"
  have k: "well_kinded base" by (rule map_fields_kinds[OF b(1)]) (simp add: well_kinded_def)
  have n: "map_of d f = map_of base f" if "\<forall>v. (f, Some v) \<notin> set ov" for f
    using map_filter_overrides[of ov f] that unfolding b(2) foldl_update_last by simp
  have o: "map_of d f = Some v" if "map_of (rev ov) f = Some (Some v)" "distinct (map fst ov)" for f v
  proof -
    have fv: "(f, Some v) \<in> set ov" using that(1) by (auto dest: map_of_SomeD)
    then obtain w where w: "map_of (rev ?ov) f = Some w" using map_filter_overrides[of ov f] by fastforce
    then have "(f, w) \<in> set ?ov" by (auto dest: map_of_SomeD)
    then have "(f, Some w) \<in> set ov" by (auto simp: List.map_filter_def split: option.splits)
    then have "w = v" using fv that(2) by (auto dest: eq_key_imp_eq_value)
    then show ?thesis unfolding b(2) foldl_update_last w by simp
  qed
  show thesis by (rule that[OF b(1) k n o])
qed

section \<open>Where the documented behaviour differs\<close>

lemma misspelt_switch_is_off:
  \<comment> \<open>a truth value that is none reads as false, and the process starts\<close>
  "convert KBool ''ture'' = Inr (SBool False)" "map_of FIELDS ''dry_run'' = Some KBool"
  by (simp_all add: convert_def parse_bool_def str_lower_def char_lower_def strip_def is_space_def FIELDS_def)

lemma seams_from_environment:
  \<comment> \<open>the test seams are fields, and so can be set from the environment\<close>
  "field_of ''TRADINGEXEC_TRANSPORT'' = Some ''transport''" "map_of FIELDS ''transport'' = Some KRaw"
  by code_simp+

end
