(* ===== verification/ControlApi.thy ===== *)
theory ControlApi
  imports McpTools Signing RiskState
begin

text \<open>
  \<open>signald/api/server.py\<close>: the signed control API, as a function of one decoded request. The host's
  callables are functions to a result, which may be any exception; what they were called for is the log
  \<open>as_effects\<close>. \<open>json.loads\<close> of a body is the argument \<open>ca_loads\<close>, the test of an IP address for
  loopback \<open>ip_loopback\<close>; sockets and HTTP framing are left out.
\<close>

section \<open>Requests and routes\<close>

definition MAX_BODY_BYTES :: nat where
  "MAX_BODY_BYTES = 1024 * 1024"

record ApiRequest =
  hq_method :: string
  hq_path :: string
  hq_query :: "(string \<times> string) list"
  hq_body :: string
  hq_headers :: "(string \<times> string) list"

record Response =
  rs_status :: int
  rs_payload :: json

record ApiRoute =
  ro_name :: string
  ro_role :: string
  ro_sleeve :: "string option"

definition READ_ROUTES :: "((string \<times> string) \<times> string) list" where
  "READ_ROUTES =
     [((''GET'', ''/v1/state/account''), ''account''), ((''GET'', ''/v1/state/positions''), ''positions''),
      ((''GET'', ''/v1/state/risk''), ''risk''), ((''GET'', ''/v1/state/sleeves''), ''sleeves''),
      ((''GET'', ''/v1/signals/latest''), ''signal''), ((''GET'', ''/v1/orders/open''), ''orders'')]"

definition MUTATING_ROUTES :: "((string \<times> string) \<times> string \<times> string) list" where
  "MUTATING_ROUTES =
     [((''POST'', ''/v1/propose''), ''propose'', ''propose''), ((''POST'', ''/v1/simulate''), ''propose'', ''simulate''),
      ((''POST'', ''/v1/orders/submit''), ''execute'', ''submit''),
      ((''POST'', ''/v1/orders/cancel''), ''execute'', ''cancel''), ((''POST'', ''/v1/halt''), ''execute'', ''halt'')]"

definition letter :: "char \<Rightarrow> bool" where
  "letter c \<longleftrightarrow> (CHR ''A'' \<le> c \<and> c \<le> CHR ''Z'') \<or> (CHR ''a'' \<le> c \<and> c \<le> CHR ''z'')"

definition ceiling_sleeve :: "string \<Rightarrow> string option" where
  \<comment> \<open>\<open>_CEILING_RE.match(path).group("sleeve")\<close>: the pattern's end also matches before a final newline\<close>
  "ceiling_sleeve path =
     (let pre = ''/v1/sleeves/''; post = ''/ceiling'';
          text = (if path \<noteq> [] \<and> last path = CHR 0x0A then butlast path else path);
          mid = take (length text - length pre - length post) (drop (length pre) text) in
      if text = pre @ mid @ post \<and> mid \<noteq> [] \<and> list_all letter mid
      then Some mid else None)"

definition route :: "string \<Rightarrow> string \<Rightarrow> ApiRoute option" where
  "route method path =
     (case map_of READ_ROUTES (method, path) of
        Some name \<Rightarrow> Some \<lparr>ro_name = name, ro_role = ''read'', ro_sleeve = None\<rparr>
      | None \<Rightarrow>
        (case map_of MUTATING_ROUTES (method, path) of
           Some (role, name) \<Rightarrow> Some \<lparr>ro_name = name, ro_role = role, ro_sleeve = None\<rparr>
         | None \<Rightarrow>
           (if method = ''POST'' then
              (case ceiling_sleeve path of
                 Some sleeve \<Rightarrow> if sleeve \<in> set SLEEVES
                   then Some \<lparr>ro_name = ''ceiling'', ro_role = ''admin'', ro_sleeve = Some sleeve\<rparr> else None
               | None \<Rightarrow> None)
            else None)))"

section \<open>Binding\<close>

definition unbracket :: "string \<Rightarrow> string" where
  "unbracket host = (if take 1 host = ''['' \<and> host \<noteq> [] \<and> last host = CHR '']'' then butlast (drop 1 host) else host)"

definition is_loopback :: "(string \<Rightarrow> bool option) \<Rightarrow> string \<Rightarrow> bool" where
  \<comment> \<open>\<open>ip_loopback\<close> is \<open>None\<close> where the text is no address\<close>
  "is_loopback ip_loopback host \<longleftrightarrow> host = ''localhost'' \<or> ip_loopback (unbracket host) = Some True"

definition rpartition :: "char \<Rightarrow> string \<Rightarrow> (string \<times> string) option" where
  \<comment> \<open>the text before and after the last separator\<close>
  "rpartition c s =
     (if c \<in> set s
      then Some (rev (drop 1 (dropWhile (\<lambda>x. x \<noteq> c) (rev s))), rev (takeWhile (\<lambda>x. x \<noteq> c) (rev s))) else None)"

definition split_bind :: "(string \<Rightarrow> bool option) \<Rightarrow> string \<Rightarrow> (string \<times> int) res" where
  "split_bind ip_loopback bind =
     (case rpartition CHR '':'' bind of
        None \<Rightarrow> Inl ValueError
      | Some (host, port_text) \<Rightarrow>
        (if host = [] \<or> port_text = [] then Inl ValueError
         else (case int_of_text port_text of
             None \<Rightarrow> Inl ValueError
           | Some port \<Rightarrow> if \<not> is_loopback ip_loopback (unbracket host) then Inl ValueError
                         else Inr (unbracket host, port))))"

section \<open>The server\<close>

datatype api_effect = AHalt | ACeiling string json | ACall string json

record ControlApi =
  ca_auth :: authenticator
  ca_state :: "json res"
  ca_simulate :: "(json \<Rightarrow> json res) option"
  ca_propose :: "(json \<Rightarrow> json res) option"
  ca_submit :: "(json \<Rightarrow> json res) option"
  ca_cancel :: "(json \<Rightarrow> json res) option"
  ca_halt :: "json res option"
  ca_ceiling :: "(string \<Rightarrow> json \<Rightarrow> json res) option"
  ca_enabled :: bool
  ca_loads :: "string \<Rightarrow> json option"
  ca_text :: "json \<Rightarrow> string"
  ca_digest :: digest
  ca_audit_ts :: string

record api_state =
  as_auth :: auth_state
  as_audit :: "ledger option"
  as_effects :: "api_effect list"

definition text_or_null :: "string option \<Rightarrow> json" where
  "text_or_null t = (case t of None \<Rightarrow> JNull | Some s \<Rightarrow> JStr s)"

definition finish ::
  "ControlApi \<Rightarrow> ApiRequest \<Rightarrow> auth_result option \<Rightarrow> int \<Rightarrow> json \<Rightarrow> string \<Rightarrow> api_state \<Rightarrow> api_state \<times> Response res" where
  "finish api q auth status payload result s =
     (let answer = \<lparr>rs_status = status, rs_payload = payload\<rparr> in
      case as_audit s of None \<Rightarrow> (s, Inr answer)
      | Some f \<Rightarrow>
        (case ledger_append (ca_digest api) (ca_audit_ts api) ''api_request''
           (case auth of None \<Rightarrow> result | Some a \<Rightarrow> ar_reason a)
           [(''role'', Plain (case auth of None \<Rightarrow> JNull | Some a \<Rightarrow> text_or_null (ar_role a))),
            (''method'', Plain (JStr (hq_method q))), (''path'', Plain (JStr (hq_path q))),
            (''outcome'', Plain (JStr result)), (''status'', Plain (JInt status))] f of
           Inl x \<Rightarrow> (s, Inl x)
         | Inr f' \<Rightarrow> (s\<lparr>as_audit := Some f'\<rparr>, Inr answer)))"

definition error_body :: "string \<Rightarrow> json" where
  "error_body code = JObj [(''error'', JStr code)]"

definition api_fail :: "ControlApi \<Rightarrow> ApiRequest \<Rightarrow> auth_result option \<Rightarrow> int \<Rightarrow> string \<Rightarrow> api_state \<Rightarrow> api_state \<times> Response res" where
  "api_fail api q auth status code s = finish api q auth status (error_body code) code s"

definition payload_dict :: "(json \<Rightarrow> string) \<Rightarrow> json \<Rightarrow> (string \<times> json) list res" where
  \<comment> \<open>\<open>dict(payload)\<close>, its keys as texts\<close>
  "payload_dict rp v =
     (case v of JObj d \<Rightarrow> Inr d
      | _ \<Rightarrow> rmap (foldl (\<lambda>d (k, x). AList.update (py_str rp k) x d) []) (dict_of_json v))"

definition api_ok :: "ControlApi \<Rightarrow> ApiRequest \<Rightarrow> auth_result \<Rightarrow> json res \<Rightarrow> api_state \<Rightarrow> api_state \<times> Response res" where
  "api_ok api q auth result s =
     (case rbind result (payload_dict (ca_text api)) of
        Inl x \<Rightarrow> (s, Inl x)
      | Inr d \<Rightarrow> finish api q (Some auth) 200 (redact (JObj d)) ''ok'' s)"

definition log_effect :: "api_effect \<Rightarrow> api_state \<Rightarrow> api_state" where
  "log_effect eff s = s\<lparr>as_effects := as_effects s @ [eff]\<rparr>"

definition read_route :: "ControlApi \<Rightarrow> ApiRequest \<Rightarrow> ApiRoute \<Rightarrow> auth_result \<Rightarrow> api_state \<Rightarrow> api_state \<times> Response res" where
  "read_route api q r auth s =
     (case ca_state api of
        Inl x \<Rightarrow> (s, Inl x)
      | Inr snapshot \<Rightarrow>
        (let get = (\<lambda>v k. case v of JObj d \<Rightarrow> jget d k | _ \<Rightarrow> JNull) in
         if ro_name r = ''signal'' then
           (let symbol = (case map_of (hq_query q) ''symbol'' of None \<Rightarrow> [] | Some t \<Rightarrow> t) in
            if symbol = [] then api_fail api q (Some auth) 400 ''missing_symbol'' s
            else api_ok api q auth (Inr (JObj [(''symbol'', JStr symbol),
                   (''signal'', get (get snapshot ''signals'') symbol)])) s)
         else api_ok api q auth (Inr (JObj [(ro_name r, get snapshot (ro_name r))])) s))"

definition mutate_handler :: "ControlApi \<Rightarrow> ApiRoute \<Rightarrow> (json \<Rightarrow> json res) option" where
  "mutate_handler api r =
     (if ro_name r = ''propose'' then ca_propose api
      else if ro_name r = ''simulate'' then ca_simulate api
      else if ro_name r = ''submit'' then ca_submit api
      else if ro_name r = ''cancel'' then ca_cancel api
      else if ro_name r = ''ceiling''
        then map_option (\<lambda>f. f (case ro_sleeve r of None \<Rightarrow> [] | Some x \<Rightarrow> x)) (ca_ceiling api)
      else None)"

definition mutate_effect :: "ApiRoute \<Rightarrow> json \<Rightarrow> api_effect" where
  "mutate_effect r body =
     (if ro_name r = ''ceiling'' then ACeiling (case ro_sleeve r of None \<Rightarrow> [] | Some x \<Rightarrow> x) body
      else ACall (ro_name r) body)"

definition mutate :: "ControlApi \<Rightarrow> ApiRequest \<Rightarrow> ApiRoute \<Rightarrow> auth_result \<Rightarrow> api_state \<Rightarrow> api_state \<times> Response res" where
  "mutate api q r auth s =
     (case mutate_handler api r of
        None \<Rightarrow> api_fail api q (Some auth) 503 ''api_disabled'' s
      | Some f \<Rightarrow>
        (case ca_loads api (hq_body q) of
           Some (JObj body) \<Rightarrow>
             (if ro_name r = ''submit'' \<and> \<not> (json_truthy (jget body ''proposal_id'') \<and> json_truthy (jget body ''approval_id''))
              then api_fail api q (Some auth) 400 ''approval_required'' s
              else api_ok api q auth (f (JObj body)) (log_effect (mutate_effect r (JObj body)) s))
         | _ \<Rightarrow> api_fail api q (Some auth) 400 ''bad_request'' s))"

definition dispatch :: "ControlApi \<Rightarrow> ApiRequest \<Rightarrow> ApiRoute \<Rightarrow> auth_result \<Rightarrow> api_state \<Rightarrow> api_state \<times> Response res" where
  "dispatch api q r auth s =
     (if ro_name r \<in> snd ` set READ_ROUTES then read_route api q r auth s
      else if ro_name r = ''halt'' then
        (case ca_halt api of
           None \<Rightarrow> api_fail api q (Some auth) 503 ''api_disabled'' s
         | Some result \<Rightarrow> api_ok api q auth result (log_effect AHalt s))
      else mutate api q r auth s)"

definition required_role :: "ApiRoute option \<Rightarrow> string option" where
  \<comment> \<open>any key may halt\<close>
  "required_role r = (case r of None \<Rightarrow> None | Some x \<Rightarrow> if ro_name x = ''halt'' then None else Some (ro_role x))"

definition auth_request :: "ApiRequest \<Rightarrow> request" where
  "auth_request q =
     \<lparr>rq_method = hq_method q, rq_path = hq_path q, rq_body = hq_body q, rq_headers = hq_headers q,
      rq_required_role = required_role (route (hq_method q) (hq_path q))\<rparr>"

definition handle :: "ControlApi \<Rightarrow> ApiRequest \<Rightarrow> api_state \<Rightarrow> api_state \<times> Response res" where
  "handle api q s =
     (if \<not> ca_enabled api then api_fail api q None 503 ''api_disabled'' s
      else if MAX_BODY_BYTES < length (hq_body q) then api_fail api q None 413 ''payload_too_large'' s
      else (let (au, verdict) = authenticate (ca_auth api) (auth_request q) (as_auth s); s1 = s\<lparr>as_auth := au\<rparr> in
        case verdict of
          Inl x \<Rightarrow> (s1, Inl x)
        | Inr auth \<Rightarrow>
          (if \<not> ar_ok auth
           then api_fail api q (Some auth) (if ar_reason auth = ''forbidden'' then 403 else 401) ''unauthorized'' s1
           else (case route (hq_method q) (hq_path q) of
               None \<Rightarrow> api_fail api q (Some auth) 404 ''not_found'' s1
             | Some r \<Rightarrow>
               (case dispatch api q r auth s1 of
                  (s2, Inr answer) \<Rightarrow> (s2, Inr answer)
                | (s2, Inl x) \<Rightarrow> api_fail api q (Some auth) 500 ''internal_error'' s2)))))"

section \<open>What one request changes\<close>

lemma finish_state:
  "as_auth (fst (finish api q auth st p out s)) = as_auth s" "as_effects (fst (finish api q auth st p out s)) = as_effects s"
  by (simp_all add: finish_def Let_def split: option.split sum.split)

lemma fail_state:
  "as_auth (fst (api_fail api q auth st code s)) = as_auth s" "as_effects (fst (api_fail api q auth st code s)) = as_effects s"
  by (simp_all add: api_fail_def finish_state)

lemma ok_state:
  "as_auth (fst (api_ok api q auth res s)) = as_auth s" "as_effects (fst (api_ok api q auth res s)) = as_effects s"
  by (simp_all add: api_ok_def finish_state split: sum.split)

lemma read_route_state:
  "as_auth (fst (read_route api q r auth s)) = as_auth s" "as_effects (fst (read_route api q r auth s)) = as_effects s"
  by (simp_all add: read_route_def Let_def fail_state ok_state split: sum.split)

lemma effect_state [simp]: "as_auth (log_effect eff s) = as_auth s" "as_effects (log_effect eff s) = as_effects s @ [eff]"
  by (simp_all add: log_effect_def)

definition route_effect :: "ControlApi \<Rightarrow> ApiRequest \<Rightarrow> ApiRoute \<Rightarrow> api_effect \<Rightarrow> bool" where
  \<comment> \<open>the one call a request on a route makes: of a submission only with both ids\<close>
  "route_effect api q r eff \<longleftrightarrow>
     (if ro_name r = ''halt'' then eff = AHalt
      else (\<exists>body. ca_loads api (hq_body q) = Some (JObj body) \<and> eff = mutate_effect r (JObj body)
        \<and> (ro_name r = ''submit'' \<longrightarrow> json_truthy (jget body ''proposal_id'') \<and> json_truthy (jget body ''approval_id''))))"

lemma mutate_state:
  "as_auth (fst (mutate api q r auth s)) = as_auth s"
  "as_effects (fst (mutate api q r auth s)) = as_effects s \<or>
     (ro_name r \<noteq> ''halt'' \<longrightarrow> (\<exists>eff. as_effects (fst (mutate api q r auth s)) = as_effects s @ [eff] \<and> route_effect api q r eff))"
  by (auto simp: mutate_def fail_state ok_state route_effect_def split: option.split json.split)

lemma dispatch_state:
  "as_auth (fst (dispatch api q r auth s)) = as_auth s"
  "as_effects (fst (dispatch api q r auth s)) = as_effects s \<or>
     (\<exists>eff. as_effects (fst (dispatch api q r auth s)) = as_effects s @ [eff] \<and> route_effect api q r eff)"
proof -
  show "as_auth (fst (dispatch api q r auth s)) = as_auth s"
    by (simp add: dispatch_def read_route_state fail_state ok_state mutate_state split: option.split)
  show "as_effects (fst (dispatch api q r auth s)) = as_effects s \<or>
     (\<exists>eff. as_effects (fst (dispatch api q r auth s)) = as_effects s @ [eff] \<and> route_effect api q r eff)"
    using mutate_state(2)[of api q r auth s]
    by (auto simp: dispatch_def read_route_state fail_state ok_state route_effect_def split: option.split)
qed

definition authorised :: "ControlApi \<Rightarrow> ApiRequest \<Rightarrow> ApiRoute \<Rightarrow> api_state \<Rightarrow> bool" where
  \<comment> \<open>a known key of a known role, its signature, a stamp in the window, a fresh nonce, and the role the
      route asks for\<close>
  "authorised api q r s \<longleftrightarrow>
     (let au = ca_auth api; p = request_parts (auth_request q); now = au_clock au (at_ticks (as_auth s)) in
      \<exists>secret role t. map_of (au_keys au) (pa_key_id p) = Some secret \<and> map_of (au_roles au) (pa_key_id p) = Some role
        \<and> verify_signature (au_sha au) (au_hmac au) secret (header (hq_headers q) ''X-Signature'') p
        \<and> parse_iso (pa_timestamp p) = Some t \<and> in_window (au_window_s au) now t
        \<and> (ro_name r \<noteq> ''halt'' \<longrightarrow> role_allows role (ro_role r)))"

lemma handle_cases:
  assumes "handle api q s = (s', res)"
  obtains (early) st code where "(s', res) = api_fail api q None st code s"
      "(st, code) \<in> {(503, ''api_disabled''), (413, ''payload_too_large'')}"
  | (raised) x where "s' = s\<lparr>as_auth := fst (authenticate (ca_auth api) (auth_request q) (as_auth s))\<rparr>" "res = Inl x"
  | (refused) au a st code where "authenticate (ca_auth api) (auth_request q) (as_auth s) = (au, Inr a)"
      "(s', res) = api_fail api q (Some a) st code (s\<lparr>as_auth := au\<rparr>)"
      "(st, code) \<in> {(401, ''unauthorized''), (403, ''unauthorized''), (404, ''not_found'')}"
  | (dispatched) au a r where "ca_enabled api" "length (hq_body q) \<le> MAX_BODY_BYTES"
      "authenticate (ca_auth api) (auth_request q) (as_auth s) = (au, Inr a)" "ar_ok a"
      "route (hq_method q) (hq_path q) = Some r"
      "(s', res) = dispatch api q r a (s\<lparr>as_auth := au\<rparr>)
       \<or> (s', res) = api_fail api q (Some a) 500 ''internal_error'' (fst (dispatch api q r a (s\<lparr>as_auth := au\<rparr>)))"
proof (cases "ca_enabled api \<and> length (hq_body q) \<le> MAX_BODY_BYTES")
  case False
  have "(s', res) = api_fail api q None 503 ''api_disabled'' s \<or> (s', res) = api_fail api q None 413 ''payload_too_large'' s"
    using assms False by (cases "ca_enabled api") (simp_all add: handle_def)
  then show thesis using early by blast
next
  case en: True
  obtain au v where auth: "authenticate (ca_auth api) (auth_request q) (as_auth s) = (au, v)" by fastforce
  show thesis
  proof (cases v)
    case (Inl x)
    then show thesis using assms en auth by (intro raised[of x]) (auto simp: handle_def Let_def)
  next
    case (Inr a)
    show thesis
    proof (cases "\<exists>r. ar_ok a \<and> route (hq_method q) (hq_path q) = Some r")
      case True
      then obtain r where r: "ar_ok a" "route (hq_method q) (hq_path q) = Some r" by blast
      obtain s2 out where d: "dispatch api q r a (s\<lparr>as_auth := au\<rparr>) = (s2, out)" by fastforce
      show thesis
        by (rule dispatched[OF _ _ auth[unfolded Inr] r])
          (use assms en auth Inr r d in \<open>auto simp: handle_def Let_def split: sum.splits\<close>)
    next
      case False
      have "(s', res) = api_fail api q (Some a) 404 ''not_found'' (s\<lparr>as_auth := au\<rparr>)
          \<or> (s', res) = api_fail api q (Some a) 401 ''unauthorized'' (s\<lparr>as_auth := au\<rparr>)
          \<or> (s', res) = api_fail api q (Some a) 403 ''unauthorized'' (s\<lparr>as_auth := au\<rparr>)"
        using assms en auth Inr False by (cases "ar_ok a") (auto simp: handle_def Let_def split: if_splits)
      then show thesis using refused auth Inr by blast
    qed
  qed
qed

lemma handle_state:
  assumes h: "handle api q s = (s', res)" and ch: "as_effects s' \<noteq> as_effects s"
  shows "ca_enabled api \<and> length (hq_body q) \<le> MAX_BODY_BYTES
    \<and> (\<exists>r eff. route (hq_method q) (hq_path q) = Some r \<and> as_effects s' = as_effects s @ [eff] \<and> route_effect api q r eff
         \<and> authorised api q r s)"
  using h
proof (cases rule: handle_cases)
  case (early st code)
  then have "s' = fst (api_fail api q None st code s)" by (metis fst_conv)
  then show ?thesis using ch by (simp add: fail_state)
next
  case (raised x)
  then show ?thesis using ch by simp
next
  case (refused au a st code)
  then have "s' = fst (api_fail api q (Some a) st code (s\<lparr>as_auth := au\<rparr>))" by (metis fst_conv)
  then show ?thesis using ch by (simp add: fail_state)
next
  case (dispatched au a r)
  from dispatched(6) have "as_effects s' = as_effects (fst (dispatch api q r a (s\<lparr>as_auth := au\<rparr>)))"
  proof
    assume "(s', res) = dispatch api q r a (s\<lparr>as_auth := au\<rparr>)"
    then show ?thesis by (metis fst_conv)
  next
    assume "(s', res) = api_fail api q (Some a) 500 ''internal_error'' (fst (dispatch api q r a (s\<lparr>as_auth := au\<rparr>)))"
    then show ?thesis using fail_state(2) by (metis fst_conv)
  qed
  then obtain eff where eff: "as_effects s' = as_effects s @ [eff]" "route_effect api q r eff"
    using dispatch_state(2)[of api q r a "s\<lparr>as_auth := au\<rparr>"] ch by auto
  obtain secret role t where k: "map_of (au_keys (ca_auth api)) (pa_key_id (request_parts (auth_request q))) = Some secret"
    "map_of (au_roles (ca_auth api)) (pa_key_id (request_parts (auth_request q))) = Some role"
    "parse_iso (pa_timestamp (request_parts (auth_request q))) = Some t"
    "in_window (au_window_s (ca_auth api)) (au_clock (ca_auth api) (at_ticks (as_auth s))) t"
    "claim (ca_auth api) (auth_request q) secret role (spend_tick (as_auth s)) = (au, Inr a)"
    by (rule authenticate_ok[OF dispatched(3,4)])
  note c = claim_ok[OF k(5) dispatched(4)]
  have "authorised api q r s"
    unfolding authorised_def Let_def
    by (intro exI[of _ secret] exI[of _ role] exI[of _ t])
      (use k c(2,3) dispatched(5) in \<open>auto simp: auth_request_def required_role_def\<close>)
  then show ?thesis using dispatched eff by blast
qed

section \<open>What a client sees\<close>

lemma error_body_free: "\<not> secret_key ''error''" "secret_free (error_body code)"
proof -
  show e: "\<not> secret_key ''error''"
    by (simp add: secret_key_def ends_with_def str_lower_def char_lower_def Let_def)
  show "secret_free (error_body code)" by (simp add: error_body_def e)
qed

lemma finish_answer: "finish api q auth st p out s = (s', Inr a) \<Longrightarrow> a = \<lparr>rs_status = st, rs_payload = p\<rparr>"
  by (auto simp: finish_def Let_def split: option.splits sum.splits)

lemma fail_answer: "api_fail api q auth st code s = (s', Inr a) \<Longrightarrow> a = \<lparr>rs_status = st, rs_payload = error_body code\<rparr>"
  unfolding api_fail_def by (rule finish_answer)

lemma ok_answer: "api_ok api q auth result s = (s', Inr a) \<Longrightarrow> rs_status a = 200 \<and> secret_free (rs_payload a)"
  using redact_secret_free(1) by (auto simp del: redact.simps simp: api_ok_def dest: finish_answer split: sum.splits)

definition answer_safe :: "int set \<Rightarrow> Response \<Rightarrow> bool" where
  "answer_safe sts a \<longleftrightarrow> rs_status a \<in> sts \<and> secret_free (rs_payload a)
     \<and> (rs_status a \<in> {401, 403} \<longrightarrow> rs_payload a = error_body ''unauthorized'')"

lemma answer_safe_fail:
  "api_fail api q auth st code s = (s', Inr a) \<Longrightarrow> st \<in> sts \<Longrightarrow> (st \<in> {401, 403} \<longrightarrow> code = ''unauthorized'') \<Longrightarrow> answer_safe sts a"
  by (auto dest!: fail_answer simp: answer_safe_def error_body_free)

lemma answer_safe_ok: "api_ok api q auth result s = (s', Inr a) \<Longrightarrow> 200 \<in> sts \<Longrightarrow> answer_safe sts a"
  by (auto dest!: ok_answer simp: answer_safe_def)

lemma dispatch_answer:
  assumes "dispatch api q r auth s = (s', Inr a)"
  shows "answer_safe {200, 400, 503} a"
  using assms answer_safe_fail[of api q "Some auth" _ _ _ s' a] answer_safe_ok[of api q auth _ _ s' a]
  by (auto simp: dispatch_def mutate_def read_route_def Let_def split: if_splits option.splits sum.splits json.splits)

lemma handle_answer:
  assumes h: "handle api q s = (s', Inr a)"
  shows "answer_safe {200, 400, 401, 403, 404, 413, 500, 503} a"
    and "rs_status a \<in> {200, 400, 500} \<Longrightarrow>
      \<exists>au v. authenticate (ca_auth api) (auth_request q) (as_auth s) = (au, Inr v) \<and> ar_ok v"
proof -
  let ?sts = "{200, 400, 401, 403, 404, 413, 500, 503} :: int set"
  have "answer_safe ?sts a \<and> (rs_status a \<in> {200, 400, 500} \<longrightarrow>
      (\<exists>au v. authenticate (ca_auth api) (auth_request q) (as_auth s) = (au, Inr v) \<and> ar_ok v))"
    using h
  proof (cases rule: handle_cases)
    case (early st code)
    then show ?thesis using fail_answer[OF early(1)[symmetric]] answer_safe_fail[OF early(1)[symmetric], of ?sts] by auto
  next
    case (raised x)
    then show ?thesis by simp
  next
    case (refused au v st code)
    then show ?thesis using fail_answer[OF refused(2)[symmetric]] answer_safe_fail[OF refused(2)[symmetric], of ?sts] by auto
  next
    case (dispatched au v r)
    have "answer_safe ?sts a"
      using dispatched(6)
    proof
      assume "(s', Inr a) = dispatch api q r v (s\<lparr>as_auth := au\<rparr>)"
      then have "answer_safe {200, 400, 503} a" using dispatch_answer by metis
      then show ?thesis by (auto simp: answer_safe_def)
    next
      assume f: "(s', Inr a) = api_fail api q (Some v) 500 ''internal_error'' (fst (dispatch api q r v (s\<lparr>as_auth := au\<rparr>)))"
      show ?thesis by (rule answer_safe_fail[OF f[symmetric]]) simp_all
    qed
    then show ?thesis using dispatched by blast
  qed
  then show "answer_safe ?sts a"
    and "rs_status a \<in> {200, 400, 500} \<Longrightarrow>
      \<exists>au v. authenticate (ca_auth api) (auth_request q) (as_auth s) = (au, Inr v) \<and> ar_ok v"
    by blast+
qed

section \<open>Where the documented behaviour differs\<close>

lemma halt_role: "required_role (route ''POST'' ''/v1/halt'') = None"
  by (simp add: route_def READ_ROUTES_def MUTATING_ROUTES_def required_role_def)

lemma query_unsigned:
  \<comment> \<open>the query is no part of what is signed: another symbol passes with the same signature\<close>
  "auth_request (q\<lparr>hq_query := x\<rparr>) = auth_request q"
  by (simp add: auth_request_def)

lemma handle_raises:
  \<comment> \<open>a nonce journal that cannot be read raises through the handler\<close>
  assumes "ca_enabled api" and "length (hq_body q) \<le> MAX_BODY_BYTES"
    and "authenticate (ca_auth api) (auth_request q) (as_auth s) = (au, Inl x)"
  shows "snd (handle api q s) = Inl x"
  using assms by (simp add: handle_def Let_def)

end
