(* ===== verification/Mcp.thy ===== *)
theory Mcp
  imports McpTools Interfaces Stores
begin

text \<open>
  \<open>signald/mcp/server.py\<close>: the tool server, its proposals and its single-use approvals. A host callback
  is a function to a result, which may be any exception; the effects it was called for are the log
  \<open>ms_effects\<close>. The clock is read once per call, \<open>json.dumps\<close> is the argument \<open>mc_dumps\<close>; sockets and
  HTTP framing are left out. The constructor reads its two files again: \<open>mcp_restart\<close>.
\<close>

section \<open>Proposals and approvals\<close>

text \<open>A field of a row read from a file has whatever type the row gives it.\<close>

record Proposal =
  pl_proposal_id :: json
  pl_payload_hash :: json
  pl_payload :: json
  pl_created_by :: json
  pl_created_at :: json
  pl_state :: json

record Approval =
  al_approval_id :: json
  al_proposal_id :: json
  al_payload_hash :: json
  al_approved_by :: json
  al_approved_at :: json
  al_expires_at :: json
  al_single_use :: json

datatype mcp_effect =
    ESubmit string string | ECancel string string | EHaltTrading | EAllocate string json string

record McpServer =
  ms_toolsets :: "string list"
  ms_proposals :: "(string \<times> Proposal) list"
  ms_approvals :: "(string \<times> Approval) list"
  ms_consumed :: "string list"
  ms_proposals_file :: "jsonl option"
  ms_approvals_file :: "jsonl option"
  ms_audit :: "ledger option"
  ms_effects :: "mcp_effect list"

record mcp_env =
  mc_state :: "json res option"
  mc_simulate :: "(json \<Rightarrow> json res) option"
  mc_propose :: "(json \<Rightarrow> json res) option"
  mc_submit :: "(json \<Rightarrow> json res) option"
  mc_cancel :: "(json \<Rightarrow> json res) option"
  mc_halt :: "json res option"
  mc_set_allocation :: "(json \<Rightarrow> json res) option"
  mc_now :: datetime
  mc_ttl_s :: real
  mc_hash :: json_hash
  mc_dumps :: "json \<Rightarrow> string"
  mc_text :: "json \<Rightarrow> string"
  mc_exc_name :: "exc \<Rightarrow> string"
  mc_digest :: digest
  mc_audit_ts :: string

datatype refusal = Refusal string string "json option" \<comment> \<open>\<open>ProposalRefused\<close>: code, detail, verdict\<close>
datatype fault = Refused refusal | Raised exc

type_synonym outcome = "fault + (string \<times> (string \<times> json) list \<times> string option)"

definition proposal_dict :: "Proposal \<Rightarrow> (string \<times> json) list" where
  "proposal_dict p =
     [(''proposal_id'', pl_proposal_id p), (''payload_hash'', pl_payload_hash p), (''payload'', pl_payload p),
      (''created_by'', pl_created_by p), (''created_at'', pl_created_at p), (''state'', pl_state p)]"

definition approval_dict :: "Approval \<Rightarrow> (string \<times> json) list" where
  "approval_dict a =
     [(''approval_id'', al_approval_id a), (''proposal_id'', al_proposal_id a), (''payload_hash'', al_payload_hash a),
      (''approved_by'', al_approved_by a), (''approved_at'', al_approved_at a), (''expires_at'', al_expires_at a),
      (''single_use'', al_single_use a)]"

definition payload_intact :: "json_hash \<Rightarrow> Proposal \<Rightarrow> bool" where
  "payload_intact h p \<longleftrightarrow>
     (case pl_payload p of JObj d \<Rightarrow> pl_payload_hash p = JStr (sha256_of h (JObj d)) | _ \<Rightarrow> False)"

definition set_default :: "string \<Rightarrow> 'a \<Rightarrow> (string \<times> 'a) list \<Rightarrow> (string \<times> 'a) list" where
  \<comment> \<open>\<open>d.setdefault(k, v)\<close>\<close>
  "set_default k v d = (if map_of d k = None then d @ [(k, v)] else d)"

definition append_opt :: "(string \<times> json) list \<Rightarrow> jsonl option \<Rightarrow> jsonl option" where
  "append_opt row f = map_option (append_line row) f"

definition seconds_after :: "real \<Rightarrow> datetime \<Rightarrow> datetime" where
  \<comment> \<open>\<open>now + timedelta(seconds=s)\<close>\<close>
  "seconds_after s t = t\<lparr>wall_us := wall_us t + round_half_even (s * 1000000)\<rparr>"

section \<open>Creating a proposal\<close>

definition create_proposal :: "mcp_env \<Rightarrow> json \<Rightarrow> McpServer \<Rightarrow> McpServer \<times> (fault + Proposal)" where
  "create_proposal e clean s =
     (case refuses_llm_numbers clean of
        Some key \<Rightarrow> (s, Inl (Refused (Refusal ''llm_number'' (''LLM payload carries numeric trading field: '' @ key) None)))
      | None \<Rightarrow>
        (case mc_simulate e of
           None \<Rightarrow> (s, Inl (Refused (Refusal ''simulate_unavailable'' ''no simulate callback'' None)))
         | Some f \<Rightarrow>
           (case f clean of
              Inl x \<Rightarrow> (s, Inl (Raised x))
            | Inr (JObj v) \<Rightarrow>
              (let state = str_upper (or_str (mc_text e) (jget v ''verdict'')) in
               if state = ''BLOCK'' then (s, Inl (Refused (Refusal ''blocked'' ''gate verdict is BLOCK'' (Some (JObj v)))))
               else if state \<noteq> ''ALLOW'' \<and> state \<noteq> ''REDUCE''
               then (s, Inl (Refused (Refusal ''simulate_unavailable''
                      (''unknown gate verdict: '' @ (if state = [] then ''none'' else state)) None)))
               else (let created = isoformat_seconds (mc_now e); hash = sha256_of (mc_hash e) clean;
                         pid = ''prop_'' @ take 16 (sha256_of (mc_hash e)
                           (JObj [(''payload_hash'', JStr hash), (''created_at'', JStr created)]));
                         p = \<lparr>pl_proposal_id = JStr pid, pl_payload_hash = JStr hash, pl_payload = clean,
                              pl_created_by = JStr ''llm'', pl_created_at = JStr created, pl_state = JStr ''pending''\<rparr>
                     in (s\<lparr>ms_proposals := set_default pid p (ms_proposals s),
                           ms_proposals_file := append_opt (proposal_dict p) (ms_proposals_file s)\<rparr>, Inr p)))
            | Inr _ \<Rightarrow> (s, Inl (Refused (Refusal ''simulate_unavailable'' ''simulate returned no verdict'' None))))))"

section \<open>Approving and consuming\<close>

definition approve :: "mcp_env \<Rightarrow> string \<Rightarrow> string \<Rightarrow> McpServer \<Rightarrow> McpServer \<times> Approval res" where
  "approve e proposal_id approved_by s =
     (case map_of (ms_proposals s) proposal_id of
        None \<Rightarrow> (s, Inl ValueError)
      | Some p \<Rightarrow>
        (if \<not> payload_intact (mc_hash e) p then (s, Inl ValueError)
         else (let approved_at = isoformat_seconds (mc_now e);
                   expires = isoformat_seconds (seconds_after (mc_ttl_s e) (mc_now e));
                   aid = ''appr_'' @ take 16 (sha256_of (mc_hash e)
                     (JObj [(''proposal_id'', pl_proposal_id p), (''approved_by'', JStr approved_by),
                            (''approved_at'', JStr approved_at)]));
                   a = \<lparr>al_approval_id = JStr aid, al_proposal_id = pl_proposal_id p,
                        al_payload_hash = pl_payload_hash p, al_approved_by = JStr approved_by,
                        al_approved_at = JStr approved_at, al_expires_at = JStr expires, al_single_use = JBool True\<rparr>;
                   approvals = set_default aid a (ms_approvals s)
               in (s\<lparr>ms_approvals := approvals,
                     ms_approvals_file := append_opt ((''type'', JStr ''approval'') # approval_dict a) (ms_approvals_file s)\<rparr>,
                   Inr (the (map_of approvals aid))))))"

definition OPERATOR_ROLES :: "json list" where
  "OPERATOR_ROLES = [JStr ''operator'', JStr ''admin'']"

definition refuse_call :: "string \<Rightarrow> string \<Rightarrow> fault option" where
  "refuse_call code detail = Some (Refused (Refusal code detail None))"

definition expiry_refusal :: "mcp_env \<Rightarrow> Approval \<Rightarrow> fault option" where
  \<comment> \<open>\<open>expires is None or expires <= now\<close>: a naive and an aware stamp do not compare\<close>
  "expiry_refusal e a =
     (case fromisoformat (py_str (mc_text e) (al_expires_at a)) of
        None \<Rightarrow> refuse_call ''approval_expired'' ''approval expired''
      | Some t \<Rightarrow> (case dt_diff_us t (mc_now e) of
            Inl x \<Rightarrow> Some (Raised x)
          | Inr d \<Rightarrow> if d \<le> 0 then refuse_call ''approval_expired'' ''approval expired'' else None))"

definition binding_refusal :: "mcp_env \<Rightarrow> string option \<Rightarrow> Approval \<Rightarrow> McpServer \<Rightarrow> fault option" where
  "binding_refusal e proposal_id a s =
     (case proposal_id of None \<Rightarrow> None
      | Some pid \<Rightarrow>
        (case map_of (ms_proposals s) pid of
           None \<Rightarrow> refuse_call ''proposal_unknown'' ''proposal not found''
         | Some p \<Rightarrow>
           (if \<not> payload_intact (mc_hash e) p then refuse_call ''proposal_unknown'' ''proposal not found''
            else if al_proposal_id a \<noteq> JStr pid \<or> al_payload_hash a \<noteq> pl_payload_hash p
            then refuse_call ''hash_mismatch'' ''approval is not bound to this proposal'' else None)))"

definition consume_refusal :: "mcp_env \<Rightarrow> string option \<Rightarrow> string \<Rightarrow> bool \<Rightarrow> McpServer \<Rightarrow> fault option" where
  "consume_refusal e proposal_id aid require_operator s =
     (if aid = [] then refuse_call ''approval_required'' ''approval_id is required''
      else (case map_of (ms_approvals s) aid of
          None \<Rightarrow> refuse_call ''approval_unknown'' ''approval not found''
        | Some a \<Rightarrow>
          (if aid \<in> set (ms_consumed s) then refuse_call ''approval_used'' ''approval already used''
           else (case expiry_refusal e a of Some r \<Rightarrow> Some r
             | None \<Rightarrow>
               (if require_operator \<and> al_approved_by a \<notin> set OPERATOR_ROLES
                then refuse_call ''approval_operator'' ''operator approval required''
                else binding_refusal e proposal_id a s)))))"

definition consumed_row :: "string \<Rightarrow> (string \<times> json) list" where
  "consumed_row aid = [(''type'', JStr ''consumed''), (''approval_id'', JStr aid)]"

definition burn :: "string \<Rightarrow> McpServer \<Rightarrow> McpServer" where
  "burn aid s = s\<lparr>ms_consumed := aid # ms_consumed s,
     ms_approvals_file := append_opt (consumed_row aid) (ms_approvals_file s)\<rparr>"

section \<open>The tools\<close>

definition as_result :: "json res \<Rightarrow> string \<Rightarrow> string option \<Rightarrow> outcome" where
  "as_result r what pid =
     (case r of Inl x \<Rightarrow> Inl (Raised x) | Inr v \<Rightarrow> Inr (what, [(''result'', v)], pid))"

definition tool_unavailable :: "string \<Rightarrow> outcome" where
  "tool_unavailable why = Inr (''unavailable'', [(''error'', JStr why)], None)"

definition state_snapshot :: "mcp_env \<Rightarrow> (string \<times> json) list option res" where
  "state_snapshot e =
     (case mc_state e of None \<Rightarrow> Inr None
      | Some r \<Rightarrow> rmap (\<lambda>v. case v of JObj d \<Rightarrow> Some d | _ \<Rightarrow> None) r)"

definition tool_read :: "mcp_env \<Rightarrow> string \<Rightarrow> outcome" where
  "tool_read e key =
     (case state_snapshot e of Inl x \<Rightarrow> Inl (Raised x)
      | Inr None \<Rightarrow> tool_unavailable ''state_unavailable''
      | Inr (Some d) \<Rightarrow> if jget d key = JNull then tool_unavailable (key @ ''_unavailable'')
                        else Inr (''ok'', [(key, jget d key)], None))"

definition tool_signal_latest :: "mcp_env \<Rightarrow> (string \<times> json) list \<Rightarrow> outcome" where
  "tool_signal_latest e args =
     (let symbol = strip (case map_of args ''symbol'' of None \<Rightarrow> [] | Some v \<Rightarrow> py_str (mc_text e) v) in
      case state_snapshot e of Inl x \<Rightarrow> Inl (Raised x)
      | Inr snap \<Rightarrow>
        (case snap of None \<Rightarrow> tool_unavailable ''signals_unavailable''
         | Some d \<Rightarrow>
           (case jget d ''signals'' of
              JObj sigs \<Rightarrow> if jget sigs symbol = JNull then tool_unavailable ''signal_unavailable''
                else Inr (''ok'', [(''symbol'', JStr symbol), (''signal'', jget sigs symbol)], None)
            | _ \<Rightarrow> tool_unavailable ''signals_unavailable'')))"

definition tool_simulate :: "mcp_env \<Rightarrow> (string \<times> json) list \<Rightarrow> outcome" where
  "tool_simulate e args =
     (case refuses_llm_numbers (JObj args) of
        Some key \<Rightarrow> Inr (''refused'', [(''error'', JStr ''llm_number''), (''detail'', JStr key)], None)
      | None \<Rightarrow> (case mc_simulate e of None \<Rightarrow> tool_unavailable ''simulate_unavailable''
          | Some f \<Rightarrow> (case f (JObj args) of
                Inl x \<Rightarrow> Inl (Raised x)
              | Inr (JObj v) \<Rightarrow> Inr (''ok'', [(''simulation'', JObj v)], None)
              | Inr _ \<Rightarrow> tool_unavailable ''simulate_unavailable'')))"

definition tool_propose :: "mcp_env \<Rightarrow> (string \<times> json) list \<Rightarrow> McpServer \<Rightarrow> McpServer \<times> outcome" where
  "tool_propose e args s =
     (case create_proposal e (JObj args) s of
        (s1, Inl f) \<Rightarrow> (s1, Inl f)
      | (s1, Inr p) \<Rightarrow>
        (let pid = (case pl_proposal_id p of JStr t \<Rightarrow> Some t | _ \<Rightarrow> None); own = (''proposal'', JObj (proposal_dict p)) in
         case mc_propose e of None \<Rightarrow> (s1, Inr (''created'', [own], pid))
         | Some f \<Rightarrow> (case f (JObj (proposal_dict p)) of
               Inl x \<Rightarrow> (s1, Inl (Raised x))
             | Inr (JObj extra) \<Rightarrow> (s1, Inr (''created'', [own, (''request'', JObj extra)], pid))
             | Inr _ \<Rightarrow> (s1, Inr (''created'', [own], pid)))))"

definition spend ::
  "mcp_env \<Rightarrow> string option \<Rightarrow> string \<Rightarrow> bool \<Rightarrow> mcp_effect \<Rightarrow> (json \<Rightarrow> json res) \<Rightarrow> json \<Rightarrow> string \<Rightarrow> McpServer
   \<Rightarrow> McpServer \<times> outcome" where
  \<comment> \<open>consume the approval, then call the host\<close>
  "spend e proposal_id aid operator eff f body what s =
     (case consume_refusal e proposal_id aid operator s of
        Some r \<Rightarrow> (s, Inl r)
      | None \<Rightarrow> (let s1 = burn aid s in (s1\<lparr>ms_effects := ms_effects s1 @ [eff]\<rparr>, as_result (f body) what proposal_id)))"

definition tool_submit :: "mcp_env \<Rightarrow> (string \<times> json) list \<Rightarrow> McpServer \<Rightarrow> McpServer \<times> outcome" where
  "tool_submit e args s =
     (case mc_submit e of None \<Rightarrow> (s, tool_unavailable ''submit_unavailable'')
      | Some f \<Rightarrow> (let pid = or_str (mc_text e) (jget args ''proposal_id''); aid = or_str (mc_text e) (jget args ''approval_id'') in
          spend e (Some pid) aid False (ESubmit pid aid) f
            (JObj [(''proposal_id'', JStr pid), (''approval_id'', JStr aid)]) ''submitted'' s))"

definition tool_cancel :: "mcp_env \<Rightarrow> (string \<times> json) list \<Rightarrow> McpServer \<Rightarrow> McpServer \<times> outcome" where
  "tool_cancel e args s =
     (case mc_cancel e of None \<Rightarrow> (s, tool_unavailable ''cancel_unavailable'')
      | Some f \<Rightarrow> (let oid = or_str (mc_text e) (jget args ''order_id''); aid = or_str (mc_text e) (jget args ''approval_id'') in
          spend e None aid False (ECancel oid aid) f
            (JObj [(''order_id'', JStr oid), (''approval_id'', JStr aid)]) ''cancelled'' s))"

definition tool_halt :: "mcp_env \<Rightarrow> McpServer \<Rightarrow> McpServer \<times> outcome" where
  "tool_halt e s =
     (case mc_halt e of None \<Rightarrow> (s, tool_unavailable ''halt_unavailable'')
      | Some r \<Rightarrow> (s\<lparr>ms_effects := ms_effects s @ [EHaltTrading]\<rparr>, as_result r ''halted'' None))"

definition tool_set_allocation :: "mcp_env \<Rightarrow> (string \<times> json) list \<Rightarrow> McpServer \<Rightarrow> McpServer \<times> outcome" where
  "tool_set_allocation e args s =
     (case mc_set_allocation e of None \<Rightarrow> (s, tool_unavailable ''allocation_unavailable'')
      | Some f \<Rightarrow> (let sleeve = or_str (mc_text e) (jget args ''sleeve''); aid = or_str (mc_text e) (jget args ''approval_id'') in
          spend e None aid True (EAllocate sleeve (jget args ''capital_pct'') aid) f
            (JObj [(''sleeve'', JStr sleeve), (''capital_pct'', jget args ''capital_pct'')]) ''configured'' s))"

definition run_tool :: "mcp_env \<Rightarrow> string \<Rightarrow> (string \<times> json) list \<Rightarrow> McpServer \<Rightarrow> McpServer \<times> outcome" where
  "run_tool e name args s =
     (if name = ''get_account_state'' then (s, tool_read e ''account'')
      else if name = ''get_positions'' then (s, tool_read e ''positions'')
      else if name = ''get_open_orders'' then (s, tool_read e ''orders'')
      else if name = ''get_risk_state'' then (s, tool_read e ''risk'')
      else if name = ''get_sleeve_allocation'' then (s, tool_read e ''sleeves'')
      else if name = ''get_signal_latest'' then (s, tool_signal_latest e args)
      else if name = ''simulate_order'' then (s, tool_simulate e args)
      else if name = ''propose_order'' then tool_propose e args s
      else if name = ''submit_order'' then tool_submit e args s
      else if name = ''cancel_order'' then tool_cancel e args s
      else if name = ''halt_trading'' then tool_halt e s
      else if name = ''set_sleeve_allocation'' then tool_set_allocation e args s
      else (s, Inl (Raised AttributeError)))"

section \<open>One call\<close>

definition type_ok :: "string \<Rightarrow> json \<Rightarrow> bool" where
  "type_ok ty v \<longleftrightarrow>
     (if ty = ''string'' then (case v of JStr _ \<Rightarrow> True | _ \<Rightarrow> False)
      else if ty = ''number'' then (case v of JInt _ \<Rightarrow> True | JFloat _ \<Rightarrow> True | _ \<Rightarrow> False)
      else if ty = ''object'' then (case v of JObj _ \<Rightarrow> True | _ \<Rightarrow> False)
      else if ty = ''array'' then (case v of JList _ \<Rightarrow> True | _ \<Rightarrow> False) else True)"

definition type_message :: "string \<Rightarrow> string \<Rightarrow> string" where
  "type_message key ty =
     key @ '' must be '' @ (if ty = ''object'' \<or> ty = ''array'' then ''an '' else ''a '') @ ty"

definition validate_arguments :: "ToolSpec \<Rightarrow> (string \<times> json) list \<Rightarrow> string option" where
  "validate_arguments t args =
     (case List.find (\<lambda>k. k \<notin> fst ` set args) (ts_required t) of
        Some k \<Rightarrow> Some (''missing required argument: '' @ k)
      | None \<Rightarrow>
        map_option (\<lambda>(k, v). type_message k (the (map_of (ts_properties t) k)))
          (List.find (\<lambda>(k, v). case map_of (ts_properties t) k of None \<Rightarrow> False | Some ty \<Rightarrow> \<not> type_ok ty v) args))"

record mcp_result =
  mr_body :: json \<comment> \<open>what the text of the content is the JSON of\<close>
  mr_is_error :: bool

definition OK_OUTCOMES :: "string list" where
  "OK_OUTCOMES = [''ok'', ''created'', ''submitted'', ''cancelled'', ''halted'', ''configured'']"

definition record_call ::
  "mcp_env \<Rightarrow> string \<Rightarrow> string option \<Rightarrow> string \<Rightarrow> (string \<times> json) list \<Rightarrow> string option \<Rightarrow> McpServer
   \<Rightarrow> McpServer \<times> mcp_result res" where
  \<comment> \<open>one audit row, then the redacted payload; an append that raises is not caught\<close>
  "record_call e tool toolset outcome payload pid s =
     (let result = \<lparr>mr_body = canon (redact (JObj payload)), mr_is_error = (outcome \<notin> set OK_OUTCOMES)\<rparr>;
          opt = (\<lambda>t. case t of None \<Rightarrow> JNull | Some x \<Rightarrow> JStr x) in
      case ms_audit s of None \<Rightarrow> (s, Inr result)
      | Some f \<Rightarrow>
        (case ledger_append (mc_digest e) (mc_audit_ts e) ''mcp'' outcome
           [(''tool'', Plain (JStr tool)), (''toolset'', Plain (opt toolset)), (''outcome'', Plain (JStr outcome)),
            (''proposal_id'', Plain (opt pid))] f of
           Inl x \<Rightarrow> (s, Inl x)
         | Inr f' \<Rightarrow> (s\<lparr>ms_audit := Some f'\<rparr>, Inr result)))"

definition tool_allowed :: "McpServer \<Rightarrow> ToolSpec \<Rightarrow> bool" where
  "tool_allowed s t \<longleftrightarrow> ts_toolset t \<in> set (ms_toolsets s) \<or> ts_class t = ''safety''"

definition settle_outcome :: "mcp_env \<Rightarrow> outcome \<Rightarrow> string \<times> (string \<times> json) list \<times> string option" where
  "settle_outcome e r =
     (case r of
        Inr out \<Rightarrow> out
      | Inl (Refused (Refusal code detail verdict)) \<Rightarrow>
          (if code = ''blocked'' then ''blocked'' else ''refused'',
           [(''error'', JStr code), (''detail'', JStr detail)]
             @ (case verdict of None \<Rightarrow> [] | Some v \<Rightarrow> [(''verdict'', v)]), None)
      | Inl (Raised x) \<Rightarrow> (''error'', [(''error'', JStr ''handler_error''), (''detail'', JStr (mc_exc_name e x))], None))"

definition mcp_call :: "mcp_env \<Rightarrow> string \<Rightarrow> json \<Rightarrow> McpServer \<Rightarrow> McpServer \<times> mcp_result res" where
  "mcp_call e name arguments s =
     (case tool_named name of
        None \<Rightarrow> record_call e name None ''not_found'' [(''error'', JStr ''tool_not_found''), (''tool'', JStr name)] None s
      | Some t \<Rightarrow>
        (if \<not> tool_allowed s t then
           record_call e name None ''not_found'' [(''error'', JStr ''tool_not_found''), (''tool'', JStr name)] None s
         else (case arguments of
           JObj args \<Rightarrow>
             (case validate_arguments t args of
                Some why \<Rightarrow> record_call e name (Some (ts_toolset t)) ''refused''
                  [(''error'', JStr ''invalid_arguments''), (''detail'', JStr why)] None s
              | None \<Rightarrow>
                (let (s1, r) = run_tool e name args s; (outcome, payload, pid) = settle_outcome e r
                 in record_call e name (Some (ts_toolset t)) outcome payload pid s1))
         | _ \<Rightarrow> record_call e name (Some (ts_toolset t)) ''refused''
                 [(''error'', JStr ''arguments_must_be_object'')] None s)))"

section \<open>The protocol\<close>

definition list_tools :: "McpServer \<Rightarrow> json" where
  "list_tools s = JList (map (\<lambda>t. JObj
     [(''name'', JStr (ts_name t)), (''description'', JStr (ts_description t)), (''inputSchema'', input_schema t),
      (''annotations'', JObj [(''readOnlyHint'', JBool (ts_read_only t)), (''destructiveHint'', JBool (ts_destructive t)),
        (''idempotentHint'', JBool (ts_idempotent t)), (''openWorldHint'', JBool (ts_open_world t))])])
     (filter (\<lambda>t. ts_toolset t \<in> set (ms_toolsets s)) TOOL_TABLE))"

definition rpc_error :: "json \<Rightarrow> int \<Rightarrow> string \<Rightarrow> json" where
  "rpc_error mid code message =
     JObj [(''jsonrpc'', JStr ''2.0''), (''id'', mid), (''error'', JObj [(''code'', JInt code), (''message'', JStr message)])]"

definition rpc_result :: "json \<Rightarrow> json \<Rightarrow> json" where
  \<comment> \<open>a message without an id is a notification\<close>
  "rpc_result mid result =
     (if mid = JNull then JObj [] else JObj [(''jsonrpc'', JStr ''2.0''), (''id'', mid), (''result'', result)])"

definition call_result :: "mcp_env \<Rightarrow> mcp_result \<Rightarrow> json" where
  "call_result e r = JObj
     [(''content'', JList [JObj [(''type'', JStr ''text''), (''text'', JStr (mc_dumps e (mr_body r)))]]),
      (''isError'', JBool (mr_is_error r))]"

definition handle_message :: "mcp_env \<Rightarrow> json \<Rightarrow> McpServer \<Rightarrow> McpServer \<times> json res" where
  "handle_message e message s =
     (case message of
        JObj m \<Rightarrow>
          (let mid = jget m ''id'' in
           case jget m ''method'' of
             JStr method \<Rightarrow>
               (if method = ''initialize'' then
                  (s, Inr (rpc_result mid (JObj
                    [(''protocolVersion'', JStr ''2024-11-05''),
                     (''capabilities'', JObj [(''tools'', JObj [(''listChanged'', JBool False)])]),
                     (''serverInfo'', JObj [(''name'', JStr ''signald-mcp''), (''version'', JStr ''1.0.0'')])])))
                else if method = ''tools/list'' then (s, Inr (rpc_result mid (JObj [(''tools'', list_tools s)])))
                else if method = ''tools/call'' then
                  (let params = (case json_or (jget m ''params'') (JObj []) of JObj p \<Rightarrow> p | _ \<Rightarrow> []) in
                   case jget params ''name'' of
                     JStr name \<Rightarrow>
                       (let args = (if jget params ''arguments'' = JNull then JObj [] else jget params ''arguments'') in
                        case mcp_call e name args s of
                          (s1, Inl x) \<Rightarrow> (s1, Inl x) | (s1, Inr r) \<Rightarrow> (s1, Inr (rpc_result mid (call_result e r))))
                   | _ \<Rightarrow> (s, Inr (rpc_error mid (-32602) ''invalid params'')))
                else if method = ''notifications/initialized'' \<or> method = ''initialized'' then (s, Inr (JObj []))
                else (s, Inr (rpc_error mid (-32601) ''method not found'')))
           | _ \<Rightarrow> (s, Inr (rpc_error mid (-32600) ''invalid request'')))
      | _ \<Rightarrow> (s, Inr (rpc_error JNull (-32600) ''invalid request'')))"

section \<open>Restart\<close>

definition objects_of :: "jsonl option \<Rightarrow> (string \<times> json) list list" where
  \<comment> \<open>\<open>_read_rows\<close>: the rows that are objects\<close>
  "objects_of f =
     (case f of None \<Rightarrow> [] | Some g \<Rightarrow> List.map_filter (\<lambda>v. case v of JObj d \<Rightarrow> Some d | _ \<Rightarrow> None) (json_rows g))"

definition build_proposal :: "(string \<times> json) list \<Rightarrow> Proposal option" where
  "build_proposal d =
     (if set [''proposal_id'', ''payload_hash'', ''payload'', ''created_by'', ''created_at'', ''state''] \<subseteq> fst ` set d
      then Some \<lparr>pl_proposal_id = jget d ''proposal_id'', pl_payload_hash = jget d ''payload_hash'',
             pl_payload = jget d ''payload'', pl_created_by = jget d ''created_by'',
             pl_created_at = jget d ''created_at'', pl_state = jget d ''state''\<rparr> else None)"

definition build_approval :: "(string \<times> json) list \<Rightarrow> Approval option" where
  "build_approval d =
     (if set [''approval_id'', ''proposal_id'', ''payload_hash'', ''approved_by'', ''approved_at'', ''expires_at'',
              ''single_use''] \<subseteq> fst ` set d
      then Some \<lparr>al_approval_id = jget d ''approval_id'', al_proposal_id = jget d ''proposal_id'',
             al_payload_hash = jget d ''payload_hash'', al_approved_by = jget d ''approved_by'',
             al_approved_at = jget d ''approved_at'', al_expires_at = jget d ''expires_at'',
             al_single_use = jget d ''single_use''\<rparr> else None)"

definition load_key :: "json \<Rightarrow> 'a \<Rightarrow> (string \<times> 'a) list \<Rightarrow> (string \<times> 'a) list res" where
  \<comment> \<open>a key that is no text is never looked up again; a list or an object cannot be a key\<close>
  "load_key k v d = (case k of JStr t \<Rightarrow> Inr (set_default t v d) | _ \<Rightarrow> if hashable k then Inr d else Inl TypeError)"

fun load_proposals :: "json_hash \<Rightarrow> (string \<times> json) list list \<Rightarrow> (string \<times> Proposal) list \<Rightarrow> (string \<times> Proposal) list res" where
  "load_proposals h [] acc = Inr acc"
| "load_proposals h (row # rows) acc =
     (case build_proposal row of None \<Rightarrow> load_proposals h rows acc
      | Some p \<Rightarrow> if \<not> payload_intact h p then load_proposals h rows acc
                  else rbind (load_key (pl_proposal_id p) p acc) (load_proposals h rows))"

fun load_approvals ::
  "(json \<Rightarrow> string) \<Rightarrow> (string \<times> json) list list \<Rightarrow> (string \<times> Approval) list \<Rightarrow> string list
   \<Rightarrow> ((string \<times> Approval) list \<times> string list) res" where
  "load_approvals rp [] acc used = Inr (acc, used)"
| "load_approvals rp (row # rows) acc used =
     (if jget row ''type'' = JStr ''consumed''
      then load_approvals rp rows acc (py_str rp (jget row ''approval_id'') # used)
      else if jget row ''type'' = JStr ''approval'' then
        (case build_approval row of None \<Rightarrow> load_approvals rp rows acc used
         | Some a \<Rightarrow> rbind (load_key (al_approval_id a) a acc) (\<lambda>acc'. load_approvals rp rows acc' used))
      else load_approvals rp rows acc used)"

definition mcp_restart :: "mcp_env \<Rightarrow> McpServer \<Rightarrow> McpServer res" where
  \<comment> \<open>a new server over the files of an old one\<close>
  "mcp_restart e s =
     rbind (load_proposals (mc_hash e) (objects_of (ms_proposals_file s)) []) (\<lambda>proposals.
     rmap (\<lambda>(approvals, used). s\<lparr>ms_proposals := proposals, ms_approvals := approvals, ms_consumed := used\<rparr>)
       (load_approvals (mc_text e) (objects_of (ms_approvals_file s)) [] []))"

definition mcp_start ::
  "mcp_env \<Rightarrow> string \<Rightarrow> (string \<times> string) list option \<Rightarrow> jsonl option \<Rightarrow> jsonl option \<Rightarrow> ledger option \<Rightarrow> McpServer res" where
  "mcp_start e toolsets pinned proposals_file approvals_file audit_file =
     rbind (parse_toolsets toolsets) (\<lambda>names.
     rbind (case pinned of None \<Rightarrow> Inr () | Some pins \<Rightarrow> assert_descriptions_unchanged (mc_hash e) (mc_dumps e) pins) (\<lambda>_.
       mcp_restart e \<lparr>ms_toolsets = names, ms_proposals = [], ms_approvals = [], ms_consumed = [],
         ms_proposals_file = proposals_file, ms_approvals_file = approvals_file, ms_audit = audit_file, ms_effects = []\<rparr>))"

section \<open>What a call changes\<close>

lemma append_opt_Some [simp]: "append_opt row (Some f) = Some (f @ [Some (JObj row)])" "append_opt row None = None"
  by (simp_all add: append_opt_def append_line_def)

lemma record_call_state:
  "ms_effects (fst (record_call e t ts out p pid s)) = ms_effects s"
  "ms_consumed (fst (record_call e t ts out p pid s)) = ms_consumed s"
  "ms_approvals (fst (record_call e t ts out p pid s)) = ms_approvals s"
  "ms_proposals (fst (record_call e t ts out p pid s)) = ms_proposals s"
  "ms_approvals_file (fst (record_call e t ts out p pid s)) = ms_approvals_file s"
  "ms_toolsets (fst (record_call e t ts out p pid s)) = ms_toolsets s"
  by (auto simp: record_call_def Let_def split: option.splits sum.splits)

lemma mcp_call_recorded:
  "(\<exists>t out p. mcp_call e name arguments s = record_call e name t out p None s) \<or>
   (\<exists>t args out p pid. tool_named name = Some t \<and> tool_allowed s t \<and> arguments = JObj args \<and> validate_arguments t args = None
      \<and> mcp_call e name arguments s = record_call e name (Some (ts_toolset t)) out p pid (fst (run_tool e name args s)))"
proof (cases "tool_named name")
  case (Some t)
  show ?thesis
  proof (cases "tool_allowed s t \<and> (\<exists>args. arguments = JObj args \<and> validate_arguments t args = None)")
    case True
    then obtain args where a: "tool_allowed s t" "arguments = JObj args" "validate_arguments t args = None" by blast
    obtain out p pid where so: "settle_outcome e (snd (run_tool e name args s)) = (out, p, pid)" by (metis surj_pair)
    have "mcp_call e name arguments s
        = record_call e name (Some (ts_toolset t)) out p pid (fst (run_tool e name args s))"
      by (simp add: mcp_call_def Some a so Let_def split_def)
    then show ?thesis using Some a by blast
  next
    case False
    have "\<exists>t out p. mcp_call e name arguments s = record_call e name t out p None s"
    proof (cases "tool_allowed s t")
      case True
      then show ?thesis using False Some
        by (cases arguments) (simp_all add: mcp_call_def split: option.split, (fastforce | blast)+)
    qed (simp add: mcp_call_def Some, blast)
    then show ?thesis by blast
  qed
qed (simp add: mcp_call_def, blast)

lemma mcp_call_state:
  "(\<exists>t out p. fst (mcp_call e name arguments s) = fst (record_call e name t out p None s)) \<or>
   (\<exists>t args out p pid. tool_named name = Some t \<and> tool_allowed s t \<and> arguments = JObj args \<and> validate_arguments t args = None
      \<and> fst (mcp_call e name arguments s)
        = fst (record_call e name (Some (ts_toolset t)) out p pid (fst (run_tool e name args s))))"
  using mcp_call_recorded[of e name arguments s] by metis

lemma create_proposal_keeps:
  "ms_effects (fst (create_proposal e c s)) = ms_effects s"
  "ms_consumed (fst (create_proposal e c s)) = ms_consumed s"
  "ms_approvals (fst (create_proposal e c s)) = ms_approvals s"
  "ms_approvals_file (fst (create_proposal e c s)) = ms_approvals_file s"
  "ms_toolsets (fst (create_proposal e c s)) = ms_toolsets s"
  by (auto simp: create_proposal_def Let_def split: option.splits sum.splits json.splits)

lemma tool_propose_state: "fst (tool_propose e args s) = fst (create_proposal e (JObj args) s)"
  by (auto simp: tool_propose_def Let_def split: option.splits sum.splits json.splits prod.splits)

definition spends :: "mcp_env \<Rightarrow> string option \<Rightarrow> string \<Rightarrow> bool \<Rightarrow> mcp_effect \<Rightarrow> McpServer \<Rightarrow> McpServer \<Rightarrow> bool" where
  \<comment> \<open>one approval was consumed for one effect\<close>
  "spends e proposal_id aid operator eff s s' \<longleftrightarrow>
     consume_refusal e proposal_id aid operator s = None
     \<and> s' = (burn aid s)\<lparr>ms_effects := ms_effects s @ [eff]\<rparr>"

lemma spend_cases:
  "fst (spend e pid aid operator eff f body what s) = s \<or> spends e pid aid operator eff s (fst (spend e pid aid operator eff f body what s))"
  by (auto simp: spend_def spends_def burn_def Let_def split: option.splits)

definition quietly :: "McpServer \<Rightarrow> McpServer \<Rightarrow> bool" where
  "quietly s s' \<longleftrightarrow> ms_effects s' = ms_effects s \<and> ms_consumed s' = ms_consumed s \<and> ms_approvals s' = ms_approvals s
     \<and> ms_approvals_file s' = ms_approvals_file s"

lemma quietly_refl [simp]: "quietly s s"
  by (simp add: quietly_def)

lemma tool_submit_cases:
  "quietly s (fst (tool_submit e args s)) \<or> (\<exists>pid aid. spends e (Some pid) aid False (ESubmit pid aid) s (fst (tool_submit e args s)))"
proof (cases "mc_submit e")
  case (Some f)
  show ?thesis
    using spend_cases[of e "Some (or_str (mc_text e) (jget args ''proposal_id''))" "or_str (mc_text e) (jget args ''approval_id'')"]
    by (simp only: tool_submit_def Some option.case Let_def) (metis quietly_refl)
qed (simp add: tool_submit_def)

lemma tool_cancel_cases:
  "quietly s (fst (tool_cancel e args s)) \<or> (\<exists>oid aid. spends e None aid False (ECancel oid aid) s (fst (tool_cancel e args s)))"
proof (cases "mc_cancel e")
  case (Some f)
  show ?thesis
    using spend_cases[of e None "or_str (mc_text e) (jget args ''approval_id'')"]
    by (simp only: tool_cancel_def Some option.case Let_def) (metis quietly_refl)
qed (simp add: tool_cancel_def)

lemma tool_set_allocation_cases:
  "quietly s (fst (tool_set_allocation e args s))
   \<or> (\<exists>sl v aid. spends e None aid True (EAllocate sl v aid) s (fst (tool_set_allocation e args s)))"
proof (cases "mc_set_allocation e")
  case (Some f)
  show ?thesis
    using spend_cases[of e None "or_str (mc_text e) (jget args ''approval_id'')"]
    by (simp only: tool_set_allocation_def Some option.case Let_def) (metis quietly_refl)
qed (simp add: tool_set_allocation_def)

lemma tool_halt_cases:
  "fst (tool_halt e s) = s \<or> fst (tool_halt e s) = s\<lparr>ms_effects := ms_effects s @ [EHaltTrading]\<rparr>"
  by (simp add: tool_halt_def split: option.split)

lemma tool_propose_quiet: "quietly s (fst (tool_propose e args s))"
  by (simp add: quietly_def tool_propose_state create_proposal_keeps)

lemma run_tool_fst:
  "fst (run_tool e name args s) =
     (if name = ''propose_order'' then fst (tool_propose e args s)
      else if name = ''submit_order'' then fst (tool_submit e args s)
      else if name = ''cancel_order'' then fst (tool_cancel e args s)
      else if name = ''halt_trading'' then fst (tool_halt e s)
      else if name = ''set_sleeve_allocation'' then fst (tool_set_allocation e args s) else s)"
  by (simp add: run_tool_def)

lemma run_tool_cases:
  obtains (quiet) "quietly s (fst (run_tool e name args s))"
  | (halt) "name = ''halt_trading''" "fst (run_tool e name args s) = s\<lparr>ms_effects := ms_effects s @ [EHaltTrading]\<rparr>"
  | (submit) pid aid where "name = ''submit_order''" "spends e (Some pid) aid False (ESubmit pid aid) s (fst (run_tool e name args s))"
  | (cancel) oid aid where "name = ''cancel_order''" "spends e None aid False (ECancel oid aid) s (fst (run_tool e name args s))"
  | (allocate) sleeve v aid where "name = ''set_sleeve_allocation''"
      "spends e None aid True (EAllocate sleeve v aid) s (fst (run_tool e name args s))"
proof -
  note c = tool_submit_cases[of s e args] tool_cancel_cases[of s e args] tool_set_allocation_cases[of s e args]
    tool_halt_cases[of e s] tool_propose_quiet[of s e args]
  consider "name = ''propose_order''" | "name = ''submit_order''" | "name = ''cancel_order''" | "name = ''halt_trading''"
    | "name = ''set_sleeve_allocation''" | "fst (run_tool e name args s) = s" by (simp add: run_tool_fst) argo
  then show thesis
  proof cases
    case 1
    have "fst (run_tool e name args s) = fst (tool_propose e args s)" by (simp add: run_tool_fst 1)
    then show thesis using c(5) quiet by simp
  next
    case 2
    have "fst (run_tool e name args s) = fst (tool_submit e args s)" by (simp add: run_tool_fst 2)
    then show thesis using c(1) quiet submit[OF 2] by metis
  next
    case 3
    have "fst (run_tool e name args s) = fst (tool_cancel e args s)" by (simp add: run_tool_fst 3)
    then show thesis using c(2) quiet cancel[OF 3] by metis
  next
    case 4
    have "fst (run_tool e name args s) = fst (tool_halt e s)" by (simp add: run_tool_fst 4)
    then show thesis using c(4) quiet halt[OF 4] quietly_refl by metis
  next
    case 5
    have "fst (run_tool e name args s) = fst (tool_set_allocation e args s)" by (simp add: run_tool_fst 5)
    then show thesis using c(3) quiet allocate[OF 5] by metis
  next
    case 6
    show thesis by (rule quiet) (simp add: 6)
  qed
qed

section \<open>Every effect has its approval\<close>

definition valid_approval :: "mcp_env \<Rightarrow> string option \<Rightarrow> string \<Rightarrow> bool \<Rightarrow> McpServer \<Rightarrow> bool" where
  \<comment> \<open>known, not used, not expired; by an operator where one is required; bound to the proposal as stored\<close>
  "valid_approval e proposal_id aid operator s \<longleftrightarrow>
     (\<exists>a. map_of (ms_approvals s) aid = Some a \<and> aid \<notin> set (ms_consumed s)
        \<and> (\<exists>t d. fromisoformat (py_str (mc_text e) (al_expires_at a)) = Some t \<and> dt_diff_us t (mc_now e) = Inr d \<and> 0 < d)
        \<and> (operator \<longrightarrow> al_approved_by a \<in> set OPERATOR_ROLES)
        \<and> (\<forall>pid. proposal_id = Some pid \<longrightarrow> (\<exists>p. map_of (ms_proposals s) pid = Some p \<and> payload_intact (mc_hash e) p
             \<and> al_proposal_id a = JStr pid \<and> al_payload_hash a = pl_payload_hash p)))"

lemma refuse_call_Some [simp]: "refuse_call c d \<noteq> None"
  by (simp add: refuse_call_def)

lemma expiry_refusal_None:
  "expiry_refusal e a = None \<Longrightarrow>
     \<exists>t d. fromisoformat (py_str (mc_text e) (al_expires_at a)) = Some t \<and> dt_diff_us t (mc_now e) = Inr d \<and> 0 < d"
  by (auto simp: expiry_refusal_def split: option.splits sum.splits if_splits)

lemma binding_refusal_None:
  "binding_refusal e (Some pid) a s = None \<Longrightarrow> \<exists>p. map_of (ms_proposals s) pid = Some p \<and> payload_intact (mc_hash e) p
     \<and> al_proposal_id a = JStr pid \<and> al_payload_hash a = pl_payload_hash p"
  by (auto simp: binding_refusal_def split: option.splits if_splits)

lemma consume_refusal_None:
  assumes "consume_refusal e proposal_id aid operator s = None"
  shows "valid_approval e proposal_id aid operator s"
proof -
  obtain a where a: "map_of (ms_approvals s) aid = Some a" "aid \<notin> set (ms_consumed s)" "expiry_refusal e a = None"
    "operator \<longrightarrow> al_approved_by a \<in> set OPERATOR_ROLES" "binding_refusal e proposal_id a s = None"
    using assms by (auto simp: consume_refusal_def split: option.splits if_splits)
  then show ?thesis using expiry_refusal_None[OF a(3)] binding_refusal_None[of e _ a s]
    unfolding valid_approval_def by (intro exI[of _ a]) blast
qed

fun effect_allowed :: "mcp_env \<Rightarrow> McpServer \<Rightarrow> mcp_effect \<Rightarrow> bool" where
  "effect_allowed e s EHaltTrading = True"
| "effect_allowed e s (ESubmit pid aid) = (''mutate'' \<in> set (ms_toolsets s) \<and> valid_approval e (Some pid) aid False s)"
| "effect_allowed e s (ECancel oid aid) = (''mutate'' \<in> set (ms_toolsets s) \<and> valid_approval e None aid False s)"
| "effect_allowed e s (EAllocate sl v aid) = (''config'' \<in> set (ms_toolsets s) \<and> valid_approval e None aid True s)"

fun effect_approval :: "mcp_effect \<Rightarrow> string option" where
  "effect_approval EHaltTrading = None"
| "effect_approval (ESubmit pid aid) = Some aid"
| "effect_approval (ECancel oid aid) = Some aid"
| "effect_approval (EAllocate sl v aid) = Some aid"

lemma tool_toolsets:
  assumes "tool_named name = Some t" and "tool_allowed s t"
  shows "name = ''submit_order'' \<or> name = ''cancel_order'' \<Longrightarrow> ''mutate'' \<in> set (ms_toolsets s)"
    and "name = ''set_sleeve_allocation'' \<Longrightarrow> ''config'' \<in> set (ms_toolsets s)"
  using assms by (auto simp: tool_named_def TOOL_TABLE_def read_tool_def tool_allowed_def)

lemma spends_effect:
  "spends e pid aid operator eff s s' \<Longrightarrow> ms_effects s' = ms_effects s @ [eff] \<and> ms_consumed s' = aid # ms_consumed s
     \<and> valid_approval e pid aid operator s \<and> ms_approvals_file s' = append_opt (consumed_row aid) (ms_approvals_file s)"
  by (auto simp: spends_def burn_def dest: consume_refusal_None)

lemma mcp_call_effects:
  assumes s'_def: "s' = fst (mcp_call e name arguments s)"
  shows "ms_effects s' = ms_effects s \<and> ms_consumed s' = ms_consumed s \<and> ms_approvals_file s' = ms_approvals_file s
    \<or> (\<exists>eff. ms_effects s' = ms_effects s @ [eff] \<and> effect_allowed e s eff
         \<and> (case effect_approval eff of
              None \<Rightarrow> ms_consumed s' = ms_consumed s \<and> ms_approvals_file s' = ms_approvals_file s
            | Some aid \<Rightarrow> ms_consumed s' = aid # ms_consumed s \<and> aid \<notin> set (ms_consumed s)
                \<and> ms_approvals_file s' = append_opt (consumed_row aid) (ms_approvals_file s)))"
  using mcp_call_state[of e name arguments s]
proof
  assume "\<exists>t out p. fst (mcp_call e name arguments s) = fst (record_call e name t out p None s)"
  then show ?thesis unfolding s'_def by (auto simp: record_call_state)
next
  assume "\<exists>t args out p pid. tool_named name = Some t \<and> tool_allowed s t \<and> arguments = JObj args \<and> validate_arguments t args = None
      \<and> fst (mcp_call e name arguments s)
        = fst (record_call e name (Some (ts_toolset t)) out p pid (fst (run_tool e name args s)))"
  then obtain t args out p pid where t: "tool_named name = Some t" "tool_allowed s t"
    and s': "s' = fst (record_call e name (Some (ts_toolset t)) out p pid (fst (run_tool e name args s)))"
    unfolding s'_def by blast
  note ts = tool_toolsets[OF t]
  have eq: "ms_effects s' = ms_effects (fst (run_tool e name args s))" "ms_consumed s' = ms_consumed (fst (run_tool e name args s))"
    "ms_approvals_file s' = ms_approvals_file (fst (run_tool e name args s))"
    unfolding s' by (simp_all add: record_call_state)
  show ?thesis
  proof (cases rule: run_tool_cases[of s e name args])
    case quiet
    then show ?thesis unfolding eq quietly_def by simp
  next
    case halt
    then show ?thesis unfolding eq by (intro disjI2 exI[of _ EHaltTrading]) simp
  next
    case (submit pid aid)
    from spends_effect[OF submit(2)] show ?thesis using ts(1) submit(1) unfolding eq
      by (intro disjI2 exI[of _ "ESubmit pid aid"]) (auto simp: valid_approval_def)
  next
    case (cancel oid aid)
    from spends_effect[OF cancel(2)] show ?thesis using ts(1) cancel(1) unfolding eq
      by (intro disjI2 exI[of _ "ECancel oid aid"]) (auto simp: valid_approval_def)
  next
    case (allocate sl v aid)
    from spends_effect[OF allocate(2)] show ?thesis using ts(2) allocate(1) unfolding eq
      by (intro disjI2 exI[of _ "EAllocate sl v aid"]) (auto simp: valid_approval_def)
  qed
qed

section \<open>No approval is spent twice\<close>

text \<open>The life of a server with its approvals file: calls, approvals and restarts over the file.\<close>

datatype mcp_op = OCall mcp_env string json | OApprove mcp_env string string | ORestart mcp_env

definition spent :: "McpServer \<Rightarrow> McpServer \<Rightarrow> string option" where
  "spent s s' = (if ms_consumed s' = ms_consumed s then None else Some (hd (ms_consumed s')))"

definition mcp_step :: "McpServer \<Rightarrow> mcp_op \<Rightarrow> McpServer \<times> string option" where
  \<comment> \<open>the next server and the approval it spent; a restart that fails leaves the server as it is\<close>
  "mcp_step s op =
     (case op of
        OCall e name args \<Rightarrow> (let s' = fst (mcp_call e name args s) in (s', spent s s'))
      | OApprove e pid who \<Rightarrow> (fst (approve e pid who s), None)
      | ORestart e \<Rightarrow> (case ms_approvals_file s of None \<Rightarrow> (s, None)
          | Some f \<Rightarrow> (case mcp_restart e s of Inl x \<Rightarrow> (s, None) | Inr s' \<Rightarrow> (s', None))))"

definition burnt :: "McpServer \<Rightarrow> string \<Rightarrow> bool" where
  "burnt s aid \<longleftrightarrow> aid \<in> set (ms_consumed s)
     \<and> (\<forall>f. ms_approvals_file s = Some f \<longrightarrow> Some (JObj (consumed_row aid)) \<in> set f)"

lemma load_approvals_consumed:
  assumes "load_approvals rp rows acc used = Inr (acc', used')"
  shows "set used \<subseteq> set used' \<and> (\<forall>aid. consumed_row aid \<in> set rows \<longrightarrow> aid \<in> set used')"
  using assms
proof (induction rp rows acc used rule: load_approvals.induct)
  case (2 rp row rows acc used)
  consider "jget row ''type'' = JStr ''consumed''" | "jget row ''type'' = JStr ''approval''"
    | "jget row ''type'' \<noteq> JStr ''consumed''" "jget row ''type'' \<noteq> JStr ''approval''" by blast
  then show ?case
  proof cases
    case 1
    then show ?thesis using 2 by (auto simp: consumed_row_def jget_def)
  next
    case b: 2
    have "consumed_row aid \<noteq> row" for aid using b by (auto simp: consumed_row_def jget_def)
    then show ?thesis using 2 b by (auto simp: rbind_Inr_iff split: option.splits)
  next
    case 3
    then have "consumed_row aid \<noteq> row" for aid by (auto simp: consumed_row_def jget_def)
    then show ?thesis using 2 3 by auto
  qed
qed simp

lemma consumed_in_rows:
  "Some (JObj (consumed_row aid)) \<in> set f \<Longrightarrow> consumed_row aid \<in> set (objects_of (Some f))"
  by (force simp: objects_of_def json_rows_def map_filter_def)

interpretation approvals_once: once_only mcp_step burnt
proof unfold_locales
  fix s op s' aid
  assume st: "mcp_step s op = (s', Some aid)"
  then obtain e name args where op: "op = OCall e name args" "s' = fst (mcp_call e name args s)" "spent s s' = Some aid"
    by (auto simp: mcp_step_def Let_def split: mcp_op.splits option.splits sum.splits)
  then have c: "ms_consumed s' = aid # ms_consumed s \<and> aid \<notin> set (ms_consumed s)
      \<and> ms_approvals_file s' = append_opt (consumed_row aid) (ms_approvals_file s)"
    using mcp_call_effects[OF refl, of e name args s] by (auto simp: spent_def split: option.splits if_splits)
  show "\<not> burnt s aid" using c by (simp add: burnt_def)
  show "burnt s' aid" using c by (auto simp: burnt_def append_opt_def append_line_def)
next
  fix s op s' out aid
  assume st: "mcp_step s op = (s', out)" and b: "burnt s aid"
  show "burnt s' aid"
  proof (cases op)
    case (OCall e name args)
    then have "s' = fst (mcp_call e name args s)" using st by (simp add: mcp_step_def Let_def)
    then show ?thesis using mcp_call_effects[OF refl, of e name args s] b
      by (cases "ms_approvals_file s") (auto simp: burnt_def split: option.splits)
  next
    case (OApprove e pid who)
    then have "s' = fst (approve e pid who s)" using st by (simp add: mcp_step_def)
    then show ?thesis using b
      by (cases "ms_approvals_file s") (auto simp: burnt_def approve_def Let_def split: option.splits)
  next
    case (ORestart e)
    show ?thesis
    proof (cases "ms_approvals_file s")
      case None
      then show ?thesis using st b ORestart by (simp add: mcp_step_def)
    next
      case (Some f)
      show ?thesis
      proof (cases "mcp_restart e s")
        case (Inl x)
        then show ?thesis using st b ORestart Some by (simp add: mcp_step_def)
      next
        case (Inr r)
        then obtain acc used where l: "load_approvals (mc_text e) (objects_of (ms_approvals_file s)) [] [] = Inr (acc, used)"
          "ms_consumed r = used" "ms_approvals_file r = ms_approvals_file s"
          by (auto simp: mcp_restart_def rbind_Inr_iff rmap_Inr_iff)
        have "aid \<in> set used"
          using load_approvals_consumed[OF l(1)] consumed_in_rows[of aid f] b Some by (auto simp: burnt_def)
        then show ?thesis using st b ORestart Some Inr l by (simp add: mcp_step_def burnt_def)
      qed
    qed
  qed
qed

lemma mcp_step_effects:
  "List.map_filter effect_approval (ms_effects (fst (mcp_step s op)))
     = List.map_filter effect_approval (ms_effects s) @ (case snd (mcp_step s op) of None \<Rightarrow> [] | Some aid \<Rightarrow> [aid])"
proof (cases op)
  case (OCall e name args)
  then show ?thesis using mcp_call_effects[OF refl, of e name args s]
    by (auto simp: mcp_step_def Let_def spent_def List.map_filter_def split: option.splits)
next
  case (OApprove e pid who)
  then show ?thesis by (auto simp: mcp_step_def approve_def Let_def split: option.splits)
next
  case (ORestart e)
  then show ?thesis
    by (auto simp: mcp_step_def mcp_restart_def rbind_Inr_iff rmap_Inr_iff split: option.splits sum.splits)
qed

definition mcp_life :: "McpServer \<Rightarrow> mcp_op list \<Rightarrow> McpServer" where
  "mcp_life s ops = foldl (\<lambda>s op. fst (mcp_step s op)) s ops"

lemma mcp_life_effects:
  "List.map_filter effect_approval (ms_effects (mcp_life s ops))
     = List.map_filter effect_approval (ms_effects s) @ accepted mcp_step s ops"
proof (induction ops arbitrary: s)
  case Nil
  show ?case by (simp add: mcp_life_def)
next
  case (Cons op ops)
  have "mcp_life s (op # ops) = mcp_life (fst (mcp_step s op)) ops" by (simp add: mcp_life_def)
  then show ?case using mcp_step_effects[of s op] Cons[of "fst (mcp_step s op)"]
    by (simp add: Let_def split_def split: option.splits)
qed

section \<open>What leaves the server\<close>

lemma items_free_set: "items_free d \<longleftrightarrow> (\<forall>(k, v) \<in> set d. \<not> secret_key k \<and> secret_free v)"
  by (induction d) auto

lemma list_free_set: "list_free vs \<longleftrightarrow> (\<forall>v \<in> set vs. secret_free v)"
  by (induction vs) auto

lemma canon_secret_free: "secret_free v \<Longrightarrow> secret_free (canon v)"
  by (induction v rule: canon.induct) (auto simp: items_free_set list_free_set)

lemma record_call_free:
  "snd (record_call e t ts out p pid s) = Inr r \<Longrightarrow> secret_free (mr_body r)"
proof -
  assume "snd (record_call e t ts out p pid s) = Inr r"
  then have "mr_body r = canon (redact (JObj p))"
    by (auto simp del: canon.simps redact.simps simp: record_call_def Let_def split: option.splits sum.splits)
  then show ?thesis by (simp only: canon_secret_free redact_secret_free)
qed

lemma spend_audit: "ms_audit (fst (spend e pid aid op eff f body what s)) = ms_audit s"
  by (simp add: spend_def burn_def Let_def split: option.split)

lemma create_proposal_audit: "ms_audit (fst (create_proposal e c s)) = ms_audit s"
  by (auto simp: create_proposal_def Let_def split: option.splits sum.splits json.splits)

lemma run_tool_audit: "ms_audit (fst (run_tool e name args s)) = ms_audit s"
proof -
  have "ms_audit (fst (tool_submit e args s)) = ms_audit s" "ms_audit (fst (tool_cancel e args s)) = ms_audit s"
    "ms_audit (fst (tool_set_allocation e args s)) = ms_audit s" "ms_audit (fst (tool_halt e s)) = ms_audit s"
    by (simp_all add: tool_submit_def tool_cancel_def tool_set_allocation_def tool_halt_def Let_def spend_audit
        split: option.split)
  then show ?thesis by (simp add: run_tool_fst tool_propose_state create_proposal_audit)
qed

lemma record_call_audit:
  "ms_audit s = Some f \<Longrightarrow> record_call e t ts out p pid s = (s', r) \<Longrightarrow>
     (\<exists>x. r = Inl x \<and> ms_audit s' = Some f) \<or> (\<exists>b row. r = Inr b \<and> ms_audit s' = Some (f @ [Some row]))"
  by (auto simp: record_call_def ledger_append_def Let_def rmap_Inr_iff split: sum.splits)

lemma mcp_call_answer:
  assumes "mcp_call e name arguments s = (s', r)"
  shows "\<forall>b. r = Inr b \<longrightarrow> secret_free (mr_body b)"
    and "\<forall>f. ms_audit s = Some f \<longrightarrow>
      (\<exists>x. r = Inl x \<and> ms_audit s' = Some f) \<or> (\<exists>b row. r = Inr b \<and> ms_audit s' = Some (f @ [Some row]))"
proof -
  obtain t ts out p pid s1 where c: "record_call e t ts out p pid s1 = (s', r)" "ms_audit s1 = ms_audit s"
    using mcp_call_recorded[of e name arguments s] run_tool_audit assms by metis
  show "\<forall>b. r = Inr b \<longrightarrow> secret_free (mr_body b)"
    using record_call_free[of e t ts out p pid s1] c by simp
  show "\<forall>f. ms_audit s = Some f \<longrightarrow>
      (\<exists>x. r = Inl x \<and> ms_audit s' = Some f) \<or> (\<exists>b row. r = Inr b \<and> ms_audit s' = Some (f @ [Some row]))"
    using record_call_audit[OF _ c(1)] c(2) by simp
qed

section \<open>What a proposal is\<close>

lemma create_proposal_made:
  assumes "create_proposal e c s = (s', Inr p)"
  shows "number_free c" "pl_payload p = c" "pl_payload_hash p = JStr (sha256_of (mc_hash e) c)"
    "\<exists>f v. mc_simulate e = Some f \<and> f c = Inr (JObj v) \<and> str_upper (or_str (mc_text e) (jget v ''verdict'')) \<in> {''ALLOW'', ''REDUCE''}"
    "\<exists>pid. pl_proposal_id p = JStr pid \<and> ms_proposals s' = set_default pid p (ms_proposals s)
       \<and> ms_proposals_file s' = append_opt (proposal_dict p) (ms_proposals_file s)"
  using assms
  by (auto simp: create_proposal_def Let_def refuses_llm_numbers_def numeric_key_in_None
      split: option.splits sum.splits json.splits if_splits)

lemma create_proposal_none: "create_proposal e c s = (s', Inl x) \<Longrightarrow> s' = s"
  by (auto simp: create_proposal_def Let_def split: option.splits sum.splits json.splits if_splits)

definition clean_proposal :: "json_hash \<Rightarrow> Proposal \<Rightarrow> bool" where
  "clean_proposal h p \<longleftrightarrow> number_free (pl_payload p) \<and> pl_payload_hash p = JStr (sha256_of h (pl_payload p))"

definition clean_store :: "json_hash \<Rightarrow> McpServer \<Rightarrow> bool" where
  "clean_store h s \<longleftrightarrow>
     (\<forall>(k, p) \<in> set (ms_proposals s). clean_proposal h p)
     \<and> (\<forall>row \<in> set (objects_of (ms_proposals_file s)). \<forall>p. build_proposal row = Some p \<longrightarrow> clean_proposal h p)"

lemma set_default_set: "set (set_default k v d) \<subseteq> insert (k, v) (set d)"
  by (auto simp: set_default_def)

lemma objects_of_append [simp]: "objects_of (Some (f @ [Some (JObj row)])) = objects_of (Some f) @ [row]"
  by (simp add: objects_of_def json_rows_def List.map_filter_def)

lemma build_proposal_dict: "build_proposal (proposal_dict p) = Some p"
  by (simp add: build_proposal_def proposal_dict_def jget_def)

lemma clean_store_add:
  assumes "clean_store h s" and "clean_proposal h p"
    and "ms_proposals s' = set_default pid p (ms_proposals s)"
    and "ms_proposals_file s' = append_opt (proposal_dict p) (ms_proposals_file s)"
  shows "clean_store h s'"
proof -
  have "\<forall>(k, q) \<in> set (ms_proposals s'). clean_proposal h q"
    using assms(1,2) set_default_set[of pid p "ms_proposals s"] unfolding assms(3) clean_store_def by fastforce
  moreover have "clean_proposal h q" if "row \<in> set (objects_of (ms_proposals_file s'))" "build_proposal row = Some q" for row q
    using that assms(1,2) build_proposal_dict[of p] unfolding assms(4) clean_store_def
    by (cases "ms_proposals_file s") (auto simp: objects_of_def[of None])
  ultimately show ?thesis unfolding clean_store_def by blast
qed

lemma clean_store_cong:
  "ms_proposals s' = ms_proposals s \<Longrightarrow> ms_proposals_file s' = ms_proposals_file s \<Longrightarrow> clean_store h s \<Longrightarrow> clean_store h s'"
  by (simp add: clean_store_def)

lemma create_proposal_clean:
  assumes "clean_store (mc_hash e) s"
  shows "clean_store (mc_hash e) (fst (create_proposal e c s))"
proof (cases "create_proposal e c s")
  case (Pair s' r)
  show ?thesis
  proof (cases r)
    case (Inl x)
    then show ?thesis using create_proposal_none[of e c s s' x] Pair assms by simp
  next
    case (Inr p)
    note made = create_proposal_made[OF Pair[unfolded Inr]]
    then show ?thesis using clean_store_add[OF assms, of p s'] Pair by (auto simp: clean_proposal_def)
  qed
qed

lemma spend_proposals:
  "ms_proposals (fst (spend e pid aid op eff f body what s)) = ms_proposals s"
  "ms_proposals_file (fst (spend e pid aid op eff f body what s)) = ms_proposals_file s"
  by (simp_all add: spend_def burn_def Let_def split: option.split)

lemma run_tool_clean:
  assumes "clean_store (mc_hash e) s"
  shows "clean_store (mc_hash e) (fst (run_tool e name args s))"
proof -
  have "clean_store (mc_hash e) (fst (tool_submit e args s))" "clean_store (mc_hash e) (fst (tool_cancel e args s))"
    "clean_store (mc_hash e) (fst (tool_set_allocation e args s))" "clean_store (mc_hash e) (fst (tool_halt e s))"
    by (rule clean_store_cong[OF _ _ assms]; simp add: tool_submit_def tool_cancel_def tool_set_allocation_def
        tool_halt_def Let_def spend_proposals split: option.split)+
  then show ?thesis by (simp add: run_tool_fst tool_propose_state create_proposal_clean assms)
qed

lemma record_call_proposals_file: "ms_proposals_file (fst (record_call e t ts out p pid s)) = ms_proposals_file s"
  by (auto simp: record_call_def Let_def split: option.splits sum.splits)

lemma record_call_clean: "clean_store h s \<Longrightarrow> clean_store h (fst (record_call e t ts out p pid s))"
  by (rule clean_store_cong) (simp_all add: record_call_state record_call_proposals_file)

lemma load_key_clean:
  assumes "load_key k p acc = Inr mid" and "\<forall>(k, p) \<in> set acc. clean_proposal h p" and "clean_proposal h p"
  shows "\<forall>(k, p) \<in> set mid. clean_proposal h p"
proof -
  have "set mid \<subseteq> insert (case k of JStr t \<Rightarrow> t | _ \<Rightarrow> [], p) (set acc)"
    using assms(1) set_default_set[of _ p acc] by (auto simp: load_key_def split: json.splits if_splits dest: subsetD)
  then show ?thesis using assms(2,3) by fastforce
qed

lemma load_proposals_clean:
  assumes "load_proposals h' rows acc = Inr acc'" and "\<forall>(k, p) \<in> set acc. clean_proposal h p"
    and "\<forall>row \<in> set rows. \<forall>p. build_proposal row = Some p \<longrightarrow> clean_proposal h p"
  shows "\<forall>(k, p) \<in> set acc'. clean_proposal h p"
  using assms
proof (induction rows arbitrary: acc)
  case (Cons row rows)
  have rest: "\<forall>row \<in> set rows. \<forall>p. build_proposal row = Some p \<longrightarrow> clean_proposal h p" using Cons.prems(3) by simp
  consider "load_proposals h' rows acc = Inr acc'"
    | p mid where "build_proposal row = Some p" "load_key (pl_proposal_id p) p acc = Inr mid" "load_proposals h' rows mid = Inr acc'"
    using Cons.prems(1) by (auto simp: rbind_Inr_iff split: option.splits if_splits)
  then show ?case
  proof cases
    case 1
    show ?thesis by (rule Cons.IH[OF 1 Cons.prems(2) rest])
  next
    case 2
    show ?thesis
      by (rule Cons.IH[OF 2(3) load_key_clean[OF 2(2) Cons.prems(2)] rest]) (use Cons.prems(3) 2(1) in simp)
  qed
qed simp

fun op_env :: "mcp_op \<Rightarrow> mcp_env" where
  "op_env (OCall e _ _) = e" | "op_env (OApprove e _ _) = e" | "op_env (ORestart e) = e"

lemma mcp_step_clean:
  assumes "clean_store h s" "mc_hash (op_env op) = h"
  shows "clean_store h (fst (mcp_step s op))"
proof (cases op)
  case (OCall e name args)
  obtain t ts out p pid s1 where "mcp_call e name args s = record_call e t ts out p pid s1"
      "s1 = s \<or> (\<exists>as. s1 = fst (run_tool e name as s))"
    using mcp_call_recorded[of e name args s] by metis
  then show ?thesis using OCall assms run_tool_clean record_call_clean
    by (auto simp: mcp_step_def Let_def)
next
  case (OApprove e pid who)
  have "clean_store h (fst (approve e pid who s))"
    by (rule clean_store_cong[OF _ _ assms(1)]) (simp_all add: approve_def Let_def split: option.split)
  then show ?thesis by (simp add: mcp_step_def OApprove)
next
  case (ORestart e)
  have "clean_store h r" if r: "mcp_restart e s = Inr r" for r
  proof -
    obtain ps where l: "load_proposals (mc_hash e) (objects_of (ms_proposals_file s)) [] = Inr ps"
      and p: "ms_proposals r = ps" "ms_proposals_file r = ms_proposals_file s"
      using r by (auto simp: mcp_restart_def rbind_Inr_iff rmap_Inr_iff)
    show ?thesis using load_proposals_clean[OF l, of h] assms(1) unfolding clean_store_def p by simp
  qed
  then show ?thesis using assms(1) by (auto simp: mcp_step_def ORestart split: option.split sum.split)
qed

lemma mcp_life_clean:
  "clean_store h s \<Longrightarrow> \<forall>op \<in> set ops. mc_hash (op_env op) = h \<Longrightarrow> clean_store h (mcp_life s ops)"
proof (induction ops arbitrary: s)
  case (Cons op ops)
  have "mcp_life s (op # ops) = mcp_life (fst (mcp_step s op)) ops" by (simp add: mcp_life_def)
  then show ?case using Cons.IH[OF mcp_step_clean[OF Cons.prems(1)]] Cons.prems(2) by simp
qed (simp add: mcp_life_def)

section \<open>Where the documented behaviour differs\<close>

lemma allocation_unbound:
  \<comment> \<open>an operator's approval of any order proposal pays for any allocation\<close>
  assumes "consume_refusal e None aid True s = None" and "mc_set_allocation e = Some f" and "aid \<noteq> []"
  shows "ms_effects (fst (tool_set_allocation e
      [(''sleeve'', JStr sleeve), (''capital_pct'', v), (''approval_id'', JStr aid)] s))
    = ms_effects s @ [EAllocate sleeve v aid]"
  using assms by (simp add: tool_set_allocation_def spend_def burn_def jget_def Let_def)

lemma binding_ignored: "binding_refusal e None a s = None"
  by (simp add: binding_refusal_def)

lemma mcp_call_raises:
  \<comment> \<open>the audit row is appended outside the guard of the handlers\<close>
  assumes "ms_audit s = Some f" and "ledger_append (mc_digest e) (mc_audit_ts e) ''mcp'' ''not_found''
      [(''tool'', Plain (JStr name)), (''toolset'', Plain JNull), (''outcome'', Plain (JStr ''not_found'')),
       (''proposal_id'', Plain JNull)] f = Inl x" and "tool_named name = None"
  shows "snd (mcp_call e name args s) = Inl x"
  using assms by (simp add: mcp_call_def record_call_def Let_def)

end
