(* ===== verification/ControlHost.thy ===== *)
theory ControlHost
  imports ControlApi Mcp KillSwitch
begin

text \<open>
  \<open>signald/control.py\<close>: the host of both control surfaces. It serves local state, wires the kill switch
  and nothing else: no callback that proposes, submits, cancels or allocates is given to either server.
  What the host reads (files, clock, hashes) is an argument; \<open>halt_now\<close> is in \<open>KillSwitch\<close>.
\<close>

section \<open>The snapshot\<close>

definition read_signals :: "json option option \<Rightarrow> (string \<times> json) list" where
  \<comment> \<open>\<open>latest.json\<close>: missing, unreadable or a value; only an object counts\<close>
  "read_signals latest = (case latest of Some (Some (JObj d)) \<Rightarrow> d | _ \<Rightarrow> [])"

definition local_state :: "json option option \<Rightarrow> jsonl option \<Rightarrow> kill_files \<Rightarrow> string \<Rightarrow> json" where
  "local_state latest orders kf config_hash = JObj
     [(''signals'', JObj (read_signals latest)), (''orders'', JList (map JObj (objects_of orders))),
      (''kill_switch'', JObj [(''halted'', JBool (is_halted kf)),
         (''episode'', case read_episode kf of None \<Rightarrow> JNull | Some v \<Rightarrow> v)]),
      (''config_hash'', JStr config_hash), (''account'', JNull), (''positions'', JNull), (''risk'', JNull),
      (''sleeves'', JNull)]"

definition halt_reply :: "(json \<times> json) res \<Rightarrow> json res" where
  "halt_reply r = rmap (\<lambda>(episode, since). JObj [(''halted'', JBool True), (''episode'', episode), (''since'', since)]) r"

section \<open>The builders\<close>

record HostConfig =
  hc_api_enabled :: bool
  hc_api_key_id :: string
  hc_api_signing_secret :: string
  hc_api_replay_window_s :: pyfloat
  hc_mcp_enabled :: bool
  hc_mcp_toolsets :: string
  hc_approval_ttl_s :: real

definition CONFIGURED_KEY_ROLE :: string where "CONFIGURED_KEY_ROLE = ''admin''"

definition build_control_api ::
  "HostConfig \<Rightarrow> json \<Rightarrow> json res \<Rightarrow> (nat \<Rightarrow> datetime) \<Rightarrow> (string \<Rightarrow> string) \<Rightarrow> (string \<Rightarrow> string \<Rightarrow> string)
   \<Rightarrow> (string \<Rightarrow> json option) \<Rightarrow> (json \<Rightarrow> string) \<Rightarrow> digest \<Rightarrow> string \<Rightarrow> ControlApi res" where
  "build_control_api hc snapshot halted clock sha hmac loads text h ts =
     (if \<not> hc_api_enabled hc then Inl ValueError
      else if hc_api_key_id hc = [] \<or> hc_api_signing_secret hc = [] then Inl ValueError
      else Inr
        \<lparr>ca_auth = \<lparr>au_keys = [(hc_api_key_id hc, hc_api_signing_secret hc)],
           au_roles = [(hc_api_key_id hc, CONFIGURED_KEY_ROLE)], au_window_s = hc_api_replay_window_s hc,
           au_clock = clock, au_sha = sha, au_hmac = hmac\<rparr>,
         ca_state = Inr snapshot, ca_simulate = None, ca_propose = None, ca_submit = None, ca_cancel = None,
         ca_halt = Some halted, ca_ceiling = None, ca_enabled = hc_api_enabled hc, ca_loads = loads, ca_text = text,
         ca_digest = h, ca_audit_ts = ts\<rparr>)"

definition host_mcp_env :: "HostConfig \<Rightarrow> json \<Rightarrow> json res \<Rightarrow> datetime \<Rightarrow> mcp_env \<Rightarrow> mcp_env" where
  \<comment> \<open>the callbacks of the built server; hashes, texts and the audit's digest are those of \<open>rest\<close>\<close>
  "host_mcp_env hc snapshot halted now rest =
     rest\<lparr>mc_state := Some (Inr snapshot), mc_simulate := None, mc_propose := None, mc_submit := None,
       mc_cancel := None, mc_halt := Some halted, mc_set_allocation := None, mc_now := now,
       mc_ttl_s := hc_approval_ttl_s hc\<rparr>"

definition build_mcp_server ::
  "HostConfig \<Rightarrow> mcp_env \<Rightarrow> jsonl option \<Rightarrow> jsonl option \<Rightarrow> ledger option \<Rightarrow> McpServer res" where
  "build_mcp_server hc e proposals_file approvals_file audit_file =
     (if \<not> hc_mcp_enabled hc then Inl ValueError
      else mcp_start e (hc_mcp_toolsets hc) None proposals_file approvals_file audit_file)"

section \<open>The surfaces only halt\<close>

lemma mutate_unwired:
  assumes "ca_simulate api = None" "ca_propose api = None" "ca_submit api = None" "ca_cancel api = None" "ca_ceiling api = None"
  shows "as_effects (fst (mutate api q r auth s)) = as_effects s"
  using assms by (simp add: mutate_def mutate_handler_def fail_state)

lemma host_dispatch:
  assumes "build_control_api hc snapshot halted clock sha hmac loads text h ts = Inr api"
  shows "as_effects (fst (dispatch api q r auth s)) \<in> {as_effects s, as_effects s @ [AHalt]}"
proof -
  have "as_effects (fst (mutate api q r auth s)) = as_effects s"
    by (rule mutate_unwired) (use assms in \<open>auto simp: build_control_api_def split: if_splits\<close>)
  then show ?thesis by (simp add: dispatch_def read_route_state fail_state ok_state split: option.split)
qed

lemma host_handle:
  assumes b: "build_control_api hc snapshot halted clock sha hmac loads text h ts = Inr api"
    and h: "handle api q s = (s', res)" and ch: "as_effects s' \<noteq> as_effects s"
  shows "as_effects s' = as_effects s @ [AHalt] \<and> hc_api_enabled hc
    \<and> pa_key_id (request_parts (auth_request q)) = hc_api_key_id hc
    \<and> verify_signature sha hmac (hc_api_signing_secret hc) (header (hq_headers q) ''X-Signature'') (request_parts (auth_request q))"
proof -
  obtain r eff where r: "as_effects s' = as_effects s @ [eff]" "authorised api q r s" "ca_enabled api"
    using handle_state[OF h ch] by blast
  have c: "ca_auth api = \<lparr>au_keys = [(hc_api_key_id hc, hc_api_signing_secret hc)],
           au_roles = [(hc_api_key_id hc, CONFIGURED_KEY_ROLE)], au_window_s = hc_api_replay_window_s hc,
           au_clock = clock, au_sha = sha, au_hmac = hmac\<rparr>" "hc_api_enabled hc"
    using b by (auto simp: build_control_api_def split: if_splits)
  have a: "pa_key_id (request_parts (auth_request q)) = hc_api_key_id hc
    \<and> verify_signature sha hmac (hc_api_signing_secret hc) (header (hq_headers q) ''X-Signature'') (request_parts (auth_request q))"
    using r(2) unfolding authorised_def c(1) Let_def by (auto split: if_splits)
  have "eff = AHalt"
    using h
  proof (cases rule: handle_cases)
    case (dispatched au v ro)
    have "as_effects s' = as_effects (fst (dispatch api q ro v (s\<lparr>as_auth := au\<rparr>)))"
      using dispatched(6) fail_state(2) by (metis fst_conv)
    then show ?thesis using host_dispatch[OF b, of q ro v "s\<lparr>as_auth := au\<rparr>"] r(1) ch by auto
  next
    case (early st code)
    then show ?thesis using ch fail_state(2) by (metis fst_conv)
  next
    case (raised x)
    then show ?thesis using ch by simp
  next
    case (refused au v st code)
    have "as_effects s' = as_effects (s\<lparr>as_auth := au\<rparr>)" using refused(2) fail_state(2) by (metis fst_conv)
    then show ?thesis using ch by simp
  qed
  then show ?thesis using r(1) a c(2) by blast
qed

lemma unwired_tools:
  assumes "mc_simulate e = None" "mc_submit e = None" "mc_cancel e = None" "mc_set_allocation e = None"
  shows "fst (run_tool e name args s) \<in> {s, s\<lparr>ms_effects := ms_effects s @ [EHaltTrading]\<rparr>}"
proof -
  have "fst (create_proposal e (JObj args) s) = s"
    using assms(1) by (simp add: create_proposal_def split: option.split)
  then show ?thesis using tool_halt_cases[of e s] assms
    by (auto simp: run_tool_fst tool_propose_state tool_submit_def tool_cancel_def tool_set_allocation_def)
qed

lemma host_mcp:
  assumes "s' = fst (mcp_call (host_mcp_env hc snapshot halted now rest) name arguments s)"
  shows "ms_effects s' \<in> {ms_effects s, ms_effects s @ [EHaltTrading]}" "ms_proposals s' = ms_proposals s"
    "ms_consumed s' = ms_consumed s"
proof -
  let ?e = "host_mcp_env hc snapshot halted now rest"
  have u: "fst (run_tool ?e name args s) \<in> {s, s\<lparr>ms_effects := ms_effects s @ [EHaltTrading]\<rparr>}" for args
    by (rule unwired_tools) (simp_all add: host_mcp_env_def)
  obtain t ts out p pid s1 where m: "s' = fst (record_call ?e t ts out p pid s1)"
      "s1 \<in> {s, s\<lparr>ms_effects := ms_effects s @ [EHaltTrading]\<rparr>}"
    using mcp_call_recorded[of ?e name arguments s] u assms by (metis insertI1)
  then show "ms_effects s' \<in> {ms_effects s, ms_effects s @ [EHaltTrading]}" "ms_proposals s' = ms_proposals s"
    "ms_consumed s' = ms_consumed s"
    by (auto simp: record_call_state)
qed

section \<open>The port of the MCP surface\<close>

definition mcp_split_bind :: "(string \<Rightarrow> bool option) \<Rightarrow> string \<Rightarrow> (string \<times> int) res" where
  \<comment> \<open>without a port, that of the control API\<close>
  "mcp_split_bind ip_loopback bind =
     (let (h, port_text) = (case rpartition CHR '':'' bind of None \<Rightarrow> (bind, ''8787'') | Some p \<Rightarrow> p);
          host = (if h = [] then ''127.0.0.1'' else h) in
      if \<not> (host = ''localhost'' \<or> ip_loopback host = Some True) then Inl ValueError
      else (case int_of_text port_text of None \<Rightarrow> Inl ValueError | Some port \<Rightarrow> Inr (host, port)))"

lemma binds_loopback:
  "split_bind ip bind = Inr (host, port) \<Longrightarrow> is_loopback ip host"
  "mcp_split_bind ip bind = Inr (host, port) \<Longrightarrow> host = ''localhost'' \<or> ip host = Some True"
  by (auto simp: split_bind_def mcp_split_bind_def Let_def split: option.splits if_splits prod.splits)

lemma default_binds_clash:
  \<comment> \<open>the shipped defaults give both surfaces the same address\<close>
  assumes "ip ''127.0.0.1'' = Some True"
  shows "split_bind ip ''127.0.0.1:8787'' = mcp_split_bind ip ''127.0.0.1''"
proof -
  have "rpartition CHR '':'' ''127.0.0.1:8787'' = Some (''127.0.0.1'', ''8787'')" "rpartition CHR '':'' ''127.0.0.1'' = None"
    "unbracket ''127.0.0.1'' = ''127.0.0.1''" by code_simp+
  then show ?thesis using assms by (simp add: split_bind_def mcp_split_bind_def is_loopback_def split: option.split)
qed

end
