(* ===== verification/Cli.thy ===== *)
theory Cli
  imports Outbound MandateFile KillSwitch Contracts
begin

text \<open>
  The commands of \<open>signald/cli.py\<close> that change or judge state: promoting a symbol into the mandate and
  dropping it, the kill switch, the operator's approval record, the check of the ledger, the probe of an
  artifact and the summary lines of the hold ledger. A command gives its exit code or raises; what it
  prints, the parsing of its arguments and the building of its configuration are left out.
\<close>

section \<open>Symbols\<close>

definition symbol_char :: "char \<Rightarrow> bool" where
  "symbol_char c \<longleftrightarrow> (CHR ''A'' \<le> c \<and> c \<le> CHR ''Z'') \<or> is_digit c \<or> c = CHR ''.'' \<or> c = CHR ''-''"

definition plausible_symbol :: "string \<Rightarrow> bool" where
  "plausible_symbol s \<longleftrightarrow>
     (case s of [] \<Rightarrow> False
      | c # cs \<Rightarrow> CHR ''A'' \<le> c \<and> c \<le> CHR ''Z'' \<and> length cs \<le> 9 \<and> list_all symbol_char cs)"

definition symbol_arg :: "string \<Rightarrow> string res" where
  \<comment> \<open>stripped, so the pattern's end is the text's\<close>
  "symbol_arg raw =
     (let s = str_upper (strip raw) in if plausible_symbol s then Inr s else Inl ValueError)"

section \<open>The mandate commands\<close>

record cli_env =
  ci_text :: "json \<Rightarrow> string"
  ci_hash :: json_hash
  ci_digest :: digest
  ci_archive_ts :: string
  ci_audit_ts :: string
  ci_reference :: ref_transport
  ci_now :: datetime
  ci_staleness_s :: pyfloat

record cli_state =
  cs_mandate :: mandate_files
  cs_audit :: ledger
  cs_kill :: kill_files

definition holdings_precheck :: "cli_env \<Rightarrow> string \<Rightarrow> bool option res" where
  \<comment> \<open>\<open>None\<close> where holdings are unknown; only \<open>ReferenceUnavailable\<close> is caught\<close>
  "holdings_precheck e symbol =
     (case ref_snapshot (ci_text e) (ci_reference e) (ci_staleness_s e) (ci_now e) symbol of
        Inl OtherError \<Rightarrow> Inr None
      | Inl x \<Rightarrow> Inl x
      | Inr r \<Rightarrow> Inr (map_option (\<lambda>held. symbol \<in> set held) (rf_held_symbols r)))"

definition allowed_of :: "(string \<times> json) list \<Rightarrow> json list res" where
  \<comment> \<open>\<open>doc["symbols"]["allowed"]\<close>\<close>
  "allowed_of d =
     (case map_of d ''symbols'' of
        None \<Rightarrow> Inl KeyError
      | Some (JObj symbols) \<Rightarrow> (case map_of symbols ''allowed'' of
            None \<Rightarrow> Inl KeyError | Some v \<Rightarrow> list_of_json v)
      | Some _ \<Rightarrow> Inl TypeError)"

definition with_allowed :: "(string \<times> json) list \<Rightarrow> json list \<Rightarrow> (string \<times> json) list" where
  "with_allowed d xs =
     AList.map_entry ''symbols'' (\<lambda>v. case v of JObj symbols \<Rightarrow> JObj (AList.update ''allowed'' (JList xs) symbols) | _ \<Rightarrow> v) d"

definition text_of :: "json \<Rightarrow> string" where
  "text_of v = (case v of JStr s \<Rightarrow> s | _ \<Rightarrow> [])"

definition is_text :: "json \<Rightarrow> bool" where
  "is_text v \<longleftrightarrow> (case v of JStr _ \<Rightarrow> True | _ \<Rightarrow> False)"

definition add_symbol :: "string \<Rightarrow> json list \<Rightarrow> json list res" where
  \<comment> \<open>\<open>sorted(set(xs) | {symbol})\<close>: what is no text does not sort beside the symbol\<close>
  "add_symbol symbol xs =
     (if list_all is_text xs then Inr (map JStr (sort (remdups (symbol # map text_of xs)))) else Inl TypeError)"

definition drop_symbol :: "(json \<Rightarrow> string) \<Rightarrow> string \<Rightarrow> json list \<Rightarrow> json list" where
  "drop_symbol rp symbol xs = filter (\<lambda>v. str_upper (py_str rp v) \<noteq> symbol) xs"

definition caught :: "exc \<Rightarrow> bool" where
  \<comment> \<open>\<open>except (OSError, MandateError, ValueError, KeyError, TypeError)\<close>\<close>
  "caught x \<longleftrightarrow> x \<in> {MandateError, ValueError, KeyError, TypeError}"

definition resign ::
  "cli_env \<Rightarrow> (json list \<Rightarrow> json list res) \<Rightarrow> (string \<times> json) list \<Rightarrow> cli_state \<Rightarrow> cli_state \<times> SignedMandate res" where
  \<comment> \<open>read the document again, change its list, write it signed\<close>
  "resign e change provenance s =
     (case mf_doc (cs_mandate s) of
        Some (Some (JObj d)) \<Rightarrow>
          (case rbind (allowed_of d) change of
             Inl x \<Rightarrow> (s, Inl x)
           | Inr xs \<Rightarrow>
               (let (files, r) = write_mandate (ci_text e) (ci_hash e) (ci_archive_ts e) (with_allowed d xs) provenance (cs_mandate s)
                in (s\<lparr>cs_mandate := files\<rparr>, r)))
      | Some (Some _) \<Rightarrow> (s, Inl TypeError)
      | _ \<Rightarrow> (s, Inl ValueError))"

definition audited :: "cli_env \<Rightarrow> string \<Rightarrow> string \<Rightarrow> (string \<times> pyval) list \<Rightarrow> cli_state \<Rightarrow> cli_state \<times> int res" where
  "audited e kind reason data s =
     (case ledger_append (ci_digest e) (ci_audit_ts e) kind reason data (cs_audit s) of
        Inl x \<Rightarrow> (s, Inl x) | Inr f \<Rightarrow> (s\<lparr>cs_audit := f\<rparr>, Inr 0))"

definition finish_resign ::
  "cli_env \<Rightarrow> string \<Rightarrow> string \<Rightarrow> (SignedMandate \<Rightarrow> (string \<times> pyval) list) \<Rightarrow> cli_state \<times> SignedMandate res \<Rightarrow> cli_state \<times> int res" where
  "finish_resign e kind reason data m =
     (case m of
        (s, Inl x) \<Rightarrow> (s, if caught x then Inr 1 else Inl x)
      | (s, Inr updated) \<Rightarrow> audited e kind reason (data updated) s)"

definition loaded_symbol :: "cli_env \<Rightarrow> string \<Rightarrow> cli_state \<Rightarrow> (string \<times> SignedMandate) res" where
  "loaded_symbol e raw s =
     rbind (symbol_arg raw) (\<lambda>symbol. rmap (Pair symbol) (load_mandate (ci_text e) (ci_hash e) (mf_doc (cs_mandate s))))"

definition mandate_add :: "cli_env \<Rightarrow> string \<Rightarrow> string \<Rightarrow> string \<Rightarrow> cli_state \<Rightarrow> cli_state \<times> int res" where
  "mandate_add e raw operator reason s =
     (case loaded_symbol e raw s of
        Inl x \<Rightarrow> (s, if x \<in> {ValueError, MandateError} then Inr 1 else Inl x)
      | Inr (symbol, m) \<Rightarrow>
        (if symbol \<in> set (md_allowed m) then (s, Inr 0)
         else finish_resign e ''mandate_added'' (symbol @ '' added to the mandate'')
           (\<lambda>updated. [(''ticker'', Plain (JStr symbol)), (''operator'', Plain (JStr operator)), (''why'', Plain (JStr reason)),
             (''old_hash'', Plain (JStr (sm_hash m))), (''new_hash'', Plain (JStr (sm_hash updated)))])
           (resign e (add_symbol symbol)
             [(''actor'', JStr ''operator''), (''action'', JStr ''mandate_add''), (''ticker'', JStr symbol),
              (''operator'', JStr operator), (''reason'', JStr reason)] s)))"

definition opt_held :: "bool option \<Rightarrow> json" where
  "opt_held h = (case h of None \<Rightarrow> JNull | Some b \<Rightarrow> JBool b)"

definition mandate_remove :: "cli_env \<Rightarrow> string \<Rightarrow> string \<Rightarrow> string \<Rightarrow> bool \<Rightarrow> cli_state \<Rightarrow> cli_state \<times> int res" where
  "mandate_remove e raw operator reason force s =
     (case loaded_symbol e raw s of
        Inl x \<Rightarrow> (s, if x \<in> {ValueError, MandateError} then Inr 1 else Inl x)
      | Inr (symbol, m) \<Rightarrow>
        (if symbol \<notin> set (md_allowed m) then (s, Inr 0)
         else if length (md_allowed m) \<le> 1 then (s, Inr 1)
         else (case holdings_precheck e symbol of
             Inl x \<Rightarrow> (s, Inl x)
           | Inr held \<Rightarrow>
             (if held \<noteq> Some False \<and> \<not> force then (s, Inr 1)
              else finish_resign e ''mandate_removed'' (symbol @ '' removed from the mandate'')
                (\<lambda>updated. [(''ticker'', Plain (JStr symbol)), (''operator'', Plain (JStr operator)), (''why'', Plain (JStr reason)),
                  (''held'', Plain (opt_held held)), (''old_hash'', Plain (JStr (sm_hash m))),
                  (''new_hash'', Plain (JStr (sm_hash updated)))])
                (resign e (\<lambda>xs. Inr (drop_symbol (ci_text e) symbol xs))
                  [(''actor'', JStr ''operator''), (''action'', JStr ''mandate_remove''), (''ticker'', JStr symbol),
                   (''operator'', JStr operator), (''reason'', JStr reason), (''held'', opt_held held)] s)))))"

section \<open>The other commands\<close>

definition cli_halt :: "cli_env \<Rightarrow> string \<Rightarrow> bool \<Rightarrow> string \<Rightarrow> string \<Rightarrow> cli_state \<Rightarrow> cli_state \<times> int res" where
  \<comment> \<open>\<open>fresh\<close> is a new episode id; an absent reference is the empty one\<close>
  "cli_halt e fresh resume_it post_mortem operator s =
     (if resume_it then
        (if post_mortem = [] then (s, Inr 1)
         else audited e ''kill_switch_resumed'' (''re-armed after '' @ post_mortem)
           [(''post_mortem'', Plain (JStr post_mortem)), (''operator'', Plain (JStr operator))]
           (s\<lparr>cs_kill := resume (cs_kill s)\<rparr>))
      else (case halt_now fresh (ci_now e) (cs_kill s) of
          (kf, Inl x) \<Rightarrow> (s\<lparr>cs_kill := kf\<rparr>, Inl x)
        | (kf, Inr (episode, since)) \<Rightarrow>
            audited e ''kill_switch'' (''manual halt by '' @ operator) [(''episode'', Plain episode)] (s\<lparr>cs_kill := kf\<rparr>)))"

definition cli_approve :: "cli_env \<Rightarrow> string \<Rightarrow> string \<Rightarrow> string \<Rightarrow> cli_state \<Rightarrow> cli_state \<times> int res" where
  "cli_approve e action signal_id operator s =
     audited e (''approval_'' @ action) (''operator '' @ action @ '' for '' @ signal_id)
       [(''signal_id'', Plain (JStr signal_id)), (''operator'', Plain (JStr operator))] s"

definition cli_verify :: "cli_env \<Rightarrow> cli_state \<Rightarrow> int res" where
  "cli_verify e s = rmap (\<lambda>(ok, at'). if ok then 0 else 1) (verify_ledger (ci_digest e) (cs_audit s))"

definition cli_probe :: "(json \<Rightarrow> string) \<Rightarrow> json_hash \<Rightarrow> (int \<Rightarrow> int) \<Rightarrow> datetime \<Rightarrow> json_file \<Rightarrow> int res" where
  \<comment> \<open>an artifact that is missing, unreadable or refused by the boundary exits 1\<close>
  "cli_probe rp h loc now artifact =
     (case artifact of
        Some (Some raw) \<Rightarrow>
          (case validate_envelope rp h loc now raw of
             Inl (EnvelopeError r) \<Rightarrow> Inr 1 | Inl x \<Rightarrow> Inl x | Inr v \<Rightarrow> Inr 0)
      | _ \<Rightarrow> Inr 1)"

definition monitor_counts :: "(string \<times> json) list list \<Rightarrow> nat \<times> nat" where
  \<comment> \<open>the holds and those outside the mandate\<close>
  "monitor_counts rows = (length rows, length (filter (\<lambda>m. \<not> json_truthy (jget m ''in_mandate'')) rows))"

section \<open>What the mandate commands change\<close>

lemma symbols_of_ok:
  assumes "symbols_of d = Inr (al, sh)"
  obtains symbols where "map_of d ''symbols'' = Some (JObj symbols)" "map_of symbols ''allowed'' = Some (JList al)"
    "al \<noteq> []" "sh = json_truthy (jget symbols ''shorts'')"
proof -
  obtain symbols where "json_or (jget d ''symbols'') (JObj []) = JObj symbols"
    "json_or (jget symbols ''allowed'') (JList []) = JList al" "al \<noteq> []" "sh = json_truthy (jget symbols ''shorts'')"
    using assms by (auto simp: symbols_of_def split: json.splits list.splits)
  then show thesis using that[of symbols]
    by (auto simp: json_or_def jget_def split: if_splits option.splits)
qed

lemma map_of_with_allowed:
  "map_of (with_allowed d xs) k =
     (if k = ''symbols'' then map_option (\<lambda>v. case v of JObj symbols \<Rightarrow> JObj (AList.update ''allowed'' (JList xs) symbols) | _ \<Rightarrow> v) (map_of d k)
      else map_of d k)"
  unfolding with_allowed_def by (induction d) auto

lemma update_ne [simp]: "AList.update k v d \<noteq> []"
  by (cases d) auto

lemma symbols_of_with_allowed:
  assumes "symbols_of d = Inr (al, sh)" "xs \<noteq> []"
  shows "symbols_of (signed_doc h (with_allowed d xs)) = Inr (xs, sh)"
proof -
  obtain symbols where s: "map_of d ''symbols'' = Some (JObj symbols)" "map_of symbols ''allowed'' = Some (JList al)"
    "sh = json_truthy (jget symbols ''shorts'')" by (rule symbols_of_ok[OF assms(1)])
  have "jget (signed_doc h (with_allowed d xs)) ''symbols'' = JObj (AList.update ''allowed'' (JList xs) symbols)"
    using s(1) by (simp add: jget_def map_of_signed map_of_with_allowed)
  moreover have "jget (AList.update ''allowed'' (JList xs) symbols) ''allowed'' = JList xs"
    "jget (AList.update ''allowed'' (JList xs) symbols) ''shorts'' = jget symbols ''shorts''"
    by (simp_all add: jget_def update_conv')
  moreover obtain y ys where "xs = y # ys" using assms(2) by (cases xs) auto
  ultimately show ?thesis using s(3) by (simp add: symbols_of_def json_or_def del: update.simps)
qed

definition same_limits :: "SignedMandate \<Rightarrow> SignedMandate \<Rightarrow> bool" where
  \<comment> \<open>the same mandate but for its list of symbols and its hash\<close>
  "same_limits m m' \<longleftrightarrow> m' = m\<lparr>md_allowed := md_allowed m', sm_hash := sm_hash m'\<rparr>"

lemma mandate_of_same:
  assumes k: "\<And>k. k \<notin> {''symbols'', ''hash''} \<Longrightarrow> map_of d' k = map_of d k"
    and m: "mandate_of rp h d al sh c x = Inr m"
  shows "mandate_of rp h d' al' sh c x =
    Inr (m\<lparr>md_allowed := remdups (map (\<lambda>s. str_upper (py_str rp s)) al'), sm_hash := mandate_hash h d'\<rparr>)"
proof -
  have eqs: "text_field rp d' ''id'' = text_field rp d ''id''" "text_field rp d' ''owner'' = text_field rp d ''owner''"
    "float_field d' ''max_notional_per_order_usd'' = float_field d ''max_notional_per_order_usd''"
    "float_field d' ''max_total_exposure_usd'' = float_field d ''max_total_exposure_usd''"
    "float_or_zero d' ''min_cash_reserve_usd'' = float_or_zero d ''min_cash_reserve_usd''"
    "float_or_zero d' ''daily_loss_limit_usd'' = float_or_zero d ''daily_loss_limit_usd''"
    "jget d' ''max_daily_trades'' = jget d ''max_daily_trades''" "jget d' ''approval_mode'' = jget d ''approval_mode''"
    "jget d' ''kill_switch_path'' = jget d ''kill_switch_path''"
    by (simp_all add: text_field_def float_field_def float_or_zero_def require_field_def jget_def k)
  show ?thesis
    using m unfolding mandate_of_def eqs by (elim rbind_InrE rmap_InrE) simp
qed

lemma resigned:
  assumes "load_mandate rp h (mf_doc files) = Inr m" "mf_doc files = Some (Some (JObj d))" "allowed_of d = Inr old"
    and "xs \<noteq> []" and "write_mandate rp h ts (with_allowed d xs) provenance files = (files', Inr m')"
  shows "load_mandate rp h (mf_doc files') = Inr m'" "same_limits m m'"
    "set (md_allowed m) = (\<lambda>s. str_upper (py_str rp s)) ` set old" "set (md_allowed m') = (\<lambda>s. str_upper (py_str rp s)) ` set xs"
proof -
  have p: "parse_mandate rp h (JObj d) = Inr m" using assms(1,2) by (simp add: load_mandate_def)
  obtain al sh c x where s: "symbols_of d = Inr (al, sh)" "mandate_date rp d ''created'' = Inr c" "mandate_date rp d ''expires'' = Inr x"
    "mandate_of rp h d al sh c x = Inr m" using p by (auto simp: parse_mandate_def rbind_Inr_iff split: if_splits)
  have old: "old = al"
  proof (rule symbols_of_ok[OF s(1)])
    fix symbols assume "map_of d ''symbols'' = Some (JObj symbols)" "map_of symbols ''allowed'' = Some (JList al)"
    then show ?thesis using assms(3) by (simp add: allowed_of_def)
  qed
  let ?d = "signed_doc h (with_allowed d xs)"
  have w: "mf_doc files' = Some (Some (JObj ?d))" "parse_mandate rp h (JObj ?d) = Inr m'"
    using assms(5) by (auto simp: write_mandate_def Let_def split: sum.splits if_splits)
  show "load_mandate rp h (mf_doc files') = Inr m'" using w by (simp add: load_mandate_def)
  have k: "map_of ?d k = map_of d k" if "k \<notin> {''symbols'', ''hash''}" for k
    using that by (simp add: map_of_signed map_of_with_allowed)
  have "mandate_date rp ?d ''created'' = Inr c" "mandate_date rp ?d ''expires'' = Inr x"
    using s(2,3) k[of "''created''"] k[of "''expires''"] by (simp_all add: mandate_date_def require_field_def)
  then have "rbind (mandate_of rp h ?d xs sh c x) (\<lambda>m. if hash_signed h ?d then Inr m else Inl MandateError) = Inr m'"
    using w(2) symbols_of_with_allowed[OF s(1) assms(4), of h] by (auto simp: parse_mandate_def split: if_splits)
  then have m': "mandate_of rp h ?d xs sh c x = Inr m'" by (auto simp: rbind_Inr_iff split: if_splits)
  show "same_limits m m'"
    using mandate_of_same[OF k s(4), of xs] m' by (auto simp: same_limits_def)
  show "set (md_allowed m) = (\<lambda>s. str_upper (py_str rp s)) ` set old"
    using mandate_of_fields[OF s(4)] old by simp
  show "set (md_allowed m') = (\<lambda>s. str_upper (py_str rp s)) ` set xs"
    using mandate_of_fields[OF m'] by simp
qed

lemma parsed_allowed:
  assumes "parse_mandate rp h (JObj d) = Inr m" "allowed_of d = Inr old"
  shows "set (md_allowed m) = (\<lambda>s. str_upper (py_str rp s)) ` set old" "old \<noteq> []"
proof -
  obtain al sh c x where s: "symbols_of d = Inr (al, sh)" "mandate_of rp h d al sh c x = Inr m"
    using assms(1) by (auto simp: parse_mandate_def rbind_Inr_iff split: if_splits)
  obtain symbols where y: "map_of d ''symbols'' = Some (JObj symbols)" "map_of symbols ''allowed'' = Some (JList al)" "al \<noteq> []"
    by (rule symbols_of_ok[OF s(1)])
  then have "old = al" using assms(2) by (simp add: allowed_of_def)
  then show "set (md_allowed m) = (\<lambda>s. str_upper (py_str rp s)) ` set old" "old \<noteq> []"
    using mandate_of_fields[OF s(2)] y(3) by simp_all
qed

lemma loaded_distinct:
  assumes "load_mandate rp h file = Inr m"
  shows "distinct (md_allowed m)"
proof -
  have "\<exists>d al sh c x. mandate_of rp h d al sh c x = Inr m"
    using assms by (auto simp: load_mandate_def parse_mandate_def rbind_Inr_iff split: option.splits json.splits if_splits) blast
  then obtain d al sh c x where "mandate_of rp h d al sh c x = Inr m" by blast
  then show ?thesis unfolding mandate_of_def by (elim rbind_InrE rmap_InrE) simp
qed

lemma finish_resign_ok:
  assumes "finish_resign e kind reason data (s1, r) = (s', Inr 0)"
  obtains m row where "r = Inr m" "cs_audit s' = cs_audit s1 @ [Some row]" "cs_mandate s' = cs_mandate s1" "cs_kill s' = cs_kill s1"
  using assms by (auto simp: finish_resign_def audited_def ledger_append_def rmap_Inr_iff split: sum.splits if_splits)

lemma resign_ok:
  assumes "resign e change provenance s = (s1, Inr m')" and "load_mandate (ci_text e) (ci_hash e) (mf_doc (cs_mandate s)) = Inr m"
    and ne: "\<And>old xs. change old = Inr xs \<Longrightarrow> old \<noteq> [] \<Longrightarrow> set (md_allowed m) = (\<lambda>s. str_upper (py_str (ci_text e) s)) ` set old \<Longrightarrow> xs \<noteq> []"
  obtains old xs where "change old = Inr xs" "load_mandate (ci_text e) (ci_hash e) (mf_doc (cs_mandate s1)) = Inr m'" "same_limits m m'"
    "set (md_allowed m) = (\<lambda>s. str_upper (py_str (ci_text e) s)) ` set old"
    "set (md_allowed m') = (\<lambda>s. str_upper (py_str (ci_text e) s)) ` set xs" "cs_audit s1 = cs_audit s" "cs_kill s1 = cs_kill s"
proof -
  obtain d where d: "mf_doc (cs_mandate s) = Some (Some (JObj d))" "parse_mandate (ci_text e) (ci_hash e) (JObj d) = Inr m"
    using assms(2) by (auto simp: load_mandate_def parse_mandate_def split: option.splits json.splits)
  obtain old xs files' where o: "allowed_of d = Inr old" "change old = Inr xs" "s1 = s\<lparr>cs_mandate := files'\<rparr>"
    "write_mandate (ci_text e) (ci_hash e) (ci_archive_ts e) (with_allowed d xs) provenance (cs_mandate s) = (files', Inr m')"
    using assms(1) d(1) by (auto simp: resign_def rbind_Inr_iff split: sum.splits prod.splits)
  have "set (md_allowed m) = (\<lambda>s. str_upper (py_str (ci_text e) s)) ` set old \<and> old \<noteq> []"
    using parsed_allowed[OF d(2) o(1)] by simp
  then have x: "xs \<noteq> []" using ne[OF o(2)] by blast
  show thesis
    using that[OF o(2)] resigned[OF assms(2) d(1) o(1) x o(4)] o(3) by simp
qed

lemma symbol_char_upper:
  assumes "symbol_char c"
  shows "char_upper c = c"
proof -
  have z: "CHR ''Z'' < CHR ''a''" "CHR ''9'' < CHR ''a''" "CHR ''.'' < CHR ''a''" "CHR ''-'' < CHR ''a''" by code_simp+
  have "c < CHR ''a''"
    using assms z le_less_trans[OF _ z(1), of c] le_less_trans[OF _ z(2), of c] by (auto simp: symbol_char_def is_digit_def)
  then have "\<not> CHR ''a'' \<le> c" by (simp only: not_le)
  then show ?thesis by (simp add: char_upper_def)
qed

lemma symbol_arg_upper:
  assumes "symbol_arg raw = Inr symbol"
  shows "str_upper symbol = symbol" "plausible_symbol symbol"
proof -
  show p: "plausible_symbol symbol" using assms by (auto simp: symbol_arg_def Let_def split: if_splits)
  then obtain c cs where "symbol = c # cs" "symbol_char c" "list_all symbol_char cs"
    by (auto simp: plausible_symbol_def symbol_char_def split: list.splits)
  then show "str_upper symbol = symbol" unfolding str_upper_def
    by (auto simp: symbol_char_upper list_all_iff intro!: map_idI)
qed

lemma add_symbol_ok:
  assumes "add_symbol symbol old = Inr xs"
  shows "set xs = insert (JStr symbol) (set old)" "xs \<noteq> []"
proof -
  have t: "list_all is_text old" using assms by (simp add: add_symbol_def split: if_splits)
  have "JStr (text_of v) = v" if "v \<in> set old" for v
    using t that by (cases v) (auto simp: is_text_def text_of_def list_all_iff)
  then have o: "(\<lambda>v. JStr (text_of v)) ` set old = set old" by simp
  have "set xs = JStr ` insert symbol (text_of ` set old)" using assms t
    by (simp add: add_symbol_def del: sort_key_simps remdups.simps list.map(2) split: if_splits) (force simp: image_iff)
  then show s: "set xs = insert (JStr symbol) (set old)" using o by (simp add: image_image)
  show "xs \<noteq> []" using s by auto
qed

lemma mandate_add_widens:
  assumes "mandate_add e raw operator why s = (s', Inr 0)" and "symbol_arg raw = Inr symbol"
    and "load_mandate (ci_text e) (ci_hash e) (mf_doc (cs_mandate s)) = Inr m" and "symbol \<notin> set (md_allowed m)"
  obtains m' row where "load_mandate (ci_text e) (ci_hash e) (mf_doc (cs_mandate s')) = Inr m'" "same_limits m m'"
    "set (md_allowed m') = insert symbol (set (md_allowed m))" "cs_audit s' = cs_audit s @ [Some row]" "cs_kill s' = cs_kill s"
proof -
  obtain kind reason data prov where fr: "finish_resign e kind reason data (resign e (add_symbol symbol) prov s) = (s', Inr 0)"
    using assms by (auto simp: mandate_add_def loaded_symbol_def)
  obtain s1 r where r: "resign e (add_symbol symbol) prov s = (s1, r)" "finish_resign e kind reason data (s1, r) = (s', Inr 0)"
    using fr by (cases "resign e (add_symbol symbol) prov s") simp
  obtain m' row where f: "r = Inr m'" "cs_audit s' = cs_audit s1 @ [Some row]" "cs_mandate s' = cs_mandate s1" "cs_kill s' = cs_kill s1"
    by (rule finish_resign_ok[OF r(2)])
  have up: "str_upper symbol = symbol" using symbol_arg_upper[OF assms(2)] by simp
  obtain old xs where o: "add_symbol symbol old = Inr xs" "load_mandate (ci_text e) (ci_hash e) (mf_doc (cs_mandate s1)) = Inr m'"
    "same_limits m m'" "set (md_allowed m) = (\<lambda>s. str_upper (py_str (ci_text e) s)) ` set old"
    "set (md_allowed m') = (\<lambda>s. str_upper (py_str (ci_text e) s)) ` set xs" "cs_audit s1 = cs_audit s" "cs_kill s1 = cs_kill s"
    by (rule resign_ok[OF r(1)[unfolded f(1)] assms(3) add_symbol_ok(2)])
  have "set (md_allowed m') = insert symbol (set (md_allowed m))" unfolding o(4,5) add_symbol_ok(1)[OF o(1)] by (simp add: up)
  then show thesis using that[of m' row] o f by simp
qed

lemma mandate_remove_narrows:
  assumes "mandate_remove e raw operator why force s = (s', Inr 0)" and "symbol_arg raw = Inr symbol"
    and "load_mandate (ci_text e) (ci_hash e) (mf_doc (cs_mandate s)) = Inr m" and "symbol \<in> set (md_allowed m)"
  obtains m' row where "load_mandate (ci_text e) (ci_hash e) (mf_doc (cs_mandate s')) = Inr m'" "same_limits m m'"
    "set (md_allowed m') = set (md_allowed m) - {symbol}" "set (md_allowed m') \<noteq> {}" "cs_audit s' = cs_audit s @ [Some row]"
    "force \<or> holdings_precheck e symbol = Inr (Some False)"
proof -
  have two: "\<not> length (md_allowed m) \<le> 1" using assms by (auto simp: mandate_remove_def loaded_symbol_def split: if_splits)
  obtain held where h: "holdings_precheck e symbol = Inr held" "\<not> (held \<noteq> Some False \<and> \<not> force)"
    using assms two by (auto simp: mandate_remove_def loaded_symbol_def split: sum.splits if_splits)
  obtain kind reason data prov where fr:
    "finish_resign e kind reason data (resign e (\<lambda>xs. Inr (drop_symbol (ci_text e) symbol xs)) prov s) = (s', Inr 0)"
    using assms two h by (auto simp: mandate_remove_def loaded_symbol_def)
  obtain s1 r where r: "resign e (\<lambda>xs. Inr (drop_symbol (ci_text e) symbol xs)) prov s = (s1, r)"
    "finish_resign e kind reason data (s1, r) = (s', Inr 0)"
    using fr by (cases "resign e (\<lambda>xs. Inr (drop_symbol (ci_text e) symbol xs)) prov s") simp
  obtain m' row where f: "r = Inr m'" "cs_audit s' = cs_audit s1 @ [Some row]" "cs_mandate s' = cs_mandate s1" "cs_kill s' = cs_kill s1"
    by (rule finish_resign_ok[OF r(2)])
  have many: "set (md_allowed m) - {symbol} \<noteq> {}"
  proof -
    have "distinct (md_allowed m)" using assms(3) by (rule loaded_distinct)
    then have "card (set (md_allowed m)) = length (md_allowed m)" by (rule distinct_card)
    then have "1 < card (set (md_allowed m))" using two by simp
    then show ?thesis using card_mono[of "{symbol}" "set (md_allowed m)"] by auto
  qed
  obtain old xs where o: "Inr (drop_symbol (ci_text e) symbol old) = (Inr xs :: json list res)"
    "load_mandate (ci_text e) (ci_hash e) (mf_doc (cs_mandate s1)) = Inr m'"
    "same_limits m m'" "set (md_allowed m) = (\<lambda>s. str_upper (py_str (ci_text e) s)) ` set old"
    "set (md_allowed m') = (\<lambda>s. str_upper (py_str (ci_text e) s)) ` set xs" "cs_audit s1 = cs_audit s" "cs_kill s1 = cs_kill s"
  proof (rule resign_ok[OF r(1)[unfolded f(1)] assms(3)])
    fix old xs assume "Inr (drop_symbol (ci_text e) symbol old) = (Inr xs :: json list res)"
      "set (md_allowed m) = (\<lambda>s. str_upper (py_str (ci_text e) s)) ` set old"
    then show "xs \<noteq> []" using many by (auto simp: drop_symbol_def filter_empty_conv)
  qed
  have "set (md_allowed m') = set (md_allowed m) - {symbol}" using o(1) unfolding o(4,5) by (auto simp: drop_symbol_def)
  then show thesis using that[of m' row] o f many h by auto
qed

end
