(* ===== verification/ControlSafety.thy ===== *)
theory ControlSafety
  imports ControlHost Cli
begin

text \<open>
  Properties of the surfaces an operator or a language model reaches the program through: the tool server
  (\<open>Mcp\<close>), the signed API (\<open>ControlApi\<close>), their host (\<open>ControlHost\<close>) and the mandate commands (\<open>Cli\<close>).
  Each is followed by a concrete instance.
\<close>

section \<open>A server with one approved proposal\<close>

definition ex_mcp_env :: mcp_env where
  "ex_mcp_env =
     \<lparr>mc_state = None, mc_simulate = Some (\<lambda>_. Inr (JObj [(''verdict'', JStr ''allow'')])), mc_propose = None,
      mc_submit = Some Inr, mc_cancel = Some Inr, mc_halt = Some (Inr (JObj [])), mc_set_allocation = Some Inr,
      mc_now = \<lparr>wall_us = 63776000000000000, utc_off = None\<rparr>, mc_ttl_s = 900, mc_hash = (\<lambda>_. ''0123456789abcdef0''),
      mc_dumps = (\<lambda>_. []), mc_text = (\<lambda>_. []), mc_exc_name = (\<lambda>_. []), mc_digest = (\<lambda>_ _. ''d''), mc_audit_ts = []\<rparr>"

definition ex_draft :: json where
  "ex_draft = JObj [(''symbol'', JStr ''AAPL''), (''side'', JStr ''buy''), (''intent'', JStr ''open'')]"

definition ex_mcp :: McpServer where
  "ex_mcp =
     \<lparr>ms_toolsets = [''read'', ''simulate'', ''propose'', ''mutate''], ms_proposals = [], ms_approvals = [], ms_consumed = [],
      ms_proposals_file = Some [], ms_approvals_file = Some [], ms_audit = None, ms_effects = []\<rparr>"

definition ex_submit :: json where
  "ex_submit = JObj [(''proposal_id'', JStr ''prop_0123456789abcdef''), (''approval_id'', JStr ''appr_0123456789abcdef'')]"

definition ex_ops :: "mcp_op list" where
  "ex_ops = [OCall ex_mcp_env ''propose_order'' ex_draft, OApprove ex_mcp_env ''prop_0123456789abcdef'' ''desk'',
     OCall ex_mcp_env ''submit_order'' ex_submit, OCall ex_mcp_env ''submit_order'' ex_submit, ORestart ex_mcp_env,
     OCall ex_mcp_env ''submit_order'' ex_submit]"

lemma ex_ops_effects:
  "ms_effects (mcp_life ex_mcp ex_ops) = [ESubmit ''prop_0123456789abcdef'' ''appr_0123456789abcdef'']"
  by code_simp

definition ready :: "McpServer \<Rightarrow> bool" where
  \<comment> \<open>an unspent approval is held, and the submission that names it is carried out\<close>
  "ready s \<longleftrightarrow> ms_approvals s \<noteq> [] \<and> ''appr_0123456789abcdef'' \<notin> set (ms_consumed s)
     \<and> ms_effects (fst (mcp_call ex_mcp_env ''submit_order'' ex_submit s)) \<noteq> ms_effects s"

lemma ex_ready: "ready (mcp_life ex_mcp (take 2 ex_ops))"
  by code_simp

section \<open>The tool server\<close>

text \<open>C7: Over any sequence of tool calls, approvals and restarts of the server over its files, the approvals that
  paid for an effect on the order path are pairwise different, and none of them was spent before the sequence.\<close>

theorem mcp_no_double_spend:
  assumes "ms_effects s = []"
  shows "distinct (List.map_filter effect_approval (ms_effects (mcp_life s ops)))
    \<and> (\<forall>aid \<in> set (List.map_filter effect_approval (ms_effects (mcp_life s ops))). \<not> burnt s aid)"
proof -
  have "List.map_filter effect_approval (ms_effects (mcp_life s ops)) = accepted mcp_step s ops"
    using mcp_life_effects[of s ops] assms by (simp add: List.map_filter_def)
  then show ?thesis using approvals_once.accepted_distinct approvals_once.never_known by simp
qed

lemma mcp_no_double_spend_example:
  "ms_effects (mcp_life ex_mcp ex_ops) = [ESubmit ''prop_0123456789abcdef'' ''appr_0123456789abcdef''] \<and>
   distinct (List.map_filter effect_approval (ms_effects (mcp_life ex_mcp ex_ops)))"
proof -
  have "ms_effects ex_mcp = []" by (simp add: ex_mcp_def)
  from mcp_no_double_spend[OF this, of ex_ops] ex_ops_effects show ?thesis by blast
qed

text \<open>C8: A tool call causes at most one effect: the halt, which needs nothing, or an order effect whose toolset
  is served and whose approval is known, unspent and unexpired, for a submission bound to the proposal as it is
  stored, for an allocation given by an operator; the approval is consumed, in memory and in the file.\<close>

theorem mcp_effects_approved:
  assumes "ms_effects (fst (mcp_call e name arguments s)) \<noteq> ms_effects s"
  shows "\<exists>eff. ms_effects (fst (mcp_call e name arguments s)) = ms_effects s @ [eff] \<and> effect_allowed e s eff
    \<and> (case effect_approval eff of None \<Rightarrow> eff = EHaltTrading
       | Some aid \<Rightarrow> aid \<notin> set (ms_consumed s)
         \<and> ms_consumed (fst (mcp_call e name arguments s)) = aid # ms_consumed s
         \<and> ms_approvals_file (fst (mcp_call e name arguments s)) = append_opt (consumed_row aid) (ms_approvals_file s))"
proof -
  have n: "effect_approval eff = None \<Longrightarrow> eff = EHaltTrading" for eff by (cases eff) simp_all
  obtain eff where "ms_effects (fst (mcp_call e name arguments s)) = ms_effects s @ [eff]" "effect_allowed e s eff"
    "(case effect_approval eff of
        None \<Rightarrow> ms_consumed (fst (mcp_call e name arguments s)) = ms_consumed s
          \<and> ms_approvals_file (fst (mcp_call e name arguments s)) = ms_approvals_file s
      | Some aid \<Rightarrow> ms_consumed (fst (mcp_call e name arguments s)) = aid # ms_consumed s \<and> aid \<notin> set (ms_consumed s)
          \<and> ms_approvals_file (fst (mcp_call e name arguments s)) = append_opt (consumed_row aid) (ms_approvals_file s))"
    using mcp_call_effects[OF refl, of e name arguments s] assms by blast
  then show ?thesis using n[of eff] by (intro exI[of _ eff]) (auto split: option.splits)
qed

lemma mcp_effects_approved_example:
  "\<exists>s. ms_approvals s \<noteq> [] \<and> ''appr_0123456789abcdef'' \<notin> set (ms_consumed s) \<and>
     (\<exists>eff. ms_effects (fst (mcp_call ex_mcp_env ''submit_order'' ex_submit s)) = ms_effects s @ [eff]
        \<and> effect_allowed ex_mcp_env s eff)"
proof -
  let ?s = "mcp_life ex_mcp (take 2 ex_ops)"
  from ex_ready have "ms_effects (fst (mcp_call ex_mcp_env ''submit_order'' ex_submit ?s)) \<noteq> ms_effects ?s"
    and "ms_approvals ?s \<noteq> []" "''appr_0123456789abcdef'' \<notin> set (ms_consumed ?s)" by (simp_all add: ready_def)
  then show ?thesis using mcp_effects_approved[of ex_mcp_env "''submit_order''" ex_submit ?s] by blast
qed



section \<open>The signed API\<close>

text \<open>C9: A request causes an effect only when the API is enabled, the body is within bounds, the route is one of
  the table, and the request carries a known key with a role the route allows (any key for the halt), a
  signature of exactly its parts under that key's secret and a stamp in the window; it causes exactly one, that of
  its route, a submission only with both its ids.\<close>

theorem api_effects_authorised:
  assumes "handle api q s = (s', res)" and "as_effects s' \<noteq> as_effects s"
  shows "ca_enabled api \<and> length (hq_body q) \<le> MAX_BODY_BYTES
    \<and> (\<exists>r eff. route (hq_method q) (hq_path q) = Some r \<and> as_effects s' = as_effects s @ [eff]
         \<and> route_effect api q r eff \<and> authorised api q r s)"
  using assms by (rule handle_state)

text \<open>C28: What a client sees: one of eight statuses, never a secret-shaped key, nothing but \<open>unauthorized\<close> where it is
  refused, and an answer of a handler (200, 400 or 500) only for a request that was authenticated.\<close>

theorem api_answers_safe:
  assumes "handle api q s = (s', Inr a)"
  shows "rs_status a \<in> {200, 400, 401, 403, 404, 413, 500, 503} \<and> secret_free (rs_payload a)
    \<and> (rs_status a \<in> {401, 403} \<longrightarrow> rs_payload a = error_body ''unauthorized'')
    \<and> (rs_status a \<in> {200, 400, 500} \<longrightarrow>
         (\<exists>au v. authenticate (ca_auth api) (auth_request q) (as_auth s) = (au, Inr v) \<and> ar_ok v))"
  using handle_answer[OF assms] by (auto simp: answer_safe_def)

definition ex_api :: ControlApi where
  "ex_api =
     \<lparr>ca_auth = \<lparr>au_keys = [(''k'', ''s'')], au_roles = [(''k'', ''execute'')], au_window_s = Fin 300,
        au_clock = (\<lambda>_. \<lparr>wall_us = 740000 * 86400000000, utc_off = Some 0\<rparr>), au_sha = (\<lambda>b. ''sha''), au_hmac = (\<lambda>k m. ''mac'')\<rparr>,
      ca_state = Inr (JObj []), ca_simulate = None, ca_propose = None,
      ca_submit = Some (\<lambda>_. Inr (JObj [(''order'', JStr ''o1''), (''broker_key'', JStr ''x'')])), ca_cancel = None,
      ca_halt = Some (Inr (JObj [])), ca_ceiling = None, ca_enabled = True,
      ca_loads = (\<lambda>_. Some (JObj [(''proposal_id'', JStr ''p''), (''approval_id'', JStr ''a'')])), ca_text = (\<lambda>_. []),
      ca_digest = (\<lambda>_ _. ''d''), ca_audit_ts = []\<rparr>"

definition ex_api_state :: api_state where
  "ex_api_state =
     \<lparr>as_auth = \<lparr>at_ticks = 0, at_nonces = \<lparr>ns_ttl_s = Fin 600, ns_seen = [], ns_loaded = True, ns_file = None,
        ns_text = (\<lambda>_. [])\<rparr>\<rparr>,
      as_audit = None, as_effects = []\<rparr>"

definition ex_api_request :: "string \<Rightarrow> ApiRequest" where
  "ex_api_request mac =
     \<lparr>hq_method = ''POST'', hq_path = ''/v1/orders/submit'', hq_query = [], hq_body = ''{}'',
      hq_headers = [(''x-key-id'', ''k''), (''x-timestamp'', ''2027-01-19T00:00:00+00:00''),
        (''x-nonce'', ''n1''), (''x-signature'', mac)]\<rparr>"

definition ex_submit_body :: json where
  "ex_submit_body = JObj [(''proposal_id'', JStr ''p''), (''approval_id'', JStr ''a'')]"

lemma small_body: "hq_body q = ''{}'' \<Longrightarrow> length (hq_body q) \<le> MAX_BODY_BYTES"
  by (simp add: MAX_BODY_BYTES_def)

lemma handle_within:
  assumes "ca_enabled api" and "length (hq_body q) \<le> MAX_BODY_BYTES" and "route (hq_method q) (hq_path q) = Some r"
    and "authenticate (ca_auth api) (auth_request q) (as_auth s) = (au, Inr auth)" and "ar_ok auth"
    and "dispatch api q r auth (s\<lparr>as_auth := au\<rparr>) = (s2, Inr answer)"
  shows "handle api q s = (s2, Inr answer)"
  using assms by (simp add: handle_def Let_def)

lemma ex_api_authentic:
  "\<exists>au v. authenticate (ca_auth ex_api) (auth_request (ex_api_request ''mac'')) (as_auth ex_api_state) = (au, Inr v) \<and> ar_ok v"
proof -
  have "(case authenticate (ca_auth ex_api) (auth_request (ex_api_request ''mac'')) (as_auth ex_api_state) of
      (au, Inr v) \<Rightarrow> ar_ok v | _ \<Rightarrow> False)" by code_simp
  then show ?thesis by (auto split: prod.splits sum.splits)
qed

lemma ex_api_dispatch:
  "dispatch ex_api (ex_api_request m) \<lparr>ro_name = ''submit'', ro_role = ''execute'', ro_sleeve = None\<rparr> v (ex_api_state\<lparr>as_auth := au\<rparr>)
     = (log_effect (ACall ''submit'' ex_submit_body) (ex_api_state\<lparr>as_auth := au\<rparr>),
        Inr \<lparr>rs_status = 200, rs_payload = JObj [(''order'', JStr ''o1'')]\<rparr>)"
proof -
  have "\<not> secret_key ''order''" "secret_key ''broker_key''" by code_simp+
  then show ?thesis
    by (simp add: dispatch_def READ_ROUTES_def mutate_def mutate_handler_def mutate_effect_def api_ok_def payload_dict_def
      rbind_def finish_def ex_api_def ex_api_request_def ex_api_state_def ex_submit_body_def log_effect_def jget_def)
qed

lemma ex_api_runs:
  "\<exists>s'. handle ex_api (ex_api_request ''mac'') ex_api_state
       = (s', Inr \<lparr>rs_status = 200, rs_payload = JObj [(''order'', JStr ''o1'')]\<rparr>)
     \<and> as_effects s' = [ACall ''submit'' ex_submit_body]"
proof -
  obtain au v where a: "authenticate (ca_auth ex_api) (auth_request (ex_api_request ''mac'')) (as_auth ex_api_state) = (au, Inr v)"
      "ar_ok v" using ex_api_authentic by blast
  have r: "route (hq_method (ex_api_request ''mac'')) (hq_path (ex_api_request ''mac''))
      = Some \<lparr>ro_name = ''submit'', ro_role = ''execute'', ro_sleeve = None\<rparr>"
    by (simp add: ex_api_request_def route_def READ_ROUTES_def MUTATING_ROUTES_def)
  have "length (hq_body (ex_api_request ''mac'')) \<le> MAX_BODY_BYTES"
    by (rule small_body) (simp add: ex_api_request_def)
  from handle_within[OF _ this r a(1,2) ex_api_dispatch] show ?thesis
    by (simp add: ex_api_def ex_api_state_def)
qed

lemma api_effects_authorised_example:
  "\<exists>s' a r. handle ex_api (ex_api_request ''mac'') ex_api_state = (s', a)
     \<and> as_effects s' = [ACall ''submit'' ex_submit_body] \<and> authorised ex_api (ex_api_request ''mac'') r ex_api_state"
proof -
  obtain s' a where h: "handle ex_api (ex_api_request ''mac'') ex_api_state = (s', a)"
      "as_effects s' = [ACall ''submit'' ex_submit_body]" using ex_api_runs by blast
  have "as_effects s' \<noteq> as_effects ex_api_state" by (simp add: h(2) ex_api_state_def)
  from api_effects_authorised[OF h(1) this] obtain r where "authorised ex_api (ex_api_request ''mac'') r ex_api_state" by blast
  with h show ?thesis by blast
qed

lemma api_answers_safe_example:
  "\<exists>s' a. handle ex_api (ex_api_request ''mac'') ex_api_state = (s', Inr a) \<and> rs_status a = 200 \<and> secret_free (rs_payload a)"
proof -
  obtain s' where h: "handle ex_api (ex_api_request ''mac'') ex_api_state
      = (s', Inr \<lparr>rs_status = 200, rs_payload = JObj [(''order'', JStr ''o1'')]\<rparr>)" using ex_api_runs by blast
  from api_answers_safe[OF h] h show ?thesis by simp
qed

section \<open>The host\<close>

text \<open>C20: The surfaces of the shipped host can halt and nothing else. A request to the API it builds causes no
  effect, or the halt alone, and then carries the configured key and that key's signature; a call to its tool server
  causes at most the halt, holds no new proposal and spends no approval.\<close>

theorem host_only_halts:
  assumes "build_control_api hc snap halted clock sha hmac loads text h ts = Inr api"
  shows "(\<forall>q s s' res. handle api q s = (s', res) \<longrightarrow> as_effects s' = as_effects s
      \<or> as_effects s' = as_effects s @ [AHalt] \<and> hc_api_enabled hc
        \<and> pa_key_id (request_parts (auth_request q)) = hc_api_key_id hc
        \<and> verify_signature sha hmac (hc_api_signing_secret hc) (header (hq_headers q) ''X-Signature'')
            (request_parts (auth_request q)))
    \<and> (\<forall>name arguments s. ms_effects (fst (mcp_call (host_mcp_env hc snap halted now rest) name arguments s))
          \<in> {ms_effects s, ms_effects s @ [EHaltTrading]}
        \<and> ms_proposals (fst (mcp_call (host_mcp_env hc snap halted now rest) name arguments s)) = ms_proposals s
        \<and> ms_consumed (fst (mcp_call (host_mcp_env hc snap halted now rest) name arguments s)) = ms_consumed s)"
proof (rule conjI)
  show "\<forall>q s s' res. handle api q s = (s', res) \<longrightarrow> as_effects s' = as_effects s
      \<or> as_effects s' = as_effects s @ [AHalt] \<and> hc_api_enabled hc
        \<and> pa_key_id (request_parts (auth_request q)) = hc_api_key_id hc
        \<and> verify_signature sha hmac (hc_api_signing_secret hc) (header (hq_headers q) ''X-Signature'')
            (request_parts (auth_request q))"
    by (meson host_handle[OF assms])
  show "\<forall>name arguments s. ms_effects (fst (mcp_call (host_mcp_env hc snap halted now rest) name arguments s))
          \<in> {ms_effects s, ms_effects s @ [EHaltTrading]}
        \<and> ms_proposals (fst (mcp_call (host_mcp_env hc snap halted now rest) name arguments s)) = ms_proposals s
        \<and> ms_consumed (fst (mcp_call (host_mcp_env hc snap halted now rest) name arguments s)) = ms_consumed s"
    by (intro allI conjI host_mcp[OF refl])
qed

definition ex_instant :: datetime where
  "ex_instant = \<lparr>wall_us = 740000 * 86400000000, utc_off = Some 0\<rparr>"

definition ex_host :: HostConfig where
  "ex_host = \<lparr>hc_api_enabled = True, hc_api_key_id = ''k'', hc_api_signing_secret = ''s'', hc_api_replay_window_s = Fin 300,
     hc_mcp_enabled = True, hc_mcp_toolsets = ''read'', hc_approval_ttl_s = 900\<rparr>"

lemma host_only_halts_example:
  "\<exists>api. build_control_api ex_host (JObj []) (Inr (JObj [])) (\<lambda>_. ex_instant) (\<lambda>_. ''sha'') (\<lambda>_ _. ''mac'') (\<lambda>_. None) (\<lambda>_. [])
        (\<lambda>_ _. ''d'') [] = Inr api
     \<and> as_effects (fst (handle api (ex_api_request ''mac'') ex_api_state)) \<in> {[], [AHalt]}
     \<and> ms_proposals (fst (mcp_call (host_mcp_env ex_host (JObj []) (Inr (JObj [])) ex_instant ex_mcp_env) ''propose_order'' ex_draft ex_mcp)) = []"
proof -
  obtain api where b: "build_control_api ex_host (JObj []) (Inr (JObj [])) (\<lambda>_. ex_instant) (\<lambda>_. ''sha'') (\<lambda>_ _. ''mac'') (\<lambda>_. None)
      (\<lambda>_. []) (\<lambda>_ _. ''d'') [] = Inr api" by (simp add: build_control_api_def ex_host_def)
  obtain s' res where h: "handle api (ex_api_request ''mac'') ex_api_state = (s', res)" by fastforce
  have e: "as_effects ex_api_state = []" "ms_proposals ex_mcp = []" by (simp_all add: ex_api_state_def ex_mcp_def)
  note t = host_only_halts[OF b, of ex_instant ex_mcp_env]
  have "as_effects s' = [] \<or> as_effects s' = [AHalt]" using conjunct1[OF t] h e(1) by (metis append_Nil)
  moreover have "ms_proposals (fst (mcp_call (host_mcp_env ex_host (JObj []) (Inr (JObj [])) ex_instant ex_mcp_env)
      ''propose_order'' ex_draft ex_mcp)) = []" using conjunct2[OF t] e(2) by metis
  ultimately show ?thesis using b h by simp
qed

section \<open>The mandate commands\<close>

text \<open>C26: A mandate command that exits with success has done what it says and no more. Adding a symbol the
  mandate does not list leaves a mandate that loads with exactly that symbol more and the same limits, one row in the
  ledger and the kill switch as it was; removing a listed one leaves exactly that symbol less, never an empty list,
  and only by force or where the account was read and does not hold it. Nothing is changed where there is nothing to do.\<close>

theorem mandate_commands_exact:
  assumes "symbol_arg raw = Inr symbol" and "load_mandate (ci_text e) (ci_hash e) (mf_doc (cs_mandate s)) = Inr m"
  shows "(\<forall>s'. mandate_add e raw operator why s = (s', Inr 0) \<longrightarrow>
        (if symbol \<in> set (md_allowed m) then s' = s
         else \<exists>m' row. load_mandate (ci_text e) (ci_hash e) (mf_doc (cs_mandate s')) = Inr m' \<and> same_limits m m'
           \<and> set (md_allowed m') = insert symbol (set (md_allowed m))
           \<and> cs_audit s' = cs_audit s @ [Some row] \<and> cs_kill s' = cs_kill s))
    \<and> (\<forall>s'. mandate_remove e raw operator why force s = (s', Inr 0) \<longrightarrow>
        (if symbol \<notin> set (md_allowed m) then s' = s
         else \<exists>m' row. load_mandate (ci_text e) (ci_hash e) (mf_doc (cs_mandate s')) = Inr m' \<and> same_limits m m'
           \<and> set (md_allowed m') = set (md_allowed m) - {symbol} \<and> set (md_allowed m') \<noteq> {}
           \<and> cs_audit s' = cs_audit s @ [Some row] \<and> (force \<or> holdings_precheck e symbol = Inr (Some False))))"
proof (intro conjI allI impI)
  fix s' assume c: "mandate_add e raw operator why s = (s', Inr 0)"
  show "if symbol \<in> set (md_allowed m) then s' = s
         else \<exists>m' row. load_mandate (ci_text e) (ci_hash e) (mf_doc (cs_mandate s')) = Inr m' \<and> same_limits m m'
           \<and> set (md_allowed m') = insert symbol (set (md_allowed m))
           \<and> cs_audit s' = cs_audit s @ [Some row] \<and> cs_kill s' = cs_kill s"
  proof (cases "symbol \<in> set (md_allowed m)")
    case True
    then show ?thesis using c assms by (simp add: mandate_add_def loaded_symbol_def)
  next
    case False
    then show ?thesis using mandate_add_widens[OF c assms False] by (metis (no_types))
  qed
next
  fix s' assume c: "mandate_remove e raw operator why force s = (s', Inr 0)"
  show "if symbol \<notin> set (md_allowed m) then s' = s
         else \<exists>m' row. load_mandate (ci_text e) (ci_hash e) (mf_doc (cs_mandate s')) = Inr m' \<and> same_limits m m'
           \<and> set (md_allowed m') = set (md_allowed m) - {symbol} \<and> set (md_allowed m') \<noteq> {}
           \<and> cs_audit s' = cs_audit s @ [Some row] \<and> (force \<or> holdings_precheck e symbol = Inr (Some False))"
  proof (cases "symbol \<in> set (md_allowed m)")
    case True
    then show ?thesis using mandate_remove_narrows[OF c assms True] by (metis (no_types))
  next
    case False
    then show ?thesis using c assms by (simp add: mandate_remove_def loaded_symbol_def)
  qed
qed

definition ex_cli :: cli_env where
  "ex_cli = \<lparr>ci_text = (\<lambda>_. ''?''), ci_hash = (\<lambda>_. ''0123456789''), ci_digest = (\<lambda>_ _. ''d''), ci_archive_ts = ''t'', ci_audit_ts = ''t'',
     ci_reference = (\<lambda>_ _. Inr None), ci_now = ex_instant, ci_staleness_s = Fin 60\<rparr>"

definition ex_cli_state :: cli_state where
  "ex_cli_state = \<lparr>cs_mandate = \<lparr>mf_doc = Some (Some (JObj
       [(''id'', JStr ''m1''), (''owner'', JStr ''desk''), (''created'', JStr ''2026-01-01''),
        (''expires'', JStr ''2027-12-31''), (''symbols'', JObj [(''allowed'', JList [JStr ''ABC''])]),
        (''max_notional_per_order_usd'', JInt 20000), (''max_total_exposure_usd'', JInt 150000)])), mf_archive = []\<rparr>,
     cs_audit = [], cs_kill = \<lparr>kf_sentinel = False, kf_latch = None\<rparr>\<rparr>"

lemma ex_cli_adds:
  "isl (load_mandate (ci_text ex_cli) (ci_hash ex_cli) (mf_doc (cs_mandate ex_cli_state))) = False"
  "snd (mandate_add ex_cli '' xyz '' ''desk'' ''why'' ex_cli_state) = Inr 0"
  "symbol_arg '' xyz '' = Inr ''XYZ''"
  by code_simp+

lemma mandate_commands_exact_example:
  "\<exists>m m' s'. mandate_add ex_cli '' xyz '' ''desk'' ''why'' ex_cli_state = (s', Inr 0)
     \<and> load_mandate (ci_text ex_cli) (ci_hash ex_cli) (mf_doc (cs_mandate s')) = Inr m'
     \<and> set (md_allowed m') = insert ''XYZ'' (set (md_allowed m)) \<and> same_limits m m'"
proof -
  obtain m where m: "load_mandate (ci_text ex_cli) (ci_hash ex_cli) (mf_doc (cs_mandate ex_cli_state)) = Inr m"
    using ex_cli_adds(1) by (cases "load_mandate (ci_text ex_cli) (ci_hash ex_cli) (mf_doc (cs_mandate ex_cli_state))") auto
  obtain s' where a: "mandate_add ex_cli '' xyz '' ''desk'' ''why'' ex_cli_state = (s', Inr 0)"
    using ex_cli_adds(2) by (cases "mandate_add ex_cli '' xyz '' ''desk'' ''why'' ex_cli_state") auto
  have "case load_mandate (ci_text ex_cli) (ci_hash ex_cli) (mf_doc (cs_mandate ex_cli_state)) of
      Inr m \<Rightarrow> ''XYZ'' \<notin> set (md_allowed m) | _ \<Rightarrow> False" by code_simp
  then have "''XYZ'' \<notin> set (md_allowed m)" using m by simp
  then show ?thesis using mandate_commands_exact[OF ex_cli_adds(3) m, of "''desk''" "''why''" False] a by (metis (no_types))
qed

end
