(* ===== verification/MarketData.thy ===== *)
theory MarketData
  imports JsonText Signing
begin

text \<open>
  \<open>signald/marketdata/service.py\<close>: quotes and bars with provenance, freshness and quarantine. The
  transport is the argument \<open>md_transport\<close>, which may raise; the clock is read once per call. A refusal
  is \<open>Unavailable\<close> with its reason; any other exception is one the source does not turn into it.
\<close>

section \<open>Quotes and bars\<close>

datatype md_error = Unavailable string | Escaped exc

type_synonym 'a md = "md_error + 'a"

record Quote =
  qt_symbol :: string
  qt_bid :: "pyfloat option"
  qt_ask :: "pyfloat option"
  qt_last :: "pyfloat option"
  qt_spread_bps :: "pyfloat option"
  qt_as_of :: datetime
  qt_feed :: string
  qt_age_s :: pyfloat

definition quote_mid :: "Quote \<Rightarrow> pyfloat option" where
  "quote_mid q =
     (case (qt_bid q, qt_ask q) of (Some b, Some a) \<Rightarrow> Some (fdiv (b + a) (Fin 2)) | _ \<Rightarrow> None)"

record Bar =
  br_symbol :: string
  br_ts :: datetime
  br_open :: pyfloat
  br_high :: pyfloat
  br_low :: pyfloat
  br_close :: pyfloat
  br_volume :: pyfloat

definition typical :: "Bar \<Rightarrow> pyfloat" where
  "typical b = fdiv (br_high b + br_low b + br_close b) (Fin 3)"

section \<open>Fields of a row\<close>

definition parse_ts :: "(json \<Rightarrow> string) \<Rightarrow> json \<Rightarrow> datetime md" where
  "parse_ts rp v =
     (let text = strip (or_str rp v) in
      if text = [] then Inl (Unavailable ''missing_timestamp'')
      else (case parse_stamp text of
              None \<Rightarrow> Inl (Unavailable (''unparseable_timestamp:'' @ rp v)) | Some t \<Rightarrow> Inr t))"

definition ts_of :: "(json \<Rightarrow> string) \<Rightarrow> (string \<times> json) list \<Rightarrow> datetime md" where
  "ts_of rp row =
     (if jget row ''as_of'' \<noteq> JNull then parse_ts rp (jget row ''as_of'')
      else if jget row ''ts'' \<noteq> JNull then parse_ts rp (jget row ''ts'')
      else Inl (Unavailable ''missing_timestamp''))"

definition num_opt :: "(json \<Rightarrow> string) \<Rightarrow> (string \<times> json) list \<Rightarrow> string \<Rightarrow> pyfloat option md" where
  \<comment> \<open>\<open>_num(..., required=False)\<close>\<close>
  "num_opt rp row key =
     (if jget row key = JNull then Inr None
      else (case float_of_json (jget row key) of
              Inr x \<Rightarrow> Inr (Some x)
            | Inl _ \<Rightarrow> Inl (Unavailable (''unparseable_number:'' @ key @ ''='' @ rp (jget row key)))))"

definition num_req :: "(json \<Rightarrow> string) \<Rightarrow> (string \<times> json) list \<Rightarrow> string \<Rightarrow> pyfloat md" where
  "num_req rp row key =
     rbind (num_opt rp row key) (\<lambda>x. case x of None \<Rightarrow> Inl (Unavailable (''missing_field:'' @ key)) | Some v \<Rightarrow> Inr v)"

section \<open>The service\<close>

record md_env =
  md_transport :: "string \<Rightarrow> (string \<times> json) list \<Rightarrow> json option res"
  md_now :: datetime
  md_data_feed :: string
  md_max_quote_staleness_s :: pyfloat
  md_max_bar_staleness_s :: pyfloat
  md_text :: "json \<Rightarrow> string"
  md_exc_text :: "exc \<Rightarrow> string"

type_synonym quarantines = "(string \<times> string) list"

definition md_quarantine :: "string \<Rightarrow> string \<Rightarrow> quarantines \<Rightarrow> quarantines" where
  "md_quarantine symbol reason qs = AList.update symbol reason qs"

definition is_quarantined :: "string \<Rightarrow> quarantines \<Rightarrow> bool" where
  "is_quarantined symbol qs \<longleftrightarrow> symbol \<in> fst ` set qs"

definition md_guard :: "quarantines \<Rightarrow> string \<Rightarrow> unit md" where
  "md_guard qs symbol =
     (case map_of qs symbol of None \<Rightarrow> Inr () | Some reason \<Rightarrow> Inl (Unavailable (''quarantined:'' @ reason)))"

definition call_md :: "md_env \<Rightarrow> string \<Rightarrow> (string \<times> json) list \<Rightarrow> (string \<times> json) list md" where
  "call_md e method payload =
     (case md_transport e method payload of
        Inl x \<Rightarrow> Inl (Unavailable (''transport_error:'' @ md_exc_text e x))
      | Inr None \<Rightarrow> Inl (Unavailable ''transport_unavailable'')
      | Inr (Some (JObj body)) \<Rightarrow>
          if jget body ''error'' \<noteq> JNull then Inl (Unavailable ''transport_error'') else Inr body
      | Inr (Some JNull) \<Rightarrow> Inl (Unavailable ''transport_unavailable'')
      | Inr (Some _) \<Rightarrow> Inl (Unavailable ''malformed_response''))"

definition check_feed :: "md_env \<Rightarrow> (string \<times> json) list \<Rightarrow> bool \<Rightarrow> string md" where
  "check_feed e body allow_mismatch =
     (case jget body ''feed'' of
        JStr feed \<Rightarrow>
          if feed = [] then Inl (Unavailable ''missing_feed'')
          else if feed \<noteq> md_data_feed e \<and> \<not> allow_mismatch then Inl (Unavailable ''feed_mismatch'')
          else Inr feed
      | _ \<Rightarrow> Inl (Unavailable ''missing_feed''))"

section \<open>Quotes\<close>

definition age_s :: "datetime \<Rightarrow> datetime \<Rightarrow> pyfloat" where
  "age_s now t = total_seconds (utc_instant now - utc_instant t)"

definition quote_of :: "md_env \<Rightarrow> string \<Rightarrow> (string \<times> json) list \<Rightarrow> string \<Rightarrow> Quote md" where
  \<comment> \<open>from the checked feed to the quote, its age not yet judged\<close>
  "quote_of e symbol body feed =
     rbind (ts_of (md_text e) body) (\<lambda>as_of.
     rbind (num_opt (md_text e) body ''bid'') (\<lambda>bid.
     rbind (num_opt (md_text e) body ''ask'') (\<lambda>ask.
     rbind (num_opt (md_text e) body ''last'') (\<lambda>last_px.
       if bid = None \<and> ask = None \<and> last_px = None then Inl (Unavailable ''missing_field:price'')
       else Inr \<lparr>qt_symbol = symbol, qt_bid = bid, qt_ask = ask, qt_last = last_px,
              qt_spread_bps = (case (bid, ask) of
                  (Some b, Some a) \<Rightarrow>
                    (let mid = fdiv (b + a) (Fin 2) in
                     if mid \<le> 0 then None else Some (fdiv (a - b) mid * Fin 10000))
                | _ \<Rightarrow> None),
              qt_as_of = as_of, qt_feed = feed, qt_age_s = age_s (md_now e) as_of\<rparr>))))"

definition quote :: "md_env \<Rightarrow> quarantines \<Rightarrow> string \<Rightarrow> bool \<Rightarrow> bool \<Rightarrow> Quote md" where
  "quote e qs symbol allow_stale allow_mismatch =
     rbind (md_guard qs symbol) (\<lambda>_.
     rbind (call_md e ''quote'' [(''symbol'', JStr symbol)]) (\<lambda>body.
     rbind (check_feed e body allow_mismatch) (\<lambda>feed.
     rbind (quote_of e symbol body feed) (\<lambda>q.
       if md_max_quote_staleness_s e < qt_age_s q \<and> \<not> allow_stale then Inl (Unavailable ''stale_quote'') else Inr q))))"

section \<open>Bars\<close>

definition parse_bar :: "(json \<Rightarrow> string) \<Rightarrow> string \<Rightarrow> json \<Rightarrow> Bar md" where
  "parse_bar rp symbol raw =
     (case raw of
        JObj row \<Rightarrow>
          rbind (ts_of rp row) (\<lambda>ts.
          rbind (num_req rp row ''open'') (\<lambda>op.
          rbind (num_req rp row ''high'') (\<lambda>hi.
          rbind (num_req rp row ''low'') (\<lambda>lo.
          rbind (num_req rp row ''close'') (\<lambda>cl.
          rmap (\<lambda>vol. \<lparr>br_symbol = symbol, br_ts = ts, br_open = op, br_high = hi, br_low = lo, br_close = cl, br_volume = vol\<rparr>)
            (num_req rp row ''volume''))))))
      | _ \<Rightarrow> Inl (Unavailable ''malformed_bar''))"

fun parse_bars :: "(json \<Rightarrow> string) \<Rightarrow> string \<Rightarrow> json list \<Rightarrow> Bar list md" where
  "parse_bars rp symbol [] = Inr []"
| "parse_bars rp symbol (raw # raws) =
     rbind (parse_bar rp symbol raw) (\<lambda>b. rmap ((#) b) (parse_bars rp symbol raws))"

definition aware :: "datetime \<Rightarrow> bool" where
  "aware t \<longleftrightarrow> utc_off t \<noteq> None"

definition comparable :: "datetime list \<Rightarrow> bool" where
  \<comment> \<open>a naive and an aware stamp do not compare\<close>
  "comparable ts \<longleftrightarrow> list_all aware ts \<or> list_all (\<lambda>t. \<not> aware t) ts"

definition by_time :: "Bar list \<Rightarrow> Bar list res" where
  \<comment> \<open>\<open>sorted(bars, key=lambda b: b.ts)\<close>\<close>
  "by_time bs = (if comparable (map br_ts bs) then Inr (sort_key (\<lambda>b. utc_instant (br_ts b)) bs) else Inl TypeError)"

definition escaped :: "'a res \<Rightarrow> 'a md" where
  "escaped r = (case r of Inl x \<Rightarrow> Inl (Escaped x) | Inr v \<Rightarrow> Inr v)"

definition take_last :: "nat \<Rightarrow> 'a list \<Rightarrow> 'a list" where
  "take_last n xs = drop (length xs - n) xs"

definition visible_bars :: "datetime \<Rightarrow> nat \<Rightarrow> pyfloat option \<Rightarrow> bool \<Rightarrow> Bar list \<Rightarrow> Bar list md" where
  \<comment> \<open>a bar the decision could not have had is never returned\<close>
  "visible_bars cutoff n staleness allow_stale parsed =
     (if \<not> comparable (map br_ts parsed @ [cutoff]) then Inl (Escaped TypeError)
      else (let visible = filter (\<lambda>b. utc_instant (br_ts b) \<le> utc_instant cutoff) parsed; kept = take_last n visible in
        if visible = [] then Inl (Unavailable ''all_bars_future'')
        else (case staleness of
            None \<Rightarrow> Inr kept
          | Some limit \<Rightarrow>
              if limit < age_s cutoff (br_ts (last kept)) \<and> \<not> allow_stale
              then Inl (Unavailable ''stale_bars'') else Inr kept)))"

definition cutoff_of :: "md_env \<Rightarrow> datetime option \<Rightarrow> datetime" where
  "cutoff_of e as_of = (case as_of of Some t \<Rightarrow> t | None \<Rightarrow> md_now e)"

definition bar_rows :: "(string \<times> json) list \<Rightarrow> json list md" where
  "bar_rows body = (case jget body ''bars'' of JList raws \<Rightarrow> Inr raws | _ \<Rightarrow> Inl (Unavailable ''missing_field:bars''))"

definition read_bars ::
  "md_env \<Rightarrow> quarantines \<Rightarrow> string \<Rightarrow> int \<Rightarrow> string \<Rightarrow> datetime option \<Rightarrow> bool \<Rightarrow> bool \<Rightarrow> pyfloat option \<Rightarrow> Bar list md" where
  "read_bars e qs symbol n timeframe as_of allow_stale allow_mismatch staleness =
     rbind (md_guard qs symbol) (\<lambda>_.
       if n \<le> 0 then Inl (Escaped ValueError)
       else
         rbind (call_md e ''bars'' [(''symbol'', JStr symbol), (''count'', JInt n), (''timeframe'', JStr timeframe),
           (''as_of'', JStr (isoformat (cutoff_of e as_of)))]) (\<lambda>body.
         rbind (check_feed e body allow_mismatch) (\<lambda>_.
         rbind (bar_rows body) (\<lambda>raws.
         rbind (parse_bars (md_text e) symbol raws) (\<lambda>bs.
         rbind (escaped (by_time bs)) (visible_bars (cutoff_of e as_of) (nat n) staleness allow_stale))))))"

definition bars ::
  "md_env \<Rightarrow> quarantines \<Rightarrow> string \<Rightarrow> int \<Rightarrow> string \<Rightarrow> datetime option \<Rightarrow> bool \<Rightarrow> bool \<Rightarrow> Bar list md" where
  "bars e qs symbol n timeframe as_of allow_stale allow_mismatch =
     read_bars e qs symbol n timeframe as_of allow_stale allow_mismatch (Some (md_max_bar_staleness_s e))"

definition daily :: "md_env \<Rightarrow> quarantines \<Rightarrow> string \<Rightarrow> int \<Rightarrow> datetime option \<Rightarrow> bool \<Rightarrow> bool \<Rightarrow> Bar list md" where
  "daily e qs symbol n as_of allow_stale allow_mismatch =
     read_bars e qs symbol n ''1Day'' as_of allow_stale allow_mismatch None"

section \<open>What a read returns\<close>

lemma call_md_bars: "call_md e m p = Inr body \<Longrightarrow> md_transport e m p = Inr (Some (JObj body))"
  by (auto simp: call_md_def split: sum.splits option.splits json.splits if_splits)

lemma check_feed_ok: "check_feed e body allow = Inr feed \<Longrightarrow>
    jget body ''feed'' = JStr feed \<and> feed \<noteq> [] \<and> (feed = md_data_feed e \<or> allow)"
  by (auto simp: check_feed_def split: json.splits if_splits)

lemma md_guard_ok: "md_guard qs symbol = Inr u \<longleftrightarrow> \<not> is_quarantined symbol qs"
  by (auto simp: md_guard_def is_quarantined_def map_of_eq_None_iff split: option.split dest: map_of_SomeD)
    (force dest: map_of_SomeD)

lemma quarantine_stops: "is_quarantined symbol (md_quarantine symbol reason qs)"
  "is_quarantined x qs \<Longrightarrow> is_quarantined x (md_quarantine symbol reason qs)"
  by (auto simp: is_quarantined_def md_quarantine_def dom_update)

lemma parse_bars_ok:
  "parse_bars rp symbol raws = Inr bs \<Longrightarrow> list_all2 (\<lambda>raw b. parse_bar rp symbol raw = Inr b) raws bs"
  by (induction raws arbitrary: bs) (auto simp: rbind_Inr_iff rmap_Inr_iff)

lemma take_last_props:
  "length (take_last n xs) = min n (length xs)" "set (take_last n xs) \<subseteq> set xs"
  by (auto simp: take_last_def dest: in_set_dropD)

lemma take_last_last: "0 < n \<Longrightarrow> xs \<noteq> [] \<Longrightarrow> take_last n xs \<noteq> [] \<and> last (take_last n xs) = last xs"
  by (cases xs rule: rev_cases) (auto simp: take_last_def)

lemma sorted_take_last: "sorted (map f xs) \<Longrightarrow> sorted (map f (take_last n xs))"
  by (simp add: take_last_def drop_map[symmetric] sorted_wrt_drop)

lemma by_time_ok:
  "by_time bs = Inr ps \<Longrightarrow> comparable (map br_ts bs) \<and> mset ps = mset bs \<and> sorted (map (\<lambda>b. utc_instant (br_ts b)) ps)"
  by (auto simp: by_time_def split: if_splits)

lemma quote_ok:
  assumes "quote e qs symbol stale mm = Inr q"
  shows "\<not> is_quarantined symbol qs" "\<not> stale \<Longrightarrow> \<not> md_max_quote_staleness_s e < qt_age_s q"
    "qt_feed q \<noteq> []" "qt_feed q = md_data_feed e \<or> mm"
    "\<exists>body. md_transport e ''quote'' [(''symbol'', JStr symbol)] = Inr (Some (JObj body))
       \<and> jget body ''feed'' = JStr (qt_feed q) \<and> quote_of e symbol body (qt_feed q) = Inr q"
proof -
  obtain body feed where b: "md_guard qs symbol = Inr ()" "call_md e ''quote'' [(''symbol'', JStr symbol)] = Inr body"
    "check_feed e body mm = Inr feed" "quote_of e symbol body feed = Inr q"
    "\<not> (md_max_quote_staleness_s e < qt_age_s q \<and> \<not> stale)"
    using assms by (auto simp: quote_def rbind_Inr_iff split: if_splits)
  have f: "qt_feed q = feed" using b(4) by (auto simp: quote_of_def rbind_Inr_iff Let_def split: if_splits)
  show "\<not> is_quarantined symbol qs" "\<not> stale \<Longrightarrow> \<not> md_max_quote_staleness_s e < qt_age_s q"
    using b(1,5) md_guard_ok by auto
  show "qt_feed q \<noteq> []" "qt_feed q = md_data_feed e \<or> mm" using check_feed_ok[OF b(3)] f by auto
  show "\<exists>body. md_transport e ''quote'' [(''symbol'', JStr symbol)] = Inr (Some (JObj body))
       \<and> jget body ''feed'' = JStr (qt_feed q) \<and> quote_of e symbol body (qt_feed q) = Inr q"
    using check_feed_ok[OF b(3)] f call_md_bars[OF b(2)] b(4) by auto
qed

lemma visible_bars_ok:
  assumes "visible_bars cutoff n limit stale parsed = Inr bs" and "0 < n"
  shows "bs = take_last n (filter (\<lambda>b. utc_instant (br_ts b) \<le> utc_instant cutoff) parsed)" "bs \<noteq> []"
    "limit = Some x \<Longrightarrow> \<not> stale \<Longrightarrow> \<not> x < age_s cutoff (br_ts (last bs))"
  using assms take_last_last[OF assms(2), of "filter (\<lambda>b. utc_instant (br_ts b) \<le> utc_instant cutoff) parsed"]
  by (auto simp: visible_bars_def Let_def split: if_splits option.splits)

lemma read_bars_ok:
  assumes "read_bars e qs symbol n tf as_of stale mm limit = Inr bs"
  obtains body raws parsed ordered feed where "\<not> is_quarantined symbol qs" "0 < n"
    "jget body ''feed'' = JStr feed" "feed = md_data_feed e \<or> mm"
    "jget body ''bars'' = JList raws" "list_all2 (\<lambda>raw b. parse_bar (md_text e) symbol raw = Inr b) raws parsed"
    "mset ordered = mset parsed" "sorted (map (\<lambda>b. utc_instant (br_ts b)) ordered)"
    "visible_bars (cutoff_of e as_of) (nat n) limit stale ordered = Inr bs"
proof -
  obtain body feed raws parsed ordered where b: "md_guard qs symbol = Inr ()" "0 < n" "check_feed e body mm = Inr feed"
    "bar_rows body = Inr raws" "parse_bars (md_text e) symbol raws = Inr parsed"
    "escaped (by_time parsed) = Inr ordered" "visible_bars (cutoff_of e as_of) (nat n) limit stale ordered = Inr bs"
    using assms unfolding read_bars_def by (auto simp: rbind_Inr_iff split: if_splits)
  have r: "jget body ''bars'' = JList raws" using b(4) by (auto simp: bar_rows_def split: json.splits)
  have o: "by_time parsed = Inr ordered" using b(6) by (auto simp: escaped_def split: sum.splits)
  show thesis
    using that[OF _ b(2) _ _ r parse_bars_ok[OF b(5)] _ _ b(7)] b(1) md_guard_ok by_time_ok[OF o] check_feed_ok[OF b(3)] by blast
qed

section \<open>Where the documented behaviour differs\<close>

lemma future_quote_served:
  \<comment> \<open>a quote stamped after now has a negative age, and is fresh\<close>
  assumes "md_guard qs symbol = Inr ()" and "call_md e ''quote'' [(''symbol'', JStr symbol)] = Inr body"
    and "check_feed e body mm = Inr feed" and "quote_of e symbol body feed = Inr q"
    and "utc_instant (md_now e) < utc_instant (qt_as_of q)" and "0 \<le> md_max_quote_staleness_s e"
  shows "quote e qs symbol False mm = Inr q"
proof -
  have "qt_age_s q = age_s (md_now e) (qt_as_of q)"
    using assms(4) by (auto simp: quote_of_def rbind_Inr_iff Let_def split: if_splits)
  then have "\<not> md_max_quote_staleness_s e < qt_age_s q"
    using assms(5,6) by (cases "md_max_quote_staleness_s e") (auto simp: age_s_def total_seconds_def zero_pyfloat_def)
  then show ?thesis using assms by (simp add: quote_def)
qed

end
