(* ===== verification/DayType.thy ===== *)
theory DayType
  imports MarketData Calendar
begin

text \<open>
  \<open>signald/marketdata/daytype.py\<close>: true range, ATR, ADX, VWAP, the opening range, relative volume and
  the day type they decide. Sums, quotients and comparisons are those of Python's floats, NaN included.
  The thresholds of the configuration are arguments; the calendar's time zone is the argument \<open>z\<close>.
\<close>

section \<open>Ranges\<close>

definition ADX_PERIOD :: nat where "ADX_PERIOD = 14"

definition true_range :: "Bar \<Rightarrow> pyfloat option \<Rightarrow> pyfloat" where
  "true_range b prev_close =
     (case prev_close of None \<Rightarrow> br_high b - br_low b
      | Some c \<Rightarrow> pymax (pymax (br_high b - br_low b) \<bar>br_high b - c\<bar>) \<bar>br_low b - c\<bar>)"

definition steps :: "Bar list \<Rightarrow> (Bar \<times> Bar) list" where
  \<comment> \<open>each bar but the first, with the one before it\<close>
  "steps bs = zip bs (drop 1 bs)"

definition step_range :: "Bar \<times> Bar \<Rightarrow> pyfloat" where
  "step_range p = true_range (snd p) (Some (br_close (fst p)))"

definition mean_of :: "nat \<Rightarrow> pyfloat list \<Rightarrow> pyfloat" where
  "mean_of n xs = fdiv (fsum xs) (Fin (of_nat n))"

definition smooth :: "nat \<Rightarrow> pyfloat \<Rightarrow> pyfloat \<Rightarrow> pyfloat" where
  \<comment> \<open>Wilder's smoothing: one part new, the rest as it was\<close>
  "smooth n v x = fdiv (v * Fin (of_nat n - 1) + x) (Fin (of_nat n))"

definition wilder :: "nat \<Rightarrow> pyfloat list \<Rightarrow> pyfloat" where
  "wilder n xs = foldl (smooth n) (mean_of n (take n xs)) (drop n xs)"

definition atr :: "nat \<Rightarrow> Bar list \<Rightarrow> pyfloat res" where
  "atr period bs =
     (if length bs < period + 1 then Inl ValueError
      else if period = 0 then Inl ZeroDivisionError
      else Inr (wilder period (map step_range (steps bs))))"

section \<open>Direction\<close>

definition dx :: "pyfloat \<Rightarrow> pyfloat \<Rightarrow> pyfloat \<Rightarrow> pyfloat" where
  "dx plus_sum minus_sum tr_sum =
     (if tr_sum \<le> 0 then 0
      else (let plus_di = fdiv (Fin 100 * plus_sum) tr_sum; minus_di = fdiv (Fin 100 * minus_sum) tr_sum;
                denom = plus_di + minus_di in
        if denom \<le> 0 then 0 else fdiv (Fin 100 * \<bar>plus_di - minus_di\<bar>) denom))"

definition move :: "Bar \<times> Bar \<Rightarrow> pyfloat \<times> pyfloat \<times> pyfloat" where
  \<comment> \<open>the move up, the move down and the true range of one step: at most one move counts\<close>
  "move p =
     (let up = br_high (snd p) - br_high (fst p); down = br_low (fst p) - br_low (snd p) in
      (if down < up \<and> 0 < up then up else 0, if up < down \<and> 0 < down then down else 0, step_range p))"

fun dxs_from :: "nat \<Rightarrow> pyfloat \<Rightarrow> pyfloat \<Rightarrow> pyfloat \<Rightarrow> (pyfloat \<times> pyfloat \<times> pyfloat) list \<Rightarrow> pyfloat list" where
  "dxs_from n p m t [] = [dx p m t]"
| "dxs_from n p m t ((a, b, c) # ms) = dx p m t # dxs_from n (smooth n p a) (smooth n m b) (smooth n t c) ms"

definition dxs :: "nat \<Rightarrow> Bar list \<Rightarrow> pyfloat list" where
  "dxs n bs =
     (let ms = map move (steps bs); seed = take n ms in
      dxs_from n (mean_of n (map fst seed)) (mean_of n (map (fst \<circ> snd) seed)) (mean_of n (map (snd \<circ> snd) seed)) (drop n ms))"

definition adx :: "nat \<Rightarrow> Bar list \<Rightarrow> pyfloat res" where
  "adx period bs =
     (if length bs < period + 1 then Inl ValueError
      else if period = 0 then Inl ZeroDivisionError
      else (let ds = dxs period bs in
        Inr (if length ds \<le> period then mean_of (length ds) ds else wilder period ds)))"

section \<open>Volume\<close>

definition session_vwap :: "Bar list \<Rightarrow> pyfloat res" where
  "session_vwap bs =
     (let total = fsum (map br_volume bs) in
      if bs = [] \<or> total \<le> 0 then Inl ValueError
      else Inr (fdiv (fsum (map (\<lambda>b. typical b * br_volume b) bs)) total))"

fun cumulative :: "pyfloat \<Rightarrow> pyfloat \<Rightarrow> pyfloat option \<Rightarrow> Bar list \<Rightarrow> pyfloat option list" where
  "cumulative v vol latest [] = []"
| "cumulative v vol latest (b # bs) =
     (let v' = v + typical b * br_volume b; vol' = vol + br_volume b;
          latest' = (if 0 < vol' then Some (fdiv v' vol') else latest)
      in latest' # cumulative v' vol' latest' bs)"

definition vwap_slope :: "int \<Rightarrow> Bar list \<Rightarrow> pyfloat res" where
  "vwap_slope lookback bs =
     (if lookback \<le> 0 then Inl ValueError
      else if int (length bs) \<le> lookback then Inl ValueError
      else (let cs = cumulative 0 0 None bs in
        case (cs ! (length cs - 1 - nat lookback), cs ! (length cs - 1)) of
          (Some start, Some final) \<Rightarrow> Inr (fdiv (final - start) (Fin (of_int lookback)))
        | _ \<Rightarrow> Inl ValueError))"

section \<open>The opening range\<close>

definition minute_us :: int where "minute_us = 60000000"

definition at_minute :: "datetime \<Rightarrow> int \<Rightarrow> datetime" where
  \<comment> \<open>\<open>first.replace(hour=..., minute=..., second=0, microsecond=0)\<close>: the zone of the stamp stays\<close>
  "at_minute t of_day = t\<lparr>wall_us := date_of t * us_per_day + of_day div minute_us * minute_us\<rparr>"

definition session_open_dt :: "zone \<Rightarrow> datetime \<Rightarrow> int option \<Rightarrow> datetime" where
  "session_open_dt z first session_open =
     (case session_open of
        Some t \<Rightarrow> at_minute first t
      | None \<Rightarrow>
        (let et = to_et z first; session = session_for (date_of et) in
         case (if date_of et = date_of first \<and> ds_is_session session then ds_open_et session else None) of
           Some t \<Rightarrow> at_minute first t
         | None \<Rightarrow> at_minute first (wall_us first mod us_per_day)))"

definition highest :: "pyfloat list \<Rightarrow> pyfloat" where
  "highest xs = foldl pymax (hd xs) (tl xs)"

definition lowest :: "pyfloat list \<Rightarrow> pyfloat" where
  "lowest xs = foldl pymin (hd xs) (tl xs)"

definition opening_window :: "zone \<Rightarrow> int \<Rightarrow> int option \<Rightarrow> Bar list \<Rightarrow> Bar list" where
  \<comment> \<open>of bars in order of time\<close>
  "opening_window z minutes session_open ordered =
     (let start = utc_instant (session_open_dt z (br_ts (hd ordered)) session_open) in
      filter (\<lambda>b. start \<le> utc_instant (br_ts b) \<and> utc_instant (br_ts b) < start + minutes * minute_us) ordered)"

definition opening_range :: "zone \<Rightarrow> int \<Rightarrow> int option \<Rightarrow> Bar list \<Rightarrow> (pyfloat \<times> pyfloat) option res" where
  "opening_range z minutes session_open bs =
     (if bs = [] \<or> minutes \<le> 0 then Inr None
      else rmap (\<lambda>ordered. let w = opening_window z minutes session_open ordered in
          if w = [] then None else Some (highest (map br_high w), lowest (map br_low w))) (by_time bs))"

section \<open>Relative volume\<close>

definition FIVE_MIN_BUCKETS :: real where "FIVE_MIN_BUCKETS = 78"

definition relative_volume :: "Bar list \<Rightarrow> pyfloat option \<Rightarrow> pyfloat option" where
  "relative_volume first5 baseline =
     (case baseline of None \<Rightarrow> None
      | Some shares \<Rightarrow> if shares \<le> 0 then None
          else Some (fdiv (fsum (map br_volume first5)) (fdiv shares (Fin FIVE_MIN_BUCKETS))))"

definition rvol_ranks :: "(string \<times> pyfloat) list \<Rightarrow> (string \<times> nat) list" where
  \<comment> \<open>the pairs of a mapping: one per symbol\<close>
  "rvol_ranks rvols =
     map (\<lambda>(s, v). (s, 1 + length (filter (\<lambda>other. v < other) (map snd rvols)))) (sort_key fst rvols)"

section \<open>The day type\<close>

record DayType =
  dy_day_type :: string
  dy_adx_14 :: "pyfloat option"
  dy_vwap :: "pyfloat option"
  dy_vwap_slope :: "pyfloat option"
  dy_rvol_first5 :: "pyfloat option"
  dy_rvol_rank :: "pyfloat option"
  dy_gap_pct :: "pyfloat option"
  dy_gap_atr_bucket :: "string option"
  dy_opening_range_high :: "pyfloat option"
  dy_opening_range_low :: "pyfloat option"
  dy_reasons :: "string list"

record DayThresholds =
  th_adx_trend :: pyfloat
  th_adx_range :: pyfloat
  th_opening_range_minutes :: int

definition insufficient_day :: DayType where
  "insufficient_day =
     \<lparr>dy_day_type = ''unknown'', dy_adx_14 = None, dy_vwap = None, dy_vwap_slope = None, dy_rvol_first5 = None,
      dy_rvol_rank = None, dy_gap_pct = None, dy_gap_atr_bucket = None, dy_opening_range_high = None,
      dy_opening_range_low = None, dy_reasons = [''insufficient_bars'']\<rparr>"

definition regime_of :: "DayThresholds \<Rightarrow> pyfloat \<Rightarrow> string \<times> string list" where
  "regime_of th x =
     (if th_adx_trend th < x then (''trend'', [])
      else if x < th_adx_range th then (''range'', [])
      else (''unknown'', [''adx_between_thresholds'']))"

definition vwap_of :: "Bar list \<Rightarrow> pyfloat option \<times> pyfloat option \<times> string list" where
  "vwap_of bs =
     (case rbind (session_vwap bs) (\<lambda>v. rmap (Pair v) (vwap_slope 5 bs)) of
        Inr (v, sl) \<Rightarrow> (Some v, Some sl, []) | Inl _ \<Rightarrow> (None, None, [''vwap_unavailable'']))"

definition gap_bucket :: "pyfloat \<Rightarrow> pyfloat \<Rightarrow> pyfloat option \<Rightarrow> string" where
  "gap_bucket ratio gap_pct rvol =
     (if ratio < Fin (3 / 10) then ''fade''
      else if Fin (4 / 100) \<le> \<bar>gap_pct\<bar> \<and> (case rvol of None \<Rightarrow> False | Some r \<Rightarrow> Fin 3 \<le> r) then ''go''
      else if Fin (12 / 10) < ratio then ''too_big'' else ''none'')"

definition gap_of :: "Bar list \<Rightarrow> pyfloat option \<Rightarrow> pyfloat \<Rightarrow> pyfloat option \<Rightarrow> pyfloat option \<times> string option \<times> string list" where
  "gap_of bs prior_close atr_14 rvol =
     (case prior_close of
        Some c \<Rightarrow>
          (if c \<le> 0 then (None, None, [''prior_close_missing'', ''gap_inputs_missing''])
           else (let gap = fdiv (br_open (hd bs) - c) c in
             if atr_14 \<le> 0 then (Some gap, None, [''gap_inputs_missing''])
             else (Some gap, Some (gap_bucket (fdiv \<bar>br_open (hd bs) - c\<bar> atr_14) gap rvol), [])))
      | None \<Rightarrow> (None, None, [''prior_close_missing'', ''gap_inputs_missing'']))"

definition classify ::
  "zone \<Rightarrow> DayThresholds \<Rightarrow> string \<Rightarrow> Bar list \<Rightarrow> Bar list \<Rightarrow> pyfloat option \<Rightarrow> pyfloat option
   \<Rightarrow> (string \<times> pyfloat) list option \<Rightarrow> DayType res" where
  "classify z th symbol bs first5 prior_close baseline rvols =
     (if length bs < ADX_PERIOD + 1 then Inr insufficient_day
      else
        rbind (adx ADX_PERIOD bs) (\<lambda>adx_14.
        rbind (atr ADX_PERIOD bs) (\<lambda>atr_14.
        rmap (\<lambda>window.
          let (day_type, r1) = regime_of th adx_14;
              (vwap, slope, r2) = vwap_of bs;
              rvol = relative_volume first5 baseline;
              rank = (case rvols of None \<Rightarrow> None | Some m \<Rightarrow> map_of m symbol);
              (gap, bucket, r3) = gap_of bs prior_close atr_14 rvol
          in \<lparr>dy_day_type = day_type, dy_adx_14 = Some adx_14, dy_vwap = vwap, dy_vwap_slope = slope,
              dy_rvol_first5 = rvol, dy_rvol_rank = rank, dy_gap_pct = gap, dy_gap_atr_bucket = bucket,
              dy_opening_range_high = map_option fst window, dy_opening_range_low = map_option snd window,
              dy_reasons = r1 @ r2 @ (if rvol = None then [''rvol_baseline_missing''] else [])
                @ (if rank = None then [''rvol_rank_missing''] else []) @ r3
                @ (if window = None then [''opening_range_missing''] else [])\<rparr>)
          (opening_range z (th_opening_range_minutes th) None bs))))"

section \<open>Averages stay between what they average\<close>

definition between :: "real \<Rightarrow> real \<Rightarrow> pyfloat \<Rightarrow> bool" where
  "between lo hi x \<longleftrightarrow> (\<exists>r. x = Fin r \<and> lo \<le> r \<and> r \<le> hi)"

lemma between_Fin [simp]: "between lo hi (Fin r) \<longleftrightarrow> lo \<le> r \<and> r \<le> hi"
  by (simp add: between_def)

lemma between_list:
  assumes "\<forall>x \<in> set xs. between lo hi x"
  obtains rs where "xs = map Fin rs" "\<forall>r \<in> set rs. lo \<le> r \<and> r \<le> hi"
proof -
  have "\<exists>rs. xs = map Fin rs \<and> (\<forall>r \<in> set rs. lo \<le> r \<and> r \<le> hi)"
    using assms
  proof (induction xs)
    case (Cons x xs)
    then obtain r rs where "x = Fin r" "lo \<le> r" "r \<le> hi" "xs = map Fin rs" "\<forall>r \<in> set rs. lo \<le> r \<and> r \<le> hi"
      by (auto simp: between_def)
    then show ?case by (intro exI[of _ "r # rs"]) simp
  qed simp
  then show thesis using that by blast
qed

lemma fsum_map_Fin: "fsum (map Fin rs) = Fin (sum_list rs)"
  using fsum_Fin[of "\<lambda>r. r" rs] by simp

lemma sum_list_between: "\<forall>r \<in> set rs. lo \<le> r \<and> r \<le> (hi :: real) \<Longrightarrow>
    of_nat (length rs) * lo \<le> sum_list rs \<and> sum_list rs \<le> of_nat (length rs) * hi"
  by (induction rs) (auto simp: algebra_simps)

lemma mean_between:
  assumes "\<forall>x \<in> set xs. between lo hi x" and "xs \<noteq> []"
  shows "between lo hi (mean_of (length xs) xs)"
proof -
  obtain rs where rs: "xs = map Fin rs" "\<forall>r \<in> set rs. lo \<le> r \<and> r \<le> hi" by (rule between_list[OF assms(1)])
  have "0 < length rs" using assms(2) rs by simp
  then have "0 < real (length rs)" by linarith
  then show ?thesis using sum_list_between[OF rs(2)] assms(2)
    by (simp add: rs(1) mean_of_def fsum_map_Fin fdiv_Fin pos_le_divide_eq pos_divide_le_eq mult.commute)
qed

lemma smooth_between:
  assumes "between lo hi v" "between lo hi x" "0 < n"
  shows "between lo hi (smooth n v x)"
proof -
  obtain a b where ab: "v = Fin a" "x = Fin b" "lo \<le> a" "a \<le> hi" "lo \<le> b" "b \<le> hi"
    using assms by (auto simp: between_def)
  have n: "1 \<le> real n" using assms(3) by linarith
  have "lo * (real n - 1) \<le> a * (real n - 1)" "a * (real n - 1) \<le> hi * (real n - 1)"
    using ab n by (intro mult_right_mono; simp)+
  then have "lo * real n \<le> a * (real n - 1) + b" "a * (real n - 1) + b \<le> hi * real n"
    using ab by (auto simp: algebra_simps)
  then show ?thesis using n ab
    by (simp add: smooth_def fdiv_Fin pos_le_divide_eq pos_divide_le_eq)
qed

lemma foldl_smooth_between: "0 < n \<Longrightarrow> between lo hi v \<Longrightarrow> \<forall>x \<in> set xs. between lo hi x \<Longrightarrow> between lo hi (foldl (smooth n) v xs)"
  by (induction xs arbitrary: v) (simp_all add: smooth_between)

lemma wilder_between:
  assumes "\<forall>x \<in> set xs. between lo hi x" "0 < n" "n \<le> length xs"
  shows "between lo hi (wilder n xs)"
proof -
  have "between lo hi (mean_of (length (take n xs)) (take n xs))"
    by (rule mean_between) (use assms in \<open>auto dest: in_set_takeD\<close>)
  then have "between lo hi (mean_of n (take n xs))" using assms(3) by simp
  then show ?thesis
    unfolding wilder_def by (rule foldl_smooth_between[OF assms(2)]) (use assms(1) in \<open>auto dest: in_set_dropD\<close>)
qed

section \<open>The directional index\<close>

definition nonneg :: "pyfloat \<Rightarrow> bool" where
  "nonneg x \<longleftrightarrow> (\<exists>r. x = Fin r \<and> 0 \<le> r)"

lemma nonneg_between: "nonneg x \<Longrightarrow> \<exists>hi. between 0 hi x" "between 0 hi x \<Longrightarrow> nonneg x"
  by (auto simp: nonneg_def between_def)

lemma nonneg_Fin [simp]: "nonneg (Fin r) \<longleftrightarrow> 0 \<le> r" "nonneg 0"
  by (simp_all add: nonneg_def zero_pyfloat_def)

lemma dx_between:
  assumes "nonneg p" "nonneg m" "isfinite t"
  shows "between 0 100 (dx p m t)"
proof -
  obtain a b c where v: "p = Fin a" "m = Fin b" "t = Fin c" "0 \<le> a" "0 \<le> b"
    using assms by (auto simp: nonneg_def isfinite_iff)
  show ?thesis
  proof (cases "0 < c")
    case c: True
    have pos: "0 \<le> 100 * a / c" "0 \<le> 100 * b / c" using v c by simp_all
    show ?thesis
    proof (cases "0 < 100 * a / c + 100 * b / c")
      case True
      have "\<bar>100 * a / c - 100 * b / c\<bar> \<le> 100 * a / c + 100 * b / c" using pos by linarith
      then show ?thesis using True c pos
        by (simp add: dx_def v Let_def fdiv_Fin pos_divide_le_eq)
    next
      case False
      then show ?thesis using c by (simp add: dx_def v Let_def fdiv_Fin zero_pyfloat_def)
    qed
  qed (simp add: dx_def v zero_pyfloat_def)
qed

lemma mean_nonneg:
  assumes "\<forall>x \<in> set xs. nonneg x"
  shows "nonneg (mean_of n xs) \<or> n = 0"
proof -
  have "\<exists>rs. xs = map Fin rs \<and> (\<forall>r \<in> set rs. 0 \<le> r)"
    using assms
  proof (induction xs)
    case (Cons x xs)
    then obtain r rs where "x = Fin r" "0 \<le> r" "xs = map Fin rs" "\<forall>r \<in> set rs. 0 \<le> r" by (auto simp: nonneg_def)
    then show ?case by (intro exI[of _ "r # rs"]) simp
  qed simp
  then obtain rs where "xs = map Fin rs" "\<forall>r \<in> set rs. 0 \<le> r" by blast
  then show ?thesis by (simp add: mean_of_def fsum_map_Fin fdiv_Fin sum_list_nonneg)
qed

lemma smooth_nonneg: "nonneg v \<Longrightarrow> nonneg x \<Longrightarrow> 0 < n \<Longrightarrow> nonneg (smooth n v x)"
proof -
  assume a: "nonneg v" "nonneg x" "0 < n"
  then obtain r s where "v = Fin r" "0 \<le> r" "x = Fin s" "0 \<le> s" by (auto simp: nonneg_def)
  then show ?thesis using smooth_between[of 0 "max r s" v x n] a(3) nonneg_between(2) by simp
qed

lemma nonneg_finite: "nonneg x \<Longrightarrow> isfinite x"
  by (auto simp: nonneg_def)

lemma dxs_from_between:
  "0 < n \<Longrightarrow> nonneg p \<Longrightarrow> nonneg m \<Longrightarrow> nonneg t \<Longrightarrow> \<forall>(a, b, c) \<in> set ms. nonneg a \<and> nonneg b \<and> nonneg c \<Longrightarrow>
     \<forall>x \<in> set (dxs_from n p m t ms). between 0 100 x"
  by (induction n p m t ms rule: dxs_from.induct)
    (simp_all add: smooth_nonneg dx_between nonneg_finite)

definition finite_bar :: "Bar \<Rightarrow> bool" where
  "finite_bar b \<longleftrightarrow> isfinite (br_high b) \<and> isfinite (br_low b) \<and> isfinite (br_close b)"

lemma step_range_nonneg:
  assumes "finite_bar a" "finite_bar b"
  shows "nonneg (step_range (a, b))"
  using assms by (auto simp: finite_bar_def step_range_def true_range_def)

lemma move_nonneg:
  assumes "finite_bar a" "finite_bar b"
  shows "case move (a, b) of (x, y, t) \<Rightarrow> nonneg x \<and> nonneg y \<and> nonneg t"
  using assms step_range_nonneg[OF assms] by (auto simp: finite_bar_def move_def Let_def)

lemma steps_finite: "\<forall>b \<in> set bs. finite_bar b \<Longrightarrow> (a, b) \<in> set (steps bs) \<Longrightarrow> finite_bar a \<and> finite_bar b"
  unfolding steps_def by (auto dest: set_zip_leftD set_zip_rightD in_set_dropD)

lemma length_steps [simp]: "length (steps bs) = length bs - 1"
  by (simp add: steps_def)

lemma length_dxs_from [simp]: "length (dxs_from n p m t ms) = length ms + 1"
  by (induction n p m t ms rule: dxs_from.induct) simp_all

lemma adx_between:
  assumes "\<forall>b \<in> set bs. finite_bar b" and "adx n bs = Inr x"
  shows "between 0 100 x"
proof -
  have n: "0 < n" "\<not> length bs < n + 1" using assms(2) by (auto simp: adx_def split: if_splits)
  have ms: "\<forall>(a, b, c) \<in> set (map move (steps bs)). nonneg a \<and> nonneg b \<and> nonneg c"
    using move_nonneg steps_finite[OF assms(1)] by fastforce
  have part: "\<forall>(a, b, c) \<in> set ys. nonneg a \<and> nonneg b \<and> nonneg c" if "set ys \<subseteq> set (map move (steps bs))" for ys
    using ms that by blast
  note seed = part[OF set_take_subset[of n]]
  have "\<forall>x \<in> set (map fst (take n (map move (steps bs)))). nonneg x"
    "\<forall>x \<in> set (map (fst \<circ> snd) (take n (map move (steps bs)))). nonneg x"
    "\<forall>x \<in> set (map (snd \<circ> snd) (take n (map move (steps bs)))). nonneg x"
    using seed by fastforce+
  then have "\<forall>x \<in> set (dxs n bs). between 0 100 x"
    unfolding dxs_def Let_def using n(1) mean_nonneg part[OF set_drop_subset[of n]]
    by (intro dxs_from_between) blast+
  moreover have "dxs n bs \<noteq> []" unfolding dxs_def Let_def by (metis add_is_0 length_0_conv length_dxs_from one_neq_zero)
  ultimately show ?thesis
    using assms(2) n mean_between wilder_between[of "dxs n bs" 0 100 n] by (auto simp: adx_def Let_def split: if_splits)
qed

lemma atr_between:
  assumes "\<forall>p \<in> set (steps bs). between lo hi (step_range p)" and "atr n bs = Inr x"
  shows "between lo hi x"
  using assms wilder_between[of "map step_range (steps bs)" lo hi n]
  by (auto simp: atr_def split: if_splits)

section \<open>VWAP\<close>

lemma vwap_between:
  assumes "\<forall>b \<in> set bs. between lo hi (typical b) \<and> nonneg (br_volume b)" and "session_vwap bs = Inr v"
  shows "between lo hi v"
proof -
  define T V where "T b = the_fin (typical b)" and "V b = the_fin (br_volume b)" for b
  have b: "typical b = Fin (T b) \<and> br_volume b = Fin (V b) \<and> lo \<le> T b \<and> T b \<le> hi \<and> 0 \<le> V b" if "b \<in> set bs" for b
    using assms(1) that by (force simp: between_def nonneg_def T_def V_def the_fin_def)
  have "map br_volume bs = map (\<lambda>b. Fin (V b)) bs"
    "map (\<lambda>b. typical b * br_volume b) bs = map (\<lambda>b. Fin (T b * V b)) bs" using b by auto
  then have f: "fsum (map br_volume bs) = Fin (sum_list (map V bs))"
    "fsum (map (\<lambda>b. typical b * br_volume b) bs) = Fin (sum_list (map (\<lambda>b. T b * V b) bs))"
    by (simp_all add: fsum_Fin del: map_eq_conv)
  have pos: "0 < sum_list (map V bs)"
    and v: "v = Fin (sum_list (map (\<lambda>b. T b * V b) bs) / sum_list (map V bs))"
    using assms(2) by (auto simp: session_vwap_def Let_def f fdiv_Fin split: if_splits)
  have "sum_list (map (\<lambda>b. lo * V b) bs) \<le> sum_list (map (\<lambda>b. T b * V b) bs)"
    "sum_list (map (\<lambda>b. T b * V b) bs) \<le> sum_list (map (\<lambda>b. hi * V b) bs)"
    by (intro sum_list_mono mult_right_mono; use b in simp)+
  then show ?thesis using pos by (simp add: v sum_list_const_mult pos_le_divide_eq pos_divide_le_eq)
qed

section \<open>What a day type says\<close>

definition explained :: "DayType \<Rightarrow> bool" where
  \<comment> \<open>a value is absent exactly where its reason is given\<close>
  "explained d \<longleftrightarrow>
     (let has = (\<lambda>r. r \<in> set (dy_reasons d)) in
      (dy_day_type d = ''unknown'' \<longleftrightarrow> has ''adx_between_thresholds'') \<and> dy_adx_14 d \<noteq> None
      \<and> (dy_vwap d = None \<longleftrightarrow> has ''vwap_unavailable'') \<and> (dy_vwap_slope d = None \<longleftrightarrow> has ''vwap_unavailable'')
      \<and> (dy_rvol_first5 d = None \<longleftrightarrow> has ''rvol_baseline_missing'') \<and> (dy_rvol_rank d = None \<longleftrightarrow> has ''rvol_rank_missing'')
      \<and> (dy_gap_pct d = None \<longleftrightarrow> has ''prior_close_missing'') \<and> (dy_gap_atr_bucket d = None \<longleftrightarrow> has ''gap_inputs_missing'')
      \<and> (dy_opening_range_high d = None \<longleftrightarrow> has ''opening_range_missing'')
      \<and> (dy_opening_range_low d = None \<longleftrightarrow> has ''opening_range_missing''))"

lemma regime_cases: "regime_of th x \<in> {(''trend'', []), (''range'', []), (''unknown'', [''adx_between_thresholds''])}"
  by (simp add: regime_of_def)

lemma vwap_of_cases: "(\<exists>v sl. vwap_of bs = (Some v, Some sl, [])) \<or> vwap_of bs = (None, None, [''vwap_unavailable''])"
  by (auto simp: vwap_of_def split: sum.split)

lemma gap_of_cases: "(\<exists>g b. gap_of bs c a r = (Some g, Some b, [])) \<or> (\<exists>g. gap_of bs c a r = (Some g, None, [''gap_inputs_missing'']))
    \<or> gap_of bs c a r = (None, None, [''prior_close_missing'', ''gap_inputs_missing''])"
  by (auto simp: gap_of_def Let_def split: option.split)

lemma classify_cases:
  assumes "classify z th symbol bs first5 prior_close baseline rvols = Inr d"
  obtains (short) "length bs < ADX_PERIOD + 1" "d = insufficient_day"
  | (full) x where "ADX_PERIOD + 1 \<le> length bs" "adx ADX_PERIOD bs = Inr x" "dy_adx_14 d = Some x"
      "dy_day_type d = fst (regime_of th x)" "explained d"
      "\<exists>w. opening_range z (th_opening_range_minutes th) None bs = Inr w \<and> dy_opening_range_high d = map_option fst w
         \<and> dy_opening_range_low d = map_option snd w"
      "dy_rvol_first5 d = relative_volume first5 baseline"
proof (cases "length bs < ADX_PERIOD + 1")
  case True
  then show thesis using assms short by (simp add: classify_def)
next
  case False
  then obtain x a w where e: "adx ADX_PERIOD bs = Inr x" "atr ADX_PERIOD bs = Inr a"
    "opening_range z (th_opening_range_minutes th) None bs = Inr w"
    using assms by (auto simp: classify_def rbind_Inr_iff rmap_Inr_iff)
  obtain dt r1 where r: "regime_of th x = (dt, r1)" by fastforce
  obtain vw sl r2 where vw: "vwap_of bs = (vw, sl, r2)" by (metis surj_pair)
  obtain gp bk r3 where gp: "gap_of bs prior_close a (relative_volume first5 baseline) = (gp, bk, r3)" by (metis surj_pair)
  let ?rank = "case rvols of None \<Rightarrow> None | Some m \<Rightarrow> map_of m symbol"
  have d: "d = \<lparr>dy_day_type = dt, dy_adx_14 = Some x, dy_vwap = vw, dy_vwap_slope = sl,
              dy_rvol_first5 = relative_volume first5 baseline, dy_rvol_rank = ?rank, dy_gap_pct = gp, dy_gap_atr_bucket = bk,
              dy_opening_range_high = map_option fst w, dy_opening_range_low = map_option snd w,
              dy_reasons = r1 @ r2 @ (if relative_volume first5 baseline = None then [''rvol_baseline_missing''] else [])
                @ (if ?rank = None then [''rvol_rank_missing''] else []) @ r3
                @ (if w = None then [''opening_range_missing''] else [])\<rparr>"
    using assms False e r vw gp by (simp add: classify_def Let_def)
  have rc: "(dt = ''unknown'') = (''adx_between_thresholds'' \<in> set r1)" "set r1 \<subseteq> {''adx_between_thresholds''}"
    using regime_cases[of th x] r by auto
  have vc: "(vw = None) = (''vwap_unavailable'' \<in> set r2)" "(sl = None) = (vw = None)" "set r2 \<subseteq> {''vwap_unavailable''}"
    using vwap_of_cases[of bs] vw by auto
  have gc: "(gp = None) = (''prior_close_missing'' \<in> set r3)" "(bk = None) = (''gap_inputs_missing'' \<in> set r3)"
    "set r3 \<subseteq> {''prior_close_missing'', ''gap_inputs_missing''}"
    using gap_of_cases[of bs prior_close a "relative_volume first5 baseline"] gp by auto
  have only1: "x \<notin> set r1" if "x \<noteq> ''adx_between_thresholds''" for x using rc(2) that by blast
  have only2: "x \<notin> set r2" if "x \<noteq> ''vwap_unavailable''" for x using vc(3) that by blast
  have only3: "x \<notin> set r3" if "x \<noteq> ''prior_close_missing''" "x \<noteq> ''gap_inputs_missing''" for x using gc(3) that by blast
  have "explained d"
    unfolding explained_def d Let_def by (simp add: rc(1) vc(1,2) gc(1,2) only1 only2 only3)
  then show thesis using full[of x] False e r d by auto
qed

section \<open>Extremes and ranks\<close>

lemma foldl_pymax:
  "isfinite x \<Longrightarrow> \<forall>y \<in> set xs. isfinite y \<Longrightarrow>
     foldl pymax x xs \<in> insert x (set xs) \<and> (\<forall>y \<in> insert x (set xs). y \<le> foldl pymax x xs)"
proof (induction xs arbitrary: x)
  case (Cons y ys)
  then have "isfinite (pymax x y)" "pymax x y \<in> {x, y}" "x \<le> pymax x y" "y \<le> pymax x y"
    by (auto simp: pymax_def)
  then show ?case using Cons.IH[of "pymax x y"] Cons.prems by (fastforce simp: isfinite_iff)
qed auto

lemma highest_is: "xs \<noteq> [] \<Longrightarrow> \<forall>x \<in> set xs. isfinite x \<Longrightarrow> highest xs \<in> set xs \<and> (\<forall>x \<in> set xs. x \<le> highest xs)"
  using foldl_pymax[of "hd xs" "tl xs"] by (cases xs) (auto simp: highest_def)

lemma foldl_pymin:
  "isfinite x \<Longrightarrow> \<forall>y \<in> set xs. isfinite y \<Longrightarrow>
     foldl pymin x xs \<in> insert x (set xs) \<and> (\<forall>y \<in> insert x (set xs). foldl pymin x xs \<le> y)"
proof (induction xs arbitrary: x)
  case (Cons y ys)
  then have "isfinite (pymin x y)" "pymin x y \<in> {x, y}" "pymin x y \<le> x" "pymin x y \<le> y"
    by (auto simp: pymin_def)
  then show ?case using Cons.IH[of "pymin x y"] Cons.prems by (fastforce simp: isfinite_iff)
qed auto

lemma lowest_is: "xs \<noteq> [] \<Longrightarrow> \<forall>x \<in> set xs. isfinite x \<Longrightarrow> lowest xs \<in> set xs \<and> (\<forall>x \<in> set xs. lowest xs \<le> x)"
  using foldl_pymin[of "hd xs" "tl xs"] by (cases xs) (auto simp: lowest_def)

lemma opening_range_is:
  assumes "opening_range z minutes so bs = Inr (Some (h, l))" and "\<forall>b \<in> set bs. finite_bar b"
  obtains w ordered where "by_time bs = Inr ordered" "w = opening_window z minutes so ordered" "w \<noteq> []" "set w \<subseteq> set bs"
    "h \<in> br_high ` set w" "\<forall>b \<in> set w. br_high b \<le> h" "l \<in> br_low ` set w" "\<forall>b \<in> set w. l \<le> br_low b"
proof -
  obtain ordered where o: "by_time bs = Inr ordered" "opening_window z minutes so ordered \<noteq> []"
    "h = highest (map br_high (opening_window z minutes so ordered))" "l = lowest (map br_low (opening_window z minutes so ordered))"
    using assms(1) by (auto simp: opening_range_def rmap_Inr_iff Let_def split: if_splits)
  have sub: "set (opening_window z minutes so ordered) \<subseteq> set bs"
    using by_time_ok[OF o(1)] by (auto simp: opening_window_def Let_def dest: mset_eq_setD)
  have fin: "\<forall>x \<in> set (map br_high (opening_window z minutes so ordered)). isfinite x"
    "\<forall>x \<in> set (map br_low (opening_window z minutes so ordered)). isfinite x"
    using sub assms(2) by (auto simp: finite_bar_def)
  show thesis
    using that[OF o(1) refl o(2) sub] highest_is[OF _ fin(1)] lowest_is[OF _ fin(2)] o by auto
qed

lemma length_filter_strict:
  "\<forall>x \<in> set xs. P x \<longrightarrow> Q x \<Longrightarrow> w \<in> set xs \<Longrightarrow> Q w \<Longrightarrow> \<not> P w \<Longrightarrow> length (filter P xs) < length (filter Q xs)"
proof (induction xs)
  case (Cons x xs)
  have le: "length (filter P xs) \<le> length (filter Q xs)"
    using Cons.prems(1) by (induction xs) auto
  show ?case using Cons le by (cases "x = w") auto
qed simp

lemma rvol_ranks_order:
  assumes "\<forall>v \<in> set (map snd rvols). isfinite v" "(s, v) \<in> set rvols" "(t, w) \<in> set rvols" "v < w"
  shows "\<exists>i j. (s, i) \<in> set (rvol_ranks rvols) \<and> (t, j) \<in> set (rvol_ranks rvols) \<and> 1 \<le> j \<and> j < i"
proof -
  let ?n = "\<lambda>v. length (filter (\<lambda>other. v < other) (map snd rvols))"
  have "?n w < ?n v"
  proof (rule length_filter_strict)
    have "isfinite v" "isfinite w" using assms(1-3) by force+
    then show "\<forall>x \<in> set (map snd rvols). w < x \<longrightarrow> v < x" using assms(1,4) by (auto simp: isfinite_iff)
    show "w \<in> set (map snd rvols)" using assms(3) by force
    show "v < w" by (rule assms(4))
    show "\<not> w < w" by (cases w) simp_all
  qed
  moreover have "(s, 1 + ?n v) \<in> set (rvol_ranks rvols)" "(t, 1 + ?n w) \<in> set (rvol_ranks rvols)"
    using assms(2,3) unfolding rvol_ranks_def set_map set_sort by (metis (mono_tags, lifting) case_prod_conv image_eqI)+
  ultimately show ?thesis by (intro exI[of _ "1 + ?n v"] exI[of _ "1 + ?n w"]) simp
qed

section \<open>Where the documented behaviour differs\<close>

lemma utc_bars_no_opening_range:
  \<comment> \<open>the opening time of New York is written into the stamp of the first bar, whatever its zone: bars
      stamped in UTC from 09:30 New York on never fall into the window\<close>
  assumes "bs \<noteq> []" and "0 < minutes" and "is_session d"
    and "\<forall>b \<in> set bs. utc_off (br_ts b) = Some 0 \<and> date_of (br_ts b) = d \<and> date_of (to_et z (br_ts b)) = d
           \<and> OPEN_ET + minutes * minute_us \<le> time_of (br_ts b)"
  shows "opening_range z minutes None bs = Inr None"
proof -
  define ordered where "ordered = sort_key (\<lambda>b. utc_instant (br_ts b)) bs"
  have "comparable (map br_ts bs)" using assms(4) by (auto simp: comparable_def aware_def list_all_iff)
  then have o: "by_time bs = Inr ordered" "set ordered = set bs"
    by (simp_all add: by_time_def ordered_def)
  have ne: "ordered \<noteq> []" using o(2) assms(1) by auto
  have hb: "hd ordered \<in> set bs" using hd_in_set[OF ne] unfolding o(2) .
  have op: "ds_open_et (session_for d) = Some OPEN_ET" "ds_is_session (session_for d)"
    using session_for_open(1)[OF assms(3)] assms(3) by (simp_all add: is_session_def)
  have start: "utc_instant (session_open_dt z (br_ts (hd ordered)) None) = d * us_per_day + OPEN_ET"
  proof -
    have f: "utc_off (br_ts (hd ordered)) = Some 0" "date_of (br_ts (hd ordered)) = d" "date_of (to_et z (br_ts (hd ordered))) = d"
      using bspec[OF assms(4) hb] by simp_all
    have "OPEN_ET div minute_us * minute_us = OPEN_ET" by (simp add: OPEN_ET_def minute_us_def)
    then show ?thesis using f op by (simp add: session_open_dt_def Let_def at_minute_def utc_instant_def)
  qed
  have "\<not> utc_instant (br_ts b) < d * us_per_day + OPEN_ET + minutes * minute_us" if "b \<in> set bs" for b
  proof -
    have "wall_us (br_ts b) = d * us_per_day + time_of (br_ts b)"
    proof -
      have "date_of (br_ts b) = d" using that assms(4) by blast
      then show ?thesis unfolding date_of_def time_of_def by (metis div_mult_mod_eq)
    qed
    then show ?thesis using bspec[OF assms(4) that] by (simp add: utc_instant_def)
  qed
  then have "opening_window z minutes None ordered = []"
    using o(2) by (auto simp: opening_window_def Let_def start filter_empty_conv)
  then show ?thesis using o(1) assms(1,2) by (simp add: opening_range_def)
qed

end
