(* ===== verification/Scan.thy ===== *)
theory Scan
  imports DayType Engine
begin

text \<open>
  \<open>SessionEngine.scan\<close> of \<open>signald/engine.py\<close>: from the universe to candidates, over the data service and
  the day type. The setup rules (\<open>signals/setups.py\<close>) are not in the repository: \<open>sc_eligible\<close> and
  \<open>sc_find\<close> stand for them.
\<close>

record scan_env =
  sc_md :: md_env
  sc_zone :: zone
  sc_thresholds :: DayThresholds
  sc_warmup_days :: int
  sc_eligible :: "string \<Rightarrow> pyfloat \<Rightarrow> pyfloat option \<Rightarrow> pyfloat option \<Rightarrow> bool \<times> string"
  sc_find :: "string \<Rightarrow> Bar list \<Rightarrow> Bar list \<Rightarrow> DayType \<Rightarrow> pyfloat option \<Rightarrow> pyfloat \<Rightarrow> pyfloat option \<Rightarrow> pyfloat option
    \<Rightarrow> Candidate option \<times> string"
  sc_error_text :: "md_error \<Rightarrow> string"

record market_read =
  rd_quote :: Quote
  rd_bars :: "Bar list"
  rd_daily :: "Bar list"
  rd_first5 :: "Bar list"

definition read_market :: "scan_env \<Rightarrow> quarantines \<Rightarrow> string \<Rightarrow> datetime option \<Rightarrow> market_read md" where
  \<comment> \<open>the daily bars are read as of now, whatever the scan's cut-off\<close>
  "read_market e qs symbol as_of =
     rbind (quote (sc_md e) qs symbol False False) (\<lambda>q.
     rbind (bars (sc_md e) qs symbol 90 ''1Min'' as_of False False) (\<lambda>bs.
     rbind (daily (sc_md e) qs symbol (sc_warmup_days e) None False False) (\<lambda>ds.
     rmap (\<lambda>f5. \<lparr>rd_quote = q, rd_bars = bs, rd_daily = ds, rd_first5 = f5\<rparr>)
       (bars (sc_md e) qs symbol 5 ''1Min'' as_of False False))))"

definition scan_adv :: "scan_env \<Rightarrow> quarantines \<Rightarrow> string \<Rightarrow> pyfloat option" where
  "scan_adv e qs symbol =
     (case daily (sc_md e) qs symbol 21 None False False of
        Inl _ \<Rightarrow> None | Inr [] \<Rightarrow> None
      | Inr bs \<Rightarrow> Some (fdiv (fsum (map br_volume bs)) (Fin (of_nat (length bs)))))"

type_synonym scanned = "(string \<times> string) + Candidate"

definition pick_setup ::
  "scan_env \<Rightarrow> quarantines \<Rightarrow> string \<Rightarrow> market_read \<Rightarrow> pyfloat \<Rightarrow> pyfloat option \<Rightarrow> pyfloat option \<Rightarrow> pyfloat \<Rightarrow> DayType \<Rightarrow> scanned" where
  "pick_setup e qs symbol m price prior baseline atr_value day =
     (let adv = scan_adv e qs symbol;
          fit = sc_eligible e symbol price adv (if truthy atr_value then Some atr_value else None);
          found = sc_find e symbol (rd_bars m) (rd_first5 m) day prior atr_value adv baseline in
      if \<not> fst fit then Inl (symbol, snd fit)
      else (case fst found of
          None \<Rightarrow> Inl (symbol, snd found)
        | Some c \<Rightarrow> Inr (c\<lparr>cd_symbol := symbol, cd_day_type := Some (dy_day_type day)\<rparr>)))"

definition judge_symbol :: "scan_env \<Rightarrow> quarantines \<Rightarrow> string \<Rightarrow> market_read \<Rightarrow> scanned res" where
  \<comment> \<open>the data read, to a skip with its reason or a candidate\<close>
  "judge_symbol e qs symbol m =
     (case qt_last (rd_quote m) of
        None \<Rightarrow> Inr (Inl (symbol, ''no_price''))
      | Some price \<Rightarrow>
        (let prior = (if rd_daily m = [] then None else Some (br_close (last (rd_daily m))));
             baseline = (if rd_daily m = [] then None else Some (br_volume (last (rd_daily m)))) in
         rbind (if rd_daily m = [] then Inr 0 else atr ADX_PERIOD (rd_daily m)) (\<lambda>atr_value.
         rmap (pick_setup e qs symbol m price prior baseline atr_value)
           (classify (sc_zone e) (sc_thresholds e) symbol (rd_bars m) (rd_first5 m) prior baseline None))))"

definition scan_symbol :: "scan_env \<Rightarrow> datetime option \<Rightarrow> string \<Rightarrow> quarantines \<Rightarrow> quarantines \<times> scanned res" where
  "scan_symbol e as_of symbol qs =
     (if is_quarantined symbol qs then (qs, Inr (Inl (symbol, ''quarantined'')))
      else (case read_market e qs symbol as_of of
          Inl x \<Rightarrow> (md_quarantine symbol (''market data: '' @ sc_error_text e x) qs, Inr (Inl (symbol, ''data_unavailable'')))
        | Inr m \<Rightarrow> (qs, judge_symbol e qs symbol m)))"

fun scan :: "scan_env \<Rightarrow> datetime option \<Rightarrow> string list \<Rightarrow> quarantines
    \<Rightarrow> quarantines \<times> (Candidate list \<times> (string \<times> string) list) res" where
  \<comment> \<open>an exception of one symbol ends the scan\<close>
  "scan e as_of [] qs = (qs, Inr ([], []))"
| "scan e as_of (symbol # rest) qs =
     sbind (scan_symbol e as_of symbol qs) (\<lambda>qs1 r.
     sbind (scan e as_of rest qs1) (\<lambda>qs2 (cs, sk).
       (qs2, Inr (case r of Inl s \<Rightarrow> (cs, s # sk) | Inr c \<Rightarrow> (c # cs, sk)))))"

section \<open>What a scan finds\<close>

lemma pick_setup_cases:
  "case pick_setup e qs symbol m price prior baseline a day of
     Inl s \<Rightarrow> fst s = symbol | Inr c \<Rightarrow> cd_symbol c = symbol \<and> cd_day_type c = Some (dy_day_type day)"
  by (simp add: pick_setup_def Let_def split: option.split)

lemma judge_symbol_cases:
  assumes "judge_symbol e qs symbol m = Inr r"
  obtains (priceless) "r = Inl (symbol, ''no_price'')"
  | (judged) price prior baseline a day where "qt_last (rd_quote m) = Some price"
      "classify (sc_zone e) (sc_thresholds e) symbol (rd_bars m) (rd_first5 m) prior baseline None = Inr day"
      "r = pick_setup e qs symbol m price prior baseline a day"
proof (cases "qt_last (rd_quote m)")
  case None
  then show thesis using assms priceless by (simp add: judge_symbol_def)
next
  case (Some price)
  then show thesis using assms judged unfolding judge_symbol_def Let_def by (fastforce simp: rbind_Inr_iff rmap_Inr_iff)
qed

lemma scan_symbol_name:
  assumes "scan_symbol e as_of symbol qs = (qs', Inr r)"
  shows "case r of Inl s \<Rightarrow> fst s = symbol | Inr c \<Rightarrow> cd_symbol c = symbol"
proof -
  consider "\<exists>t. r = Inl (symbol, t)" | m where "judge_symbol e qs symbol m = Inr r"
    using assms by (auto simp: scan_symbol_def split: if_splits sum.splits)
  then show ?thesis
  proof cases
    case 2
    then show ?thesis
    proof (cases rule: judge_symbol_cases)
      case (judged price prior baseline a day)
      have "case r of Inl s \<Rightarrow> fst s = symbol | Inr c \<Rightarrow> cd_symbol c = symbol \<and> cd_day_type c = Some (dy_day_type day)"
        unfolding judged(3) by (rule pick_setup_cases)
      then show ?thesis by (cases r) auto
    qed simp
  qed auto
qed

lemma scan_accounts:
  "scan e as_of universe qs = (qs', Inr (cs, sk)) \<Longrightarrow> mset (map cd_symbol cs) + mset (map fst sk) = mset universe"
proof (induction universe arbitrary: qs cs sk qs')
  case (Cons symbol rest)
  from Cons.prems obtain qs1 r cs1 sk1 where s: "scan_symbol e as_of symbol qs = (qs1, Inr r)"
    "scan e as_of rest qs1 = (qs', Inr (cs1, sk1))" "(cs, sk) = (case r of Inl s \<Rightarrow> (cs1, s # sk1) | Inr c \<Rightarrow> (c # cs1, sk1))"
    by (auto simp: sbind_def split: prod.splits sum.splits)
  show ?case using Cons.IH[OF s(2)] scan_symbol_name[OF s(1)] s(3) by (cases r) auto
qed simp

definition grounded :: "scan_env \<Rightarrow> datetime option \<Rightarrow> quarantines \<Rightarrow> Candidate \<Rightarrow> bool" where
  \<comment> \<open>a candidate rests on a quote and bars of the configured feed, fresh, none after the cut-off, and on
      the day type they decide\<close>
  "grounded e as_of qs c \<longleftrightarrow>
     (\<exists>m day. read_market e qs (cd_symbol c) as_of = Inr m \<and> \<not> is_quarantined (cd_symbol c) qs
        \<and> qt_feed (rd_quote m) = md_data_feed (sc_md e) \<and> \<not> md_max_quote_staleness_s (sc_md e) < qt_age_s (rd_quote m)
        \<and> qt_last (rd_quote m) \<noteq> None
        \<and> (\<forall>b \<in> set (rd_bars m) \<union> set (rd_first5 m). utc_instant (br_ts b) \<le> utc_instant (cutoff_of (sc_md e) as_of))
        \<and> \<not> md_max_bar_staleness_s (sc_md e) < age_s (cutoff_of (sc_md e) as_of) (br_ts (last (rd_bars m)))
        \<and> cd_day_type c = Some (dy_day_type day)
        \<and> (day = insufficient_day \<and> length (rd_bars m) < ADX_PERIOD + 1 \<or> explained day))"

lemma read_bars_visible:
  assumes "read_bars e qs symbol n tf as_of allow mm limit = Inr bs"
  shows "\<forall>b \<in> set bs. utc_instant (br_ts b) \<le> utc_instant (cutoff_of e as_of)"
    "limit = Some x \<Longrightarrow> \<not> allow \<Longrightarrow> \<not> x < age_s (cutoff_of e as_of) (br_ts (last bs))"
proof -
  obtain ordered where n: "0 < n" and o: "visible_bars (cutoff_of e as_of) (nat n) limit allow ordered = Inr bs"
    using read_bars_ok[OF assms] by metis
  have n': "0 < nat n" using n by simp
  show "\<forall>b \<in> set bs. utc_instant (br_ts b) \<le> utc_instant (cutoff_of e as_of)"
    using take_last_props(2) unfolding visible_bars_ok(1)[OF o n'] by fastforce
  show "limit = Some x \<Longrightarrow> \<not> allow \<Longrightarrow> \<not> x < age_s (cutoff_of e as_of) (br_ts (last bs))"
    by (rule visible_bars_ok(3)[OF o n'])
qed

lemma scan_symbol_grounded:
  assumes "scan_symbol e as_of symbol qs = (qs', Inr (Inr c))"
  shows "grounded e as_of qs c" "qs' = qs"
proof -
  obtain m where m: "\<not> is_quarantined symbol qs" "read_market e qs symbol as_of = Inr m" "qs' = qs"
    "judge_symbol e qs symbol m = Inr (Inr c)"
    using assms by (auto simp: scan_symbol_def split: if_splits sum.splits)
  have r: "quote (sc_md e) qs symbol False False = Inr (rd_quote m)"
    "bars (sc_md e) qs symbol 90 ''1Min'' as_of False False = Inr (rd_bars m)"
    "bars (sc_md e) qs symbol 5 ''1Min'' as_of False False = Inr (rd_first5 m)"
    using m(2) by (auto simp: read_market_def rbind_Inr_iff rmap_Inr_iff)
  note q = quote_ok[OF r(1)]
  note b1 = read_bars_visible[OF r(2)[unfolded bars_def]] and b2 = read_bars_visible[OF r(3)[unfolded bars_def]]
  obtain price prior baseline day where d: "qt_last (rd_quote m) = Some price"
    "classify (sc_zone e) (sc_thresholds e) symbol (rd_bars m) (rd_first5 m) prior baseline None = Inr day"
    "cd_symbol c = symbol" "cd_day_type c = Some (dy_day_type day)"
    using m(4)
  proof (cases rule: judge_symbol_cases)
    case (judged price prior baseline a day)
    have "case (Inr c :: scanned) of Inl s \<Rightarrow> fst s = symbol | Inr c \<Rightarrow> cd_symbol c = symbol \<and> cd_day_type c = Some (dy_day_type day)"
      unfolding judged(3) by (rule pick_setup_cases)
    then show thesis using that[OF judged(1,2)] by simp
  qed simp
  have "day = insufficient_day \<and> length (rd_bars m) < ADX_PERIOD + 1 \<or> explained day"
    using classify_cases[OF d(2)] by metis
  then show "grounded e as_of qs c"
    unfolding grounded_def using m(1,2) q b1 b2 d by (intro exI[of _ m] exI[of _ day]) auto
  show "qs' = qs" by (rule m(3))
qed

lemma scan_grounded:
  "scan e as_of universe qs = (qs', Inr (cs, sk)) \<Longrightarrow> \<forall>c \<in> set cs. cd_symbol c \<in> set universe \<and> (\<exists>q. grounded e as_of q c)"
proof (induction universe arbitrary: qs cs sk qs')
  case (Cons symbol rest)
  from Cons.prems obtain qs1 r cs1 sk1 where s: "scan_symbol e as_of symbol qs = (qs1, Inr r)"
    "scan e as_of rest qs1 = (qs', Inr (cs1, sk1))" "(cs, sk) = (case r of Inl s \<Rightarrow> (cs1, s # sk1) | Inr c \<Rightarrow> (c # cs1, sk1))"
    by (auto simp: sbind_def split: prod.splits sum.splits)
  show ?case
  proof (cases r)
    case (Inl x)
    then show ?thesis using Cons.IH[OF s(2)] s(3) by auto
  next
    case (Inr c)
    have "grounded e as_of qs c" "cd_symbol c = symbol"
      using scan_symbol_grounded(1)[of e as_of symbol qs qs1 c] scan_symbol_name[OF s(1)] s(1) Inr by auto
    then show ?thesis using Cons.IH[OF s(2)] s(3) Inr by auto
  qed
qed simp

lemma scan_stops:
  \<comment> \<open>a symbol with fewer daily bars than the range average needs ends the scan of every symbol\<close>
  assumes "\<not> is_quarantined symbol qs" and "read_market e qs symbol as_of = Inr m" and "qt_last (rd_quote m) = Some price"
    and "rd_daily m \<noteq> []" and "length (rd_daily m) \<le> ADX_PERIOD"
  shows "snd (scan e as_of (symbol # rest) qs) = Inl ValueError"
  using assms by (simp add: scan_symbol_def judge_symbol_def atr_def Let_def sbind_def)

lemma take_last_take_last: "k \<le> n \<Longrightarrow> take_last k (take_last n xs) = take_last k xs"
  by (cases "length xs \<le> n") (simp_all add: take_last_def)

lemma first5_are_last5:
  \<comment> \<open>what the scan takes for the first five bars of the session are the last five it can see\<close>
  assumes "bars e qs symbol 5 tf as_of False False = Inr five" and "bars e qs symbol 90 tf as_of False False = Inr many"
    and "\<And>n m. md_transport e ''bars'' (payload n) = md_transport e ''bars'' (payload m)"
    and "\<And>n. payload n = [(''symbol'', JStr symbol), (''count'', JInt n), (''timeframe'', JStr tf),
          (''as_of'', JStr (isoformat (cutoff_of e as_of)))]"
  shows "five = take_last 5 many"
proof -
  have same: "call_md e ''bars'' (payload 5) = call_md e ''bars'' (payload 90)"
    using assms(3)[of 5 90] by (simp add: call_md_def)
  obtain body parsed ordered raws where a: "call_md e ''bars'' (payload 5) = Inr body" "bar_rows body = Inr raws"
    "parse_bars (md_text e) symbol raws = Inr parsed" "escaped (by_time parsed) = Inr ordered"
    "visible_bars (cutoff_of e as_of) 5 (Some (md_max_bar_staleness_s e)) False ordered = Inr five"
    using assms(1) unfolding bars_def read_bars_def assms(4) by (auto simp: rbind_Inr_iff)
  have b: "visible_bars (cutoff_of e as_of) 90 (Some (md_max_bar_staleness_s e)) False ordered = Inr many"
    using assms(2) a(2-4) a(1)[unfolded same] unfolding bars_def read_bars_def assms(4) by (auto simp: rbind_Inr_iff)
  show ?thesis
    unfolding visible_bars_ok(1)[OF a(5) zero_less_numeral] visible_bars_ok(1)[OF b zero_less_numeral]
    by (simp add: take_last_take_last)
qed

end
