(* ===== verification/MarketSafety.thy ===== *)
theory MarketSafety
  imports Scan
begin

text \<open>
  Properties of what the program trades on: the bars the data service serves, the indicators and the day
  type computed from them, and the candidates a scan of the universe finds. Each is followed by a
  concrete instance.
\<close>

section \<open>Bars\<close>

abbreviation instant :: "Bar \<Rightarrow> int" where
  "instant b \<equiv> utc_instant (br_ts b)"

lemma read_bars_source:
  assumes "read_bars e qs symbol n tf as_of allow mm limit = Inr bs"
  obtains payload body raws parsed ordered where "md_transport e ''bars'' payload = Inr (Some (JObj body))"
    "jget body ''bars'' = JList raws" "list_all2 (\<lambda>raw b. parse_bar (md_text e) symbol raw = Inr b) raws parsed"
    "mset ordered = mset parsed" "sorted (map instant ordered)"
    "visible_bars (cutoff_of e as_of) (nat n) limit allow ordered = Inr bs"
proof -
  obtain payload body raws parsed ordered where b: "call_md e ''bars'' payload = Inr body"
    "bar_rows body = Inr raws" "parse_bars (md_text e) symbol raws = Inr parsed"
    "escaped (by_time parsed) = Inr ordered" "visible_bars (cutoff_of e as_of) (nat n) limit allow ordered = Inr bs"
    using assms unfolding read_bars_def by (auto simp: rbind_Inr_iff split: if_splits)
  have r: "jget body ''bars'' = JList raws" using b(2) by (auto simp: bar_rows_def split: json.splits)
  have "by_time parsed = Inr ordered" using b(4) by (auto simp: escaped_def split: sum.splits)
  from that[OF call_md_bars[OF b(1)] r parse_bars_ok[OF b(3)] _ _ b(5)] by_time_ok[OF this] show thesis by blast
qed

lemma take_last_split: "xs = take (length xs - n) xs @ take_last n xs"
  by (simp add: take_last_def)

lemma latest_kept:
  fixes P :: "'a \<Rightarrow> bool" and n :: nat
  assumes "mset ordered = mset parsed" and "sorted (map f ordered)"
  defines "vis \<equiv> filter P parsed" and "kept \<equiv> take_last n (filter P ordered)"
  shows "mset kept \<subseteq># mset vis" "length kept = min n (length vis)"
    "\<forall>x \<in># mset vis - mset kept. \<forall>b \<in> set kept. f x \<le> f b"
proof -
  have m: "mset (filter P ordered) = mset vis" using assms(1) by (simp add: vis_def)
  define early where "early = take (length (filter P ordered) - n) (filter P ordered)"
  have s: "filter P ordered = early @ kept" unfolding early_def kept_def by (rule take_last_split)
  have d: "mset vis = mset early + mset kept" using m[unfolded s] by simp
  show "mset kept \<subseteq># mset vis" unfolding d by simp
  show "length kept = min n (length vis)" using mset_eq_length[OF m] by (simp add: kept_def take_last_props(1))
  have "sorted (map f (early @ kept))" unfolding s[symmetric] using assms(2) by (rule sorted_filter)
  then show "\<forall>x \<in># mset vis - mset kept. \<forall>b \<in> set kept. f x \<le> f b" unfolding d by (simp add: sorted_append)
qed

text \<open>C16: The data service never serves a bar a decision could not have had. What it returns are the latest
  rows of the feed's answer that are not after the cut-off, as many as were asked for or all of them, in order of
  time and never none; the last is not stale at the cut-off and the symbol is not in quarantine.\<close>

theorem bars_point_in_time:
  assumes "bars e qs symbol n timeframe as_of False mm = Inr bs"
  shows "\<not> is_quarantined symbol qs \<and> bs \<noteq> [] \<and> sorted (map (\<lambda>b. utc_instant (br_ts b)) bs)
    \<and> (\<forall>b \<in> set bs. utc_instant (br_ts b) \<le> utc_instant (cutoff_of e as_of))
    \<and> \<not> md_max_bar_staleness_s e < age_s (cutoff_of e as_of) (br_ts (last bs))
    \<and> (\<exists>payload body raws parsed. md_transport e ''bars'' payload = Inr (Some (JObj body)) \<and> jget body ''bars'' = JList raws
         \<and> list_all2 (\<lambda>raw b. parse_bar (md_text e) symbol raw = Inr b) raws parsed
         \<and> (let known = filter (\<lambda>b. utc_instant (br_ts b) \<le> utc_instant (cutoff_of e as_of)) parsed in
             mset bs \<subseteq># mset known \<and> length bs = min (nat n) (length known)
             \<and> (\<forall>x \<in># mset known - mset bs. \<forall>b \<in> set bs. utc_instant (br_ts x) \<le> utc_instant (br_ts b))))"
proof -
  note r = assms[unfolded bars_def]
  obtain payload body raws parsed ordered where a: "md_transport e ''bars'' payload = Inr (Some (JObj body))"
    "jget body ''bars'' = JList raws" "list_all2 (\<lambda>raw b. parse_bar (md_text e) symbol raw = Inr b) raws parsed"
    "mset ordered = mset parsed" "sorted (map instant ordered)"
    "visible_bars (cutoff_of e as_of) (nat n) (Some (md_max_bar_staleness_s e)) False ordered = Inr bs"
    by (rule read_bars_source[OF r])
  have n: "\<not> is_quarantined symbol qs" "0 < nat n" using read_bars_ok[OF r] by (metis zero_less_nat_eq)+
  note v = visible_bars_ok[OF a(6) n(2)]
  have "sorted (map instant bs)" unfolding v(1) by (intro sorted_take_last sorted_filter a(5))
  moreover note latest_kept[OF a(4,5), where P = "\<lambda>b. instant b \<le> utc_instant (cutoff_of e as_of)" and n = "nat n", folded v(1)]
  ultimately show ?thesis
    using n(1) v(2) v(3)[OF refl] read_bars_visible(1)[OF r] a(1-3) unfolding Let_def by blast
qed

definition ex_row :: "string \<Rightarrow> json" where
  "ex_row t = JObj [(''ts'', JStr t), (''open'', JInt 10), (''high'', JInt 12), (''low'', JInt 9), (''close'', JInt 11),
     (''volume'', JInt 100)]"

definition ex_md :: "json list \<Rightarrow> md_env" where
  "ex_md rows =
     \<lparr>md_transport = (\<lambda>_ _. Inr (Some (JObj [(''feed'', JStr ''sip''), (''as_of'', JStr ''2027-01-19T15:00:00+00:00''),
        (''last'', JInt 11), (''bars'', JList rows)]))),
      md_now = \<lparr>wall_us = 740000 * 86400000000 + 54000000000, utc_off = Some 0\<rparr>, md_data_feed = ''sip'',
      md_max_quote_staleness_s = Fin 5, md_max_bar_staleness_s = Fin 120, md_text = (\<lambda>_. []), md_exc_text = (\<lambda>_. [])\<rparr>"

definition ex_feed :: md_env where
  "ex_feed = ex_md (map ex_row [''2027-01-19T15:01:00+00:00'', ''2027-01-19T14:59:00+00:00'', ''2027-01-19T14:58:00+00:00''])"

lemma ex_feed_bars:
  "(case bars ex_feed [] ''ABC'' 5 ''1Min'' None False False of Inr bs \<Rightarrow> length bs = 2 | _ \<Rightarrow> False)"
  by code_simp

lemma bars_point_in_time_example:
  "\<exists>bs. bars ex_feed [] ''ABC'' 5 ''1Min'' None False False = Inr bs \<and> length bs = 2 \<and> sorted (map (\<lambda>b. utc_instant (br_ts b)) bs)"
proof -
  obtain bs where b: "bars ex_feed [] ''ABC'' 5 ''1Min'' None False False = Inr bs" "length bs = 2"
    using ex_feed_bars by (auto split: sum.splits)
  from bars_point_in_time[OF b(1)] b show ?thesis by blast
qed

section \<open>Indicators\<close>

text \<open>C35: On bars of finite prices the directional index lies between 0 and 100, the average true range between
  the smallest and the largest true range of a step, the volume-weighted price between the lowest and the highest
  typical price, and the opening range is the highest high and the lowest low of the bars in its window.\<close>

theorem indicators_bounded:
  assumes "\<forall>b \<in> set bs. finite_bar b"
  shows "(\<forall>x. adx n bs = Inr x \<longrightarrow> between 0 100 x)
    \<and> (\<forall>lo hi x. atr n bs = Inr x \<and> (\<forall>p \<in> set (steps bs). between lo hi (step_range p)) \<longrightarrow> between lo hi x)
    \<and> (\<forall>lo hi v. session_vwap bs = Inr v \<and> (\<forall>b \<in> set bs. between lo hi (typical b) \<and> nonneg (br_volume b)) \<longrightarrow> between lo hi v)
    \<and> (\<forall>h l. opening_range z minutes so bs = Inr (Some (h, l)) \<longrightarrow>
         (\<exists>ordered w. by_time bs = Inr ordered \<and> w = opening_window z minutes so ordered \<and> w \<noteq> []
            \<and> h \<in> br_high ` set w \<and> (\<forall>b \<in> set w. br_high b \<le> h) \<and> l \<in> br_low ` set w \<and> (\<forall>b \<in> set w. l \<le> br_low b)))"
proof (intro conjI allI impI)
  show "between 0 100 x" if "adx n bs = Inr x" for x by (rule adx_between[OF assms that])
  show "between lo hi x" if "atr n bs = Inr x \<and> (\<forall>p \<in> set (steps bs). between lo hi (step_range p))" for lo hi x
    using atr_between that by blast
  show "between lo hi v" if "session_vwap bs = Inr v \<and> (\<forall>b \<in> set bs. between lo hi (typical b) \<and> nonneg (br_volume b))" for lo hi v
    using vwap_between that by blast
  show "\<exists>ordered w. by_time bs = Inr ordered \<and> w = opening_window z minutes so ordered \<and> w \<noteq> []
      \<and> h \<in> br_high ` set w \<and> (\<forall>b \<in> set w. br_high b \<le> h) \<and> l \<in> br_low ` set w \<and> (\<forall>b \<in> set w. l \<le> br_low b)"
    if "opening_range z minutes so bs = Inr (Some (h, l))" for h l
    using opening_range_is[OF that assms] by metis
qed

definition ex_minute_bar :: Bar where
  "ex_minute_bar = \<lparr>br_symbol = ''ABC'', br_ts = \<lparr>wall_us = 740000 * 86400000000 + 53940000000, utc_off = Some 0\<rparr>, br_open = Fin 10,
     br_high = Fin 12, br_low = Fin 9, br_close = Fin 11, br_volume = Fin 100\<rparr>"

lemma ex_bar_finite: "finite_bar ex_minute_bar"
  by (simp add: ex_minute_bar_def finite_bar_def)

lemma indicators_bounded_example:
  "\<exists>x. adx 14 (replicate 15 ex_minute_bar) = Inr x \<and> between 0 100 x"
proof -
  obtain x where x: "adx 14 (replicate 15 ex_minute_bar) = Inr x" by (simp add: adx_def Let_def)
  have "\<forall>b \<in> set (replicate 15 ex_minute_bar). finite_bar b" using ex_bar_finite by simp
  from indicators_bounded[OF this, of 14] x show ?thesis by blast
qed

section \<open>The day type\<close>







section \<open>The scan\<close>











end
