(* ===== verification/Spec2Isabelle.thy ===== *)
theory Spec2Isabelle
  imports Examples OrderState EngineExample LedgerLock Requests Promotion Watch ResearchSafety ValidationSafety LoadConfig ControlSafety MarketSafety
begin

text \<open>
  A verification library of \<open>signald\<close>, a daemon that turns research decisions into signals, sizes
  and gates orders under a house risk budget, and drives them to a broker.

  The program and the theories. Every definition is translated from the Python source and keeps its
  name where Isabelle allows it; the source is under \<open>src/signald\<close>.

  \<^item> Shared ground. \<open>Prelude\<close>: results \<open>exc + 'a\<close> with \<open>rbind\<close> and \<open>rmap\<close> (an exception of the source
    is an \<open>Inl\<close>), the type \<open>pyfloat\<close> of Python floats (a real, an infinity or NaN, with the source
    language's comparisons, \<open>min\<close>, \<open>max\<close> and division), string functions. \<open>PyTime\<close>: dates, naive and
    aware datetimes, ISO text and its parser. \<open>Json\<close>: JSON values and decimal text.
    \<open>Interfaces\<close>: the contracts (locales) that several components rely on, each interpreted on the
    model's own definitions in the theory that provides them.
  \<^item> Settings: \<open>Config\<close> (\<open>config.py\<close>, the mandate record of \<open>mandate.py\<close>), \<open>LoadConfig\<close> (the \<open>.env\<close> file,
    the environment and overrides to the values of the fields).
  \<^item> Order path: \<open>Prices\<close> (\<open>order/prices.py\<close>, tick grid), \<open>Policy\<close> (\<open>order/policy.py\<close>, plan and
    children), \<open>Guard\<close> (\<open>order/guard.py\<close>, twelve pre-trade checks), \<open>Stops\<close> and \<open>Flatten\<close>
    (\<open>order/stops.py\<close>, \<open>order/flatten.py\<close>, exits), \<open>OrderState\<close> (\<open>order/state.py\<close>, the order state machine
    over broker events), \<open>OrderManager\<close> (\<open>order/manager.py\<close>, submission with a write-ahead pending
    file; the broker is an arbitrary function of the calls so far), \<open>Halts\<close> (\<open>order/halts.py\<close>).
  \<^item> Risk: \<open>RiskState\<close> (\<open>risk/state.py\<close>), \<open>Ladder\<close>, \<open>VolTarget\<close>, \<open>Tail\<close>, \<open>Sizing\<close> (\<open>risk/ladder.py\<close>,
    \<open>voltarget.py\<close>, \<open>tail.py\<close>, \<open>sizing.py\<close>), \<open>Gate\<close> (\<open>risk/gate.py\<close>, the sixteen checks, their precedence
    and the verdict), \<open>Sleeves\<close> (\<open>sleeves/\<close>), \<open>Reconcile\<close> (\<open>reconcile.py\<close>).
  \<^item> Composition: \<open>Engine\<close> (\<open>engine.py\<close>) is one intraday session over all of the above, with the world
    (trace of broker calls, pending file), the day's trades and the audit rows as explicit state;
    \<open>EngineExample\<close> and \<open>Examples\<close> hold concrete inputs.
  \<^item> Market: \<open>Calendar\<close> (\<open>marketdata/calendar.py\<close>, \<open>marketdata/clock.py\<close>), \<open>MarketData\<close>
    (\<open>marketdata/service.py\<close>, quotes and bars with freshness and quarantine), \<open>DayType\<close>
    (\<open>marketdata/daytype.py\<close>, indicators and classification), \<open>Scan\<close> (the scan of \<open>engine.py\<close>, from the
    universe to candidates) and \<open>MarketSafety\<close> (their properties).
  \<^item> Validation: \<open>Stats\<close> (\<open>validation/stats.py\<close>), \<open>Lineage\<close> (\<open>lineage.py\<close>, trial registry, scorecards, review
    and allocation), \<open>Harness\<close> (\<open>validation/harness.py\<close>, the replay through the live gate and sizer) and
    \<open>ValidationSafety\<close> (their properties).
  \<^item> Files: \<open>Stores\<close> and \<open>Ledger\<close> (\<open>stores.py\<close>: journal, feeds, hash-chained audit ledger), \<open>LedgerLock\<close>
    (the ledger's lock file as a step relation of any number of processes).
  \<^item> Research path: \<open>JsonText\<close> (Python's \<open>str\<close>, \<open>float\<close>, \<open>int\<close>, \<open>x or d\<close> on JSON values), \<open>Schema\<close>
    (\<open>schema.py\<close>, the decision parsed and pinned to its hash, the signal contract), \<open>Contracts\<close>
    (\<open>contracts.py\<close>, the envelope at the boundary and dead letters), \<open>MandateFile\<close> (\<open>mandate.py\<close>, the
    signed file), \<open>Inbox\<close> (\<open>inbox.py\<close>, the dedupe table), \<open>SignalGates\<close> (\<open>gates.py\<close>, the house gate at
    the signal stage), \<open>KillSwitch\<close> (\<open>kill_switch.py\<close>, \<open>watchdog.py\<close>, \<open>daemon.py\<close>), \<open>Processor\<close>
    (\<open>processor.py\<close>, one artifact from the boundary to a verdict, with the exceptions that escape),
    \<open>ProcessorRuns\<close> (what a call leaves behind) and \<open>ResearchSafety\<close> (its properties).
  \<^item> Surfaces: \<open>Signing\<close> (\<open>api/signing.py\<close>), \<open>ControlApi\<close> (\<open>api/server.py\<close>, one signed request from route to
    answer), \<open>McpTools\<close> and \<open>Mcp\<close> (\<open>mcp/tools.py\<close>, \<open>mcp/server.py\<close>: the tool server, its proposals and
    single-use approvals, in memory and in its files), \<open>ControlHost\<close> (\<open>control.py\<close>, which wires both),
    \<open>Cli\<close> (\<open>cli.py\<close>, the commands that change or check state), \<open>Outbound\<close> (\<open>alpaca_ref.py\<close>, \<open>notifier.py\<close>) and
    \<open>ControlSafety\<close> (their properties); \<open>Promotion\<close> (\<open>promotion.py\<close>), \<open>Watch\<close> (\<open>watch.py\<close>, the poll loop).

  What is shown. This theory and \<open>ResearchSafety\<close>, \<open>ControlSafety\<close>, \<open>MarketSafety\<close> and
  \<open>ValidationSafety\<close> state the properties C1 to C40 of the components and of their composition, numbered
  by importance; each is followed, where it has a hypothesis, by an instance on concrete inputs. The
  lemmas of the other theories carry them: what every branch of an operation does, the invariants of
  the stateful components and that each operation preserves them, the refinement of the journal by
  two lists, the equivalence of the calendar's loop with a filter, termination of the lock loop.
  Lemmas named in the manifest's findings show where the code departs from its documentation.

  Idealisations. Floats are exact reals beside the infinities and NaN: rounding of single operations
  is not modelled, comparisons with NaN are. Python's integers are \<open>int\<close>. Free text that no decision
  reads (rationales, details of failures, log lines) is left out; a JSON object is an association
  list. Text is a list of bytes, and \<open>upper\<close>, \<open>lower\<close> and \<open>strip\<close> are those of ASCII.

  Bounds. Loops are structural recursions on what they consume; the broker's retry loop runs on its
  remaining attempts, the search for the next close on the source's 400 days (enough from anywhere in
  the shipped years, C38), the lock loop is a \<open>partial_function\<close> shown to return (C40).

  Parameters. Code outside the repository is an argument: the broker (\<open>OrderManager\<close>), the data feed
  (\<open>MarketData\<close>), the setup rules \<open>signald.signals\<close> that the engine's scan imports (arguments of \<open>scan\<close>; its
  candidates are the argument of \<open>engine_run\<close>) and its impact estimate (\<open>Harness\<close>), the gate and sizer a
  caller hands to the replay, the callbacks a host hands to the API and the tool server, the hash functions
  (\<open>Ledger\<close>, \<open>Signing\<close>, \<open>JsonText\<close>), the normal distribution and the random generator (\<open>Tail\<close>, \<open>Stats\<close>), the
  parser and printer of JSON text (\<open>ControlApi\<close>, \<open>Mcp\<close>), the test of an IP address for loopback, the host's
  clock, process ids and time zone.

  Not modelled. Sockets and HTTP framing of \<open>api/server.py\<close> and \<open>mcp/server.py\<close>, the broker's SDK behind
  \<open>alpaca_ref.py\<close>, the cards of \<open>notifier.py\<close>, the markdown files of \<open>lineage.py\<close>, argument parsing and printing
  of \<open>cli.py\<close> with its \<open>run\<close>, \<open>status\<close>, \<open>simulate\<close> and \<open>scorecard\<close> commands, and sample data (\<open>samples.py\<close>):
  input and output around the modelled decisions.
\<close>

section \<open>Prices and the order policy\<close>

text \<open>Rounding any finite price succeeds, lands on the tick grid, is a fixed point of rounding
  and moves the price by at most half a tick; and rounding never swaps two prices.\<close>

theorem round_price_grid:
  "\<exists>y. round_price (Fin x) None = Inr (Fin y) \<and> price_is_on_grid (Fin y) None
     \<and> round_price (Fin y) None = Inr (Fin y)
     \<and> \<bar>Fin y - Fin x\<bar> * Fin 2 \<le> tick_for (Fin x)
     \<and> (\<exists>z. round_price (Fin (max x x')) None = Inr (Fin z) \<and> y \<le> z)"
  using pg.near [of x] pg.rnd_mono [of x "max x x'"] by simp

text \<open>C31: With a usable price, side and style the planner always produces a plan: the children are
  limit orders of at least one share, at most five of them, numbered in order, and together they
  are the whole quantity.\<close>

theorem plan_partitions_quantity:
  assumes "1 \<le> qty" "m_last m = Some (Fin p)" "0 < p"
    "str_lower (strip (r_side rq)) \<in> {''buy'', ''sell''}" "style \<in> set EXECUTION_STYLES"
    "cfg_cost_liquid_bps cfg = Fin c" "cfg_cost_lowfloat_bps cfg = Fin u"
  shows "\<exists>plan. build_plan rq qty m cfg style urgent = Inr plan
    \<and> sum_list (map co_qty (op_orders plan)) = qty
    \<and> length (op_orders plan) \<le> 5
    \<and> map co_seq (op_orders plan) = [0..<length (op_orders plan)]
    \<and> (\<forall>co \<in> set (op_orders plan). 1 \<le> co_qty co
         \<and> co_order_type co \<in> {''limit'', ''marketable_limit''}
         \<and> (\<exists>l. co_limit_price co = Fin l))"
proof -
  obtain plan l d where plan: "build_plan rq qty m cfg style urgent = Inr plan"
    and orders: "op_orders plan = map (make_child (if style = ''resting_limit'' then ''limit''
        else ''marketable_limit'') (Fin l) style)
        (List.enumerate 0 (child_sizes qty (slice_count qty (m_adv_shares m))))"
    using build_plan_total [OF assms] by metis
  from plan child_orders [OF assms(1) orders] show ?thesis by (intro exI [of _ plan]) auto
qed

lemma plan_partitions_quantity_example:
  "\<exists>plan. build_plan ex_request 11 ex_market default_config ''marketable_limit'' True = Inr plan
     \<and> sum_list (map co_qty (op_orders plan)) = 11"
  using plan_partitions_quantity [of 11 ex_market 100 ex_request "''marketable_limit''" default_config
      12 30 True]
  by (auto simp: ex_defs default_config_def EXECUTION_STYLES_def)

text \<open>A marketable child strictly crosses the touch (above the last price for a buy, below it for
  a sell) and a resting child never does; every limit is on the tick grid, and the deviation it
  was computed from is at least five basis points.\<close>

theorem plan_limit_side:
  assumes "1 \<le> qty" "m_last m = Some (Fin p)" "0 < p"
    "side = str_lower (strip (r_side rq))" "side \<in> {''buy'', ''sell''}"
    "style \<in> set EXECUTION_STYLES"
    "cfg_cost_liquid_bps cfg = Fin c" "cfg_cost_lowfloat_bps cfg = Fin u"
  shows "\<exists>plan. build_plan rq qty m cfg style urgent = Inr plan \<and> Fin 5 \<le> op_deviation_bps plan
    \<and> (\<forall>co \<in> set (op_orders plan). \<exists>l. co_limit_price co = Fin l \<and> price_is_on_grid (Fin l) None
         \<and> (if style = ''marketable_limit'' then (if side = ''buy'' then p < l else l < p)
            else (if side = ''buy'' then l \<le> p else p \<le> l)))"
proof -
  obtain plan l d where plan: "build_plan rq qty m cfg style urgent = Inr plan"
    and orders: "op_orders plan = map (make_child (if style = ''resting_limit'' then ''limit''
        else ''marketable_limit'') (Fin l) style)
        (List.enumerate 0 (child_sizes qty (slice_count qty (m_adv_shares m))))"
    and d: "5 \<le> d" "op_deviation_bps plan = Fin d"
    and lim: "limit_price (Fin p) side (Fin d) style = Inr (Fin l)"
    using build_plan_total [OF assms(1-3) assms(5) [unfolded assms(4)] assms(6-8)] assms(4) by metis
  have "style = ''marketable_limit'' \<or> style = ''resting_limit''"
    using assms(6) by (simp add: EXECUTION_STYLES_def)
  then have side: "grid_round l = l \<and>
      (if style = ''marketable_limit'' then (if side = ''buy'' then p < l else l < p)
       else (if side = ''buy'' then l \<le> p else p \<le> l))"
    using assms(3,5) d lim limit_price_marketable_buy [of p d] limit_price_marketable_sell [of p d]
      limit_price_resting_buy limit_price_resting_sell by fastforce
  from plan d side child_orders(4) [OF assms(1) orders] show ?thesis
    by (intro exI [of _ plan]) auto
qed

lemma plan_limit_side_example:
  "\<exists>plan. build_plan ex_request 11 ex_market default_config ''marketable_limit'' False = Inr plan
     \<and> (\<forall>co \<in> set (op_orders plan). \<exists>l. co_limit_price co = Fin l \<and> 100 < l)"
  using plan_limit_side [of 11 ex_market 100 "''buy''" ex_request "''marketable_limit''" default_config
      12 30 False]
  by (force simp: ex_defs default_config_def EXECUTION_STYLES_def)

section \<open>The pre-trade guard\<close>



text \<open>The guard reports every failing check with its reason, in the order of the table, denies
  exactly when there is one, and names as binding the first check of the table that fails.\<close>

theorem guard_reports_all:
  "map fst (gr_reasons (guard i c)) = filter (\<lambda>n. guard_check n i c \<noteq> None) GUARD_CHECKS
   \<and> set (gr_reasons (guard i c)) = {(n, f). guard_check n i c = Some f}
   \<and> gr_ok (guard i c) = (\<forall>n. guard_check n i c = None)
   \<and> gr_binding (guard i c) = List.find (\<lambda>n. guard_check n i c \<noteq> None) GUARD_CHECKS"
proof -
  have names: "map fst (gr_reasons (guard i c)) = filter (\<lambda>n. guard_check n i c \<noteq> None) GUARD_CHECKS"
    using gt.report_names [of "(i, c)"] by simp
  have "set (gr_reasons (guard i c)) = {(n, f). guard_check n i c = Some f}"
    using gt.report_set [of "(i, c)"] by simp
  moreover have "gr_binding (guard i c) = List.find (\<lambda>n. guard_check n i c \<noteq> None) GUARD_CHECKS"
    unfolding find_filter names [symmetric] guard_binding_eq by (simp split: list.splits)
  ultimately show ?thesis using names guard_ok_iff by blast
qed

section \<open>Stops and flattening\<close>

text \<open>For a long position with a usable mark, a plan whose ATR is more than a tick and a half
  puts the trigger strictly below the mark, by at least the ATR less a tick and a half, and the
  limit strictly below the trigger.\<close>

theorem plan_stop_long_below_mark:
  assumes "plan_stop p (Fin a) side dev cfg m = Inr sp" "str_lower (strip side) = ''long''"
    "3 / 200 < a" "cfg_stop_atr_mult cfg = Fin k" "cfg_stop_mae_pctl cfg = Fin k'"
  shows "\<exists>ref t l. p_mark p = Fin ref \<and> sp_trigger_price sp = Fin t \<and> sp_limit_price sp = Fin l
    \<and> t \<le> ref - a + 3 / 200 \<and> l < t \<and> t < ref"
proof -
  from assms(1) obtain ref dist raw c t v where
    facts: "p_mark p = Fin ref" "raw = ref - dist" "sp_trigger_price sp = Fin t" "sp_limit_price sp = Fin v"
      "v < t" "t = grid_round c"
    and d: "stop_distance (Fin a) (cfg_stop_mae_pctl cfg * Fin a) cfg = Inr (Fin dist)"
    and c: "cluster_clearance (Fin raw) m = Inr (Fin c)"
    using assms(2) by (elim plan_stop_InrD) simp
  have "a \<le> dist" using stop_distance_ge_atr [OF d assms(4)] by auto
  then have "t \<le> ref - a + 3 / 200"
    using trigger_shift [OF c] facts(2,6) unfolding abs_le_iff by linarith
  with facts assms(3) show ?thesis by auto
qed

lemma plan_stop_long_below_mark_example:
  "\<exists>sp t l. plan_stop ex_position (Fin 2) ''long'' (Fin 6) default_config ex_market = Inr sp
     \<and> sp_trigger_price sp = Fin t \<and> sp_limit_price sp = Fin l \<and> l < t \<and> t < 100"
proof -
  have "\<not> isl (plan_stop ex_position (Fin 2) ''long'' (Fin 6) default_config ex_market)" by code_simp
  then obtain sp where sp: "plan_stop ex_position (Fin 2) ''long'' (Fin 6) default_config ex_market = Inr sp"
    by (cases "plan_stop ex_position (Fin 2) ''long'' (Fin 6) default_config ex_market") auto
  have "str_lower (strip ''long'') = ''long''" by code_simp
  from plan_stop_long_below_mark [OF sp this, of "175 / 100" "80 / 100"] sp show ?thesis
    by (auto simp: p_mark_def ex_position_def cfg_stops)
qed

text \<open>The protective legs are exactly one per open, uncovered position with a usable stop level,
  each a day stop-limit on the closing side, with both prices on the grid and the limit on the
  far side of the trigger.\<close>

theorem protective_orders_cover:
  assumes "protective_orders ps covered cfg stamp = Inr legs"
  shows "map oi_symbol legs = map p_symbol (filter (needs_leg covered) (sort_key p_symbol ps))
    \<and> (\<forall>i \<in> set legs. \<exists>p \<in> set ps. oi_symbol i = p_symbol p \<and> oi_order_type i = ''stop_limit''
         \<and> oi_tif i = ''day'' \<and> oi_side i = (if 0 < p_qty p then ''sell'' else ''buy'')
         \<and> int_trunc \<bar>p_qty p\<bar> = Inr (oi_qty i)
         \<and> (\<exists>l s. oi_limit_price i = Some (Fin l) \<and> oi_stop_price i = Some (Fin s)
              \<and> price_is_on_grid (Fin l) None \<and> price_is_on_grid (Fin s) None
              \<and> (if 0 < p_qty p then l < s else s < l)))"
proof -
  have loop: "protective_loop covered (deviation_bps None cfg) stamp (sort_key p_symbol ps) = Inr legs"
    using assms by (simp add: protective_orders_def)
  have leg: "\<exists>p \<in> set ps. protective_leg p (deviation_bps None cfg) stamp = Inr (Some i)"
    if "i \<in> set legs" for i
    using protective_loop_legs [OF loop that] by simp
  show ?thesis
  proof (intro conjI ballI)
    fix i assume "i \<in> set legs"
    from leg [OF this] obtain p where p: "p \<in> set ps"
        "protective_leg p (deviation_bps None cfg) stamp = Inr (Some i)" by blast
    from protective_leg_SomeD [OF p(2)] p(1)
    show "\<exists>p \<in> set ps. oi_symbol i = p_symbol p \<and> oi_order_type i = ''stop_limit''
         \<and> oi_tif i = ''day'' \<and> oi_side i = (if 0 < p_qty p then ''sell'' else ''buy'')
         \<and> int_trunc \<bar>p_qty p\<bar> = Inr (oi_qty i)
         \<and> (\<exists>l s. oi_limit_price i = Some (Fin l) \<and> oi_stop_price i = Some (Fin s)
              \<and> price_is_on_grid (Fin l) None \<and> price_is_on_grid (Fin s) None
              \<and> (if 0 < p_qty p then l < s else s < l))"
      unfolding price_on_grid_Fin by blast
  qed (rule protective_loop_symbols [OF loop])
qed

lemma protective_orders_cover_example:
  "\<exists>legs. protective_orders [ex_position] [] default_config ''2026-07-30'' = Inr legs
     \<and> map oi_symbol legs = [''ABC'']"
proof -
  have "\<not> isl (protective_orders [ex_position] [] default_config ''2026-07-30'')" by code_simp
  then obtain legs where l: "protective_orders [ex_position] [] default_config ''2026-07-30'' = Inr legs"
    by (cases "protective_orders [ex_position] [] default_config ''2026-07-30''") auto
  from protective_orders_cover [OF l] l show ?thesis
    by (auto simp: needs_leg_def ex_position_def truthy_def)
qed

text \<open>The flatten plan has exactly one leg for each position above the dust, on the closing side
  and for all its whole shares, and names for manual handling exactly those without a usable
  price; a book it declares needless to flatten holds no position above the dust.\<close>

theorem flatten_plan_complete:
  assumes "flatten_plan eastern ps now stamp cfg elig = Inr plan"
  shows "map oi_symbol (fp_orders plan) = map p_symbol (filter is_residual (sort_key p_symbol ps))
    \<and> set (fp_manual plan) = p_symbol ` {p \<in> set ps. is_residual p \<and> \<not> usable_price (p_last p)}
    \<and> list_all2 (\<lambda>i p. oi_side i = (if 0 < p_qty p then ''sell'' else ''buy'')
          \<and> (\<exists>v. p_qty p = Fin v \<and> oi_qty i = \<lfloor>\<bar>v\<bar>\<rfloor>)
          \<and> (if usable_price (p_last p)
             then oi_order_type i = ''marketable_limit'' \<and> (\<exists>l. oi_limit_price i = Some (Fin l))
             else oi_order_type i = NEEDS_MANUAL \<and> oi_limit_price i = None))
        (fp_orders plan) (filter is_residual (sort_key p_symbol ps))
    \<and> (fp_orders plan = [] \<longleftrightarrow> fst (is_flat ps))"
proof -
  note plan = flatten_plan_InrD [OF assms] flatten_plan_legs [OF assms]
  have "fp_orders plan = [] \<longleftrightarrow> filter is_residual (sort_key p_symbol ps) = []"
    using plan(1) by (metis map_is_Nil_conv)
  also have "\<dots> \<longleftrightarrow> fst (is_flat ps)"
    by (simp add: is_flat_iff filter_empty_conv)
  finally show ?thesis using plan by blast
qed

lemma flatten_plan_complete_example:
  "\<exists>plan. flatten_plan (\<lambda>t. t) [ex_position] \<lparr>wall_us = 0, utc_off = None\<rparr> ''t'' default_config True
     = Inr plan \<and> map oi_symbol (fp_orders plan) = [''ABC'']"
proof -
  let ?run = "flatten_plan (\<lambda>t. t) [ex_position] \<lparr>wall_us = 0, utc_off = None\<rparr> ''t'' default_config True"
  have "\<not> isl ?run" by code_simp
  then obtain plan where plan: "?run = Inr plan" by (cases ?run) auto
  from flatten_plan_complete [OF plan] plan show ?thesis
    by (auto simp: is_residual_def DUST_SHARES_def ex_position_def)
qed

text \<open>The book is declared flat only on a read that came back and shows no position above the
  dust, within the allowed attempts, after reads that all came back; one unavailable read before
  that ends the verification without that verdict.\<close>

theorem verify_flat_sound:
  assumes "verify_flat read attempts = Inr VFlat"
  shows "\<exists>j. int j < attempts \<and> (\<exists>ps. read j = Some ps \<and> (\<forall>p \<in> set ps. \<not> is_residual p))
    \<and> (\<forall>i < j. \<exists>ps. read i = Some ps \<and> (\<exists>p \<in> set ps. is_residual p))"
proof -
  have "verify_loop read 0 (nat attempts) (VResidual []) = VFlat" and n: "1 \<le> attempts"
    using assms by (auto simp: verify_flat_def split: if_splits)
  from verify_loop_VFlat [OF this(1)] obtain j where "j < nat attempts"
      "\<exists>ps. read j = Some ps \<and> fst (is_flat ps)"
      "\<forall>i < j. \<exists>ps. read i = Some ps \<and> \<not> fst (is_flat ps)" by auto
  with n show ?thesis by (intro exI [of _ j]) (auto simp: is_flat_iff)
qed

lemma verify_flat_sound_example:
  "verify_flat (\<lambda>k. Some (if k = 0 then [ex_position] else [])) 3 = Inr VFlat
   \<and> (\<exists>j. int j < 3 \<and> (\<forall>p \<in> set (if j = 0 then [ex_position] else []). \<not> is_residual p))"
proof -
  have run: "verify_flat (\<lambda>k. Some (if k = 0 then [ex_position] else [])) 3 = Inr VFlat" by code_simp
  from verify_flat_sound [OF this] run show ?thesis by auto
qed

section \<open>Orders at the broker\<close>

text \<open>C10: Whatever the broker streams, in whatever order and however often, an order's filled
  quantity never goes down, its status only moves along the legal transitions, and a terminal
  status is never left.\<close>

theorem order_stream_monotone:
  assumes "manager_inv m" "lookup_state m cid = Some s"
  shows "\<exists>t. lookup_state (foldl feed m events) cid = Some t
    \<and> os_filled_qty s \<le> os_filled_qty t
    \<and> (os_status t = os_status s \<or> os_status t \<in> set (LEGAL_TRANSITIONS (os_status s)))
    \<and> (is_terminal s \<longrightarrow> os_status t = os_status s)"
proof -
  have below: "order_below (Some s) (lookup_state (foldl feed m events) cid)"
    using osm.run_below [OF assms(1), of cid events] assms(2) by simp
  with order_below_terminal [OF below] show ?thesis
    by (auto simp: order_below_def split: option.splits)
qed

definition ex_fill_events :: "(pytext \<times> json) list" where
  "ex_fill_events =
     map (\<lambda>(ev, qty, filled). (Txt ''t'',
        JObj [(''event'', JStr ev), (''qty'', JStr qty), (''price'', JStr ''100.5''),
              (''order'', JObj [(''client_order_id'', JStr ''c1''), (''symbol'', JStr ''ABC''),
                                (''side'', JStr ''buy''), (''qty'', JStr ''10''),
                                (''filled_qty'', JStr filled)])]))
       [(''partial_fill'', ''4'', ''4''), (''fill'', ''6'', ''10''), (''canceled'', ''0'', ''10'')]"

definition ex_managed :: Manager where
  "ex_managed = foldl feed (empty_manager None) (take 1 ex_fill_events)"

lemma order_stream_monotone_example:
  "\<exists>s t. lookup_state ex_managed ''c1'' = Some s
     \<and> lookup_state (foldl feed ex_managed (drop 1 ex_fill_events)) ''c1'' = Some t
     \<and> os_filled_qty s = 4 \<and> 4 \<le> os_filled_qty t"
proof -
  have inv: "manager_inv ex_managed"
    unfolding ex_managed_def by (rule osm.run_inv [OF manager_inv_empty])
  have "map_option os_filled_qty (lookup_state ex_managed ''c1'') = Some 4" by code_simp
  then obtain s where s: "lookup_state ex_managed ''c1'' = Some s" "os_filled_qty s = 4" by auto
  from order_stream_monotone [OF inv s(1), of "drop 1 ex_fill_events"] s show ?thesis by auto
qed

text \<open>C37: From an empty manager, after any stream of events, every tracked order carries a known
  status and a filled quantity between zero and its quantity, and the recorded executions of an
  order are positive in total at most that filled quantity; an order that is not tracked has no
  executions.\<close>

theorem order_book_consistent:
  "(case lookup_state (foldl feed (empty_manager audit) events) cid of
      None \<Rightarrow> fill_total (foldl feed (empty_manager audit) events) cid = 0
    | Some s \<Rightarrow> os_client_order_id s = cid \<and> os_status s \<in> set (map snd STATES)
        \<and> 0 \<le> os_filled_qty s \<and> os_filled_qty s \<le> os_qty s
        \<and> 0 \<le> fill_total (foldl feed (empty_manager audit) events) cid
        \<and> fill_total (foldl feed (empty_manager audit) events) cid \<le> os_filled_qty s)"
  using osm.run_inv [OF manager_inv_empty] unfolding manager_inv_def by blast

text \<open>C6: Own before write, and no blind resend. Every submission of an order directly follows its
  own pending row in the file; between two submissions a query by id came back with
  \<open>not_found\<close>; the number of submissions is at least one and at most the number of attempts.\<close>

theorem retry_owns_and_queries:
  assumes "submit_with_retry sm i attempts w = Inr (w', r)"
  shows "\<exists>new. w_trace w' = w_trace w @ new
    \<and> rows_of (w_file w') = rows_of (w_file w) @ appended new
    \<and> 1 \<le> length (filter is_submit new) \<and> int (length (filter is_submit new)) \<le> attempts
    \<and> (\<forall>xs p a ys. new = xs @ Called MSubmit p a # ys \<longrightarrow>
         (\<exists>zs row. xs = zs @ [Appended row] \<and> is_pending_row row
            \<and> jget row ''client_order_id'' = jget p ''client_order_id''))
    \<and> (\<forall>xs s ys s' zs. new = xs @ s # ys @ s' # zs \<and> is_submit s \<and> is_submit s' \<longrightarrow>
         (\<exists>q \<in> set ys. says_not_found q))"
proof -
  from submit_with_retry_sound [OF assms] obtain new where new: "extends w new w'"
    "sound_run i False new True r" "1 \<le> length (filter is_submit new)"
    "int (length (filter is_submit new)) \<le> attempts" by blast
  have own: "\<exists>zs row. xs = zs @ [Appended row] \<and> is_pending_row row
      \<and> jget row ''client_order_id'' = jget p ''client_order_id''"
    if "new = xs @ Called MSubmit p a # ys" for xs p a ys
  proof -
    from new(2) that have "owned None (xs @ Called MSubmit p a # ys)" by (simp add: sound_run_def)
    note ownedD [OF this]
    from row_owns_submitD [OF this] show ?thesis
      by (metis append_butlast_last_id option.distinct(1) option.inject)
  qed
  have "resend_ok True new" using new(2) by (simp add: sound_run_def)
  then have gap: "\<exists>q \<in> set ys. says_not_found q"
    if "new = xs @ s # ys @ s' # zs \<and> is_submit s \<and> is_submit s'" for xs s ys s' zs
    using that resend_between by blast
  have "w_trace w' = w_trace w @ new \<and> rows_of (w_file w') = rows_of (w_file w) @ appended new"
    using new(1) by (simp add: extends_def)
  with new(3,4) own gap show ?thesis by (intro exI [of _ new]) blast
qed

definition ex_retry :: "(nat World \<times> SubmitResult) res" where
  \<comment> \<open>a timeout, a query that says \<open>not_found\<close>, and a submission that is accepted\<close>
  "ex_retry =
     submit_with_retry
       (ex_seam (\<lambda>n. if n = 0 then TransportTimeout
                      else if n = 1 then Body (JObj [(''status'', JStr ''not_found'')])
                      else Body (JObj [(''status'', JStr ''accepted'')])))
       ex_intent 3 ex_world"

lemma ex_retry_runs:
  "\<exists>w r. ex_retry = Inr (w, r) \<and> sr_status r = ''submitted'' \<and> sr_retried r
     \<and> length (filter is_submit (w_trace w)) = 2"
proof -
  have "(case ex_retry of Inl _ \<Rightarrow> False
     | Inr (w, r) \<Rightarrow> sr_status r = ''submitted'' \<and> sr_retried r
         \<and> length (filter is_submit (w_trace w)) = 2)" by code_simp
  then show ?thesis by (auto split: sum.splits)
qed

lemma retry_owns_and_queries_example:
  "\<exists>w r new. ex_retry = Inr (w, r) \<and> w_trace w = new \<and> length (filter is_submit new) = 2
     \<and> (\<forall>xs s ys s' zs. new = xs @ s # ys @ s' # zs \<and> is_submit s \<and> is_submit s' \<longrightarrow>
          (\<exists>q \<in> set ys. says_not_found q))"
proof -
  obtain w r where run: "ex_retry = Inr (w, r)" "length (filter is_submit (w_trace w)) = 2"
    using ex_retry_runs by blast
  from retry_owns_and_queries [OF run(1) [unfolded ex_retry_def]] run show ?thesis
    by (auto simp: ex_world_def)
qed

text \<open>A result \<open>submitted\<close> rests on an answer of the broker that shows the order (a working
  status, or a query that found it), and the recovery sweep lists the order's id after the call
  exactly when the result is not a rejection: an order whose fate is unknown stays pending.\<close>

theorem retry_result_and_pending:
  assumes "submit_with_retry sm i attempts w = Inr (w', r)" "oi_client_order_id i \<noteq> []"
  shows "((\<exists>row \<in> set (swept w'). jget row ''client_order_id'' = JStr (oi_client_order_id i))
        \<longleftrightarrow> sr_status r \<noteq> ''rejected'')
    \<and> (sr_status r = ''submitted'' \<longrightarrow>
         (\<exists>e \<in> set (drop (length (w_trace w)) (w_trace w')). accepts e))
    \<and> (mappings_only (w_file w) \<longrightarrow> pending w' = Inr (swept w'))"
proof -
  from submit_with_retry_sound [OF assms(1), of False] obtain new where
    "extends w new w'" "sr_status r = ''submitted'' \<longrightarrow> (\<exists>e \<in> set new. accepts e)" by blast
  with submit_with_retry_pending [OF assms] extends_pending show ?thesis by (auto simp: extends_def)
qed

lemma retry_result_and_pending_example:
  "\<exists>w r. ex_retry = Inr (w, r)
     \<and> (\<exists>row \<in> set (swept w). jget row ''client_order_id'' = JStr ''swi-i1-1'')"
proof -
  obtain w r where run: "ex_retry = Inr (w, r)" "sr_status r = ''submitted''"
    using ex_retry_runs by blast
  have "oi_client_order_id ex_intent = ''swi-i1-1''" by (simp add: ex_intent_def)
  with retry_result_and_pending [OF run(1) [unfolded ex_retry_def]] run show ?thesis by auto
qed

text \<open>C33: With a broker that never answers with a mapping the order is submitted once, never
  resent, stays pending in the recovery sweep (which the file gives unless it held a JSON line that
  is no mapping), and the result says \<open>timeout\<close> or \<open>unavailable\<close>.\<close>

theorem dead_broker_never_resends:
  assumes "answers_nothing sm" "1 \<le> attempts" "oi_client_order_id i \<noteq> []"
  shows "\<exists>w' r. submit_with_retry sm i attempts w = Inr (w', r)
    \<and> sr_status r \<in> {''unavailable'', ''timeout''}
    \<and> length (filter is_submit (drop (length (w_trace w)) (w_trace w'))) = 1
    \<and> (\<exists>row \<in> set (swept w'). jget row ''client_order_id'' = JStr (oi_client_order_id i))
    \<and> (mappings_only (w_file w) \<longrightarrow> pending w' = Inr (swept w'))"
proof -
  obtain w' r where run: "submit_with_retry sm i attempts w = Inr (w', r)"
    using assms(2) by (cases "submit_with_retry sm i attempts w") (auto simp: submit_with_retry_def)
  note one = dead_broker_run [OF assms(1) run]
  from submit_with_retry_sound [OF run, of False] obtain new where "extends w new w'" by blast
  note extends_pending [OF this]
  with submit_with_retry_pending [OF run assms(3)] one run show ?thesis by auto
qed

lemma dead_broker_never_resends_example:
  "\<exists>w r. submit_with_retry (ex_seam (\<lambda>n. TransportTimeout)) ex_intent 3 ex_world = Inr (w, r)
     \<and> sr_status r \<in> {''unavailable'', ''timeout''}"
proof -
  have "answers_nothing (ex_seam (\<lambda>n. TransportTimeout))"
    by (simp add: answers_nothing_def ex_seam_def)
  from dead_broker_never_resends [OF this, of 3 ex_intent ex_world] show ?thesis
    by (auto simp: ex_intent_def)
qed

section \<open>The house gate\<close>

text \<open>C32: The house gate always decides. It blocks exactly when some check blocks, a check that
  raises included; it allows exactly when no check fails; its failures are those of the checks, and
  it binds to the first blocking check of the precedence, or else to the first failing one.\<close>

theorem gate_verdict_law:
  "\<exists>d. evaluate c = Inr d
     \<and> (gd_verdict d = BLOCK \<longleftrightarrow> (\<exists>n. blocked_by c n))
     \<and> (gd_verdict d = ALLOW \<longleftrightarrow> (\<forall>n. gate_check c n = None))
     \<and> (\<forall>n check e. CHECKS n = Some check \<and> check c = Inl e \<longrightarrow> gd_verdict d = BLOCK)
     \<and> set (gd_failures d) = {f. \<exists>n. gate_check c n = Some f}
     \<and> gd_binding_gate d =
        (case (if gd_verdict d = BLOCK then List.find (blocked_by c) GATE_PRECEDENCE
               else List.find (\<lambda>n. gate_check c n \<noteq> None) GATE_PRECEDENCE) of
           None \<Rightarrow> None | Some n \<Rightarrow> map_option f_check (gate_check c n))"
proof -
  obtain d where d: "evaluate c = Inr d" using evaluate_total by blast
  have "\<exists>n. gate_check c n \<noteq> None" if "set (a # xs) = {a. \<exists>n. reduced_by c n a}" for a xs
  proof -
    have "a \<in> {a. \<exists>n. reduced_by c n a}" using that by auto
    then show ?thesis by (auto simp: reduced_by_def)
  qed
  with d have verdict: "gd_verdict d = BLOCK \<longleftrightarrow> (\<exists>n. blocked_by c n)"
      "gd_verdict d = ALLOW \<longleftrightarrow> (\<forall>n. gate_check c n = None)"
    by (cases rule: evaluate_cases [of c]; fastforce simp: blocked_by_def)+
  have "blocked_by c n" if "CHECKS n = Some check" "check c = Inl e" for n check e
    using that by (simp add: blocked_by_def gate_check_def block_def)
  with verdict(1) have "\<forall>n check e. CHECKS n = Some check \<and> check c = Inl e \<longrightarrow> gd_verdict d = BLOCK"
    by blast
  moreover have "set (gd_failures d) = {f. \<exists>n. gate_check c n = Some f}"
    using failure_list_set [of _ c] unfolding conjunct1 [OF evaluate_binding [OF d]] by blast
  moreover note conjunct1 [OF conjunct2 [OF evaluate_binding [OF d]]]
  ultimately show ?thesis using d verdict by (intro exI [of _ d] conjI)
qed

lemma gate_verdict_law_example:
  "\<exists>d. evaluate ex_broken_gate = Inr d \<and> gd_verdict d = BLOCK"
proof -
  have "isl (gate_time ex_broken_gate)" by code_simp
  then have "\<exists>e. gate_time ex_broken_gate = Inl e" by (simp add: isl_def)
  moreover have "CHECKS NTime = Some gate_time" by simp
  ultimately show ?thesis using gate_verdict_law [of ex_broken_gate] by blast
qed

text \<open>C17: The risk a permitting decision leaves is positive and at most the requested one, and with
  it the order stays inside every limit that was evaluated: the exposure cap of the mandate, the
  sleeve ceiling, the single-name cap, the participation cap and the tail budget.\<close>

theorem gate_permitted_risk_fits:
  assumes "evaluate c = Inr d" "allowed d" "sized c r k" "ladder_positive c"
    "held_notional c = Fin h" "md_max_total_exposure_usd (gc_mandate c) = Fin cap"
    "gc_sleeve_ceiling_pct c = Fin ceil" "gc_sleeve_deployed_pct c = Fin dep" "b_equity (gc_book c) = Fin e"
    "name_exposure c = Fin ex" "single_name_cap_pct c = Fin pct"
    "m_adv_shares (gc_market c) = Some (Fin adv)" "cfg_max_adv_pct (gc_config c) = Fin part"
    "r_price (gc_request c) = Fin p" "es_value_pct (gc_es c) = Fin es"
    "cfg_es_budget_house_pct (gc_config c) = Fin bh" "cfg_es_budget_sleeve_pct (gc_config c) = Fin bs"
  shows "\<exists>x. permitted_risk c d = Fin x \<and> 0 < x \<and> x \<le> r
    \<and> h + x * k \<le> cap \<and> dep * e + x * k \<le> ceil * e \<and> ex + x * k \<le> pct * e
    \<and> x * k \<le> part * adv * \<bar>p\<bar> \<and> es + x \<le> min bh bs"
proof -
  have r: "r_requested_risk_pct (gc_request c) = Fin r" "0 < r" using assms(3) by (simp_all add: sized_def)
  note permits = evaluate_permits [OF assms(1,2) r assms(4)]
  then obtain x where x: "permitted_risk c d = Fin x" "0 < x" "x \<le> r"
    by (cases "permitted_risk c d") auto
  have nb: "\<not> blocked_by c n" and le: "\<forall>a. reduced_by c n a \<longrightarrow> Fin x \<le> a" for n
    using permits [of n] x(1) by auto
  show ?thesis
    using x fits_exposure [OF assms(3) nb x(3) le assms(5,6)]
      fits_sleeve [OF assms(3) nb x(3) le assms(7-9)]
      fits_single_name [OF assms(3) nb x(3) le assms(10,11,9)]
      fits_participation [OF assms(3) nb x(3) le assms(12-14)]
      fits_es_budget [OF assms(3) nb x(3) le assms(15-17)] by blast
qed

lemma gate_permitted_risk_fits_example:
  "\<exists>d x. evaluate (ex_gate (Fin (3 / 1000))) = Inr d \<and> gd_verdict d = REDUCE
     \<and> permitted_risk (ex_gate (Fin (3 / 1000))) d = Fin x \<and> x * 5000000 \<le> 10000"
proof -
  let ?c = "ex_gate (Fin (3 / 1000))"
  have "(case evaluate ?c of Inr d \<Rightarrow> gd_verdict d = REDUCE | _ \<Rightarrow> False)" by code_simp
  then obtain d where d: "evaluate ?c = Inr d" "gd_verdict d = REDUCE" by (auto split: sum.splits)
  have "sized ?c (3 / 1000) 5000000" by (simp add: sized_def ex_gate_def ex_request_def)
  moreover have "held_notional ?c = Fin 0" "name_exposure ?c = Fin 0" "single_name_cap_pct ?c = Fin (1 / 10)"
    by code_simp+
  moreover have "ladder_positive ?c" by (simp add: ladder_positive_def ex_gate_def ex_rung0_def)
  ultimately show ?thesis
    using gate_permitted_risk_fits [OF d(1), of "3 / 1000" 5000000 0 150000 "70 / 100" 0 100000 0 "1 / 10"
        2000000 "25 / 100" 100 "1 / 1000" "10 / 1000" "15 / 1000"] d
    by (fastforce simp: allowed_def ex_gate_defs ex_defs default_config_def)
qed



section \<open>Sizing and the risk engines\<close>



text \<open>The ladder decides exactly when its inputs are finite and its thresholds positive; it picks
  the highest rung whose threshold the equity path has crossed, so a path that is worse in every
  respect never gets a lower one; only rung 4 halts, every rung above 0 stops intraday entries,
  and the size multiplier falls from 1 to a half to 0.\<close>

theorem ladder_worst_rung:
  "(\<exists>s. rung_for p t = Inr s) = path_ok p t
   \<and> (\<forall>s. rung_for p t = Inr s \<longrightarrow>
        triggered p t (l_rung s) \<and> (\<forall>k. triggered p t k \<longrightarrow> k \<le> l_rung s)
        \<and> (l_halt s \<longleftrightarrow> l_rung s = 4) \<and> (l_allow_new_intraday s \<longleftrightarrow> l_rung s = 0)
        \<and> l_size_multiplier s = Fin (if l_rung s < 2 then 1 else if l_rung s < 4 then 1 / 2 else 0)
        \<and> (\<forall>q s'. rung_for q t = Inr s' \<and> day_pnl_pct q \<le> day_pnl_pct p
             \<and> five_day_pct q \<le> five_day_pct p \<and> drawdown_pct q \<le> drawdown_pct p
             \<longrightarrow> l_rung s \<le> l_rung s'))"
proof (intro conjI allI impI)
  show "(\<exists>s. rung_for p t = Inr s) = path_ok p t"
    using rung_state_total by (auto simp: rung_for_eq)
next
  fix s assume s: "rung_for p t = Inr s"
  note w = rung_for_worst [OF s]
  show "triggered p t (l_rung s)" "triggered p t k \<Longrightarrow> k \<le> l_rung s" for k using w by blast+
  show "l_halt s \<longleftrightarrow> l_rung s = 4" "l_allow_new_intraday s \<longleftrightarrow> l_rung s = 0"
    "l_size_multiplier s = Fin (if l_rung s < 2 then 1 else if l_rung s < 4 then 1 / 2 else 0)"
    using rung_state_InrD(2) w by blast+
  show "l_rung s \<le> l_rung s'" if "rung_for q t = Inr s' \<and> day_pnl_pct q \<le> day_pnl_pct p
             \<and> five_day_pct q \<le> five_day_pct p \<and> drawdown_pct q \<le> drawdown_pct p" for q s'
    using rung_for_mono [OF s] that by blast
qed

lemma ladder_worst_rung_example:
  "\<exists>s. rung_for ex_bad_day ex_limits = Inr s \<and> 2 \<le> l_rung s \<and> \<not> l_allow_new_intraday s"
proof -
  note law = ladder_worst_rung [of ex_bad_day ex_limits]
  have inputs: "path_ok ex_bad_day ex_limits" "triggered ex_bad_day ex_limits 2" by code_simp+
  have "\<exists>s. rung_for ex_bad_day ex_limits = Inr s" using conjunct1 [OF law] inputs(1) by simp
  then obtain s where s: "rung_for ex_bad_day ex_limits = Inr s" by blast
  from conjunct2 [OF law] s have facts: "\<forall>k. triggered ex_bad_day ex_limits k \<longrightarrow> k \<le> l_rung s"
    "l_allow_new_intraday s \<longleftrightarrow> l_rung s = 0" by simp_all
  from facts(1) inputs(2) have "2 \<le> l_rung s" by blast
  with s facts(2) show ?thesis by auto
qed

text \<open>The tail estimate is the worst of the three estimators: it is at least the average of the
  losses, at least the normal shortfall at the stressed volatility and at least the gap and halt
  shocks on the exposed share, it names an estimator that attains it, and it is flagged whenever
  the window is short or there is no volatility.\<close>

theorem es_worst_of_three:
  assumes "es_estimate z losses (Fin c) sigma grid weight mn = Inr r"
    "sg_vol_mult grid = Fin m" "sg_gap_pct grid = Fin g" "sg_halt_pct grid = Fin hp"
  shows "\<exists>v s w. es_value_pct r = Fin v \<and> effective_sigma losses sigma = Inr (Fin s)
    \<and> clamp_unit weight = Fin w \<and> 0 \<le> w \<and> w \<le> 1
    \<and> (losses \<noteq> [] \<longrightarrow> sum_list (map the_fin losses) / of_nat (length losses) \<le> v)
    \<and> z c * s * sqrt (of_int (sg_horizon_days grid)) \<le> v
    \<and> z c * (s * m) * sqrt (of_int (sg_horizon_days grid)) \<le> v \<and> g * w \<le> v \<and> hp * w \<le> v
    \<and> es_value_pct r = (case es_which r of EStress \<Rightarrow> es_stress_part r
         | EParametric \<Rightarrow> es_parametric_part r | EHistorical \<Rightarrow> es_historical_part r | EUnavailable \<Rightarrow> NaN)
    \<and> (es_flagged r \<longleftrightarrow> int (length losses) < mn \<or> s \<le> 0)
    \<and> es_window_days r = int (length losses)"
proof -
  obtain s h p st w where
    f: "effective_sigma losses sigma = Inr (Fin s)" "0 \<le> s"
    "es_historical_part r = Fin h" "losses \<noteq> [] \<longrightarrow> es_historical losses (Fin c) = Inr (Fin h)"
    "es_parametric_part r = Fin p" "p = z c * s * sqrt (of_int (sg_horizon_days grid))"
    "es_stress_part r = Fin st" "clamp_unit weight = Fin w" "0 \<le> w" "w \<le> 1"
    "st = max (max (z c * (s * m) * sqrt (of_int (sg_horizon_days grid))) (g * w)) (hp * w)"
    "es_value_pct r = Fin (max (max h p) st)"
    "es_which r = (if max (max h p) st \<le> st then EStress
       else if max (max h p) st \<le> p then EParametric else EHistorical)"
    "es_flagged r \<longleftrightarrow> int (length losses) < mn \<or> s \<le> 0" "es_window_days r = int (length losses)"
    by (rule es_estimate_InrD [OF assms], rule that)
  define v where "v = max (max h p) st"
  have le: "h \<le> v" "p \<le> v" "st \<le> v" by (simp_all add: v_def)
  have "sum_list (map the_fin losses) / of_nat (length losses) \<le> h" if "losses \<noteq> []"
    using f(4) that by (auto elim: es_historical_InrD)
  with le(1) have "losses \<noteq> [] \<longrightarrow> sum_list (map the_fin losses) / of_nat (length losses) \<le> v"
    using order_trans by blast
  moreover have "z c * (s * m) * sqrt (of_int (sg_horizon_days grid)) \<le> st" "g * w \<le> st" "hp * w \<le> st"
    unfolding f(11) by (simp_all add: le_max_iff_disj)
  then have "z c * (s * m) * sqrt (of_int (sg_horizon_days grid)) \<le> v" "g * w \<le> v" "hp * w \<le> v"
    using le(3) by (blast intro: order_trans)+
  moreover have "z c * s * sqrt (of_int (sg_horizon_days grid)) \<le> v" using le(2) f(6) by simp
  moreover have "es_value_pct r = (case es_which r of EStress \<Rightarrow> es_stress_part r
         | EParametric \<Rightarrow> es_parametric_part r | EHistorical \<Rightarrow> es_historical_part r | EUnavailable \<Rightarrow> NaN)"
  proof -
    have which: "es_which r = (if v \<le> st then EStress else if v \<le> p then EParametric else EHistorical)"
      and val: "es_value_pct r = Fin v"
      using f(12,13) by (simp_all only: v_def)
    consider "v \<le> st" "v = st" | "\<not> v \<le> st" "v \<le> p" "v = p" | "\<not> v \<le> st" "\<not> v \<le> p" "v = h"
      using le v_def by linarith
    then show ?thesis unfolding val by cases (simp_all add: which f(3,5,7))
  qed
  moreover have "es_value_pct r = Fin v" using f(12) by (simp add: v_def)
  ultimately show ?thesis
    using f(1,8-10,14,15) by (intro exI [of _ v] exI [of _ s] exI [of _ w] conjI)
qed

lemma es_worst_of_three_example:
  "\<exists>r v. es_estimate (\<lambda>_. 2) [Fin (1 / 100), Fin (3 / 100)] (Fin (975 / 1000)) (Some (Fin (1 / 100)))
      default_grid (Fin (1 / 4)) 60 = Inr r \<and> es_value_pct r = Fin v \<and> 1 / 20 \<le> v"
proof -
  let ?e = "es_estimate (\<lambda>_. 2) [Fin (1 / 100), Fin (3 / 100)] (Fin (975 / 1000)) (Some (Fin (1 / 100)))
      default_grid (Fin (1 / 4)) 60"
  have "\<exists>r. ?e = Inr r"
    by (simp add: es_estimate_def check_confidence_def effective_sigma_def check_sigma_def
        es_historical_def es_parametric_def es_stress_def z_score_def loss_ok_def default_grid_def Let_def)
  then obtain r where "?e = Inr r" by blast
  moreover have "clamp_unit (Fin (1 / 4)) = Fin (1 / 4)"
    by (simp add: clamp_unit_def fp_simps)
  ultimately show ?thesis
    using es_worst_of_three [OF \<open>?e = Inr r\<close>, of 2 "10 / 100" "20 / 100"]
    by (fastforce simp: default_grid_def)
qed

text \<open>The volatility scalar stays between its floor and its cap whenever it is applied, is applied
  only outside the band around the current one, is 1 before the warmup and the current one inside
  the band; and the realized volatility of bounded returns is at most the annualised bound.\<close>

theorem vol_scalar_bounded:
  assumes "vol_scalar returns p = Inr s" "vp_cap p = Fin c" "vp_floor p = Fin f" "vp_current p = Fin k"
    "vp_target p = Fin t"
  shows "0 < f \<and> f \<le> c
    \<and> (case vs_reason s of
         VWarmup \<Rightarrow> vs_scalar s = 1 \<and> int (length returns) < vp_warmup_days p
       | VZeroVol \<Rightarrow> vs_scalar s = Fin c
       | VApplied \<Rightarrow> (\<exists>x. vs_scalar s = Fin x \<and> f \<le> x \<and> x \<le> c \<and> vp_band p < Fin (\<bar>x - k\<bar> / k))
       | VWithinBand \<Rightarrow> vs_scalar s = Fin k)
    \<and> (vs_applied s \<longleftrightarrow> vs_reason s = VApplied)
    \<and> (vs_warmup_ok s \<longleftrightarrow> vp_warmup_days p \<le> int (length returns))
    \<and> (\<forall>rs h b. returns = map Fin rs \<and> rs \<noteq> [] \<and> vp_halflife_days p = Fin h \<and> 1 \<le> h
         \<and> (\<forall>x \<in> set rs. \<bar>x\<bar> \<le> b) \<longrightarrow>
         (\<exists>v. vs_realized s = Fin v \<and> 0 \<le> v \<and> v \<le> b * sqrt 252))"
proof -
  have "vs_realized s = Fin v \<or> ewma_vol returns (vp_halflife_days p) 252 \<noteq> Inr (Fin v)" for v
    using assms(1) by (auto simp: vol_scalar_def rmap_Inr_iff Let_def split: if_splits)
  then have "\<exists>v. vs_realized s = Fin v \<and> 0 \<le> v \<and> v \<le> b * sqrt 252"
    if "returns = map Fin rs \<and> rs \<noteq> [] \<and> vp_halflife_days p = Fin h \<and> 1 \<le> h \<and> (\<forall>x \<in> set rs. \<bar>x\<bar> \<le> b)"
    for rs h b using that ewma_vol_bounds [of h 252 rs b] by fastforce
  then have realized: "\<forall>rs h b. returns = map Fin rs \<and> rs \<noteq> [] \<and> vp_halflife_days p = Fin h \<and> 1 \<le> h
         \<and> (\<forall>x \<in> set rs. \<bar>x\<bar> \<le> b) \<longrightarrow>
         (\<exists>v. vs_realized s = Fin v \<and> 0 \<le> v \<and> v \<le> b * sqrt 252)" by blast
  have shape: "0 < f \<and> f \<le> c
    \<and> (case vs_reason s of
         VWarmup \<Rightarrow> vs_scalar s = 1 \<and> int (length returns) < vp_warmup_days p
       | VZeroVol \<Rightarrow> vs_scalar s = Fin c
       | VApplied \<Rightarrow> (\<exists>x. vs_scalar s = Fin x \<and> f \<le> x \<and> x \<le> c \<and> vp_band p < Fin (\<bar>x - k\<bar> / k))
       | VWithinBand \<Rightarrow> vs_scalar s = Fin k)
    \<and> (vs_applied s \<longleftrightarrow> vs_reason s = VApplied)
    \<and> (vs_warmup_ok s \<longleftrightarrow> vp_warmup_days p \<le> int (length returns))"
    using vol_scalar_InrD [OF assms] by (cases "vs_reason s") auto
  show ?thesis using shape realized by (elim conjE) (intro conjI)
qed

lemma vol_scalar_bounded_example:
  "\<exists>s v. vol_scalar [Fin (1 / 100), Fin (- 1 / 100)] (default_vol_params (Fin (1 / 10))) = Inr s
     \<and> vs_realized s = Fin v \<and> v \<le> (1 / 100) * sqrt 252 \<and> vs_applied s = (vs_reason s = VApplied)"
proof -
  let ?p = "default_vol_params (Fin (1 / 10))"
  have ok: "vol_params_ok ?p" by code_simp
  have "\<exists>v. ewma_vol (map Fin [1 / 100, - 1 / 100]) (Fin 20) 252 = Inr (Fin v)"
    using ewma_vol_bounds [of 20 252 "[1 / 100, - 1 / 100]" "1 / 100"] by auto
  then have "\<exists>s. vol_scalar [Fin (1 / 100), Fin (- 1 / 100)] ?p = Inr s"
    using ok by (auto simp: vol_scalar_def rmap_Inr_iff default_vol_params_def)
  then obtain s where s: "vol_scalar [Fin (1 / 100), Fin (- 1 / 100)] ?p = Inr s" by blast
  have fields: "vp_cap ?p = Fin (15 / 10)" "vp_floor ?p = Fin (10 / 100)" "vp_current ?p = Fin 1"
    "vp_target ?p = Fin (1 / 10)" "vp_halflife_days ?p = Fin 20"
    by (simp_all add: default_vol_params_def)
  note law = vol_scalar_bounded [OF s fields(1-4)]
  have "vs_applied s = (vs_reason s = VApplied)" using law by (elim conjE)
  moreover have "\<exists>v. vs_realized s = Fin v \<and> 0 \<le> v \<and> v \<le> (1 / 100) * sqrt 252"
    by (rule law [THEN conjunct2, THEN conjunct2, THEN conjunct2, THEN conjunct2, THEN conjunct2,
          rule_format, of "[1 / 100, - 1 / 100]" 20])
      (simp add: fields(5))
  ultimately show ?thesis using s by blast
qed

section \<open>Halts\<close>

text \<open>After a halt or a limit state, whatever the events, an update allows entries again only when
  the events since end with a noted reopen, nothing but quiet events after it, and an update at
  least a cooldown later; after a halt that does not reopen it allows neither entries nor exits;
  and the same update twice changes nothing the second time.\<close>

theorem halt_entries_need_reopen:
  assumes "halt_inv m" "h_phase m \<notin> {PNormal, PCooldown}"
    "update h l now mins (foldl halt_step m es) = Inr (m', s)"
  shows "(hs_allow_entries s \<longrightarrow> \<not> h_no_reopen m
        \<and> reopened (h_cooldown_s m) (es @ [Update h l now mins]))
    \<and> (h_no_reopen m \<longrightarrow> hs_phase s = PHalted \<and> \<not> hs_allow_entries s \<and> \<not> hs_allow_exits s)
    \<and> update h l now mins m' = Inr (m', s)"
proof -
  let ?es = "es @ [Update h l now mins]"
  note snap = update_snapshot [OF assms(3)]
  then have m': "m' = foldl halt_step m ?es" by simp
  have inv: "halt_inv m'" unfolding m' by (rule hm.run_inv [OF assms(1)])
  have entries: "hs_allow_entries s \<longrightarrow> reopened (h_cooldown_s m) ?es"
    using snap run_to_normal [OF assms(1,2), of ?es] by simp
  have stuck: "h_no_reopen m \<longrightarrow> h_phase m' = PHalted"
    using run_no_reopen [OF assms(1), of ?es] inv unfolding m' halt_inv_def by blast
  have "h_no_reopen m \<longrightarrow> hs_phase s = PHalted \<and> \<not> hs_allow_entries s \<and> \<not> hs_allow_exits s"
    using stuck snap by auto
  with entries update_idem [OF assms(3)] show ?thesis by blast
qed

lemma halt_entries_need_reopen_example:
  "\<exists>s m'. update False False (ex_minute 7) None
       (foldl halt_step ex_halted [Update False False (ex_minute 1) None, NoteReopen (ex_minute 2)])
       = Inr (m', s) \<and> hs_allow_entries s \<and> update False False (ex_minute 7) None m' = Inr (m', s)"
proof -
  let ?u = "update False False (ex_minute 7) None
       (foldl halt_step ex_halted [Update False False (ex_minute 1) None, NoteReopen (ex_minute 2)])"
  have "(case ?u of Inr (m', s) \<Rightarrow> hs_allow_entries s | _ \<Rightarrow> False)" by code_simp
  then obtain m' s where u: "?u = Inr (m', s)" "hs_allow_entries s" by (auto split: sum.splits)
  have "halt_inv ex_halted" "h_phase ex_halted \<notin> {PNormal, PCooldown}"
    by (simp_all add: halt_inv_def ex_halted_def)
  from halt_entries_need_reopen [OF this u(1)] u show ?thesis by blast
qed

section \<open>Reconciliation and the book\<close>

text \<open>A reconciliation is refused exactly when a record lacks a symbol or a quantity. Otherwise it
  halts exactly when it found a drift, and it finds none exactly when, for every symbol, the signed
  sums of the fills and of the broker's positions are within the tolerance, every working broker
  order is known locally, and the cash agrees or is unknown on both sides.\<close>

theorem reconcile_halts_on_drift:
  assumes "0 \<le> st"
  shows "((\<exists>rep. reconcile fills positions orders ids cl cb st ct = Inr rep)
      \<longleftrightarrow> (\<forall>r \<in> set (fills @ positions). q_symbol r \<noteq> None \<and> q_qty r \<noteq> None))
    \<and> (\<forall>rep. reconcile fills positions orders ids cl cb st ct = Inr rep \<longrightarrow>
         rr_halt rep = (\<not> rr_ok rep) \<and> (rr_ok rep \<longleftrightarrow> rr_drift rep = [])
         \<and> (rr_ok rep \<longleftrightarrow>
              (\<forall>s. \<not> st < \<bar>position_of fills s - position_of positions s\<bar>)
              \<and> (\<forall>b \<in> set orders. str_lower (str_or (bo_status b) []) \<in> set CLOSED_ORDER_STATUSES
                   \<or> (\<exists>cid. bo_client_order_id b = Some cid \<and> Some cid \<in> set ids))
              \<and> (cl = None \<and> cb = None \<or> (\<exists>x y. cl = Some x \<and> cb = Some y \<and> \<not> ct < \<bar>x - y\<bar>))))"
proof (intro conjI allI impI)
  show "(\<exists>rep. reconcile fills positions orders ids cl cb st ct = Inr rep)
      \<longleftrightarrow> (\<forall>r \<in> set (fills @ positions). q_symbol r \<noteq> None \<and> q_qty r \<noteq> None)"
    by (rule reconcile_total [symmetric])
next
  fix rep assume "reconcile fills positions orders ids cl cb st ct = Inr rep"
  then obtain ln bn where nets: "net_by_symbol fills = Inr ln" "net_by_symbol positions = Inr bn"
    and rep: "rr_drift rep = sort_key (\<lambda>d. (d_kind d, str_or (d_symbol d) []))
        (position_drifts ln bn st @ List.map_filter (order_drift ids) orders @ cash_drift cl cb ct)"
      "rr_ok rep = (rr_drift rep = [])" "rr_halt rep = (rr_drift rep \<noteq> [])"
    by (auto simp: reconcile_def rbind_Inr_iff rmap_Inr_iff Let_def)
  then show "rr_halt rep = (\<not> rr_ok rep)" "rr_ok rep \<longleftrightarrow> rr_drift rep = []" by simp_all
  show "rr_ok rep \<longleftrightarrow>
              (\<forall>s. \<not> st < \<bar>position_of fills s - position_of positions s\<bar>)
              \<and> (\<forall>b \<in> set orders. str_lower (str_or (bo_status b) []) \<in> set CLOSED_ORDER_STATUSES
                   \<or> (\<exists>cid. bo_client_order_id b = Some cid \<and> Some cid \<in> set ids))
              \<and> (cl = None \<and> cb = None \<or> (\<exists>x y. cl = Some x \<and> cb = Some y \<and> \<not> ct < \<bar>x - y\<bar>))"
    unfolding rep(2) rep(1) sort_key_Nil append_is_Nil_conv position_drifts_Nil [OF nets assms]
      map_filter_Nil order_drift_None cash_drift_Nil ..
qed

lemma reconcile_halts_on_drift_example:
  "\<exists>rep. reconcile [\<lparr>q_symbol = Some ''ABC'', q_qty = Some (Fin 100)\<rparr>]
     [\<lparr>q_symbol = Some ''ABC'', q_qty = Some (Fin 60)\<rparr>] [] [] None None (Fin 0) (Fin 1) = Inr rep
     \<and> rr_halt rep"
proof -
  let ?f = "[\<lparr>q_symbol = Some ''ABC'', q_qty = Some (Fin 100)\<rparr>]"
  let ?p = "[\<lparr>q_symbol = Some ''ABC'', q_qty = Some (Fin 60)\<rparr>]"
  note law = reconcile_halts_on_drift [of "Fin 0" ?f ?p "[]" "[]" None None "Fin 1"]
  have "\<exists>rep. reconcile ?f ?p [] [] None None (Fin 0) (Fin 1) = Inr rep"
    using conjunct1 [OF law] by simp
  then obtain rep where rep: "reconcile ?f ?p [] [] None None (Fin 0) (Fin 1) = Inr rep" by blast
  have "Fin 0 < \<bar>position_of ?f ''ABC'' - position_of ?p ''ABC''\<bar>" by code_simp
  with conjunct2 [OF law, rule_format, OF _ rep] have "rr_halt rep" by auto
  with rep show ?thesis by blast
qed

text \<open>A valid configuration never lets the sleeves together hold more than the equity: the two
  sleeves partition the notional of a book whose positions they own, the cluster shares add up to
  it, the heat is apportioned without loss, and the notional rooms they offer sum to at most the
  equity less what a positive book already deploys, when neither is over its ceiling.\<close>

theorem sleeves_partition_book:
  assumes "validate_config cfg = Inr ()" "\<forall>p \<in> set (b_positions book). p_sleeve p \<in> set SLEEVES"
    "b_equity book = Fin e" "0 < e" "b_notional book = Fin t" "0 < t" "b_heat_pct book = Fin h"
  shows "\<exists>s i x y. budgets_for cfg book = Inr [(SWING, s), (INTRADAY, i)]
    \<and> b_notional book = sleeve_deployed book SWING + sleeve_deployed book INTRADAY
    \<and> fsum (map snd (cluster_notional book)) = b_notional book
    \<and> sb_heat_pct s + sb_heat_pct i = b_heat_pct book
    \<and> notional_room_usd s book = Fin x \<and> notional_room_usd i book = Fin y
    \<and> (\<not> at_ceiling s \<and> \<not> at_ceiling i \<longrightarrow> x + y + t \<le> e)
    \<and> (at_ceiling s \<longrightarrow> x = 0) \<and> (at_ceiling i \<longrightarrow> y = 0)"
proof -
  obtain s i where b: "budgets_for cfg book = Inr [(SWING, s), (INTRADAY, i)]"
    "budget_for cfg SWING book = Inr s" "budget_for cfg INTRADAY book = Inr i"
    using budgets_for_total by blast
  obtain cs ci where c: "cfg_sleeve_swing_capital_pct cfg = Fin cs"
    "cfg_sleeve_intraday_capital_pct cfg = Fin ci" "0 \<le> cs" "0 \<le> ci" "cs + ci \<le> 1"
    by (rule validate_ceilings [OF assms(1)])
  have part: "b_notional book = sleeve_deployed book SWING + sleeve_deployed book INTRADAY"
    by (rule sleeves_partition_notional [OF assms(2)])
  then obtain ds di where d: "sleeve_deployed book SWING = Fin ds" "sleeve_deployed book INTRADAY = Fin di"
    using assms(5) by (cases "sleeve_deployed book SWING"; cases "sleeve_deployed book INTRADAY") auto
  with part assms(5) have t: "t = ds + di" by simp
  have dep: "deployed_pct book SWING = Fin (ds / e)" "deployed_pct book INTRADAY = Fin (di / e)"
    using assms(3,4) d by (simp_all add: deployed_pct_def)
  have ceil: "sb_capital_ceiling_pct s = Fin cs" "sb_capital_ceiling_pct i = Fin ci"
    using b(2,3) c(1,2) by (auto simp: budget_for_def policy_for_def sleeve_names)
  note room = room_bounds [OF b(2) ceil(1) dep(1) assms(3,4)] room_bounds [OF b(3) ceil(2) dep(2) assms(3,4)]
  have mul: "(cs - ds / e) * e = cs * e - ds" "(ci - di / e) * e = ci * e - di"
    using assms(4) by (simp_all add: left_diff_distrib)
  have total: "cs * e + ci * e \<le> e"
    using c(5) assms(4) mult_right_mono [of "cs + ci" 1 e] by (simp add: distrib_right)
  have "max 0 ((cs - ds / e) * e) + max 0 ((ci - di / e) * e) + t \<le> e"
    if "\<not> at_ceiling s \<and> \<not> at_ceiling i"
  proof -
    have "0 < (cs - ds / e) * e" "0 < (ci - di / e) * e"
      using that room(2,4) assms(4) by (simp_all add: not_le)
    with total t mul show ?thesis by linarith
  qed
  moreover have "at_ceiling s \<longrightarrow> max 0 ((cs - ds / e) * e) = 0" "at_ceiling i \<longrightarrow> max 0 ((ci - di / e) * e) = 0"
    using room(2,4) assms(4) by (auto simp: max_def mult_le_0_iff zero_le_mult_iff)
  moreover have "sb_heat_pct s + sb_heat_pct i = b_heat_pct book"
    by (rule heat_is_apportioned [OF assms(2,5-7) b(2,3)])
  ultimately show ?thesis
    using b(1) part cluster_notional_total room(1,3) by blast
qed

lemma sleeves_partition_book_example:
  "\<exists>s i x y. budgets_for default_config ex_long_book = Inr [(SWING, s), (INTRADAY, i)]
     \<and> notional_room_usd s ex_long_book = Fin x \<and> notional_room_usd i ex_long_book = Fin y
     \<and> sb_heat_pct s + sb_heat_pct i = Fin (1 / 100)"
proof -
  have "b_notional ex_long_book = Fin 1000" by code_simp
  moreover have "b_equity ex_long_book = Fin 100000" "b_heat_pct ex_long_book = Fin (1 / 100)"
    "\<forall>p \<in> set (b_positions ex_long_book). p_sleeve p \<in> set SLEEVES"
    by (simp_all add: ex_long_book_def ex_book_def ex_position_def SLEEVES_def)
  ultimately show ?thesis
    using sleeves_partition_book [OF default_config_valid, of ex_long_book 100000 1000 "1 / 100"]
    by (metis zero_less_numeral)
qed

section \<open>The session\<close>





text \<open>The stamp the session writes on an order is read back by the guard as the same second and
  so the same day, whatever the time and zone.\<close>

theorem entry_stamp_roundtrip:
  assumes "stampable now"
  shows "\<exists>t. parse_stamp (strip (oi_created_at (entry_intent now c ch))) = Some t
    \<and> t = whole_seconds now \<and> date_of t = date_of now \<and> utc_off t = utc_off now
    \<and> (is_expired m t \<longleftrightarrow> is_expired m now)"
  using assms by (simp add: entry_intent_def strip_isoformat(1) parse_isoformat is_expired_def stamp_date)
    (simp add: whole_seconds_def)

lemma entry_stamp_roundtrip_example:
  "\<forall>c ch. oi_created_at (entry_intent ex_now c ch) = ''2027-01-19T10:00:00''
     \<and> parse_stamp (strip (oi_created_at (entry_intent ex_now c ch))) = Some ex_now"
proof (intro allI)
  fix c ch
  have "stampable ex_now" "whole_seconds ex_now = ex_now" "isoformat_seconds ex_now = ''2027-01-19T10:00:00''" by code_simp+
  with entry_stamp_roundtrip [OF this(1), of c ch ex_mandate]
  show "oi_created_at (entry_intent ex_now c ch) = ''2027-01-19T10:00:00''
     \<and> parse_stamp (strip (oi_created_at (entry_intent ex_now c ch))) = Some ex_now" by (simp add: entry_intent_def)
qed

section \<open>Calendar and clock\<close>

text \<open>A day is a session exactly when it is a weekday of 2026 or 2027 that is none of the twenty
  listed holidays. A session opens at 9:30 and closes at 16:00, on exactly three half days at 13:00;
  any other day has neither time.\<close>

theorem calendar_sessions:
  "(is_session d \<longleftrightarrow> date_at 2026 1 1 \<le> d \<and> d \<le> date_at 2027 12 31 \<and> weekday d < 5
     \<and> d \<notin> {date_at 2026 1 1, date_at 2026 1 19, date_at 2026 2 16, date_at 2026 4 3, date_at 2026 5 25,
         date_at 2026 6 19, date_at 2026 7 3, date_at 2026 9 7, date_at 2026 11 26, date_at 2026 12 25,
         date_at 2027 1 1, date_at 2027 1 18, date_at 2027 2 15, date_at 2027 3 26, date_at 2027 5 31,
         date_at 2027 6 18, date_at 2027 7 5, date_at 2027 9 6, date_at 2027 11 25, date_at 2027 12 24})
   \<and> (is_session d \<longrightarrow> ds_open_et (session_for d) = Some ((9 * 60 + 30) * 60000000)
        \<and> ds_close_et (session_for d) = Some (if ds_is_half_day (session_for d)
             then 13 * 3600000000 else 16 * 3600000000)
        \<and> (ds_is_half_day (session_for d) \<longleftrightarrow>
             d \<in> {date_at 2026 11 27, date_at 2026 12 24, date_at 2027 11 26}))
   \<and> (\<not> is_session d \<longrightarrow> ds_open_et (session_for d) = None \<and> ds_close_et (session_for d) = None)"
proof (intro conjI impI)
  show "is_session d \<longleftrightarrow> date_at 2026 1 1 \<le> d \<and> d \<le> date_at 2027 12 31 \<and> weekday d < 5
     \<and> d \<notin> {date_at 2026 1 1, date_at 2026 1 19, date_at 2026 2 16, date_at 2026 4 3, date_at 2026 5 25,
         date_at 2026 6 19, date_at 2026 7 3, date_at 2026 9 7, date_at 2026 11 26, date_at 2026 12 25,
         date_at 2027 1 1, date_at 2027 1 18, date_at 2027 2 15, date_at 2027 3 26, date_at 2027 5 31,
         date_at 2027 6 18, date_at 2027 7 5, date_at 2027 9 6, date_at 2027 11 25, date_at 2027 12 24}"
    using is_session_iff [of d] by (simp only: holidays list.set)
qed (use session_for_open [of d] session_for_closed [of d] in
    \<open>simp_all add: OPEN_ET_def CLOSE_ET_def HALF_DAY_CLOSE_ET_def half_days_def\<close>)

lemma calendar_sessions_example:
  "is_session (date_at 2026 11 27)
     \<and> ds_close_et (session_for (date_at 2026 11 27)) = Some (13 * 3600000000)"
proof -
  have "is_session (date_at 2026 11 27)" by code_simp
  with calendar_sessions [of "date_at 2026 11 27"] show ?thesis by simp
qed

text \<open>The trading days of a span are exactly the sessions in it, in order: the loop computes the
  filtered range, and ends.\<close>

theorem trading_days_exact:
  assumes "until < MAX_DATE"
  shows "\<exists>days. trading_days start until = Inr days \<and> days = filter is_session [start..until]
    \<and> sorted days \<and> distinct days"
proof -
  have "trading_days start until = Inr (filter is_session [start..until])"
    using trading_loop_filter [OF assms, of start "[]"] by (simp add: trading_days_def)
  then show ?thesis by (simp add: sorted_wrt_filter sorted_upto)
qed

lemma trading_days_exact_example:
  "trading_days (date_at 2026 7 1) (date_at 2026 7 7)
     = Inr [date_at 2026 7 1, date_at 2026 7 2, date_at 2026 7 6, date_at 2026 7 7]"
proof -
  have "date_at 2026 7 7 < MAX_DATE"
    "filter is_session [date_at 2026 7 1..date_at 2026 7 7]
       = [date_at 2026 7 1, date_at 2026 7 2, date_at 2026 7 6, date_at 2026 7 7]" by code_simp+
  with trading_days_exact [OF this(1), of "date_at 2026 7 1"] show ?thesis by simp
qed



text \<open>C39: Converting an instant to the derived Eastern time and back returns it, and the offset is the
  US rule's, in every hour but one a year: in the hour after the clocks go back the conversion still
  adds the summer hour, and comes back an hour late.\<close>

theorem eastern_roundtrip:
  "to_utc US_EASTERN (to_et US_EASTERN stamp)
     = \<lparr>wall_us = utc_instant stamp + (if fold_hour (utc_instant stamp) then hour_us else 0),
        utc_off = Some 0\<rparr>
   \<and> (let local = utc_instant stamp - 5 * hour_us;
          (start, until) = dst_bounds (year_of (local div us_per_day))
      in utc_off (to_et US_EASTERN stamp)
           = Some (if start \<le> local \<and> local + hour_us < until then - 4 * hour_us else - 5 * hour_us))"
proof -
  define u where "u = utc_instant stamp"
  define local where "local = u - 5 * hour_us"
  obtain start until where dst: "dst_bounds (year_of (local div us_per_day)) = (start, until)"
    by (cases "dst_bounds (year_of (local div us_per_day))")
  have "\<exists>w off. eastern_fromutc u = \<lparr>wall_us = w, utc_off = Some off\<rparr>"
    by (simp add: eastern_fromutc_def Let_def)
  then obtain w off where r: "eastern_fromutc u = \<lparr>wall_us = w, utc_off = Some off\<rparr>" by blast
  have ret: "w - off = u + (if fold_hour u then hour_us else 0)"
    using eastern_instant [of u] r by (simp add: utc_instant_def)
  have w: "w = (if start \<le> local \<and> local < until then local + hour_us else local)"
    using r dst by (auto simp: eastern_fromutc_def Let_def is_dst_local_def local_def split: if_splits)
  have "fold_hour u \<longleftrightarrow> until - hour_us \<le> local \<and> local < until"
    using dst by (simp add: fold_hour_def local_def Let_def)
  moreover have "start \<le> until - 2 * hour_us" "0 < hour_us"
    using dst_bounds_days(2) [OF dst] by (simp_all add: hour_us_def)
  ultimately have "off = (if start \<le> local \<and> local + hour_us < until then - 4 * hour_us else - 5 * hour_us)"
    using ret w by (auto simp: local_def split: if_splits)
  then show ?thesis
    using r ret dst by (simp add: to_utc_def to_et_def US_EASTERN_def u_def [symmetric] local_def)
qed

section \<open>Ledger and journal\<close>



text \<open>C14: Under the lock file, whatever the interleaving of any number of processes and wherever they
  crash, as long as no waiter removes a lock the ledger verifies at every moment and at most one
  process is between taking the lock and giving it back.\<close>

theorem ledger_lock_serializes:
  assumes "reaches False row_for (quiet_system f) t" "links h row_for" "verify_ledger h f = Inr (True, -1)"
  shows "verify_ledger h (shared t) = Inr (True, -1)
    \<and> (in_section (phase_of t p) \<and> in_section (phase_of t q) \<longrightarrow> p = q)"
proof -
  have "verify_ledger h (shared (quiet_system f :: 'a system)) = Inr (True, -1)"
    using assms(3) by (simp add: quiet_system_def)
  from locked_reaches [OF assms(1) quiet_exclusive assms(2) this]
  have "exclusive t" "verify_ledger h (shared t) = Inr (True, -1)" by blast+
  with exclusive_alone [of t p q] show ?thesis by blast
qed

lemma ledger_lock_serializes_example:
  "\<exists>(t :: nat system) row. shared t = [Some row] \<and> verify_ledger (\<lambda>_ _. ''h'') (shared t) = Inr (True, -1)"
proof -
  let ?h = "\<lambda>_ _. ''h''" and ?rf = "\<lambda>_ :: nat. next_row (\<lambda>_ _. ''h'') ''t'' ''k'' ''r'' []"
  have empty: "verify_ledger ?h [] = Inr (True, -1)" by (simp add: verify_ledger_def read_ledger_def)
  obtain row where row: "?rf 0 [] = Inr row"
    using append_succeeds [OF empty, of "[]" "''t''" "''k''" "''r''"]
    by (auto simp: ledger_append_def rmap_Inr_iff)
  have "\<exists>t. reaches False ?rf (quiet_system []) t \<and> shared t = [Some row]"
  proof (intro exI conjI)
    let ?s = "quiet_system [] :: nat system"
    let ?s1 = "set_phase 0 Waiting ?s"
    let ?s2 = "set_phase 0 Owning (?s1\<lparr>lock_file := Some (0, False)\<rparr>)"
    let ?s3 = "set_phase 0 Inside (?s2\<lparr>lock_file := if lock_file ?s2 = Some (0, False) then Some (0, True)
      else lock_file ?s2\<rparr>)"
    let ?s4 = "set_phase 0 (HasRead (shared ?s3)) ?s3"
    let ?s5 = "set_phase 0 Finished (?s4\<lparr>shared := shared ?s4 @ [Some row]\<rparr>)"
    have "reaches False ?rf ?s ?s1"
      by (rule further [OF here start]) (simp add: quiet_system_def)
    from further [OF this create [of _ 0]] have "reaches False ?rf ?s ?s2" by (simp add: quiet_system_def)
    from further [OF this write_pid [of _ 0]] have "reaches False ?rf ?s ?s3" by simp
    from further [OF this reads [of _ 0]] have "reaches False ?rf ?s ?s4" by simp
    from further [OF this writes [of _ 0 "[]" _ row]] row show "reaches False ?rf ?s ?s5"
      by (simp add: quiet_system_def)
    show "shared ?s5 = [Some row]" by (simp add: quiet_system_def)
  qed
  then obtain t where t: "reaches False ?rf (quiet_system []) t" "shared t = [Some row]" by blast
  moreover have "links ?h ?rf" unfolding links_def by blast
  ultimately show ?thesis using ledger_lock_serializes [OF t(1) _ empty] by blast
qed

text \<open>C40: Taking the lock always returns: a lone waiter has it within the timeout and one poll, however
  the holder is stuck. Where the lock file cannot be removed (a host that keeps an open file) a waiter
  that finds a dead holder never returns.\<close>

theorem lock_acquired_in_time:
  "(\<exists>t. acquire True (now + LOCK_TIMEOUT_US) now view = Some t
      \<and> now \<le> t \<and> t \<le> now + LOCK_TIMEOUT_US + POLL_US)
   \<and> acquire False (now + LOCK_TIMEOUT_US) now (Held True False) = None"
  using acquire_returns [of "now + LOCK_TIMEOUT_US" now view] acquire_spins
  by (force simp: LOCK_TIMEOUT_US_def POLL_US_def)

text \<open>C27: The journal file implements a list of handled decisions and a list of emitted signals: a mark
  adds to the first and a signal to the second, nothing is ever lost, and every question the
  processor asks (handled under this mandate, signals today, the last signal) is answered from them.\<close>

theorem journal_refines:
  assumes "objects f"
  shows "is_processed dh mh f = Inr (\<exists>m \<in> set (marks f). settles dh mh m)
    \<and> signals_today_count now f = Inr (length (filter (\<lambda>r. case stamp_of (field ''emitted_at'' r) of
           Some t \<Rightarrow> date_of t = date_of now | None \<Rightarrow> False) (emissions f)))
    \<and> last_signal f = Inr (if emissions f = [] then None else Some (last (emissions f)))
    \<and> (\<forall>f'. f' = mark_processed dh ticker path outcome mh stamp f \<longrightarrow>
         objects f' \<and> marks f' = marks f @ [(JStr dh, opt_json JStr mh)] \<and> emissions f' = emissions f
         \<and> is_processed dh mh f' = Inr True)
    \<and> (\<forall>envelope f'. add_signal envelope f = Inr f' \<longrightarrow>
         objects f' \<and> marks f' = marks f
         \<and> (\<exists>r. emissions f' = emissions f @ [r] \<and> last_signal f' = Inr (Some r)
              \<and> field ''signal_id'' r = jget envelope ''signal_id''))"
proof (intro conjI allI impI)
  fix f' assume f': "f' = mark_processed dh ticker path outcome mh stamp f"
  show o': "objects f'" using assms by (simp add: f' mark_processed_def)
  show m: "marks f' = marks f @ [(JStr dh, opt_json JStr mh)]" and "emissions f' = emissions f"
    by (simp_all add: f' mark_processed_marks)
  show "is_processed dh mh f' = Inr True"
    unfolding is_processed_marks [OF o'] m by (cases mh) (simp_all add: settles_def opt_json_def)
next
  fix envelope f' assume a: "add_signal envelope f = Inr f'"
  note e = add_signal_emissions [OF a]
  show o': "objects f'" and "marks f' = marks f" using e(1,3) assms by simp_all
  from e(2) show "\<exists>r. emissions f' = emissions f @ [r] \<and> last_signal f' = Inr (Some r)
      \<and> field ''signal_id'' r = jget envelope ''signal_id''"
    unfolding last_signal_emissions [OF o'] by force
qed (use is_processed_marks [OF assms] signals_today_emissions [OF assms] last_signal_emissions [OF assms]
      in simp_all)

lemma journal_refines_example:
  "is_processed ''d'' (Some ''m'') (mark_processed ''d'' ''ABC'' ''p'' ''blocked'' (Some ''m'') ''t'' []) = Inr True
   \<and> is_processed ''d'' (Some ''n'') (mark_processed ''d'' ''ABC'' ''p'' ''blocked'' (Some ''m'') ''t'' []) = Inr False"
proof -
  have "objects []" by (simp add: objects_def json_rows_def List.map_filter_def)
  with journal_refines [of "[]" "''d''" "Some ''m''"]
  have "is_processed ''d'' (Some ''m'') (mark_processed ''d'' ''ABC'' ''p'' ''blocked'' (Some ''m'') ''t'' []) = Inr True"
    by blast
  moreover have "is_processed ''d'' (Some ''n'') (mark_processed ''d'' ''ABC'' ''p'' ''blocked'' (Some ''m'') ''t'' []) = Inr False"
    by code_simp
  ultimately show ?thesis by blast
qed

section \<open>Control plane\<close>


definition ex_stamp :: datetime where
  "ex_stamp = \<lparr>wall_us = 740000 * 86400000000, utc_off = Some 0\<rparr>"

definition ex_auth :: authenticator where
  "ex_auth = \<lparr>au_keys = [(''k'', ''secret'')], au_roles = [(''k'', ''execute'')], au_window_s = Fin 300,
     au_clock = (\<lambda>_. ex_stamp), au_sha = (\<lambda>_. ''sha''), au_hmac = (\<lambda>_ _. ''sig'')\<rparr>"

definition ex_call :: request where
  "ex_call = \<lparr>rq_method = ''POST'', rq_path = ''/halt'', rq_body = [],
     rq_headers = [(''x-key-id'', ''k''), (''x-timestamp'', ''2027-01-19T00:00:00+00:00''),
       (''x-nonce'', ''n''), (''x-signature'', ''sig'')], rq_required_role = Some ''propose''\<rparr>"

definition ex_auth_state :: auth_state where
  "ex_auth_state = \<lparr>at_ticks = 0, at_nonces = \<lparr>ns_ttl_s = Fin 600, ns_seen = [], ns_loaded = False,
     ns_file = Some [], ns_text = (\<lambda>_. [])\<rparr>\<rparr>"

lemma ex_call_accepted: "(case authenticate ex_auth ex_call ex_auth_state of
    (s, Inr r) \<Rightarrow> ar_ok r | _ \<Rightarrow> False)"
  by code_simp


text \<open>An accepted request carries a known key with a role at least the required one, a timestamp
  inside the window, the HMAC of its method, path, body hash, timestamp, nonce and key under that
  key's secret, and a nonce not claimed within its lifetime; a request without the right signature
  changes no claim.\<close>

theorem accepted_request_is_signed:
  assumes "authenticate au q s = (s', Inr r)"
  shows "(ar_ok r \<longrightarrow>
      (\<exists>secret role t. map_of (au_keys au) (pa_key_id (request_parts q)) = Some secret
        \<and> map_of (au_roles au) (pa_key_id (request_parts q)) = Some role \<and> role \<in> set ROLES
        \<and> ar_role r = Some role
        \<and> (\<forall>required. rq_required_role q = Some required \<longrightarrow>
             required \<in> set ROLES \<and> index_of required ROLES \<le> index_of role ROLES)
        \<and> parse_iso (pa_timestamp (request_parts q)) = Some t
        \<and> in_window (au_window_s au) (au_clock au (at_ticks s)) t
        \<and> header (rq_headers q) ''X-Signature''
            = au_hmac au secret (canonical_string (au_sha au) (request_parts q))
        \<and> \<not> knows (pa_nonce (request_parts q))
              (purge (utc_instant (au_clock au (Suc (at_ticks s)))) (fst (load (at_nonces s))))))
    \<and> (ar_reason r \<in> {''missing_header'', ''unknown_key'', ''stale_timestamp'', ''replayed_nonce'', ''bad_signature''} \<longrightarrow>
         ns_file (at_nonces s') = ns_file (at_nonces s)
         \<and> (at_nonces s' = at_nonces s
            \<or> set (ns_seen (at_nonces s')) \<subseteq> set (ns_seen (fst (load (at_nonces s))))))"
proof (intro conjI impI)
  assume "ar_ok r"
  from authenticate_ok [OF assms this] obtain secret role t where a:
    "map_of (au_keys au) (pa_key_id (request_parts q)) = Some secret"
    "map_of (au_roles au) (pa_key_id (request_parts q)) = Some role" "role \<in> set ROLES"
    "parse_iso (pa_timestamp (request_parts q)) = Some t"
    "in_window (au_window_s au) (au_clock au (at_ticks s)) t"
    "claim au q secret role (spend_tick s) = (s', Inr r)" .
  note c = claim_ok [OF a(6) \<open>ar_ok r\<close>]
  show "\<exists>secret role t. map_of (au_keys au) (pa_key_id (request_parts q)) = Some secret
        \<and> map_of (au_roles au) (pa_key_id (request_parts q)) = Some role \<and> role \<in> set ROLES
        \<and> ar_role r = Some role
        \<and> (\<forall>required. rq_required_role q = Some required \<longrightarrow>
             required \<in> set ROLES \<and> index_of required ROLES \<le> index_of role ROLES)
        \<and> parse_iso (pa_timestamp (request_parts q)) = Some t
        \<and> in_window (au_window_s au) (au_clock au (at_ticks s)) t
        \<and> header (rq_headers q) ''X-Signature''
            = au_hmac au secret (canonical_string (au_sha au) (request_parts q))
        \<and> \<not> knows (pa_nonce (request_parts q))
              (purge (utc_instant (au_clock au (Suc (at_ticks s)))) (fst (load (at_nonces s))))"
    using a(1-5) c(1-4)
    by (intro exI [of _ secret] exI [of _ role] exI [of _ t])
       (auto simp: role_allows_def verify_signature_def sign_def split: if_splits)
next
  assume "ar_reason r \<in> {''missing_header'', ''unknown_key'', ''stale_timestamp'', ''replayed_nonce'', ''bad_signature''}"
  then have "ar_reason r \<notin> {''ok'', ''forbidden''}" by auto
  from authenticate_unclaimed [OF assms this]
  show "ns_file (at_nonces s') = ns_file (at_nonces s)"
    "at_nonces s' = at_nonces s \<or> set (ns_seen (at_nonces s')) \<subseteq> set (ns_seen (fst (load (at_nonces s))))"
    by blast+
qed

lemma accepted_request_is_signed_example:
  "\<exists>s r t. authenticate ex_auth ex_call ex_auth_state = (s, Inr r) \<and> ar_ok r
     \<and> parse_iso ''2027-01-19T00:00:00+00:00'' = Some t \<and> in_window (Fin 300) ex_stamp t"
proof -
  obtain s r where one: "authenticate ex_auth ex_call ex_auth_state = (s, Inr r)" "ar_ok r"
    using ex_call_accepted by (auto split: prod.splits sum.splits)
  have "pa_timestamp (request_parts ex_call) = ''2027-01-19T00:00:00+00:00''" by code_simp
  with accepted_request_is_signed [OF one(1)] one show ?thesis by (fastforce simp: ex_auth_def)
qed

section \<open>Promotion and watching\<close>

text \<open>A promotion is complete exactly when every item of its checklist holds: enough reconciled
  sessions, every required drill, every setup past each validation gate, enough realised fills, the
  demonstrations and a signature, and for live a positive hard cap and approval threshold. The
  blockers are the missing items. No other profile exists, the order path opens only with its
  opt-ins, and an order passes the hard cap only with finite numbers within it.\<close>

theorem promotion_complete_iff:
  assumes "promotion_report profile ev = Inr rep"
  shows "profile \<in> {''signal'', ''paper'', ''live''}
    \<and> (pr_complete rep \<longleftrightarrow> pr_blockers rep = [])
    \<and> pr_blockers rep = map fst (filter (\<lambda>i. \<not> snd i) (pr_items rep))
    \<and> (pr_complete rep \<longleftrightarrow>
         ev_paper_sessions_required ev \<le> ev_sessions_reconciled ev
         \<and> ev_required_drills ev \<noteq> [] \<and> set (ev_required_drills ev) \<subseteq> set (ev_drills_passed ev)
         \<and> (\<exists>d. ev_validation ev = Some d \<and> d \<noteq> [] \<and> (\<forall>(setup, v) \<in> set d. setup_passes v))
         \<and> 50 \<le> realised_fills (ev_validation ev)
         \<and> ev_kill_switch_tested ev \<and> ev_daily_loss_tested ev \<and> ev_stale_data_tested ev \<and> ev_backups_tested ev
         \<and> (\<exists>s. ev_owner_signed_date ev = Some s \<and> strip s \<noteq> [])
         \<and> (profile = ''live'' \<longrightarrow>
              positive_num (ev_hard_cap_usd ev) \<and> positive_num (ev_approval_threshold_usd ev)))
    \<and> (fst (opt_ins mode execute ack) \<longleftrightarrow> execute \<and> (mode = ''paper'' \<or> mode = ''live'' \<and> ack))
    \<and> (hard_cap_violation notional cap = None \<longleftrightarrow>
         cap = JNull \<or> (\<exists>c n. num cap = Some (Fin c) \<and> 0 < c \<and> num notional = Some (Fin n) \<and> n \<le> c))"
proof (intro conjI)
  note rep = report_complete [OF assms]
  show "profile \<in> {''signal'', ''paper'', ''live''}"
    using assms by (auto simp: promotion_report_def VALID_MODES_def split: if_splits)
  show "pr_complete rep \<longleftrightarrow> pr_blockers rep = []"
    using assms by (auto simp: promotion_report_def Let_def split: if_splits)
  show "pr_blockers rep = map fst (filter (\<lambda>i. \<not> snd i) (pr_items rep))" using rep by simp
  have drills: "filter (\<lambda>d. d \<notin> set (ev_drills_passed ev)) (ev_required_drills ev) = []
      \<longleftrightarrow> set (ev_required_drills ev) \<subseteq> set (ev_drills_passed ev)"
    by (auto simp: filter_empty_conv)
  have "pr_complete rep \<longleftrightarrow> (\<forall>i \<in> set (checklist profile ev). snd i)" using rep by blast
  also have "\<dots> \<longleftrightarrow> ev_paper_sessions_required ev \<le> ev_sessions_reconciled ev
         \<and> ev_required_drills ev \<noteq> [] \<and> set (ev_required_drills ev) \<subseteq> set (ev_drills_passed ev)
         \<and> (\<exists>d. ev_validation ev = Some d \<and> d \<noteq> [] \<and> (\<forall>(setup, v) \<in> set d. setup_passes v))
         \<and> 50 \<le> realised_fills (ev_validation ev)
         \<and> ev_kill_switch_tested ev \<and> ev_daily_loss_tested ev \<and> ev_stale_data_tested ev \<and> ev_backups_tested ev
         \<and> (\<exists>s. ev_owner_signed_date ev = Some s \<and> strip s \<noteq> [])
         \<and> (profile = ''live'' \<longrightarrow>
              positive_num (ev_hard_cap_usd ev) \<and> positive_num (ev_approval_threshold_usd ev))"
    unfolding checklist_def Let_def drills validation_failures_Nil
    by (cases "profile = ''live''"; cases "ev_owner_signed_date ev")
      (simp_all add: opt_ins_always_enforced MIN_COST_MODEL_FILLS_def conj_ac)
  finally show "pr_complete rep \<longleftrightarrow> \<dots>" .
  show "fst (opt_ins mode execute ack) \<longleftrightarrow> execute \<and> (mode = ''paper'' \<or> mode = ''live'' \<and> ack)"
    by (auto simp: opt_ins_def)
  show "hard_cap_violation notional cap = None \<longleftrightarrow>
         cap = JNull \<or> (\<exists>c n. num cap = Some (Fin c) \<and> 0 < c \<and> num notional = Some (Fin n) \<and> n \<le> c)"
    using num_fin [of cap] num_fin [of notional]
    by (auto simp: hard_cap_violation_def zero_pyfloat_def not_le not_less split: option.splits if_splits)
qed

definition ex_evidence :: evidence where
  "ex_evidence =
     \<lparr>ev_sessions_reconciled = 20, ev_drills_passed = [''D1'', ''D2''], ev_required_drills = [''D1''],
      ev_paper_sessions_required = MIN_PAPER_SESSIONS,
      ev_validation = Some [(''ORB'', JObj [(''dsr'', JFloat (Fin (97 / 100))), (''pbo'', JFloat (Fin (1 / 100))),
        (''trades'', JInt 60), (''oos_months'', JInt 8), (''n'', JInt 4)])],
      ev_kill_switch_tested = True, ev_stale_data_tested = True, ev_daily_loss_tested = True,
      ev_hard_cap_usd = JNull, ev_approval_threshold_usd = JNull, ev_backups_tested = True,
      ev_owner_signed_date = Some ''2026-09-01''\<rparr>"

lemma promotion_complete_iff_example:
  "\<exists>paper live. promotion_report ''paper'' ex_evidence = Inr paper \<and> pr_complete paper
     \<and> promotion_report ''live'' ex_evidence = Inr live \<and> \<not> pr_complete live"
proof -
  have "(case promotion_report ''paper'' ex_evidence of Inr r \<Rightarrow> pr_complete r | _ \<Rightarrow> False)"
    "\<not> isl (promotion_report ''live'' ex_evidence)" "\<not> positive_num (ev_hard_cap_usd ex_evidence)" by code_simp+
  then obtain paper live where r: "promotion_report ''paper'' ex_evidence = Inr paper" "pr_complete paper"
    "promotion_report ''live'' ex_evidence = Inr live"
    by (cases "promotion_report ''live'' ex_evidence") (auto split: sum.splits)
  with promotion_complete_iff [OF r(3)] \<open>\<not> positive_num (ev_hard_cap_usd ex_evidence)\<close> show ?thesis by blast
qed

text \<open>While the scan is confined to regular hours, results are shown only from polls inside a
  session, before its bell and confirmed by the broker's clock where that is asked for; the loop
  never announces the same thing twice in a row, and the heartbeat goes out on every poll, open or
  closed.\<close>

theorem watch_confined:
  assumes "watch_run cfg z listening cs w = (w', out)" "wt_last_reason w = None"
  shows "(\<forall>r. Shown r \<in> set out \<longrightarrow>
      (\<exists>c \<in> set cs. r \<in> set (cy_results c)
         \<and> (cfg_scan_rth_only cfg \<longrightarrow> is_session (date_of (to_et z (cy_stamp c)))
              \<and> OPEN_ET \<le> time_of (to_et z (cy_stamp c))
              \<and> wall_us (to_et z (cy_stamp c)) < closing_wall (date_of (to_et z (cy_stamp c)))
              \<and> (cfg_scan_confirm_broker_clock cfg \<longrightarrow> cy_broker c = Some True))))
    \<and> successively (\<noteq>) (announcements out)
    \<and> beats out = length (takeWhile (\<lambda>c. \<not> cy_stop c) cs)"
proof -
  have "last_said None w" using assms(2) by (simp add: last_said_def)
  note said = watch_run_said [OF assms(1) this] and shown = watch_run_shown [OF assms(1)]
  have "\<exists>c \<in> set cs. r \<in> set (cy_results c)
         \<and> (cfg_scan_rth_only cfg \<longrightarrow> is_session (date_of (to_et z (cy_stamp c)))
              \<and> OPEN_ET \<le> time_of (to_et z (cy_stamp c))
              \<and> wall_us (to_et z (cy_stamp c)) < closing_wall (date_of (to_et z (cy_stamp c)))
              \<and> (cfg_scan_confirm_broker_clock cfg \<longrightarrow> cy_broker c = Some True))" if "Shown r \<in> set out" for r
  proof -
    from shown [OF that] obtain c where c: "c \<in> set cs" "r \<in> set (cy_results c)"
      "fst (scan_window cfg z (cy_stamp c) (cy_broker c))" by blast
    then obtain reason where "scan_window cfg z (cy_stamp c) (cy_broker c) = (True, reason)"
      by (cases "scan_window cfg z (cy_stamp c) (cy_broker c)") auto
    from scan_window_open [OF this] c show ?thesis by blast
  qed
  with said watch_run_beats [OF assms(1)] show ?thesis by blast
qed

definition ex_cycle :: "int \<Rightarrow> cycle" where
  \<comment> \<open>a poll on 1 July 2026, at an hour UTC\<close>
  "ex_cycle hour = \<lparr>cy_stop = False,
     cy_stamp = \<lparr>wall_us = date_at 2026 7 1 * us_per_day + hour * hour_us, utc_off = Some 0\<rparr>,
     cy_broker = Some True, cy_results = [\<lparr>re_kind = ''emitted'', re_reasons = [], re_path = Some ''p''\<rparr>]\<rparr>"

definition ex_watcher :: watcher where
  "ex_watcher = \<lparr>wt_last_reason = None, wt_last_open_reason = None, wt_reported = []\<rparr>"

lemma watch_confined_example:
  "\<exists>w out. watch_run default_config US_EASTERN True [ex_cycle 12, ex_cycle 13, ex_cycle 14, ex_cycle 15] ex_watcher
       = (w, out) \<and> announcements out = [(False, ''pre''), (True, ''rth'')] \<and> beats out = 4"
proof -
  let ?run = "watch_run default_config US_EASTERN True [ex_cycle 12, ex_cycle 13, ex_cycle 14, ex_cycle 15] ex_watcher"
  have "announcements (snd ?run) = [(False, ''pre''), (True, ''rth'')]" by code_simp
  moreover have "beats (snd ?run) = length (takeWhile (\<lambda>c. \<not> cy_stop c) [ex_cycle 12, ex_cycle 13, ex_cycle 14, ex_cycle 15])"
    using watch_confined [of default_config US_EASTERN True "[ex_cycle 12, ex_cycle 13, ex_cycle 14, ex_cycle 15]"
      ex_watcher "fst ?run" "snd ?run"] by (simp only: prod.collapse ex_watcher_def watcher.simps simp_thms)
  moreover have "\<dots> = 4" by (simp add: ex_cycle_def)
  ultimately show ?thesis by (metis prod.collapse)
qed

end
